(* ===== verification/Prelude.thy ===== *)
theory Prelude
  imports Main "HOL-Library.Word" "HOL-Library.List_Lexorder"
begin

unbundle bit_operations_syntax

text \<open>
  Shared vocabulary of the development: Rust's machine integers, byte strings and UTF-8
  validation, the error-and-state reader in which every parser of the code is written, and the
  little- and big-endian encodings of integers.

  A Rust \<open>String\<close> is a \<open>string\<close> (a list of bytes as \<open>char\<close>s) whose bytes are valid UTF-8
  (\<open>rust_string\<close>).  A call that can fail returns \<open>error + value\<close>; a panic is one of the
  errors, kept apart from the values the code returns with \<open>Err\<close>.
\<close>

section \<open>Machine integers and bytes\<close>

type_synonym u8 = "8 word"
type_synonym u16 = "16 word"
type_synonym u32 = "32 word"
type_synonym u64 = "64 word"
type_synonym bytes = "u8 list"

named_theorems reads_intro

text \<open>Bytes of a string (\<open>str::as_bytes\<close>) and back.\<close>

definition byte_of_char :: "char \<Rightarrow> u8" where
  "byte_of_char c = word_of_nat (of_char c)"

definition char_of_byte :: "u8 \<Rightarrow> char" where
  "char_of_byte b = char_of (unat b)"

definition as_bytes :: "string \<Rightarrow> bytes" where
  "as_bytes s = map byte_of_char s"

definition string_of_bytes :: "bytes \<Rightarrow> string" where
  "string_of_bytes bs = map char_of_byte bs"

lemma char_of_byte_of_char [simp]: "char_of_byte (byte_of_char c) = c"
  by (simp add: char_of_byte_def byte_of_char_def unat_of_nat)

lemma byte_of_char_of_byte [simp]: "byte_of_char (char_of_byte b) = b"
proof -
  have "unat b < 256" using unsigned_less [of b, where 'a = nat] by simp
  then show ?thesis
    by (simp add: char_of_byte_def byte_of_char_def)
qed

lemma string_of_bytes_as_bytes [simp]: "string_of_bytes (as_bytes s) = s"
  by (simp add: string_of_bytes_def as_bytes_def comp_def)

lemma as_bytes_string_of_bytes [simp]: "as_bytes (string_of_bytes bs) = bs"
  by (simp add: string_of_bytes_def as_bytes_def comp_def)

lemma length_as_bytes [simp]: "length (as_bytes s) = length s"
  by (simp add: as_bytes_def)

lemma as_bytes_append [simp]: "as_bytes (s @ t) = as_bytes s @ as_bytes t"
  by (simp add: as_bytes_def)

lemma as_bytes_Nil [simp]: "as_bytes [] = []"
  by (simp add: as_bytes_def)

lemma as_bytes_inject [simp]: "as_bytes s = as_bytes t \<longleftrightarrow> s = t"
  by (metis string_of_bytes_as_bytes)

lemma length_string_of_bytes [simp]: "length (string_of_bytes bs) = length bs"
  by (simp add: string_of_bytes_def)

section \<open>UTF-8\<close>

text \<open>The table of well-formed sequences that \<open>String::from_utf8\<close> checks.\<close>

definition in_range :: "nat \<Rightarrow> nat \<Rightarrow> u8 \<Rightarrow> bool" where
  "in_range lo hi b \<longleftrightarrow> lo \<le> unat b \<and> unat b \<le> hi"

text \<open>The ranges of the continuation bytes that a leading byte asks for, \<open>None\<close> if no
  well-formed sequence starts with it.\<close>

definition utf8_tail :: "u8 \<Rightarrow> (nat \<times> nat) list option" where
  "utf8_tail b =
     (if in_range 0x00 0x7F b then Some []
      else if in_range 0xC2 0xDF b then Some [(0x80, 0xBF)]
      else if in_range 0xE0 0xE0 b then Some [(0xA0, 0xBF), (0x80, 0xBF)]
      else if in_range 0xE1 0xEC b then Some [(0x80, 0xBF), (0x80, 0xBF)]
      else if in_range 0xED 0xED b then Some [(0x80, 0x9F), (0x80, 0xBF)]
      else if in_range 0xEE 0xEF b then Some [(0x80, 0xBF), (0x80, 0xBF)]
      else if in_range 0xF0 0xF0 b then Some [(0x90, 0xBF), (0x80, 0xBF), (0x80, 0xBF)]
      else if in_range 0xF1 0xF3 b then Some [(0x80, 0xBF), (0x80, 0xBF), (0x80, 0xBF)]
      else if in_range 0xF4 0xF4 b then Some [(0x80, 0x8F), (0x80, 0xBF), (0x80, 0xBF)]
      else None)"

fun utf8_cont :: "(nat \<times> nat) list \<Rightarrow> bytes \<Rightarrow> bool" where
  "utf8_cont [] bs = True"
| "utf8_cont (r # rs) [] = False"
| "utf8_cont ((lo, hi) # rs) (b # bs) = (in_range lo hi b \<and> utf8_cont rs bs)"

function utf8_valid :: "bytes \<Rightarrow> bool" where
  "utf8_valid [] = True"
| "utf8_valid (b # bs) =
     (case utf8_tail b of None \<Rightarrow> False
      | Some rs \<Rightarrow> utf8_cont rs bs \<and> utf8_valid (drop (length rs) bs))"
  by pat_completeness auto
termination
  by (relation "measure length") auto

definition rust_string :: "string \<Rightarrow> bool" where
  "rust_string s \<longleftrightarrow> utf8_valid (as_bytes s)"

definition from_utf8 :: "bytes \<Rightarrow> string option" where
  "from_utf8 bs = (if utf8_valid bs then Some (string_of_bytes bs) else None)"

lemma from_utf8_as_bytes [simp]: "rust_string s \<Longrightarrow> from_utf8 (as_bytes s) = Some s"
  by (simp add: rust_string_def from_utf8_def)

lemma from_utf8_Some: "from_utf8 bs = Some s \<longleftrightarrow> bs = as_bytes s \<and> rust_string s"
  by (auto simp: rust_string_def from_utf8_def)

lemma rust_string_Nil [simp]: "rust_string []"
  by (simp add: rust_string_def)

lemma utf8_cont_append: "utf8_cont rs xs \<Longrightarrow> utf8_cont rs (xs @ ys) \<and> length rs \<le> length xs"
  by (induction rs xs rule: utf8_cont.induct) auto

lemma utf8_valid_append: "utf8_valid xs \<Longrightarrow> utf8_valid (xs @ ys) = utf8_valid ys"
  by (induction xs rule: utf8_valid.induct) (auto split: option.splits dest: utf8_cont_append)

lemma utf8_valid_ascii: "(\<And>b. b \<in> set bs \<Longrightarrow> unat b < 128) \<Longrightarrow> utf8_valid bs"
proof (induction bs)
  case (Cons b bs)
  then have "unat b < 128" by simp
  then have "in_range 0x00 0x7F b" unfolding in_range_def by linarith
  then have "utf8_tail b = Some []" unfolding utf8_tail_def by (simp only: if_True)
  moreover have "utf8_valid bs" using Cons by simp
  ultimately show ?case by simp
qed simp

lemma rust_string_append: "rust_string s \<Longrightarrow> rust_string (s @ t) = rust_string t"
  by (simp add: rust_string_def utf8_valid_append)

text \<open>No byte of a valid string is \<open>0xff\<close>; the checksums use it as a terminator.\<close>

lemma utf8_tail_bound: "utf8_tail b = Some rs \<Longrightarrow> b \<noteq> 0xff \<and> (\<forall>(lo, hi) \<in> set rs. hi < 0xff)"
  by (auto simp: utf8_tail_def in_range_def split: if_splits)

lemma utf8_cont_bound:
  "utf8_cont rs bs \<Longrightarrow> \<forall>(lo, hi) \<in> set rs. hi < 0xff \<Longrightarrow> 0xff \<notin> set (take (length rs) bs)"
  by (induction rs bs rule: utf8_cont.induct) (auto simp: in_range_def)

lemma set_take_drop: "x \<in> set xs \<Longrightarrow> x \<in> set (take n xs) \<or> x \<in> set (drop n xs)"
  by (metis UnE append_take_drop_id set_append)

lemma utf8_valid_no_ff: "utf8_valid bs \<Longrightarrow> 0xff \<notin> set bs"
proof (induction bs rule: utf8_valid.induct)
  case (2 b bs)
  from "2.prems" obtain rs where rs: "utf8_tail b = Some rs" "utf8_cont rs bs"
    and v: "utf8_valid (drop (length rs) bs)"
    by (auto split: option.splits)
  have b: "b \<noteq> 0xff" and hi: "\<forall>(lo, hi) \<in> set rs. hi < 0xff"
    by (rule conjunct1 [OF utf8_tail_bound [OF rs(1)]], rule conjunct2 [OF utf8_tail_bound [OF rs(1)]])
  have "0xff \<notin> set (drop (length rs) bs)"
    by (rule "2.IH" [OF rs(1) v])
  with utf8_cont_bound [OF rs(2) hi] set_take_drop [of _ bs "length rs"]
  have "0xff \<notin> set bs" by metis
  with b show ?case by (metis set_ConsD)
qed simp

section \<open>Readers: state passing with errors\<close>

text \<open>
  A reader takes the state and returns either an error or a value with the new state.
  \<open>rbind\<close> is Rust's \<open>?\<close> operator: it stops at the first error.
\<close>

type_synonym ('s, 'e, 'a) reader = "'s \<Rightarrow> 'e + ('a \<times> 's)"

definition rret :: "'a \<Rightarrow> ('s, 'e, 'a) reader" where
  "rret a = (\<lambda>s. Inr (a, s))"

definition rfail :: "'e \<Rightarrow> ('s, 'e, 'a) reader" where
  "rfail e = (\<lambda>s. Inl e)"

definition rbind :: "('s, 'e, 'a) reader \<Rightarrow> ('a \<Rightarrow> ('s, 'e, 'b) reader) \<Rightarrow> ('s, 'e, 'b) reader" where
  "rbind m k = (\<lambda>s. case m s of Inl e \<Rightarrow> Inl e | Inr (a, s') \<Rightarrow> k a s')"

text \<open>\<open>(0..n).map(|_| m).collect::<Result<Vec<_>>>()\<close>: in order, up to the first error.\<close>

fun rtimes :: "nat \<Rightarrow> ('s, 'e, 'a) reader \<Rightarrow> ('s, 'e, 'a list) reader" where
  "rtimes 0 m = rret []"
| "rtimes (Suc n) m = rbind m (\<lambda>x. rbind (rtimes n m) (\<lambda>xs. rret (x # xs)))"

lemma rbind_apply: "rbind m k s = (case m s of Inl e \<Rightarrow> Inl e | Inr (a, s') \<Rightarrow> k a s')"
  by (simp add: rbind_def)

lemma rret_apply: "rret a s = Inr (a, s)"
  by (simp add: rret_def)

lemma rfail_apply: "rfail e s = Inl e"
  by (simp add: rfail_def)

lemmas reader_apply = rbind_apply rret_apply rfail_apply

lemma rret_Inr [simp]: "rret a s = Inr (b, t) \<longleftrightarrow> b = a \<and> t = s"
  by (auto simp: rret_apply)

lemma rret_Inl [simp]: "rret a s \<noteq> Inl e"
  by (simp add: rret_apply)

lemma rfail_Inr [simp]: "rfail e s \<noteq> Inr r"
  by (simp add: rfail_apply)

lemma rfail_Inl [simp]: "rfail e s = Inl e' \<longleftrightarrow> e' = e"
  by (auto simp: rfail_apply)

lemma rbind_Inr: "rbind m k s = Inr (b, t) \<longleftrightarrow> (\<exists>a s'. m s = Inr (a, s') \<and> k a s' = Inr (b, t))"
  by (auto simp: rbind_apply split: sum.splits prod.splits)

lemma rbind_Inl:
  "rbind m k s = Inl e \<longleftrightarrow> m s = Inl e \<or> (\<exists>a s'. m s = Inr (a, s') \<and> k a s' = Inl e)"
  by (auto simp: rbind_apply split: sum.splits prod.splits)

section \<open>Integers as bytes\<close>

text \<open>\<open>n\<close> bytes of a number, least significant first (\<open>to_le_bytes\<close>) or last
  (\<open>to_be_bytes\<close>, which the \<open>bytes\<close> crate's \<open>put_u32\<close> and friends write).\<close>

fun le_bytes :: "nat \<Rightarrow> nat \<Rightarrow> bytes" where
  "le_bytes 0 x = []"
| "le_bytes (Suc n) x = word_of_nat (x mod 256) # le_bytes n (x div 256)"

fun le_value :: "bytes \<Rightarrow> nat" where
  "le_value [] = 0"
| "le_value (b # bs) = unat b + 256 * le_value bs"

definition be_bytes :: "nat \<Rightarrow> nat \<Rightarrow> bytes" where
  "be_bytes n x = rev (le_bytes n x)"

definition be_value :: "bytes \<Rightarrow> nat" where
  "be_value bs = le_value (rev bs)"

lemma length_le_bytes [simp]: "length (le_bytes n x) = n"
  by (induction n arbitrary: x) auto

lemma length_be_bytes [simp]: "length (be_bytes n x) = n"
  by (simp add: be_bytes_def)

lemma le_value_le_bytes: "le_value (le_bytes n x) = x mod 256 ^ n"
proof (induction n arbitrary: x)
  case (Suc n)
  have "unat (word_of_nat (x mod 256) :: u8) = x mod 256"
    by (simp add: unat_of_nat)
  then show ?case
    using Suc mod_mult2_eq [of x 256 "256 ^ n"] by simp
qed simp

lemma be_value_be_bytes: "be_value (be_bytes n x) = x mod 256 ^ n"
  by (simp add: be_value_def be_bytes_def le_value_le_bytes)

lemma le_value_less: "le_value bs < 256 ^ length bs"
proof (induction bs)
  case (Cons b bs)
  have "unat b < 256" using unsigned_less [of b, where 'a = nat] by simp
  moreover have "256 * le_value bs + 256 \<le> 256 * 256 ^ length bs"
    using Cons by (metis Suc_leI mult_Suc_right mult_le_mono2 add.commute)
  ultimately show ?case by simp
qed simp

lemma le_bytes_le_value: "le_bytes (length bs) (le_value bs) = bs"
proof (induction bs)
  case (Cons b bs)
  have "unat b < 256" using unsigned_less [of b, where 'a = nat] by simp
  then show ?case using Cons by simp
qed simp

lemma be_bytes_be_value: "be_bytes (length bs) (be_value bs) = bs"
  using le_bytes_le_value [of "rev bs"] by (simp add: be_bytes_def be_value_def)

lemma be_value_less: "be_value bs < 256 ^ length bs"
  using le_value_less [of "rev bs"] by (simp add: be_value_def)

text \<open>The byte \<open>(v >> k) as u8\<close> of a word.\<close>

lemma byte_of_word:
  "word_of_nat (unat v div 2 ^ k mod 256) = (ucast (drop_bit k (v :: 'a::len word)) :: u8)"
proof (rule word_unat_eq_iff [THEN iffD2])
  have "unat v mod 2 ^ LENGTH('a) = unat v"
    by (simp add: unsigned_less)
  then show "unat (word_of_nat (unat v div 2 ^ k mod 256) :: u8) = unat (ucast (drop_bit k v) :: u8)"
    by (simp add: unat_of_nat unsigned_ucast_eq unsigned_drop_bit_eq take_bit_eq_mod
        drop_bit_eq_div [where 'a = nat])
qed

lemma add_3_4_Suc: "n + 3 = Suc (Suc (Suc n))" "n + 4 = Suc (Suc (Suc (Suc n)))"
  by simp_all

lemma ucast_byte_u64_inject: "(ucast (b :: u8) :: u64) = ucast c \<longleftrightarrow> b = c"
proof
  assume "(ucast b :: u64) = ucast c"
  then have "unat (ucast b :: u64) = unat (ucast c :: u64)" by (rule arg_cong)
  moreover have "unat (ucast b :: u64) = unat b" for b :: u8
    using unsigned_less [of b, where 'a = nat]
    by (simp add: unsigned_ucast_eq take_bit_eq_mod)
  ultimately show "b = c" by (simp add: word_unat_eq_iff)
qed simp

lemma le_bytes_2: "le_bytes 2 x = [word_of_nat (x mod 256), word_of_nat (x div 2 ^ 8 mod 256)]"
proof -
  have "(2 :: nat) = Suc (Suc 0)" by simp
  then have "le_bytes 2 x = le_bytes (Suc (Suc 0)) x" by (rule arg_cong)
  then show ?thesis by simp
qed

lemma le_bytes_4:
  "le_bytes 4 x = [word_of_nat (x mod 256), word_of_nat (x div 2 ^ 8 mod 256),
     word_of_nat (x div 2 ^ 16 mod 256), word_of_nat (x div 2 ^ 24 mod 256)]"
proof -
  have "(4 :: nat) = Suc (Suc (Suc (Suc 0)))" by simp
  then have "le_bytes 4 x = le_bytes (Suc (Suc (Suc (Suc 0)))) x" by (rule arg_cong)
  then show ?thesis by (simp add: div_mult2_eq [symmetric])
qed

section \<open>Numbers in names\<close>

text \<open>A number as \<open>format!\<close> writes it.\<close>

fun decimal :: "nat \<Rightarrow> string" where
  "decimal n = (if n < 10 then [char_of (48 + n)] else decimal (n div 10) @ [char_of (48 + n mod 10)])"

declare decimal.simps [simp del]

end
