(* ===== verification/MetaTypes.thy ===== *)
theory MetaTypes
  imports Prelude
begin

text \<open>
  The data model of \<open>uniffi_meta\<close>: \<open>types.rs\<close> (the API-level type system) and the structures of
  \<open>lib.rs\<close> that describe one exported item each.  A struct is a record whose field names carry a
  short prefix (Rust scopes field names to their struct, HOL does not); an enum is a datatype
  whose constructors are named \<open>Enum_Variant\<close>.
\<close>

section \<open>Types (\<open>types.rs\<close>)\<close>

datatype TraitKind = TraitKind_RustOnly | TraitKind_Both | TraitKind_ForeignOnly

datatype ObjectImpl = ObjectImpl_Struct | ObjectImpl_Trait TraitKind

definition rust_name_for :: "ObjectImpl \<Rightarrow> string \<Rightarrow> string" where
  "rust_name_for imp nm =
     (case imp of ObjectImpl_Trait k \<Rightarrow> ''dyn r#'' @ nm | ObjectImpl_Struct \<Rightarrow> ''r#'' @ nm)"

fun is_trait_interface :: "ObjectImpl \<Rightarrow> bool" where
  "is_trait_interface (ObjectImpl_Trait k) = True"
| "is_trait_interface ObjectImpl_Struct = False"

fun has_callback_interface :: "ObjectImpl \<Rightarrow> bool" where
  "has_callback_interface (ObjectImpl_Trait TraitKind_Both) = True"
| "has_callback_interface (ObjectImpl_Trait TraitKind_ForeignOnly) = True"
| "has_callback_interface _ = False"

fun has_struct :: "ObjectImpl \<Rightarrow> bool" where
  "has_struct ObjectImpl_Struct = True"
| "has_struct (ObjectImpl_Trait k) = False"

fun has_foreign :: "TraitKind \<Rightarrow> bool" where
  "has_foreign TraitKind_Both = True"
| "has_foreign TraitKind_ForeignOnly = True"
| "has_foreign TraitKind_RustOnly = False"

fun has_rust :: "TraitKind \<Rightarrow> bool" where
  "has_rust TraitKind_RustOnly = True"
| "has_rust TraitKind_Both = True"
| "has_rust TraitKind_ForeignOnly = False"

datatype Type =
    Type_UInt8
  | Type_Int8
  | Type_UInt16
  | Type_Int16
  | Type_UInt32
  | Type_Int32
  | Type_UInt64
  | Type_Int64
  | Type_Float32
  | Type_Float64
  | Type_Boolean
  | Type_String
  | Type_Bytes
  | Type_Timestamp
  | Type_Duration
  | Type_Object string string ObjectImpl
  | Type_Record string string
  | Type_Enum string string
  | Type_CallbackInterface string string
  | Type_Box Type
  | Type_Optional Type
  | Type_Sequence Type
  | Type_Map Type Type
  | Type_Set Type
  | Type_Custom string string Type

text \<open>\<open>iter_types\<close> is the type itself followed by \<open>iter_nested_types\<close>; \<open>Box\<close> falls into the last
  case of the latter, so its content is not visited.\<close>

fun iter_types :: "Type \<Rightarrow> Type list"
  and iter_nested_types :: "Type \<Rightarrow> Type list" where
  "iter_types t = t # iter_nested_types t"
| "iter_nested_types (Type_Optional t) = iter_types t"
| "iter_nested_types (Type_Sequence t) = iter_types t"
| "iter_nested_types (Type_Set t) = iter_types t"
| "iter_nested_types (Type_Map k v) = iter_types k @ iter_types v"
| "iter_nested_types (Type_Custom mp nm t) = iter_types t"
| "iter_nested_types t = []"

fun type_name :: "Type \<Rightarrow> string option" where
  "type_name (Type_Object mp nm imp) = Some nm"
| "type_name (Type_Record mp nm) = Some nm"
| "type_name (Type_Enum mp nm) = Some nm"
| "type_name (Type_Custom mp nm t) = Some nm"
| "type_name (Type_CallbackInterface mp nm) = Some nm"
| "type_name _ = None"

fun type_module_path :: "Type \<Rightarrow> string option" where
  "type_module_path (Type_Object mp nm imp) = Some mp"
| "type_module_path (Type_Record mp nm) = Some mp"
| "type_module_path (Type_Enum mp nm) = Some mp"
| "type_module_path (Type_Custom mp nm t) = Some mp"
| "type_module_path (Type_CallbackInterface mp nm) = Some mp"
| "type_module_path _ = None"

text \<open>\<open>s.split("::").next().unwrap()\<close>: what comes before the first \<open>::\<close> (an iterator of
  \<open>split\<close> always has a first element).\<close>

fun split_colons_first :: "string \<Rightarrow> string" where
  "split_colons_first [] = []"
| "split_colons_first [c] = [c]"
| "split_colons_first (c # d # s) =
     (if c = CHR '':'' \<and> d = CHR '':'' then [] else c # split_colons_first (d # s))"

definition type_crate_name :: "Type \<Rightarrow> string option" where
  "type_crate_name t = map_option split_colons_first (type_module_path t)"

fun type_rename :: "string \<Rightarrow> Type \<Rightarrow> Type" where
  "type_rename nn (Type_Object mp nm imp) = Type_Object mp nn imp"
| "type_rename nn (Type_Record mp nm) = Type_Record mp nn"
| "type_rename nn (Type_Enum mp nm) = Type_Enum mp nn"
| "type_rename nn (Type_Custom mp nm t) = Type_Custom mp nn t"
| "type_rename nn (Type_CallbackInterface mp nm) = Type_CallbackInterface mp nn"
| "type_rename nn t = t"

text \<open>The first step of \<open>rename_recursive\<close>, then its descent.\<close>

definition rename_self :: "(string \<Rightarrow> string) \<Rightarrow> Type \<Rightarrow> Type" where
  "rename_self f t = (case type_name t of Some nm \<Rightarrow> type_rename (f nm) t | None \<Rightarrow> t)"

fun rename_recursive :: "(string \<Rightarrow> string) \<Rightarrow> Type \<Rightarrow> Type" where
  "rename_recursive f (Type_Optional t) = Type_Optional (rename_recursive f t)"
| "rename_recursive f (Type_Sequence t) = Type_Sequence (rename_recursive f t)"
| "rename_recursive f (Type_Set t) = Type_Set (rename_recursive f t)"
| "rename_recursive f (Type_Map k v) = Type_Map (rename_recursive f k) (rename_recursive f v)"
| "rename_recursive f (Type_Custom mp nm t) = Type_Custom mp (f nm) (rename_recursive f t)"
| "rename_recursive f t = rename_self f t"

lemma type_name_rename_recursive:
  "type_name (rename_recursive f t) = map_option f (type_name t)"
  by (cases t) (simp_all add: rename_self_def)

lemma type_module_path_rename_recursive:
  "type_module_path (rename_recursive f t) = type_module_path t"
  by (cases t) (simp_all add: rename_self_def)

lemma iter_nested_types_rename:
  "iter_nested_types (rename_recursive f t) = map (rename_recursive f) (iter_nested_types t)"
  by (induction t) (simp_all add: rename_self_def)

lemma iter_types_rename:
  "iter_types (rename_recursive f t) = map (rename_recursive f) (iter_types t)"
  by (simp add: iter_nested_types_rename)

lemma rename_recursive_comp:
  "rename_recursive f (rename_recursive g t) = rename_recursive (f \<circ> g) t"
  by (induction t) (simp_all add: rename_self_def)

section \<open>The derived order on types\<close>

text \<open>
  \<open>#[derive(PartialOrd, Ord)]\<close> compares the discriminants and then the fields from left to right;
  strings compare by their bytes.  \<open>type_key\<close> lists what is compared, in that order.  The key of a
  type is never a proper prefix of another one's, so the lexicographic order of the keys is the
  derived order (\<open>type_less_Map\<close> and its companions below).
\<close>

primrec trait_kind_rank :: "TraitKind \<Rightarrow> nat" where
  "trait_kind_rank TraitKind_RustOnly = 0"
| "trait_kind_rank TraitKind_Both = 1"
| "trait_kind_rank TraitKind_ForeignOnly = 2"

primrec object_impl_rank :: "ObjectImpl \<Rightarrow> nat" where
  "object_impl_rank ObjectImpl_Struct = 0"
| "object_impl_rank (ObjectImpl_Trait k) = Suc (trait_kind_rank k)"

definition string_key :: "string \<Rightarrow> nat list" where
  "string_key s = map of_char s"

primrec type_key :: "Type \<Rightarrow> nat list list" where
  "type_key Type_UInt8 = [[0]]"
| "type_key Type_Int8 = [[1]]"
| "type_key Type_UInt16 = [[2]]"
| "type_key Type_Int16 = [[3]]"
| "type_key Type_UInt32 = [[4]]"
| "type_key Type_Int32 = [[5]]"
| "type_key Type_UInt64 = [[6]]"
| "type_key Type_Int64 = [[7]]"
| "type_key Type_Float32 = [[8]]"
| "type_key Type_Float64 = [[9]]"
| "type_key Type_Boolean = [[10]]"
| "type_key Type_String = [[11]]"
| "type_key Type_Bytes = [[12]]"
| "type_key Type_Timestamp = [[13]]"
| "type_key Type_Duration = [[14]]"
| "type_key (Type_Object mp nm imp) =
     [[15], string_key mp, string_key nm, [object_impl_rank imp]]"
| "type_key (Type_Record mp nm) = [[16], string_key mp, string_key nm]"
| "type_key (Type_Enum mp nm) = [[17], string_key mp, string_key nm]"
| "type_key (Type_CallbackInterface mp nm) = [[18], string_key mp, string_key nm]"
| "type_key (Type_Box t) = [19] # type_key t"
| "type_key (Type_Optional t) = [20] # type_key t"
| "type_key (Type_Sequence t) = [21] # type_key t"
| "type_key (Type_Map k v) = [22] # type_key k @ type_key v"
| "type_key (Type_Set t) = [23] # type_key t"
| "type_key (Type_Custom mp nm t) = [24] # string_key mp # string_key nm # type_key t"

lemma string_key_inject [simp]: "string_key s = string_key t \<longleftrightarrow> s = t"
  by (simp add: string_key_def inj_map_eq_map inj_on_def)

lemma trait_kind_rank_inject [simp]: "trait_kind_rank a = trait_kind_rank b \<longleftrightarrow> a = b"
  by (cases a; cases b) auto

lemma object_impl_rank_inject [simp]: "object_impl_rank a = object_impl_rank b \<longleftrightarrow> a = b"
  by (cases a; cases b) auto

text \<open>Keys are prefix-free: what follows a key can be told apart from it.\<close>

lemma type_key_prefix_free: "type_key s @ xs = type_key t @ ys \<longleftrightarrow> s = t \<and> xs = ys"
proof (induction s arbitrary: t xs ys)
  case (Type_Map k v)
  show ?case by (cases t) (auto simp: Type_Map.IH)
next
  case (Type_Box s)
  show ?case by (cases t) (auto simp: Type_Box.IH)
next
  case (Type_Optional s)
  show ?case by (cases t) (auto simp: Type_Optional.IH)
next
  case (Type_Sequence s)
  show ?case by (cases t) (auto simp: Type_Sequence.IH)
next
  case (Type_Set s)
  show ?case by (cases t) (auto simp: Type_Set.IH)
next
  case (Type_Custom mp nm s)
  show ?case by (cases t) (auto simp: Type_Custom.IH)
qed (case_tac [!] t, auto)

lemma type_key_inject [simp]: "type_key s = type_key t \<longleftrightarrow> s = t"
  using type_key_prefix_free [of s "[]" t "[]"] by simp

lemma list_less_append:
  fixes xs ys us vs :: "nat list list"
  assumes "\<And>us vs. xs @ us = ys @ vs \<Longrightarrow> xs = ys"
  shows "xs @ us < ys @ vs \<longleftrightarrow> xs < ys \<or> xs = ys \<and> us < vs"
  using assms
proof (induction xs arbitrary: ys)
  case Nil
  then have "ys = []" by (metis append_Nil)
  then show ?case by simp
next
  case (Cons x xs)
  show ?case
  proof (cases ys)
    case Nil
    then show ?thesis using Cons.prems [of "[]" "x # xs"] by simp
  next
    case (Cons y ys')
    have "x = y \<Longrightarrow> xs @ us = ys' @ vs \<Longrightarrow> xs = ys'" for us vs
      using Cons.prems [of us vs] Cons by simp
    then show ?thesis using Cons Cons.IH [of ys'] by auto
  qed
qed

instantiation Type :: linorder
begin

definition less_eq_Type :: "Type \<Rightarrow> Type \<Rightarrow> bool" where
  "less_eq_Type s t \<longleftrightarrow> type_key s \<le> type_key t"

definition less_Type :: "Type \<Rightarrow> Type \<Rightarrow> bool" where
  "less_Type s t \<longleftrightarrow> type_key s < type_key t"

instance
  by standard (auto simp: less_eq_Type_def less_Type_def less_le_not_le)

end

lemma type_less_Map:
  "Type_Map k v < Type_Map k' v' \<longleftrightarrow> k < k' \<or> k = k' \<and> v < v'"
  using list_less_append [of "type_key k" "type_key k'" "type_key v" "type_key v'"]
  by (simp add: less_Type_def type_key_prefix_free)

lemma type_less_wrappers:
  "Type_Box s < Type_Box t \<longleftrightarrow> s < t"
  "Type_Optional s < Type_Optional t \<longleftrightarrow> s < t"
  "Type_Sequence s < Type_Sequence t \<longleftrightarrow> s < t"
  "Type_Set s < Type_Set t \<longleftrightarrow> s < t"
  by (simp_all add: less_Type_def)

lemma type_less_Custom:
  "Type_Custom mp nm s < Type_Custom mp' nm' t \<longleftrightarrow>
     string_key mp < string_key mp' \<or>
     mp = mp' \<and> (string_key nm < string_key nm' \<or> nm = nm' \<and> s < t)"
  by (auto simp: less_Type_def)

lemma type_less_Record:
  "Type_Record mp nm < Type_Record mp' nm' \<longleftrightarrow>
     string_key mp < string_key mp' \<or> mp = mp' \<and> string_key nm < string_key nm'"
  by (auto simp: less_Type_def)

section \<open>Literals and defaults (\<open>lib.rs\<close>)\<close>

datatype Radix = Radix_Decimal | Radix_Octal | Radix_Hexadecimal

text \<open>\<open>u64\<close> and \<open>i64\<close> values are kept as words of 64 bits; an \<open>i64\<close> is read with \<open>sint\<close>.\<close>

datatype LiteralMetadata =
    Literal_Boolean bool
  | Literal_String string
  | Literal_UInt u64 Radix Type
  | Literal_Int u64 Radix Type
  | Literal_Float string Type
  | Literal_Enum string Type
  | Literal_EmptySequence
  | Literal_EmptyMap
  | Literal_EmptySet
  | Literal_None
  | Literal_Some DefaultValueMetadata
and DefaultValueMetadata =
    DefaultValue_Default
  | DefaultValue_Literal LiteralMetadata

definition new_uint :: "u64 \<Rightarrow> LiteralMetadata" where
  "new_uint v = Literal_UInt v Radix_Decimal Type_UInt64"

definition new_int :: "u64 \<Rightarrow> LiteralMetadata" where
  "new_int v = Literal_Int v Radix_Decimal Type_Int64"

section \<open>One record per kind of item (\<open>lib.rs\<close>)\<close>

record NamespaceMetadata =
  ns_crate_name :: string
  ns_name :: string

record UdlFile =
  udl_module_path :: string
  udl_namespace :: string
  udl_file_stub :: string

record FnParamMetadata =
  param_name :: string
  param_ty :: Type
  param_by_ref :: bool
  param_optional :: bool
  param_default :: "DefaultValueMetadata option"

definition param_simple :: "string \<Rightarrow> Type \<Rightarrow> FnParamMetadata" where
  "param_simple nm ty =
     \<lparr>param_name = nm, param_ty = ty, param_by_ref = False, param_optional = False,
      param_default = None\<rparr>"

record FnMetadata =
  fn_module_path :: string
  fn_name :: string
  fn_orig_name :: "string option"
  fn_is_async :: bool
  fn_inputs :: "FnParamMetadata list"
  fn_return_type :: "Type option"
  fn_throws :: "Type option"
  fn_checksum :: "u16 option"
  fn_docstring :: "string option"

record ConstructorMetadata =
  ctor_module_path :: string
  ctor_self_name :: string
  ctor_name :: string
  ctor_orig_name :: "string option"
  ctor_is_async :: bool
  ctor_inputs :: "FnParamMetadata list"
  ctor_throws :: "Type option"
  ctor_checksum :: "u16 option"
  ctor_docstring :: "string option"

definition ctor_is_primary :: "ConstructorMetadata \<Rightarrow> bool" where
  "ctor_is_primary c \<longleftrightarrow> ctor_name c = ''new''"

record MethodMetadata =
  meth_module_path :: string
  meth_self_name :: string
  meth_name :: string
  meth_orig_name :: "string option"
  meth_is_async :: bool
  meth_inputs :: "FnParamMetadata list"
  meth_return_type :: "Type option"
  meth_throws :: "Type option"
  meth_takes_self_by_arc :: bool
  meth_checksum :: "u16 option"
  meth_docstring :: "string option"

record TraitMethodMetadata =
  tmeth_module_path :: string
  tmeth_trait_name :: string
  tmeth_index :: u32
  tmeth_name :: string
  tmeth_orig_name :: "string option"
  tmeth_is_async :: bool
  tmeth_inputs :: "FnParamMetadata list"
  tmeth_return_type :: "Type option"
  tmeth_throws :: "Type option"
  tmeth_takes_self_by_arc :: bool
  tmeth_checksum :: "u16 option"
  tmeth_docstring :: "string option"

definition method_from_trait_method :: "TraitMethodMetadata \<Rightarrow> MethodMetadata" where
  "method_from_trait_method m =
     \<lparr>meth_module_path = tmeth_module_path m, meth_self_name = tmeth_trait_name m,
      meth_name = tmeth_name m, meth_orig_name = tmeth_orig_name m,
      meth_is_async = tmeth_is_async m, meth_inputs = tmeth_inputs m,
      meth_return_type = tmeth_return_type m, meth_throws = tmeth_throws m,
      meth_takes_self_by_arc = tmeth_takes_self_by_arc m, meth_checksum = tmeth_checksum m,
      meth_docstring = tmeth_docstring m\<rparr>"

record FieldMetadata =
  field_name :: string
  field_orig_name :: "string option"
  field_ty :: Type
  field_default :: "DefaultValueMetadata option"
  field_docstring :: "string option"

record RecordMetadata =
  rec_module_path :: string
  rec_name :: string
  rec_orig_name :: "string option"
  rec_remote :: bool
  rec_fields :: "FieldMetadata list"
  rec_docstring :: "string option"

datatype EnumShape = EnumShape_Enum | EnumShape_Error bool

fun shape_as_u8 :: "EnumShape \<Rightarrow> u8" where
  "shape_as_u8 EnumShape_Enum = 0"
| "shape_as_u8 (EnumShape_Error False) = 1"
| "shape_as_u8 (EnumShape_Error True) = 2"

text \<open>\<open>None\<close> is the \<open>bail!\<close> branch.\<close>

definition shape_from :: "u8 \<Rightarrow> EnumShape option" where
  "shape_from v =
     (if v = 0 then Some EnumShape_Enum
      else if v = 1 then Some (EnumShape_Error False)
      else if v = 2 then Some (EnumShape_Error True)
      else None)"

fun shape_is_error :: "EnumShape \<Rightarrow> bool" where
  "shape_is_error (EnumShape_Error flat) = True"
| "shape_is_error EnumShape_Enum = False"

record VariantMetadata =
  var_name :: string
  var_orig_name :: "string option"
  var_discr :: "LiteralMetadata option"
  var_fields :: "FieldMetadata list"
  var_docstring :: "string option"

record EnumMetadata =
  enum_module_path :: string
  enum_name :: string
  enum_orig_name :: "string option"
  enum_shape :: EnumShape
  enum_remote :: bool
  enum_variants :: "VariantMetadata list"
  enum_discr_type :: "Type option"
  enum_non_exhaustive :: bool
  enum_docstring :: "string option"

record ObjectMetadata =
  obj_module_path :: string
  obj_name :: string
  obj_orig_name :: "string option"
  obj_remote :: bool
  obj_imp :: ObjectImpl
  obj_docstring :: "string option"

record CallbackInterfaceMetadata =
  cb_module_path :: string
  cb_name :: string
  cb_docstring :: "string option"

datatype UniffiTraitMetadata =
    UniffiTrait_Debug MethodMetadata
  | UniffiTrait_Display MethodMetadata
  | UniffiTrait_Eq MethodMetadata MethodMetadata
  | UniffiTrait_Hash MethodMetadata
  | UniffiTrait_Ord MethodMetadata

text \<open>All the methods of a trait.\<close>

fun meta_trait_methods :: "UniffiTraitMetadata \<Rightarrow> MethodMetadata list" where
  "meta_trait_methods (UniffiTrait_Debug fmt) = [fmt]"
| "meta_trait_methods (UniffiTrait_Display fmt) = [fmt]"
| "meta_trait_methods (UniffiTrait_Eq eq ne) = [eq, ne]"
| "meta_trait_methods (UniffiTrait_Hash hash) = [hash]"
| "meta_trait_methods (UniffiTrait_Ord cmp) = [cmp]"

text \<open>The method that \<open>module_path\<close>, \<open>self_name\<close> and \<open>name\<close> of the trait are read from.\<close>

fun trait_lead_method :: "UniffiTraitMetadata \<Rightarrow> MethodMetadata" where
  "trait_lead_method (UniffiTrait_Debug fmt) = fmt"
| "trait_lead_method (UniffiTrait_Display fmt) = fmt"
| "trait_lead_method (UniffiTrait_Eq eq ne) = eq"
| "trait_lead_method (UniffiTrait_Hash hash) = hash"
| "trait_lead_method (UniffiTrait_Ord cmp) = cmp"

definition trait_module_path :: "UniffiTraitMetadata \<Rightarrow> string" where
  "trait_module_path t = meth_module_path (trait_lead_method t)"

definition trait_self_name :: "UniffiTraitMetadata \<Rightarrow> string" where
  "trait_self_name t = meth_self_name (trait_lead_method t)"

definition trait_name :: "UniffiTraitMetadata \<Rightarrow> string" where
  "trait_name t = meth_name (trait_lead_method t)"

datatype UniffiTraitDiscriminants =
    Discriminant_Debug | Discriminant_Display | Discriminant_Eq | Discriminant_Hash
  | Discriminant_Ord

text \<open>\<open>#[repr(u8)]\<close>, and \<open>UniffiTraitDiscriminants::from\<close> (\<open>None\<close> is the \<open>bail!\<close>).\<close>

fun discriminant_repr :: "UniffiTraitDiscriminants \<Rightarrow> u8" where
  "discriminant_repr Discriminant_Debug = 0"
| "discriminant_repr Discriminant_Display = 1"
| "discriminant_repr Discriminant_Eq = 2"
| "discriminant_repr Discriminant_Hash = 3"
| "discriminant_repr Discriminant_Ord = 4"

definition discriminant_from :: "u8 \<Rightarrow> UniffiTraitDiscriminants option" where
  "discriminant_from v =
     (if v = 0 then Some Discriminant_Debug
      else if v = 1 then Some Discriminant_Display
      else if v = 2 then Some Discriminant_Eq
      else if v = 3 then Some Discriminant_Hash
      else if v = 4 then Some Discriminant_Ord
      else None)"

record ObjectTraitImplMetadata =
  oti_ty :: Type
  oti_trait_ty :: Type

record FromUnexpectedCallbackErrorImplMetadata =
  fuce_ty :: Type

record CustomTypeMetadata =
  custom_module_path :: string
  custom_name :: string
  custom_orig_name :: "string option"
  custom_builtin :: Type
  custom_docstring :: "string option"

datatype Metadata =
    Metadata_Namespace NamespaceMetadata
  | Metadata_UdlFile UdlFile
  | Metadata_Func FnMetadata
  | Metadata_Object ObjectMetadata
  | Metadata_CallbackInterface CallbackInterfaceMetadata
  | Metadata_Record RecordMetadata
  | Metadata_Enum EnumMetadata
  | Metadata_Constructor ConstructorMetadata
  | Metadata_Method MethodMetadata
  | Metadata_TraitMethod TraitMethodMetadata
  | Metadata_CustomType CustomTypeMetadata
  | Metadata_UniffiTrait UniffiTraitMetadata
  | Metadata_ObjectTraitImpl ObjectTraitImplMetadata
  | Metadata_FromUnexpectedCallbackErrorImpl FromUnexpectedCallbackErrorImplMetadata

text \<open>\<open>Metadata::module_path\<close>; \<open>None\<close> is the panic of \<open>expect("type has no crate name")\<close>.\<close>

fun metadata_module_path :: "Metadata \<Rightarrow> string option" where
  "metadata_module_path (Metadata_Namespace m) = Some (ns_crate_name m)"
| "metadata_module_path (Metadata_UdlFile m) = Some (udl_module_path m)"
| "metadata_module_path (Metadata_Func m) = Some (fn_module_path m)"
| "metadata_module_path (Metadata_Constructor m) = Some (ctor_module_path m)"
| "metadata_module_path (Metadata_Method m) = Some (meth_module_path m)"
| "metadata_module_path (Metadata_Record m) = Some (rec_module_path m)"
| "metadata_module_path (Metadata_Enum m) = Some (enum_module_path m)"
| "metadata_module_path (Metadata_Object m) = Some (obj_module_path m)"
| "metadata_module_path (Metadata_CallbackInterface m) = Some (cb_module_path m)"
| "metadata_module_path (Metadata_TraitMethod m) = Some (tmeth_module_path m)"
| "metadata_module_path (Metadata_CustomType m) = Some (custom_module_path m)"
| "metadata_module_path (Metadata_UniffiTrait m) = Some (trait_module_path m)"
| "metadata_module_path (Metadata_ObjectTraitImpl m) = type_crate_name (oti_ty m)"
| "metadata_module_path (Metadata_FromUnexpectedCallbackErrorImpl m) =
     type_crate_name (fuce_ty m)"

lemma shape_from_as_u8: "shape_from (shape_as_u8 s) = Some s"
  by (cases s rule: shape_as_u8.cases) (simp_all add: shape_from_def)

lemma shape_from_Some: "shape_from v = Some s \<Longrightarrow> shape_as_u8 s = v"
  by (auto simp: shape_from_def split: if_splits)

lemma discriminant_from_repr: "discriminant_from (discriminant_repr d) = Some d"
  by (cases d) (simp_all add: discriminant_from_def)

lemma discriminant_from_Some: "discriminant_from v = Some d \<Longrightarrow> discriminant_repr d = v"
  by (auto simp: discriminant_from_def split: if_splits)

end
