(* ===== verification/MetaBuffer.thy ===== *)
theory MetaBuffer
  imports Prelude
begin

text \<open>
  \<open>uniffi_core/src/metadata.rs\<close>: the fixed-size \<open>MetadataBuffer\<close> that the macros fill at compile
  time, and its checksum.  A failed \<open>assert!\<close> is \<open>None\<close> (the constant does not compile).

  The contract of an operation is \<open>builds f bs\<close>: \<open>f\<close> succeeds exactly when \<open>bs\<close> fits in the space
  that is left, and then appends \<open>bs\<close> to the contents.  Contents are what \<open>as_ref\<close> returns, so the
  bytes past \<open>size\<close> do not matter.  \<open>chain\<close> is the chaining of calls that the macros generate.
\<close>

section \<open>The buffer\<close>

definition BUF_SIZE :: nat where
  "BUF_SIZE = 32768"

record MetadataBuffer =
  mb_bytes :: bytes
  mb_size :: nat

definition mb_new :: MetadataBuffer where
  "mb_new = \<lparr>mb_bytes = replicate BUF_SIZE 0, mb_size = 0\<rparr>"

text \<open>\<open>self.bytes[self.size] = b; self.size += 1\<close>, behind the assertions of the operations.\<close>

definition mb_put :: "u8 \<Rightarrow> MetadataBuffer \<Rightarrow> MetadataBuffer" where
  "mb_put b m = m\<lparr>mb_bytes := (mb_bytes m)[mb_size m := b], mb_size := mb_size m + 1\<rparr>"

function concat_loop :: "MetadataBuffer \<Rightarrow> nat \<Rightarrow> MetadataBuffer \<Rightarrow> MetadataBuffer" where
  "concat_loop other i m =
     (if i < mb_size other then concat_loop other (i + 1) (mb_put (mb_bytes other ! i) m) else m)"
  by pat_completeness auto
termination
  by (relation "measure (\<lambda>(other, i, m). mb_size other - i)") auto

declare concat_loop.simps [simp del]

definition mb_concat :: "MetadataBuffer \<Rightarrow> MetadataBuffer \<Rightarrow> MetadataBuffer option" where
  "mb_concat other m =
     (if mb_size m + mb_size other \<le> BUF_SIZE then Some (concat_loop other 0 m) else None)"

definition concat_value :: "u8 \<Rightarrow> MetadataBuffer \<Rightarrow> MetadataBuffer option" where
  "concat_value v m = (if mb_size m < BUF_SIZE then Some (mb_put v m) else None)"

definition from_code :: "u8 \<Rightarrow> MetadataBuffer option" where
  "from_code v = concat_value v mb_new"

definition concat_u32 :: "u32 \<Rightarrow> MetadataBuffer \<Rightarrow> MetadataBuffer option" where
  "concat_u32 v m =
     (if mb_size m + 4 \<le> BUF_SIZE
      then Some (m\<lparr>mb_bytes := (mb_bytes m)
                     [mb_size m := ucast v,
                      mb_size m + 1 := ucast (drop_bit 8 v),
                      mb_size m + 2 := ucast (drop_bit 16 v),
                      mb_size m + 3 := ucast (drop_bit 24 v)],
                   mb_size := mb_size m + 4\<rparr>)
      else None)"

definition concat_bool :: "bool \<Rightarrow> MetadataBuffer \<Rightarrow> MetadataBuffer option" where
  "concat_bool v = concat_value (if v then 1 else 0)"

text \<open>The copy loops of \<open>concat_str\<close> and \<open>concat_long_str\<close>, \<open>bytes\<close> being the rest to copy.\<close>

primrec put_all :: "bytes \<Rightarrow> MetadataBuffer \<Rightarrow> MetadataBuffer" where
  "put_all [] m = m"
| "put_all (b # bs) m = put_all bs (mb_put b m)"

definition concat_str :: "string \<Rightarrow> MetadataBuffer \<Rightarrow> MetadataBuffer option" where
  "concat_str s m =
     (if length s < 256
      then if mb_size m + length s < BUF_SIZE
           then Some (put_all (as_bytes s) (mb_put (word_of_nat (length s)) m))
           else None
      else None)"

definition concat_long_str :: "string \<Rightarrow> MetadataBuffer \<Rightarrow> MetadataBuffer option" where
  "concat_long_str s m =
     (if mb_size m + length s + 1 < BUF_SIZE
      then let len = word_of_nat (length s) :: u16;
               lo = ucast len :: u8; hi = ucast (drop_bit 8 len) :: u8
           in Some (put_all (as_bytes s)
                (m\<lparr>mb_bytes := (mb_bytes m)[mb_size m := lo, mb_size m + 1 := hi],
                   mb_size := mb_size m + 2\<rparr>))
      else None)"

text \<open>\<open>None\<close> is the panic of an index past the end of \<open>bytes\<close>.\<close>

definition into_array :: "nat \<Rightarrow> MetadataBuffer \<Rightarrow> bytes option" where
  "into_array n m = (if n \<le> length (mb_bytes m) then Some (map ((!) (mb_bytes m)) [0..<n]) else None)"

definition mb_as_ref :: "MetadataBuffer \<Rightarrow> bytes" where
  "mb_as_ref m = take (mb_size m) (mb_bytes m)"

section \<open>The checksum\<close>

definition INITIAL_STATE :: u64 where
  "INITIAL_STATE = 0xcbf29ce484222325"

definition PRIME :: u64 where
  "PRIME = 0x100000001b3"

definition fnv_step :: "u64 \<Rightarrow> u8 \<Rightarrow> u64" where
  "fnv_step hash b = (hash XOR ucast b) * PRIME"

function checksum_loop :: "bytes \<Rightarrow> nat \<Rightarrow> nat \<Rightarrow> u64 \<Rightarrow> u64" where
  "checksum_loop bs sz i hash =
     (if i < sz then checksum_loop bs sz (i + 1) (fnv_step hash (bs ! i)) else hash)"
  by pat_completeness auto
termination
  by (relation "measure (\<lambda>(bs, sz, i, hash). sz - i)") auto

declare checksum_loop.simps [simp del]

definition fold_u64 :: "u64 \<Rightarrow> u16" where
  "fold_u64 hash = ucast (hash XOR drop_bit 16 hash XOR drop_bit 32 hash XOR drop_bit 48 hash)"

definition calc_checksum :: "bytes \<Rightarrow> nat \<Rightarrow> u16" where
  "calc_checksum bs sz = fold_u64 (checksum_loop bs sz 0 INITIAL_STATE)"

definition checksum_metadata :: "bytes \<Rightarrow> u16" where
  "checksum_metadata buf = calc_checksum buf (length buf)"

definition mb_checksum :: "MetadataBuffer \<Rightarrow> u16" where
  "mb_checksum m = calc_checksum (mb_bytes m) (mb_size m)"

section \<open>The invariant and the contents\<close>

definition mb_ok :: "MetadataBuffer \<Rightarrow> bool" where
  "mb_ok m \<longleftrightarrow> length (mb_bytes m) = BUF_SIZE \<and> mb_size m \<le> BUF_SIZE"

lemma mb_ok_new [simp]: "mb_ok mb_new"
  by (simp add: mb_ok_def mb_new_def)

lemma mb_as_ref_new [simp]: "mb_as_ref mb_new = []"
  by (simp add: mb_as_ref_def mb_new_def)

lemma length_mb_as_ref [simp]: "mb_ok m \<Longrightarrow> length (mb_as_ref m) = mb_size m"
  by (simp add: mb_as_ref_def mb_ok_def)

lemma take_list_update_Suc:
  "n < length xs \<Longrightarrow> take (Suc n) (xs[n := x]) = take n xs @ [x]"
  by (simp add: take_Suc_conv_app_nth take_update_swap list_update_append)

lemma mb_put_size [simp]: "mb_size (mb_put b m) = mb_size m + 1"
  by (simp add: mb_put_def)

lemma mb_put_ok: "mb_ok m \<Longrightarrow> mb_size m < BUF_SIZE \<Longrightarrow> mb_ok (mb_put b m)"
  by (simp add: mb_ok_def mb_put_def)

lemma mb_put_as_ref:
  "mb_ok m \<Longrightarrow> mb_size m < BUF_SIZE \<Longrightarrow> mb_as_ref (mb_put b m) = mb_as_ref m @ [b]"
  by (simp add: mb_ok_def mb_put_def mb_as_ref_def take_list_update_Suc)

lemma put_all_ok:
  "mb_ok m \<Longrightarrow> mb_size m + length bs \<le> BUF_SIZE \<Longrightarrow>
   mb_ok (put_all bs m) \<and> mb_as_ref (put_all bs m) = mb_as_ref m @ bs"
  by (induction bs arbitrary: m) (simp_all add: mb_put_ok mb_put_as_ref)

lemma concat_loop_put_all:
  "mb_size other \<le> length (mb_bytes other) \<Longrightarrow>
   concat_loop other i m = put_all (drop i (mb_as_ref other)) m"
proof (induction other i m rule: concat_loop.induct)
  case (1 other i m)
  show ?case
  proof (cases "i < mb_size other")
    case True
    then have "drop i (mb_as_ref other) = mb_bytes other ! i # drop (i + 1) (mb_as_ref other)"
      using "1.prems" by (simp add: mb_as_ref_def Cons_nth_drop_Suc [symmetric])
    with True 1 show ?thesis
      by (subst concat_loop.simps) simp
  next
    case False
    then have "drop i (mb_as_ref other) = []" by (simp add: mb_as_ref_def)
    with False show ?thesis
      by (subst concat_loop.simps) simp
  qed
qed

section \<open>The contract of the operations\<close>

definition builds :: "(MetadataBuffer \<Rightarrow> MetadataBuffer option) \<Rightarrow> bool \<Rightarrow> bytes \<Rightarrow> bool" where
  "builds f c bs \<longleftrightarrow>
     (\<forall>m. mb_ok m \<longrightarrow>
        (if c \<and> mb_size m + length bs \<le> BUF_SIZE
         then \<exists>m'. f m = Some m' \<and> mb_ok m' \<and> mb_as_ref m' = mb_as_ref m @ bs
         else f m = None))"

named_theorems builds_intro

lemma mb_size_put_all [simp]: "mb_size (put_all bs m) = mb_size m + length bs"
  by (induction bs arbitrary: m) simp_all

lemma builds_put_all:
  assumes "\<And>m. f m = (if c \<and> mb_size m + length bs \<le> BUF_SIZE then Some (put_all bs m) else None)"
  shows "builds f c bs"
  unfolding builds_def using assms put_all_ok by auto

lemma buildsD_Some:
  "builds f c bs \<Longrightarrow> mb_ok m \<Longrightarrow> c \<Longrightarrow> mb_size m + length bs \<le> BUF_SIZE \<Longrightarrow>
   \<exists>m'. f m = Some m' \<and> mb_ok m' \<and> mb_as_ref m' = mb_as_ref m @ bs"
  by (simp add: builds_def)

lemma buildsD_None:
  "builds f c bs \<Longrightarrow> mb_ok m \<Longrightarrow> \<not> (c \<and> mb_size m + length bs \<le> BUF_SIZE) \<Longrightarrow> f m = None"
  by (simp add: builds_def split: if_splits)

lemma builds_concat:
  assumes "mb_ok other"
  shows "builds (mb_concat other) True (mb_as_ref other)"
proof (rule builds_put_all)
  fix m
  have "concat_loop other 0 m = put_all (mb_as_ref other) m"
    using concat_loop_put_all [of other 0 m] assms by (simp add: mb_ok_def)
  then show "mb_concat other m =
      (if True \<and> mb_size m + length (mb_as_ref other) \<le> BUF_SIZE
       then Some (put_all (mb_as_ref other) m) else None)"
    using assms by (simp add: mb_concat_def)
qed

lemma builds_concat_value [builds_intro]: "builds (concat_value v) True [v]"
  by (rule builds_put_all) (auto simp: concat_value_def)

definition enc_bool :: "bool \<Rightarrow> bytes" where
  "enc_bool b = [if b then 1 else 0]"

lemma builds_concat_bool [builds_intro]: "builds (concat_bool b) True (enc_bool b)"
  unfolding concat_bool_def enc_bool_def by (rule builds_concat_value)

definition enc_u32 :: "u32 \<Rightarrow> bytes" where
  "enc_u32 v = le_bytes 4 (unat v)"

lemma concat_u32_bytes:
  "le_bytes 4 (unat v) =
     [ucast v, ucast (drop_bit 8 v), ucast (drop_bit 16 v), ucast (drop_bit 24 (v :: u32))]"
  using byte_of_word [of v 0] byte_of_word [of v 8] byte_of_word [of v 16] byte_of_word [of v 24]
  by (simp add: le_bytes_4)

lemma builds_concat_u32 [builds_intro]: "builds (concat_u32 v) True (enc_u32 v)"
  by (rule builds_put_all)
     (simp add: enc_u32_def concat_u32_def concat_u32_bytes mb_put_def add_3_4_Suc)

lemma u16_bytes:
  "le_bytes 2 (unat v) = [ucast v, ucast (drop_bit 8 (v :: u16))]"
  using byte_of_word [of v 0] byte_of_word [of v 8] by (simp add: le_bytes_2)

definition enc_str :: "string \<Rightarrow> bytes" where
  "enc_str s = word_of_nat (length s) # as_bytes s"

lemma builds_concat_str [builds_intro]: "builds (concat_str s) (length s < 256) (enc_str s)"
  by (rule builds_put_all) (simp add: enc_str_def concat_str_def)

definition enc_long_str :: "string \<Rightarrow> bytes" where
  "enc_long_str s = le_bytes 2 (length s) @ as_bytes s"

lemma builds_concat_long_str [builds_intro]:
  "builds (concat_long_str s) (length s < 65536) (enc_long_str s)"
proof (rule builds_put_all)
  fix m
  show "concat_long_str s m =
      (if length s < 65536 \<and> mb_size m + length (enc_long_str s) \<le> BUF_SIZE
       then Some (put_all (enc_long_str s) m) else None)"
  proof (cases "length s < BUF_SIZE")
    case True
    then have "length s < 65536" by (simp add: BUF_SIZE_def)
    moreover from this have n: "unat (word_of_nat (length s) :: u16) = length s"
      by (simp add: unat_of_nat)
    moreover note True
    ultimately show ?thesis
      using u16_bytes [of "word_of_nat (length s)"]
      by (simp add: concat_long_str_def Let_def mb_put_def enc_long_str_def)
  qed (simp add: concat_long_str_def enc_long_str_def)
qed

text \<open>Chained calls, as in \<open>buf.concat_str(a).concat_bool(b)\<close>.\<close>

primrec chain :: "(MetadataBuffer \<Rightarrow> MetadataBuffer option) list \<Rightarrow>
    MetadataBuffer \<Rightarrow> MetadataBuffer option" where
  "chain [] m = Some m"
| "chain (f # fs) m = Option.bind (f m) (chain fs)"

declare chain.simps [simp del]

text \<open>\<open>.concat(C)\<close> for a constant \<open>C\<close> that may itself fail to evaluate.\<close>

definition concat_const :: "MetadataBuffer option \<Rightarrow> MetadataBuffer \<Rightarrow> MetadataBuffer option" where
  "concat_const mo m = Option.bind mo (\<lambda>other. mb_concat other m)"

lemma builds_chain_Nil [builds_intro]: "builds (chain []) True []"
  by (simp add: builds_def mb_ok_def chain.simps)

lemma builds_chain_Cons [builds_intro]:
  assumes f: "builds f c bs" and fs: "builds (chain fs) d cs"
  shows "builds (chain (f # fs)) (c \<and> d) (bs @ cs)"
  unfolding builds_def
proof (intro allI impI)
  fix m assume m: "mb_ok m"
  show "if (c \<and> d) \<and> mb_size m + length (bs @ cs) \<le> BUF_SIZE
        then \<exists>m'. chain (f # fs) m = Some m' \<and> mb_ok m' \<and> mb_as_ref m' = mb_as_ref m @ bs @ cs
        else chain (f # fs) m = None"
  proof (cases "c \<and> mb_size m + length bs \<le> BUF_SIZE")
    case True
    then obtain m' where m': "f m = Some m'" "mb_ok m'" "mb_as_ref m' = mb_as_ref m @ bs"
      using buildsD_Some [OF f m] by blast
    then have sz: "mb_size m' = mb_size m + length bs"
      using m by (metis length_append length_mb_as_ref)
    show ?thesis
    proof (cases "d \<and> mb_size m' + length cs \<le> BUF_SIZE")
      case True
      with \<open>c \<and> _\<close> m' sz show ?thesis using buildsD_Some [OF fs m'(2)] by (auto simp: add.assoc chain.simps)
    next
      case False
      with buildsD_None [OF fs m'(2) False] m' sz show ?thesis by (auto simp: add.assoc chain.simps)
    qed
  next
    case False
    with buildsD_None [OF f m False] show ?thesis by (auto simp: chain.simps)
  qed
qed

lemma mb_size_new [simp]: "mb_size mb_new = 0"
  by (simp add: mb_new_def)

lemma builds_Some_iff:
  assumes "builds f c bs"
  shows "f mb_new = Some m \<Longrightarrow> mb_ok m \<and> mb_as_ref m = bs"
    and "(\<exists>m. f mb_new = Some m) \<longleftrightarrow> c \<and> length bs \<le> BUF_SIZE"
  using assms [unfolded builds_def, rule_format, OF mb_ok_new]
  by (auto split: if_splits)

lemma builds_concat_const:
  assumes g: "builds g c bs"
  shows "builds (concat_const (g mb_new)) c bs"
  unfolding builds_def
proof (intro allI impI)
  fix m assume m: "mb_ok m"
  show "if c \<and> mb_size m + length bs \<le> BUF_SIZE
        then \<exists>m'. concat_const (g mb_new) m = Some m' \<and> mb_ok m' \<and> mb_as_ref m' = mb_as_ref m @ bs
        else concat_const (g mb_new) m = None"
  proof (cases "g mb_new")
    case None
    then have "\<not> (c \<and> length bs \<le> BUF_SIZE)" using builds_Some_iff(2) [OF g] by auto
    with None show ?thesis by (auto simp: concat_const_def)
  next
    case (Some other)
    then have "mb_ok other" "mb_as_ref other = bs" c
      using builds_Some_iff [OF g] by auto
    with builds_concat [of other] m Some show ?thesis
      by (simp add: builds_def concat_const_def)
  qed
qed

lemma builds_chain_map [builds_intro]:
  assumes "\<And>x. x \<in> set xs \<Longrightarrow> builds (f x) (c x) (e x)"
  shows "builds (chain (map f xs)) (\<forall>x\<in>set xs. c x) (concat (map e xs))"
  using assms
proof (induction xs)
  case Nil
  show ?case using builds_chain_Nil by simp
next
  case (Cons x xs)
  have "builds (chain (f x # map f xs)) (c x \<and> (\<forall>x\<in>set xs. c x)) (e x @ concat (map e xs))"
    by (rule builds_chain_Cons) (simp_all add: Cons)
  then show ?case by simp
qed

lemma builds_eq: "builds f c bs \<Longrightarrow> c = d \<Longrightarrow> bs = cs \<Longrightarrow> builds f d cs"
  by simp

lemma builds_False: "\<not> c \<Longrightarrow> builds (\<lambda>m. None) c bs"
  by (simp add: builds_def)

lemma builds_if: "(b \<Longrightarrow> builds f c bs) \<Longrightarrow> builds (if b then f else (\<lambda>m. None)) (b \<and> c) bs"
  by (auto simp: builds_def)

section \<open>Reading the finished buffer\<close>

lemma into_array_as_ref:
  assumes "mb_ok m"
  shows "into_array (mb_size m) m = Some (mb_as_ref m)"
proof -
  have "map ((!) (mb_bytes m)) [0..<mb_size m] = take (mb_size m) (mb_bytes m)"
    using assms by (intro nth_equalityI) (auto simp: mb_ok_def)
  then show ?thesis
    using assms by (simp add: into_array_def mb_as_ref_def mb_ok_def)
qed

lemma checksum_loop_foldl:
  "sz \<le> length bs \<Longrightarrow> checksum_loop bs sz i hash = foldl fnv_step hash (drop i (take sz bs))"
proof (induction bs sz i hash rule: checksum_loop.induct)
  case (1 bs sz i hash)
  show ?case
  proof (cases "i < sz")
    case True
    then have "drop i (take sz bs) = bs ! i # drop (i + 1) (take sz bs)"
      using "1.prems" by (simp add: Cons_nth_drop_Suc [symmetric])
    with True 1 show ?thesis
      by (subst checksum_loop.simps) simp
  next
    case False
    then show ?thesis
      by (subst checksum_loop.simps) simp
  qed
qed

lemma checksum_metadata_foldl:
  "checksum_metadata bs = fold_u64 (foldl fnv_step INITIAL_STATE bs)"
  by (simp add: checksum_metadata_def calc_checksum_def checksum_loop_foldl)

lemma mb_checksum_as_ref: "mb_ok m \<Longrightarrow> mb_checksum m = checksum_metadata (mb_as_ref m)"
  by (simp add: mb_checksum_def checksum_metadata_foldl calc_checksum_def checksum_loop_foldl
      mb_ok_def mb_as_ref_def)

text \<open>Multiplication by the FNV prime is a bijection of the 64-bit words, so the 64-bit state tells
  apart two inputs that differ in one byte.\<close>

lemma PRIME_inverse: "PRIME * 0xce965057aff6957b = 1"
  by (simp add: PRIME_def)

lemma mult_PRIME_inject: "x * PRIME = y * PRIME \<longleftrightarrow> x = y"
proof
  assume "x * PRIME = y * PRIME"
  then have "x * PRIME * 0xce965057aff6957b = y * PRIME * 0xce965057aff6957b" by (rule arg_cong)
  then show "x = y" by (simp only: mult.assoc PRIME_inverse mult_1_right)
qed (rule arg_cong)

lemma xor_cancel_right: "(x :: 'a::len word) XOR z = y XOR z \<longleftrightarrow> x = y"
proof
  assume "x XOR z = y XOR z"
  then have "(x XOR z) XOR z = (y XOR z) XOR z" by (rule arg_cong)
  then show "x = y" by (simp add: xor.assoc)
qed (rule arg_cong)

lemma fnv_step_inject_state: "fnv_step h b = fnv_step h' b \<longleftrightarrow> h = h'"
  by (simp add: fnv_step_def mult_PRIME_inject xor_cancel_right)

lemma xor_cancel_left: "(z :: 'a::len word) XOR x = z XOR y \<longleftrightarrow> x = y"
  using xor_cancel_right [of x z y] by (simp add: xor.commute)

lemma fnv_step_inject_byte: "fnv_step h b = fnv_step h c \<longleftrightarrow> b = c"
  by (simp add: fnv_step_def mult_PRIME_inject xor_cancel_left ucast_byte_u64_inject)

lemma foldl_fnv_inject: "foldl fnv_step h bs = foldl fnv_step h' bs \<longleftrightarrow> h = h'"
  by (induction bs arbitrary: h h') (simp_all add: fnv_step_inject_state)

end
