(* ===== verification/MetaReader.thy ===== *)
theory MetaReader
  imports MetaTypes MetaBuffer
begin

text \<open>
  \<open>uniffi_meta/src/reader.rs\<close>: the reader of metadata items, with the codes of
  \<open>uniffi_meta/src/metadata.rs\<close>.  A method of \<open>MetadataReader\<close> is a reader over the record of the
  same name; an \<open>Err\<close> of \<open>anyhow\<close> is a value of \<open>MetaError\<close>, and \<open>ME_panic\<close> is the panic of
  \<open>split_at\<close> past the end of the data.  \<open>read_type\<close> recurses as deep as the data asks for; it is
  given as fuel one more than the number of bytes left, which \<open>read_type_fuel_enough\<close> shows to be
  enough (every level consumes a byte).
\<close>

section \<open>Codes (\<open>metadata.rs\<close>)\<close>

definition FUNC :: u8 where [simp]: "FUNC = 0"
definition METHOD :: u8 where [simp]: "METHOD = 1"
definition RECORD :: u8 where [simp]: "RECORD = 2"
definition ENUM :: u8 where [simp]: "ENUM = 3"
definition INTERFACE :: u8 where [simp]: "INTERFACE = 4"
definition NAMESPACE :: u8 where [simp]: "NAMESPACE = 6"
definition CONSTRUCTOR :: u8 where [simp]: "CONSTRUCTOR = 7"
definition UDL_FILE :: u8 where [simp]: "UDL_FILE = 8"
definition CALLBACK_INTERFACE :: u8 where [simp]: "CALLBACK_INTERFACE = 9"
definition TRAIT_METHOD :: u8 where [simp]: "TRAIT_METHOD = 10"
definition UNIFFI_TRAIT :: u8 where [simp]: "UNIFFI_TRAIT = 11"
definition TRAIT_INTERFACE :: u8 where [simp]: "TRAIT_INTERFACE = 12"
definition OBJECT_TRAIT_IMPL :: u8 where [simp]: "OBJECT_TRAIT_IMPL = 14"
definition CUSTOM_TYPE :: u8 where [simp]: "CUSTOM_TYPE = 15"

definition TYPE_U8 :: u8 where [simp]: "TYPE_U8 = 0"
definition TYPE_U16 :: u8 where [simp]: "TYPE_U16 = 1"
definition TYPE_U32 :: u8 where [simp]: "TYPE_U32 = 2"
definition TYPE_U64 :: u8 where [simp]: "TYPE_U64 = 3"
definition TYPE_I8 :: u8 where [simp]: "TYPE_I8 = 4"
definition TYPE_I16 :: u8 where [simp]: "TYPE_I16 = 5"
definition TYPE_I32 :: u8 where [simp]: "TYPE_I32 = 6"
definition TYPE_I64 :: u8 where [simp]: "TYPE_I64 = 7"
definition TYPE_F32 :: u8 where [simp]: "TYPE_F32 = 8"
definition TYPE_F64 :: u8 where [simp]: "TYPE_F64 = 9"
definition TYPE_BOOL :: u8 where [simp]: "TYPE_BOOL = 10"
definition TYPE_STRING :: u8 where [simp]: "TYPE_STRING = 11"
definition TYPE_OPTION :: u8 where [simp]: "TYPE_OPTION = 12"
definition TYPE_RECORD :: u8 where [simp]: "TYPE_RECORD = 13"
definition TYPE_ENUM :: u8 where [simp]: "TYPE_ENUM = 14"
definition TYPE_INTERFACE :: u8 where [simp]: "TYPE_INTERFACE = 16"
definition TYPE_VEC :: u8 where [simp]: "TYPE_VEC = 17"
definition TYPE_HASH_MAP :: u8 where [simp]: "TYPE_HASH_MAP = 18"
definition TYPE_SYSTEM_TIME :: u8 where [simp]: "TYPE_SYSTEM_TIME = 19"
definition TYPE_DURATION :: u8 where [simp]: "TYPE_DURATION = 20"
definition TYPE_CALLBACK_INTERFACE :: u8 where [simp]: "TYPE_CALLBACK_INTERFACE = 21"
definition TYPE_CUSTOM :: u8 where [simp]: "TYPE_CUSTOM = 22"
definition TYPE_RESULT :: u8 where [simp]: "TYPE_RESULT = 23"
definition TYPE_TRAIT_INTERFACE :: u8 where [simp]: "TYPE_TRAIT_INTERFACE = 24"
definition TYPE_BOX :: u8 where [simp]: "TYPE_BOX = 26"
definition TYPE_HASH_SET :: u8 where [simp]: "TYPE_HASH_SET = 27"
definition TYPE_UNIT :: u8 where [simp]: "TYPE_UNIT = 255"

definition TRAIT_KIND_RUST_ONLY :: u8 where [simp]: "TRAIT_KIND_RUST_ONLY = 0"
definition TRAIT_KIND_BOTH :: u8 where [simp]: "TRAIT_KIND_BOTH = 1"
definition TRAIT_KIND_FOREIGN_ONLY :: u8 where [simp]: "TRAIT_KIND_FOREIGN_ONLY = 2"

definition LIT_STR :: u8 where [simp]: "LIT_STR = 0"
definition LIT_INT :: u8 where [simp]: "LIT_INT = 1"
definition LIT_FLOAT :: u8 where [simp]: "LIT_FLOAT = 2"
definition LIT_BOOL :: u8 where [simp]: "LIT_BOOL = 3"
definition LIT_NONE :: u8 where [simp]: "LIT_NONE = 4"
definition LIT_SOME :: u8 where [simp]: "LIT_SOME = 5"
definition LIT_EMPTY_SEQ :: u8 where [simp]: "LIT_EMPTY_SEQ = 6"
definition LIT_EMPTY_MAP :: u8 where [simp]: "LIT_EMPTY_MAP = 7"
definition LIT_EMPTY_SET :: u8 where [simp]: "LIT_EMPTY_SET = 8"

definition DEFVALUE_DEFAULT :: u8 where [simp]: "DEFVALUE_DEFAULT = 0"
definition DEFVALUE_LITERAL :: u8 where [simp]: "DEFVALUE_LITERAL = 1"

section \<open>State and errors\<close>

record MetadataReader =
  initial_data :: bytes
  rd_buf :: bytes

datatype MetaError =
    ME_empty | ME_u16_short | ME_u32_short | ME_utf8 | ME_panic
  | ME_unexpected_unit | ME_unexpected_result | ME_type_code u8 | ME_metadata_code u8
  | ME_ctor_return | ME_ctor_interface
  | ME_shape u8 | ME_trait_kind u8 | ME_discriminant u8 | ME_not_method u8
  | ME_default_kind u8 | ME_literal_kind u8
  | ME_literal_type string Type u8
  | ME_parse_int string string
  | ME_fuel

type_synonym 'a mreader = "(MetadataReader, MetaError, 'a) reader"

definition reader_new :: "bytes \<Rightarrow> MetadataReader" where
  "reader_new data = \<lparr>initial_data = data, rd_buf = data\<rparr>"

section \<open>Primitive readers\<close>

definition read_u8 :: "u8 mreader" where
  "read_u8 s =
     (case rd_buf s of b # bs \<Rightarrow> Inr (b, s\<lparr>rd_buf := bs\<rparr>) | [] \<Rightarrow> Inl ME_empty)"

definition peek_u8 :: "u8 mreader" where
  "peek_u8 s = (case rd_buf s of b # bs \<Rightarrow> Inr (b, s) | [] \<Rightarrow> Inl ME_empty)"

definition read_u16 :: "u16 mreader" where
  "read_u16 s =
     (case rd_buf s of
        a # b # bs \<Rightarrow> Inr (ucast a + push_bit 8 (ucast b), s\<lparr>rd_buf := bs\<rparr>)
      | _ \<Rightarrow> Inl ME_u16_short)"

definition read_u32 :: "u32 mreader" where
  "read_u32 s =
     (case rd_buf s of
        a # b # c # d # bs \<Rightarrow>
          Inr (ucast a + push_bit 8 (ucast b) + push_bit 16 (ucast c) + push_bit 24 (ucast d),
               s\<lparr>rd_buf := bs\<rparr>)
      | _ \<Rightarrow> Inl ME_u32_short)"

definition read_bool :: "bool mreader" where
  "read_bool = rbind read_u8 (\<lambda>v. rret (v = 1))"

text \<open>\<open>(slice, self.buf) = self.buf.split_at(n); String::from_utf8(slice.into())\<close>.\<close>

definition read_slice_string :: "nat \<Rightarrow> string mreader" where
  "read_slice_string n s =
     (if n \<le> length (rd_buf s)
      then case from_utf8 (take n (rd_buf s)) of
             Some str \<Rightarrow> Inr (str, s\<lparr>rd_buf := drop n (rd_buf s)\<rparr>)
           | None \<Rightarrow> Inl ME_utf8
      else Inl ME_panic)"

definition read_string :: "string mreader" where
  "read_string = rbind read_u8 (\<lambda>n. read_slice_string (unat n))"

definition read_optional_string :: "string option mreader" where
  "read_optional_string =
     rbind read_bool (\<lambda>is_some. if is_some then rbind read_string (\<lambda>s. rret (Some s)) else rret None)"

definition read_long_string :: "string mreader" where
  "read_long_string = rbind read_u16 (\<lambda>n. read_slice_string (unat n))"

definition read_optional_long_string :: "string option mreader" where
  "read_optional_long_string =
     rbind read_long_string (\<lambda>s. rret (if s \<noteq> [] then Some s else None))"

definition read_trait_kind :: "TraitKind mreader" where
  "read_trait_kind = rbind read_u8 (\<lambda>v.
     if v = TRAIT_KIND_RUST_ONLY then rret TraitKind_RustOnly
     else if v = TRAIT_KIND_BOTH then rret TraitKind_Both
     else if v = TRAIT_KIND_FOREIGN_ONLY then rret TraitKind_ForeignOnly
     else rfail (ME_trait_kind v))"

section \<open>Types\<close>

primrec read_type_fuel :: "nat \<Rightarrow> Type mreader" where
  "read_type_fuel 0 = rfail ME_fuel"
| "read_type_fuel (Suc n) = rbind read_u8 (\<lambda>v.
     if v = TYPE_U8 then rret Type_UInt8
     else if v = TYPE_I8 then rret Type_Int8
     else if v = TYPE_U16 then rret Type_UInt16
     else if v = TYPE_I16 then rret Type_Int16
     else if v = TYPE_U32 then rret Type_UInt32
     else if v = TYPE_I32 then rret Type_Int32
     else if v = TYPE_U64 then rret Type_UInt64
     else if v = TYPE_I64 then rret Type_Int64
     else if v = TYPE_F32 then rret Type_Float32
     else if v = TYPE_F64 then rret Type_Float64
     else if v = TYPE_BOOL then rret Type_Boolean
     else if v = TYPE_STRING then rret Type_String
     else if v = TYPE_DURATION then rret Type_Duration
     else if v = TYPE_SYSTEM_TIME then rret Type_Timestamp
     else if v = TYPE_RECORD then
       rbind read_string (\<lambda>mp. rbind read_string (\<lambda>nm. rret (Type_Record mp nm)))
     else if v = TYPE_ENUM then
       rbind read_string (\<lambda>mp. rbind read_string (\<lambda>nm. rret (Type_Enum mp nm)))
     else if v = TYPE_INTERFACE then
       rbind read_string (\<lambda>mp. rbind read_string (\<lambda>nm.
         rret (Type_Object mp nm ObjectImpl_Struct)))
     else if v = TYPE_TRAIT_INTERFACE then
       rbind read_string (\<lambda>mp. rbind read_string (\<lambda>nm. rbind read_trait_kind (\<lambda>kind.
         rret (Type_Object mp nm (ObjectImpl_Trait kind)))))
     else if v = TYPE_CALLBACK_INTERFACE then
       rbind read_string (\<lambda>mp. rbind read_string (\<lambda>nm. rret (Type_CallbackInterface mp nm)))
     else if v = TYPE_CUSTOM then
       rbind read_string (\<lambda>mp. rbind read_string (\<lambda>nm. rbind (read_type_fuel n) (\<lambda>t.
         rret (Type_Custom mp nm t))))
     else if v = TYPE_OPTION then rbind (read_type_fuel n) (\<lambda>t. rret (Type_Optional t))
     else if v = TYPE_BOX then rbind (read_type_fuel n) (\<lambda>t. rret (Type_Box t))
     else if v = TYPE_VEC then rbind (read_type_fuel n) (\<lambda>t.
       if t = Type_UInt8 then rret Type_Bytes else rret (Type_Sequence t))
     else if v = TYPE_HASH_MAP then
       rbind (read_type_fuel n) (\<lambda>k. rbind (read_type_fuel n) (\<lambda>t. rret (Type_Map k t)))
     else if v = TYPE_HASH_SET then rbind (read_type_fuel n) (\<lambda>t. rret (Type_Set t))
     else if v = TYPE_UNIT then rfail ME_unexpected_unit
     else if v = TYPE_RESULT then rfail ME_unexpected_result
     else rfail (ME_type_code v))"

definition read_type :: "Type mreader" where
  "read_type s = read_type_fuel (length (rd_buf s) + 1) s"

definition read_optional_type :: "Type option mreader" where
  "read_optional_type = rbind peek_u8 (\<lambda>v.
     if v = TYPE_UNIT then rbind read_u8 (\<lambda>_. rret None)
     else rbind read_type (\<lambda>t. rret (Some t)))"

definition read_return_type :: "(Type option \<times> Type option) mreader" where
  "read_return_type = rbind peek_u8 (\<lambda>v.
     if v = TYPE_UNIT then rbind read_u8 (\<lambda>_. rret (None, None))
     else if v = TYPE_RESULT then
       rbind read_u8 (\<lambda>_. rbind read_optional_type (\<lambda>r. rbind read_optional_type (\<lambda>e. rret (r, e))))
     else rbind read_type (\<lambda>t. rret (Some t, None)))"

section \<open>Literals and defaults\<close>

text \<open>Rust's \<open>FromStr\<close> for integers: an optional sign (\<open>-\<close> only for signed types), at least one
  digit, and a value in the range of the type.\<close>

definition is_digit :: "char \<Rightarrow> bool" where
  "is_digit c \<longleftrightarrow> 48 \<le> (of_char c :: nat) \<and> (of_char c :: nat) \<le> 57"

definition digit_value :: "char \<Rightarrow> nat" where
  "digit_value c = of_char c - 48"

definition parse_digits :: "string \<Rightarrow> nat option" where
  "parse_digits s =
     (if s \<noteq> [] \<and> list_all is_digit s then Some (foldl (\<lambda>n c. 10 * n + digit_value c) 0 s) else None)"

definition parse_integer :: "bool \<Rightarrow> int \<Rightarrow> int \<Rightarrow> string \<Rightarrow> int option" where
  "parse_integer is_signed lo hi s =
     (let v = (case s of
          [] \<Rightarrow> None
        | c # cs \<Rightarrow>
            if c = CHR ''+'' then map_option int (parse_digits cs)
            else if c = CHR ''-'' \<and> is_signed then map_option (\<lambda>n. - int n) (parse_digits cs)
            else map_option int (parse_digits s))
      in case v of None \<Rightarrow> None | Some i \<Rightarrow> if lo \<le> i \<and> i \<le> hi then Some i else None)"

definition parse_uint :: "nat \<Rightarrow> string \<Rightarrow> u64 option" where
  "parse_uint bits s = map_option word_of_int (parse_integer False 0 (2 ^ bits - 1) s)"

definition parse_sint :: "nat \<Rightarrow> string \<Rightarrow> u64 option" where
  "parse_sint bits s =
     map_option word_of_int (parse_integer True (- (2 ^ (bits - 1))) (2 ^ (bits - 1) - 1) s)"

text \<open>The \<open>parse_int!\<close> macro at its eight uses.\<close>

definition parse_int_literal :: "string \<Rightarrow> string \<Rightarrow> Type \<Rightarrow> LiteralMetadata mreader" where
  "parse_int_literal nm digits ty =
     (let as_uint = (\<lambda>bits. case parse_uint bits digits of
            Some v \<Rightarrow> rret (Literal_UInt v Radix_Decimal ty)
          | None \<Rightarrow> rfail (ME_parse_int nm digits));
          as_sint = (\<lambda>bits. case parse_sint bits digits of
            Some v \<Rightarrow> rret (Literal_Int v Radix_Decimal ty)
          | None \<Rightarrow> rfail (ME_parse_int nm digits))
      in case ty of
           Type_UInt8 \<Rightarrow> as_uint 8
         | Type_Int8 \<Rightarrow> as_sint 8
         | Type_UInt16 \<Rightarrow> as_uint 16
         | Type_Int16 \<Rightarrow> as_sint 16
         | Type_UInt32 \<Rightarrow> as_uint 32
         | Type_Int32 \<Rightarrow> as_sint 32
         | Type_UInt64 \<Rightarrow> as_uint 64
         | Type_Int64 \<Rightarrow> as_sint 64
         | _ \<Rightarrow> rfail (ME_literal_type nm ty LIT_INT))"

definition int_literal_type :: "string \<Rightarrow> Type \<Rightarrow> Type" where
  "int_literal_type digits ty =
     (if digits \<noteq> [] \<and> hd digits = CHR ''-'' \<and> ty = Type_UInt64 then Type_Int64 else ty)"

text \<open>\<open>if let Type::Custom { builtin, .. } = ty { builtin } else { ty }\<close>.\<close>

fun literal_base :: "Type \<Rightarrow> Type" where
  "literal_base (Type_Custom mp nm b) = b"
| "literal_base t = t"

lemma size_literal_base: "size (literal_base t) \<le> size t"
  by (cases t) auto

function read_default :: "string \<Rightarrow> Type \<Rightarrow> DefaultValueMetadata mreader"
  and read_literal :: "string \<Rightarrow> Type \<Rightarrow> LiteralMetadata mreader" where
  "read_default nm ty = rbind read_u8 (\<lambda>kind.
     if kind = DEFVALUE_DEFAULT then rret DefaultValue_Default
     else if kind = DEFVALUE_LITERAL then
       rbind (read_literal nm ty) (\<lambda>l. rret (DefaultValue_Literal l))
     else rfail (ME_default_kind kind))"
| "read_literal nm ty0 = rbind read_u8 (\<lambda>kind.
     let ty = literal_base ty0 in
     if kind = LIT_STR then
       if ty = Type_String then rbind read_string (\<lambda>s. rret (Literal_String s))
       else rfail (ME_literal_type nm ty LIT_STR)
     else if kind = LIT_INT then
       rbind read_string (\<lambda>digits. parse_int_literal nm digits (int_literal_type digits ty))
     else if kind = LIT_FLOAT then
       if ty = Type_Float32 \<or> ty = Type_Float64
       then rbind read_string (\<lambda>s. rret (Literal_Float s ty))
       else rfail (ME_literal_type nm ty LIT_FLOAT)
     else if kind = LIT_BOOL then rbind read_bool (\<lambda>b. rret (Literal_Boolean b))
     else if kind = LIT_NONE then
       case ty of Type_Optional t \<Rightarrow> rret Literal_None | _ \<Rightarrow> rfail (ME_literal_type nm ty LIT_NONE)
     else if kind = LIT_SOME then
       case literal_base ty0 of
         Type_Optional t \<Rightarrow> rbind (read_default nm t) (\<lambda>d. rret (Literal_Some d))
       | _ \<Rightarrow> rfail (ME_literal_type nm ty LIT_NONE)
     else if kind = LIT_EMPTY_SEQ then rret Literal_EmptySequence
     else if kind = LIT_EMPTY_MAP then rret Literal_EmptyMap
     else if kind = LIT_EMPTY_SET then rret Literal_EmptySet
     else rfail (ME_literal_kind kind))"
  by pat_completeness auto
termination
proof (relation "measure (\<lambda>x. case x of Inl (nm, ty) \<Rightarrow> 2 * size ty + 1 | Inr (nm, ty) \<Rightarrow> 2 * size ty)")
  show "(Inl (nm, t), Inr (nm, ty0)) \<in>
      measure (\<lambda>x. case x of Inl (nm, ty) \<Rightarrow> 2 * size ty + 1 | Inr (nm, ty) \<Rightarrow> 2 * size ty)"
    if "literal_base ty0 = Type_Optional t" for nm ty0 t
    using size_literal_base [of ty0] that by simp
qed auto

declare read_default.simps [simp del] read_literal.simps [simp del]

definition read_optional_default :: "string \<Rightarrow> Type \<Rightarrow> DefaultValueMetadata option mreader" where
  "read_optional_default nm ty = rbind read_bool (\<lambda>b.
     if b then rbind (read_default nm ty) (\<lambda>d. rret (Some d)) else rret None)"

definition read_optional_literal :: "string \<Rightarrow> Type \<Rightarrow> LiteralMetadata option mreader" where
  "read_optional_literal nm ty = rbind read_bool (\<lambda>b.
     if b then rbind (read_literal nm ty) (\<lambda>l. rret (Some l)) else rret None)"

section \<open>Items\<close>

text \<open>\<open>initial_data.len() - buf.len()\<close> bytes have been read; the subtraction does not wrap because
  \<open>buf\<close> is always a suffix of \<open>initial_data\<close> (\<open>reader_ok\<close>).\<close>

definition reader_checksum :: "u16 option mreader" where
  "reader_checksum s =
     (let bytes_read = length (initial_data s) - length (rd_buf s)
      in Inr (Some (checksum_metadata (take bytes_read (initial_data s))), s))"

definition read_field :: "FieldMetadata mreader" where
  "read_field =
     rbind read_string (\<lambda>nm. rbind read_optional_string (\<lambda>orig. rbind read_type (\<lambda>ty.
     rbind (read_optional_default nm ty) (\<lambda>d. rbind read_optional_long_string (\<lambda>doc.
     rret \<lparr>field_name = nm, field_orig_name = orig, field_ty = ty, field_default = d,
           field_docstring = doc\<rparr>)))))"

definition read_fields :: "FieldMetadata list mreader" where
  "read_fields = rbind read_u8 (\<lambda>len. rtimes (unat len) read_field)"

definition read_variant :: "VariantMetadata mreader" where
  "read_variant =
     rbind read_string (\<lambda>nm. rbind read_optional_string (\<lambda>orig.
     rbind (read_optional_literal ''<variant-value>'' Type_UInt64) (\<lambda>discr.
     rbind read_fields (\<lambda>fields. rbind read_optional_long_string (\<lambda>doc.
     rret \<lparr>var_name = nm, var_orig_name = orig, var_discr = discr, var_fields = fields,
           var_docstring = doc\<rparr>)))))"

definition read_variants :: "VariantMetadata list mreader" where
  "read_variants = rbind read_u8 (\<lambda>len. rtimes (unat len) read_variant)"

definition read_flat_variant :: "VariantMetadata mreader" where
  "read_flat_variant =
     rbind read_string (\<lambda>nm. rbind read_optional_string (\<lambda>orig.
     rbind read_optional_long_string (\<lambda>doc.
     rret \<lparr>var_name = nm, var_orig_name = orig, var_discr = None, var_fields = [],
           var_docstring = doc\<rparr>)))"

definition read_flat_variants :: "VariantMetadata list mreader" where
  "read_flat_variants = rbind read_u8 (\<lambda>len. rtimes (unat len) read_flat_variant)"

definition read_input :: "FnParamMetadata mreader" where
  "read_input =
     rbind read_string (\<lambda>nm. rbind read_type (\<lambda>ty. rbind read_bool (\<lambda>by_ref.
     rbind (read_optional_default nm ty) (\<lambda>d.
     rret \<lparr>param_name = nm, param_ty = ty, param_by_ref = by_ref, param_optional = False,
           param_default = d\<rparr>))))"

definition read_inputs :: "FnParamMetadata list mreader" where
  "read_inputs = rbind read_u8 (\<lambda>len. rtimes (unat len) read_input)"

definition read_func :: "FnMetadata mreader" where
  "read_func =
     rbind read_string (\<lambda>mp. rbind read_string (\<lambda>nm. rbind read_optional_string (\<lambda>orig.
     rbind read_bool (\<lambda>is_async. rbind read_inputs (\<lambda>inputs. rbind read_return_type (\<lambda>(ret, throws).
     rbind read_optional_long_string (\<lambda>doc. rbind reader_checksum (\<lambda>ck.
     rret \<lparr>fn_module_path = mp, fn_name = nm, fn_orig_name = orig, fn_is_async = is_async,
           fn_inputs = inputs, fn_return_type = ret, fn_throws = throws, fn_checksum = ck,
           fn_docstring = doc\<rparr>))))))))"

text \<open>The \<open>match return_type\<close> of \<open>read_constructor\<close>.\<close>

definition check_constructor_return :: "string \<Rightarrow> Type option \<Rightarrow> unit mreader" where
  "check_constructor_return self_name ret =
     (case ret of
        None \<Rightarrow> rfail ME_ctor_return
      | Some t \<Rightarrow> (case t of
          Type_Object mp nm imp \<Rightarrow>
            if imp = ObjectImpl_Struct \<and> nm = self_name then rret () else rfail ME_ctor_return
        | _ \<Rightarrow> rfail ME_ctor_interface))"

definition read_constructor :: "ConstructorMetadata mreader" where
  "read_constructor =
     rbind read_string (\<lambda>mp. rbind read_string (\<lambda>self_name. rbind read_string (\<lambda>nm.
     rbind read_optional_string (\<lambda>orig. rbind read_bool (\<lambda>is_async. rbind read_inputs (\<lambda>inputs.
     rbind read_return_type (\<lambda>(ret, throws). rbind read_optional_long_string (\<lambda>doc.
     rbind (check_constructor_return self_name ret) (\<lambda>_. rbind reader_checksum (\<lambda>ck.
     rret \<lparr>ctor_module_path = mp, ctor_self_name = self_name, ctor_name = nm,
           ctor_orig_name = orig, ctor_is_async = is_async, ctor_inputs = inputs,
           ctor_throws = throws, ctor_checksum = ck, ctor_docstring = doc\<rparr>))))))))))"

definition read_method :: "MethodMetadata mreader" where
  "read_method =
     rbind read_string (\<lambda>mp. rbind read_string (\<lambda>self_name. rbind read_string (\<lambda>nm.
     rbind read_optional_string (\<lambda>orig. rbind read_bool (\<lambda>is_async. rbind read_inputs (\<lambda>inputs.
     rbind read_return_type (\<lambda>(ret, throws). rbind read_optional_long_string (\<lambda>doc.
     rbind reader_checksum (\<lambda>ck.
     rret \<lparr>meth_module_path = mp, meth_self_name = self_name, meth_name = nm,
           meth_orig_name = orig, meth_is_async = is_async, meth_inputs = inputs,
           meth_return_type = ret, meth_throws = throws, meth_takes_self_by_arc = False,
           meth_checksum = ck, meth_docstring = doc\<rparr>)))))))))"

definition read_record :: "RecordMetadata mreader" where
  "read_record =
     rbind read_string (\<lambda>mp. rbind read_string (\<lambda>nm. rbind read_optional_string (\<lambda>orig.
     rbind read_fields (\<lambda>fields. rbind read_optional_long_string (\<lambda>doc.
     rret \<lparr>rec_module_path = mp, rec_name = nm, rec_orig_name = orig, rec_remote = False,
           rec_fields = fields, rec_docstring = doc\<rparr>)))))"

definition read_shape :: "EnumShape mreader" where
  "read_shape = rbind read_u8 (\<lambda>v.
     case shape_from v of Some sh \<Rightarrow> rret sh | None \<Rightarrow> rfail (ME_shape v))"

definition read_enum :: "EnumMetadata mreader" where
  "read_enum =
     rbind read_string (\<lambda>mp. rbind read_string (\<lambda>nm. rbind read_optional_string (\<lambda>orig.
     rbind read_shape (\<lambda>shape.
     rbind (rbind read_bool (\<lambda>b. if b then rbind read_type (\<lambda>t. rret (Some t)) else rret None))
       (\<lambda>discr_type.
     rbind (case shape of
              EnumShape_Enum \<Rightarrow> read_variants
            | EnumShape_Error flat \<Rightarrow> if flat then read_flat_variants else read_variants) (\<lambda>variants.
     rbind read_bool (\<lambda>non_exhaustive. rbind read_optional_long_string (\<lambda>doc.
     rret \<lparr>enum_module_path = mp, enum_name = nm, enum_orig_name = orig, enum_shape = shape,
           enum_remote = False, enum_variants = variants, enum_discr_type = discr_type,
           enum_non_exhaustive = non_exhaustive, enum_docstring = doc\<rparr>))))))))"

definition read_object :: "ObjectImpl \<Rightarrow> ObjectMetadata mreader" where
  "read_object imp =
     rbind read_string (\<lambda>mp. rbind read_string (\<lambda>nm. rbind read_optional_string (\<lambda>orig.
     rbind read_optional_long_string (\<lambda>doc.
     rret \<lparr>obj_module_path = mp, obj_name = nm, obj_orig_name = orig, obj_remote = False,
           obj_imp = imp, obj_docstring = doc\<rparr>))))"

definition read_custom_type :: "CustomTypeMetadata mreader" where
  "read_custom_type =
     rbind read_string (\<lambda>mp. rbind read_string (\<lambda>nm. rbind read_type (\<lambda>builtin.
     rbind read_optional_long_string (\<lambda>doc.
     rret \<lparr>custom_module_path = mp, custom_name = nm, custom_orig_name = None,
           custom_builtin = builtin, custom_docstring = doc\<rparr>))))"

definition read_metadata_method :: "MethodMetadata mreader" where
  "read_metadata_method = rbind read_u8 (\<lambda>code.
     if code = METHOD then read_method else rfail (ME_not_method code))"

definition read_uniffi_trait :: "UniffiTraitMetadata mreader" where
  "read_uniffi_trait = rbind read_u8 (\<lambda>code.
     case discriminant_from code of
       None \<Rightarrow> rfail (ME_discriminant code)
     | Some Discriminant_Debug \<Rightarrow> rbind read_metadata_method (\<lambda>fmt. rret (UniffiTrait_Debug fmt))
     | Some Discriminant_Display \<Rightarrow> rbind read_metadata_method (\<lambda>fmt. rret (UniffiTrait_Display fmt))
     | Some Discriminant_Eq \<Rightarrow>
         rbind read_metadata_method (\<lambda>eq. rbind read_metadata_method (\<lambda>ne.
           rret (UniffiTrait_Eq eq ne)))
     | Some Discriminant_Hash \<Rightarrow> rbind read_metadata_method (\<lambda>hash. rret (UniffiTrait_Hash hash))
     | Some Discriminant_Ord \<Rightarrow> rbind read_metadata_method (\<lambda>cmp. rret (UniffiTrait_Ord cmp)))"

definition read_callback_interface :: "CallbackInterfaceMetadata mreader" where
  "read_callback_interface =
     rbind read_string (\<lambda>mp. rbind read_string (\<lambda>nm. rbind read_optional_long_string (\<lambda>doc.
     rret \<lparr>cb_module_path = mp, cb_name = nm, cb_docstring = doc\<rparr>)))"

definition read_trait_method :: "TraitMethodMetadata mreader" where
  "read_trait_method =
     rbind read_string (\<lambda>mp. rbind read_string (\<lambda>tn. rbind read_u32 (\<lambda>index.
     rbind read_string (\<lambda>nm. rbind read_optional_string (\<lambda>orig. rbind read_bool (\<lambda>is_async.
     rbind read_inputs (\<lambda>inputs. rbind read_return_type (\<lambda>(ret, throws).
     rbind read_optional_long_string (\<lambda>doc. rbind reader_checksum (\<lambda>ck.
     rret \<lparr>tmeth_module_path = mp, tmeth_trait_name = tn, tmeth_index = index, tmeth_name = nm,
           tmeth_orig_name = orig, tmeth_is_async = is_async, tmeth_inputs = inputs,
           tmeth_return_type = ret, tmeth_throws = throws, tmeth_takes_self_by_arc = False,
           tmeth_checksum = ck, tmeth_docstring = doc\<rparr>))))))))))"

definition read_object_trait_impl :: "ObjectTraitImplMetadata mreader" where
  "read_object_trait_impl =
     rbind read_type (\<lambda>ty. rbind read_type (\<lambda>tr. rret \<lparr>oti_ty = ty, oti_trait_ty = tr\<rparr>))"

definition read_item :: "Metadata mreader" where
  "read_item = rbind read_u8 (\<lambda>v.
     if v = NAMESPACE then
       rbind read_string (\<lambda>cn. rbind read_string (\<lambda>nm.
         rret (Metadata_Namespace \<lparr>ns_crate_name = cn, ns_name = nm\<rparr>)))
     else if v = UDL_FILE then
       rbind read_string (\<lambda>mp. rbind read_string (\<lambda>ns. rbind read_string (\<lambda>stub.
         rret (Metadata_UdlFile
           \<lparr>udl_module_path = mp, udl_namespace = ns, udl_file_stub = stub\<rparr>))))
     else if v = FUNC then rbind read_func (\<lambda>m. rret (Metadata_Func m))
     else if v = CONSTRUCTOR then rbind read_constructor (\<lambda>m. rret (Metadata_Constructor m))
     else if v = METHOD then rbind read_method (\<lambda>m. rret (Metadata_Method m))
     else if v = RECORD then rbind read_record (\<lambda>m. rret (Metadata_Record m))
     else if v = ENUM then rbind read_enum (\<lambda>m. rret (Metadata_Enum m))
     else if v = INTERFACE then
       rbind (read_object ObjectImpl_Struct) (\<lambda>m. rret (Metadata_Object m))
     else if v = TRAIT_INTERFACE then
       rbind (read_object ObjectImpl_Struct) (\<lambda>m. rbind read_trait_kind (\<lambda>kind.
         rret (Metadata_Object (m\<lparr>obj_imp := ObjectImpl_Trait kind\<rparr>))))
     else if v = CALLBACK_INTERFACE then
       rbind read_callback_interface (\<lambda>m. rret (Metadata_CallbackInterface m))
     else if v = TRAIT_METHOD then rbind read_trait_method (\<lambda>m. rret (Metadata_TraitMethod m))
     else if v = UNIFFI_TRAIT then rbind read_uniffi_trait (\<lambda>m. rret (Metadata_UniffiTrait m))
     else if v = OBJECT_TRAIT_IMPL then
       rbind read_object_trait_impl (\<lambda>m. rret (Metadata_ObjectTraitImpl m))
     else if v = CUSTOM_TYPE then rbind read_custom_type (\<lambda>m. rret (Metadata_CustomType m))
     else rfail (ME_metadata_code v))"

text \<open>The entry points.\<close>

definition read_metadata :: "bytes \<Rightarrow> MetaError + Metadata" where
  "read_metadata data = map_sum id fst (read_item (reader_new data))"

definition read_metadata_type :: "bytes \<Rightarrow> MetaError + Type" where
  "read_metadata_type data = map_sum id fst (read_type (reader_new data))"

section \<open>Every reader consumes a prefix of the data\<close>

definition steps :: "'a mreader \<Rightarrow> bool" where
  "steps p \<longleftrightarrow>
     (\<forall>s a s'. p s = Inr (a, s') \<longrightarrow>
        initial_data s' = initial_data s \<and> (\<exists>used. rd_buf s = used @ rd_buf s'))"

named_theorems steps_intro

lemma stepsD:
  "steps p \<Longrightarrow> p s = Inr (a, s') \<Longrightarrow>
   initial_data s' = initial_data s \<and> (\<exists>used. rd_buf s = used @ rd_buf s')"
  by (simp add: steps_def)

lemma steps_length: "steps p \<Longrightarrow> p s = Inr (a, s') \<Longrightarrow> length (rd_buf s') \<le> length (rd_buf s)"
  by (drule (1) stepsD) auto

lemma steps_rret [steps_intro]: "steps (rret a)"
  by (simp add: steps_def)

lemma steps_rfail [steps_intro]: "steps (rfail e)"
  by (simp add: steps_def)

lemma steps_rbind [steps_intro]:
  assumes "steps p" and "\<And>a. steps (k a)"
  shows "steps (rbind p k)"
  unfolding steps_def
proof (intro allI impI)
  fix s b t assume "rbind p k s = Inr (b, t)"
  then obtain a s' where s': "p s = Inr (a, s')" and t: "k a s' = Inr (b, t)"
    by (auto simp: rbind_Inr)
  from stepsD [OF assms(1) s'] stepsD [OF assms(2) t]
  show "initial_data t = initial_data s \<and> (\<exists>used. rd_buf s = used @ rd_buf t)"
    by (metis append.assoc)
qed

lemma steps_if [steps_intro]: "steps p \<Longrightarrow> steps q \<Longrightarrow> steps (if c then p else q)"
  by simp

lemma steps_option [steps_intro]:
  "steps p \<Longrightarrow> (\<And>x. steps (q x)) \<Longrightarrow> steps (case v of None \<Rightarrow> p | Some x \<Rightarrow> q x)"
  by (cases v) auto

lemma steps_prod [steps_intro]:
  "(\<And>x y. steps (q x y)) \<Longrightarrow> steps (case v of (x, y) \<Rightarrow> q x y)"
  by (cases v) auto

lemma steps_rtimes [steps_intro]: "steps p \<Longrightarrow> steps (rtimes n p)"
  by (induction n) (auto intro!: steps_intro)

lemma steps_primitives [steps_intro]:
  "steps read_u8" "steps peek_u8" "steps read_u16" "steps read_u32" "steps (read_slice_string n)"
  "steps reader_checksum"
proof -
  show "steps read_u8" "steps peek_u8"
    by (auto simp: steps_def read_u8_def peek_u8_def split: list.splits)
  show "steps read_u16" "steps read_u32"
    by (auto simp: steps_def read_u16_def read_u32_def split: list.splits)
  show "steps (read_slice_string n)"
    by (auto simp: steps_def read_slice_string_def split: if_splits option.splits)
       (metis append_take_drop_id)
  show "steps reader_checksum"
    by (auto simp: steps_def reader_checksum_def)
qed

lemma steps_basic [steps_intro]:
  "steps read_bool" "steps read_string" "steps read_optional_string" "steps read_long_string"
  "steps read_optional_long_string" "steps read_trait_kind"
  unfolding read_bool_def read_string_def read_optional_string_def read_long_string_def
    read_optional_long_string_def read_trait_kind_def
  by (intro steps_intro)+

lemma steps_read_type_fuel [steps_intro]: "steps (read_type_fuel n)"
proof (induction n)
  case 0
  show ?case unfolding read_type_fuel.simps by (rule steps_rfail)
next
  case (Suc n)
  show ?case unfolding read_type_fuel.simps by (intro steps_intro Suc.IH)
qed

lemma steps_read_type [steps_intro]: "steps read_type"
  unfolding steps_def read_type_def using stepsD [OF steps_read_type_fuel] by blast

text \<open>Two readers agree, without running out of fuel, on every state with at most \<open>L\<close> bytes left.\<close>

definition agree :: "nat \<Rightarrow> 'a mreader \<Rightarrow> 'a mreader \<Rightarrow> bool" where
  "agree L p q \<longleftrightarrow> (\<forall>s. length (rd_buf s) \<le> L \<longrightarrow> p s = q s \<and> q s \<noteq> Inl ME_fuel)"

named_theorems agree_intro

lemma agreeD: "agree L p q \<Longrightarrow> length (rd_buf s) \<le> L \<Longrightarrow> p s = q s \<and> q s \<noteq> Inl ME_fuel"
  by (simp add: agree_def)

lemma agree_rret [agree_intro]: "agree L (rret a) (rret a)"
  by (simp add: agree_def)

lemma agree_rfail [agree_intro]: "e \<noteq> ME_fuel \<Longrightarrow> agree L (rfail e) (rfail e)"
  by (simp add: agree_def)

lemma agree_rbind [agree_intro]:
  assumes "steps p" "agree L p q" "\<And>a. agree L (k a) (k' a)"
  shows "agree L (rbind p k) (rbind q k')"
  unfolding agree_def
proof (intro allI impI)
  fix s :: MetadataReader assume s: "length (rd_buf s) \<le> L"
  with assms(2) have pq: "p s = q s" "q s \<noteq> Inl ME_fuel" by (auto simp: agree_def)
  show "rbind p k s = rbind q k' s \<and> rbind q k' s \<noteq> Inl ME_fuel"
  proof (cases "p s")
    case (Inr r)
    then obtain a s' where r: "p s = Inr (a, s')" by (cases r) auto
    with steps_length [OF assms(1) r] s have "length (rd_buf s') \<le> L" by simp
    with agreeD [OF assms(3)] have "k a s' = k' a s' \<and> k' a s' \<noteq> Inl ME_fuel" by blast
    with r pq show ?thesis by (simp add: rbind_apply)
  qed (use pq in \<open>auto simp: rbind_apply\<close>)
qed

lemma agree_if [agree_intro]:
  "agree L p p' \<Longrightarrow> agree L q q' \<Longrightarrow> agree L (if c then p else q) (if c then p' else q')"
  by simp

lemma agree_basic [agree_intro]:
  "agree L read_string read_string" "agree L read_trait_kind read_trait_kind"
  by (auto simp: agree_def read_string_def read_trait_kind_def rbind_apply read_u8_def
      read_slice_string_def split: list.splits sum.splits option.splits)

lemma agree_read_u8:
  assumes "\<And>a. agree L (k a) (k' a)"
  shows "agree (Suc L) (rbind read_u8 k) (rbind read_u8 k')"
  unfolding agree_def
proof (intro allI impI)
  fix s :: MetadataReader assume s: "length (rd_buf s) \<le> Suc L"
  show "rbind read_u8 k s = rbind read_u8 k' s \<and> rbind read_u8 k' s \<noteq> Inl ME_fuel"
  proof (cases "rd_buf s")
    case (Cons b bs)
    with s agreeD [OF assms, of "s\<lparr>rd_buf := bs\<rparr>" b]
    have "k b (s\<lparr>rd_buf := bs\<rparr>) = k' b (s\<lparr>rd_buf := bs\<rparr>) \<and>
        k' b (s\<lparr>rd_buf := bs\<rparr>) \<noteq> Inl ME_fuel"
      by simp
    with Cons show ?thesis by (simp add: rbind_apply read_u8_def)
  qed (simp add: rbind_apply read_u8_def)
qed

lemma agree_read_type_fuel: "L < n \<Longrightarrow> L < m \<Longrightarrow> agree L (read_type_fuel n) (read_type_fuel m)"
proof (induction L arbitrary: n m)
  case 0
  then obtain n' m' where "n = Suc n'" "m = Suc m'" by (metis gr0_implies_Suc)
  then show ?case
    by (simp add: agree_def rbind_apply read_u8_def)
next
  case (Suc L)
  then obtain n' m' where n: "n = Suc n'" "m = Suc m'" by (metis Suc_lessE)
  with Suc have rec: "agree L (read_type_fuel n') (read_type_fuel m')" by simp
  show ?case
    unfolding n read_type_fuel.simps
    by (intro agree_read_u8 agree_if) (intro agree_intro steps_intro rec; simp)+
qed

lemma read_type_fuel_enough:
  assumes "length (rd_buf s) < n"
  shows "read_type_fuel n s = read_type s" "read_type s \<noteq> Inl ME_fuel"
  using agree_read_type_fuel [of "length (rd_buf s)" n "length (rd_buf s) + 1"]
    agree_read_type_fuel [of "length (rd_buf s)" "length (rd_buf s) + 1" n] assms
  by (auto simp: agree_def read_type_def)

text \<open>No reader runs out of fuel, whatever the data.\<close>

definition fuel_free :: "'a mreader \<Rightarrow> bool" where
  "fuel_free p \<longleftrightarrow> (\<forall>s. p s \<noteq> Inl ME_fuel)"

named_theorems fuel_free_intro

lemma fuel_free_rret [fuel_free_intro]: "fuel_free (rret a)"
  by (simp add: fuel_free_def)

lemma fuel_free_rfail [fuel_free_intro]: "e \<noteq> ME_fuel \<Longrightarrow> fuel_free (rfail e)"
  by (simp add: fuel_free_def)

lemma fuel_free_rbind [fuel_free_intro]:
  "fuel_free p \<Longrightarrow> (\<And>a. fuel_free (k a)) \<Longrightarrow> fuel_free (rbind p k)"
  by (auto simp: fuel_free_def rbind_Inl)

lemma fuel_free_if [fuel_free_intro]:
  "fuel_free p \<Longrightarrow> fuel_free q \<Longrightarrow> fuel_free (if c then p else q)"
  by simp

lemma fuel_free_option [fuel_free_intro]:
  "fuel_free p \<Longrightarrow> (\<And>x. fuel_free (q x)) \<Longrightarrow> fuel_free (case v of None \<Rightarrow> p | Some x \<Rightarrow> q x)"
  by (cases v) auto

lemma fuel_free_prod [fuel_free_intro]:
  "(\<And>x y. fuel_free (q x y)) \<Longrightarrow> fuel_free (case v of (x, y) \<Rightarrow> q x y)"
  by (cases v) auto

lemma fuel_free_rtimes [fuel_free_intro]: "fuel_free p \<Longrightarrow> fuel_free (rtimes n p)"
  by (induction n) (auto intro!: fuel_free_intro)

lemma fuel_free_basic [fuel_free_intro]:
  "fuel_free read_u8" "fuel_free peek_u8" "fuel_free read_u16" "fuel_free read_u32"
  "fuel_free (read_slice_string n)" "fuel_free reader_checksum" "fuel_free read_type"
  using read_type_fuel_enough(2)
  by (auto simp: fuel_free_def read_u8_def peek_u8_def read_u16_def read_u32_def
      read_slice_string_def reader_checksum_def split: list.splits option.splits)

lemmas basic_reader_defs =
  read_bool_def read_string_def read_optional_string_def read_long_string_def
  read_optional_long_string_def read_trait_kind_def read_optional_type_def read_return_type_def
  read_shape_def

lemma fuel_free_basic2 [fuel_free_intro]:
  "fuel_free read_bool" "fuel_free read_string" "fuel_free read_optional_string"
  "fuel_free read_long_string" "fuel_free read_optional_long_string" "fuel_free read_trait_kind"
  "fuel_free read_optional_type" "fuel_free read_return_type" "fuel_free read_shape"
  unfolding basic_reader_defs by (intro fuel_free_intro; simp)+

lemma steps_basic2 [steps_intro]:
  "steps read_optional_type" "steps read_return_type" "steps read_shape"
  unfolding read_optional_type_def read_return_type_def read_shape_def by (intro steps_intro)+

lemma parse_int_literal_ok [fuel_free_intro, steps_intro]:
  "fuel_free (parse_int_literal nm digits ty)" "steps (parse_int_literal nm digits ty)"
proof -
  have "fuel_free (parse_int_literal nm digits ty) \<and> steps (parse_int_literal nm digits ty)"
    by (cases ty)
       (auto simp: parse_int_literal_def Let_def fuel_free_def steps_def split: option.splits)
  then show "fuel_free (parse_int_literal nm digits ty)" "steps (parse_int_literal nm digits ty)"
    by auto
qed

lemma steps_case_Optional:
  assumes "\<And>t. ty = Type_Optional t \<Longrightarrow> steps (f t)" and "steps e"
  shows "steps (case ty of Type_Optional t \<Rightarrow> f t | _ \<Rightarrow> e)"
  using assms by (cases ty) auto

lemma fuel_free_case_Optional:
  assumes "\<And>t. ty = Type_Optional t \<Longrightarrow> fuel_free (f t)" and "fuel_free e"
  shows "fuel_free (case ty of Type_Optional t \<Rightarrow> f t | _ \<Rightarrow> e)"
  using assms by (cases ty) auto

lemma read_default_ok:
  "steps (read_default nm ty) \<and> fuel_free (read_default nm ty)"
  "steps (read_literal nm ty) \<and> fuel_free (read_literal nm ty)"
proof (induction nm ty and nm ty rule: read_default_read_literal.induct)
  case (1 nm ty)
  show ?case
  proof
    show "steps (read_default nm ty)"
      unfolding read_default.simps [of nm ty] using 1
      by (intro steps_intro) (auto dest: spec)
    show "fuel_free (read_default nm ty)"
      unfolding read_default.simps [of nm ty] using 1
      by (intro fuel_free_intro) auto
  qed
next
  case (2 nm ty0)
  have opt: "steps (read_default nm t)" "fuel_free (read_default nm t)"
    if "literal_base ty0 = Type_Optional t" for t
    using 2 [where x = LIT_SOME, OF refl _ _ _ _ _ _ that] by simp_all
  show ?case
  proof
    show "steps (read_literal nm ty0)"
      unfolding read_literal.simps [of nm ty0] Let_def 
      by (intro steps_intro steps_case_Optional opt)
    show "fuel_free (read_literal nm ty0)"
      unfolding read_literal.simps [of nm ty0] Let_def 
      by (intro fuel_free_intro fuel_free_case_Optional opt) simp_all
  qed
qed

lemmas steps_defaults [steps_intro] = read_default_ok(1) [THEN conjunct1] read_default_ok(2) [THEN conjunct1]
lemmas fuel_free_defaults [fuel_free_intro] =
  read_default_ok(1) [THEN conjunct2] read_default_ok(2) [THEN conjunct2]

lemmas item_reader_defs =
  read_optional_default_def read_optional_literal_def
  read_field_def read_fields_def read_variant_def read_variants_def read_flat_variant_def
  read_flat_variants_def read_input_def read_inputs_def

lemma list_readers_ok [steps_intro, fuel_free_intro]:
  "steps read_fields" "steps read_variants" "steps read_flat_variants" "steps read_inputs"
  "fuel_free read_fields" "fuel_free read_variants" "fuel_free read_flat_variants"
  "fuel_free read_inputs"
  unfolding item_reader_defs by (intro steps_intro fuel_free_intro)+

lemma check_constructor_return_ok [steps_intro, fuel_free_intro]:
  "steps (check_constructor_return sn r)" "fuel_free (check_constructor_return sn r)"
  by (auto simp: check_constructor_return_def steps_def fuel_free_def
      split: option.splits Type.splits)

lemma read_method_ok [steps_intro, fuel_free_intro]:
  "steps read_method" "fuel_free read_method"
  unfolding read_method_def by (intro steps_intro fuel_free_intro)+

lemma read_metadata_method_ok [steps_intro, fuel_free_intro]:
  "steps read_metadata_method" "fuel_free read_metadata_method"
  unfolding read_metadata_method_def by (intro steps_intro fuel_free_intro; simp)+

lemma read_uniffi_trait_ok [steps_intro, fuel_free_intro]:
  "steps read_uniffi_trait" "fuel_free read_uniffi_trait"
proof -
  have d: "steps (case d of Discriminant_Debug \<Rightarrow> a | Discriminant_Display \<Rightarrow> b | Discriminant_Eq \<Rightarrow> c
      | Discriminant_Hash \<Rightarrow> e | Discriminant_Ord \<Rightarrow> f)"
    if "steps a" "steps b" "steps c" "steps e" "steps f" for d a b c e and f :: "'a mreader"
    using that by (cases d) auto
  show "steps read_uniffi_trait"
    unfolding read_uniffi_trait_def by (intro steps_intro d)
  have d: "fuel_free (case d of Discriminant_Debug \<Rightarrow> a | Discriminant_Display \<Rightarrow> b
      | Discriminant_Eq \<Rightarrow> c | Discriminant_Hash \<Rightarrow> e | Discriminant_Ord \<Rightarrow> f)"
    if "fuel_free a" "fuel_free b" "fuel_free c" "fuel_free e" "fuel_free f"
    for d a b c e and f :: "'a mreader"
    using that by (cases d) auto
  show "fuel_free read_uniffi_trait"
    unfolding read_uniffi_trait_def by (intro fuel_free_intro d) simp
qed

lemma variants_case_ok [steps_intro, fuel_free_intro]:
  "steps p \<Longrightarrow> (\<And>x. steps (q x)) \<Longrightarrow> steps (case sh of EnumShape_Enum \<Rightarrow> p | EnumShape_Error x \<Rightarrow> q x)"
  "fuel_free p \<Longrightarrow> (\<And>x. fuel_free (q x)) \<Longrightarrow>
   fuel_free (case sh of EnumShape_Enum \<Rightarrow> p | EnumShape_Error x \<Rightarrow> q x)"
  by (cases sh; simp)+

lemma item_readers_ok [steps_intro, fuel_free_intro]:
  "steps read_func" "fuel_free read_func"
  "steps read_constructor" "fuel_free read_constructor"
  "steps read_record" "fuel_free read_record"
  "steps read_enum" "fuel_free read_enum"
  "steps (read_object imp)" "fuel_free (read_object imp)"
  "steps read_custom_type" "fuel_free read_custom_type"
  "steps read_callback_interface" "fuel_free read_callback_interface"
  "steps read_trait_method" "fuel_free read_trait_method"
  "steps read_object_trait_impl" "fuel_free read_object_trait_impl"
  unfolding read_func_def read_constructor_def read_record_def read_enum_def read_object_def
    read_custom_type_def read_callback_interface_def read_trait_method_def
    read_object_trait_impl_def
  by (intro steps_intro fuel_free_intro)+

lemma read_item_ok: "steps read_item" "fuel_free read_item"
  unfolding read_item_def by (intro steps_intro) (intro fuel_free_intro, simp)

end
