(* ===== verification/MetaWire.thy ===== *)
theory MetaWire
  imports MetaReader
begin

text \<open>
  What it means for a reader to parse an encoding.  \<open>parses p pre bs a\<close>: after the bytes \<open>pre\<close> have
  been consumed, \<open>p\<close> reads exactly \<open>bs\<close>, whatever follows, and returns \<open>a\<close>.  The bytes consumed
  before matter only to the checksums, which cover the data from its start.
\<close>

section \<open>Parsing relation\<close>

definition parses :: "'a mreader \<Rightarrow> bytes \<Rightarrow> bytes \<Rightarrow> 'a \<Rightarrow> bool" where
  "parses p pre bs a \<longleftrightarrow>
     (\<forall>rest. p \<lparr>initial_data = pre @ bs @ rest, rd_buf = bs @ rest\<rparr> =
        Inr (a, \<lparr>initial_data = pre @ bs @ rest, rd_buf = rest\<rparr>))"

lemma parsesD:
  "parses p pre bs a \<Longrightarrow>
   p \<lparr>initial_data = pre @ bs @ rest, rd_buf = bs @ rest\<rparr> =
     Inr (a, \<lparr>initial_data = pre @ bs @ rest, rd_buf = rest\<rparr>)"
  by (simp add: parses_def)

lemma parses_rret [reads_intro]: "parses (rret a) pre [] a"
  by (simp add: parses_def)

lemma parses_rbind:
  assumes "parses p pre bs a" and "parses (k a) (pre @ bs) cs b"
  shows "parses (rbind p k) pre (bs @ cs) b"
  using assms by (auto simp: parses_def rbind_apply)

lemma parses_eq: "parses p pre bs a \<Longrightarrow> bs = cs \<Longrightarrow> a = b \<Longrightarrow> parses p pre cs b"
  by simp

lemma parses_if_True: "c \<Longrightarrow> parses p pre bs a \<Longrightarrow> parses (if c then p else q) pre bs a"
  by simp

lemma parses_if_False: "\<not> c \<Longrightarrow> parses q pre bs a \<Longrightarrow> parses (if c then p else q) pre bs a"
  by simp

text \<open>Branching on a code that has just been read.\<close>

lemma parses_code:
  assumes "parses (k v) (pre @ [v]) cs b"
  shows "parses (rbind read_u8 k) pre (v # cs) b"
  using assms by (auto simp: parses_def rbind_apply read_u8_def)

lemma parses_map:
  assumes "parses p pre bs a"
  shows "parses (rbind p (\<lambda>x. rret (f x))) pre bs (f a)"
  using parses_rbind [OF assms parses_rret] by simp

lemma parses_map_eq:
  "parses p pre bs a \<Longrightarrow> b = f a \<Longrightarrow> parses (rbind p (\<lambda>x. rret (f x))) pre bs b"
  using parses_map [of p pre bs a f] by simp

lemma parses_rtimes:
  assumes "\<And>x pre. x \<in> set xs \<Longrightarrow> parses p pre (e x) (f x)"
  shows "parses (rtimes (length xs) p) pre (concat (map e xs)) (map f xs)"
  using assms
proof (induction xs arbitrary: pre)
  case Nil
  show ?case by (simp add: parses_rret)
next
  case (Cons x xs)
  have "parses (rtimes (length xs) p) (pre @ e x) (concat (map e xs)) (map f xs)"
    using Cons by simp
  from parses_rbind [OF Cons.prems [of x] parses_map [OF this]]
  show ?case by simp
qed

section \<open>Primitive readers\<close>

lemma parses_u8 [reads_intro]: "parses read_u8 pre [v] v"
  by (simp add: parses_def read_u8_def)

lemma parses_bool [reads_intro]: "parses read_bool pre (enc_bool b) b"
  by (simp add: parses_def read_bool_def read_u8_def rbind_apply enc_bool_def)

lemma parses_slice:
  "rust_string s \<Longrightarrow> n = length s \<Longrightarrow> parses (read_slice_string n) pre (as_bytes s) s"
  by (simp add: parses_def read_slice_string_def)

lemma parses_string [reads_intro]:
  assumes "length s < 256" "rust_string s"
  shows "parses read_string pre (enc_str s) s"
  unfolding read_string_def enc_str_def using assms
  by (intro parses_code parses_slice) (simp_all add: unat_of_nat)

text \<open>Reading back the words that were written with the least significant byte first.\<close>

lemma ucast_byte_of_nat: "(ucast (b :: u8) :: 'a::len word) = word_of_nat (unat b)"
  by simp

lemma read_u16_Cons:
  "rd_buf s = a # b # bs \<Longrightarrow> read_u16 s = Inr (word_of_nat (le_value [a, b]), s\<lparr>rd_buf := bs\<rparr>)"
  by (simp add: read_u16_def push_bit_eq_mult mult.commute)

lemma read_u32_Cons:
  "rd_buf s = a # b # c # d # bs \<Longrightarrow>
   read_u32 s = Inr (word_of_nat (le_value [a, b, c, d]), s\<lparr>rd_buf := bs\<rparr>)"
  by (simp add: read_u32_def push_bit_eq_mult algebra_simps)

lemma le_bytes_2_Cons: "\<exists>a b. le_bytes 2 n = [a, b]"
  by (simp add: le_bytes_2)

lemma le_bytes_4_Cons: "\<exists>a b c d. le_bytes 4 n = [a, b, c, d]"
  by (simp add: le_bytes_4)

lemma parses_u16:
  assumes "n < 65536"
  shows "parses read_u16 pre (le_bytes 2 n) (word_of_nat n)"
proof -
  obtain a b where ab: "le_bytes 2 n = [a, b]" using le_bytes_2_Cons by blast
  then have "le_value [a, b] = n mod 256 ^ 2" using le_value_le_bytes [of 2 n] by simp
  with assms have "le_value [a, b] = n" by simp
  then show ?thesis by (simp add: parses_def ab read_u16_Cons del: le_value.simps)
qed

lemma parses_u32 [reads_intro]: "parses read_u32 pre (enc_u32 v) v"
proof -
  obtain a b c d where ab: "enc_u32 v = [a, b, c, d]"
    unfolding enc_u32_def using le_bytes_4_Cons by blast
  then have "le_value [a, b, c, d] = unat v mod 256 ^ 4"
    using le_value_le_bytes [of 4 "unat v"] by (simp add: enc_u32_def)
  moreover have "unat v < 256 ^ 4" using unsigned_less [of v, where 'a = nat] by simp
  ultimately have "le_value [a, b, c, d] = unat v" by (simp del: le_value.simps)
  then show ?thesis by (simp add: parses_def ab read_u32_Cons del: le_value.simps)
qed

lemma parses_long_string [reads_intro]:
  assumes "length s < 65536" "rust_string s"
  shows "parses read_long_string pre (enc_long_str s) s"
  unfolding read_long_string_def enc_long_str_def using assms
  by (intro parses_rbind [OF parses_u16] parses_slice) (simp_all add: unat_of_nat)

text \<open>\<open>read_optional_long_string\<close> turns the empty docstring into \<open>None\<close>.\<close>

definition doc_of :: "string \<Rightarrow> string option" where
  "doc_of s = (if s = [] then None else Some s)"

lemma parses_optional_long_string [reads_intro]:
  assumes "length s < 65536" "rust_string s"
  shows "parses read_optional_long_string pre (enc_long_str s) (doc_of s)"
  unfolding read_optional_long_string_def
  by (rule parses_eq [OF parses_map [OF parses_long_string [OF assms]]]) (simp_all add: doc_of_def)

definition enc_optional_str :: "string option \<Rightarrow> bytes" where
  "enc_optional_str so = (case so of None \<Rightarrow> enc_bool False | Some s \<Rightarrow> enc_bool True @ enc_str s)"

lemma parses_optional_string [reads_intro]:
  assumes "\<And>s. so = Some s \<Longrightarrow> length s < 256 \<and> rust_string s"
  shows "parses read_optional_string pre (enc_optional_str so) so"
proof (cases so)
  case None
  have "parses read_optional_string pre (enc_bool False @ []) None"
    unfolding read_optional_string_def
    by (rule parses_rbind [OF parses_bool]) (simp add: parses_rret)
  with None show ?thesis by (simp add: enc_optional_str_def)
next
  case (Some s)
  with assms have s: "length s < 256" "rust_string s" by auto
  show ?thesis
    unfolding read_optional_string_def Some enc_optional_str_def option.case
    by (rule parses_rbind [OF parses_bool], rule parses_if_True, simp,
        rule parses_map, rule parses_string [OF s])
qed

text \<open>The checksum is that of everything consumed so far.\<close>

lemma parses_checksum: "parses reader_checksum pre [] (Some (checksum_metadata pre))"
  by (simp add: parses_def reader_checksum_def Let_def)

end
