(* ===== verification/MetaEncode.thy ===== *)
theory MetaEncode
  imports MetaWire
begin

text \<open>
  The metadata constants that the macros generate (\<open>uniffi_macros\<close>) and the \<open>TYPE_ID_META\<close>
  constants of \<open>uniffi_core\<close>, as chains of \<open>MetadataBuffer\<close> calls, and the proof that the reader of
  \<open>uniffi_meta\<close> recovers from each of them the item that the macro was given.

  For every item \<open>X\<close> there are: \<open>X_expr\<close>, the generated chain; \<open>enc_X\<close> and \<open>X_fits\<close>, the bytes it
  stands for and the limits on its names; and \<open>X_meta\<close>, the value that the reader is to return.
  \<open>None\<close> as the value of an \<open>X_expr\<close> is a compile-time failure (a \<open>syn::Error\<close> or a failed
  assertion of the constant's evaluation).
\<close>

section \<open>Types: the \<open>TYPE_ID_META\<close> constants\<close>

text \<open>The Rust types that implement \<open>TypeId\<close>, one constructor per \<open>impl\<close>; user types carry the
  \<open>module_path!()\<close> and the name that the macro was given.\<close>

datatype RustType =
    RT_u8 | RT_i8 | RT_u16 | RT_i16 | RT_u32 | RT_i32 | RT_u64 | RT_i64 | RT_f32 | RT_f64
  | RT_bool | RT_String | RT_SystemTime | RT_Duration | RT_unit
  | RT_byte_slice
  | RT_Option RustType
  | RT_Box RustType
  | RT_Vec RustType
  | RT_HashMap RustType RustType
  | RT_HashSet RustType
  | RT_Result RustType RustType
  | RT_Record string string
  | RT_Enum string string
  | RT_Interface string string
  | RT_TraitInterface string string TraitKind
  | RT_CallbackInterface string string
  | RT_Custom string string RustType

definition trait_kind_code :: "TraitKind \<Rightarrow> u8" where
  "trait_kind_code k =
     (case k of TraitKind_RustOnly \<Rightarrow> TRAIT_KIND_RUST_ONLY
      | TraitKind_Both \<Rightarrow> TRAIT_KIND_BOTH
      | TraitKind_ForeignOnly \<Rightarrow> TRAIT_KIND_FOREIGN_ONLY)"

text \<open>\<open>MetadataBuffer::from_code(code)\<close> followed by a chain of calls.\<close>

definition build_meta :: "u8 \<Rightarrow> (MetadataBuffer \<Rightarrow> MetadataBuffer option) list \<Rightarrow>
    MetadataBuffer option" where
  "build_meta code fs = Option.bind (from_code code) (chain fs)"

primrec type_id_meta :: "RustType \<Rightarrow> MetadataBuffer option" where
  "type_id_meta RT_u8 = build_meta TYPE_U8 []"
| "type_id_meta RT_i8 = build_meta TYPE_I8 []"
| "type_id_meta RT_u16 = build_meta TYPE_U16 []"
| "type_id_meta RT_i16 = build_meta TYPE_I16 []"
| "type_id_meta RT_u32 = build_meta TYPE_U32 []"
| "type_id_meta RT_i32 = build_meta TYPE_I32 []"
| "type_id_meta RT_u64 = build_meta TYPE_U64 []"
| "type_id_meta RT_i64 = build_meta TYPE_I64 []"
| "type_id_meta RT_f32 = build_meta TYPE_F32 []"
| "type_id_meta RT_f64 = build_meta TYPE_F64 []"
| "type_id_meta RT_bool = build_meta TYPE_BOOL []"
| "type_id_meta RT_String = build_meta TYPE_STRING []"
| "type_id_meta RT_SystemTime = build_meta TYPE_SYSTEM_TIME []"
| "type_id_meta RT_Duration = build_meta TYPE_DURATION []"
| "type_id_meta RT_unit = build_meta TYPE_UNIT []"
| "type_id_meta RT_byte_slice = build_meta TYPE_VEC [concat_const (build_meta TYPE_U8 [])]"
| "type_id_meta (RT_Option t) = build_meta TYPE_OPTION [concat_const (type_id_meta t)]"
| "type_id_meta (RT_Box t) = build_meta TYPE_BOX [concat_const (type_id_meta t)]"
| "type_id_meta (RT_Vec t) = build_meta TYPE_VEC [concat_const (type_id_meta t)]"
| "type_id_meta (RT_HashMap k v) =
     build_meta TYPE_HASH_MAP [concat_const (type_id_meta k), concat_const (type_id_meta v)]"
| "type_id_meta (RT_HashSet t) = build_meta TYPE_HASH_SET [concat_const (type_id_meta t)]"
| "type_id_meta (RT_Result r e) =
     build_meta TYPE_RESULT [concat_const (type_id_meta r), concat_const (type_id_meta e)]"
| "type_id_meta (RT_Record mp nm) = build_meta TYPE_RECORD [concat_str mp, concat_str nm]"
| "type_id_meta (RT_Enum mp nm) = build_meta TYPE_ENUM [concat_str mp, concat_str nm]"
| "type_id_meta (RT_Interface mp nm) = build_meta TYPE_INTERFACE [concat_str mp, concat_str nm]"
| "type_id_meta (RT_TraitInterface mp nm k) =
     build_meta TYPE_TRAIT_INTERFACE
       [concat_str mp, concat_str nm, concat_value (trait_kind_code k)]"
| "type_id_meta (RT_CallbackInterface mp nm) =
     build_meta TYPE_CALLBACK_INTERFACE [concat_str mp, concat_str nm]"
| "type_id_meta (RT_Custom mp nm t) =
     build_meta TYPE_CUSTOM [concat_str mp, concat_str nm, concat_const (type_id_meta t)]"

text \<open>The type a Rust type is exposed as.  \<open>()\<close> and \<open>Result\<close> are no types of the interface; they
  occur in return types only.  A sequence of bytes is \<open>Bytes\<close>.\<close>

definition sequence_of :: "Type \<Rightarrow> Type" where
  "sequence_of t = (if t = Type_UInt8 then Type_Bytes else Type_Sequence t)"

fun type_of :: "RustType \<Rightarrow> Type option" where
  "type_of RT_u8 = Some Type_UInt8"
| "type_of RT_i8 = Some Type_Int8"
| "type_of RT_u16 = Some Type_UInt16"
| "type_of RT_i16 = Some Type_Int16"
| "type_of RT_u32 = Some Type_UInt32"
| "type_of RT_i32 = Some Type_Int32"
| "type_of RT_u64 = Some Type_UInt64"
| "type_of RT_i64 = Some Type_Int64"
| "type_of RT_f32 = Some Type_Float32"
| "type_of RT_f64 = Some Type_Float64"
| "type_of RT_bool = Some Type_Boolean"
| "type_of RT_String = Some Type_String"
| "type_of RT_SystemTime = Some Type_Timestamp"
| "type_of RT_Duration = Some Type_Duration"
| "type_of RT_unit = None"
| "type_of RT_byte_slice = Some Type_Bytes"
| "type_of (RT_Option t) = map_option Type_Optional (type_of t)"
| "type_of (RT_Box t) = map_option Type_Box (type_of t)"
| "type_of (RT_Vec t) = map_option sequence_of (type_of t)"
| "type_of (RT_HashMap k v) =
     Option.bind (type_of k) (\<lambda>k. map_option (Type_Map k) (type_of v))"
| "type_of (RT_HashSet t) = map_option Type_Set (type_of t)"
| "type_of (RT_Result r e) = None"
| "type_of (RT_Record mp nm) = Some (Type_Record mp nm)"
| "type_of (RT_Enum mp nm) = Some (Type_Enum mp nm)"
| "type_of (RT_Interface mp nm) = Some (Type_Object mp nm ObjectImpl_Struct)"
| "type_of (RT_TraitInterface mp nm k) = Some (Type_Object mp nm (ObjectImpl_Trait k))"
| "type_of (RT_CallbackInterface mp nm) = Some (Type_CallbackInterface mp nm)"
| "type_of (RT_Custom mp nm t) = map_option (Type_Custom mp nm) (type_of t)"

fun opt_type_of :: "RustType \<Rightarrow> Type option option" where
  "opt_type_of RT_unit = Some None"
| "opt_type_of t = map_option Some (type_of t)"

fun return_type_of :: "RustType \<Rightarrow> (Type option \<times> Type option) option" where
  "return_type_of RT_unit = Some (None, None)"
| "return_type_of (RT_Result r e) =
     Option.bind (opt_type_of r) (\<lambda>r. map_option (Pair r) (opt_type_of e))"
| "return_type_of t = map_option (\<lambda>t. (Some t, None)) (type_of t)"

primrec rt_code :: "RustType \<Rightarrow> u8" where
  "rt_code RT_u8 = TYPE_U8" | "rt_code RT_i8 = TYPE_I8" | "rt_code RT_u16 = TYPE_U16"
| "rt_code RT_i16 = TYPE_I16" | "rt_code RT_u32 = TYPE_U32" | "rt_code RT_i32 = TYPE_I32"
| "rt_code RT_u64 = TYPE_U64" | "rt_code RT_i64 = TYPE_I64" | "rt_code RT_f32 = TYPE_F32"
| "rt_code RT_f64 = TYPE_F64" | "rt_code RT_bool = TYPE_BOOL" | "rt_code RT_String = TYPE_STRING"
| "rt_code RT_SystemTime = TYPE_SYSTEM_TIME" | "rt_code RT_Duration = TYPE_DURATION"
| "rt_code RT_unit = TYPE_UNIT" | "rt_code RT_byte_slice = TYPE_VEC"
| "rt_code (RT_Option t) = TYPE_OPTION" | "rt_code (RT_Box t) = TYPE_BOX"
| "rt_code (RT_Vec t) = TYPE_VEC" | "rt_code (RT_HashMap k v) = TYPE_HASH_MAP"
| "rt_code (RT_HashSet t) = TYPE_HASH_SET" | "rt_code (RT_Result r e) = TYPE_RESULT"
| "rt_code (RT_Record mp nm) = TYPE_RECORD" | "rt_code (RT_Enum mp nm) = TYPE_ENUM"
| "rt_code (RT_Interface mp nm) = TYPE_INTERFACE"
| "rt_code (RT_TraitInterface mp nm k) = TYPE_TRAIT_INTERFACE"
| "rt_code (RT_CallbackInterface mp nm) = TYPE_CALLBACK_INTERFACE"
| "rt_code (RT_Custom mp nm t) = TYPE_CUSTOM"

fun enc_type :: "RustType \<Rightarrow> bytes" and enc_type_args :: "RustType \<Rightarrow> bytes" where
  "enc_type t = rt_code t # enc_type_args t"
| "enc_type_args RT_byte_slice = TYPE_U8 # []"
| "enc_type_args (RT_Option t) = enc_type t"
| "enc_type_args (RT_Box t) = enc_type t"
| "enc_type_args (RT_Vec t) = enc_type t"
| "enc_type_args (RT_HashMap k v) = enc_type k @ enc_type v"
| "enc_type_args (RT_HashSet t) = enc_type t"
| "enc_type_args (RT_Result r e) = enc_type r @ enc_type e"
| "enc_type_args (RT_Record mp nm) = enc_str mp @ enc_str nm"
| "enc_type_args (RT_Enum mp nm) = enc_str mp @ enc_str nm"
| "enc_type_args (RT_Interface mp nm) = enc_str mp @ enc_str nm"
| "enc_type_args (RT_TraitInterface mp nm k) = enc_str mp @ enc_str nm @ [trait_kind_code k]"
| "enc_type_args (RT_CallbackInterface mp nm) = enc_str mp @ enc_str nm"
| "enc_type_args (RT_Custom mp nm t) = enc_str mp @ enc_str nm @ enc_type t"
| "enc_type_args t = []"

fun type_strings :: "RustType \<Rightarrow> string list" where
  "type_strings (RT_Option t) = type_strings t"
| "type_strings (RT_Box t) = type_strings t"
| "type_strings (RT_Vec t) = type_strings t"
| "type_strings (RT_HashMap k v) = type_strings k @ type_strings v"
| "type_strings (RT_HashSet t) = type_strings t"
| "type_strings (RT_Result r e) = type_strings r @ type_strings e"
| "type_strings (RT_Record mp nm) = [mp, nm]"
| "type_strings (RT_Enum mp nm) = [mp, nm]"
| "type_strings (RT_Interface mp nm) = [mp, nm]"
| "type_strings (RT_TraitInterface mp nm k) = [mp, nm]"
| "type_strings (RT_CallbackInterface mp nm) = [mp, nm]"
| "type_strings (RT_Custom mp nm t) = mp # nm # type_strings t"
| "type_strings t = []"

definition short :: "string \<Rightarrow> bool" where
  "short s \<longleftrightarrow> length s < 256"

lemma build_meta_chain: "build_meta code fs = chain (concat_value code # fs) mb_new"
  by (simp add: build_meta_def from_code_def chain.simps)

text \<open>A constant stands for \<open>bs\<close>: it compiles exactly when \<open>c\<close> holds and \<open>bs\<close> fits in a buffer, and
  then holds \<open>bs\<close>.\<close>

definition const_ok :: "MetadataBuffer option \<Rightarrow> bool \<Rightarrow> bytes \<Rightarrow> bool" where
  "const_ok mo c bs \<longleftrightarrow> (\<exists>g. mo = g mb_new \<and> builds g c bs)"

lemma const_ok_build_meta [builds_intro]:
  "builds (chain fs) c bs \<Longrightarrow> const_ok (build_meta code fs) c (code # bs)"
  unfolding const_ok_def build_meta_chain
  using builds_chain_Cons [OF builds_concat_value] by fastforce

lemma const_ok_Some_iff:
  assumes "const_ok mo c bs"
  shows "mo = Some m \<Longrightarrow> mb_ok m \<and> mb_as_ref m = bs"
    and "(\<exists>m. mo = Some m) \<longleftrightarrow> c \<and> length bs \<le> BUF_SIZE"
proof -
  obtain g where g: "mo = g mb_new" "builds g c bs" using assms by (auto simp: const_ok_def)
  show "mo = Some m \<Longrightarrow> mb_ok m \<and> mb_as_ref m = bs" "(\<exists>m. mo = Some m) \<longleftrightarrow> c \<and> length bs \<le> BUF_SIZE"
    using builds_Some_iff [OF g(2)] g(1) by auto
qed

lemma const_ok_eq: "const_ok mo c bs \<Longrightarrow> c = d \<Longrightarrow> bs = cs \<Longrightarrow> const_ok mo d cs"
  by simp

lemma builds_const [builds_intro]: "const_ok mo c bs \<Longrightarrow> builds (concat_const mo) c bs"
  using builds_concat_const by (auto simp: const_ok_def)

lemma const_ok_type: "const_ok (type_id_meta t) (\<forall>s\<in>set (type_strings t). short s) (enc_type t)"
  by (induction t; (simp only: type_id_meta.simps, rule const_ok_eq,
        (rule builds_intro | assumption)+, auto simp: short_def))

section \<open>Reading types back\<close>

definition text_ok :: "string \<Rightarrow> bool" where
  "text_ok s \<longleftrightarrow> length s < 256 \<and> rust_string s"

lemma parses_text: "text_ok s \<Longrightarrow> parses read_string pre (enc_str s) s"
  by (simp add: text_ok_def parses_string)

lemma parses_two_strings:
  assumes "text_ok mp" "text_ok nm"
  shows "parses (rbind read_string (\<lambda>mp. rbind read_string (\<lambda>nm. rret (f mp nm)))) pre
     (enc_str mp @ enc_str nm) (f mp nm)"
  by (rule parses_rbind [OF parses_text [OF assms(1)] parses_map [OF parses_text [OF assms(2)]]])

lemma parses_trait_kind: "parses read_trait_kind pre [trait_kind_code k] k"
  unfolding read_trait_kind_def
  by (rule parses_code) (cases k; simp add: trait_kind_code_def parses_rret)

lemma parses_read_type_fuel:
  "type_of rt = Some t \<Longrightarrow> \<forall>s\<in>set (type_strings rt). text_ok s \<Longrightarrow>
   length (enc_type rt) \<le> n \<Longrightarrow> parses (read_type_fuel n) pre (enc_type rt) t"
proof (induction rt arbitrary: t n pre)
  case (RT_Option rt)
  then obtain n' t' where n: "n = Suc n'" "t = Type_Optional t'" "type_of rt = Some t'"
    by (cases n) auto
  with RT_Option have "parses (read_type_fuel n') (pre @ [TYPE_OPTION]) (enc_type rt) t'" by simp
  then show ?case
    unfolding n enc_type.simps [of "RT_Option _"] read_type_fuel.simps
    by (intro parses_code) (simp add: parses_map)
next
  case (RT_Box rt)
  then obtain n' t' where n: "n = Suc n'" "t = Type_Box t'" "type_of rt = Some t'"
    by (cases n) auto
  with RT_Box have "parses (read_type_fuel n') (pre @ [TYPE_BOX]) (enc_type rt) t'" by simp
  then show ?case
    unfolding n enc_type.simps [of "RT_Box _"] read_type_fuel.simps
    by (intro parses_code) (simp add: parses_map)
next
  case (RT_HashSet rt)
  then obtain n' t' where n: "n = Suc n'" "t = Type_Set t'" "type_of rt = Some t'"
    by (cases n) auto
  with RT_HashSet have "parses (read_type_fuel n') (pre @ [TYPE_HASH_SET]) (enc_type rt) t'" by simp
  then show ?case
    unfolding n enc_type.simps [of "RT_HashSet _"] read_type_fuel.simps
    by (intro parses_code) (simp add: parses_map)
next
  case (RT_Vec rt)
  then obtain n' t' where n: "n = Suc n'" "t = sequence_of t'" "type_of rt = Some t'"
    by (cases n) auto
  with RT_Vec have rec: "parses (read_type_fuel n') (pre @ [TYPE_VEC]) (enc_type rt) t'" by simp
  have "(\<lambda>t. if t = Type_UInt8 then rret Type_Bytes else rret (Type_Sequence t)) =
      (\<lambda>t. rret (sequence_of t) :: Type mreader)"
    by (auto simp: fun_eq_iff sequence_of_def)
  with parses_map [OF rec, of sequence_of] show ?case
    unfolding n enc_type.simps [of "RT_Vec _"] read_type_fuel.simps
    by (intro parses_code) simp
next
  case (RT_HashMap rk rv)
  then obtain n' k v where n: "n = Suc n'" "t = Type_Map k v" "type_of rk = Some k" "type_of rv = Some v"
    by (cases n) (auto split: bind_splits)
  with RT_HashMap.prems RT_HashMap.IH(1) [of k n' "pre @ [TYPE_HASH_MAP]"]
    RT_HashMap.IH(2) [of v n' "(pre @ [TYPE_HASH_MAP]) @ enc_type rk"]
  have "parses (read_type_fuel n') (pre @ [TYPE_HASH_MAP]) (enc_type rk) k"
    "parses (read_type_fuel n') ((pre @ [TYPE_HASH_MAP]) @ enc_type rk) (enc_type rv) v"
    by auto
  from parses_rbind [OF this(1) parses_map [OF this(2)]] show ?case
    unfolding n enc_type.simps [of "RT_HashMap _ _"] read_type_fuel.simps
    by (intro parses_code) simp
next
  case (RT_Custom mp nm rt)
  then obtain n' t' where n: "n = Suc n'" "t = Type_Custom mp nm t'" "type_of rt = Some t'"
    by (cases n) auto
  with RT_Custom.prems RT_Custom.IH [of t' n']
  have "parses (read_type_fuel n') pre' (enc_type rt) t'" for pre'
    by (auto simp: enc_str_def)
  then have "parses (rbind read_string (\<lambda>mp. rbind read_string (\<lambda>nm. rbind (read_type_fuel n') (\<lambda>t.
         rret (Type_Custom mp nm t))))) (pre @ [TYPE_CUSTOM]) (enc_str mp @ enc_str nm @ enc_type rt)
       (Type_Custom mp nm t')"
    using RT_Custom.prems by (intro parses_rbind [OF parses_text] parses_map) simp_all
  then show ?case
    unfolding n enc_type.simps [of "RT_Custom _ _ _"] read_type_fuel.simps
    by (intro parses_code) simp
next
  case (RT_TraitInterface mp nm k)
  then obtain n' where n: "n = Suc n'" "t = Type_Object mp nm (ObjectImpl_Trait k)"
    by (cases n) auto
  have "parses (rbind read_string (\<lambda>mp. rbind read_string (\<lambda>nm. rbind read_trait_kind (\<lambda>kind.
         rret (Type_Object mp nm (ObjectImpl_Trait kind)))))) (pre @ [TYPE_TRAIT_INTERFACE])
       (enc_str mp @ enc_str nm @ [trait_kind_code k]) t"
    unfolding n using RT_TraitInterface.prems
    by (intro parses_rbind [OF parses_text] parses_map [OF parses_trait_kind]) simp_all
  then show ?case
    unfolding n enc_type.simps [of "RT_TraitInterface _ _ _"] read_type_fuel.simps
    by (intro parses_code) simp
next
  case (RT_Record mp nm)
  then obtain n' where n: "n = Suc n'" "t = Type_Record mp nm" by (cases n) auto
  from RT_Record.prems show ?case
    unfolding n enc_type.simps [of "RT_Record _ _"] read_type_fuel.simps
    by (intro parses_code) (simp add: parses_two_strings)
next
  case (RT_Enum mp nm)
  then obtain n' where n: "n = Suc n'" "t = Type_Enum mp nm" by (cases n) auto
  from RT_Enum.prems show ?case
    unfolding n enc_type.simps [of "RT_Enum _ _"] read_type_fuel.simps
    by (intro parses_code) (simp add: parses_two_strings)
next
  case (RT_Interface mp nm)
  then obtain n' where n: "n = Suc n'" "t = Type_Object mp nm ObjectImpl_Struct" by (cases n) auto
  from RT_Interface.prems show ?case
    unfolding n enc_type.simps [of "RT_Interface _ _"] read_type_fuel.simps
    by (intro parses_code)
       (simp add: parses_two_strings [where f = "\<lambda>mp nm. Type_Object mp nm ObjectImpl_Struct"])
next
  case (RT_CallbackInterface mp nm)
  then obtain n' where n: "n = Suc n'" "t = Type_CallbackInterface mp nm" by (cases n) auto
  from RT_CallbackInterface.prems show ?case
    unfolding n enc_type.simps [of "RT_CallbackInterface _ _"] read_type_fuel.simps
    by (intro parses_code) (simp add: parses_two_strings)
next
  case RT_byte_slice
  then obtain n' where n: "n = Suc (Suc n')" "t = Type_Bytes" by (cases n; cases "n - 1") auto
  have "parses (read_type_fuel (Suc n')) (pre @ [TYPE_VEC]) [TYPE_U8] Type_UInt8"
    unfolding read_type_fuel.simps by (rule parses_code) (simp add: parses_rret)
  with parses_rbind [OF this, of "\<lambda>t. if t = Type_UInt8 then rret Type_Bytes else rret (Type_Sequence t)"
      "[]" Type_Bytes]
  show ?case
    unfolding n enc_type.simps [of RT_byte_slice] read_type_fuel.simps(2) [of "Suc n'"]
    by (intro parses_code) (simp add: parses_rret)
next
  case (RT_Result r e)
  then show ?case by simp
qed (case_tac n; simp; rule parses_code; simp add: parses_rret; fail)+

lemma parses_type:
  assumes "type_of rt = Some t" "\<forall>s\<in>set (type_strings rt). text_ok s"
  shows "parses read_type pre (enc_type rt) t"
  unfolding parses_def
proof
  fix rest
  show "read_type \<lparr>initial_data = pre @ enc_type rt @ rest, rd_buf = enc_type rt @ rest\<rparr> =
      Inr (t, \<lparr>initial_data = pre @ enc_type rt @ rest, rd_buf = rest\<rparr>)"
    unfolding read_type_def
    by (rule parsesD [OF parses_read_type_fuel [OF assms]]) simp
qed

text \<open>Return types: the reader looks at the next byte to tell \<open>()\<close> and \<open>Result\<close> from the rest.\<close>

lemma parses_peek:
  "parses (k v) pre (v # bs) b \<Longrightarrow> parses (rbind peek_u8 k) pre (v # bs) b"
  by (simp add: parses_def rbind_apply peek_u8_def)

lemma rt_code_unit: "rt_code t = 255 \<longleftrightarrow> t = RT_unit"
  by (cases t) simp_all

lemma rt_code_result: "rt_code t = 23 \<longleftrightarrow> (\<exists>r e. t = RT_Result r e)"
  by (cases t) simp_all

lemma opt_type_of_Some:
  "opt_type_of rt = Some t \<Longrightarrow> rt = RT_unit \<and> t = None \<or> rt \<noteq> RT_unit \<and> (\<exists>u. type_of rt = Some u \<and> t = Some u)"
  by (cases rt rule: opt_type_of.cases) auto

lemma parses_optional_type:
  assumes "opt_type_of rt = Some t" "\<forall>s\<in>set (type_strings rt). text_ok s"
  shows "parses read_optional_type pre (enc_type rt) t"
proof (cases "rt = RT_unit")
  case True
  with assms show ?thesis
    unfolding read_optional_type_def enc_type.simps [of rt]
    by (intro parses_peek) (simp add: parses_code parses_rret)
next
  case False
  with opt_type_of_Some [OF assms(1)] obtain u where u: "type_of rt = Some u" "t = Some u" by auto
  from parses_map [OF parses_type [OF u(1) assms(2)], of Some] False u show ?thesis
    unfolding read_optional_type_def enc_type.simps [of rt]
    by (intro parses_peek) (simp add: rt_code_unit)
qed

lemma return_type_of_plain:
  "rt \<noteq> RT_unit \<Longrightarrow> \<nexists>r e. rt = RT_Result r e \<Longrightarrow>
   return_type_of rt = map_option (\<lambda>t. (Some t, None)) (type_of rt)"
  by (cases rt rule: return_type_of.cases) auto

lemma parses_return_type:
  assumes "return_type_of rt = Some (r, e)" "\<forall>s\<in>set (type_strings rt). text_ok s"
  shows "parses read_return_type pre (enc_type rt) (r, e)"
proof (cases "rt = RT_unit")
  case True
  with assms show ?thesis
    unfolding read_return_type_def enc_type.simps [of rt]
    by (intro parses_peek) (simp add: parses_code parses_rret)
next
  case not_unit: False
  show ?thesis
  proof (cases "\<exists>r e. rt = RT_Result r e")
    case True
    then obtain rr re where rt: "rt = RT_Result rr re" by blast
    with assms have re: "opt_type_of rr = Some r" "opt_type_of re = Some e"
      "\<forall>s\<in>set (type_strings rr). text_ok s" "\<forall>s\<in>set (type_strings re). text_ok s"
      by (auto split: bind_splits)
    have "parses (rbind read_optional_type (\<lambda>r. rbind read_optional_type (\<lambda>e. rret (r, e))))
        (pre @ [TYPE_RESULT]) (enc_type rr @ enc_type re) (r, e)"
      by (rule parses_rbind [OF parses_optional_type parses_map [OF parses_optional_type]])
         (use re in simp_all)
    then show ?thesis
      unfolding read_return_type_def rt enc_type.simps [of "RT_Result _ _"]
      by (intro parses_peek) (simp add: parses_code)
  next
    case False
    with not_unit assms obtain t where t: "type_of rt = Some t" "r = Some t" "e = None"
      using return_type_of_plain [OF not_unit] by auto
    from parses_map [OF parses_type [OF t(1) assms(2)], of "\<lambda>t. (Some t, None)"] False not_unit t
    show ?thesis
      unfolding read_return_type_def enc_type.simps [of rt]
      by (intro parses_peek) (simp add: rt_code_unit rt_code_result)
  qed
qed

end
