(* ===== verification/MacroItems.thy ===== *)
theory MacroItems
  imports MetaEncode
begin

text \<open>
  The item metadata that \<open>uniffi_macros\<close> generates: functions, methods and constructors
  (\<open>fnsig.rs\<close>, \<open>default.rs\<close>), records (\<open>record.rs\<close>), enums and errors (\<open>enum_.rs\<close>, \<open>error.rs\<close>),
  objects, callback interfaces, custom types, traits, the namespace and the UDL file.  The records
  below are what a macro has parsed from the annotated Rust item; the parsing itself is \<open>syn\<close>'s.
\<close>

section \<open>Shared pieces\<close>

definition syn_error :: "MetadataBuffer \<Rightarrow> MetadataBuffer option" where
  "syn_error = (\<lambda>m. None)"

text \<open>\<open>value.try_into::<u8>()\<close>.\<close>

definition try_metadata_value_from_usize :: "nat \<Rightarrow> u8 option" where
  "try_metadata_value_from_usize n = (if n \<le> 255 then Some (word_of_nat n) else None)"

definition concat_len :: "nat \<Rightarrow> MetadataBuffer \<Rightarrow> MetadataBuffer option" where
  "concat_len n =
     (case try_metadata_value_from_usize n of Some v \<Rightarrow> concat_value v | None \<Rightarrow> syn_error)"

definition orig_name_metadata :: "bool \<Rightarrow> string \<Rightarrow> MetadataBuffer \<Rightarrow> MetadataBuffer option" where
  "orig_name_metadata name_from_attrs ident =
     (if name_from_attrs then chain [concat_bool True, concat_str ident] else concat_bool False)"

definition orig_name_of :: "bool \<Rightarrow> string \<Rightarrow> string option" where
  "orig_name_of name_from_attrs ident = (if name_from_attrs then Some ident else None)"

definition orig_strings :: "bool \<Rightarrow> string \<Rightarrow> string list" where
  "orig_strings name_from_attrs ident = (if name_from_attrs then [ident] else [])"

definition shorts :: "string list \<Rightarrow> bool" where
  "shorts ss \<longleftrightarrow> (\<forall>s\<in>set ss. length s < 256)"

definition texts_ok :: "string list \<Rightarrow> bool" where
  "texts_ok ss \<longleftrightarrow> (\<forall>s\<in>set ss. text_ok s)"

lemma shorts_simps [simp]:
  "shorts []" "shorts (s # ss) \<longleftrightarrow> length s < 256 \<and> shorts ss"
  "shorts (ss @ ts) \<longleftrightarrow> shorts ss \<and> shorts ts"
  by (auto simp: shorts_def)

lemma texts_ok_simps [simp]:
  "texts_ok []" "texts_ok (s # ss) \<longleftrightarrow> text_ok s \<and> texts_ok ss"
  "texts_ok (ss @ ts) \<longleftrightarrow> texts_ok ss \<and> texts_ok ts"
  by (auto simp: texts_ok_def)

lemma shorts_type_strings: "(\<forall>s\<in>set (type_strings t). short s) = shorts (type_strings t)"
  by (simp add: shorts_def short_def)

lemma builds_type [builds_intro]:
  "builds (concat_const (type_id_meta t)) (shorts (type_strings t)) (enc_type t)"
  using builds_const [OF const_ok_type [of t]] by (simp add: shorts_type_strings del: enc_type.simps)

lemma builds_syn_error [builds_intro]: "builds syn_error False bs"
  by (simp add: builds_def syn_error_def)

lemma builds_if_error [builds_intro]:
  "builds f c bs \<Longrightarrow> builds (if b then syn_error else f) (\<not> b \<and> c) bs"
  by (auto simp: builds_def syn_error_def)

lemma builds_concat_len [builds_intro]: "builds (concat_len n) (n \<le> 255) [word_of_nat n]"
  using builds_concat_value [of "word_of_nat n"]
  by (auto simp: concat_len_def try_metadata_value_from_usize_def builds_def syn_error_def)

lemma builds_orig_name [builds_intro]:
  "builds (orig_name_metadata fa ident) (shorts (orig_strings fa ident))
     (enc_optional_str (orig_name_of fa ident))"
proof (cases fa)
  case True
  have "builds (chain [concat_bool True, concat_str ident]) (True \<and> length ident < 256 \<and> True)
      (enc_bool True @ enc_str ident @ [])"
    by (intro builds_intro)
  with True show ?thesis
    by (simp add: orig_name_metadata_def orig_strings_def orig_name_of_def enc_optional_str_def)
next
  case False
  with builds_concat_bool [of False] show ?thesis
    by (simp add: orig_name_metadata_def orig_strings_def orig_name_of_def enc_optional_str_def)
qed

lemma parses_orig_name:
  "texts_ok (orig_strings fa ident) \<Longrightarrow>
   parses read_optional_string pre (enc_optional_str (orig_name_of fa ident)) (orig_name_of fa ident)"
  by (rule parses_optional_string) (auto simp: orig_strings_def orig_name_of_def text_ok_def split: if_splits)

definition doc_ok :: "string \<Rightarrow> bool" where
  "doc_ok s \<longleftrightarrow> length s < 65536 \<and> rust_string s"

lemma parses_doc: "doc_ok s \<Longrightarrow> parses read_optional_long_string pre (enc_long_str s) (doc_of s)"
  by (simp add: doc_ok_def parses_optional_long_string)

lemma parses_type_ok:
  "type_of rt = Some t \<Longrightarrow> texts_ok (type_strings rt) \<Longrightarrow> parses read_type pre (enc_type rt) t"
  by (simp add: parses_type texts_ok_def del: enc_type.simps)

text \<open>A counted list: the length byte and the elements.\<close>

definition enc_list :: "('a \<Rightarrow> bytes) \<Rightarrow> 'a list \<Rightarrow> bytes" where
  "enc_list e xs = word_of_nat (length xs) # concat (map e xs)"

lemma builds_counted:
  assumes "\<And>x. x \<in> set xs \<Longrightarrow> builds (f x) (c x) (e x)"
  shows "builds (chain [concat_len (length xs), chain (map f xs)])
     (length xs \<le> 255 \<and> (\<forall>x\<in>set xs. c x)) (enc_list e xs)"
proof -
  have "builds (chain [concat_len (length xs), chain (map f xs)])
     (length xs \<le> 255 \<and> (\<forall>x\<in>set xs. c x) \<and> True) ([word_of_nat (length xs)] @ concat (map e xs) @ [])"
    by (intro builds_intro) (rule assms)
  then show ?thesis by (simp add: enc_list_def)
qed

lemma parses_counted:
  assumes "length xs \<le> 255"
    and "\<And>x pre. x \<in> set xs \<Longrightarrow> parses p pre (e x) (f x)"
  shows "parses (rbind read_u8 (\<lambda>n. rtimes (unat n) p)) pre (enc_list e xs) (map f xs)"
  unfolding enc_list_def
proof (rule parses_code)
  have "unat (word_of_nat (length xs) :: u8) = length xs"
    using assms(1) by (simp add: unat_of_nat)
  then show "parses (rtimes (unat (word_of_nat (length xs) :: u8)) p)
      (pre @ [word_of_nat (length xs)]) (concat (map e xs)) (map f xs)"
    using parses_rtimes [of xs p e f] assms(2) by simp
qed

lemma those_map_Some:
  "those (map f xs) = Some ys \<Longrightarrow> ys = map (the \<circ> f) xs \<and> (\<forall>x\<in>set xs. f x = Some (the (f x)))"
  by (induction xs arbitrary: ys) (auto split: option.splits)

lemma parses_counted_those:
  assumes "those (map f xs) = Some ys" "length xs \<le> 255"
    and "\<And>x y pre. x \<in> set xs \<Longrightarrow> f x = Some y \<Longrightarrow> parses p pre (e x) y"
  shows "parses (rbind read_u8 (\<lambda>n. rtimes (unat n) p)) pre (enc_list e xs) ys"
proof -
  from those_map_Some [OF assms(1)] have ys: "ys = map (the \<circ> f) xs"
    and f: "\<And>x. x \<in> set xs \<Longrightarrow> f x = Some (the (f x))" by auto
  show ?thesis unfolding ys
    by (rule parses_counted [OF assms(2)]) (use assms(3) f in auto)
qed

section \<open>Default values (\<open>default.rs\<close>)\<close>

text \<open>The literals are those of \<open>syn\<close>, integers and floats with their decimal digits and suffix.\<close>

datatype DefaultValue =
    DV_Str string
  | DV_Int string string
  | DV_Float string string
  | DV_Bool bool
  | DV_OtherLiteral
  | DV_None
  | DV_Some DefaultValue
  | DV_EmptySeq
  | DV_Default

primrec default_calls :: "DefaultValue \<Rightarrow> MetadataBuffer \<Rightarrow> MetadataBuffer option" where
  "default_calls (DV_Str s) =
     chain [concat_value DEFVALUE_LITERAL, concat_value LIT_STR, concat_str s]"
| "default_calls (DV_Int digits suffix) =
     (if suffix \<noteq> [] then syn_error
      else chain [concat_value DEFVALUE_LITERAL, concat_value LIT_INT, concat_str digits])"
| "default_calls (DV_Float digits suffix) =
     (if suffix \<noteq> [] then syn_error
      else chain [concat_value DEFVALUE_LITERAL, concat_value LIT_FLOAT, concat_str digits])"
| "default_calls (DV_Bool b) =
     chain [concat_value DEFVALUE_LITERAL, concat_value LIT_BOOL, concat_bool b]"
| "default_calls DV_OtherLiteral = syn_error"
| "default_calls DV_EmptySeq = chain [concat_value DEFVALUE_LITERAL, concat_value LIT_EMPTY_SEQ]"
| "default_calls DV_None = chain [concat_value DEFVALUE_LITERAL, concat_value LIT_NONE]"
| "default_calls (DV_Some inner) =
     chain [concat_value DEFVALUE_LITERAL, concat_value LIT_SOME, default_calls inner]"
| "default_calls DV_Default = chain [concat_value DEFVALUE_DEFAULT]"

definition default_value_metadata_calls ::
    "DefaultValue option \<Rightarrow> MetadataBuffer \<Rightarrow> MetadataBuffer option" where
  "default_value_metadata_calls d =
     (case d of Some d \<Rightarrow> chain [concat_bool True, default_calls d] | None \<Rightarrow> concat_bool False)"

primrec enc_default :: "DefaultValue \<Rightarrow> bytes" where
  "enc_default (DV_Str s) = [DEFVALUE_LITERAL, LIT_STR] @ enc_str s"
| "enc_default (DV_Int digits suffix) = [DEFVALUE_LITERAL, LIT_INT] @ enc_str digits"
| "enc_default (DV_Float digits suffix) = [DEFVALUE_LITERAL, LIT_FLOAT] @ enc_str digits"
| "enc_default (DV_Bool b) = [DEFVALUE_LITERAL, LIT_BOOL] @ enc_bool b"
| "enc_default DV_OtherLiteral = []"
| "enc_default DV_EmptySeq = [DEFVALUE_LITERAL, LIT_EMPTY_SEQ]"
| "enc_default DV_None = [DEFVALUE_LITERAL, LIT_NONE]"
| "enc_default (DV_Some d) = [DEFVALUE_LITERAL, LIT_SOME] @ enc_default d"
| "enc_default DV_Default = [DEFVALUE_DEFAULT]"

primrec default_strings :: "DefaultValue \<Rightarrow> string list" where
  "default_strings (DV_Str s) = [s]"
| "default_strings (DV_Int digits suffix) = [digits]"
| "default_strings (DV_Float digits suffix) = [digits]"
| "default_strings (DV_Bool b) = []"
| "default_strings DV_OtherLiteral = []"
| "default_strings DV_EmptySeq = []"
| "default_strings DV_None = []"
| "default_strings (DV_Some d) = default_strings d"
| "default_strings DV_Default = []"

text \<open>The literals that the macro accepts.\<close>

primrec default_accepted :: "DefaultValue \<Rightarrow> bool" where
  "default_accepted (DV_Str s) = True"
| "default_accepted (DV_Int digits suffix) = (suffix = [])"
| "default_accepted (DV_Float digits suffix) = (suffix = [])"
| "default_accepted (DV_Bool b) = True"
| "default_accepted DV_OtherLiteral = False"
| "default_accepted DV_EmptySeq = True"
| "default_accepted DV_None = True"
| "default_accepted (DV_Some d) = default_accepted d"
| "default_accepted DV_Default = True"

text \<open>The value a default stands for at a type; \<open>None\<close> where the reader refuses it.\<close>

definition int_literal :: "Type \<Rightarrow> string \<Rightarrow> LiteralMetadata option" where
  "int_literal ty digits =
     (case ty of
        Type_UInt8 \<Rightarrow> map_option (\<lambda>v. Literal_UInt v Radix_Decimal ty) (parse_uint 8 digits)
      | Type_Int8 \<Rightarrow> map_option (\<lambda>v. Literal_Int v Radix_Decimal ty) (parse_sint 8 digits)
      | Type_UInt16 \<Rightarrow> map_option (\<lambda>v. Literal_UInt v Radix_Decimal ty) (parse_uint 16 digits)
      | Type_Int16 \<Rightarrow> map_option (\<lambda>v. Literal_Int v Radix_Decimal ty) (parse_sint 16 digits)
      | Type_UInt32 \<Rightarrow> map_option (\<lambda>v. Literal_UInt v Radix_Decimal ty) (parse_uint 32 digits)
      | Type_Int32 \<Rightarrow> map_option (\<lambda>v. Literal_Int v Radix_Decimal ty) (parse_sint 32 digits)
      | Type_UInt64 \<Rightarrow> map_option (\<lambda>v. Literal_UInt v Radix_Decimal ty) (parse_uint 64 digits)
      | Type_Int64 \<Rightarrow> map_option (\<lambda>v. Literal_Int v Radix_Decimal ty) (parse_sint 64 digits)
      | _ \<Rightarrow> None)"

fun optional_inner :: "Type \<Rightarrow> Type option" where
  "optional_inner (Type_Optional t) = Some t"
| "optional_inner t = None"

primrec default_of :: "DefaultValue \<Rightarrow> Type \<Rightarrow> DefaultValueMetadata option" where
  "default_of (DV_Str s) ty =
     (if literal_base ty = Type_String then Some (DefaultValue_Literal (Literal_String s)) else None)"
| "default_of (DV_Int digits suffix) ty =
     map_option DefaultValue_Literal
       (int_literal (int_literal_type digits (literal_base ty)) digits)"
| "default_of (DV_Float digits suffix) ty =
     (if literal_base ty = Type_Float32 \<or> literal_base ty = Type_Float64
      then Some (DefaultValue_Literal (Literal_Float digits (literal_base ty))) else None)"
| "default_of (DV_Bool b) ty = Some (DefaultValue_Literal (Literal_Boolean b))"
| "default_of DV_OtherLiteral ty = None"
| "default_of DV_EmptySeq ty = Some (DefaultValue_Literal Literal_EmptySequence)"
| "default_of DV_None ty =
     (case optional_inner (literal_base ty) of
        Some t \<Rightarrow> Some (DefaultValue_Literal Literal_None) | None \<Rightarrow> None)"
| "default_of (DV_Some d) ty =
     (case optional_inner (literal_base ty) of
        Some t \<Rightarrow> map_option (\<lambda>d. DefaultValue_Literal (Literal_Some d)) (default_of d t)
      | None \<Rightarrow> None)"
| "default_of DV_Default ty = Some DefaultValue_Default"

lemma builds_default [builds_intro]:
  "builds (default_calls d) (default_accepted d \<and> shorts (default_strings d)) (enc_default d)"
  by (induction d; (simp only: default_calls.simps, rule builds_eq,
        (rule builds_intro | assumption)+, auto))

lemma parses_parse_int:
  assumes "int_literal ty digits = Some l"
  shows "parses (parse_int_literal nm digits ty) pre [] l"
proof -
  have "parse_int_literal nm digits ty = rret l"
    using assms by (cases ty) (auto simp: int_literal_def parse_int_literal_def)
  then show ?thesis by (simp add: parses_rret)
qed

lemma parses_int_literal:
  assumes "int_literal (int_literal_type digits ty) digits = Some l" "text_ok digits"
  shows "parses (rbind read_string (\<lambda>d. parse_int_literal nm d (int_literal_type d ty))) pre
     (enc_str digits) l"
  using parses_rbind [OF parses_text [OF assms(2)], of "\<lambda>d. parse_int_literal nm d (int_literal_type d ty)"]
    parses_parse_int [OF assms(1)] by fastforce

lemma optional_inner_Some: "optional_inner ty = Some t \<longleftrightarrow> ty = Type_Optional t"
  by (cases ty rule: optional_inner.cases) auto

text \<open>The reader's \<open>read_default\<close> on a literal: two codes, then what the literal needs.\<close>

lemma parses_literal_default:
  assumes "parses (read_literal nm ty) (pre @ [DEFVALUE_LITERAL]) bs l"
  shows "parses (read_default nm ty) pre (DEFVALUE_LITERAL # bs) (DefaultValue_Literal l)"
  unfolding read_default.simps [of nm ty]
  by (rule parses_code) (use parses_map [OF assms, of DefaultValue_Literal] in simp)

lemma parses_default:
  "default_of d ty = Some v \<Longrightarrow> default_accepted d \<Longrightarrow> texts_ok (default_strings d) \<Longrightarrow>
   parses (read_default nm ty) pre (enc_default d) v"
proof (induction d arbitrary: ty v pre)
  case (DV_Str s)
  then have "parses (read_literal nm ty) pre' (LIT_STR # enc_str s) (Literal_String s)" for pre'
    unfolding read_literal.simps [of nm ty] Let_def
    by (intro parses_code) (simp add: parses_map parses_text split: if_splits)
  from parses_literal_default [OF this] DV_Str.prems show ?case by (simp split: if_splits)
next
  case (DV_Int digits suffix)
  then obtain l where l: "int_literal (int_literal_type digits (literal_base ty)) digits = Some l"
    "v = DefaultValue_Literal l" by auto
  have "parses (read_literal nm ty) pre' (LIT_INT # enc_str digits) l" for pre'
    unfolding read_literal.simps [of nm ty] Let_def
    by (intro parses_code) (use DV_Int.prems l in \<open>simp add: parses_int_literal\<close>)
  from parses_literal_default [OF this] l show ?case by simp
next
  case (DV_Float digits suffix)
  then have "parses (read_literal nm ty) pre' (LIT_FLOAT # enc_str digits)
      (Literal_Float digits (literal_base ty))" for pre'
    unfolding read_literal.simps [of nm ty] Let_def
    by (intro parses_code) (auto simp: parses_map [where f = "\<lambda>s. Literal_Float s (literal_base ty)"]
        parses_text split: if_splits)
  from parses_literal_default [OF this] DV_Float.prems show ?case by (simp split: if_splits)
next
  case (DV_Bool b)
  have "parses (read_literal nm ty) pre' (LIT_BOOL # enc_bool b) (Literal_Boolean b)" for pre'
    unfolding read_literal.simps [of nm ty] Let_def
    by (intro parses_code) (simp add: parses_map parses_bool)
  from parses_literal_default [OF this] DV_Bool.prems show ?case by simp
next
  case DV_OtherLiteral
  then show ?case by simp
next
  case DV_None
  then obtain t where "literal_base ty = Type_Optional t"
    by (auto simp: optional_inner_Some split: option.splits)
  then have "parses (read_literal nm ty) pre' (LIT_NONE # []) Literal_None" for pre'
    unfolding read_literal.simps [of nm ty] Let_def
    by (intro parses_code) (simp add: parses_rret)
  from parses_literal_default [OF this] DV_None.prems show ?case by (simp split: option.splits)
next
  case (DV_Some d)
  then obtain t w where t: "literal_base ty = Type_Optional t" "default_of d t = Some w"
    "v = DefaultValue_Literal (Literal_Some w)"
    by (auto simp: optional_inner_Some split: option.splits)
  have "parses (read_default nm t) pre' (enc_default d) w" for pre'
    by (rule DV_Some.IH) (use DV_Some.prems t in simp_all)
  then have "parses (read_literal nm ty) pre' (LIT_SOME # enc_default d) (Literal_Some w)" for pre'
    unfolding read_literal.simps [of nm ty] Let_def
    by (intro parses_code) (simp add: t parses_map)
  from parses_literal_default [OF this] t show ?case by simp
next
  case DV_EmptySeq
  have "parses (read_literal nm ty) pre' (LIT_EMPTY_SEQ # []) Literal_EmptySequence" for pre'
    unfolding read_literal.simps [of nm ty] Let_def
    by (intro parses_code) (simp add: parses_rret)
  from parses_literal_default [OF this] DV_EmptySeq.prems show ?case by simp
next
  case DV_Default
  have "parses (read_default nm ty) pre (DEFVALUE_DEFAULT # []) DefaultValue_Default"
    unfolding read_default.simps [of nm ty]
    by (rule parses_code) (simp add: parses_rret)
  with DV_Default show ?case by simp
qed

definition enc_optional_default :: "DefaultValue option \<Rightarrow> bytes" where
  "enc_optional_default d =
     (case d of Some d \<Rightarrow> enc_bool True @ enc_default d | None \<Rightarrow> enc_bool False)"

definition opt_default_strings :: "DefaultValue option \<Rightarrow> string list" where
  "opt_default_strings d = (case d of Some d \<Rightarrow> default_strings d | None \<Rightarrow> [])"

definition opt_default_accepted :: "DefaultValue option \<Rightarrow> bool" where
  "opt_default_accepted d = (case d of Some d \<Rightarrow> default_accepted d | None \<Rightarrow> True)"

definition opt_default_of :: "DefaultValue option \<Rightarrow> Type \<Rightarrow> DefaultValueMetadata option option" where
  "opt_default_of d ty = (case d of Some d \<Rightarrow> map_option Some (default_of d ty) | None \<Rightarrow> Some None)"

lemma builds_opt_default [builds_intro]:
  "builds (default_value_metadata_calls d)
     (opt_default_accepted d \<and> shorts (opt_default_strings d)) (enc_optional_default d)"
proof (cases d)
  case None
  with builds_concat_bool [of False] show ?thesis
    by (simp add: default_value_metadata_calls_def opt_default_accepted_def
        opt_default_strings_def enc_optional_default_def)
next
  case (Some v)
  have "builds (chain [concat_bool True, default_calls v])
     (True \<and> (default_accepted v \<and> shorts (default_strings v)) \<and> True)
     (enc_bool True @ enc_default v @ [])"
    by (intro builds_intro)
  with Some show ?thesis
    by (simp add: default_value_metadata_calls_def opt_default_accepted_def
        opt_default_strings_def enc_optional_default_def)
qed

lemma parses_opt_default:
  assumes "opt_default_of d ty = Some v" "opt_default_accepted d" "texts_ok (opt_default_strings d)"
  shows "parses (read_optional_default nm ty) pre (enc_optional_default d) v"
proof (cases d)
  case None
  have "parses (read_optional_default nm ty) pre (enc_bool False @ []) None"
    unfolding read_optional_default_def
    by (rule parses_rbind [OF parses_bool]) (simp add: parses_rret)
  with None assms show ?thesis by (simp add: enc_optional_default_def opt_default_of_def)
next
  case (Some d')
  with assms obtain w where w: "default_of d' ty = Some w" "v = Some w"
    by (auto simp: opt_default_of_def)
  have "parses (read_optional_default nm ty) pre (enc_bool True @ enc_default d') (Some w)"
    unfolding read_optional_default_def
    by (rule parses_rbind [OF parses_bool])
       (use assms Some w in \<open>simp add: parses_map parses_default opt_default_accepted_def
          opt_default_strings_def\<close>)
  with Some w show ?thesis by (simp add: enc_optional_default_def)
qed

section \<open>Functions (\<open>fnsig.rs\<close>)\<close>

record NamedArg =
  arg_name :: string
  arg_ty :: RustType
  arg_ref :: bool
  arg_default :: "DefaultValue option"

datatype FnKind =
    FnKind_Function
  | FnKind_Method string
  | FnKind_TraitMethod string u32
  | FnKind_Constructor string

record FnSignature =
  sig_kind :: FnKind
  sig_mod_path :: string
  sig_ident :: string
  sig_name :: string
  sig_name_from_attrs :: bool
  sig_is_async :: bool
  sig_args :: "NamedArg list"
  sig_return_ty :: RustType
  sig_docstring :: string

definition arg_metadata :: "NamedArg \<Rightarrow> MetadataBuffer \<Rightarrow> MetadataBuffer option" where
  "arg_metadata a =
     chain [concat_str (arg_name a), concat_const (type_id_meta (arg_ty a)),
            concat_bool (arg_ref a), default_value_metadata_calls (arg_default a)]"

text \<open>The calls that the four kinds have in common, from the original name on.\<close>

definition fn_tail_calls :: "FnSignature \<Rightarrow> (MetadataBuffer \<Rightarrow> MetadataBuffer option) list" where
  "fn_tail_calls s =
     [orig_name_metadata (sig_name_from_attrs s) (sig_ident s),
      concat_bool (sig_is_async s),
      concat_len (length (sig_args s)),
      chain (map arg_metadata (sig_args s)),
      concat_const (type_id_meta (sig_return_ty s)),
      concat_long_str (sig_docstring s)]"

definition fn_metadata_expr :: "FnSignature \<Rightarrow> MetadataBuffer option" where
  "fn_metadata_expr s =
     (case sig_kind s of
        FnKind_Function \<Rightarrow>
          build_meta FUNC ([concat_str (sig_mod_path s), concat_str (sig_name s)] @ fn_tail_calls s)
      | FnKind_Method object_name \<Rightarrow>
          build_meta METHOD
            ([concat_str (sig_mod_path s), concat_str object_name, concat_str (sig_name s)]
             @ fn_tail_calls s)
      | FnKind_TraitMethod object_name index \<Rightarrow>
          build_meta TRAIT_METHOD
            ([concat_str (sig_mod_path s), concat_str object_name, concat_u32 index,
              concat_str (sig_name s)] @ fn_tail_calls s)
      | FnKind_Constructor object_name \<Rightarrow>
          build_meta CONSTRUCTOR
            ([concat_str (sig_mod_path s), concat_str object_name, concat_str (sig_name s)]
             @ fn_tail_calls s))"

definition enc_arg :: "NamedArg \<Rightarrow> bytes" where
  "enc_arg a = enc_str (arg_name a) @ enc_type (arg_ty a) @ enc_bool (arg_ref a) @
     enc_optional_default (arg_default a)"

definition arg_strings :: "NamedArg \<Rightarrow> string list" where
  "arg_strings a = arg_name a # type_strings (arg_ty a) @ opt_default_strings (arg_default a)"

definition arg_fits :: "NamedArg \<Rightarrow> bool" where
  "arg_fits a \<longleftrightarrow> shorts (arg_strings a) \<and> opt_default_accepted (arg_default a)"

definition arg_meta :: "NamedArg \<Rightarrow> FnParamMetadata option" where
  "arg_meta a =
     Option.bind (type_of (arg_ty a)) (\<lambda>ty. map_option (\<lambda>d.
       \<lparr>param_name = arg_name a, param_ty = ty, param_by_ref = arg_ref a, param_optional = False,
        param_default = d\<rparr>) (opt_default_of (arg_default a) ty))"

lemma builds_arg [builds_intro]: "builds (arg_metadata a) (arg_fits a) (enc_arg a)"
  unfolding arg_metadata_def
  by (rule builds_eq, (rule builds_intro)+)
     (auto simp: arg_fits_def arg_strings_def enc_arg_def simp del: enc_type.simps)

lemma parses_arg:
  assumes "arg_meta a = Some p" "arg_fits a" "texts_ok (arg_strings a)"
  shows "parses read_input pre (enc_arg a) p"
proof -
  from assms obtain ty d where d: "type_of (arg_ty a) = Some ty"
    "opt_default_of (arg_default a) ty = Some d"
    and p: "p = \<lparr>param_name = arg_name a, param_ty = ty, param_by_ref = arg_ref a,
      param_optional = False, param_default = d\<rparr>"
    by (auto simp: arg_meta_def split: bind_splits)
  show ?thesis
    unfolding read_input_def enc_arg_def p
    by (intro parses_rbind [OF parses_text] parses_rbind [OF parses_type_ok]
        parses_rbind [OF parses_bool] parses_map_eq [OF parses_opt_default])
       (use assms d in \<open>simp_all add: arg_strings_def arg_fits_def\<close>)
qed

text \<open>The tail of a function item and what its readers make of it.\<close>

definition enc_fn_tail :: "FnSignature \<Rightarrow> bytes" where
  "enc_fn_tail s =
     enc_optional_str (orig_name_of (sig_name_from_attrs s) (sig_ident s)) @
     enc_bool (sig_is_async s) @ enc_list enc_arg (sig_args s) @
     enc_type (sig_return_ty s) @ enc_long_str (sig_docstring s)"

definition fn_tail_strings :: "FnSignature \<Rightarrow> string list" where
  "fn_tail_strings s =
     orig_strings (sig_name_from_attrs s) (sig_ident s) @
     concat (map arg_strings (sig_args s)) @ type_strings (sig_return_ty s)"

definition fn_tail_fits :: "FnSignature \<Rightarrow> bool" where
  "fn_tail_fits s \<longleftrightarrow>
     shorts (fn_tail_strings s) \<and> length (sig_args s) \<le> 255 \<and>
     (\<forall>a\<in>set (sig_args s). opt_default_accepted (arg_default a)) \<and> length (sig_docstring s) < 65536"

lemma shorts_concat: "shorts (concat (map f xs)) \<longleftrightarrow> (\<forall>x\<in>set xs. shorts (f x))"
  by (auto simp: shorts_def)

lemma texts_ok_concat: "texts_ok (concat (map f xs)) \<longleftrightarrow> (\<forall>x\<in>set xs. texts_ok (f x))"
  by (auto simp: texts_ok_def)

lemma texts_ok_shorts: "texts_ok ss \<Longrightarrow> shorts ss"
  by (auto simp: texts_ok_def shorts_def text_ok_def)

lemma builds_fn_tail: "builds (chain (fn_tail_calls s)) (fn_tail_fits s) (enc_fn_tail s)"
  unfolding fn_tail_calls_def
  by (rule builds_eq, (rule builds_intro)+)
     (auto simp: fn_tail_fits_def fn_tail_strings_def enc_fn_tail_def enc_list_def shorts_concat
        arg_fits_def simp del: enc_type.simps)

lemma builds_chain_append [builds_intro]:
  assumes "builds (chain fs) c bs" "builds (chain gs) d cs"
  shows "builds (chain (fs @ gs)) (c \<and> d) (bs @ cs)"
proof -
  have "chain (fs @ gs) m = Option.bind (chain fs m) (chain gs)" for m
  proof (induction fs arbitrary: m)
    case (Cons f fs)
    then show ?case by (cases "f m") (simp_all add: chain.simps)
  qed (simp add: chain.simps)
  moreover have "chain [] = Some" by (simp add: fun_eq_iff chain.simps)
  moreover have "chain (f # fs) = (\<lambda>m. Option.bind (f m) (chain fs))" for f fs
    by (simp add: fun_eq_iff chain.simps)
  ultimately have "chain (fs @ gs) m = chain [chain fs, chain gs] m" for m
    by simp
  then have "chain (fs @ gs) = chain [chain fs, chain gs]" by (rule ext)
  with builds_chain_Cons [OF assms(1) builds_chain_Cons [OF assms(2) builds_chain_Nil]]
  show ?thesis by simp
qed

text \<open>The values of the arguments and of the return type.\<close>

definition fn_tail_meta :: "FnSignature \<Rightarrow>
    (FnParamMetadata list \<times> Type option \<times> Type option) option" where
  "fn_tail_meta s =
     Option.bind (those (map arg_meta (sig_args s))) (\<lambda>ins.
       map_option (\<lambda>(ret, throws). (ins, ret, throws)) (return_type_of (sig_return_ty s)))"

lemma parses_fn_tail:
  assumes "fn_tail_meta s = Some (ins, ret, throws)" "fn_tail_fits s"
    "texts_ok (fn_tail_strings s)" "rust_string (sig_docstring s)"
    "parses (k (orig_name_of (sig_name_from_attrs s) (sig_ident s)) (sig_is_async s) ins ret throws
       (doc_of (sig_docstring s))) (pre @ enc_fn_tail s) cs b"
  shows "parses (rbind read_optional_string (\<lambda>orig. rbind read_bool (\<lambda>is_async.
       rbind read_inputs (\<lambda>inputs. rbind read_return_type (\<lambda>(ret, throws).
       rbind read_optional_long_string (\<lambda>doc. k orig is_async inputs ret throws doc))))))
     pre (enc_fn_tail s @ cs) b"
proof -
  from assms(1) have ins: "those (map arg_meta (sig_args s)) = Some ins"
    and ret: "return_type_of (sig_return_ty s) = Some (ret, throws)"
    by (auto simp: fn_tail_meta_def split: bind_splits)
  have args: "\<And>a. a \<in> set (sig_args s) \<Longrightarrow> arg_fits a \<and> texts_ok (arg_strings a)"
    using assms(2,3) by (simp add: fn_tail_fits_def fn_tail_strings_def shorts_concat texts_ok_concat
        arg_fits_def)
  have inputs: "parses read_inputs pre' (enc_list enc_arg (sig_args s)) ins" for pre'
    unfolding read_inputs_def
    by (rule parses_counted_those [OF ins]) (use assms(2) args in \<open>auto simp: fn_tail_fits_def parses_arg\<close>)
  have ret': "parses read_return_type pre' (enc_type (sig_return_ty s)) (ret, throws)" for pre'
    by (rule parses_return_type [OF ret])
       (use assms(3) in \<open>simp add: fn_tail_strings_def texts_ok_def\<close>)
  have doc: "parses read_optional_long_string pre' (enc_long_str (sig_docstring s))
      (doc_of (sig_docstring s))" for pre'
    by (rule parses_doc) (use assms(2,4) in \<open>simp add: doc_ok_def fn_tail_fits_def\<close>)
  have orig: "texts_ok (orig_strings (sig_name_from_attrs s) (sig_ident s))"
    using assms(3) by (simp add: fn_tail_strings_def)
  have last: "parses (k (orig_name_of (sig_name_from_attrs s) (sig_ident s)) (sig_is_async s) ins ret
       throws (doc_of (sig_docstring s)))
     ((((pre @ enc_optional_str (orig_name_of (sig_name_from_attrs s) (sig_ident s))) @
        enc_bool (sig_is_async s)) @ enc_list enc_arg (sig_args s)) @
        enc_type (sig_return_ty s) @ enc_long_str (sig_docstring s)) cs b"
    using assms(5) by (simp add: enc_fn_tail_def del: enc_type.simps)
  show ?thesis
    unfolding enc_fn_tail_def append.assoc
    by (rule parses_rbind [OF parses_orig_name [OF orig]], rule parses_rbind [OF parses_bool],
        rule parses_rbind [OF inputs], rule parses_rbind [OF ret'], unfold prod.case,
        rule parses_rbind [OF doc]) (use last in \<open>simp del: enc_type.simps\<close>)
qed

text \<open>The metadata of a signature, with \<open>ck\<close> for the checksum.  A constructor has to return its own
  object.\<close>

definition fn_item :: "u16 option \<Rightarrow> FnSignature \<Rightarrow> Metadata option" where
  "fn_item ck s =
     Option.bind (fn_tail_meta s) (\<lambda>(ins, ret, throws).
       let orig = orig_name_of (sig_name_from_attrs s) (sig_ident s);
           doc = doc_of (sig_docstring s)
       in case sig_kind s of
         FnKind_Function \<Rightarrow> Some (Metadata_Func
           \<lparr>fn_module_path = sig_mod_path s, fn_name = sig_name s, fn_orig_name = orig,
            fn_is_async = sig_is_async s, fn_inputs = ins, fn_return_type = ret,
            fn_throws = throws, fn_checksum = ck, fn_docstring = doc\<rparr>)
       | FnKind_Method object_name \<Rightarrow> Some (Metadata_Method
           \<lparr>meth_module_path = sig_mod_path s, meth_self_name = object_name,
            meth_name = sig_name s, meth_orig_name = orig, meth_is_async = sig_is_async s,
            meth_inputs = ins, meth_return_type = ret, meth_throws = throws,
            meth_takes_self_by_arc = False, meth_checksum = ck, meth_docstring = doc\<rparr>)
       | FnKind_TraitMethod object_name index \<Rightarrow> Some (Metadata_TraitMethod
           \<lparr>tmeth_module_path = sig_mod_path s, tmeth_trait_name = object_name,
            tmeth_index = index, tmeth_name = sig_name s, tmeth_orig_name = orig,
            tmeth_is_async = sig_is_async s, tmeth_inputs = ins, tmeth_return_type = ret,
            tmeth_throws = throws, tmeth_takes_self_by_arc = False, tmeth_checksum = ck,
            tmeth_docstring = doc\<rparr>)
       | FnKind_Constructor object_name \<Rightarrow>
           (if \<exists>mp. ret = Some (Type_Object mp object_name ObjectImpl_Struct)
            then Some (Metadata_Constructor
              \<lparr>ctor_module_path = sig_mod_path s, ctor_self_name = object_name,
               ctor_name = sig_name s, ctor_orig_name = orig, ctor_is_async = sig_is_async s,
               ctor_inputs = ins, ctor_throws = throws, ctor_checksum = ck,
               ctor_docstring = doc\<rparr>)
            else None))"

definition enc_fn :: "FnSignature \<Rightarrow> bytes" where
  "enc_fn s =
     (case sig_kind s of
        FnKind_Function \<Rightarrow> FUNC # enc_str (sig_mod_path s) @ enc_str (sig_name s) @ enc_fn_tail s
      | FnKind_Method object_name \<Rightarrow>
          METHOD # enc_str (sig_mod_path s) @ enc_str object_name @ enc_str (sig_name s) @
            enc_fn_tail s
      | FnKind_TraitMethod object_name index \<Rightarrow>
          TRAIT_METHOD # enc_str (sig_mod_path s) @ enc_str object_name @ enc_u32 index @
            enc_str (sig_name s) @ enc_fn_tail s
      | FnKind_Constructor object_name \<Rightarrow>
          CONSTRUCTOR # enc_str (sig_mod_path s) @ enc_str object_name @ enc_str (sig_name s) @
            enc_fn_tail s)"

definition fn_object_names :: "FnKind \<Rightarrow> string list" where
  "fn_object_names k =
     (case k of FnKind_Function \<Rightarrow> [] | FnKind_Method object_name \<Rightarrow> [object_name]
      | FnKind_TraitMethod object_name index \<Rightarrow> [object_name]
      | FnKind_Constructor object_name \<Rightarrow> [object_name])"

definition fn_strings :: "FnSignature \<Rightarrow> string list" where
  "fn_strings s = sig_mod_path s # sig_name s # fn_object_names (sig_kind s) @ fn_tail_strings s"

definition fn_fits :: "FnSignature \<Rightarrow> bool" where
  "fn_fits s \<longleftrightarrow> shorts (fn_strings s) \<and> fn_tail_fits s"

lemma const_ok_fn: "const_ok (fn_metadata_expr s) (fn_fits s) (enc_fn s)"
proof (cases "sig_kind s")
qed (simp only: fn_metadata_expr_def FnKind.case, rule const_ok_eq,
     (rule builds_intro builds_fn_tail)+,
     auto simp: fn_fits_def fn_strings_def fn_object_names_def enc_fn_def fn_tail_fits_def)+

text \<open>Reading the four kinds.  The checksum covers what precedes the item, too: the code \<open>METHOD\<close>
  also occurs inside the items of the traits below.\<close>

lemma fn_fitsD: "texts_ok (fn_strings s) \<Longrightarrow> fn_tail_fits s \<Longrightarrow>
   text_ok (sig_mod_path s) \<and> text_ok (sig_name s) \<and> texts_ok (fn_tail_strings s)"
  by (simp add: fn_strings_def)

lemma parses_func:
  assumes "sig_kind s = FnKind_Function" "fn_item (Some (checksum_metadata (pre @ enc_fn s))) s = Some item"
    "fn_tail_fits s" "texts_ok (fn_strings s)" "rust_string (sig_docstring s)"
  shows "parses (rbind read_func (\<lambda>m. rret (Metadata_Func m))) (pre @ [FUNC]) (tl (enc_fn s)) item"
proof -
  from assms obtain ins ret throws where t: "fn_tail_meta s = Some (ins, ret, throws)"
    by (auto simp: fn_item_def split: bind_splits)
  have "parses read_func (pre @ [FUNC])
      (enc_str (sig_mod_path s) @ enc_str (sig_name s) @ enc_fn_tail s @ [])
      \<lparr>fn_module_path = sig_mod_path s, fn_name = sig_name s,
       fn_orig_name = orig_name_of (sig_name_from_attrs s) (sig_ident s),
       fn_is_async = sig_is_async s, fn_inputs = ins, fn_return_type = ret, fn_throws = throws,
       fn_checksum = Some (checksum_metadata (pre @ enc_fn s)),
       fn_docstring = doc_of (sig_docstring s)\<rparr>"
    unfolding read_func_def
    by (intro parses_rbind [OF parses_text] parses_fn_tail [OF t] parses_map_eq [OF parses_checksum])
       (use assms in \<open>simp_all add: fn_strings_def enc_fn_def\<close>)
  then show ?thesis
    using assms t by (auto simp: fn_item_def enc_fn_def Let_def intro: parses_map_eq)
qed

lemma parses_method:
  assumes "sig_kind s = FnKind_Method object_name"
    "fn_item (Some (checksum_metadata (pre @ enc_fn s))) s = Some (Metadata_Method m)"
    "fn_tail_fits s" "texts_ok (fn_strings s)" "rust_string (sig_docstring s)"
  shows "parses read_method (pre @ [METHOD]) (tl (enc_fn s)) m"
proof -
  from assms obtain ins ret throws where t: "fn_tail_meta s = Some (ins, ret, throws)"
    by (auto simp: fn_item_def split: bind_splits)
  have "parses read_method (pre @ [METHOD])
      (enc_str (sig_mod_path s) @ enc_str object_name @ enc_str (sig_name s) @ enc_fn_tail s @ [])
      \<lparr>meth_module_path = sig_mod_path s, meth_self_name = object_name,
       meth_name = sig_name s, meth_orig_name = orig_name_of (sig_name_from_attrs s) (sig_ident s),
       meth_is_async = sig_is_async s, meth_inputs = ins, meth_return_type = ret,
       meth_throws = throws, meth_takes_self_by_arc = False,
       meth_checksum = Some (checksum_metadata (pre @ enc_fn s)),
       meth_docstring = doc_of (sig_docstring s)\<rparr>"
    unfolding read_method_def
    by (intro parses_rbind [OF parses_text] parses_fn_tail [OF t] parses_map_eq [OF parses_checksum])
       (use assms in \<open>simp_all add: fn_strings_def fn_object_names_def enc_fn_def\<close>)
  then show ?thesis
    using assms t by (auto simp: fn_item_def enc_fn_def Let_def)
qed

lemma parses_trait_method:
  assumes "sig_kind s = FnKind_TraitMethod object_name index"
    "fn_item (Some (checksum_metadata (pre @ enc_fn s))) s = Some item"
    "fn_tail_fits s" "texts_ok (fn_strings s)" "rust_string (sig_docstring s)"
  shows "parses (rbind read_trait_method (\<lambda>m. rret (Metadata_TraitMethod m)))
     (pre @ [TRAIT_METHOD]) (tl (enc_fn s)) item"
proof -
  from assms obtain ins ret throws where t: "fn_tail_meta s = Some (ins, ret, throws)"
    by (auto simp: fn_item_def split: bind_splits)
  have "parses read_trait_method (pre @ [TRAIT_METHOD])
      (enc_str (sig_mod_path s) @ enc_str object_name @ enc_u32 index @ enc_str (sig_name s) @
       enc_fn_tail s @ [])
      \<lparr>tmeth_module_path = sig_mod_path s, tmeth_trait_name = object_name, tmeth_index = index,
       tmeth_name = sig_name s, tmeth_orig_name = orig_name_of (sig_name_from_attrs s) (sig_ident s),
       tmeth_is_async = sig_is_async s, tmeth_inputs = ins, tmeth_return_type = ret,
       tmeth_throws = throws, tmeth_takes_self_by_arc = False,
       tmeth_checksum = Some (checksum_metadata (pre @ enc_fn s)),
       tmeth_docstring = doc_of (sig_docstring s)\<rparr>"
    unfolding read_trait_method_def
    by (intro parses_rbind [OF parses_text] parses_rbind [OF parses_u32] parses_fn_tail [OF t]
          parses_map_eq [OF parses_checksum])
       (use assms in \<open>simp_all add: fn_strings_def fn_object_names_def enc_fn_def\<close>)
  then show ?thesis
    using assms t by (auto simp: fn_item_def enc_fn_def Let_def intro: parses_map_eq)
qed

lemma parses_constructor:
  assumes "sig_kind s = FnKind_Constructor object_name"
    "fn_item (Some (checksum_metadata (pre @ enc_fn s))) s = Some item"
    "fn_tail_fits s" "texts_ok (fn_strings s)" "rust_string (sig_docstring s)"
  shows "parses (rbind read_constructor (\<lambda>m. rret (Metadata_Constructor m)))
     (pre @ [CONSTRUCTOR]) (tl (enc_fn s)) item"
proof -
  from assms obtain ins mp throws where t:
    "fn_tail_meta s = Some (ins, Some (Type_Object mp object_name ObjectImpl_Struct), throws)"
    by (auto simp: fn_item_def Let_def split: bind_splits if_splits)
  have check: "parses (check_constructor_return object_name
      (Some (Type_Object mp object_name ObjectImpl_Struct))) pre' [] ()" for pre'
    by (simp add: check_constructor_return_def parses_rret)
  have "parses read_constructor (pre @ [CONSTRUCTOR])
      (enc_str (sig_mod_path s) @ enc_str object_name @ enc_str (sig_name s) @ enc_fn_tail s @ [] @ [])
      \<lparr>ctor_module_path = sig_mod_path s, ctor_self_name = object_name,
       ctor_name = sig_name s, ctor_orig_name = orig_name_of (sig_name_from_attrs s) (sig_ident s),
       ctor_is_async = sig_is_async s, ctor_inputs = ins, ctor_throws = throws,
       ctor_checksum = Some (checksum_metadata (pre @ enc_fn s)),
       ctor_docstring = doc_of (sig_docstring s)\<rparr>"
    unfolding read_constructor_def
    by (intro parses_rbind [OF parses_text] parses_fn_tail [OF t] parses_rbind [OF check]
          parses_map_eq [OF parses_checksum])
       (use assms in \<open>simp_all add: fn_strings_def fn_object_names_def enc_fn_def\<close>)
  then show ?thesis
    using assms t by (auto simp: fn_item_def enc_fn_def Let_def intro: parses_map_eq)
qed

lemma enc_fn_Cons: "enc_fn s = hd (enc_fn s) # tl (enc_fn s)"
  by (simp add: enc_fn_def split: FnKind.splits)

lemma parses_fn_item:
  assumes "fn_item (Some (checksum_metadata (enc_fn s))) s = Some item"
    "fn_tail_fits s" "texts_ok (fn_strings s)" "rust_string (sig_docstring s)"
  shows "parses read_item [] (enc_fn s) item"
proof (cases "sig_kind s")
  case FnKind_Function
  from parses_func [OF this, of "[]"] assms
  have "parses (rbind read_func (\<lambda>m. rret (Metadata_Func m))) ([] @ [FUNC]) (tl (enc_fn s)) item"
    by simp
  with FnKind_Function show ?thesis
    unfolding read_item_def by (subst enc_fn_Cons, intro parses_code) (simp add: enc_fn_def)
next
  case (FnKind_TraitMethod object_name index)
  from parses_trait_method [OF this, of "[]"] assms
  have "parses (rbind read_trait_method (\<lambda>m. rret (Metadata_TraitMethod m))) ([] @ [TRAIT_METHOD])
      (tl (enc_fn s)) item"
    by simp
  with FnKind_TraitMethod show ?thesis
    unfolding read_item_def by (subst enc_fn_Cons, intro parses_code) (simp add: enc_fn_def)
next
  case (FnKind_Constructor object_name)
  from parses_constructor [OF this, of "[]"] assms
  have "parses (rbind read_constructor (\<lambda>m. rret (Metadata_Constructor m))) ([] @ [CONSTRUCTOR])
      (tl (enc_fn s)) item"
    by simp
  with FnKind_Constructor show ?thesis
    unfolding read_item_def by (subst enc_fn_Cons, intro parses_code) (simp add: enc_fn_def)
next
  case (FnKind_Method object_name)
  with assms obtain m where m: "item = Metadata_Method m"
    by (auto simp: fn_item_def Let_def split: bind_splits)
  with parses_method [OF FnKind_Method, of "[]"] assms
  have "parses read_method ([] @ [METHOD]) (tl (enc_fn s)) m" by simp
  from parses_map [OF this, of Metadata_Method] FnKind_Method m show ?thesis
    unfolding read_item_def by (subst enc_fn_Cons, intro parses_code) (simp add: enc_fn_def)
qed

lemma read_metadata_parses:
  "parses read_item [] bs item \<Longrightarrow> read_metadata (bs @ rest) = Inr item"
  using parsesD [of read_item "[]" bs item rest] by (simp add: read_metadata_def reader_new_def)

end
