(* ===== verification/MacroData.thy ===== *)
theory MacroData
  imports MacroItems
begin

text \<open>
  The metadata of the items that carry data: records (\<open>record.rs\<close>), enums and errors (\<open>enum_.rs\<close>,
  \<open>error.rs\<close>), with the proofs that the reader recovers them.  Layout and conventions as in
  \<open>MacroItems\<close>.
\<close>

section \<open>Fields\<close>

text \<open>A field as \<open>syn\<close> gives it: no identifier in a tuple variant.\<close>

record MacroField =
  mf_ident :: "string option"
  mf_attr_name :: "string option"
  mf_ty :: RustType
  mf_default :: "DefaultValue option"
  mf_docstring :: string

definition field_foreign_name :: "MacroField \<Rightarrow> string" where
  "field_foreign_name f =
     (case mf_attr_name f of Some nm \<Rightarrow> nm
      | None \<Rightarrow> (case mf_ident f of Some ident \<Rightarrow> ident | None \<Rightarrow> []))"

definition field_orig :: "MacroField \<Rightarrow> MetadataBuffer \<Rightarrow> MetadataBuffer option" where
  "field_orig f =
     (case mf_ident f of
        Some ident \<Rightarrow> orig_name_metadata (mf_attr_name f \<noteq> None) ident
      | None \<Rightarrow> concat_bool False)"

definition variant_field_calls :: "MacroField \<Rightarrow> MetadataBuffer \<Rightarrow> MetadataBuffer option" where
  "variant_field_calls f =
     chain [concat_str (field_foreign_name f), field_orig f,
            concat_const (type_id_meta (mf_ty f)),
            default_value_metadata_calls (mf_default f), concat_long_str (mf_docstring f)]"

text \<open>In a record the identifier is unwrapped, whether or not an attribute gives the name.\<close>

definition record_field_calls :: "MacroField \<Rightarrow> MetadataBuffer \<Rightarrow> MetadataBuffer option" where
  "record_field_calls f =
     (if mf_ident f = None then syn_error
      else chain [concat_str (field_foreign_name f), field_orig f,
                  concat_const (type_id_meta (mf_ty f)),
                  default_value_metadata_calls (mf_default f), concat_long_str (mf_docstring f)])"

definition field_orig_of :: "MacroField \<Rightarrow> string option" where
  "field_orig_of f =
     (case mf_ident f of Some ident \<Rightarrow> orig_name_of (mf_attr_name f \<noteq> None) ident | None \<Rightarrow> None)"

definition field_orig_strings :: "MacroField \<Rightarrow> string list" where
  "field_orig_strings f =
     (case mf_ident f of Some ident \<Rightarrow> orig_strings (mf_attr_name f \<noteq> None) ident | None \<Rightarrow> [])"

definition enc_field :: "MacroField \<Rightarrow> bytes" where
  "enc_field f =
     enc_str (field_foreign_name f) @ enc_optional_str (field_orig_of f) @ enc_type (mf_ty f) @
     enc_optional_default (mf_default f) @ enc_long_str (mf_docstring f)"

definition field_strings :: "MacroField \<Rightarrow> string list" where
  "field_strings f =
     field_foreign_name f # field_orig_strings f @ type_strings (mf_ty f) @
     opt_default_strings (mf_default f)"

definition field_fits :: "MacroField \<Rightarrow> bool" where
  "field_fits f \<longleftrightarrow>
     shorts (field_strings f) \<and> opt_default_accepted (mf_default f) \<and> length (mf_docstring f) < 65536"

definition field_meta :: "MacroField \<Rightarrow> FieldMetadata option" where
  "field_meta f =
     Option.bind (type_of (mf_ty f)) (\<lambda>ty. map_option (\<lambda>d.
       \<lparr>field_name = field_foreign_name f, field_orig_name = field_orig_of f, field_ty = ty,
        field_default = d, field_docstring = doc_of (mf_docstring f)\<rparr>)
       (opt_default_of (mf_default f) ty))"

definition field_texts_ok :: "MacroField \<Rightarrow> bool" where
  "field_texts_ok f \<longleftrightarrow> texts_ok (field_strings f) \<and> rust_string (mf_docstring f)"

lemma builds_field_orig [builds_intro]:
  "builds (field_orig f) (shorts (field_orig_strings f)) (enc_optional_str (field_orig_of f))"
proof (cases "mf_ident f")
  case None
  then show ?thesis using builds_concat_bool [of False]
    by (simp add: field_orig_def field_orig_strings_def field_orig_of_def enc_optional_str_def)
next
  case (Some i)
  then show ?thesis using builds_orig_name [of "mf_attr_name f \<noteq> None" i]
    by (simp only: field_orig_def field_orig_strings_def field_orig_of_def option.case)
qed

lemma builds_variant_field [builds_intro]: "builds (variant_field_calls f) (field_fits f) (enc_field f)"
  unfolding variant_field_calls_def
  by (rule builds_eq, (rule builds_intro)+)
     (auto simp: field_fits_def field_strings_def enc_field_def simp del: enc_type.simps)

lemma builds_record_field [builds_intro]:
  "builds (record_field_calls f) (mf_ident f \<noteq> None \<and> field_fits f) (enc_field f)"
proof (cases "mf_ident f")
  case (Some i)
  then have "record_field_calls f = variant_field_calls f"
    by (simp add: record_field_calls_def variant_field_calls_def)
  with builds_variant_field [of f] Some show ?thesis by simp
qed (simp add: record_field_calls_def builds_syn_error)

lemma parses_field_orig:
  "texts_ok (field_orig_strings f) \<Longrightarrow>
   parses read_optional_string pre (enc_optional_str (field_orig_of f)) (field_orig_of f)"
  by (rule parses_optional_string)
     (auto simp: field_orig_strings_def field_orig_of_def orig_strings_def orig_name_of_def text_ok_def
       split: if_splits option.splits)

lemma parses_field:
  assumes "field_meta f = Some m" "field_fits f" "field_texts_ok f"
  shows "parses read_field pre (enc_field f) m"
proof -
  from assms obtain ty d where d: "type_of (mf_ty f) = Some ty"
    "opt_default_of (mf_default f) ty = Some d"
    and m: "m = \<lparr>field_name = field_foreign_name f, field_orig_name = field_orig_of f,
      field_ty = ty, field_default = d, field_docstring = doc_of (mf_docstring f)\<rparr>"
    by (auto simp: field_meta_def split: bind_splits)
  show ?thesis
    unfolding read_field_def enc_field_def m
    by (intro parses_rbind [OF parses_text] parses_rbind [OF parses_field_orig]
        parses_rbind [OF parses_type_ok] parses_rbind [OF parses_opt_default]
        parses_map_eq [OF parses_doc])
       (use assms d in \<open>simp_all add: field_strings_def field_fits_def field_texts_ok_def doc_ok_def\<close>)
qed

definition fields_meta :: "MacroField list \<Rightarrow> FieldMetadata list option" where
  "fields_meta fs = those (map field_meta fs)"

lemma parses_fields:
  assumes "fields_meta fs = Some ms" "length fs \<le> 255"
    "\<forall>f\<in>set fs. field_fits f \<and> field_texts_ok f"
  shows "parses read_fields pre (enc_list enc_field fs) ms"
  unfolding read_fields_def
  by (rule parses_counted_those [OF assms(1) [unfolded fields_meta_def] assms(2)])
     (use assms(3) in \<open>auto intro: parses_field\<close>)

section \<open>Records (\<open>record.rs\<close>)\<close>

record RecordItem =
  ri_mod_path :: string
  ri_ident :: string
  ri_attr_name :: "string option"
  ri_fields :: "MacroField list"
  ri_docstring :: string

definition foreign_name :: "string option \<Rightarrow> string \<Rightarrow> string" where
  "foreign_name attr ident = (case attr of Some nm \<Rightarrow> nm | None \<Rightarrow> ident)"

definition record_metadata_expr :: "RecordItem \<Rightarrow> MetadataBuffer option" where
  "record_metadata_expr r =
     build_meta RECORD
       [concat_str (ri_mod_path r), concat_str (foreign_name (ri_attr_name r) (ri_ident r)),
        orig_name_metadata (ri_attr_name r \<noteq> None) (ri_ident r),
        concat_len (length (ri_fields r)),
        chain (map record_field_calls (ri_fields r)),
        concat_long_str (ri_docstring r)]"

definition enc_record :: "RecordItem \<Rightarrow> bytes" where
  "enc_record r =
     RECORD # enc_str (ri_mod_path r) @ enc_str (foreign_name (ri_attr_name r) (ri_ident r)) @
     enc_optional_str (orig_name_of (ri_attr_name r \<noteq> None) (ri_ident r)) @
     enc_list enc_field (ri_fields r) @ enc_long_str (ri_docstring r)"

definition record_strings :: "RecordItem \<Rightarrow> string list" where
  "record_strings r =
     ri_mod_path r # foreign_name (ri_attr_name r) (ri_ident r) #
     orig_strings (ri_attr_name r \<noteq> None) (ri_ident r)"

definition record_fits :: "RecordItem \<Rightarrow> bool" where
  "record_fits r \<longleftrightarrow>
     shorts (record_strings r) \<and> length (ri_fields r) \<le> 255 \<and>
     (\<forall>f\<in>set (ri_fields r). mf_ident f \<noteq> None \<and> field_fits f) \<and> length (ri_docstring r) < 65536"

definition record_texts_ok :: "RecordItem \<Rightarrow> bool" where
  "record_texts_ok r \<longleftrightarrow>
     texts_ok (record_strings r) \<and> rust_string (ri_docstring r) \<and>
     (\<forall>f\<in>set (ri_fields r). field_texts_ok f)"

definition record_item :: "RecordItem \<Rightarrow> Metadata option" where
  "record_item r =
     map_option (\<lambda>fs. Metadata_Record
       \<lparr>rec_module_path = ri_mod_path r, rec_name = foreign_name (ri_attr_name r) (ri_ident r),
        rec_orig_name = orig_name_of (ri_attr_name r \<noteq> None) (ri_ident r), rec_remote = False,
        rec_fields = fs, rec_docstring = doc_of (ri_docstring r)\<rparr>)
       (fields_meta (ri_fields r))"

lemma const_ok_record: "const_ok (record_metadata_expr r) (record_fits r) (enc_record r)"
  unfolding record_metadata_expr_def
  by (rule const_ok_eq, (rule builds_intro)+)
     (auto simp: record_fits_def record_strings_def enc_record_def enc_list_def)

lemma parses_record:
  assumes "record_item r = Some item" "record_fits r" "record_texts_ok r"
  shows "parses read_item [] (enc_record r) item"
proof -
  from assms obtain fs where fs: "fields_meta (ri_fields r) = Some fs" by (auto simp: record_item_def)
  have "parses read_record ([] @ [RECORD]) (tl (enc_record r))
      \<lparr>rec_module_path = ri_mod_path r, rec_name = foreign_name (ri_attr_name r) (ri_ident r),
        rec_orig_name = orig_name_of (ri_attr_name r \<noteq> None) (ri_ident r), rec_remote = False,
        rec_fields = fs, rec_docstring = doc_of (ri_docstring r)\<rparr>"
    unfolding read_record_def enc_record_def list.sel
    by (intro parses_rbind [OF parses_text] parses_rbind [OF parses_orig_name]
        parses_rbind [OF parses_fields [OF fs]] parses_map_eq [OF parses_doc])
       (use assms in \<open>simp_all add: record_strings_def record_fits_def record_texts_ok_def doc_ok_def\<close>)
  from parses_map [OF this, of Metadata_Record] fs assms show ?thesis
    unfolding read_item_def enc_record_def
    by (intro parses_code) (auto simp: record_item_def)
qed

section \<open>Enums and errors (\<open>enum_.rs\<close>, \<open>error.rs\<close>)\<close>

text \<open>The discriminant expression of a variant; anything but an integer literal, negated or not, is a
  compile error.\<close>

datatype DiscrExpr = Discr_Lit string | Discr_Neg string | Discr_Other

record MacroVariant =
  mv_ident :: string
  mv_attr_name :: "string option"
  mv_discr :: "DiscrExpr option"
  mv_fields :: "MacroField list"
  mv_docstring :: string

record EnumItem =
  ei_mod_path :: string
  ei_ident :: string
  ei_attr_name :: "string option"
  ei_discr_type :: "RustType option"
  ei_variants :: "MacroVariant list"
  ei_non_exhaustive :: bool
  ei_flat_error :: bool
  ei_docstring :: string

definition variant_value :: "MacroVariant \<Rightarrow> MetadataBuffer \<Rightarrow> MetadataBuffer option" where
  "variant_value v =
     (case mv_discr v of
        None \<Rightarrow> concat_bool False
      | Some (Discr_Lit digits) \<Rightarrow> chain [concat_bool True, concat_value LIT_INT, concat_str digits]
      | Some (Discr_Neg digits) \<Rightarrow>
          chain [concat_bool True, concat_value LIT_INT, concat_str (CHR ''-'' # digits)]
      | Some Discr_Other \<Rightarrow> syn_error)"

definition variant_calls :: "MacroVariant \<Rightarrow> MetadataBuffer \<Rightarrow> MetadataBuffer option" where
  "variant_calls v =
     chain [concat_str (foreign_name (mv_attr_name v) (mv_ident v)),
            orig_name_metadata (mv_attr_name v \<noteq> None) (mv_ident v),
            variant_value v,
            concat_len (length (mv_fields v)),
            chain (map variant_field_calls (mv_fields v)),
            concat_long_str (mv_docstring v)]"

definition variant_metadata :: "EnumItem \<Rightarrow> MetadataBuffer \<Rightarrow> MetadataBuffer option" where
  "variant_metadata e =
     chain [concat_len (length (ei_variants e)), chain (map variant_calls (ei_variants e))]"

definition flat_variant_calls :: "MacroVariant \<Rightarrow> MetadataBuffer \<Rightarrow> MetadataBuffer option" where
  "flat_variant_calls v =
     chain [concat_str (foreign_name (mv_attr_name v) (mv_ident v)),
            orig_name_metadata (mv_attr_name v \<noteq> None) (mv_ident v),
            concat_long_str (mv_docstring v)]"

definition flat_error_variant_metadata :: "EnumItem \<Rightarrow> MetadataBuffer \<Rightarrow> MetadataBuffer option" where
  "flat_error_variant_metadata e =
     chain [concat_len (length (ei_variants e)), chain (map flat_variant_calls (ei_variants e))]"

definition discr_type_calls :: "RustType option \<Rightarrow> MetadataBuffer \<Rightarrow> MetadataBuffer option" where
  "discr_type_calls d =
     (case d of
        None \<Rightarrow> concat_bool False
      | Some t \<Rightarrow> chain [concat_bool True, concat_const (type_id_meta t)])"

definition enum_metadata_expr :: "EnumItem \<Rightarrow> MetadataBuffer option" where
  "enum_metadata_expr e =
     build_meta ENUM
       [concat_str (ei_mod_path e), concat_str (foreign_name (ei_attr_name e) (ei_ident e)),
        orig_name_metadata (ei_attr_name e \<noteq> None) (ei_ident e),
        concat_value (shape_as_u8 EnumShape_Enum),
        discr_type_calls (ei_discr_type e),
        variant_metadata e,
        concat_bool (ei_non_exhaustive e),
        concat_long_str (ei_docstring e)]"

definition error_metadata_expr :: "EnumItem \<Rightarrow> MetadataBuffer option" where
  "error_metadata_expr e =
     build_meta ENUM
       [concat_str (ei_mod_path e), concat_str (foreign_name (ei_attr_name e) (ei_ident e)),
        orig_name_metadata (ei_attr_name e \<noteq> None) (ei_ident e),
        concat_value (shape_as_u8 (EnumShape_Error (ei_flat_error e))),
        concat_bool False,
        (if ei_flat_error e then flat_error_variant_metadata e else variant_metadata e),
        concat_bool (ei_non_exhaustive e),
        concat_long_str (ei_docstring e)]"

text \<open>Discriminants are read as \<open>UInt64\<close>, negative ones as \<open>Int64\<close>.\<close>

fun discr_digits :: "DiscrExpr \<Rightarrow> string option" where
  "discr_digits (Discr_Lit digits) = Some digits"
| "discr_digits (Discr_Neg digits) = Some (CHR ''-'' # digits)"
| "discr_digits Discr_Other = None"

definition enc_discr :: "DiscrExpr option \<Rightarrow> bytes" where
  "enc_discr d =
     (case d of None \<Rightarrow> enc_bool False
      | Some d \<Rightarrow> enc_bool True @ LIT_INT # enc_str (case discr_digits d of Some s \<Rightarrow> s | None \<Rightarrow> []))"

definition discr_strings :: "DiscrExpr option \<Rightarrow> string list" where
  "discr_strings d =
     (case d of None \<Rightarrow> [] | Some d \<Rightarrow> (case discr_digits d of Some s \<Rightarrow> [s] | None \<Rightarrow> []))"

definition discr_of :: "DiscrExpr option \<Rightarrow> LiteralMetadata option option" where
  "discr_of d =
     (case d of
        None \<Rightarrow> Some None
      | Some d \<Rightarrow> (case discr_digits d of
          Some s \<Rightarrow> map_option Some (int_literal (int_literal_type s Type_UInt64) s)
        | None \<Rightarrow> None))"

lemma builds_variant_value [builds_intro]:
  "builds (variant_value v) (mv_discr v \<noteq> Some Discr_Other \<and> shorts (discr_strings (mv_discr v)))
     (enc_discr (mv_discr v))"
proof -
  have lit: "builds (chain [concat_bool True, concat_value LIT_INT, concat_str s]) (length s < 256)
      (enc_bool True @ LIT_INT # enc_str s)" for s
    by (rule builds_eq, (rule builds_intro)+) auto
  show ?thesis
  proof (cases "mv_discr v")
    case None
    then show ?thesis using builds_concat_bool [of False]
      by (simp add: variant_value_def enc_discr_def discr_strings_def)
  next
    case (Some d)
    then show ?thesis
      using lit builds_syn_error lit [of "CHR ''-'' # digits" for digits]
      by (cases d) (simp_all add: variant_value_def enc_discr_def discr_strings_def del: LIT_INT_def)
  qed
qed

lemma parses_discr:
  assumes "discr_of d = Some v" "texts_ok (discr_strings d)"
  shows "parses (read_optional_literal nm Type_UInt64) pre (enc_discr d) v"
proof (cases d)
  case None
  have "parses (read_optional_literal nm Type_UInt64) pre (enc_bool False @ []) None"
    unfolding read_optional_literal_def
    by (rule parses_rbind [OF parses_bool]) (simp add: parses_rret)
  with None assms show ?thesis by (simp add: enc_discr_def discr_of_def)
next
  case (Some e)
  with assms obtain s l where s: "discr_digits e = Some s" "text_ok s"
    "int_literal (int_literal_type s Type_UInt64) s = Some l" "v = Some l"
    by (auto simp: discr_of_def discr_strings_def split: option.splits)
  have lit: "parses (read_literal nm Type_UInt64) pre' (LIT_INT # enc_str s) l" for pre'
    unfolding read_literal.simps [of nm Type_UInt64] Let_def
    by (intro parses_code) (use s in \<open>simp add: parses_int_literal\<close>)
  have "parses (read_optional_literal nm Type_UInt64) pre (enc_bool True @ LIT_INT # enc_str s) (Some l)"
    unfolding read_optional_literal_def
    by (rule parses_rbind [OF parses_bool]) (use parses_map [OF lit, of Some] in simp)
  with Some s show ?thesis by (simp add: enc_discr_def)
qed

definition enc_variant :: "MacroVariant \<Rightarrow> bytes" where
  "enc_variant v =
     enc_str (foreign_name (mv_attr_name v) (mv_ident v)) @
     enc_optional_str (orig_name_of (mv_attr_name v \<noteq> None) (mv_ident v)) @
     enc_discr (mv_discr v) @ enc_list enc_field (mv_fields v) @ enc_long_str (mv_docstring v)"

definition enc_flat_variant :: "MacroVariant \<Rightarrow> bytes" where
  "enc_flat_variant v =
     enc_str (foreign_name (mv_attr_name v) (mv_ident v)) @
     enc_optional_str (orig_name_of (mv_attr_name v \<noteq> None) (mv_ident v)) @
     enc_long_str (mv_docstring v)"

definition variant_names :: "MacroVariant \<Rightarrow> string list" where
  "variant_names v =
     foreign_name (mv_attr_name v) (mv_ident v) # orig_strings (mv_attr_name v \<noteq> None) (mv_ident v)"

definition flat_variant_fits :: "MacroVariant \<Rightarrow> bool" where
  "flat_variant_fits v \<longleftrightarrow> shorts (variant_names v) \<and> length (mv_docstring v) < 65536"

definition variant_fits :: "MacroVariant \<Rightarrow> bool" where
  "variant_fits v \<longleftrightarrow>
     flat_variant_fits v \<and> mv_discr v \<noteq> Some Discr_Other \<and> shorts (discr_strings (mv_discr v)) \<and>
     length (mv_fields v) \<le> 255 \<and> (\<forall>f\<in>set (mv_fields v). field_fits f)"

definition flat_variant_texts_ok :: "MacroVariant \<Rightarrow> bool" where
  "flat_variant_texts_ok v \<longleftrightarrow> texts_ok (variant_names v) \<and> rust_string (mv_docstring v)"

definition variant_texts_ok :: "MacroVariant \<Rightarrow> bool" where
  "variant_texts_ok v \<longleftrightarrow>
     flat_variant_texts_ok v \<and> texts_ok (discr_strings (mv_discr v)) \<and>
     (\<forall>f\<in>set (mv_fields v). field_texts_ok f)"

definition variant_meta :: "MacroVariant \<Rightarrow> VariantMetadata option" where
  "variant_meta v =
     Option.bind (discr_of (mv_discr v)) (\<lambda>d. map_option (\<lambda>fs.
       \<lparr>var_name = foreign_name (mv_attr_name v) (mv_ident v),
        var_orig_name = orig_name_of (mv_attr_name v \<noteq> None) (mv_ident v),
        var_discr = d, var_fields = fs, var_docstring = doc_of (mv_docstring v)\<rparr>)
       (fields_meta (mv_fields v)))"

definition flat_variant_meta :: "MacroVariant \<Rightarrow> VariantMetadata option" where
  "flat_variant_meta v = Some
     \<lparr>var_name = foreign_name (mv_attr_name v) (mv_ident v),
      var_orig_name = orig_name_of (mv_attr_name v \<noteq> None) (mv_ident v),
      var_discr = None, var_fields = [], var_docstring = doc_of (mv_docstring v)\<rparr>"

lemma builds_variant [builds_intro]: "builds (variant_calls v) (variant_fits v) (enc_variant v)"
  unfolding variant_calls_def
  by (rule builds_eq, (rule builds_intro)+)
     (auto simp: variant_fits_def flat_variant_fits_def variant_names_def enc_variant_def enc_list_def)

lemma builds_flat_variant [builds_intro]:
  "builds (flat_variant_calls v) (flat_variant_fits v) (enc_flat_variant v)"
  unfolding flat_variant_calls_def
  by (rule builds_eq, (rule builds_intro)+)
     (auto simp: flat_variant_fits_def variant_names_def enc_flat_variant_def)

lemma parses_variant:
  assumes "variant_meta v = Some m" "variant_fits v" "variant_texts_ok v"
  shows "parses read_variant pre (enc_variant v) m"
proof -
  from assms obtain d fs where d: "discr_of (mv_discr v) = Some d" "fields_meta (mv_fields v) = Some fs"
    and m: "m = \<lparr>var_name = foreign_name (mv_attr_name v) (mv_ident v),
      var_orig_name = orig_name_of (mv_attr_name v \<noteq> None) (mv_ident v),
      var_discr = d, var_fields = fs, var_docstring = doc_of (mv_docstring v)\<rparr>"
    by (auto simp: variant_meta_def split: bind_splits)
  show ?thesis
    unfolding read_variant_def enc_variant_def m
    by (intro parses_rbind [OF parses_text] parses_rbind [OF parses_orig_name]
        parses_rbind [OF parses_discr [OF d(1)]] parses_rbind [OF parses_fields [OF d(2)]]
        parses_map_eq [OF parses_doc])
       (use assms in \<open>simp_all add: variant_texts_ok_def flat_variant_texts_ok_def variant_names_def
          variant_fits_def flat_variant_fits_def doc_ok_def\<close>)
qed

lemma parses_flat_variant:
  assumes "flat_variant_meta v = Some m" "flat_variant_fits v" "flat_variant_texts_ok v"
  shows "parses read_flat_variant pre (enc_flat_variant v) m"
proof -
  from assms have m: "m = \<lparr>var_name = foreign_name (mv_attr_name v) (mv_ident v),
      var_orig_name = orig_name_of (mv_attr_name v \<noteq> None) (mv_ident v),
      var_discr = None, var_fields = [], var_docstring = doc_of (mv_docstring v)\<rparr>"
    by (simp add: flat_variant_meta_def)
  show ?thesis
    unfolding read_flat_variant_def enc_flat_variant_def m
    by (intro parses_rbind [OF parses_text] parses_rbind [OF parses_orig_name]
        parses_map_eq [OF parses_doc])
       (use assms in \<open>simp_all add: flat_variant_texts_ok_def variant_names_def
          flat_variant_fits_def doc_ok_def\<close>)
qed

text \<open>\<open>enum_metadata_expr\<close> and \<open>error_metadata_expr\<close> differ in the shape and in what they make of
  the variants.\<close>

definition enc_discr_type :: "RustType option \<Rightarrow> bytes" where
  "enc_discr_type d =
     (case d of None \<Rightarrow> enc_bool False | Some t \<Rightarrow> enc_bool True @ enc_type t)"

definition discr_type_strings :: "RustType option \<Rightarrow> string list" where
  "discr_type_strings d = (case d of None \<Rightarrow> [] | Some t \<Rightarrow> type_strings t)"

definition enc_enum :: "EnumShape \<Rightarrow> RustType option \<Rightarrow> EnumItem \<Rightarrow> bytes" where
  "enc_enum sh discr e =
     ENUM # enc_str (ei_mod_path e) @ enc_str (foreign_name (ei_attr_name e) (ei_ident e)) @
     enc_optional_str (orig_name_of (ei_attr_name e \<noteq> None) (ei_ident e)) @
     [shape_as_u8 sh] @ enc_discr_type discr @
     (if sh = EnumShape_Error True then enc_list enc_flat_variant (ei_variants e)
      else enc_list enc_variant (ei_variants e)) @
     enc_bool (ei_non_exhaustive e) @ enc_long_str (ei_docstring e)"

definition enum_strings :: "RustType option \<Rightarrow> EnumItem \<Rightarrow> string list" where
  "enum_strings discr e =
     ei_mod_path e # foreign_name (ei_attr_name e) (ei_ident e) #
     orig_strings (ei_attr_name e \<noteq> None) (ei_ident e) @ discr_type_strings discr"

definition enum_fits :: "EnumShape \<Rightarrow> RustType option \<Rightarrow> EnumItem \<Rightarrow> bool" where
  "enum_fits sh discr e \<longleftrightarrow>
     shorts (enum_strings discr e) \<and> length (ei_variants e) \<le> 255 \<and>
     (\<forall>v\<in>set (ei_variants e).
        if sh = EnumShape_Error True then flat_variant_fits v else variant_fits v) \<and>
     length (ei_docstring e) < 65536"

definition enum_texts_ok :: "EnumShape \<Rightarrow> RustType option \<Rightarrow> EnumItem \<Rightarrow> bool" where
  "enum_texts_ok sh discr e \<longleftrightarrow>
     texts_ok (enum_strings discr e) \<and> rust_string (ei_docstring e) \<and>
     (\<forall>v\<in>set (ei_variants e).
        if sh = EnumShape_Error True then flat_variant_texts_ok v else variant_texts_ok v)"

definition opt_discr_type :: "RustType option \<Rightarrow> Type option option" where
  "opt_discr_type d = (case d of None \<Rightarrow> Some None | Some t \<Rightarrow> map_option Some (type_of t))"

definition enum_item :: "EnumShape \<Rightarrow> RustType option \<Rightarrow> EnumItem \<Rightarrow> Metadata option" where
  "enum_item sh discr e =
     Option.bind (opt_discr_type discr) (\<lambda>d. map_option (\<lambda>vs. Metadata_Enum
       \<lparr>enum_module_path = ei_mod_path e, enum_name = foreign_name (ei_attr_name e) (ei_ident e),
        enum_orig_name = orig_name_of (ei_attr_name e \<noteq> None) (ei_ident e), enum_shape = sh,
        enum_remote = False, enum_variants = vs, enum_discr_type = d,
        enum_non_exhaustive = ei_non_exhaustive e, enum_docstring = doc_of (ei_docstring e)\<rparr>)
       (those (map (if sh = EnumShape_Error True then flat_variant_meta else variant_meta)
          (ei_variants e))))"

lemma builds_discr_type [builds_intro]:
  "builds (discr_type_calls d) (shorts (discr_type_strings d)) (enc_discr_type d)"
proof (cases d)
  case None
  then show ?thesis using builds_concat_bool [of False]
    by (simp add: discr_type_calls_def discr_type_strings_def enc_discr_type_def)
next
  case (Some t)
  have "builds (chain [concat_bool True, concat_const (type_id_meta t)]) (shorts (type_strings t))
      (enc_bool True @ enc_type t)"
    by (rule builds_eq, (rule builds_intro)+) auto
  with Some show ?thesis
    by (simp add: discr_type_calls_def discr_type_strings_def enc_discr_type_def)
qed

lemma builds_variant_metadata [builds_intro]:
  "builds (variant_metadata e) (length (ei_variants e) \<le> 255 \<and> (\<forall>v\<in>set (ei_variants e). variant_fits v))
     (enc_list enc_variant (ei_variants e))"
  unfolding variant_metadata_def by (rule builds_counted [OF builds_variant])

lemma builds_flat_variant_metadata [builds_intro]:
  "builds (flat_error_variant_metadata e)
     (length (ei_variants e) \<le> 255 \<and> (\<forall>v\<in>set (ei_variants e). flat_variant_fits v))
     (enc_list enc_flat_variant (ei_variants e))"
  unfolding flat_error_variant_metadata_def by (rule builds_counted [OF builds_flat_variant])

lemma const_ok_enum:
  "const_ok (enum_metadata_expr e) (enum_fits EnumShape_Enum (ei_discr_type e) e)
     (enc_enum EnumShape_Enum (ei_discr_type e) e)"
  unfolding enum_metadata_expr_def
  by (rule const_ok_eq, (rule builds_intro)+)
     (auto simp: enum_fits_def enum_strings_def enc_enum_def)

lemma const_ok_error:
  "const_ok (error_metadata_expr e) (enum_fits (EnumShape_Error (ei_flat_error e)) None e)
     (enc_enum (EnumShape_Error (ei_flat_error e)) None e)"
proof (cases "ei_flat_error e")
  case True
  then have f: "ei_flat_error e = True" by simp
  show ?thesis
    unfolding error_metadata_expr_def f if_True
    by (rule const_ok_eq, (rule builds_intro)+)
       (auto simp: enum_fits_def enum_strings_def enc_enum_def enc_discr_type_def
         discr_type_strings_def)
next
  case False
  then have f: "ei_flat_error e = False" by simp
  show ?thesis
    unfolding error_metadata_expr_def f if_False
    by (rule const_ok_eq, (rule builds_intro)+)
       (auto simp: enum_fits_def enum_strings_def enc_enum_def enc_discr_type_def
         discr_type_strings_def)
qed

lemma parses_shape: "parses read_shape pre [shape_as_u8 sh] sh"
  unfolding read_shape_def by (rule parses_code) (simp add: shape_from_as_u8 parses_rret)

lemma parses_discr_type:
  assumes "opt_discr_type d = Some t" "texts_ok (discr_type_strings d)"
  shows "parses (rbind read_bool (\<lambda>b. if b then rbind read_type (\<lambda>t. rret (Some t)) else rret None))
     pre (enc_discr_type d) t"
proof (cases d)
  case None
  have "parses (rbind read_bool (\<lambda>b. if b then rbind read_type (\<lambda>t. rret (Some t)) else rret None))
     pre (enc_bool False @ []) None"
    by (rule parses_rbind [OF parses_bool]) (simp add: parses_rret)
  with None assms show ?thesis by (simp add: enc_discr_type_def opt_discr_type_def)
next
  case (Some rt)
  with assms obtain u where u: "type_of rt = Some u" "t = Some u" by (auto simp: opt_discr_type_def)
  have "parses (rbind read_bool (\<lambda>b. if b then rbind read_type (\<lambda>t. rret (Some t)) else rret None))
     pre (enc_bool True @ enc_type rt) (Some u)"
    by (rule parses_rbind [OF parses_bool])
       (use parses_map [OF parses_type_ok [OF u(1)], where f = Some] assms Some in
         \<open>simp add: discr_type_strings_def del: enc_type.simps\<close>)
  with Some u show ?thesis by (simp add: enc_discr_type_def del: enc_type.simps)
qed

lemma parses_variants:
  assumes "those (map (if sh = EnumShape_Error True then flat_variant_meta else variant_meta)
      (ei_variants e)) = Some vs" "enum_fits sh discr e" "enum_texts_ok sh discr e"
  shows "parses (case sh of EnumShape_Enum \<Rightarrow> read_variants
       | EnumShape_Error flat \<Rightarrow> if flat then read_flat_variants else read_variants) pre
     (if sh = EnumShape_Error True then enc_list enc_flat_variant (ei_variants e)
      else enc_list enc_variant (ei_variants e)) vs"
proof (cases "sh = EnumShape_Error True")
  case True
  have "parses read_flat_variants pre (enc_list enc_flat_variant (ei_variants e)) vs"
    unfolding read_flat_variants_def
    by (rule parses_counted_those [of flat_variant_meta])
       (use assms True in \<open>auto simp: enum_fits_def enum_texts_ok_def intro: parses_flat_variant\<close>)
  with True show ?thesis by simp
next
  case False
  have "parses read_variants pre (enc_list enc_variant (ei_variants e)) vs"
    unfolding read_variants_def
    by (rule parses_counted_those [of variant_meta])
       (use assms False in \<open>auto simp: enum_fits_def enum_texts_ok_def intro: parses_variant\<close>)
  with False show ?thesis by (auto split: EnumShape.splits)
qed

lemma enc_enum_Cons: "enc_enum sh discr e = ENUM # tl (enc_enum sh discr e)"
  by (simp add: enc_enum_def)

lemma parses_enum:
  assumes "enum_item sh discr e = Some item" "enum_fits sh discr e" "enum_texts_ok sh discr e"
  shows "parses read_item [] (enc_enum sh discr e) item"
proof -
  from assms(1) obtain d vs where d: "opt_discr_type discr = Some d"
    and vs: "those (map (if sh = EnumShape_Error True then flat_variant_meta else variant_meta)
      (ei_variants e)) = Some vs"
    and item: "item = Metadata_Enum
       \<lparr>enum_module_path = ei_mod_path e, enum_name = foreign_name (ei_attr_name e) (ei_ident e),
        enum_orig_name = orig_name_of (ei_attr_name e \<noteq> None) (ei_ident e), enum_shape = sh,
        enum_remote = False, enum_variants = vs, enum_discr_type = d,
        enum_non_exhaustive = ei_non_exhaustive e, enum_docstring = doc_of (ei_docstring e)\<rparr>"
    by (auto simp: enum_item_def split: bind_splits)
  have "parses read_enum ([] @ [ENUM]) (tl (enc_enum sh discr e))
       \<lparr>enum_module_path = ei_mod_path e, enum_name = foreign_name (ei_attr_name e) (ei_ident e),
        enum_orig_name = orig_name_of (ei_attr_name e \<noteq> None) (ei_ident e), enum_shape = sh,
        enum_remote = False, enum_variants = vs, enum_discr_type = d,
        enum_non_exhaustive = ei_non_exhaustive e, enum_docstring = doc_of (ei_docstring e)\<rparr>"
    unfolding read_enum_def enc_enum_def list.sel
    by (intro parses_rbind [OF parses_text] parses_rbind [OF parses_orig_name]
        parses_rbind [OF parses_shape] parses_rbind [OF parses_discr_type [OF d]]
        parses_rbind [OF parses_variants [OF vs assms(2,3)]] parses_rbind [OF parses_bool]
        parses_map_eq [OF parses_doc])
       (use assms(2,3) in \<open>simp_all add: enum_strings_def enum_fits_def enum_texts_ok_def doc_ok_def\<close>)
  from parses_map [OF this, of Metadata_Enum] item show ?thesis
    unfolding read_item_def by (subst enc_enum_Cons, intro parses_code) simp
qed

end
