(* ===== verification/MacroMeta.thy ===== *)
theory MacroMeta
  imports MacroData
begin

text \<open>
  The remaining items (objects, callback interfaces, custom types, trait implementations, the
  builtin traits, the namespace and the UDL file) and the round trip of all of them: \<open>macro_expr\<close> is
  the constant that a macro emits, \<open>read_metadata\<close> of its contents is \<open>macro_meta\<close>.
\<close>

section \<open>Objects (\<open>object.rs\<close>, \<open>trait_interface.rs\<close>)\<close>

record InterfaceItem =
  ii_mod_path :: string
  ii_ident :: string
  ii_attr_name :: "string option"
  ii_imp :: ObjectImpl
  ii_docstring :: string

definition interface_metadata_expr :: "InterfaceItem \<Rightarrow> MetadataBuffer option" where
  "interface_metadata_expr i =
     (let common = [concat_str (ii_mod_path i), concat_str (foreign_name (ii_attr_name i) (ii_ident i)),
                    orig_name_metadata (ii_attr_name i \<noteq> None) (ii_ident i),
                    concat_long_str (ii_docstring i)]
      in case ii_imp i of
           ObjectImpl_Struct \<Rightarrow> build_meta INTERFACE common
         | ObjectImpl_Trait k \<Rightarrow> build_meta TRAIT_INTERFACE (common @ [concat_value (trait_kind_code k)]))"

definition enc_interface_common :: "InterfaceItem \<Rightarrow> bytes" where
  "enc_interface_common i =
     enc_str (ii_mod_path i) @ enc_str (foreign_name (ii_attr_name i) (ii_ident i)) @
     enc_optional_str (orig_name_of (ii_attr_name i \<noteq> None) (ii_ident i)) @
     enc_long_str (ii_docstring i)"

definition enc_interface :: "InterfaceItem \<Rightarrow> bytes" where
  "enc_interface i =
     (case ii_imp i of
        ObjectImpl_Struct \<Rightarrow> INTERFACE # enc_interface_common i
      | ObjectImpl_Trait k \<Rightarrow> TRAIT_INTERFACE # enc_interface_common i @ [trait_kind_code k])"

definition interface_strings :: "InterfaceItem \<Rightarrow> string list" where
  "interface_strings i =
     ii_mod_path i # foreign_name (ii_attr_name i) (ii_ident i) #
     orig_strings (ii_attr_name i \<noteq> None) (ii_ident i)"

definition interface_object :: "InterfaceItem \<Rightarrow> ObjectImpl \<Rightarrow> ObjectMetadata" where
  "interface_object i imp =
     \<lparr>obj_module_path = ii_mod_path i, obj_name = foreign_name (ii_attr_name i) (ii_ident i),
      obj_orig_name = orig_name_of (ii_attr_name i \<noteq> None) (ii_ident i), obj_remote = False,
      obj_imp = imp, obj_docstring = doc_of (ii_docstring i)\<rparr>"

lemma const_ok_interface:
  "const_ok (interface_metadata_expr i)
     (shorts (interface_strings i) \<and> length (ii_docstring i) < 65536) (enc_interface i)"
proof (cases "ii_imp i")
qed (simp only: interface_metadata_expr_def Let_def ObjectImpl.case, rule const_ok_eq,
     (rule builds_intro)+, auto simp: interface_strings_def enc_interface_def enc_interface_common_def)+

lemma parses_interface:
  assumes "texts_ok (interface_strings i)" "doc_ok (ii_docstring i)"
  shows "parses read_item [] (enc_interface i) (Metadata_Object (interface_object i (ii_imp i)))"
proof -
  have obj: "parses (read_object ObjectImpl_Struct) pre (enc_interface_common i)
      (interface_object i ObjectImpl_Struct)" for pre
    unfolding read_object_def enc_interface_common_def interface_object_def
    by (intro parses_rbind [OF parses_text] parses_rbind [OF parses_orig_name]
        parses_map_eq [OF parses_doc])
       (use assms in \<open>simp_all add: interface_strings_def\<close>)
  show ?thesis
  proof (cases "ii_imp i")
    case ObjectImpl_Struct
    with parses_map [OF obj [of "[] @ [INTERFACE]"], where f = Metadata_Object] show ?thesis
      unfolding read_item_def enc_interface_def by (simp, intro parses_code) simp
  next
    case (ObjectImpl_Trait k)
    have "parses (rbind (read_object ObjectImpl_Struct) (\<lambda>m. rbind read_trait_kind (\<lambda>kind.
         rret (Metadata_Object (m\<lparr>obj_imp := ObjectImpl_Trait kind\<rparr>))))) pre
        (enc_interface_common i @ [trait_kind_code k])
        (Metadata_Object (interface_object i (ObjectImpl_Trait k)))" for pre
      by (rule parses_rbind [OF obj], rule parses_map_eq [OF parses_trait_kind])
         (simp add: interface_object_def)
    with ObjectImpl_Trait show ?thesis
      unfolding read_item_def enc_interface_def by (simp, intro parses_code) simp
  qed
qed

section \<open>Callback interfaces and custom types\<close>

record CallbackItem =
  ci_mod_path :: string
  ci_trait_name :: string
  ci_docstring :: string

definition callback_metadata_expr :: "CallbackItem \<Rightarrow> MetadataBuffer option" where
  "callback_metadata_expr c =
     build_meta CALLBACK_INTERFACE
       [concat_str (ci_mod_path c), concat_str (ci_trait_name c), concat_long_str (ci_docstring c)]"

definition enc_callback :: "CallbackItem \<Rightarrow> bytes" where
  "enc_callback c = CALLBACK_INTERFACE # enc_str (ci_mod_path c) @ enc_str (ci_trait_name c) @
     enc_long_str (ci_docstring c)"

lemma const_ok_callback:
  "const_ok (callback_metadata_expr c)
     (shorts [ci_mod_path c, ci_trait_name c] \<and> length (ci_docstring c) < 65536) (enc_callback c)"
  unfolding callback_metadata_expr_def
  by (rule const_ok_eq, (rule builds_intro)+) (auto simp: enc_callback_def)

lemma parses_callback:
  assumes "texts_ok [ci_mod_path c, ci_trait_name c]" "doc_ok (ci_docstring c)"
  shows "parses read_item [] (enc_callback c) (Metadata_CallbackInterface
     \<lparr>cb_module_path = ci_mod_path c, cb_name = ci_trait_name c,
      cb_docstring = doc_of (ci_docstring c)\<rparr>)"
proof -
  have "parses read_callback_interface ([] @ [CALLBACK_INTERFACE])
     (enc_str (ci_mod_path c) @ enc_str (ci_trait_name c) @ enc_long_str (ci_docstring c))
     \<lparr>cb_module_path = ci_mod_path c, cb_name = ci_trait_name c,
      cb_docstring = doc_of (ci_docstring c)\<rparr>"
    unfolding read_callback_interface_def
    by (intro parses_rbind [OF parses_text] parses_map_eq [OF parses_doc]) (use assms in simp_all)
  from parses_map [OF this, of Metadata_CallbackInterface] show ?thesis
    unfolding read_item_def enc_callback_def by (intro parses_code) simp
qed

record CustomItem =
  cu_mod_path :: string
  cu_name :: string
  cu_builtin :: RustType
  cu_docstring :: string

definition custom_type_metadata_expr :: "CustomItem \<Rightarrow> MetadataBuffer option" where
  "custom_type_metadata_expr c =
     build_meta CUSTOM_TYPE
       [concat_str (cu_mod_path c), concat_str (cu_name c), concat_const (type_id_meta (cu_builtin c)),
        concat_long_str (cu_docstring c)]"

definition enc_custom :: "CustomItem \<Rightarrow> bytes" where
  "enc_custom c = CUSTOM_TYPE # enc_str (cu_mod_path c) @ enc_str (cu_name c) @
     enc_type (cu_builtin c) @ enc_long_str (cu_docstring c)"

definition custom_strings :: "CustomItem \<Rightarrow> string list" where
  "custom_strings c = cu_mod_path c # cu_name c # type_strings (cu_builtin c)"

lemma const_ok_custom:
  "const_ok (custom_type_metadata_expr c)
     (shorts (custom_strings c) \<and> length (cu_docstring c) < 65536) (enc_custom c)"
  unfolding custom_type_metadata_expr_def
  by (rule const_ok_eq, (rule builds_intro)+)
     (auto simp: enc_custom_def custom_strings_def simp del: enc_type.simps)

lemma parses_custom:
  assumes "type_of (cu_builtin c) = Some t" "texts_ok (custom_strings c)" "doc_ok (cu_docstring c)"
  shows "parses read_item [] (enc_custom c) (Metadata_CustomType
     \<lparr>custom_module_path = cu_mod_path c, custom_name = cu_name c, custom_orig_name = None,
      custom_builtin = t, custom_docstring = doc_of (cu_docstring c)\<rparr>)"
proof -
  have "parses read_custom_type ([] @ [CUSTOM_TYPE])
     (enc_str (cu_mod_path c) @ enc_str (cu_name c) @ enc_type (cu_builtin c) @
      enc_long_str (cu_docstring c))
     \<lparr>custom_module_path = cu_mod_path c, custom_name = cu_name c, custom_orig_name = None,
      custom_builtin = t, custom_docstring = doc_of (cu_docstring c)\<rparr>"
    unfolding read_custom_type_def
    by (intro parses_rbind [OF parses_text] parses_rbind [OF parses_type_ok [OF assms(1)]]
        parses_map_eq [OF parses_doc]) (use assms in \<open>simp_all add: custom_strings_def\<close>)
  from parses_map [OF this, of Metadata_CustomType] show ?thesis
    unfolding read_item_def enc_custom_def by (intro parses_code) simp
qed

section \<open>Trait implementations and builtin traits\<close>

text \<open>\<open>object_trait_impl\<close> of \<open>export.rs\<close>; the trait is a type that has a \<open>TYPE_ID_META\<close>.\<close>

record TraitImplItem =
  ti_mod_path :: string
  ti_object_name :: string
  ti_trait :: RustType

definition object_trait_impl_expr :: "TraitImplItem \<Rightarrow> MetadataBuffer option" where
  "object_trait_impl_expr t =
     build_meta OBJECT_TRAIT_IMPL
       [concat_const (from_code TYPE_INTERFACE), concat_str (ti_mod_path t),
        concat_str (ti_object_name t), concat_const (type_id_meta (ti_trait t))]"

definition enc_trait_impl :: "TraitImplItem \<Rightarrow> bytes" where
  "enc_trait_impl t = OBJECT_TRAIT_IMPL #
     enc_type (RT_Interface (ti_mod_path t) (ti_object_name t)) @ enc_type (ti_trait t)"

definition trait_impl_strings :: "TraitImplItem \<Rightarrow> string list" where
  "trait_impl_strings t = ti_mod_path t # ti_object_name t # type_strings (ti_trait t)"

lemma const_ok_from_code [builds_intro]: "const_ok (from_code v) True [v]"
  unfolding const_ok_def from_code_def using builds_concat_value by blast

lemma const_ok_trait_impl:
  "const_ok (object_trait_impl_expr t) (shorts (trait_impl_strings t)) (enc_trait_impl t)"
  unfolding object_trait_impl_expr_def
  by (rule const_ok_eq, (rule builds_intro)+) (auto simp: enc_trait_impl_def trait_impl_strings_def)

lemma parses_trait_impl:
  assumes "type_of (ti_trait t) = Some tr" "texts_ok (trait_impl_strings t)"
  shows "parses read_item [] (enc_trait_impl t) (Metadata_ObjectTraitImpl
     \<lparr>oti_ty = Type_Object (ti_mod_path t) (ti_object_name t) ObjectImpl_Struct, oti_trait_ty = tr\<rparr>)"
proof -
  have "parses read_object_trait_impl ([] @ [OBJECT_TRAIT_IMPL])
     (enc_type (RT_Interface (ti_mod_path t) (ti_object_name t)) @ enc_type (ti_trait t))
     \<lparr>oti_ty = Type_Object (ti_mod_path t) (ti_object_name t) ObjectImpl_Struct, oti_trait_ty = tr\<rparr>"
    unfolding read_object_trait_impl_def
    by (intro parses_rbind [OF parses_type_ok] parses_map_eq [OF parses_type_ok [OF assms(1)]])
       (use assms in \<open>simp_all add: trait_impl_strings_def\<close>)
  from parses_map [OF this, of Metadata_ObjectTraitImpl] show ?thesis
    unfolding read_item_def enc_trait_impl_def by (intro parses_code) simp
qed

text \<open>The items of \<open>utrait.rs\<close>: a discriminant and the metadata of one method, or two for \<open>Eq\<close>.\<close>

datatype UniffiTraitItem =
    UTrait_Debug FnSignature
  | UTrait_Display FnSignature
  | UTrait_Eq FnSignature FnSignature
  | UTrait_Hash FnSignature
  | UTrait_Ord FnSignature

fun utrait_metadata_expr :: "UniffiTraitItem \<Rightarrow> MetadataBuffer option" where
  "utrait_metadata_expr (UTrait_Debug fmt) =
     build_meta UNIFFI_TRAIT
       [concat_value (discriminant_repr Discriminant_Debug), concat_const (fn_metadata_expr fmt)]"
| "utrait_metadata_expr (UTrait_Display fmt) =
     build_meta UNIFFI_TRAIT
       [concat_value (discriminant_repr Discriminant_Display), concat_const (fn_metadata_expr fmt)]"
| "utrait_metadata_expr (UTrait_Eq eq ne) =
     build_meta UNIFFI_TRAIT
       [concat_value (discriminant_repr Discriminant_Eq), concat_const (fn_metadata_expr eq),
        concat_const (fn_metadata_expr ne)]"
| "utrait_metadata_expr (UTrait_Hash hash) =
     build_meta UNIFFI_TRAIT
       [concat_value (discriminant_repr Discriminant_Hash), concat_const (fn_metadata_expr hash)]"
| "utrait_metadata_expr (UTrait_Ord cmp) =
     build_meta UNIFFI_TRAIT
       [concat_value (discriminant_repr Discriminant_Ord), concat_const (fn_metadata_expr cmp)]"

fun utrait_discriminant :: "UniffiTraitItem \<Rightarrow> UniffiTraitDiscriminants" where
  "utrait_discriminant (UTrait_Debug fmt) = Discriminant_Debug"
| "utrait_discriminant (UTrait_Display fmt) = Discriminant_Display"
| "utrait_discriminant (UTrait_Eq eq ne) = Discriminant_Eq"
| "utrait_discriminant (UTrait_Hash hash) = Discriminant_Hash"
| "utrait_discriminant (UTrait_Ord cmp) = Discriminant_Ord"

fun utrait_methods :: "UniffiTraitItem \<Rightarrow> FnSignature list" where
  "utrait_methods (UTrait_Debug fmt) = [fmt]"
| "utrait_methods (UTrait_Display fmt) = [fmt]"
| "utrait_methods (UTrait_Eq eq ne) = [eq, ne]"
| "utrait_methods (UTrait_Hash hash) = [hash]"
| "utrait_methods (UTrait_Ord cmp) = [cmp]"

definition enc_utrait :: "UniffiTraitItem \<Rightarrow> bytes" where
  "enc_utrait t = UNIFFI_TRAIT # discriminant_repr (utrait_discriminant t) #
     concat (map enc_fn (utrait_methods t))"

text \<open>The method metadata inside a trait item, whose checksum covers the item up to the method's end.\<close>

definition method_at :: "bytes \<Rightarrow> FnSignature \<Rightarrow> MethodMetadata option" where
  "method_at pre s =
     (case fn_item (Some (checksum_metadata (pre @ enc_fn s))) s of
        Some (Metadata_Method m) \<Rightarrow> Some m | _ \<Rightarrow> None)"

fun utrait_meta :: "UniffiTraitItem \<Rightarrow> UniffiTraitMetadata option" where
  "utrait_meta (UTrait_Debug fmt) =
     map_option UniffiTrait_Debug (method_at [UNIFFI_TRAIT, discriminant_repr Discriminant_Debug] fmt)"
| "utrait_meta (UTrait_Display fmt) =
     map_option UniffiTrait_Display (method_at [UNIFFI_TRAIT, discriminant_repr Discriminant_Display] fmt)"
| "utrait_meta (UTrait_Eq eq ne) =
     Option.bind (method_at [UNIFFI_TRAIT, discriminant_repr Discriminant_Eq] eq) (\<lambda>e.
       map_option (UniffiTrait_Eq e)
         (method_at ([UNIFFI_TRAIT, discriminant_repr Discriminant_Eq] @ enc_fn eq) ne))"
| "utrait_meta (UTrait_Hash hash) =
     map_option UniffiTrait_Hash (method_at [UNIFFI_TRAIT, discriminant_repr Discriminant_Hash] hash)"
| "utrait_meta (UTrait_Ord cmp) =
     map_option UniffiTrait_Ord (method_at [UNIFFI_TRAIT, discriminant_repr Discriminant_Ord] cmp)"

lemma const_ok_utrait:
  "const_ok (utrait_metadata_expr t) (\<forall>s\<in>set (utrait_methods t). fn_fits s) (enc_utrait t)"
  by (cases t; (simp only: utrait_metadata_expr.simps, rule const_ok_eq,
        (rule builds_intro const_ok_fn)+, auto simp: enc_utrait_def))

definition fn_texts_ok :: "FnSignature \<Rightarrow> bool" where
  "fn_texts_ok s \<longleftrightarrow> texts_ok (fn_strings s) \<and> rust_string (sig_docstring s)"

lemma method_at_Some:
  assumes "method_at pre s = Some m"
  shows "(\<exists>object_name. sig_kind s = FnKind_Method object_name) \<and>
    fn_item (Some (checksum_metadata (pre @ enc_fn s))) s = Some (Metadata_Method m)"
  using assms by (auto simp: method_at_def fn_item_def Let_def split: option.splits Metadata.splits
      bind_splits FnKind.splits if_splits)

lemma parses_metadata_method:
  assumes "method_at pre s = Some m" "fn_fits s" "fn_texts_ok s"
  shows "parses read_metadata_method pre (enc_fn s) m"
proof -
  from method_at_Some [OF assms(1)] obtain object_name where k: "sig_kind s = FnKind_Method object_name"
    and m: "fn_item (Some (checksum_metadata (pre @ enc_fn s))) s = Some (Metadata_Method m)" by auto
  from parses_method [OF k m] assms(2,3)
  have "parses read_method (pre @ [METHOD]) (tl (enc_fn s)) m"
    by (simp add: fn_fits_def fn_texts_ok_def)
  with k show ?thesis
    unfolding read_metadata_method_def by (subst enc_fn_Cons, intro parses_code) (simp add: enc_fn_def)
qed

lemma parses_utrait:
  assumes "utrait_meta t = Some m" "\<forall>s\<in>set (utrait_methods t). fn_fits s \<and> fn_texts_ok s"
  shows "parses read_item [] (enc_utrait t) (Metadata_UniffiTrait m)"
proof -
  have "parses read_uniffi_trait ([] @ [UNIFFI_TRAIT]) (discriminant_repr (utrait_discriminant t) #
     concat (map enc_fn (utrait_methods t))) m"
    unfolding read_uniffi_trait_def
  proof (rule parses_code, unfold discriminant_from_repr option.case)
    show "parses (case utrait_discriminant t of
       Discriminant_Debug \<Rightarrow> rbind read_metadata_method (\<lambda>fmt. rret (UniffiTrait_Debug fmt))
     | Discriminant_Display \<Rightarrow> rbind read_metadata_method (\<lambda>fmt. rret (UniffiTrait_Display fmt))
     | Discriminant_Eq \<Rightarrow>
         rbind read_metadata_method (\<lambda>eq. rbind read_metadata_method (\<lambda>ne.
           rret (UniffiTrait_Eq eq ne)))
     | Discriminant_Hash \<Rightarrow> rbind read_metadata_method (\<lambda>hash. rret (UniffiTrait_Hash hash))
     | Discriminant_Ord \<Rightarrow> rbind read_metadata_method (\<lambda>cmp. rret (UniffiTrait_Ord cmp)))
      (([] @ [UNIFFI_TRAIT]) @ [discriminant_repr (utrait_discriminant t)])
      (concat (map enc_fn (utrait_methods t))) m"
    proof (cases t)
      case (UTrait_Eq eq ne)
      with assms obtain e n where
        e: "method_at [UNIFFI_TRAIT, discriminant_repr Discriminant_Eq] eq = Some e"
        and n: "method_at ([UNIFFI_TRAIT, discriminant_repr Discriminant_Eq] @ enc_fn eq) ne = Some n"
        and m: "m = UniffiTrait_Eq e n"
        by (auto split: bind_splits)
      have "parses (rbind read_metadata_method (\<lambda>eq. rbind read_metadata_method (\<lambda>ne.
           rret (UniffiTrait_Eq eq ne)))) [UNIFFI_TRAIT, discriminant_repr Discriminant_Eq]
           (enc_fn eq @ enc_fn ne) m"
        unfolding m
        by (intro parses_rbind [OF parses_metadata_method [OF e]]
            parses_map_eq [OF parses_metadata_method [OF n]])
           (use assms UTrait_Eq in simp_all)
      with UTrait_Eq show ?thesis by simp
    next
      case (UTrait_Debug fmt)
      with assms obtain x where
        x: "method_at [UNIFFI_TRAIT, discriminant_repr Discriminant_Debug] fmt = Some x"
        and m: "m = UniffiTrait_Debug x"
        by auto
      from parses_map [OF parses_metadata_method [OF x], where f = UniffiTrait_Debug] assms(2)
      show ?thesis unfolding UTrait_Debug m by simp
    next
      case (UTrait_Display fmt)
      with assms obtain x where
        x: "method_at [UNIFFI_TRAIT, discriminant_repr Discriminant_Display] fmt = Some x"
        and m: "m = UniffiTrait_Display x"
        by auto
      from parses_map [OF parses_metadata_method [OF x], where f = UniffiTrait_Display] assms(2)
      show ?thesis unfolding UTrait_Display m by simp
    next
      case (UTrait_Hash hash)
      with assms obtain x where
        x: "method_at [UNIFFI_TRAIT, discriminant_repr Discriminant_Hash] hash = Some x"
        and m: "m = UniffiTrait_Hash x"
        by auto
      from parses_map [OF parses_metadata_method [OF x], where f = UniffiTrait_Hash] assms(2)
      show ?thesis unfolding UTrait_Hash m by simp
    next
      case (UTrait_Ord cmp)
      with assms obtain x where
        x: "method_at [UNIFFI_TRAIT, discriminant_repr Discriminant_Ord] cmp = Some x"
        and m: "m = UniffiTrait_Ord x"
        by auto
      from parses_map [OF parses_metadata_method [OF x], where f = UniffiTrait_Ord] assms(2)
      show ?thesis unfolding UTrait_Ord m by simp
    qed
  qed
  from parses_map [OF this, of Metadata_UniffiTrait] show ?thesis
    unfolding read_item_def enc_utrait_def by (intro parses_code) simp
qed

section \<open>Namespace (\<open>setup_scaffolding.rs\<close>) and UDL file (\<open>UdlMetadata.rs\<close>)\<close>

definition namespace_metadata_expr :: "NamespaceMetadata \<Rightarrow> MetadataBuffer option" where
  "namespace_metadata_expr n = build_meta NAMESPACE [concat_str (ns_crate_name n), concat_str (ns_name n)]"

definition udl_metadata_expr :: "UdlFile \<Rightarrow> MetadataBuffer option" where
  "udl_metadata_expr u =
     build_meta UDL_FILE
       [concat_str (udl_module_path u), concat_str (udl_namespace u), concat_str (udl_file_stub u)]"

definition enc_namespace :: "NamespaceMetadata \<Rightarrow> bytes" where
  "enc_namespace n = NAMESPACE # enc_str (ns_crate_name n) @ enc_str (ns_name n)"

definition enc_udl :: "UdlFile \<Rightarrow> bytes" where
  "enc_udl u = UDL_FILE # enc_str (udl_module_path u) @ enc_str (udl_namespace u) @
     enc_str (udl_file_stub u)"

lemma const_ok_namespace:
  "const_ok (namespace_metadata_expr n) (shorts [ns_crate_name n, ns_name n]) (enc_namespace n)"
  unfolding namespace_metadata_expr_def
  by (rule const_ok_eq, (rule builds_intro)+) (auto simp: enc_namespace_def)

lemma const_ok_udl:
  "const_ok (udl_metadata_expr u) (shorts [udl_module_path u, udl_namespace u, udl_file_stub u]) (enc_udl u)"
  unfolding udl_metadata_expr_def
  by (rule const_ok_eq, (rule builds_intro)+) (auto simp: enc_udl_def)

lemma parses_namespace:
  assumes "texts_ok [ns_crate_name n, ns_name n]"
  shows "parses read_item [] (enc_namespace n) (Metadata_Namespace n)"
proof -
  have "parses (rbind read_string (\<lambda>cn. rbind read_string (\<lambda>nm.
         rret (Metadata_Namespace \<lparr>ns_crate_name = cn, ns_name = nm\<rparr>)))) pre
      (enc_str (ns_crate_name n) @ enc_str (ns_name n)) (Metadata_Namespace n)" for pre
    by (intro parses_rbind [OF parses_text] parses_map_eq [OF parses_text]) (use assms in simp_all)
  then show ?thesis
    unfolding read_item_def enc_namespace_def by (intro parses_code) simp
qed

lemma parses_udl:
  assumes "texts_ok [udl_module_path u, udl_namespace u, udl_file_stub u]"
  shows "parses read_item [] (enc_udl u) (Metadata_UdlFile u)"
proof -
  have "parses (rbind read_string (\<lambda>mp. rbind read_string (\<lambda>ns. rbind read_string (\<lambda>stub.
         rret (Metadata_UdlFile
           \<lparr>udl_module_path = mp, udl_namespace = ns, udl_file_stub = stub\<rparr>))))) pre
      (enc_str (udl_module_path u) @ enc_str (udl_namespace u) @ enc_str (udl_file_stub u))
      (Metadata_UdlFile u)" for pre
    by (intro parses_rbind [OF parses_text] parses_map_eq [OF parses_text]) (use assms in simp_all)
  then show ?thesis
    unfolding read_item_def enc_udl_def by (intro parses_code) simp
qed

section \<open>All items\<close>

datatype MacroItem =
    Item_Fn FnSignature
  | Item_Record RecordItem
  | Item_Enum EnumItem
  | Item_Error EnumItem
  | Item_Interface InterfaceItem
  | Item_Callback CallbackItem
  | Item_Custom CustomItem
  | Item_TraitImpl TraitImplItem
  | Item_UniffiTrait UniffiTraitItem
  | Item_Namespace NamespaceMetadata
  | Item_Udl UdlFile

fun macro_expr :: "MacroItem \<Rightarrow> MetadataBuffer option" where
  "macro_expr (Item_Fn s) = fn_metadata_expr s"
| "macro_expr (Item_Record r) = record_metadata_expr r"
| "macro_expr (Item_Enum e) = enum_metadata_expr e"
| "macro_expr (Item_Error e) = error_metadata_expr e"
| "macro_expr (Item_Interface i) = interface_metadata_expr i"
| "macro_expr (Item_Callback c) = callback_metadata_expr c"
| "macro_expr (Item_Custom c) = custom_type_metadata_expr c"
| "macro_expr (Item_TraitImpl t) = object_trait_impl_expr t"
| "macro_expr (Item_UniffiTrait t) = utrait_metadata_expr t"
| "macro_expr (Item_Namespace n) = namespace_metadata_expr n"
| "macro_expr (Item_Udl u) = udl_metadata_expr u"

fun enc_macro :: "MacroItem \<Rightarrow> bytes" where
  "enc_macro (Item_Fn s) = enc_fn s"
| "enc_macro (Item_Record r) = enc_record r"
| "enc_macro (Item_Enum e) = enc_enum EnumShape_Enum (ei_discr_type e) e"
| "enc_macro (Item_Error e) = enc_enum (EnumShape_Error (ei_flat_error e)) None e"
| "enc_macro (Item_Interface i) = enc_interface i"
| "enc_macro (Item_Callback c) = enc_callback c"
| "enc_macro (Item_Custom c) = enc_custom c"
| "enc_macro (Item_TraitImpl t) = enc_trait_impl t"
| "enc_macro (Item_UniffiTrait t) = enc_utrait t"
| "enc_macro (Item_Namespace n) = enc_namespace n"
| "enc_macro (Item_Udl u) = enc_udl u"

text \<open>The limits of the format: names of at most 255 bytes, docstrings of at most 65535, lists of at
  most 255 elements, and only the literals that the macros accept.\<close>

fun macro_fits :: "MacroItem \<Rightarrow> bool" where
  "macro_fits (Item_Fn s) = fn_fits s"
| "macro_fits (Item_Record r) = record_fits r"
| "macro_fits (Item_Enum e) = enum_fits EnumShape_Enum (ei_discr_type e) e"
| "macro_fits (Item_Error e) = enum_fits (EnumShape_Error (ei_flat_error e)) None e"
| "macro_fits (Item_Interface i) =
     (shorts (interface_strings i) \<and> length (ii_docstring i) < 65536)"
| "macro_fits (Item_Callback c) =
     (shorts [ci_mod_path c, ci_trait_name c] \<and> length (ci_docstring c) < 65536)"
| "macro_fits (Item_Custom c) = (shorts (custom_strings c) \<and> length (cu_docstring c) < 65536)"
| "macro_fits (Item_TraitImpl t) = shorts (trait_impl_strings t)"
| "macro_fits (Item_UniffiTrait t) = (\<forall>s\<in>set (utrait_methods t). fn_fits s)"
| "macro_fits (Item_Namespace n) = shorts [ns_crate_name n, ns_name n]"
| "macro_fits (Item_Udl u) = shorts [udl_module_path u, udl_namespace u, udl_file_stub u]"

text \<open>All strings of the item are Rust strings, and its names are short enough.\<close>

fun macro_texts_ok :: "MacroItem \<Rightarrow> bool" where
  "macro_texts_ok (Item_Fn s) = fn_texts_ok s"
| "macro_texts_ok (Item_Record r) = record_texts_ok r"
| "macro_texts_ok (Item_Enum e) = enum_texts_ok EnumShape_Enum (ei_discr_type e) e"
| "macro_texts_ok (Item_Error e) = enum_texts_ok (EnumShape_Error (ei_flat_error e)) None e"
| "macro_texts_ok (Item_Interface i) =
     (texts_ok (interface_strings i) \<and> rust_string (ii_docstring i))"
| "macro_texts_ok (Item_Callback c) =
     (texts_ok [ci_mod_path c, ci_trait_name c] \<and> rust_string (ci_docstring c))"
| "macro_texts_ok (Item_Custom c) = (texts_ok (custom_strings c) \<and> rust_string (cu_docstring c))"
| "macro_texts_ok (Item_TraitImpl t) = texts_ok (trait_impl_strings t)"
| "macro_texts_ok (Item_UniffiTrait t) = (\<forall>s\<in>set (utrait_methods t). fn_texts_ok s)"
| "macro_texts_ok (Item_Namespace n) = texts_ok [ns_crate_name n, ns_name n]"
| "macro_texts_ok (Item_Udl u) = texts_ok [udl_module_path u, udl_namespace u, udl_file_stub u]"

text \<open>What the reader is to return.  \<open>None\<close>: a default value that does not fit its type, a
  constructor that does not return its object, \<open>()\<close> or \<open>Result\<close> where a type is expected.\<close>

fun macro_meta :: "MacroItem \<Rightarrow> Metadata option" where
  "macro_meta (Item_Fn s) = fn_item (Some (checksum_metadata (enc_fn s))) s"
| "macro_meta (Item_Record r) = record_item r"
| "macro_meta (Item_Enum e) = enum_item EnumShape_Enum (ei_discr_type e) e"
| "macro_meta (Item_Error e) = enum_item (EnumShape_Error (ei_flat_error e)) None e"
| "macro_meta (Item_Interface i) = Some (Metadata_Object (interface_object i (ii_imp i)))"
| "macro_meta (Item_Callback c) = Some (Metadata_CallbackInterface
     \<lparr>cb_module_path = ci_mod_path c, cb_name = ci_trait_name c,
      cb_docstring = doc_of (ci_docstring c)\<rparr>)"
| "macro_meta (Item_Custom c) = map_option (\<lambda>t. Metadata_CustomType
     \<lparr>custom_module_path = cu_mod_path c, custom_name = cu_name c, custom_orig_name = None,
      custom_builtin = t, custom_docstring = doc_of (cu_docstring c)\<rparr>) (type_of (cu_builtin c))"
| "macro_meta (Item_TraitImpl t) = map_option (\<lambda>tr. Metadata_ObjectTraitImpl
     \<lparr>oti_ty = Type_Object (ti_mod_path t) (ti_object_name t) ObjectImpl_Struct, oti_trait_ty = tr\<rparr>)
     (type_of (ti_trait t))"
| "macro_meta (Item_UniffiTrait t) = map_option Metadata_UniffiTrait (utrait_meta t)"
| "macro_meta (Item_Namespace n) = Some (Metadata_Namespace n)"
| "macro_meta (Item_Udl u) = Some (Metadata_UdlFile u)"

lemma const_ok_macro: "const_ok (macro_expr i) (macro_fits i) (enc_macro i)"
  by (cases i)
     (simp_all only: macro_expr.simps macro_fits.simps enc_macro.simps const_ok_fn const_ok_record
       const_ok_enum const_ok_error const_ok_interface const_ok_callback const_ok_custom
       const_ok_trait_impl const_ok_utrait const_ok_namespace const_ok_udl)

lemma parses_macro:
  assumes "macro_meta i = Some item" "macro_fits i" "macro_texts_ok i"
  shows "parses read_item [] (enc_macro i) item"
  using assms
  by (cases i)
     (auto intro!: parses_fn_item parses_record parses_enum parses_interface parses_callback
       parses_custom parses_trait_impl parses_utrait parses_namespace parses_udl
       simp: doc_ok_def fn_texts_ok_def fn_fits_def)

end
