(* ===== verification/MetaProps.thy ===== *)
theory MetaProps
  imports MacroMeta
begin

text \<open>
  The properties of the metadata path: what the macros write into a library, \<open>uniffi_meta\<close> reads
  back.
\<close>

section \<open>Round trips\<close>

text \<open>C1: reading the metadata constant that a macro emits, with whatever bytes follow it in the
  library's section, gives back the item the macro was given: names, original names, types, argument
  and field lists, defaults, discriminants, docstrings and all.\<close>

theorem macro_roundtrip:
  assumes "macro_expr i = Some m" and "macro_meta i = Some item" and "macro_texts_ok i"
  shows "read_metadata (mb_as_ref m @ rest) = Inr item"
proof -
  have "mb_as_ref m = enc_macro i" and "macro_fits i"
    using const_ok_Some_iff [OF const_ok_macro [of i]] assms(1) by auto
  with parses_macro [OF assms(2) _ assms(3)] show ?thesis by (simp add: read_metadata_parses)
qed

definition example_arg :: NamedArg where
  "example_arg = \<lparr>arg_name = ''n'', arg_ty = RT_Option RT_u8, arg_ref = False,
     arg_default = Some (DV_Some (DV_Int ''42'' ''''))\<rparr>"

definition example_fn :: FnSignature where
  "example_fn = \<lparr>sig_kind = FnKind_Function, sig_mod_path = ''m'', sig_ident = ''f'', sig_name = ''g'',
     sig_name_from_attrs = True, sig_is_async = False, sig_args = [example_arg],
     sig_return_ty = RT_Result (RT_Vec RT_u8) (RT_Enum ''m'' ''E''), sig_docstring = ''d''\<rparr>"

lemma example_text_ok:
  "text_ok ''m''" "text_ok ''f''" "text_ok ''g''" "text_ok ''n''" "text_ok ''42''" "text_ok ''E''"
  "rust_string ''d''"
  by (simp_all add: text_ok_def rust_string_def as_bytes_def byte_of_char_def utf8_tail_def in_range_def)

lemma example_fn_meta:
  "macro_meta (Item_Fn example_fn) = Some (Metadata_Func
     \<lparr>fn_module_path = ''m'', fn_name = ''g'', fn_orig_name = Some ''f'', fn_is_async = False,
      fn_inputs = [\<lparr>param_name = ''n'', param_ty = Type_Optional Type_UInt8, param_by_ref = False,
        param_optional = False,
        param_default = Some (DefaultValue_Literal (Literal_Some (DefaultValue_Literal
          (Literal_UInt 42 Radix_Decimal Type_UInt8))))\<rparr>],
      fn_return_type = Some Type_Bytes, fn_throws = Some (Type_Enum ''m'' ''E''),
      fn_checksum = Some (checksum_metadata (enc_fn example_fn)), fn_docstring = Some ''d''\<rparr>)"
  by (simp add: example_fn_def example_arg_def fn_item_def fn_tail_meta_def arg_meta_def
      opt_default_of_def int_literal_type_def int_literal_def parse_uint_def parse_integer_def
      parse_digits_def is_digit_def digit_value_def sequence_of_def orig_name_of_def doc_of_def)

lemma example_fn_texts: "macro_texts_ok (Item_Fn example_fn)"
  by (simp add: fn_texts_ok_def fn_strings_def fn_object_names_def fn_tail_strings_def
      orig_strings_def arg_strings_def opt_default_strings_def example_fn_def example_arg_def
      example_text_ok)

lemma example_fn_compiles: "\<exists>m. macro_expr (Item_Fn example_fn) = Some m"
proof -
  have "fn_fits example_fn"
    using example_fn_texts texts_ok_shorts [of "fn_strings example_fn"]
    by (simp add: fn_fits_def fn_texts_ok_def fn_tail_fits_def fn_strings_def opt_default_accepted_def
        example_fn_def example_arg_def)
  moreover have "length (enc_fn example_fn) \<le> BUF_SIZE"
    by (simp add: enc_fn_def enc_fn_tail_def enc_list_def enc_arg_def enc_str_def enc_bool_def
        enc_optional_default_def enc_long_str_def orig_name_of_def enc_optional_str_def BUF_SIZE_def
        example_fn_def example_arg_def)
  ultimately show ?thesis using const_ok_Some_iff(2) [OF const_ok_fn [of example_fn]] by simp
qed

theorem macro_roundtrip_witness:
  "\<exists>m item. macro_expr (Item_Fn example_fn) = Some m \<and>
     macro_meta (Item_Fn example_fn) = Some item \<and> read_metadata (mb_as_ref m @ [1, 2, 3]) = Inr item"
  using example_fn_compiles macro_roundtrip [OF _ example_fn_meta example_fn_texts] example_fn_meta
  by blast

text \<open>C37: the constant of an item compiles exactly when the item is within the limits of the format
  (names up to 255 bytes, docstrings up to 65535, at most 255 arguments, fields or variants, accepted
  literals) and its encoding fits in the 32768 bytes of a \<open>MetadataBuffer\<close>; it then holds that
  encoding and nothing else.\<close>

theorem macro_compiles_iff:
  "(macro_expr i \<noteq> None \<longleftrightarrow> macro_fits i \<and> length (enc_macro i) \<le> BUF_SIZE) \<and>
   (\<forall>m. macro_expr i = Some m \<longrightarrow> mb_as_ref m = enc_macro i)"
  using const_ok_Some_iff [OF const_ok_macro [of i]] by auto

theorem macro_compiles_iff_witness:
  "\<exists>m. macro_expr (Item_Fn example_fn) = Some m \<and> mb_as_ref m = enc_macro (Item_Fn example_fn)"
  using example_fn_compiles macro_compiles_iff [of "Item_Fn example_fn"] by blast

text \<open>A type survives the trip through its \<open>TYPE_ID_META\<close> constant; a vector of bytes arrives as
  \<open>Bytes\<close>.\<close>

theorem type_roundtrip:
  assumes "type_id_meta rt = Some m" and "type_of rt = Some t"
    and "\<And>s. s \<in> set (type_strings rt) \<Longrightarrow> rust_string s"
  shows "read_metadata_type (mb_as_ref m @ rest) = Inr t"
proof -
  have m: "mb_as_ref m = enc_type rt" and "\<forall>s\<in>set (type_strings rt). short s"
    using const_ok_Some_iff [OF const_ok_type [of rt]] assms(1) by auto
  with assms(3) have "\<forall>s\<in>set (type_strings rt). text_ok s" by (simp add: text_ok_def short_def)
  from parsesD [OF parses_type [OF assms(2) this], of "[]" rest] show ?thesis
    unfolding m read_metadata_type_def reader_new_def by simp
qed

definition example_rt :: RustType where
  "example_rt = RT_HashMap RT_String (RT_Option (RT_Vec (RT_Record ''m'' ''E'')))"

theorem type_roundtrip_witness:
  "\<exists>m. type_id_meta example_rt = Some m \<and>
     read_metadata_type (mb_as_ref m @ [7]) =
       Inr (Type_Map Type_String (Type_Optional (Type_Sequence (Type_Record ''m'' ''E''))))"
proof -
  have strings: "rust_string s" if "s \<in> set (type_strings example_rt)" for s
    using that example_text_ok by (auto simp: example_rt_def text_ok_def)
  have "\<forall>s\<in>set (type_strings example_rt). short s" "length (enc_type example_rt) \<le> BUF_SIZE"
    by (simp_all add: example_rt_def short_def enc_str_def BUF_SIZE_def)
  then obtain m where m: "type_id_meta example_rt = Some m"
    using const_ok_Some_iff(2) [OF const_ok_type [of example_rt]] by blast
  moreover have "type_of example_rt =
      Some (Type_Map Type_String (Type_Optional (Type_Sequence (Type_Record ''m'' ''E''))))"
    by (simp add: example_rt_def sequence_of_def)
  ultimately show ?thesis
    using type_roundtrip [OF m _ strings] by blast
qed

section \<open>Checksums\<close>

fun item_checksum :: "Metadata \<Rightarrow> u16 option" where
  "item_checksum (Metadata_Func m) = fn_checksum m"
| "item_checksum (Metadata_Constructor m) = ctor_checksum m"
| "item_checksum (Metadata_Method m) = meth_checksum m"
| "item_checksum (Metadata_TraitMethod m) = tmeth_checksum m"
| "item_checksum _ = None"

text \<open>C11: the checksum that the bindings read out of a function's metadata is the value that the
  function's checksum symbol returns in the library, \<open>MetadataBuffer::checksum\<close> of the same
  constant.\<close>

theorem fn_checksum_agrees:
  assumes "fn_metadata_expr s = Some m" and "read_metadata (mb_as_ref m) = Inr item"
    and "fn_texts_ok s" and "macro_meta (Item_Fn s) \<noteq> None"
  shows "item_checksum item = Some (mb_checksum m)"
proof -
  have m: "mb_as_ref m = enc_fn s" "mb_ok m" "fn_fits s"
    using const_ok_Some_iff [OF const_ok_fn [of s]] assms(1) by auto
  from assms(4) obtain it where it: "fn_item (Some (checksum_metadata (enc_fn s))) s = Some it" by auto
  from read_metadata_parses [OF parses_fn_item [OF it], of "[]"] m assms(2,3)
  have "item = it" by (simp add: fn_texts_ok_def fn_fits_def)
  moreover have "item_checksum it = Some (checksum_metadata (enc_fn s))"
    using it by (auto simp: fn_item_def Let_def split: bind_splits FnKind.splits if_splits)
  ultimately show ?thesis using m mb_checksum_as_ref by simp
qed

theorem fn_checksum_agrees_witness:
  "\<exists>m item. fn_metadata_expr example_fn = Some m \<and> read_metadata (mb_as_ref m) = Inr item \<and>
     item_checksum item = Some (mb_checksum m)"
proof -
  obtain m where m: "fn_metadata_expr example_fn = Some m" using example_fn_compiles by auto
  have ok: "mb_as_ref m = enc_macro (Item_Fn example_fn)" "macro_fits (Item_Fn example_fn)"
    using const_ok_Some_iff [OF const_ok_macro [of "Item_Fn example_fn"]] m by auto
  obtain item where item: "read_metadata (mb_as_ref m) = Inr item"
    using read_metadata_parses [OF parses_macro [OF example_fn_meta ok(2) example_fn_texts], of "[]"]
    by (simp add: ok(1))
  have "fn_texts_ok example_fn" "macro_meta (Item_Fn example_fn) \<noteq> None"
    using example_fn_texts example_fn_meta by simp_all
  with fn_checksum_agrees [OF m item] m item show ?thesis by blast
qed

text \<open>Two metadata encodings that differ in exactly one byte have different 64-bit FNV states;
  only the folding to 16 bits can make their checksums collide.\<close>

theorem checksum_state_one_byte:
  "foldl fnv_step INITIAL_STATE (pre @ b # post) = foldl fnv_step INITIAL_STATE (pre @ c # post)
     \<longleftrightarrow> b = c"
  by (simp add: foldl_fnv_inject fnv_step_inject_byte)

section \<open>The reader on arbitrary data\<close>

text \<open>C38: the reader terminates on every input, with an item, with one of its own errors, or with the panic of
  \<open>split_at\<close> at a string that the data cuts short: the descent through nested types, which the model bounds by a number of steps,
  never runs out of them, and reading a type gives the same result for every bound above the number of bytes left.\<close>

theorem read_metadata_total:
  "read_metadata data \<noteq> Inl ME_fuel \<and> (\<forall>n s. length (rd_buf s) < n \<longrightarrow> read_type_fuel n s = read_type s)"
proof -
  have "read_item (reader_new data) \<noteq> Inl ME_fuel"
    using read_item_ok(2) by (simp add: fuel_free_def)
  then show ?thesis
    using read_type_fuel_enough(1) by (cases "read_item (reader_new data)") (auto simp: read_metadata_def)
qed

theorem read_metadata_total_witness:
  "read_metadata [FUNC, 5] \<noteq> Inl ME_fuel \<and>
   read_type_fuel 9 (reader_new [TYPE_OPTION, TYPE_U8]) = read_type (reader_new [TYPE_OPTION, TYPE_U8])"
  using read_metadata_total [of "[FUNC, 5]"] by (simp add: reader_new_def)

text \<open>A length byte that promises more bytes than are left makes \<open>read_string\<close> panic in
  \<open>split_at\<close>, and nothing else does; an empty buffer and invalid UTF-8 are ordinary errors.\<close>

theorem read_string_panics_iff:
  "read_string s = Inl ME_panic \<longleftrightarrow> (\<exists>n bs. rd_buf s = n # bs \<and> length bs < unat n)"
  by (auto simp: read_string_def rbind_apply read_u8_def read_slice_string_def
      split: list.splits option.splits)

text \<open>A reader of a checked item: the checksum of its result covers everything from the start of the
  data to the reader's position.\<close>

definition checks :: "'a mreader \<Rightarrow> ('a \<Rightarrow> u16 option) \<Rightarrow> bool" where
  "checks p g \<longleftrightarrow>
     (\<forall>s a s' pre. initial_data s = pre @ rd_buf s \<longrightarrow> p s = Inr (a, s') \<longrightarrow>
        (\<exists>used. rd_buf s = used @ rd_buf s' \<and> initial_data s' = initial_data s \<and>
           g a = Some (checksum_metadata (pre @ used))))"

lemma checksD:
  "checks p g \<Longrightarrow> initial_data s = pre @ rd_buf s \<Longrightarrow> p s = Inr (a, s') \<Longrightarrow>
   \<exists>used. rd_buf s = used @ rd_buf s' \<and> initial_data s' = initial_data s \<and>
     g a = Some (checksum_metadata (pre @ used))"
  by (simp add: checks_def)

lemma checks_rbind:
  assumes "steps p" "\<And>a. checks (k a) g"
  shows "checks (rbind p k) g"
  unfolding checks_def
proof (intro allI impI)
  fix s b t pre assume s: "initial_data s = pre @ rd_buf s" and "rbind p k s = Inr (b, t)"
  then obtain a s' where s': "p s = Inr (a, s')" and t: "k a s' = Inr (b, t)"
    by (auto simp: rbind_Inr)
  from stepsD [OF assms(1) s'] obtain u where u: "rd_buf s = u @ rd_buf s'" "initial_data s' = initial_data s"
    by blast
  with s have "initial_data s' = (pre @ u) @ rd_buf s'" by simp
  from checksD [OF assms(2) this t] u
  show "\<exists>used. rd_buf s = used @ rd_buf t \<and> initial_data t = initial_data s \<and>
      g b = Some (checksum_metadata (pre @ used))"
    by (metis append.assoc)
qed

lemma checks_prod: "(\<And>x y. checks (q x y) g) \<Longrightarrow> checks (case v of (x, y) \<Rightarrow> q x y) g"
  by (cases v) auto

lemma checks_checksum:
  assumes "\<And>ck. g (f ck) = ck"
  shows "checks (rbind reader_checksum (\<lambda>ck. rret (f ck))) g"
  unfolding checks_def using assms
  by (auto simp: rbind_Inr reader_checksum_def Let_def)

lemma checks_functions:
  "checks read_func fn_checksum" "checks read_constructor ctor_checksum"
  "checks read_method meth_checksum" "checks read_trait_method tmeth_checksum"
  unfolding read_func_def read_constructor_def read_method_def read_trait_method_def
  by (intro checks_checksum checks_rbind checks_prod steps_intro; simp)+

text \<open>The checksum of a function is computed over the bytes from the start of the data up to the
  reader's position, and the number of bytes read that \<open>calc_checksum\<close> computes does not wrap: the
  reader has consumed a prefix of what was left and has not touched the initial data.\<close>

theorem read_func_checksum_prefix:
  assumes "read_func s = Inr (f, s')" and "initial_data s = pre @ rd_buf s"
  shows "\<exists>used. rd_buf s = used @ rd_buf s' \<and> initial_data s' = initial_data s \<and>
    fn_checksum f = Some (checksum_metadata (pre @ used))"
  using checksD [OF checks_functions(1) assms(2) assms(1)] .

theorem read_func_checksum_prefix_witness:
  "\<exists>f s'. read_func \<lparr>initial_data = FUNC # [1, 109, 1, 103, 0, 0, 0, 255, 0, 0, 9],
      rd_buf = [1, 109, 1, 103, 0, 0, 0, 255, 0, 0, 9]\<rparr> = Inr (f, s') \<and> fn_name f = ''g'' \<and>
    fn_checksum f = Some (checksum_metadata [FUNC, 1, 109, 1, 103, 0, 0, 0, 255, 0, 0])"
proof -
  define s where "s = \<lparr>initial_data = FUNC # [1, 109, 1, 103, 0, 0, 0, 255, 0, 0, 9],
      rd_buf = [1, 109, 1, 103, 0, 0, 0, 255, 0, 0, 9]\<rparr>"
  have "\<exists>f s'. read_func s = Inr (f, s') \<and> fn_name f = ''g'' \<and> rd_buf s' = [9]"
    by (simp add: s_def read_func_def read_string_def read_slice_string_def read_u8_def
        read_optional_string_def read_bool_def read_inputs_def read_return_type_def peek_u8_def
        read_optional_long_string_def read_long_string_def read_u16_def reader_checksum_def
        rbind_apply rret_apply from_utf8_def utf8_tail_def in_range_def string_of_bytes_def
        char_of_byte_def char_of_def bit_0 Let_def)
  then obtain f s' where f: "read_func s = Inr (f, s')" "fn_name f = ''g''" "rd_buf s' = [9]" by blast
  have "initial_data s = [FUNC] @ rd_buf s" by (simp add: s_def)
  from read_func_checksum_prefix [OF f(1) this] f show ?thesis
    unfolding s_def [symmetric] by (auto simp: s_def)
qed

end
