(* ===== verification/FfiNames.thy ===== *)
theory FfiNames
  imports MetaTypes
begin

text \<open>
  \<open>uniffi_meta/src/ffi_names.rs\<close>, the names of the FFI symbols, and \<open>crate_name\<close> of \<open>lib.rs\<close>.
\<close>

definition crate_name :: "string \<Rightarrow> string" where
  "crate_name module_path = split_colons_first module_path"

text \<open>\<open>str::replace("::", "__")\<close>: from left to right, occurrences do not overlap.\<close>

fun replace_colons :: "string \<Rightarrow> string" where
  "replace_colons [] = []"
| "replace_colons [c] = [c]"
| "replace_colons (c # d # s) =
     (if c = CHR '':'' \<and> d = CHR '':'' then CHR ''_'' # CHR ''_'' # replace_colons s
      else c # replace_colons (d # s))"

definition ascii_lower :: "char \<Rightarrow> char" where
  "ascii_lower c =
     (let n = of_char c :: nat in if 65 \<le> n \<and> n \<le> 90 then char_of (n + 32) else c)"

definition to_ascii_lowercase :: "string \<Rightarrow> string" where
  "to_ascii_lowercase s = map ascii_lower s"

definition namespace_of :: "string \<Rightarrow> string" where
  "namespace_of module_path = replace_colons (crate_name module_path)"

definition fn_symbol_name :: "string \<Rightarrow> string \<Rightarrow> string" where
  "fn_symbol_name module_path nm =
     ''uniffi_'' @ namespace_of module_path @ ''_fn_func_'' @ to_ascii_lowercase nm"

definition constructor_symbol_name :: "string \<Rightarrow> string \<Rightarrow> string \<Rightarrow> string" where
  "constructor_symbol_name module_path object_name nm =
     ''uniffi_'' @ namespace_of module_path @ ''_fn_constructor_'' @
     to_ascii_lowercase object_name @ ''_'' @ to_ascii_lowercase nm"

definition method_symbol_name :: "string \<Rightarrow> string \<Rightarrow> string \<Rightarrow> string" where
  "method_symbol_name module_path object_name nm =
     ''uniffi_'' @ namespace_of module_path @ ''_fn_method_'' @
     to_ascii_lowercase object_name @ ''_'' @ to_ascii_lowercase nm"

definition clone_fn_symbol_name :: "string \<Rightarrow> string \<Rightarrow> string" where
  "clone_fn_symbol_name module_path object_name =
     ''uniffi_'' @ namespace_of module_path @ ''_fn_clone_'' @ to_ascii_lowercase object_name"

definition free_fn_symbol_name :: "string \<Rightarrow> string \<Rightarrow> string" where
  "free_fn_symbol_name module_path object_name =
     ''uniffi_'' @ namespace_of module_path @ ''_fn_free_'' @ to_ascii_lowercase object_name"

definition init_callback_vtable_fn_symbol_name :: "string \<Rightarrow> string \<Rightarrow> string" where
  "init_callback_vtable_fn_symbol_name module_path callback_interface_name =
     ''uniffi_'' @ namespace_of module_path @ ''_fn_init_callback_vtable_'' @
     to_ascii_lowercase callback_interface_name"

definition fn_checksum_symbol_name :: "string \<Rightarrow> string \<Rightarrow> string" where
  "fn_checksum_symbol_name module_path nm =
     ''uniffi_'' @ namespace_of module_path @ ''_checksum_func_'' @ to_ascii_lowercase nm"

definition constructor_checksum_symbol_name :: "string \<Rightarrow> string \<Rightarrow> string \<Rightarrow> string" where
  "constructor_checksum_symbol_name module_path object_name nm =
     ''uniffi_'' @ namespace_of module_path @ ''_checksum_constructor_'' @
     to_ascii_lowercase object_name @ ''_'' @ to_ascii_lowercase nm"

definition method_checksum_symbol_name :: "string \<Rightarrow> string \<Rightarrow> string \<Rightarrow> string" where
  "method_checksum_symbol_name module_path object_name nm =
     ''uniffi_'' @ namespace_of module_path @ ''_checksum_method_'' @
     to_ascii_lowercase object_name @ ''_'' @ to_ascii_lowercase nm"

definition strip_prefix :: "string \<Rightarrow> string \<Rightarrow> string option" where
  "strip_prefix p s = (if take (length p) s = p then Some (drop (length p) s) else None)"

definition ffi_buffer_symbol_name :: "string \<Rightarrow> string" where
  "ffi_buffer_symbol_name symbol =
     (case strip_prefix ''uniffi_'' symbol of
        Some rest \<Rightarrow> ''uniffi_ffibuffer_'' @ rest
      | None \<Rightarrow> ''uniffi_ffibuffer_'' @ symbol)"

text \<open>The symbol names of the metadata structures (\<open>lib.rs\<close>).\<close>

definition fn_ffi_symbol_name :: "FnMetadata \<Rightarrow> string" where
  "fn_ffi_symbol_name m = fn_symbol_name (fn_module_path m) (fn_name m)"

definition ctor_ffi_symbol_name :: "ConstructorMetadata \<Rightarrow> string" where
  "ctor_ffi_symbol_name m =
     constructor_symbol_name (ctor_module_path m) (ctor_self_name m) (ctor_name m)"

definition meth_ffi_symbol_name :: "MethodMetadata \<Rightarrow> string" where
  "meth_ffi_symbol_name m = method_symbol_name (meth_module_path m) (meth_self_name m) (meth_name m)"

definition tmeth_ffi_symbol_name :: "TraitMethodMetadata \<Rightarrow> string" where
  "tmeth_ffi_symbol_name m =
     method_symbol_name (tmeth_module_path m) (tmeth_trait_name m) (tmeth_name m)"

definition obj_clone_ffi_symbol_name :: "ObjectMetadata \<Rightarrow> string" where
  "obj_clone_ffi_symbol_name m = clone_fn_symbol_name (obj_module_path m) (obj_name m)"

definition obj_free_ffi_symbol_name :: "ObjectMetadata \<Rightarrow> string" where
  "obj_free_ffi_symbol_name m = free_fn_symbol_name (obj_module_path m) (obj_name m)"

lemmas symbol_name_defs =
  fn_symbol_name_def constructor_symbol_name_def method_symbol_name_def clone_fn_symbol_name_def
  free_fn_symbol_name_def init_callback_vtable_fn_symbol_name_def fn_checksum_symbol_name_def
  constructor_checksum_symbol_name_def method_checksum_symbol_name_def

lemma replace_colons_crate_name: "replace_colons (crate_name mp) = crate_name mp"
proof -
  have "replace_colons (split_colons_first s) = split_colons_first s" for s
  proof (induction s rule: split_colons_first.induct)
    case (3 c d s)
    then show ?case by (cases s) (auto split: if_splits)
  qed auto
  then show ?thesis by (simp add: crate_name_def)
qed

section \<open>Properties\<close>

text \<open>Within a crate the symbols of different kinds never coincide, whatever the names of the
  functions and objects are.\<close>

theorem symbol_kinds_disjoint:
  "distinct [fn_symbol_name mp f, constructor_symbol_name mp o1 c, method_symbol_name mp o2 m,
     clone_fn_symbol_name mp o3, free_fn_symbol_name mp o4,
     init_callback_vtable_fn_symbol_name mp cb, fn_checksum_symbol_name mp f',
     constructor_checksum_symbol_name mp o5 c', method_checksum_symbol_name mp o6 m']"
  by (simp add: symbol_name_defs)

text \<open>Functions of one crate have the same symbol exactly when their names differ at most in the
  case of ASCII letters; the symbol of a method identifies only the object and method name joined
  with an underscore, so method \<open>c\<close> of \<open>a_b\<close> and method \<open>b_c\<close> of \<open>a\<close> collide.\<close>

lemma symbol_collisions:
  "(fn_symbol_name mp f = fn_symbol_name mp g \<longleftrightarrow> to_ascii_lowercase f = to_ascii_lowercase g) \<and>
   method_symbol_name mp (a @ ''_'' @ b) c = method_symbol_name mp a (b @ ''_'' @ c)"
  by (simp add: symbol_name_defs to_ascii_lowercase_def ascii_lower_def)

lemma crate_name_idem [simp]: "crate_name (crate_name mp) = crate_name mp"
proof -
  have "split_colons_first (split_colons_first s) = split_colons_first s" for s
  proof (induction s rule: split_colons_first.induct)
    case (3 c d s)
    then show ?case by (cases s) (auto split: if_splits)
  qed auto
  then show ?thesis by (simp add: crate_name_def)
qed

end
