(* ===== verification/MetaGroup.thy ===== *)
theory MetaGroup
  imports FfiNames
begin

text \<open>
  \<open>uniffi_meta/src/group.rs\<close>: the items of a library sorted into one group per crate.  The hash map
  is a map from crate names; the \<open>BTreeSet\<close> of items is a set (its order is that of the derived
  \<open>Ord\<close>, its membership test equality).  The functions work on the map as \<open>&mut\<close> arguments do: the
  errors below leave it unspecified, as the callers drop it.
\<close>

record MetadataGroup =
  grp_namespace :: NamespaceMetadata
  grp_namespace_docstring :: "string option"
  grp_items :: "Metadata set"

type_synonym MetadataGroupMap = "string \<Rightarrow> MetadataGroup option"

datatype GroupError =
    Group_unknown_namespace Metadata string
  | Group_duplicate Metadata
  | Group_panic

fun group_of_item :: "Metadata \<Rightarrow> (string \<times> MetadataGroup) option" where
  "group_of_item (Metadata_Namespace n) =
     Some (ns_crate_name n,
       \<lparr>grp_namespace = n, grp_namespace_docstring = None, grp_items = {}\<rparr>)"
| "group_of_item (Metadata_UdlFile u) =
     Some (udl_module_path u,
       \<lparr>grp_namespace = \<lparr>ns_crate_name = udl_module_path u, ns_name = udl_namespace u\<rparr>,
        grp_namespace_docstring = None, grp_items = {}\<rparr>)"
| "group_of_item _ = None"

text \<open>\<open>filter_map\<close> and \<open>collect\<close> into a hash map, where a later entry replaces an earlier one.\<close>

definition create_metadata_groups :: "Metadata list \<Rightarrow> MetadataGroupMap" where
  "create_metadata_groups items =
     foldl (\<lambda>m i. case group_of_item i of Some (k, g) \<Rightarrow> m(k \<mapsto> g) | None \<Rightarrow> m) Map.empty items"

definition add_item :: "Metadata \<Rightarrow> MetadataGroup \<Rightarrow> MetadataGroup" where
  "add_item item g = g\<lparr>grp_items := insert item (grp_items g)\<rparr>"

fun is_namespace :: "Metadata \<Rightarrow> bool" where
  "is_namespace (Metadata_Namespace n) = True"
| "is_namespace _ = False"

fun group_metadata :: "MetadataGroupMap \<Rightarrow> Metadata list \<Rightarrow> GroupError + MetadataGroupMap" where
  "group_metadata gm [] = Inr gm"
| "group_metadata gm (item # items) =
     (if is_namespace item then group_metadata gm items
      else case metadata_module_path item of
        None \<Rightarrow> Inl Group_panic
      | Some mp \<Rightarrow>
          (case gm (crate_name mp) of
             None \<Rightarrow> Inl (Group_unknown_namespace item (crate_name mp))
           | Some g \<Rightarrow>
               if item \<in> grp_items g then Inl (Group_duplicate item)
               else group_metadata (gm(crate_name mp \<mapsto> add_item item g)) items))"

text \<open>The crate an item belongs to.\<close>

definition item_crate :: "Metadata \<Rightarrow> string option" where
  "item_crate item = map_option crate_name (metadata_module_path item)"

text \<open>The specification: every group keeps its namespace and gains the items of its crate.\<close>

definition crate_items :: "Metadata list \<Rightarrow> string \<Rightarrow> Metadata set" where
  "crate_items items c = {i \<in> set items. \<not> is_namespace i \<and> item_crate i = Some c}"

definition grouped :: "MetadataGroupMap \<Rightarrow> Metadata list \<Rightarrow> MetadataGroupMap" where
  "grouped gm items c =
     map_option (\<lambda>g. g\<lparr>grp_items := grp_items g \<union> crate_items items c\<rparr>) (gm c)"

lemma crate_items_simps [simp]:
  "crate_items [] c = {}"
  "crate_items (i # items) c =
     (if \<not> is_namespace i \<and> item_crate i = Some c then insert i (crate_items items c)
      else crate_items items c)"
  by (auto simp: crate_items_def)

definition groupable :: "MetadataGroupMap \<Rightarrow> Metadata list \<Rightarrow> bool" where
  "groupable gm items \<longleftrightarrow>
     distinct (filter (Not \<circ> is_namespace) items) \<and>
     (\<forall>i \<in> set items. \<not> is_namespace i \<longrightarrow>
        (\<exists>c g. item_crate i = Some c \<and> gm c = Some g \<and> i \<notin> grp_items g))"

lemma groupable_Cons:
  assumes "\<not> is_namespace item" "item_crate item = Some c" "gm c = Some g"
  shows "groupable gm (item # items) \<longleftrightarrow>
     item \<notin> grp_items g \<and> groupable (gm(c \<mapsto> add_item item g)) items"
proof
  assume l: "groupable gm (item # items)"
  then have "item \<notin> grp_items g" "item \<notin> set items"
    using assms by (auto simp: groupable_def)
  moreover have "groupable (gm(c \<mapsto> add_item item g)) items"
    unfolding groupable_def
  proof (intro conjI ballI impI)
    show "distinct (filter (Not \<circ> is_namespace) items)"
      using l assms by (simp add: groupable_def)
    fix i assume i: "i \<in> set items" "\<not> is_namespace i"
    with l obtain c' g' where "item_crate i = Some c'" "gm c' = Some g'" "i \<notin> grp_items g'"
      by (fastforce simp: groupable_def)
    with i \<open>item \<notin> set items\<close> assms
    show "\<exists>c' g'. item_crate i = Some c' \<and> (gm(c \<mapsto> add_item item g)) c' = Some g' \<and> i \<notin> grp_items g'"
      by (cases "c' = c") (auto simp: add_item_def)
  qed
  ultimately show "item \<notin> grp_items g \<and> groupable (gm(c \<mapsto> add_item item g)) items" by simp
next
  assume r: "item \<notin> grp_items g \<and> groupable (gm(c \<mapsto> add_item item g)) items"
  have "item \<notin> set items"
  proof
    assume "item \<in> set items"
    with r assms(1) obtain c' g' where "item_crate item = Some c'"
      "(gm(c \<mapsto> add_item item g)) c' = Some g'" "item \<notin> grp_items g'"
      by (fastforce simp: groupable_def)
    with assms show False by (auto simp: add_item_def)
  qed
  moreover have "\<exists>c' g'. item_crate i = Some c' \<and> gm c' = Some g' \<and> i \<notin> grp_items g'"
    if i: "i \<in> set items" "\<not> is_namespace i" for i
  proof -
    from r i obtain c' g' where "item_crate i = Some c'"
      "(gm(c \<mapsto> add_item item g)) c' = Some g'" "i \<notin> grp_items g'"
      by (fastforce simp: groupable_def)
    with assms show ?thesis by (cases "c' = c") (auto simp: add_item_def)
  qed
  ultimately show "groupable gm (item # items)"
    using r assms by (auto simp: groupable_def)
qed

lemma grouped_Cons:
  assumes "\<not> is_namespace item" "item_crate item = Some c" "gm c = Some g"
  shows "grouped (gm(c \<mapsto> add_item item g)) items = grouped gm (item # items)"
  using assms by (simp add: grouped_def fun_eq_iff add_item_def)

lemma group_metadata_step:
  assumes "\<not> is_namespace item"
  shows "group_metadata gm (item # items) =
    (case item_crate item of None \<Rightarrow> Inl Group_panic
     | Some c \<Rightarrow> (case gm c of None \<Rightarrow> Inl (Group_unknown_namespace item c)
        | Some g \<Rightarrow> if item \<in> grp_items g then Inl (Group_duplicate item)
            else group_metadata (gm(c \<mapsto> add_item item g)) items))"
  using assms by (simp add: item_crate_def split: option.splits)

lemma group_metadata_ok:
  "(groupable gm items \<longrightarrow> group_metadata gm items = Inr (grouped gm items)) \<and>
   (\<not> groupable gm items \<longrightarrow> (\<exists>e. group_metadata gm items = Inl e))"
proof (induction items arbitrary: gm)
  case Nil
  show ?case by (simp add: grouped_def groupable_def fun_eq_iff option.map_ident)
next
  case (Cons item items)
  show ?case
  proof (cases "is_namespace item")
    case True
    then have "groupable gm (item # items) = groupable gm items"
      "grouped gm (item # items) = grouped gm items"
      by (simp_all add: groupable_def grouped_def fun_eq_iff)
    with True Cons.IH [of gm] show ?thesis by simp
  next
    case ns: False
    show ?thesis
    proof (cases "\<exists>c g. item_crate item = Some c \<and> gm c = Some g")
      case True
      then obtain c g where c: "item_crate item = Some c" "gm c = Some g" by blast
      define gm' where "gm' = gm(c \<mapsto> add_item item g)"
      have "group_metadata gm (item # items) =
          (if item \<in> grp_items g then Inl (Group_duplicate item) else group_metadata gm' items)"
        using group_metadata_step [OF ns, of gm items] c unfolding gm'_def by simp
      moreover have "groupable gm (item # items) \<longleftrightarrow> item \<notin> grp_items g \<and> groupable gm' items"
        unfolding gm'_def by (rule groupable_Cons [of item c gm g, OF ns c])
      moreover have "grouped gm' items = grouped gm (item # items)"
        unfolding gm'_def by (rule grouped_Cons [of item c gm g, OF ns c])
      moreover note Cons.IH [of gm']
      ultimately show ?thesis by (simp del: group_metadata.simps)
    next
      case False
      with ns have "\<not> groupable gm (item # items)" by (auto simp: groupable_def)
      with False group_metadata_step [OF ns, of gm items] show ?thesis
        by (auto split: option.splits)
    qed
  qed
qed

section \<open>Properties\<close>

text \<open>C29: \<open>group_metadata\<close> succeeds exactly when no two items are equal (nor already in a group) and
  every item belongs to a crate that has a group; it then adds to every group precisely the items of
  its crate and changes nothing else, and otherwise returns an error.\<close>

theorem group_metadata_spec:
  "group_metadata gm items = Inr gm' \<longleftrightarrow> groupable gm items \<and> gm' = grouped gm items"
  using group_metadata_ok [of gm items] by (cases "groupable gm items") auto

end
