(* ===== verification/RustBuffer.thy ===== *)
theory RustBuffer
  imports Prelude
begin

text \<open>
  \<open>uniffi_core/src/ffi/rustbuffer.rs\<close> and \<open>foreignbytes.rs\<close>: buffers that cross the FFI as raw
  parts of a \<open>Vec<u8>\<close>.

  Memory is explicit: the heap maps the address of an allocated block to its bytes, so that a leak, a
  double free or a use of freed memory is visible.  An operation returns a value and the new heap
  (\<open>Done\<close>), panics (\<open>Panic\<close>, with the payload if it is a string and the heap after unwinding) or does something that Rust leaves
  undefined (\<open>Undefined\<close>: the raw parts given to \<open>Vec::from_raw_parts\<close> are not those of a live
  block).  \<open>usize\<close> has 64 bits.  Of the allocator only what the standard library documents is used:
  a fresh block overlaps no other one, a capacity above \<open>isize::MAX\<close> panics, and \<open>reserve\<close> makes room
  for at least what is asked (the parameter \<open>grow\<close>, under \<open>grow_ok\<close>).
\<close>

section \<open>Heap and vectors\<close>

record Heap =
  blocks :: "nat \<Rightarrow> bytes option"
  next_addr :: nat

datatype 'a outcome = Done 'a Heap | Panic "string option" Heap | Undefined

type_synonym 'a mem = "Heap \<Rightarrow> 'a outcome"

definition mbind :: "'a mem \<Rightarrow> ('a \<Rightarrow> 'b mem) \<Rightarrow> 'b mem" where
  "mbind m k = (\<lambda>h. case m h of Done a h' \<Rightarrow> k a h' | Panic p h' \<Rightarrow> Panic p h' | Undefined \<Rightarrow> Undefined)"

definition mret :: "'a \<Rightarrow> 'a mem" where
  "mret a = (\<lambda>h. Done a h)"

definition mpanic :: "string \<Rightarrow> 'a mem" where
  "mpanic msg = (\<lambda>h. Panic (Some msg) h)"

definition ISIZE_MAX :: nat where
  "ISIZE_MAX = 2 ^ 63 - 1"

text \<open>The raw parts of a \<open>Vec<u8>\<close>.  An empty vector owns no block; its pointer dangles and is not
  null.\<close>

record RawVec =
  vec_ptr :: nat
  vec_len :: nat
  vec_cap :: nat

definition dangling :: nat where
  "dangling = 1"

definition vec_new :: RawVec where
  "vec_new = \<lparr>vec_ptr = dangling, vec_len = 0, vec_cap = 0\<rparr>"

text \<open>A vector holding \<open>bs\<close>, with \<open>cap\<close> bytes allocated.\<close>

definition vec_alloc :: "bytes \<Rightarrow> nat \<Rightarrow> RawVec mem" where
  "vec_alloc bs cap h =
     (if cap = 0 then Done vec_new h
      else if ISIZE_MAX < cap then mpanic ''capacity overflow'' h
      else Done \<lparr>vec_ptr = next_addr h, vec_len = length bs, vec_cap = cap\<rparr>
             \<lparr>blocks = (blocks h)(next_addr h \<mapsto> bs @ replicate (cap - length bs) 0),
              next_addr = next_addr h + 1\<rparr>)"

text \<open>A vector's block is live.\<close>

definition vec_live :: "Heap \<Rightarrow> RawVec \<Rightarrow> bool" where
  "vec_live h v \<longleftrightarrow>
     (case blocks h (vec_ptr v) of Some blk \<Rightarrow> length blk = vec_cap v | None \<Rightarrow> False)"

definition vec_drop :: "RawVec \<Rightarrow> unit mem" where
  "vec_drop v h =
     (if vec_cap v = 0 then Done () h
      else if vec_live h v then Done () (h\<lparr>blocks := (blocks h)(vec_ptr v := None)\<rparr>)
      else Undefined)"

definition vec_contents :: "RawVec \<Rightarrow> bytes mem" where
  "vec_contents v h =
     (if vec_cap v = 0 then Done [] h
      else case blocks h (vec_ptr v) of
        Some blk \<Rightarrow> if length blk = vec_cap v then Done (take (vec_len v) blk) h else Undefined
      | None \<Rightarrow> Undefined)"

text \<open>\<open>Vec::reserve\<close>: nothing if there is room, else a larger block with the same contents.  A
  capacity that is too large panics, and the vector is dropped as the panic unwinds.\<close>

definition vec_reserve :: "(nat \<Rightarrow> nat \<Rightarrow> nat \<Rightarrow> nat) \<Rightarrow> nat \<Rightarrow> RawVec \<Rightarrow> RawVec mem" where
  "vec_reserve grow additional v =
     (if additional \<le> vec_cap v - vec_len v then mret v
      else mbind (vec_contents v) (\<lambda>bs.
        let cap = grow (vec_cap v) (vec_len v) additional
        in if ISIZE_MAX < cap then mbind (vec_drop v) (\<lambda>_. mpanic ''capacity overflow'')
           else mbind (vec_drop v) (\<lambda>_. vec_alloc bs cap)))"

definition grow_ok :: "(nat \<Rightarrow> nat \<Rightarrow> nat \<Rightarrow> nat) \<Rightarrow> bool" where
  "grow_ok grow \<longleftrightarrow> (\<forall>cap len additional. len + additional \<le> grow cap len additional)"

section \<open>\<open>RustBuffer\<close>\<close>

record RustBuffer =
  rb_capacity :: u64
  rb_len :: u64
  rb_data :: nat

definition null :: nat where
  "null = 0"

definition from_raw_parts :: "nat \<Rightarrow> u64 \<Rightarrow> u64 \<Rightarrow> RustBuffer" where
  "from_raw_parts data len capacity = \<lparr>rb_capacity = capacity, rb_len = len, rb_data = data\<rparr>"

definition from_vec :: "RawVec \<Rightarrow> RustBuffer" where
  "from_vec v = from_raw_parts (vec_ptr v) (word_of_nat (vec_len v)) (word_of_nat (vec_cap v))"

definition rb_new :: RustBuffer where
  "rb_new = from_vec vec_new"

definition rb_len_usize :: "RustBuffer \<Rightarrow> nat" where
  "rb_len_usize b = unat (rb_len b)"

definition rb_capacity_usize :: "RustBuffer \<Rightarrow> nat" where
  "rb_capacity_usize b = unat (rb_capacity b)"

definition rb_is_empty :: "RustBuffer \<Rightarrow> bool" where
  "rb_is_empty b \<longleftrightarrow> rb_len b = 0"

definition new_with_size :: "u64 \<Rightarrow> RustBuffer mem" where
  "new_with_size sz = mbind (vec_alloc (replicate (unat sz) 0) (unat sz)) (\<lambda>v. mret (from_vec v))"

definition destroy_into_vec :: "RustBuffer \<Rightarrow> RawVec mem" where
  "destroy_into_vec b =
     (if rb_data b = null then
        if rb_capacity b = 0 then
          if rb_len b = 0 then mret vec_new else mpanic ''null RustBuffer had non-zero length''
        else mpanic ''null RustBuffer had non-zero capacity''
      else
        let capacity = unat (rb_capacity b); len = unat (rb_len b)
        in if len \<le> capacity
           then mret \<lparr>vec_ptr = rb_data b, vec_len = len, vec_cap = capacity\<rparr>
           else mpanic ''RustBuffer length exceeds capacity'')"

definition destroy :: "RustBuffer \<Rightarrow> unit mem" where
  "destroy b = mbind (destroy_into_vec b) vec_drop"

section \<open>\<open>ForeignBytes\<close>\<close>

text \<open>A view of foreign memory: \<open>fb_data\<close> is \<open>None\<close> for a null pointer, else the bytes it points
  to, and \<open>fb_len\<close> the signed length.\<close>

record ForeignBytes =
  fb_len :: u32
  fb_data :: "bytes option"

definition fb_len_usize :: "ForeignBytes \<Rightarrow> nat option" where
  "fb_len_usize b = (if sint (fb_len b) < 0 then None else Some (nat (sint (fb_len b))))"

definition as_slice :: "ForeignBytes \<Rightarrow> bytes mem" where
  "as_slice b =
     (case fb_data b of
        None \<Rightarrow> if fb_len b = 0 then mret [] else mpanic ''null ForeignBytes had non-zero length''
      | Some bs \<Rightarrow> (case fb_len_usize b of
          None \<Rightarrow> mpanic ''bytes length negative or overflowed: TryFromIntError(())''
        | Some n \<Rightarrow> if n \<le> length bs then mret (take n bs) else (\<lambda>h. Undefined)))"

section \<open>The bodies of the FFI functions\<close>

definition alloc_body :: "u64 \<Rightarrow> RustBuffer mem" where
  "alloc_body sz = new_with_size sz"

definition from_bytes_body :: "ForeignBytes \<Rightarrow> RustBuffer mem" where
  "from_bytes_body b =
     mbind (as_slice b) (\<lambda>bs. mbind (vec_alloc bs (length bs)) (\<lambda>v. mret (from_vec v)))"

definition free_body :: "RustBuffer \<Rightarrow> unit mem" where
  "free_body b = destroy b"

definition reserve_body :: "(nat \<Rightarrow> nat \<Rightarrow> nat \<Rightarrow> nat) \<Rightarrow> RustBuffer \<Rightarrow> u64 \<Rightarrow> RustBuffer mem" where
  "reserve_body grow b additional =
     mbind (destroy_into_vec b) (\<lambda>v. mbind (vec_reserve grow (unat additional) v) (\<lambda>v'.
       mret (from_vec v')))"

section \<open>What a buffer has to satisfy\<close>

text \<open>The documented invariants: the foreign side holds either an empty buffer (null or not) or the
  raw parts of a live block.\<close>

definition valid_buffer :: "Heap \<Rightarrow> RustBuffer \<Rightarrow> bool" where
  "valid_buffer h b \<longleftrightarrow>
     (if rb_capacity b = 0 then rb_len b = 0
      else rb_data b \<noteq> null \<and> rb_len b \<le> rb_capacity b \<and>
        (\<exists>blk. blocks h (rb_data b) = Some blk \<and> length blk = unat (rb_capacity b)))"

definition buffer_contents :: "Heap \<Rightarrow> RustBuffer \<Rightarrow> bytes" where
  "buffer_contents h b =
     (if rb_capacity b = 0 then []
      else case blocks h (rb_data b) of Some blk \<Rightarrow> take (unat (rb_len b)) blk | None \<Rightarrow> [])"

text \<open>Blocks are where the allocator has put them: below \<open>next_addr\<close>, not at the null or the dangling
  address.\<close>

definition heap_ok :: "Heap \<Rightarrow> bool" where
  "heap_ok h \<longleftrightarrow>
     dangling < next_addr h \<and>
     (\<forall>a blk. blocks h a = Some blk \<longrightarrow> dangling < a \<and> a < next_addr h \<and> length blk \<le> ISIZE_MAX)"

definition release :: "RustBuffer \<Rightarrow> Heap \<Rightarrow> Heap" where
  "release b h = (if rb_capacity b = 0 then h else h\<lparr>blocks := (blocks h)(rb_data b := None)\<rparr>)"

lemma valid_nonnull: "valid_buffer h b \<Longrightarrow> rb_data b = null \<Longrightarrow> rb_capacity b = 0 \<and> rb_len b = 0"
  by (auto simp: valid_buffer_def split: if_splits)

lemma destroy_into_vec_valid:
  assumes "valid_buffer h b"
  shows "\<exists>v. destroy_into_vec b h = Done v h \<and> vec_len v = unat (rb_len b) \<and>
    vec_cap v = unat (rb_capacity b) \<and> (vec_cap v \<noteq> 0 \<longrightarrow> vec_ptr v = rb_data b \<and> vec_live h v)"
proof (cases "rb_data b = null")
  case True
  with valid_nonnull [OF assms] show ?thesis
    by (simp add: destroy_into_vec_def mret_def vec_new_def)
next
  case False
  have "unat (rb_len b) \<le> unat (rb_capacity b)"
    using assms by (auto simp: valid_buffer_def word_le_nat_alt split: if_splits)
  with False assms show ?thesis
    by (auto simp: destroy_into_vec_def mret_def Let_def vec_live_def valid_buffer_def
        split: if_splits)
qed

lemma destroy_valid:
  assumes "valid_buffer h b"
  shows "destroy b h = Done () (release b h)"
proof -
  from destroy_into_vec_valid [OF assms] obtain v where v: "destroy_into_vec b h = Done v h"
    "vec_cap v = unat (rb_capacity b)" "vec_cap v \<noteq> 0 \<longrightarrow> vec_ptr v = rb_data b \<and> vec_live h v"
    by blast
  then show ?thesis
    by (auto simp: destroy_def mbind_def vec_drop_def release_def unat_eq_0)
qed

lemma destroy_freed:
  assumes "rb_capacity b \<noteq> 0" "rb_len b \<le> rb_capacity b" "rb_data b \<noteq> null" "blocks h (rb_data b) = None"
  shows "destroy b h = Undefined"
  using assms
  by (simp add: destroy_def mbind_def destroy_into_vec_def Let_def mret_def vec_drop_def vec_live_def
      word_le_nat_alt unat_eq_0)

lemma vec_alloc_valid:
  assumes "heap_ok h" "length bs \<le> cap" "cap \<le> ISIZE_MAX"
  shows "\<exists>v h'. vec_alloc bs cap h = Done v h' \<and> heap_ok h' \<and> valid_buffer h' (from_vec v) \<and>
    buffer_contents h' (from_vec v) = bs \<and> unat (rb_capacity (from_vec v)) = cap \<and>
    release (from_vec v) h' = h\<lparr>next_addr := next_addr h'\<rparr> \<and>
    (\<forall>a. blocks h a \<noteq> None \<longrightarrow> blocks h' a = blocks h a \<and> a \<noteq> rb_data (from_vec v))"
proof (cases "cap = 0")
  case True
  with assms show ?thesis
    by (auto simp: vec_alloc_def from_vec_def vec_new_def from_raw_parts_def valid_buffer_def
        buffer_contents_def release_def heap_ok_def dangling_def)
next
  case False
  have c: "unat (word_of_nat cap :: u64) = cap" "unat (word_of_nat (length bs) :: u64) = length bs"
    using assms by (simp_all add: unat_of_nat ISIZE_MAX_def)
  with False have nz: "(word_of_nat cap :: u64) \<noteq> 0" by (metis unat_0)
  have "blocks h (next_addr h) = None"
    using assms(1) by (auto simp: heap_ok_def) (metis less_irrefl not_None_eq)
  then have upd: "(blocks h)(next_addr h := None) = blocks h" by auto
  show ?thesis
    using assms False c nz \<open>blocks h (next_addr h) = None\<close> upd
    by (auto simp: vec_alloc_def from_vec_def from_raw_parts_def valid_buffer_def
        buffer_contents_def release_def heap_ok_def dangling_def null_def word_le_nat_alt
        intro: less_SucI)
qed

section \<open>What the foreign side may do with a buffer\<close>

text \<open>The two operations that the documentation allows: write within the capacity, and set the
  length to at most the capacity.\<close>

inductive foreign_step :: "RustBuffer \<times> Heap \<Rightarrow> RustBuffer \<times> Heap \<Rightarrow> bool" where
  write_byte: "rb_capacity b \<noteq> 0 \<Longrightarrow> i < unat (rb_capacity b) \<Longrightarrow> blocks h (rb_data b) = Some blk \<Longrightarrow>
     foreign_step (b, h) (b, h\<lparr>blocks := (blocks h)(rb_data b \<mapsto> blk[i := x])\<rparr>)"
| set_len: "n \<le> rb_capacity b \<Longrightarrow> foreign_step (b, h) (b\<lparr>rb_len := n\<rparr>, h)"

inductive_cases foreign_stepE [elim!]: "foreign_step (b, h) s"

lemma foreign_step_invariant:
  assumes "foreign_step (b, h) (b', h')" "valid_buffer h b" "heap_ok h"
  shows "valid_buffer h' b' \<and> heap_ok h' \<and> rb_capacity b' = rb_capacity b \<and> rb_data b' = rb_data b \<and>
    release b' h' = release b h"
  using assms(1)
proof cases
  case (write_byte i blk x)
  then have "length blk = unat (rb_capacity b)" "rb_data b \<noteq> null" "rb_len b \<le> rb_capacity b"
    using assms(2) by (auto simp: valid_buffer_def)
  moreover have "length blk \<le> ISIZE_MAX"
    using assms(3) write_byte unfolding heap_ok_def by blast
  ultimately have c: "unat (rb_capacity b) \<le> ISIZE_MAX" by metis
  show ?thesis using write_byte assms(2,3)
    by (simp add: valid_buffer_def heap_ok_def release_def c)
next
  case (set_len n)
  with assms(2,3) show ?thesis
    by (auto simp: valid_buffer_def heap_ok_def release_def split: if_splits)
qed

lemma foreign_steps_invariant:
  assumes "foreign_step\<^sup>*\<^sup>* (b, h) (b', h')" "valid_buffer h b" "heap_ok h"
  shows "valid_buffer h' b' \<and> heap_ok h' \<and> rb_capacity b' = rb_capacity b \<and> rb_data b' = rb_data b \<and>
    release b' h' = release b h"
  using assms
proof (induction "(b', h')" arbitrary: b' h' rule: rtranclp_induct)
  case (step y)
  obtain b1 h1 where y: "y = (b1, h1)" by (cases y)
  from step.hyps(3) [OF y step.prems] step.hyps(2) foreign_step_invariant [of b1 h1 b' h'] y
  show ?case by auto
qed simp

lemma vec_reserve_valid:
  assumes "heap_ok h" "valid_buffer h b" "grow_ok grow" "destroy_into_vec b h = Done v h"
    and v: "vec_len v = unat (rb_len b)" "vec_cap v = unat (rb_capacity b)"
      "vec_cap v \<noteq> 0 \<longrightarrow> vec_ptr v = rb_data b \<and> vec_live h v"
    and fits: "grow (unat (rb_capacity b)) (unat (rb_len b)) n \<le> ISIZE_MAX"
  shows "\<exists>v' h'. vec_reserve grow n v h = Done v' h' \<and> heap_ok h' \<and> valid_buffer h' (from_vec v') \<and>
    buffer_contents h' (from_vec v') = buffer_contents h b \<and>
    unat (rb_len b) + n \<le> unat (rb_capacity (from_vec v'))"
proof (cases "n \<le> vec_cap v - vec_len v")
  case True
  have le: "unat (rb_len b) \<le> unat (rb_capacity b)"
    using assms(2) by (auto simp: valid_buffer_def word_le_nat_alt split: if_splits)
  have fv: "rb_len (from_vec v) = rb_len b" "rb_capacity (from_vec v) = rb_capacity b"
    using v by (simp_all add: from_vec_def from_raw_parts_def)
  have ptr: "rb_capacity b \<noteq> 0 \<longrightarrow> rb_data (from_vec v) = rb_data b"
    using v by (auto simp: from_vec_def from_raw_parts_def unat_eq_0)
  have "valid_buffer h (from_vec v)" "buffer_contents h (from_vec v) = buffer_contents h b"
    using assms(2) fv ptr by (auto simp: valid_buffer_def buffer_contents_def)
  with True assms(1) v le fv show ?thesis by (simp add: vec_reserve_def mret_def)
next
  case False
  define h1 where "h1 = release b h"
  have h1: "heap_ok h1" using assms(1) by (auto simp: h1_def release_def heap_ok_def)
  have len: "length (buffer_contents h b) = unat (rb_len b)"
    using assms(2) by (auto simp: buffer_contents_def valid_buffer_def word_le_nat_alt split: if_splits)
  have drop: "vec_drop v h = Done () h1"
    using v by (auto simp: vec_drop_def h1_def release_def unat_eq_0)
  have con: "vec_contents v h = Done (buffer_contents h b) h"
    using v by (auto simp: vec_contents_def buffer_contents_def unat_eq_0 vec_live_def split: option.splits)
  let ?cap = "grow (unat (rb_capacity b)) (unat (rb_len b)) n"
  have cap: "unat (rb_len b) + n \<le> ?cap" using assms(3) by (simp add: grow_ok_def)
  with len have "length (buffer_contents h b) \<le> ?cap" by simp
  from vec_alloc_valid [OF h1 this fits] obtain v' h' where
    "vec_alloc (buffer_contents h b) ?cap h1 = Done v' h'" "heap_ok h'" "valid_buffer h' (from_vec v')"
    "buffer_contents h' (from_vec v') = buffer_contents h b"
    "unat (rb_capacity (from_vec v')) = ?cap"
    by blast
  with False con drop v fits cap show ?thesis
    by (simp add: vec_reserve_def mbind_def Let_def)
qed

section \<open>Properties\<close>

definition empty_heap :: Heap where
  "empty_heap = \<lparr>blocks = Map.empty, next_addr = 2\<rparr>"

text \<open>C16: a buffer that Rust has allocated, and that the foreign side has used only as documented
  (writing within the capacity, setting the length to at most the capacity), can be destroyed: no
  panic, no undefined behaviour, and the block is given back, with every other block as it was.\<close>

theorem alloc_use_destroy:
  assumes "heap_ok h" and "new_with_size sz h = Done b h1" and "foreign_step\<^sup>*\<^sup>* (b, h1) (b', h2)"
  shows "destroy b' h2 = Done () (h\<lparr>next_addr := next_addr h1\<rparr>)"
proof (cases "unat sz \<le> ISIZE_MAX")
  case True
  have "length (replicate (unat sz) (0::u8)) \<le> unat sz" by simp
  from vec_alloc_valid [OF assms(1) this True]
  obtain v h' where v: "vec_alloc (replicate (unat sz) 0) (unat sz) h = Done v h'" "heap_ok h'"
    "valid_buffer h' (from_vec v)" "release (from_vec v) h' = h\<lparr>next_addr := next_addr h'\<rparr>"
    by blast
  with assms(2) have b: "b = from_vec v" "h1 = h'"
    by (auto simp: new_with_size_def mbind_def mret_def)
  with foreign_steps_invariant [OF assms(3)] v
  have "valid_buffer h2 b'" "release b' h2 = release b h1" by auto
  with destroy_valid [of h2 b'] v b show ?thesis by simp
next
  case False
  then have "unat sz \<noteq> 0" by (simp add: ISIZE_MAX_def)
  with False assms(2) show ?thesis by (simp add: new_with_size_def mbind_def vec_alloc_def mpanic_def)
qed

theorem alloc_use_destroy_witness:
  "\<exists>b h1 b' h2. new_with_size 3 empty_heap = Done b h1 \<and> foreign_step\<^sup>*\<^sup>* (b, h1) (b', h2) \<and>
     blocks h2 2 = Some [0, 7, 0] \<and> destroy b' h2 = Done () \<lparr>blocks = Map.empty, next_addr = 3\<rparr>"
proof -
  define b where "b = \<lparr>rb_capacity = 3, rb_len = 3, rb_data = 2\<rparr>"
  define h1 where "h1 = \<lparr>blocks = [2 \<mapsto> [0, 0, 0]], next_addr = 3\<rparr>"
  define h2 where "h2 = \<lparr>blocks = [2 \<mapsto> [0, 7, 0]], next_addr = 3\<rparr>"
  have ok: "heap_ok empty_heap" by (simp add: heap_ok_def empty_heap_def dangling_def)
  have n: "unat (3::u64) = 3" by simp
  have r: "replicate 3 (0::u8) = [0, 0, 0]"
    by (simp add: numeral_eq_Suc)
  have a: "new_with_size 3 empty_heap = Done b h1"
    unfolding new_with_size_def n r
    by (simp add: mbind_def vec_alloc_def ISIZE_MAX_def from_vec_def mret_def
        from_raw_parts_def b_def h1_def empty_heap_def)
  have "foreign_step (b, h1) (b, h1\<lparr>blocks := (blocks h1)(rb_data b \<mapsto> [0, 0, 0][1 := 7])\<rparr>)"
    by (rule write_byte) (simp_all add: b_def h1_def)
  then have s: "foreign_step\<^sup>*\<^sup>* (b, h1) (b, h2)"
    by (simp add: h1_def h2_def b_def r_into_rtranclp)
  from alloc_use_destroy [OF ok a s] have "destroy b h2 = Done () \<lparr>blocks = Map.empty, next_addr = 3\<rparr>"
    by (simp add: h1_def empty_heap_def)
  moreover have "blocks h2 2 = Some [0, 7, 0]" by (simp add: h2_def)
  ultimately show ?thesis using a s by blast
qed

text \<open>Freeing a buffer with an allocation a second time is undefined behaviour, as the
  documentation warns: after the first \<open>destroy\<close> the block is gone.\<close>

theorem double_free_undefined:
  assumes "valid_buffer h b" and "rb_capacity b \<noteq> 0"
  shows "mbind (destroy b) (\<lambda>_. destroy b) h = Undefined"
  using destroy_valid [OF assms(1)] destroy_freed [of b "release b h"] assms
  by (simp add: mbind_def valid_buffer_def release_def)

theorem double_free_undefined_witness:
  "mbind (destroy \<lparr>rb_capacity = 1, rb_len = 0, rb_data = 2\<rparr>)
     (\<lambda>_. destroy \<lparr>rb_capacity = 1, rb_len = 0, rb_data = 2\<rparr>)
     \<lparr>blocks = [2 \<mapsto> [0]], next_addr = 3\<rparr> = Undefined"
  by (rule double_free_undefined) (simp_all add: valid_buffer_def null_def)

text \<open>\<open>reserve\<close> keeps the contents of a valid buffer and makes room for the bytes asked for,
  as long as the new capacity does not exceed \<open>isize::MAX\<close>.\<close>

theorem reserve_keeps_contents:
  assumes "heap_ok h" and "valid_buffer h b" and "grow_ok grow"
    and "grow (unat (rb_capacity b)) (unat (rb_len b)) (unat additional) \<le> ISIZE_MAX"
  shows "\<exists>b' h'. reserve_body grow b additional h = Done b' h' \<and> valid_buffer h' b' \<and>
    buffer_contents h' b' = buffer_contents h b \<and>
    unat (rb_len b) + unat additional \<le> unat (rb_capacity b')"
proof -
  from destroy_into_vec_valid [OF assms(2)] obtain v where v: "destroy_into_vec b h = Done v h"
    "vec_len v = unat (rb_len b)" "vec_cap v = unat (rb_capacity b)"
    "vec_cap v \<noteq> 0 \<longrightarrow> vec_ptr v = rb_data b \<and> vec_live h v"
    by blast
  from vec_reserve_valid [OF assms(1-3) v assms(4)] v(1) show ?thesis
    by (fastforce simp: reserve_body_def mbind_def mret_def)
qed

theorem reserve_keeps_contents_witness:
  "\<exists>b' h'. reserve_body (\<lambda>cap len additional. max (2 * cap) (len + additional))
     \<lparr>rb_capacity = 2, rb_len = 1, rb_data = 2\<rparr> 3 \<lparr>blocks = [2 \<mapsto> [9, 0]], next_addr = 3\<rparr> = Done b' h' \<and>
     valid_buffer h' b' \<and> buffer_contents h' b' = [9] \<and> 4 \<le> unat (rb_capacity b')"
proof -
  define h where "h = \<lparr>blocks = [2 \<mapsto> [9, 0]], next_addr = 3\<rparr>"
  define b where "b = \<lparr>rb_capacity = 2, rb_len = 1, rb_data = 2\<rparr>"
  have ok: "heap_ok h" "valid_buffer h b"
    "grow_ok (\<lambda>cap len additional. max (2 * cap) (len + additional))"
    "max (2 * unat (rb_capacity b)) (unat (rb_len b) + unat (3 :: u64)) \<le> ISIZE_MAX"
    by (simp_all add: h_def b_def heap_ok_def valid_buffer_def grow_ok_def dangling_def null_def
        ISIZE_MAX_def word_le_nat_alt)
  from reserve_keeps_contents [OF ok] show ?thesis
    by (simp add: b_def h_def buffer_contents_def)
qed

end
