(* ===== verification/RustCall.thy ===== *)
theory RustCall
  imports RustBuffer
begin

text \<open>
  \<open>uniffi_core/src/ffi/rustcalls.rs\<close>: how a call from the foreign side into Rust reports an error
  or a panic, and the four buffer functions of \<open>ffi/rustbuffer.rs\<close> that are called this way.

  The closure that \<open>rust_call\<close> runs is a computation on the heap (\<open>mem\<close>) returning
  \<open>Result<R, RustCallError>\<close>.  \<open>cap_of n\<close> is the capacity of a \<open>Vec<u8>\<close> that \<open>n\<close> bytes have been
  written into; the standard library promises \<open>n \<le> cap_of n\<close> (\<open>capacity_ok\<close>) and nothing more.
\<close>

section \<open>Status and errors\<close>

datatype RustCallStatusCode = Success | Error | UnexpectedError | Cancelled

definition code_value :: "RustCallStatusCode \<Rightarrow> u8" where
  "code_value c = (case c of Success \<Rightarrow> 0 | Error \<Rightarrow> 1 | UnexpectedError \<Rightarrow> 2 | Cancelled \<Rightarrow> 3)"

definition code_try_from :: "u8 \<Rightarrow> u8 + RustCallStatusCode" where
  "code_try_from n =
     (if n = 0 then Inr Success
      else if n = 1 then Inr Error
      else if n = 2 then Inr UnexpectedError
      else if n = 3 then Inr Cancelled
      else Inl n)"

record RustCallStatus =
  status_code :: RustCallStatusCode
  error_buf :: RustBuffer

definition default_status :: RustCallStatus where
  "default_status = \<lparr>status_code = Success, error_buf = rb_new\<rparr>"

definition status_cancelled :: RustCallStatus where
  "status_cancelled = \<lparr>status_code = Cancelled, error_buf = rb_new\<rparr>"

datatype RustCallError = CallError RustBuffer | InternalError string

record 'e LiftArgsError =
  lae_arg_name :: string
  lae_error :: 'e

definition to_internal_error :: "('e \<Rightarrow> string) \<Rightarrow> 'e LiftArgsError \<Rightarrow> RustCallError" where
  "to_internal_error debug e =
     InternalError (''Failed to convert arg '' @ [CHR 0x27] @ lae_arg_name e @ [CHR 0x27] @ '':'' @ [CHR 0x0A]
       @ debug (lae_error e))"

section \<open>Lowering a string\<close>

definition capacity_ok :: "(nat \<Rightarrow> nat) \<Rightarrow> bool" where
  "capacity_ok cap_of \<longleftrightarrow> (\<forall>n. n \<le> cap_of n)"

text \<open>A vector that \<open>bs\<close> has been written into, handed out as a buffer.\<close>

definition buffer_of_bytes :: "(nat \<Rightarrow> nat) \<Rightarrow> bytes \<Rightarrow> RustBuffer mem" where
  "buffer_of_bytes cap_of bs =
     mbind (vec_alloc bs (cap_of (length bs))) (\<lambda>v. mret (from_vec v))"

definition lower_string :: "(nat \<Rightarrow> nat) \<Rightarrow> string \<Rightarrow> RustBuffer mem" where
  "lower_string cap_of s = buffer_of_bytes cap_of (as_bytes s)"

definition status_error :: "(nat \<Rightarrow> nat) \<Rightarrow> string \<Rightarrow> RustCallStatus mem" where
  "status_error cap_of msg =
     mbind (lower_string cap_of msg) (\<lambda>b. mret \<lparr>status_code = UnexpectedError, error_buf = b\<rparr>)"

section \<open>Calls\<close>

text \<open>The payload of a panic is usually a string; otherwise a fixed text is reported.\<close>

definition panic_message :: "string option \<Rightarrow> string" where
  "panic_message payload = (case payload of Some s \<Rightarrow> s | None \<Rightarrow> ''Unknown panic!'')"

definition rust_call_with_out_status ::
  "(nat \<Rightarrow> nat) \<Rightarrow> RustCallStatus \<Rightarrow> (RustCallError + 'r) mem \<Rightarrow> ('r option \<times> RustCallStatus) mem" where
  "rust_call_with_out_status cap_of out_status callback h =
     (case callback h of
        Done r h' \<Rightarrow> (case r of
          Inr v \<Rightarrow> mret (Some v, out_status) h'
        | Inl (CallError buf) \<Rightarrow>
            mret (None, out_status\<lparr>status_code := Error, error_buf := buf\<rparr>) h'
        | Inl (InternalError msg) \<Rightarrow>
            mbind (lower_string cap_of msg) (\<lambda>buf.
              mret (None, out_status\<lparr>status_code := UnexpectedError, error_buf := buf\<rparr>)) h')
      | Panic cause h' \<Rightarrow> (case lower_string cap_of (panic_message cause) h' of
          Done buf h'' \<Rightarrow>
            Done (None, out_status\<lparr>status_code := UnexpectedError, error_buf := buf\<rparr>) h''
        | Panic _ h'' \<Rightarrow> Done (None, out_status\<lparr>status_code := UnexpectedError\<rparr>) h''
        | Undefined \<Rightarrow> Undefined)
      | Undefined \<Rightarrow> Undefined)"

definition rust_call ::
  "(nat \<Rightarrow> nat) \<Rightarrow> 'r \<Rightarrow> RustCallStatus \<Rightarrow> (RustCallError + 'r) mem \<Rightarrow> ('r \<times> RustCallStatus) mem" where
  "rust_call cap_of ffi_default out_status callback =
     mbind (rust_call_with_out_status cap_of out_status callback) (\<lambda>(r, st).
       mret (case r of Some v \<Rightarrow> v | None \<Rightarrow> ffi_default, st))"

definition try_rust_call ::
  "(nat \<Rightarrow> nat) \<Rightarrow> (RustCallError + 'r) mem \<Rightarrow> (RustCallStatus + 'r) mem" where
  "try_rust_call cap_of callback =
     mbind (rust_call_with_out_status cap_of default_status callback) (\<lambda>(r, st).
       mret (case r of Some v \<Rightarrow> Inr v | None \<Rightarrow> Inl st))"

section \<open>The buffer functions\<close>

definition ffi_default_buffer :: RustBuffer where
  "ffi_default_buffer = from_raw_parts null 0 0"

definition succeed :: "'a mem \<Rightarrow> (RustCallError + 'a) mem" where
  "succeed m = mbind m (\<lambda>a. mret (Inr a))"

definition uniffi_rustbuffer_alloc ::
  "(nat \<Rightarrow> nat) \<Rightarrow> u64 \<Rightarrow> RustCallStatus \<Rightarrow> (RustBuffer \<times> RustCallStatus) mem" where
  "uniffi_rustbuffer_alloc cap_of sz call_status =
     rust_call cap_of ffi_default_buffer call_status (succeed (alloc_body sz))"

definition uniffi_rustbuffer_from_bytes ::
  "(nat \<Rightarrow> nat) \<Rightarrow> ForeignBytes \<Rightarrow> RustCallStatus \<Rightarrow> (RustBuffer \<times> RustCallStatus) mem" where
  "uniffi_rustbuffer_from_bytes cap_of b call_status =
     rust_call cap_of ffi_default_buffer call_status (succeed (from_bytes_body b))"

definition uniffi_rustbuffer_free ::
  "(nat \<Rightarrow> nat) \<Rightarrow> RustBuffer \<Rightarrow> RustCallStatus \<Rightarrow> (unit \<times> RustCallStatus) mem" where
  "uniffi_rustbuffer_free cap_of buf call_status =
     rust_call cap_of () call_status (succeed (free_body buf))"

definition uniffi_rustbuffer_reserve ::
  "(nat \<Rightarrow> nat) \<Rightarrow> (nat \<Rightarrow> nat \<Rightarrow> nat \<Rightarrow> nat) \<Rightarrow> RustBuffer \<Rightarrow> u64 \<Rightarrow> RustCallStatus \<Rightarrow>
     (RustBuffer \<times> RustCallStatus) mem" where
  "uniffi_rustbuffer_reserve cap_of grow buf additional call_status =
     rust_call cap_of ffi_default_buffer call_status (succeed (reserve_body grow buf additional))"

section \<open>Lemmas\<close>

lemma code_roundtrip: "code_try_from (code_value c) = Inr c"
  by (cases c) (simp_all add: code_try_from_def code_value_def)

lemma code_try_from_Inr: "code_try_from n = Inr c \<Longrightarrow> code_value c = n"
  by (auto simp: code_try_from_def code_value_def split: if_splits)

lemmas mem_defs = mbind_def mret_def mpanic_def

lemma buffer_of_bytes_valid:
  assumes "heap_ok h" "capacity_ok cap_of" "cap_of (length bs) \<le> ISIZE_MAX"
  shows "\<exists>b h'. buffer_of_bytes cap_of bs h = Done b h' \<and> heap_ok h' \<and> valid_buffer h' b \<and>
    buffer_contents h' b = bs \<and> release b h' = h\<lparr>next_addr := next_addr h'\<rparr> \<and>
    (\<forall>a. blocks h a \<noteq> None \<longrightarrow> blocks h' a = blocks h a \<and> a \<noteq> rb_data b)"
proof -
  have "length bs \<le> cap_of (length bs)" using assms(2) by (simp add: capacity_ok_def)
  from vec_alloc_valid [OF assms(1) this assms(3)] show ?thesis
    by (auto simp: buffer_of_bytes_def mbind_def mret_def)
qed

lemma buffer_of_bytes_not_Undefined: "buffer_of_bytes cap_of bs h \<noteq> Undefined"
  by (simp add: buffer_of_bytes_def vec_alloc_def mem_defs)

lemma lower_string_valid:
  assumes "heap_ok h" "capacity_ok cap_of" "cap_of (length s) \<le> ISIZE_MAX"
  shows "\<exists>b h'. lower_string cap_of s h = Done b h' \<and> heap_ok h' \<and> valid_buffer h' b \<and>
    buffer_contents h' b = as_bytes s"
  using buffer_of_bytes_valid [OF assms(1,2), of "as_bytes s"] assms(3)
  by (auto simp: lower_string_def)

lemma rust_call_Ok:
  "callback h = Done (Inr v) h' \<Longrightarrow> rust_call cap_of d st callback h = Done (v, st) h'"
  by (simp add: rust_call_def rust_call_with_out_status_def mem_defs)

lemma rust_call_Panic:
  assumes "callback h = Panic cause h1" "lower_string cap_of (panic_message cause) h1 = Done buf h2"
  shows "rust_call cap_of d st callback h =
    Done (d, st\<lparr>status_code := UnexpectedError, error_buf := buf\<rparr>) h2"
  using assms by (simp add: rust_call_def rust_call_with_out_status_def mem_defs)

lemma rust_call_InternalError:
  assumes "callback h = Done (Inl (InternalError msg)) h1" "lower_string cap_of msg h1 = Done buf h2"
  shows "rust_call cap_of d st callback h =
    Done (d, st\<lparr>status_code := UnexpectedError, error_buf := buf\<rparr>) h2"
  using assms by (simp add: rust_call_def rust_call_with_out_status_def mem_defs)

lemma succeed_simps:
  "m h = Done a h' \<Longrightarrow> succeed m h = Done (Inr a) h'"
  "m h = Panic p h' \<Longrightarrow> succeed m h = Panic p h'"
  "succeed m h = Done r h' \<longleftrightarrow> (\<exists>a. r = Inr a \<and> m h = Done a h')"
  by (auto simp: succeed_def mem_defs split: outcome.splits)

section \<open>Properties\<close>

text \<open>C9: a call from a fresh status reports exactly what happened.  The status is still
  \<open>Success\<close> if and only if the closure returned \<open>Ok\<close>, and then the value is the closure's; it is
  \<open>Error\<close> if and only if the closure returned the error value, and then the buffer is that error's;
  in every other case (an internal error or a panic) it is \<open>UnexpectedError\<close>, and it is never
  \<open>Cancelled\<close>.\<close>

theorem rust_call_status_exact:
  assumes "rust_call_with_out_status cap_of default_status callback h = Done (r, st) h'"
  shows "(status_code st = Success \<longleftrightarrow> r \<noteq> None) \<and>
    (\<forall>v. r = Some v \<longleftrightarrow> callback h = Done (Inr v) h' \<and> st = default_status) \<and>
    (\<forall>buf. callback h = Done (Inl (CallError buf)) h' \<longleftrightarrow> status_code st = Error \<and> error_buf st = buf) \<and>
    status_code st \<noteq> Cancelled"
proof -
  have eq: "rust_call_with_out_status cap_of default_status callback h =
    (case callback h of
        Done r h' \<Rightarrow> (case r of
          Inr v \<Rightarrow> Done (Some v, default_status) h'
        | Inl (CallError buf) \<Rightarrow> Done (None, \<lparr>status_code = Error, error_buf = buf\<rparr>) h'
        | Inl (InternalError msg) \<Rightarrow> (case lower_string cap_of msg h' of
            Done buf h'' \<Rightarrow> Done (None, \<lparr>status_code = UnexpectedError, error_buf = buf\<rparr>) h''
          | Panic p h'' \<Rightarrow> Panic p h'' | Undefined \<Rightarrow> Undefined))
      | Panic cause h' \<Rightarrow> (case lower_string cap_of (panic_message cause) h' of
          Done buf h'' \<Rightarrow> Done (None, \<lparr>status_code = UnexpectedError, error_buf = buf\<rparr>) h''
        | Panic _ h'' \<Rightarrow> Done (None, \<lparr>status_code = UnexpectedError, error_buf = rb_new\<rparr>) h''
        | Undefined \<Rightarrow> Undefined)
      | Undefined \<Rightarrow> Undefined)"
    by (simp add: rust_call_with_out_status_def default_status_def mem_defs
        split: outcome.split sum.split RustCallError.split)
  show ?thesis
    using assms unfolding eq
    by (auto simp: default_status_def split: outcome.splits sum.splits RustCallError.splits)
qed

theorem rust_call_status_exact_witness:
  "status_code (snd (case rust_call_with_out_status id default_status
     ((\<lambda>h. Done (Inl (CallError rb_new)) h) :: (RustCallError + nat) mem) empty_heap of
       Done rs h \<Rightarrow> rs | _ \<Rightarrow> (None, status_cancelled))) = Error"
proof -
  let ?cb = "(\<lambda>h. Done (Inl (CallError rb_new)) h) :: (RustCallError + nat) mem"
  have run: "rust_call_with_out_status id default_status ?cb empty_heap =
    Done (None, default_status\<lparr>status_code := Error, error_buf := rb_new\<rparr>) empty_heap"
    by (simp add: rust_call_with_out_status_def mem_defs)
  from rust_call_status_exact [OF run] run show ?thesis by auto
qed

text \<open>A panic never crosses the FFI.  Whatever the closure does, short of undefined behaviour,
  \<open>rust_call\<close> returns; the only way for it to panic is an internal error whose message is so long
  that lowering it exhausts the address space.\<close>

theorem rust_call_catches_panics:
  assumes "callback h \<noteq> Undefined"
    and "\<forall>msg h'. callback h = Done (Inl (InternalError msg)) h' \<longrightarrow> cap_of (length msg) \<le> ISIZE_MAX"
  shows "\<exists>v st h'. rust_call cap_of ffi_default out_status callback h = Done (v, st) h'"
proof -
  have low: "\<exists>b h''. lower_string cap_of msg h' = Done b h''" if "cap_of (length msg) \<le> ISIZE_MAX" for msg h'
    using that by (simp add: lower_string_def buffer_of_bytes_def vec_alloc_def mem_defs)
  have nu: "lower_string cap_of msg h' \<noteq> Undefined" for msg h'
    by (simp add: lower_string_def buffer_of_bytes_not_Undefined)
  show ?thesis
  proof (cases "callback h")
    case (Done r h')
    show ?thesis
    proof (cases "\<exists>msg. r = Inl (InternalError msg)")
      case True
      then obtain msg where r: "r = Inl (InternalError msg)" ..
      with Done assms(2) have "cap_of (length msg) \<le> ISIZE_MAX" by simp
      from low [OF this, of h'] obtain b h'' where "lower_string cap_of msg h' = Done b h''" by blast
      with Done r show ?thesis
        by (simp add: rust_call_def rust_call_with_out_status_def mem_defs)
    next
      case False
      with Done show ?thesis
        by (auto simp: rust_call_def rust_call_with_out_status_def mem_defs
            split: sum.split RustCallError.split)
    qed
  next
    case (Panic cause h')
    with nu [of "panic_message cause" h'] show ?thesis
      by (auto simp: rust_call_def rust_call_with_out_status_def mem_defs split: outcome.split)
  next
    case Undefined
    with assms(1) show ?thesis by simp
  qed
qed

theorem rust_call_catches_panics_witness:
  "\<exists>v st h'. rust_call id (7::nat) default_status (\<lambda>h. Panic None h) empty_heap = Done (v, st) h'"
  by (rule rust_call_catches_panics) simp_all

text \<open>A buffer whose length exceeds its capacity, handed to \<open>uniffi_rustbuffer_free\<close> by foreign
  code, is refused: nothing is freed, and the status carries the message.\<close>

theorem free_invalid_reported:
  assumes "heap_ok h" and "capacity_ok cap_of" and "cap_of 34 \<le> ISIZE_MAX"
    and "rb_data b \<noteq> null" and "rb_capacity b < rb_len b"
  shows "\<exists>st' h'. uniffi_rustbuffer_free cap_of b st h = Done ((), st') h' \<and>
    status_code st' = UnexpectedError \<and>
    buffer_contents h' (error_buf st') = as_bytes ''RustBuffer length exceeds capacity'' \<and>
    (\<forall>a. blocks h a \<noteq> None \<longrightarrow> blocks h' a = blocks h a)"
proof -
  let ?msg = "''RustBuffer length exceeds capacity''"
  have body: "succeed (free_body b) h = Panic (Some ?msg) h"
    using assms(4,5)
    by (simp add: succeed_def free_body_def destroy_def destroy_into_vec_def Let_def mem_defs
        word_less_nat_alt)
  have "length (as_bytes ?msg) = 34" by simp
  with buffer_of_bytes_valid [OF assms(1,2), of "as_bytes ?msg"] assms(3)
  obtain buf h' where low: "lower_string cap_of ?msg h = Done buf h'"
    and c: "buffer_contents h' buf = as_bytes ?msg"
    and keep: "\<forall>a. blocks h a \<noteq> None \<longrightarrow> blocks h' a = blocks h a \<and> a \<noteq> rb_data buf"
    unfolding lower_string_def by metis
  have "uniffi_rustbuffer_free cap_of b st h =
    Done ((), st\<lparr>status_code := UnexpectedError, error_buf := buf\<rparr>) h'"
    unfolding uniffi_rustbuffer_free_def
    by (rule rust_call_Panic [where callback = "succeed (free_body b)" and h = h, OF body]) (simp add: panic_message_def low)
  with c keep show ?thesis by auto
qed

theorem free_invalid_reported_witness:
  "\<exists>st' h'. uniffi_rustbuffer_free id \<lparr>rb_capacity = 1, rb_len = 2, rb_data = 5\<rparr> default_status empty_heap
     = Done ((), st') h' \<and> status_code st' = UnexpectedError \<and>
     buffer_contents h' (error_buf st') = as_bytes ''RustBuffer length exceeds capacity'' \<and>
     (\<forall>a. blocks empty_heap a \<noteq> None \<longrightarrow> blocks h' a = blocks empty_heap a)"
  by (rule free_invalid_reported)
     (simp_all add: heap_ok_def empty_heap_def dangling_def capacity_ok_def ISIZE_MAX_def null_def)

end
