(* ===== verification/FfiConverter.thy ===== *)
theory FfiConverter
  imports RustCall
begin

text \<open>
  How values cross the FFI in a buffer: the built-in converters of
  \<open>uniffi_core/src/ffi_converter_impls.rs\<close>, the provided methods of the traits in
  \<open>ffi_converter_traits.rs\<close>, \<open>check_remaining\<close> of \<open>lib.rs\<close>, and the converters that the macros derive for
  records, enums and flat errors (\<open>uniffi_macros/src/record.rs\<close>, \<open>enum_.rs\<close>, \<open>error.rs\<close>).

  A writer appends to the buffer or panics (the error of the writer is the panic's message).  A
  reader consumes a prefix of the bytes, returns an error or panics (\<open>LiftPanic\<close>).  The contract
  between the two is the locale \<open>codec\<close>: reading what was written gives the value back and leaves the
  rest of the buffer; a composite converter satisfies it when its parts do.

  A float is its bits, a \<open>SystemTime\<close> is a number of nanoseconds relative to the Unix epoch in the range
  of the standard library's Unix implementation.
\<close>

section \<open>Errors, readers and writers\<close>

datatype LiftError =
    NotEnoughBytes nat nat
  | UnexpectedBool
  | UnexpectedOptionTag
  | NegativeLength
  | InvalidUtf8
  | InvalidEnumValue string u32
  | JunkData nat
  | CannotBeRead
  | LiftPanic string

type_synonym 'a writer = "'a \<Rightarrow> (bytes, string, unit) reader"
type_synonym 'a lift_reader = "(bytes, LiftError, 'a) reader"

definition put :: "bytes \<Rightarrow> (bytes, string, unit) reader" where
  "put bs = (\<lambda>buf. Inr ((), buf @ bs))"

definition check_remaining :: "nat \<Rightarrow> unit lift_reader" where
  "check_remaining num_bytes = (\<lambda>buf.
     if length buf < num_bytes then Inl (NotEnoughBytes (length buf) num_bytes) else Inr ((), buf))"

text \<open>\<open>Buf::get_u8\<close>, \<open>get_i32\<close> and so on: the next bytes as a big-endian integer; they panic if there
  are not enough.\<close>

definition get_word :: "'a::len word lift_reader" where
  "get_word = (\<lambda>buf. let n = LENGTH('a) div 8 in
     if length buf < n then Inl (LiftPanic ''advance out of bounds'')
     else Inr (word_of_nat (be_value (take n buf)), drop n buf))"

definition put_word :: "'a::len word writer" where
  "put_word v = put (be_bytes (LENGTH('a) div 8) (unat v))"

section \<open>Numbers, booleans, strings\<close>

definition num_lower :: "'a::len word \<Rightarrow> 'a word" where
  "num_lower obj = obj"

definition num_try_lift :: "'a::len word \<Rightarrow> LiftError + 'a word" where
  "num_try_lift v = Inr v"

definition num_write :: "'a::len word writer" where
  "num_write obj = put_word obj"

definition num_try_read :: "'a::len word lift_reader" where
  "num_try_read = rbind (check_remaining (LENGTH('a) div 8)) (\<lambda>_. get_word)"

definition bool_lower :: "bool \<Rightarrow> u8" where
  "bool_lower obj = (if obj then 1 else 0)"

definition bool_try_lift :: "u8 \<Rightarrow> LiftError + bool" where
  "bool_try_lift v = (if v = 0 then Inr False else if v = 1 then Inr True else Inl UnexpectedBool)"

definition from_result :: "'e + 'a \<Rightarrow> ('s, 'e, 'a) reader" where
  "from_result r = (case r of Inl e \<Rightarrow> rfail e | Inr a \<Rightarrow> rret a)"

definition bool_write :: "bool writer" where
  "bool_write obj = put_word (bool_lower obj)"

definition bool_try_read :: "bool lift_reader" where
  "bool_try_read =
     rbind (check_remaining 1) (\<lambda>_. rbind get_word (\<lambda>v. from_result (bool_try_lift v)))"

definition I32_MAX :: nat where
  "I32_MAX = 2 ^ 31 - 1"

text \<open>\<open>i32::try_from(len).unwrap()\<close>, then \<open>put_i32\<close>.\<close>

definition put_len :: "nat \<Rightarrow> (bytes, string, unit) reader" where
  "put_len n =
     (if n \<le> I32_MAX then put_word (word_of_nat n :: u32)
      else rfail (''called `Result::unwrap()` on an `Err` value: TryFromIntError(())''))"

text \<open>\<open>usize::try_from(buf.get_i32())?\<close>, after \<open>check_remaining(buf, 4)\<close>.\<close>

definition get_len :: "nat lift_reader" where
  "get_len = rbind (check_remaining 4) (\<lambda>_. rbind get_word (\<lambda>v :: u32.
     if sint v < 0 then rfail NegativeLength else rret (nat (sint v))))"

definition string_write :: "string writer" where
  "string_write obj = rbind (put_len (length (as_bytes obj))) (\<lambda>_. put (as_bytes obj))"

definition string_try_read :: "string lift_reader" where
  "string_try_read = rbind get_len (\<lambda>len. rbind (check_remaining len) (\<lambda>_. \<lambda>buf.
     case from_utf8 (take len buf) of
       None \<Rightarrow> Inl InvalidUtf8
     | Some res \<Rightarrow> Inr (res, drop len buf)))"

section \<open>Times\<close>

definition NANOS_PER_SEC :: nat where
  "NANOS_PER_SEC = 10 ^ 9"

record Duration =
  as_secs :: u64
  subsec_nanos :: u32

definition duration_ok :: "Duration \<Rightarrow> bool" where
  "duration_ok d \<longleftrightarrow> unat (subsec_nanos d) < NANOS_PER_SEC"

text \<open>\<open>Duration::new\<close> carries whole seconds out of the nanoseconds and panics on overflow.\<close>

definition duration_new :: "u64 \<Rightarrow> u32 \<Rightarrow> Duration lift_reader" where
  "duration_new secs nanos =
     (let total = unat secs + unat nanos div NANOS_PER_SEC
      in if total < 2 ^ 64
         then rret \<lparr>as_secs = word_of_nat total,
                     subsec_nanos = word_of_nat (unat nanos mod NANOS_PER_SEC)\<rparr>
         else rfail (LiftPanic ''overflow in Duration::new''))"

definition duration_write :: "Duration writer" where
  "duration_write obj =
     rbind (put_word (as_secs obj)) (\<lambda>_. put_word (subsec_nanos obj))"

definition duration_try_read :: "Duration lift_reader" where
  "duration_try_read = rbind (check_remaining 12) (\<lambda>_.
     rbind get_word (\<lambda>secs. rbind get_word (\<lambda>nanos. duration_new secs nanos)))"

type_synonym SystemTime = int

definition system_time_ok :: "SystemTime \<Rightarrow> bool" where
  "system_time_ok t \<longleftrightarrow> - (2 ^ 63) * int NANOS_PER_SEC \<le> t \<and> t < 2 ^ 63 * int NANOS_PER_SEC"

definition duration_nanos :: "Duration \<Rightarrow> nat" where
  "duration_nanos d = unat (as_secs d) * NANOS_PER_SEC + unat (subsec_nanos d)"

text \<open>\<open>UNIX_EPOCH + d\<close> and \<open>UNIX_EPOCH - d\<close>: they panic outside the range of \<open>SystemTime\<close>.\<close>

definition epoch_plus :: "Duration \<Rightarrow> SystemTime lift_reader" where
  "epoch_plus d = (let t = int (duration_nanos d)
     in if system_time_ok t then rret t
        else rfail (LiftPanic ''overflow when adding duration to instant''))"

definition epoch_minus :: "Duration \<Rightarrow> SystemTime lift_reader" where
  "epoch_minus d = (let t = - int (duration_nanos d)
     in if system_time_ok t then rret t
        else rfail (LiftPanic ''overflow when subtracting duration from instant''))"

definition system_time_write :: "SystemTime writer" where
  "system_time_write obj =
     (let sign = (if 0 \<le> obj then 1 else - 1) :: int;
          epoch_offset = nat \<bar>obj\<bar>;
          secs = epoch_offset div NANOS_PER_SEC
      in if secs < 2 ^ 63
         then rbind (put_word (word_of_int (sign * int secs) :: u64)) (\<lambda>_.
                put_word (word_of_nat (epoch_offset mod NANOS_PER_SEC) :: u32))
         else rfail ''SystemTime overflow, seconds greater than i64::MAX: TryFromIntError(())'')"

text \<open>\<open>i64::wrapping_abs\<close>: the least value is its own absolute value.\<close>

definition wrapping_abs :: "u64 \<Rightarrow> u64" where
  "wrapping_abs v = (if sint v < 0 then - v else v)"

definition system_time_try_read :: "SystemTime lift_reader" where
  "system_time_try_read = rbind (check_remaining 12) (\<lambda>_.
     rbind get_word (\<lambda>seconds. rbind get_word (\<lambda>nanos.
     rbind (duration_new (wrapping_abs seconds) nanos) (\<lambda>epoch_offset.
       if 0 \<le> sint seconds then epoch_plus epoch_offset else epoch_minus epoch_offset))))"

section \<open>Composite values\<close>

definition option_write :: "'a writer \<Rightarrow> 'a option writer" where
  "option_write w obj =
     (case obj of
        None \<Rightarrow> put_word (0 :: u8)
      | Some v \<Rightarrow> rbind (put_word (1 :: u8)) (\<lambda>_. w v))"

definition option_try_read :: "'a lift_reader \<Rightarrow> 'a option lift_reader" where
  "option_try_read r = rbind (check_remaining 1) (\<lambda>_. rbind get_word (\<lambda>tag :: u8.
     if tag = 0 then rret None
     else if tag = 1 then rbind r (\<lambda>v. rret (Some v))
     else rfail UnexpectedOptionTag))"

fun write_all :: "'a writer \<Rightarrow> 'a list writer" where
  "write_all w [] = rret ()"
| "write_all w (x # xs) = rbind (w x) (\<lambda>_. write_all w xs)"

definition vec_write :: "'a writer \<Rightarrow> 'a list writer" where
  "vec_write w obj = rbind (put_len (length obj)) (\<lambda>_. write_all w obj)"

text \<open>\<open>Vec::with_capacity\<close>, \<open>HashMap::with_capacity\<close> and \<open>HashSet::with_capacity\<close> reserve the memory for all
  elements before the first one is read, and panic when its size does not fit an \<open>isize\<close>.  Which lengths
  fit depends on the size of the elements and on the layout of the collection: \<open>fits\<close>.  That the
  allocator has the memory is assumed here, as in the model of the heap.\<close>

definition with_capacity :: "(nat \<Rightarrow> bool) \<Rightarrow> nat \<Rightarrow> unit lift_reader" where
  "with_capacity fits len = (if fits len then rret () else rfail (LiftPanic ''capacity overflow''))"

definition vec_try_read :: "(nat \<Rightarrow> bool) \<Rightarrow> 'a lift_reader \<Rightarrow> 'a list lift_reader" where
  "vec_try_read fits r = rbind get_len (\<lambda>len. rbind (with_capacity fits len) (\<lambda>_. rtimes len r))"

text \<open>What fits for a \<open>Vec\<close> of elements of a given size.\<close>

definition vec_fits :: "nat \<Rightarrow> nat \<Rightarrow> bool" where
  "vec_fits elem_size len \<longleftrightarrow> elem_size * len \<le> ISIZE_MAX"

text \<open>A hash map or set is written in the order in which it iterates, which is not specified:
  the writers take the entries in that order.  Reading inserts one by one.\<close>

definition entry_write :: "'k writer \<Rightarrow> 'v writer \<Rightarrow> ('k \<times> 'v) writer" where
  "entry_write wk wv entry = rbind (wk (fst entry)) (\<lambda>_. wv (snd entry))"

definition entry_try_read :: "'k lift_reader \<Rightarrow> 'v lift_reader \<Rightarrow> ('k \<times> 'v) lift_reader" where
  "entry_try_read rk rv = rbind rk (\<lambda>k. rbind rv (\<lambda>v. rret (k, v)))"

definition hash_map_write :: "'k writer \<Rightarrow> 'v writer \<Rightarrow> ('k \<times> 'v) list writer" where
  "hash_map_write wk wv entries =
     rbind (put_len (length entries)) (\<lambda>_. write_all (entry_write wk wv) entries)"

fun read_entries ::
  "'k lift_reader \<Rightarrow> 'v lift_reader \<Rightarrow> nat \<Rightarrow> ('k \<Rightarrow> 'v option) \<Rightarrow> ('k \<Rightarrow> 'v option) lift_reader" where
  "read_entries rk rv 0 m = rret m"
| "read_entries rk rv (Suc n) m =
     rbind (entry_try_read rk rv) (\<lambda>(k, v). read_entries rk rv n (m(k \<mapsto> v)))"

definition hash_map_try_read ::
  "(nat \<Rightarrow> bool) \<Rightarrow> 'k lift_reader \<Rightarrow> 'v lift_reader \<Rightarrow> ('k \<Rightarrow> 'v option) lift_reader" where
  "hash_map_try_read fits rk rv =
     rbind get_len (\<lambda>len. rbind (with_capacity fits len) (\<lambda>_. read_entries rk rv len Map.empty))"

definition hash_set_write :: "'a writer \<Rightarrow> 'a list writer" where
  "hash_set_write w items = rbind (put_len (length items)) (\<lambda>_. write_all w items)"

fun read_items :: "'a lift_reader \<Rightarrow> nat \<Rightarrow> 'a set \<Rightarrow> 'a set lift_reader" where
  "read_items r 0 s = rret s"
| "read_items r (Suc n) s = rbind r (\<lambda>x. read_items r n (insert x s))"

definition hash_set_try_read :: "(nat \<Rightarrow> bool) \<Rightarrow> 'a lift_reader \<Rightarrow> 'a set lift_reader" where
  "hash_set_try_read fits r =
     rbind get_len (\<lambda>len. rbind (with_capacity fits len) (\<lambda>_. read_items r len {}))"

section \<open>Derived converters\<close>

text \<open>A field type's \<open>write\<close>, \<open>try_read\<close> and the values that can be written, over a type \<open>'v\<close> of field
  values.\<close>

record 'v converter =
  conv_write :: "'v writer"
  conv_try_read :: "'v lift_reader"
  conv_ok :: "'v \<Rightarrow> bool"

fun write_fields :: "'v converter list \<Rightarrow> 'v list writer" where
  "write_fields (c # cs) (v # vs) = rbind (conv_write c v) (\<lambda>_. write_fields cs vs)"
| "write_fields _ _ = rret ()"

fun try_read_fields :: "'v converter list \<Rightarrow> 'v list lift_reader" where
  "try_read_fields [] = rret []"
| "try_read_fields (c # cs) =
     rbind (conv_try_read c) (\<lambda>v. rbind (try_read_fields cs) (\<lambda>vs. rret (v # vs)))"

definition record_write :: "'v converter list \<Rightarrow> 'v list writer" where
  "record_write cs obj = write_fields cs obj"

definition record_try_read :: "'v converter list \<Rightarrow> 'v list lift_reader" where
  "record_try_read cs = try_read_fields cs"

text \<open>A variant is its position in the declaration with its fields.  On the wire the position counts
  from one.  A value of a non-exhaustive enum may be of a variant that the macro does not know.\<close>

definition enum_write :: "'v converter list list \<Rightarrow> (nat \<times> 'v list) writer" where
  "enum_write variants obj =
     (case obj of (i, vs) \<Rightarrow>
        if i < length variants
        then rbind (put_word (word_of_nat (i + 1) :: u32)) (\<lambda>_. write_fields (variants ! i) vs)
        else rfail ''Unexpected variant in non-exhaustive enum'')"

definition variant_arm :: "nat \<Rightarrow> u32 \<Rightarrow> nat option" where
  "variant_arm n v =
     (if 1 \<le> sint v \<and> sint v \<le> int n then Some (nat (sint v) - 1) else None)"

definition enum_try_read :: "string \<Rightarrow> 'v converter list list \<Rightarrow> (nat \<times> 'v list) lift_reader" where
  "enum_try_read name variants = rbind (check_remaining 4) (\<lambda>_. rbind get_word (\<lambda>v.
     case variant_arm (length variants) v of
       Some i \<Rightarrow> rbind (try_read_fields (variants ! i)) (\<lambda>vs. rret (i, vs))
     | None \<Rightarrow> rfail (InvalidEnumValue name v)))"

text \<open>A flat error is sent as its variant and its message, and read as its variant alone (when the
  error asks for a reader at all).\<close>

definition flat_error_write :: "nat \<Rightarrow> (nat \<Rightarrow> string) \<Rightarrow> nat writer" where
  "flat_error_write n to_string i =
     (let error_msg = to_string i
      in if i < n
         then rbind (put_word (word_of_nat (i + 1) :: u32)) (\<lambda>_. string_write error_msg)
         else rfail ''Unexpected variant in non-exhaustive enum'')"

definition flat_error_try_read :: "bool \<Rightarrow> nat \<Rightarrow> nat lift_reader" where
  "flat_error_try_read generate_try_read n =
     (if generate_try_read then
        rbind get_word (\<lambda>v. case variant_arm n v of
            Some i \<Rightarrow> rret i
          | None \<Rightarrow> rfail (InvalidEnumValue ''#ident'' v))
      else rfail (LiftPanic ''Can't lift flat errors''))"

section \<open>Buffers\<close>

definition lower_into_rust_buffer :: "(nat \<Rightarrow> nat) \<Rightarrow> 'a writer \<Rightarrow> 'a \<Rightarrow> RustBuffer mem" where
  "lower_into_rust_buffer cap_of w obj =
     (case w obj [] of
        Inl msg \<Rightarrow> mpanic msg
      | Inr (_, buf) \<Rightarrow> buffer_of_bytes cap_of buf)"

text \<open>The vector is dropped whether the value is read, an error is returned or the reader panics.\<close>

definition try_lift_from_rust_buffer :: "'a lift_reader \<Rightarrow> RustBuffer \<Rightarrow> (LiftError + 'a) mem" where
  "try_lift_from_rust_buffer r b =
     mbind (destroy_into_vec b) (\<lambda>vec. mbind (vec_contents vec) (\<lambda>bs. mbind (vec_drop vec) (\<lambda>_.
       case r bs of
         Inl (LiftPanic msg) \<Rightarrow> mpanic msg
       | Inl e \<Rightarrow> mret (Inl e)
       | Inr (value, rest) \<Rightarrow>
           if length rest = 0 then mret (Inr value) else mret (Inl (JunkData (length rest))))))"

text \<open>\<open>String::from_utf8_unchecked\<close> takes the vector over as it is; bytes that are not UTF-8 are undefined
  behaviour.  The string is a value here, so its block counts as released.\<close>

definition string_try_lift :: "RustBuffer \<Rightarrow> (LiftError + string) mem" where
  "string_try_lift b =
     mbind (destroy_into_vec b) (\<lambda>vec. mbind (vec_contents vec) (\<lambda>bs. mbind (vec_drop vec) (\<lambda>_.
       if utf8_valid bs then mret (Inr (string_of_bytes bs)) else (\<lambda>h. Undefined))))"

section \<open>The contract of a converter\<close>

text \<open>\<open>encoded w r a bs\<close>: writing \<open>a\<close> appends \<open>bs\<close>, and reading consumes exactly those bytes and gives \<open>a\<close>.\<close>

definition writes :: "'a writer \<Rightarrow> 'a \<Rightarrow> bytes \<Rightarrow> bool" where
  "writes w a bs \<longleftrightarrow> (\<forall>buf. w a buf = Inr ((), buf @ bs))"

definition reads :: "'a lift_reader \<Rightarrow> bytes \<Rightarrow> 'a \<Rightarrow> bool" where
  "reads r bs a \<longleftrightarrow> (\<forall>rest. r (bs @ rest) = Inr (a, rest))"

definition encoded :: "'a writer \<Rightarrow> 'a lift_reader \<Rightarrow> 'a \<Rightarrow> bytes \<Rightarrow> bool" where
  "encoded w r a bs \<longleftrightarrow> writes w a bs \<and> reads r bs a"

locale codec =
  fixes w :: "'a writer" and r :: "'a lift_reader" and ok :: "'a \<Rightarrow> bool"
  assumes round_trip: "ok a \<Longrightarrow> \<exists>bs. encoded w r a bs"
begin

lemma encodedE:
  assumes "ok a"
  obtains bs where "\<And>buf. w a buf = Inr ((), buf @ bs)" "\<And>rest. r (bs @ rest) = Inr (a, rest)"
  using round_trip [OF assms] by (auto simp: encoded_def writes_def reads_def)

lemma write_appends:
  "ok a \<Longrightarrow> w a buf = Inr ((), buf') \<Longrightarrow> \<exists>bs. buf' = buf @ bs \<and> r bs = Inr (a, [])"
  by (erule encodedE, rule exI) (use append_Nil2 in \<open>auto, metis append_Nil2\<close>)

lemma read_back: "ok a \<Longrightarrow> w a [] = Inr ((), bs) \<Longrightarrow> r (bs @ rest) = Inr (a, rest)"
  by (erule encodedE) auto

text \<open>No encoding is a prefix of another, so values can be written one after the other.\<close>

lemma prefix_free:
  assumes "ok a" "ok b" "w a [] = Inr ((), xs)" "w b [] = Inr ((), xs @ ys)"
  shows "a = b \<and> ys = []"
  using read_back [OF assms(1,3), of ys] read_back [OF assms(2,4), of "[]"] by simp

end

lemma writes_put [intro]: "writes (\<lambda>a. put (f a)) a (f a)"
  by (simp add: writes_def put_def)

lemma writes_bind:
  "writes w1 a bs \<Longrightarrow> writes w2 b cs \<Longrightarrow> rbind (w1 a) (\<lambda>_. w2 b) buf = Inr ((), buf @ bs @ cs)"
  by (simp add: writes_def reader_apply)

lemma reads_bind:
  "reads r bs a \<Longrightarrow> reads (k a) cs b \<Longrightarrow> reads (rbind r k) (bs @ cs) b"
  by (simp add: reads_def reader_apply)

lemma reads_ret [simp]: "reads (rret a) bs b \<longleftrightarrow> bs = [] \<and> b = a"
  by (auto simp: reads_def reader_apply dest: spec [of _ "[]"])

lemma reads_map: "reads r bs a \<Longrightarrow> reads (rbind r (\<lambda>x. rret (f x))) bs (f a)"
  using reads_bind [of r bs a "\<lambda>x. rret (f x)" "[]"] by simp

section \<open>Every built-in converter keeps the contract\<close>

lemma reads_check: "n \<le> length bs \<Longrightarrow> reads (k ()) bs a \<Longrightarrow> reads (rbind (check_remaining n) k) bs a"
  by (simp add: reads_def check_remaining_def reader_apply)

lemma reads_with_capacity: "fits n \<Longrightarrow> reads (k ()) bs a \<Longrightarrow> reads (rbind (with_capacity fits n) k) bs a"
  by (simp add: reads_def with_capacity_def reader_apply)

lemma word_of_be_bytes:
  assumes "8 dvd LENGTH('a::len)"
  shows "word_of_nat (be_value (be_bytes (LENGTH('a) div 8) (unat (v :: 'a word)))) = v"
proof -
  have "(256 :: nat) ^ (LENGTH('a) div 8) = 2 ^ (8 * (LENGTH('a) div 8))"
    by (simp add: power_mult)
  also have "\<dots> = 2 ^ LENGTH('a)" using assms by simp
  finally show ?thesis
    by (simp add: be_value_be_bytes)
qed

lemma reads_get_word:
  assumes "8 dvd LENGTH('a::len)"
  shows "reads get_word (be_bytes (LENGTH('a) div 8) (unat (v :: 'a word))) v"
  using word_of_be_bytes [OF assms, of v] by (simp add: reads_def get_word_def)

lemma writes_put_word: "writes put_word (v :: 'a::len word) (be_bytes (LENGTH('a) div 8) (unat v))"
  by (simp add: writes_def put_word_def put_def)

lemma codec_num:
  assumes "8 dvd LENGTH('a::len)"
  shows "codec num_write num_try_read (\<lambda>_ :: 'a word. True)"
proof
  fix v :: "'a word"
  show "\<exists>bs. encoded num_write num_try_read v bs"
    using writes_put_word [of v] reads_get_word [OF assms, of v]
    by (auto simp: encoded_def num_write_def num_try_read_def writes_def intro!: reads_check)
qed

interpretation u8: codec num_write num_try_read "\<lambda>_ :: 8 word. True"
  by (rule codec_num) simp

interpretation u16: codec num_write num_try_read "\<lambda>_ :: 16 word. True"
  by (rule codec_num) simp

interpretation u32: codec num_write num_try_read "\<lambda>_ :: 32 word. True"
  by (rule codec_num) simp

interpretation u64: codec num_write num_try_read "\<lambda>_ :: 64 word. True"
  by (rule codec_num) simp

lemma writes_rbind: "writes w1 a bs \<Longrightarrow> (\<And>buf. m2 buf = Inr ((), buf @ cs)) \<Longrightarrow>
    rbind (w1 a) (\<lambda>_. m2) buf = Inr ((), buf @ bs @ cs)"
  by (simp add: writes_def reader_apply)

lemma codec_bool: "codec bool_write bool_try_read (\<lambda>_. True)"
proof
  fix b :: bool
  have "reads (rbind get_word (\<lambda>v. from_result (bool_try_lift v)))
      (be_bytes (LENGTH(8) div 8) (unat (bool_lower b)) @ []) b"
    by (rule reads_bind [OF reads_get_word])
      (simp_all add: from_result_def bool_try_lift_def bool_lower_def)
  then have "reads bool_try_read (be_bytes (LENGTH(8) div 8) (unat (bool_lower b))) b"
    unfolding bool_try_read_def by (intro reads_check) simp_all
  then show "\<exists>bs. encoded bool_write bool_try_read b bs"
    using writes_put_word [of "bool_lower b"]
    by (auto simp: encoded_def bool_write_def writes_def)
qed

interpretation bool: codec bool_write bool_try_read "\<lambda>_. True"
  by (rule codec_bool)

subsection \<open>Lengths and strings\<close>

abbreviation len_bytes :: "nat \<Rightarrow> bytes" where
  "len_bytes n \<equiv> be_bytes 4 n"

lemma sint_of_small:
  assumes "- (2 ^ (LENGTH('a::len) - 1)) \<le> k" "k < 2 ^ (LENGTH('a) - 1)"
  shows "sint (word_of_int k :: 'a word) = k"
  using assms by (subst signed_of_int) (simp add: signed_take_bit_int_eq_self)

lemma sint_i32: "n \<le> I32_MAX \<Longrightarrow> sint (word_of_nat n :: u32) = int n"
  using sint_of_small [where 'a = 32, of "int n"] by (simp add: I32_MAX_def)

lemma unat_i32: "n \<le> I32_MAX \<Longrightarrow> unat (word_of_nat n :: u32) = n"
  by (simp add: I32_MAX_def unat_of_nat)

lemma put_len_apply: "n \<le> I32_MAX \<Longrightarrow> put_len n buf = Inr ((), buf @ len_bytes n)"
  by (simp add: put_len_def put_word_def put_def unat_i32)

lemma reads_get_len:
  assumes "n \<le> I32_MAX"
  shows "reads get_len (len_bytes n) n"
proof -
  have "reads (rbind get_word (\<lambda>v :: u32. if sint v < 0 then rfail NegativeLength else rret (nat (sint v))))
      (be_bytes (LENGTH(32) div 8) (unat (word_of_nat n :: u32)) @ []) n"
    by (rule reads_bind [OF reads_get_word]) (simp_all add: sint_i32 [OF assms])
  then show ?thesis
    unfolding get_len_def by (intro reads_check) (simp_all add: unat_i32 [OF assms])
qed

lemma put_len_Inr: "put_len n buf = Inr ((), bs) \<Longrightarrow> n \<le> I32_MAX"
  by (auto simp: put_len_def split: if_splits)

definition string_ok :: "string \<Rightarrow> bool" where
  "string_ok s \<longleftrightarrow> rust_string s \<and> length s \<le> I32_MAX"

lemma codec_string: "codec string_write string_try_read string_ok"
proof
  fix s assume s: "string_ok s"
  then have len: "length s \<le> I32_MAX" and utf: "rust_string s" by (auto simp: string_ok_def)
  let ?bs = "len_bytes (length s) @ as_bytes s"
  have "writes string_write s ?bs"
    using len by (simp add: writes_def string_write_def reader_apply put_len_apply put_def)
  moreover have "reads string_try_read ?bs s"
    unfolding string_try_read_def
  proof (rule reads_bind [OF reads_get_len [OF len]], rule reads_check)
    show "length s \<le> length (as_bytes s)" by simp
    show "reads (\<lambda>buf. case from_utf8 (take (length s) buf) of None \<Rightarrow> Inl InvalidUtf8
        | Some res \<Rightarrow> Inr (res, drop (length s) buf)) (as_bytes s) s"
      using utf by (simp add: reads_def)
  qed
  ultimately show "\<exists>bs. encoded string_write string_try_read s bs"
    by (auto simp: encoded_def)
qed

interpretation str: codec string_write string_try_read string_ok
  by (rule codec_string)

subsection \<open>Times\<close>

lemma codec_duration: "codec duration_write duration_try_read duration_ok"
proof
  fix d assume d: "duration_ok d"
  let ?s = "be_bytes (LENGTH(64) div 8) (unat (as_secs d))"
  let ?n = "be_bytes (LENGTH(32) div 8) (unat (subsec_nanos d))"
  have "writes duration_write d (?s @ ?n)"
    by (simp add: writes_def duration_write_def reader_apply put_word_def put_def)
  moreover have new: "duration_new (as_secs d) (subsec_nanos d) = rret d"
    using d unsigned_less [of "as_secs d", where 'a = nat]
    by (cases d) (simp add: duration_new_def duration_ok_def Let_def)
  have "reads (rbind get_word (\<lambda>secs. rbind get_word (\<lambda>nanos. duration_new secs nanos))) (?s @ ?n @ []) d"
    by (rule reads_bind [OF reads_get_word] | simp add: new)+
  then have "reads duration_try_read (?s @ ?n) d"
    unfolding duration_try_read_def by (intro reads_check) simp_all
  ultimately show "\<exists>bs. encoded duration_write duration_try_read d bs"
    by (auto simp: encoded_def)
qed

interpretation duration: codec duration_write duration_try_read duration_ok
  by (rule codec_duration)

text \<open>A time survives if it is not within the last second before the epoch (there the sign of the
  seconds is lost), nor so early that its distance from the epoch overflows.\<close>

definition system_time_sent :: "SystemTime \<Rightarrow> bool" where
  "system_time_sent t \<longleftrightarrow>
     (0 \<le> t \<or> t \<le> - int NANOS_PER_SEC) \<and> \<bar>t\<bar> < 2 ^ 63 * int NANOS_PER_SEC"

lemma system_time_offset:
  assumes "\<bar>t\<bar> < 2 ^ 63 * int NANOS_PER_SEC"
  shows "nat \<bar>t\<bar> div NANOS_PER_SEC < 2 ^ 63"
proof -
  have "nat \<bar>t\<bar> < 2 ^ 63 * NANOS_PER_SEC" using assms by (simp add: NANOS_PER_SEC_def)
  then show ?thesis by (simp add: less_mult_imp_div_less)
qed

lemma wrapping_abs_sign:
  assumes "n < 2 ^ 63"
  shows "sint (word_of_int (int n) :: u64) = int n" "sint (word_of_int (- int n) :: u64) = - int n"
    "wrapping_abs (word_of_int (int n)) = word_of_nat n"
    "wrapping_abs (word_of_int (- int n)) = word_of_nat n"
proof -
  show p: "sint (word_of_int (int n) :: u64) = int n"
    using assms by (intro sint_of_small) auto
  show m: "sint (word_of_int (- int n) :: u64) = - int n"
    using assms by (intro sint_of_small) auto
  show "wrapping_abs (word_of_int (int n)) = word_of_nat n"
    using p by (simp add: wrapping_abs_def)
  show "wrapping_abs (word_of_int (- int n)) = word_of_nat n"
    using m by (auto simp: wrapping_abs_def)
qed

lemma duration_new_carried:
  "s < 2 ^ 63 \<Longrightarrow> n < NANOS_PER_SEC \<Longrightarrow>
    duration_new (word_of_nat s) (word_of_nat n) =
      rret \<lparr>as_secs = word_of_nat s, subsec_nanos = word_of_nat n\<rparr>"
  by (simp add: duration_new_def NANOS_PER_SEC_def unat_of_nat Let_def)

lemma duration_nanos_carried:
  "s < 2 ^ 63 \<Longrightarrow> n < NANOS_PER_SEC \<Longrightarrow>
    duration_nanos \<lparr>as_secs = word_of_nat s, subsec_nanos = word_of_nat n\<rparr> = s * NANOS_PER_SEC + n"
  by (simp add: duration_nanos_def NANOS_PER_SEC_def unat_of_nat)

lemma codec_system_time: "codec system_time_write system_time_try_read system_time_sent"
proof
  fix t assume t: "system_time_sent t"
  define s where "s = nat \<bar>t\<bar> div NANOS_PER_SEC"
  define n where "n = nat \<bar>t\<bar> mod NANOS_PER_SEC"
  define sg where "sg = (if 0 \<le> t then 1 else - 1 :: int)"
  have s: "s < 2 ^ 63" using t system_time_offset [of t] by (simp add: system_time_sent_def s_def)
  have n: "n < NANOS_PER_SEC" by (simp add: n_def NANOS_PER_SEC_def)
  have abs: "s * NANOS_PER_SEC + n = nat \<bar>t\<bar>" by (simp add: s_def n_def)
  define v where "v = (word_of_int (sg * int s) :: u64)"
  let ?s = "be_bytes (LENGTH(64) div 8) (unat v)"
  let ?n = "be_bytes (LENGTH(32) div 8) (unat (word_of_nat n :: u32))"
  have "writes system_time_write t (?s @ ?n)"
    using s by (simp add: writes_def system_time_write_def Let_def s_def n_def sg_def v_def reader_apply
        put_word_def put_def)
  moreover have pos: "0 \<le> sint v \<longleftrightarrow> 0 \<le> t"
  proof (cases "0 \<le> t")
    case True
    with wrapping_abs_sign(1) [OF s] show ?thesis by (simp add: sg_def v_def)
  next
    case False
    then have "nat \<bar>t\<bar> \<ge> NANOS_PER_SEC" using t by (auto simp: system_time_sent_def)
    then have "0 < s" by (simp add: s_def NANOS_PER_SEC_def div_greater_zero_iff)
    with False wrapping_abs_sign(2) [OF s] show ?thesis by (simp add: sg_def v_def)
  qed
  have wabs: "wrapping_abs v = word_of_nat s"
    using wrapping_abs_sign(3,4) [OF s] by (simp add: sg_def v_def)
  have ok: "system_time_ok t"
    using t by (auto simp: system_time_sent_def system_time_ok_def)
  have "rbind (duration_new (wrapping_abs v) (word_of_nat n)) (\<lambda>epoch_offset.
       if 0 \<le> sint v then epoch_plus epoch_offset else epoch_minus epoch_offset) = rret t"
    using ok abs
    by (auto simp: wabs pos duration_new_carried [OF s n] duration_nanos_carried [OF s n]
        epoch_plus_def epoch_minus_def Let_def reader_apply fun_eq_iff simp flip: of_nat_add)
  then have "reads (rbind get_word (\<lambda>seconds. rbind get_word (\<lambda>nanos.
     rbind (duration_new (wrapping_abs seconds) nanos) (\<lambda>epoch_offset.
       if 0 \<le> sint seconds then epoch_plus epoch_offset else epoch_minus epoch_offset)))) (?s @ ?n @ []) t"
    by (intro reads_bind [OF reads_get_word]) simp_all
  then have "reads system_time_try_read (?s @ ?n) t"
    unfolding system_time_try_read_def by (intro reads_check) simp_all
  ultimately show "\<exists>bs. encoded system_time_write system_time_try_read t bs"
    by (auto simp: encoded_def)
qed

interpretation system_time: codec system_time_write system_time_try_read system_time_sent
  by (rule codec_system_time)

subsection \<open>Composites\<close>

lemma writes_option: "writes w a bs \<Longrightarrow> writes (option_write w) (Some a) (1 # bs)"
  by (simp add: writes_def option_write_def reader_apply put_word_def put_def be_bytes_def)

definition list_encoded :: "'a writer \<Rightarrow> 'a lift_reader \<Rightarrow> 'a list \<Rightarrow> bytes \<Rightarrow> bool" where
  "list_encoded w r xs bs \<longleftrightarrow> writes (write_all w) xs bs \<and> reads (rtimes (length xs) r) bs xs"

context codec
begin

lemma option_codec: "codec (option_write w) (option_try_read r) (pred_option ok)"
proof
  fix x assume x: "pred_option ok x"
  show "\<exists>bs. encoded (option_write w) (option_try_read r) x bs"
  proof (cases x)
    case None
    have "encoded (option_write w) (option_try_read r) None [0]"
      by (simp add: encoded_def writes_def reads_def option_write_def option_try_read_def reader_apply
          put_word_def put_def check_remaining_def get_word_def be_bytes_def be_value_def)
    with None show ?thesis by blast
  next
    case (Some a)
    with x round_trip [of a] obtain bs where bs: "writes w a bs" "reads r bs a"
      by (auto simp: encoded_def)
    have "reads (option_try_read r) (1 # bs) (Some a)"
      using bs(2) by (simp add: reads_def option_try_read_def reader_apply check_remaining_def
          get_word_def be_value_def)
    with Some writes_option [OF bs(1)] show ?thesis by (auto simp: encoded_def)
  qed
qed

lemma all_codec: "list_all ok xs \<Longrightarrow> \<exists>bs. list_encoded w r xs bs"
proof (induction xs)
  case Nil
  show ?case by (auto simp: list_encoded_def writes_def reader_apply)
next
  case (Cons a xs)
  then obtain as bs where a: "writes w a as" "reads r as a"
    and xs: "writes (write_all w) xs bs" "reads (rtimes (length xs) r) bs xs"
    using round_trip [of a] by (auto simp: encoded_def list_encoded_def)
  have "writes (write_all w) (a # xs) (as @ bs)"
    using a(1) xs(1) by (simp add: writes_def reader_apply)
  moreover have "reads (rtimes (length (a # xs)) r) (as @ bs) (a # xs)"
    using a(2) xs(2) by (simp add: reads_def reader_apply)
  ultimately show ?case by (auto simp: list_encoded_def)
qed

lemma vec_codec:
  "codec (vec_write w) (vec_try_read fits r) (\<lambda>xs. list_all ok xs \<and> length xs \<le> I32_MAX \<and> fits (length xs))"
proof
  fix xs assume xs: "list_all ok xs \<and> length xs \<le> I32_MAX \<and> fits (length xs)"
  then obtain bs where bs: "writes (write_all w) xs bs" "reads (rtimes (length xs) r) bs xs"
    using all_codec [of xs] by (auto simp: list_encoded_def)
  have "writes (vec_write w) xs (len_bytes (length xs) @ bs)"
    using xs bs(1) by (simp add: writes_def vec_write_def reader_apply put_len_apply)
  moreover have "reads (vec_try_read fits r) (len_bytes (length xs) @ bs) xs"
    unfolding vec_try_read_def using xs bs(2)
    by (intro reads_bind [OF reads_get_len] reads_with_capacity) simp_all
  ultimately show "\<exists>bs. encoded (vec_write w) (vec_try_read fits r) xs bs"
    by (auto simp: encoded_def)
qed

lemma set_items:
  "list_all ok xs \<Longrightarrow> \<exists>bs. writes (write_all w) xs bs \<and> (\<forall>s. reads (read_items r (length xs) s) bs (set xs \<union> s))"
proof (induction xs)
  case Nil
  show ?case by (rule exI [of _ "[]"]) (simp add: writes_def reads_def rret_apply)
next
  case (Cons a xs)
  then obtain as bs where a: "writes w a as" "reads r as a"
    and xs: "writes (write_all w) xs bs" "\<forall>s. reads (read_items r (length xs) s) bs (set xs \<union> s)"
    using round_trip [of a] by (auto simp: encoded_def)
  have "writes (write_all w) (a # xs) (as @ bs)"
    using a(1) xs(1) by (simp add: writes_def reader_apply)
  moreover have "reads (read_items r (length (a # xs)) s) (as @ bs) (set (a # xs) \<union> s)" for s
    using a(2) xs(2) [rule_format, of "insert a s"] by (simp add: reads_def reader_apply)
  ultimately show ?case by blast
qed

lemma hash_set_codec:
  assumes "list_all ok xs" "length xs \<le> I32_MAX" "fits (length xs)"
  shows "\<exists>bs. writes (hash_set_write w) xs bs \<and> reads (hash_set_try_read fits r) bs (set xs)"
proof -
  from set_items [OF assms(1)] obtain bs where bs: "writes (write_all w) xs bs"
    "\<forall>s. reads (read_items r (length xs) s) bs (set xs \<union> s)" by blast
  have "writes (hash_set_write w) xs (len_bytes (length xs) @ bs)"
    using assms bs(1) by (simp add: writes_def hash_set_write_def reader_apply put_len_apply)
  moreover have "reads (hash_set_try_read fits r) (len_bytes (length xs) @ bs) (set xs)"
    unfolding hash_set_try_read_def using bs(2) [rule_format, of "{}"] assms(2,3)
    by (intro reads_bind [OF reads_get_len] reads_with_capacity) simp_all
  ultimately show ?thesis by blast
qed

end

text \<open>A key converter and a value converter together.\<close>

locale map_codec = k: codec wk rk okk + v: codec wv rv okv
  for wk :: "'k writer" and rk okk and wv :: "'v writer" and rv okv
begin

lemma entry_codec:
  "codec (entry_write wk wv) (entry_try_read rk rv) (\<lambda>e. okk (fst e) \<and> okv (snd e))"
proof
  fix e :: "'k \<times> 'v" assume e: "okk (fst e) \<and> okv (snd e)"
  then obtain bs cs where b: "writes wk (fst e) bs" "reads rk bs (fst e)"
    and c: "writes wv (snd e) cs" "reads rv cs (snd e)"
    using k.round_trip [of "fst e"] v.round_trip [of "snd e"] by (auto simp: encoded_def)
  have "writes (entry_write wk wv) e (bs @ cs)"
    using b(1) c(1) by (simp add: writes_def entry_write_def reader_apply)
  moreover have "reads (entry_try_read rk rv) (bs @ cs) e"
    using b(2) c(2) by (simp add: reads_def entry_try_read_def reader_apply)
  ultimately show "\<exists>bs. encoded (entry_write wk wv) (entry_try_read rk rv) e bs"
    by (auto simp: encoded_def)
qed

lemma map_entries:
  "list_all (\<lambda>e. okk (fst e) \<and> okv (snd e)) es \<Longrightarrow>
    \<exists>bs. writes (write_all (entry_write wk wv)) es bs \<and>
      (\<forall>m. reads (read_entries rk rv (length es) m) bs (m ++ map_of (rev es)))"
proof (induction es)
  case Nil
  show ?case by (rule exI [of _ "[]"]) (simp add: writes_def reads_def rret_apply)
next
  case (Cons e es)
  then obtain as bs where a: "writes (entry_write wk wv) e as" "reads (entry_try_read rk rv) as e"
    and es: "writes (write_all (entry_write wk wv)) es bs"
      "\<forall>m. reads (read_entries rk rv (length es) m) bs (m ++ map_of (rev es))"
    using codec.round_trip [OF entry_codec, of e] by (auto simp: encoded_def)
  have "writes (write_all (entry_write wk wv)) (e # es) (as @ bs)"
    using a(1) es(1) by (simp add: writes_def reader_apply)
  moreover have "m ++ map_of (rev (e # es)) = m(fst e \<mapsto> snd e) ++ map_of (rev es)" for m
    by (cases e) (auto simp: map_add_def fun_eq_iff split: option.split)
  then have "reads (read_entries rk rv (length (e # es)) m) (as @ bs) (m ++ map_of (rev (e # es)))" for m
    using a(2) es(2) by (cases e) (simp add: reads_def reader_apply)
  ultimately show ?case by blast
qed

lemma hash_map_codec:
  assumes "list_all (\<lambda>e. okk (fst e) \<and> okv (snd e)) es" "distinct (map fst es)" "length es \<le> I32_MAX"
    "fits (length es)"
  shows "\<exists>bs. writes (hash_map_write wk wv) es bs \<and> reads (hash_map_try_read fits rk rv) bs (map_of es)"
proof -
  from map_entries [OF assms(1)] obtain bs where bs: "writes (write_all (entry_write wk wv)) es bs"
    "\<forall>m. reads (read_entries rk rv (length es) m) bs (m ++ map_of (rev es))" by blast
  have "map_of (rev es) = map_of es"
    using assms(2) by (intro map_of_inject_set [THEN iffD2]) (simp_all add: rev_map [symmetric])
  with bs(2) [rule_format, of Map.empty]
  have r: "reads (read_entries rk rv (length es) Map.empty) bs (map_of es)" by simp
  have "writes (hash_map_write wk wv) es (len_bytes (length es) @ bs)"
    using assms bs(1) by (simp add: writes_def hash_map_write_def reader_apply put_len_apply)
  moreover have "reads (hash_map_try_read fits rk rv) (len_bytes (length es) @ bs) (map_of es)"
    unfolding hash_map_try_read_def using r assms(3,4)
    by (intro reads_bind [OF reads_get_len] reads_with_capacity) simp_all
  ultimately show ?thesis by blast
qed

end

subsection \<open>Derived converters\<close>

definition conv_codec :: "'v converter \<Rightarrow> bool" where
  "conv_codec c \<longleftrightarrow> codec (conv_write c) (conv_try_read c) (conv_ok c)"

definition fields_ok :: "'v converter list \<Rightarrow> 'v list \<Rightarrow> bool" where
  "fields_ok cs vs \<longleftrightarrow> list_all2 conv_ok cs vs"

definition variant_ok :: "'v converter list list \<Rightarrow> nat \<times> 'v list \<Rightarrow> bool" where
  "variant_ok variants obj \<longleftrightarrow>
     fst obj < length variants \<and> length variants \<le> I32_MAX \<and> fields_ok (variants ! fst obj) (snd obj)"

lemma fields_codec:
  assumes "list_all conv_codec cs"
  shows "codec (write_fields cs) (try_read_fields cs) (fields_ok cs)"
proof
  fix vs assume "fields_ok cs vs"
  with assms show "\<exists>bs. encoded (write_fields cs) (try_read_fields cs) vs bs"
  proof (induction cs arbitrary: vs)
    case Nil
    then show ?case
      by (auto simp: fields_ok_def encoded_def writes_def reads_def rret_apply intro!: exI [of _ "[]"])
  next
    case (Cons c cs)
    from Cons.prems obtain v vs' where vs: "vs = v # vs'" "conv_ok c v" "fields_ok cs vs'"
      by (auto simp: fields_ok_def list_all2_Cons1)
    from Cons.prems vs(2) obtain as where a: "writes (conv_write c) v as" "reads (conv_try_read c) as v"
      using codec.round_trip [of "conv_write c" "conv_try_read c" "conv_ok c" v]
      by (auto simp: conv_codec_def encoded_def)
    from Cons.IH [OF _ vs(3)] Cons.prems obtain bs where b: "writes (write_fields cs) vs' bs"
      "reads (try_read_fields cs) bs vs'" by (auto simp: encoded_def)
    have "writes (write_fields (c # cs)) vs (as @ bs)"
      using a(1) b(1) vs(1) by (simp add: writes_def reader_apply)
    moreover have "reads (try_read_fields (c # cs)) (as @ bs) vs"
      using a(2) b(2) vs(1) by (simp add: reads_def reader_apply)
    ultimately show ?case by (auto simp: encoded_def)
  qed
qed

text \<open>The contract of a derived converter: every field converter keeps its own.\<close>

locale derived_record =
  fixes cs :: "'v converter list"
  assumes fields: "list_all conv_codec cs"
begin

sublocale codec "record_write cs" "record_try_read cs" "fields_ok cs"
proof -
  have "record_write cs = write_fields cs" "record_try_read cs = try_read_fields cs"
    by (simp_all add: record_write_def record_try_read_def fun_eq_iff)
  with fields_codec [OF fields]
  show "codec (record_write cs) (record_try_read cs) (fields_ok cs)" by simp
qed

lemma record_codec: "codec (record_write cs) (record_try_read cs) (fields_ok cs)"
  by (rule codec_axioms)

end

lemma variant_arm_index:
  assumes "i < n" "n \<le> I32_MAX"
  shows "variant_arm n (word_of_nat (i + 1)) = Some i"
proof -
  have "i + 1 \<le> I32_MAX" using assms by simp
  from sint_i32 [OF this] assms(1) show ?thesis
    unfolding variant_arm_def by simp
qed

locale derived_enum =
  fixes name :: string and variants :: "'v converter list list"
  assumes variant_fields: "list_all (list_all conv_codec) variants"
begin

sublocale codec "enum_write variants" "enum_try_read name variants" "variant_ok variants"
proof
  fix obj assume ok: "variant_ok variants obj"
  obtain i vs where obj: "obj = (i, vs)" by (cases obj)
  with ok have i: "i < length variants" and n: "length variants \<le> I32_MAX"
    and vs: "fields_ok (variants ! i) vs" by (auto simp: variant_ok_def)
  from variant_fields i have "list_all conv_codec (variants ! i)" by (simp add: list_all_length)
  from codec.round_trip [OF fields_codec [OF this] vs] obtain bs
    where bs: "writes (write_fields (variants ! i)) vs bs" "reads (try_read_fields (variants ! i)) bs vs"
    by (auto simp: encoded_def)
  let ?w = "word_of_nat (i + 1) :: u32"
  let ?tag = "be_bytes (LENGTH(32) div 8) (unat ?w)"
  have "writes (enum_write variants) obj (?tag @ bs)"
    using i bs(1) obj
    by (simp add: writes_def enum_write_def reader_apply put_word_def put_def)
  moreover have "reads (rbind (try_read_fields (variants ! i)) (\<lambda>vs. rret (i, vs))) bs obj"
    using reads_map [OF bs(2), of "Pair i"] obj by simp
  then have "reads (rbind get_word (\<lambda>v. case variant_arm (length variants) v of
       Some i \<Rightarrow> rbind (try_read_fields (variants ! i)) (\<lambda>vs. rret (i, vs))
     | None \<Rightarrow> rfail (InvalidEnumValue name v))) (?tag @ bs) obj"
    using variant_arm_index [OF i n] by (intro reads_bind [OF reads_get_word]) simp_all
  then have "reads (enum_try_read name variants) (?tag @ bs) obj"
    unfolding enum_try_read_def by (intro reads_check) simp_all
  ultimately show "\<exists>bs. encoded (enum_write variants) (enum_try_read name variants) obj bs"
    by (auto simp: encoded_def)
qed

lemma enum_codec: "codec (enum_write variants) (enum_try_read name variants) (variant_ok variants)"
  by (rule codec_axioms)

end

section \<open>Through a buffer\<close>

lemma lift_releases:
  assumes "valid_buffer h b"
  shows "try_lift_from_rust_buffer r b h =
    (case r (buffer_contents h b) of
       Inl (LiftPanic msg) \<Rightarrow> Panic (Some msg) (release b h)
     | Inl e \<Rightarrow> Done (Inl e) (release b h)
     | Inr (a, rest) \<Rightarrow> Done (if rest = [] then Inr a else Inl (JunkData (length rest))) (release b h))"
proof -
  from destroy_into_vec_valid [OF assms] obtain v where v: "destroy_into_vec b h = Done v h"
    "vec_len v = unat (rb_len b)" "vec_cap v = unat (rb_capacity b)"
    "vec_cap v \<noteq> 0 \<longrightarrow> vec_ptr v = rb_data b \<and> vec_live h v"
    by blast
  have con: "vec_contents v h = Done (buffer_contents h b) h"
    using v by (auto simp: vec_contents_def buffer_contents_def unat_eq_0 vec_live_def split: option.splits)
  have drop: "vec_drop v h = Done () (release b h)"
    using v by (auto simp: vec_drop_def release_def unat_eq_0)
  show ?thesis
    by (auto simp: try_lift_from_rust_buffer_def mem_defs v(1) con drop
        split: sum.split LiftError.split prod.split)
qed

context codec
begin

lemma lift_lower:
  assumes "ok a" "heap_ok h" "capacity_ok cap_of" "\<And>bs. w a [] = Inr ((), bs) \<Longrightarrow> cap_of (length bs) \<le> ISIZE_MAX"
  shows "\<exists>b h1. lower_into_rust_buffer cap_of w a h = Done b h1 \<and> valid_buffer h1 b \<and> heap_ok h1 \<and>
    try_lift_from_rust_buffer r b h1 = Done (Inr a) (h\<lparr>next_addr := next_addr h1\<rparr>)"
proof -
  from assms(1) obtain bs where bs: "\<And>buf. w a buf = Inr ((), buf @ bs)" "\<And>rest. r (bs @ rest) = Inr (a, rest)"
    using round_trip [OF assms(1)] by (auto simp: encoded_def writes_def reads_def)
  have w: "w a [] = Inr ((), bs)" by (simp add: bs)
  have rd: "r bs = Inr (a, [])" using bs(2) [of "[]"] by simp
  from buffer_of_bytes_valid [OF assms(2,3) assms(4) [OF w]] obtain b h1 where
    b: "buffer_of_bytes cap_of bs h = Done b h1" "heap_ok h1" "valid_buffer h1 b"
      "buffer_contents h1 b = bs" "release b h1 = h\<lparr>next_addr := next_addr h1\<rparr>"
    by blast
  have "lower_into_rust_buffer cap_of w a h = Done b h1"
    by (simp add: lower_into_rust_buffer_def w b(1))
  with lift_releases [OF b(3), of r] b rd show ?thesis by auto
qed

end

end
