(* ===== verification/FfiProps.thy ===== *)
theory FfiProps
  imports FfiConverter
begin

text \<open>
  What the converters guarantee: values survive a buffer without a leak, malformed bytes are reported
  as errors, and the places where the code falls short of that (times just before the epoch, overflowing
  durations, flat errors).
\<close>

section \<open>Readers that never panic\<close>

locale safe_reader =
  fixes r :: "'a lift_reader"
  assumes no_panic: "r buf \<noteq> Inl (LiftPanic msg)"
begin

lemma option_safe: "option_try_read r buf \<noteq> Inl (LiftPanic msg)"
  using no_panic
  by (auto simp: option_try_read_def rbind_Inl check_remaining_def get_word_def split: if_splits)

lemma rtimes_safe: "rtimes n r buf \<noteq> Inl (LiftPanic msg)"
  by (induction n arbitrary: buf) (auto simp: rbind_Inl no_panic)

lemma items_safe: "read_items r n s buf \<noteq> Inl (LiftPanic msg)"
  by (induction n arbitrary: buf s) (auto simp: rbind_Inl no_panic)

end

text \<open>A collection panics when it cannot reserve its elements, and then only.\<close>

definition reserve_fails :: "(nat \<Rightarrow> bool) \<Rightarrow> bytes \<Rightarrow> bool" where
  "reserve_fails fits buf \<longleftrightarrow> (\<exists>len rest. get_len buf = Inr (len, rest) \<and> \<not> fits len)"

lemma get_len_no_panic: "get_len buf \<noteq> Inl (LiftPanic msg)"
  by (auto simp: get_len_def rbind_Inl check_remaining_def get_word_def split: if_splits)

lemma get_len_bound:
  assumes "get_len buf = Inr (l, rest)"
  shows "l \<le> I32_MAX" "rest = drop 4 buf" "4 \<le> length buf"
proof -
  obtain v :: u32 where v: "\<not> sint v < 0" "l = nat (sint v)" and b: "rest = drop 4 buf" "4 \<le> length buf"
    using assms by (auto simp: get_len_def rbind_Inr check_remaining_def get_word_def rret_apply split: if_splits)
  have "sint v < 2 ^ 31" using sint_lt [of v] by simp
  with v show "l \<le> I32_MAX" by (simp add: I32_MAX_def)
  show "rest = drop 4 buf" "4 \<le> length buf" by (fact b)+
qed

lemma collection_panics_iff:
  assumes "\<And>len buf msg. elems len buf \<noteq> Inl (LiftPanic msg)"
  shows "(\<exists>msg. rbind get_len (\<lambda>len. rbind (with_capacity fits len) (\<lambda>_. elems len)) buf = Inl (LiftPanic msg)) \<longleftrightarrow>
    reserve_fails fits buf"
  using assms by (auto simp: rbind_Inl get_len_no_panic with_capacity_def reserve_fails_def rret_apply rfail_apply
      split: if_splits)

lemma vec_fits_small:
  assumes "elem_size \<le> 2 ^ 32"
  shows "\<not> reserve_fails (vec_fits elem_size) buf"
proof
  assume "reserve_fails (vec_fits elem_size) buf"
  then obtain len where len: "len \<le> I32_MAX" "\<not> elem_size * len \<le> ISIZE_MAX"
    using get_len_bound(1) by (auto simp: reserve_fails_def vec_fits_def)
  from assms len(1) have "elem_size * len \<le> 2 ^ 32 * I32_MAX" by (rule mult_le_mono)
  with len(2) show False by (simp add: I32_MAX_def ISIZE_MAX_def)
qed

lemma num_no_panic: "num_try_read buf \<noteq> Inl (LiftPanic msg)"
  by (auto simp: num_try_read_def rbind_Inl check_remaining_def get_word_def Let_def split: if_splits)

lemma bool_no_panic: "bool_try_read buf \<noteq> Inl (LiftPanic msg)"
  by (auto simp: bool_try_read_def rbind_Inl check_remaining_def get_word_def from_result_def
      bool_try_lift_def split: if_splits)

lemma string_no_panic: "string_try_read buf \<noteq> Inl (LiftPanic msg)"
  by (auto simp: string_try_read_def rbind_Inl check_remaining_def get_len_def get_word_def
      split: if_splits option.splits)

interpretation safe_num: safe_reader num_try_read
  by unfold_locales (rule num_no_panic)

interpretation safe_bool: safe_reader bool_try_read
  by unfold_locales (rule bool_no_panic)

interpretation safe_str: safe_reader string_try_read
  by unfold_locales (rule string_no_panic)

lemma entries_no_panic:
  assumes "safe_reader rk" "safe_reader rv"
  shows "read_entries rk rv n m buf \<noteq> Inl (LiftPanic msg)"
  using safe_reader.no_panic [OF assms(1)] safe_reader.no_panic [OF assms(2)]
  by (induction n arbitrary: buf m) (auto simp: rbind_Inl entry_try_read_def)

section \<open>The composite converters on strings and numbers\<close>

interpretation string_map: map_codec string_write string_try_read string_ok
    num_write num_try_read "\<lambda>_ :: 64 word. True"
  by (intro map_codec.intro codec_string codec_num) simp

text \<open>Field values of two types, as the derived converters of a record with a string and a number
  have them.\<close>

datatype field_value = StrField string | NumField u32

definition str_field :: "field_value converter" where
  "str_field = \<lparr>
     conv_write = (\<lambda>v. case v of StrField s \<Rightarrow> string_write s | _ \<Rightarrow> rfail ''''),
     conv_try_read = rbind string_try_read (\<lambda>s. rret (StrField s)),
     conv_ok = (\<lambda>v. case v of StrField s \<Rightarrow> string_ok s | _ \<Rightarrow> False)\<rparr>"

definition num_field :: "field_value converter" where
  "num_field = \<lparr>
     conv_write = (\<lambda>v. case v of NumField n \<Rightarrow> num_write n | _ \<Rightarrow> rfail ''''),
     conv_try_read = rbind num_try_read (\<lambda>n. rret (NumField n)),
     conv_ok = (\<lambda>v. case v of NumField _ \<Rightarrow> True | _ \<Rightarrow> False)\<rparr>"

lemma field_ok_simps [simp]: "conv_ok num_field (NumField n)" "conv_ok str_field (StrField s) = string_ok s"
  by (simp_all add: num_field_def str_field_def)

lemma str_field_codec: "conv_codec str_field"
  unfolding conv_codec_def
proof
  fix v assume "conv_ok str_field v"
  then obtain s where v: "v = StrField s" "string_ok s"
    by (auto simp: str_field_def split: field_value.splits)
  from str.round_trip [OF v(2)] obtain bs where "encoded string_write string_try_read s bs" ..
  then show "\<exists>bs. encoded (conv_write str_field) (conv_try_read str_field) v bs"
    using v(1) reads_map [of string_try_read bs s StrField]
    by (auto simp: encoded_def writes_def str_field_def)
qed

lemma num_field_codec: "conv_codec num_field"
  unfolding conv_codec_def
proof
  fix v assume "conv_ok num_field v"
  then obtain n where v: "v = NumField n"
    by (auto simp: num_field_def split: field_value.splits)
  from u32.round_trip [of n] obtain bs where "encoded num_write num_try_read n bs" by blast
  then show "\<exists>bs. encoded (conv_write num_field) (conv_try_read num_field) v bs"
    using v reads_map [of num_try_read bs n NumField]
    by (auto simp: encoded_def writes_def num_field_def)
qed

interpretation example_record: derived_record "[str_field, num_field]"
  by unfold_locales (simp add: str_field_codec num_field_codec)

interpretation example_enum: derived_enum "''E''" "[[], [str_field], [num_field, str_field]]"
  by unfold_locales (simp add: str_field_codec num_field_codec)

section \<open>Properties\<close>

text \<open>C2: a record whose field types round-trip can be lowered into a buffer and lifted again: the
  value comes back, and the only trace left on the heap is the allocator's next address, so nothing
  leaks and no other block changes.\<close>

theorem record_crosses_ffi:
  assumes "list_all conv_codec cs" and "fields_ok cs vs" and "heap_ok h" and "capacity_ok cap_of"
    and "\<forall>bs. record_write cs vs [] = Inr ((), bs) \<longrightarrow> cap_of (length bs) \<le> ISIZE_MAX"
  shows "\<exists>b h1. lower_into_rust_buffer cap_of (record_write cs) vs h = Done b h1 \<and>
    try_lift_from_rust_buffer (record_try_read cs) b h1 = Done (Inr vs) (h\<lparr>next_addr := next_addr h1\<rparr>)"
  using codec.lift_lower [OF derived_record.record_codec [OF derived_record.intro [OF assms(1)]] assms(2-4)]
    assms(5) by blast

lemma example_written:
  "record_write [str_field, num_field] [StrField ''a'', NumField 7] [] =
     Inr ((), [0, 0, 0, 1, 97, 0, 0, 0, 7])"
  by (simp add: record_write_def str_field_def num_field_def string_write_def num_write_def
      put_len_def put_word_def put_def reader_apply I32_MAX_def be_bytes_def le_bytes_4
      as_bytes_def byte_of_char_def)

theorem record_crosses_ffi_witness:
  "\<exists>b h1. lower_into_rust_buffer id (record_write [str_field, num_field])
       [StrField ''a'', NumField 7] empty_heap = Done b h1 \<and>
    try_lift_from_rust_buffer (record_try_read [str_field, num_field]) b h1 =
      Done (Inr [StrField ''a'', NumField 7]) (empty_heap\<lparr>next_addr := next_addr h1\<rparr>)"
proof (rule record_crosses_ffi)
  show "list_all conv_codec [str_field, num_field]" by (simp add: str_field_codec num_field_codec)
  have "string_ok ''a''"
    by (simp add: string_ok_def rust_string_def I32_MAX_def as_bytes_def byte_of_char_def utf8_tail_def
        in_range_def)
  then show "fields_ok [str_field, num_field] [StrField ''a'', NumField 7]"
    by (simp add: fields_ok_def)
  show "heap_ok empty_heap" by (simp add: heap_ok_def empty_heap_def dangling_def)
  show "capacity_ok id" by (simp add: capacity_ok_def)
  show "\<forall>bs. record_write [str_field, num_field] [StrField ''a'', NumField 7] [] = Inr ((), bs)
      \<longrightarrow> id (length bs) \<le> ISIZE_MAX"
    by (simp add: example_written ISIZE_MAX_def)
qed

text \<open>C36: an enum value is read back as the same variant with the same fields, whatever follows it
  in the buffer, for any enum with at most \<open>i32::MAX\<close> variants whose field types round-trip.\<close>

theorem enum_round_trip:
  assumes "list_all (list_all conv_codec) variants" and "variant_ok variants obj"
  shows "\<exists>bs. (\<forall>buf. enum_write variants obj buf = Inr ((), buf @ bs)) \<and>
    (\<forall>rest. enum_try_read name variants (bs @ rest) = Inr (obj, rest))"
  using codec.round_trip [OF derived_enum.enum_codec [OF derived_enum.intro [OF assms(1)]] assms(2)]
  by (auto simp: encoded_def writes_def reads_def)

theorem enum_round_trip_witness:
  "\<exists>bs. (\<forall>buf. enum_write [[], [num_field]] (1, [NumField 9]) buf = Inr ((), buf @ bs)) \<and>
    (\<forall>rest. enum_try_read ''E'' [[], [num_field]] (bs @ rest) = Inr ((1, [NumField 9]), rest))"
  by (rule enum_round_trip)
     (simp_all add: num_field_codec variant_ok_def fields_ok_def I32_MAX_def)

text \<open>C39: a hash map is read back as the same map, in whatever order its entries are written: for any converters of keys
  and values that read back what they write, any list of entries with distinct keys that the length fits in \<open>i32\<close> and
  memory can be reserved for, and whatever bytes follow.\<close>

theorem hash_map_round_trip:
  assumes "codec wk rk okk" and "codec wv rv okv"
    and "list_all (\<lambda>e. okk (fst e) \<and> okv (snd e)) es" and "distinct (map fst es)"
    and "length es \<le> I32_MAX" and "fits (length es)"
  shows "\<exists>bs. (\<forall>buf. hash_map_write wk wv es buf = Inr ((), buf @ bs)) \<and>
    (\<forall>rest. hash_map_try_read fits rk rv (bs @ rest) = Inr (map_of es, rest))"
  using map_codec.hash_map_codec [OF map_codec.intro [OF assms(1,2)] assms(3-5), of fits] assms(6)
  by (auto simp: writes_def reads_def)

theorem hash_map_round_trip_witness:
  "\<exists>bs. (\<forall>buf. hash_map_write num_write bool_write [(5 :: u32, True), (3, False)] buf
       = Inr ((), buf @ bs)) \<and>
    (\<forall>rest. hash_map_try_read (\<lambda>_. True) num_try_read bool_try_read (bs @ rest) =
       Inr (map_of [(5 :: u32, True), (3, False)], rest))"
  by (rule hash_map_round_trip [OF u32.codec_axioms bool.codec_axioms])
     (simp_all add: I32_MAX_def)

text \<open>C33: lifting takes ownership of the buffer and gives its block back in every case, whether the
  reader returns a value, returns an error, leaves bytes over or panics, and then changes nothing else in memory.  It gives the value
  of the reader exactly when the reader has used all the bytes; leftover bytes are an error with their number.\<close>

theorem lift_frees_buffer:
  assumes "valid_buffer h b"
  shows "case try_lift_from_rust_buffer r b h of
      Done (Inr a) h' \<Rightarrow> h' = release b h \<and> r (buffer_contents h b) = Inr (a, [])
    | Done (Inl e) h' \<Rightarrow> h' = release b h \<and>
        (r (buffer_contents h b) = Inl e \<or>
         (\<exists>a rest. r (buffer_contents h b) = Inr (a, rest) \<and> rest \<noteq> [] \<and> e = JunkData (length rest)))
    | Panic p h' \<Rightarrow> h' = release b h \<and> (\<exists>m. p = Some m \<and> r (buffer_contents h b) = Inl (LiftPanic m))
    | Undefined \<Rightarrow> False"
  unfolding lift_releases [OF assms]
  by (auto split: sum.split LiftError.split prod.split)

theorem lift_frees_buffer_witness:
  "try_lift_from_rust_buffer bool_try_read \<lparr>rb_capacity = 2, rb_len = 2, rb_data = 5\<rparr>
     \<lparr>blocks = [5 \<mapsto> [1, 1]], next_addr = 6\<rparr> = Done (Inl (JunkData 1)) \<lparr>blocks = Map.empty, next_addr = 6\<rparr>"
proof -
  let ?b = "\<lparr>rb_capacity = 2, rb_len = 2, rb_data = 5\<rparr> :: RustBuffer"
  let ?h = "\<lparr>blocks = [5 \<mapsto> [1, 1]], next_addr = 6\<rparr> :: Heap"
  have v: "valid_buffer ?h ?b" by (simp add: valid_buffer_def null_def)
  have rd: "bool_try_read (buffer_contents ?h ?b) = Inr (True, [1])"
    by (simp add: buffer_contents_def bool_try_read_def reader_apply check_remaining_def get_word_def
        be_value_def from_result_def bool_try_lift_def)
  show ?thesis
    using lift_frees_buffer [OF v, of bool_try_read] rd
    by (auto simp: release_def split: outcome.splits sum.splits)
qed

section \<open>Where the converters fall short\<close>

lemma sent_or_lost: "system_time_ok t \<Longrightarrow> t \<noteq> - (2 ^ 63) * int NANOS_PER_SEC \<Longrightarrow>
    system_time_sent t \<or> - int NANOS_PER_SEC < t \<and> t < 0"
  by (auto simp: system_time_ok_def system_time_sent_def)

text \<open>A time in the last second before the epoch is written as the time as far after it.\<close>

lemma write_mirrored:
  assumes "- int NANOS_PER_SEC < t" "t < 0"
  shows "system_time_write t = system_time_write (- t)"
proof -
  have "nat \<bar>t\<bar> < NANOS_PER_SEC" using assms by auto
  then show ?thesis
    using assms by (simp add: system_time_write_def)
qed

text \<open>C34: a time is read back as it was written if and only if it is not strictly within the last
  second before the Unix epoch (the earliest representable time apart, on which writing panics).
  Within that second the sign is lost, and the time that comes back lies after the epoch.\<close>

theorem system_time_round_trip_iff:
  assumes "system_time_ok t" and "t \<noteq> - (2 ^ 63) * int NANOS_PER_SEC"
  shows "\<exists>bs. system_time_write t [] = Inr ((), bs) \<and>
    system_time_try_read bs =
      Inr (if - int NANOS_PER_SEC < t \<and> t < 0 then - t else t, [])"
proof (cases "- int NANOS_PER_SEC < t \<and> t < 0")
  case True
  then have "system_time_sent (- t)"
    by (auto simp: system_time_sent_def NANOS_PER_SEC_def)
  from system_time.round_trip [OF this] obtain bs where
    "writes system_time_write (- t) bs" "reads system_time_try_read bs (- t)"
    by (auto simp: encoded_def)
  then have "system_time_write (- t) [] = Inr ((), bs)" "system_time_try_read bs = Inr (- t, [])"
    by (auto simp: writes_def reads_def dest: spec [of _ "[]"])
  with write_mirrored [of t] True show ?thesis by auto
next
  case False
  with sent_or_lost [OF assms] have "system_time_sent t" by blast
  from system_time.round_trip [OF this] obtain bs where
    "writes system_time_write t bs" "reads system_time_try_read bs t"
    by (auto simp: encoded_def)
  then have "system_time_write t [] = Inr ((), bs)" "system_time_try_read bs = Inr (t, [])"
    by (auto simp: writes_def reads_def dest: spec [of _ "[]"])
  with False show ?thesis by auto
qed

theorem system_time_round_trip_iff_witness:
  "\<exists>bs. system_time_write (- 5) [] = Inr ((), bs) \<and> system_time_try_read bs = Inr (5, [])"
  using system_time_round_trip_iff [of "- 5"] by (simp add: system_time_ok_def NANOS_PER_SEC_def)

lemma string_read_shape:
  assumes "string_try_read buf = Inr (s, rest)"
  shows "rust_string s \<and> length s \<le> I32_MAX \<and> length buf = 4 + length s + length rest"
proof -
  obtain l buf' where len: "get_len buf = Inr (l, buf')" and l: "l \<le> length buf'"
    and utf: "from_utf8 (take l buf') = Some s" and rest: "rest = drop l buf'"
    using assms by (auto simp: string_try_read_def rbind_Inr check_remaining_def split: if_splits option.splits)
  note b = get_len_bound [OF len]
  from utf have "take l buf' = as_bytes s" "rust_string s" by (simp_all add: from_utf8_Some)
  moreover from this(1) l have "length s = l" by (metis length_as_bytes length_take min.absorb2)
  ultimately show ?thesis using l b rest by auto
qed

text \<open>C40: whatever bytes the foreign side sends, reading a number of any width, a boolean or a string gives
  a value or an error and never panics, and what is read as a string is valid UTF-8.  If reading the
  elements never panics, reading an option of them never does, and reading a sequence, a set or a map
  panics exactly when the memory for the length that was sent cannot be reserved: its size does not fit
  an \<open>isize\<close>, which for a sequence takes elements of more than 4 GiB.  (Running out of memory is not
  modelled; the length comes from the foreign side and is not compared with the bytes that are there.)\<close>

theorem primitive_readers_safe:
  fixes r :: "'a lift_reader" and rk :: "'k lift_reader" and rv :: "'v lift_reader"
  assumes "\<And>buf msg. r buf \<noteq> Inl (LiftPanic msg)" "\<And>buf msg. rk buf \<noteq> Inl (LiftPanic msg)"
    "\<And>buf msg. rv buf \<noteq> Inl (LiftPanic msg)"
  shows "(num_try_read buf :: LiftError + 'n::len word \<times> bytes) \<noteq> Inl (LiftPanic msg) \<and>
   bool_try_read buf \<noteq> Inl (LiftPanic msg) \<and>
   string_try_read buf \<noteq> Inl (LiftPanic msg) \<and>
   (case string_try_read buf of
      Inr (s, rest) \<Rightarrow> rust_string s \<and> length s \<le> I32_MAX \<and> length buf = 4 + length s + length rest
    | Inl _ \<Rightarrow> True) \<and>
   option_try_read r buf \<noteq> Inl (LiftPanic msg) \<and>
   ((\<exists>msg. vec_try_read fits r buf = Inl (LiftPanic msg)) \<longleftrightarrow> reserve_fails fits buf) \<and>
   (elem_size \<le> 2 ^ 32 \<longrightarrow> vec_try_read (vec_fits elem_size) r buf \<noteq> Inl (LiftPanic msg)) \<and>
   ((\<exists>msg. hash_set_try_read fits r buf = Inl (LiftPanic msg)) \<longleftrightarrow> reserve_fails fits buf) \<and>
   ((\<exists>msg. hash_map_try_read fits rk rv buf = Inl (LiftPanic msg)) \<longleftrightarrow> reserve_fails fits buf)"
proof -
  have safe: "safe_reader r" "safe_reader rk" "safe_reader rv"
    by (unfold_locales; rule assms)+
  note safe_r = safe_reader.option_safe [OF safe(1)] safe_reader.rtimes_safe [OF safe(1)]
    safe_reader.items_safe [OF safe(1)] entries_no_panic [OF safe(2,3)]
  have collections: "(\<exists>msg. vec_try_read fits r buf = Inl (LiftPanic msg)) \<longleftrightarrow> reserve_fails fits buf"
    "(\<exists>msg. hash_set_try_read fits r buf = Inl (LiftPanic msg)) \<longleftrightarrow> reserve_fails fits buf"
    "(\<exists>msg. hash_map_try_read fits rk rv buf = Inl (LiftPanic msg)) \<longleftrightarrow> reserve_fails fits buf" for fits
    unfolding vec_try_read_def hash_set_try_read_def hash_map_try_read_def
    by (rule collection_panics_iff, rule safe_r)+
  then have "elem_size \<le> 2 ^ 32 \<longrightarrow> vec_try_read (vec_fits elem_size) r buf \<noteq> Inl (LiftPanic msg)"
    using vec_fits_small by blast
  with collections safe_r(1) string_read_shape show ?thesis
    by (simp add: safe_num.no_panic safe_bool.no_panic safe_str.no_panic split: sum.split)
qed

theorem primitive_readers_safe_witness:
  "(\<forall>msg. vec_try_read (vec_fits 24) string_try_read [255, 255, 255, 255] \<noteq> Inl (LiftPanic msg)) \<and>
   (\<exists>msg. vec_try_read (vec_fits (2 ^ 33)) bool_try_read [127, 255, 255, 255] = Inl (LiftPanic msg))"
proof
  have "vec_try_read (vec_fits 24) string_try_read [255, 255, 255, 255] \<noteq> Inl (LiftPanic msg)" for msg
    using primitive_readers_safe [where 'n = 32 and r = string_try_read and rk = string_try_read and rv = string_try_read
        and elem_size = 24 and buf = "[255, 255, 255, 255]" and msg = msg and fits = "\<lambda>_. True",
        OF string_no_panic string_no_panic string_no_panic] by simp
  then show "\<forall>msg. vec_try_read (vec_fits 24) string_try_read [255, 255, 255, 255] \<noteq> Inl (LiftPanic msg)" by blast
  have "get_len [127, 255, 255, 255] = Inr (I32_MAX, [])"
    using reads_get_len [of I32_MAX] unfolding reads_def
    by (auto simp: I32_MAX_def be_bytes_def le_bytes_4 dest: spec [of _ "[]"])
  then have "reserve_fails (vec_fits (2 ^ 33)) [127, 255, 255, 255]"
    by (simp add: reserve_fails_def vec_fits_def I32_MAX_def ISIZE_MAX_def)
  then show "\<exists>msg. vec_try_read (vec_fits (2 ^ 33)) bool_try_read [127, 255, 255, 255] = Inl (LiftPanic msg)"
    using primitive_readers_safe [where 'n = 32 and r = bool_try_read and rk = bool_try_read and rv = bool_try_read
        and fits = "vec_fits (2 ^ 33)" and buf = "[127, 255, 255, 255]", OF bool_no_panic bool_no_panic bool_no_panic]
    by simp
qed

text \<open>Reading a duration panics, instead of returning an error, exactly when the bytes are there
  and the nanoseconds carry the seconds over \<open>u64::MAX\<close>.\<close>

theorem duration_read_panics_iff:
  "(\<exists>msg. duration_try_read buf = Inl (LiftPanic msg)) \<longleftrightarrow>
     12 \<le> length buf \<and>
     2 ^ 64 \<le> be_value (take 8 buf) + be_value (take 4 (drop 8 buf)) div NANOS_PER_SEC"
proof (cases "12 \<le> length buf")
  case True
  have s: "be_value (take 8 buf) < 2 ^ 64"
    using be_value_less [of "take 8 buf"] True by (simp add: min_def)
  have n: "be_value (take 4 (drop 8 buf)) < 2 ^ 32"
  proof -
    have "length (take 4 (drop 8 buf)) = 4" using True by simp
    with be_value_less [of "take 4 (drop 8 buf)"] show ?thesis by simp
  qed
  have us: "unat (word_of_nat (be_value (take 8 buf)) :: u64) = be_value (take 8 buf)"
    using s by (simp add: unat_of_nat)
  have un: "unat (word_of_nat (be_value (take 4 (drop 8 buf))) :: u32) = be_value (take 4 (drop 8 buf))"
    using n by (simp add: unat_of_nat)
  have "duration_try_read buf =
      duration_new (word_of_nat (be_value (take 8 buf))) (word_of_nat (be_value (take 4 (drop 8 buf))))
        (drop 12 buf)"
    using True by (auto simp: duration_try_read_def reader_apply check_remaining_def get_word_def Let_def)
  with True show ?thesis
    by (auto simp: duration_new_def us un Let_def reader_apply)
next
  case False
  then show ?thesis by (simp add: duration_try_read_def reader_apply check_remaining_def)
qed

text \<open>A flat error that Rust has lowered cannot be lifted by Rust, even when a reader is
  generated: the reader takes the variant and leaves the message, which is then reported as junk of
  the message's length and its four-byte header.\<close>

theorem flat_error_not_lifted_back:
  assumes "i < n" and "n \<le> I32_MAX" and "length (to_string i) \<le> I32_MAX"
  shows "\<exists>bs. flat_error_write n to_string i [] = Inr ((), bs) \<and>
    flat_error_try_read True n bs = Inr (i, drop 4 bs) \<and>
    length (drop 4 bs) = 4 + length (to_string i)"
proof -
  let ?w = "word_of_nat (i + 1) :: u32"
  let ?tag = "be_bytes (LENGTH(32) div 8) (unat ?w)"
  let ?msg = "len_bytes (length (to_string i)) @ as_bytes (to_string i)"
  have "flat_error_write n to_string i [] = Inr ((), ?tag @ ?msg)"
    using assms by (simp add: flat_error_write_def Let_def reader_apply put_word_def put_def
        string_write_def put_len_apply)
  moreover have g: "get_word (?tag @ ?msg) = Inr (?w, ?msg)"
    using reads_get_word [where 'a = 32, of ?w] by (simp add: reads_def)
  have "flat_error_try_read True n (?tag @ ?msg) = Inr (i, ?msg)"
    unfolding flat_error_try_read_def using variant_arm_index [OF assms(1,2)]
    by (simp only: if_True rbind_apply g sum.case prod.case option.case rret_apply)
  ultimately show ?thesis by (intro exI [of _ "?tag @ ?msg"]) simp
qed

theorem flat_error_not_lifted_back_witness:
  "\<exists>bs. flat_error_write 2 (\<lambda>_. ''bad'') 1 [] = Inr ((), bs) \<and>
    flat_error_try_read True 2 bs = Inr (1, drop 4 bs) \<and>
    length (drop 4 bs) = 4 + length ''bad''"
  by (rule flat_error_not_lifted_back) (simp_all add: I32_MAX_def)

end
