(* ===== verification/Scaffolding.thy ===== *)
theory Scaffolding
  imports FfiConverter
begin

text \<open>
  The functions that the export macro generates (\<open>uniffi_macros/src/export/scaffolding.rs\<close> and
  \<open>fnsig.rs\<close>), with the return traits of \<open>uniffi_core/src/ffi_converter_traits.rs\<close> and their
  implementations for \<open>Result\<close> in \<open>ffi_converter_impls.rs\<close>: arguments are lifted in order, the Rust
  function runs, its result is lowered, and a foreign implementation's result is lifted.

  The Rust function, the conversions of user types and the error type's downcast are parameters.
\<close>

section \<open>Lowering the result\<close>

text \<open>\<open>LowerReturn\<close> for a plain type, for the unit type and for \<open>Result<R, E>\<close>.\<close>

definition lower_return :: "('a \<Rightarrow> 'f mem) \<Rightarrow> 'a \<Rightarrow> (RustCallError + 'f) mem" where
  "lower_return lower v = mbind (lower v) (\<lambda>x. mret (Inr x))"

definition lower_return_unit :: "unit \<Rightarrow> (RustCallError + unit) mem" where
  "lower_return_unit v = mret (Inr ())"

definition lower_return_result ::
  "('a \<Rightarrow> (RustCallError + 'f) mem) \<Rightarrow> ('e \<Rightarrow> RustBuffer mem) \<Rightarrow> 'e + 'a \<Rightarrow> (RustCallError + 'f) mem" where
  "lower_return_result lower_r lower_err v =
     (case v of
        Inr r \<Rightarrow> lower_r r
      | Inl e \<Rightarrow> mbind (lower_err e) (\<lambda>buf. mret (Inl (CallError buf))))"

definition handle_failed_lift ::
  "('x \<Rightarrow> string) \<Rightarrow> 'x LiftArgsError \<Rightarrow> (RustCallError + 'f) mem" where
  "handle_failed_lift debug e = mret (Inl (to_internal_error debug e))"

definition handle_failed_lift_result ::
  "('x \<Rightarrow> string) \<Rightarrow> ('x \<Rightarrow> 'e option) \<Rightarrow> ('e \<Rightarrow> RustBuffer mem) \<Rightarrow> 'x LiftArgsError \<Rightarrow>
     (RustCallError + 'f) mem" where
  "handle_failed_lift_result debug downcast lower_err e =
     (case downcast (lae_error e) of
        Some user \<Rightarrow> mbind (lower_err user) (\<lambda>buf. mret (Inl (CallError buf)))
      | None \<Rightarrow> mret (Inl (to_internal_error debug e)))"

section \<open>The scaffolding function\<close>

text \<open>The generated closure: every argument by its own converter, in order, up to the first error.\<close>

fun lift_closure ::
  "(string \<times> ('l \<Rightarrow> ('x + 'v) mem)) list \<Rightarrow> 'l list \<Rightarrow> (string \<times> 'x + 'v list) mem" where
  "lift_closure ((name, try_lift) # args) (l # ls) =
     mbind (try_lift l) (\<lambda>r. case r of
         Inl e \<Rightarrow> mret (Inl (name, e))
       | Inr v \<Rightarrow> mbind (lift_closure args ls) (\<lambda>rs. case rs of
             Inl f \<Rightarrow> mret (Inl f)
           | Inr vs \<Rightarrow> mret (Inr (v # vs))))"
| "lift_closure _ _ = mret (Inr [])"

definition gen_ffi_function ::
  "(nat \<Rightarrow> nat) \<Rightarrow> 'f \<Rightarrow> (string \<times> ('l \<Rightarrow> ('x + 'v) mem)) list \<Rightarrow> ('v list \<Rightarrow> 'r mem) \<Rightarrow>
     ('r \<Rightarrow> 'r2) \<Rightarrow> ('r2 \<Rightarrow> (RustCallError + 'f) mem) \<Rightarrow> ('x LiftArgsError \<Rightarrow> (RustCallError + 'f) mem) \<Rightarrow>
     'l list \<Rightarrow> RustCallStatus \<Rightarrow> ('f \<times> RustCallStatus) mem" where
  "gen_ffi_function cap_of ffi_default args rust_fn convert_result lower_ret failed_lift ls call_status =
     rust_call cap_of ffi_default call_status
       (mbind (lift_closure args ls) (\<lambda>r. case r of
            Inr vs \<Rightarrow> mbind (rust_fn vs) (\<lambda>uniffi_result. lower_ret (convert_result uniffi_result))
          | Inl (name, e) \<Rightarrow> failed_lift \<lparr>lae_arg_name = name, lae_error = e\<rparr>))"

section \<open>Lifting a foreign result\<close>

text \<open>\<open>LiftReturn\<close>: \<open>ret\<close> is what \<open>Self::lift_error\<close> and \<open>handle_callback_unexpected_error\<close> give, by
  default a panic.\<close>

definition lift_error_default :: "RustBuffer \<Rightarrow> 'a mem" where
  "lift_error_default buf = mpanic ''Callback interface method returned unexpected error''"

definition unexpected_error_default :: "(string \<Rightarrow> string) \<Rightarrow> string \<Rightarrow> 'a mem" where
  "unexpected_error_default quoted reason =
     mpanic (''Callback interface failure: UnexpectedUniFFICallbackError(reason: '' @ quoted reason @ '')'')"

definition lift_foreign_return ::
  "(LiftError \<Rightarrow> string) \<Rightarrow> ('f \<Rightarrow> (LiftError + 'a) mem) \<Rightarrow> (RustBuffer \<Rightarrow> 'a mem) \<Rightarrow> (string \<Rightarrow> 'a mem) \<Rightarrow>
     'f \<Rightarrow> RustCallStatus \<Rightarrow> 'a mem" where
  "lift_foreign_return display lift_success lift_err unexpected ffi_return call_status =
     (case status_code call_status of
        Success \<Rightarrow> mbind (lift_success ffi_return) (\<lambda>r. case r of
            Inr a \<Rightarrow> mret a
          | Inl e \<Rightarrow> unexpected (display e))
      | Error \<Rightarrow> lift_err (error_buf call_status)
      | _ \<Rightarrow> mbind (string_try_lift (error_buf call_status)) (\<lambda>r. case r of
            Inr msg \<Rightarrow> unexpected msg
          | Inl e \<Rightarrow> unexpected (''(Error lifting message: '' @ display e)))"

text \<open>\<open>LiftReturn\<close> for \<open>Result<R, E>\<close>.  \<open>convert\<close> is the error type's
  \<open>From<UnexpectedUniFFICallbackError>\<close>, or the error of the generic converter.\<close>

definition unexpected_error_result :: "(string \<Rightarrow> string + 'e) \<Rightarrow> string \<Rightarrow> ('e + 'a) mem" where
  "unexpected_error_result convert reason =
     (case convert reason of Inr e \<Rightarrow> mret (Inl e) | Inl msg \<Rightarrow> mpanic msg)"

definition lift_success_result :: "('f \<Rightarrow> (LiftError + 'a) mem) \<Rightarrow> 'f \<Rightarrow> (LiftError + ('e + 'a)) mem" where
  "lift_success_result lift_r v =
     mbind (lift_r v) (\<lambda>r. mret (case r of Inl e \<Rightarrow> Inl e | Inr a \<Rightarrow> Inr (Inr a)))"

definition lift_error_result ::
  "(LiftError \<Rightarrow> string) \<Rightarrow> 'e lift_reader \<Rightarrow> (string \<Rightarrow> string + 'e) \<Rightarrow> RustBuffer \<Rightarrow> ('e + 'a) mem" where
  "lift_error_result display read_err convert buf =
     mbind (try_lift_from_rust_buffer read_err buf) (\<lambda>r. case r of
         Inr lifted_error \<Rightarrow> mret (Inl lifted_error)
       | Inl e \<Rightarrow> unexpected_error_result convert (''Error lifting from rust buffer: '' @ display e))"

section \<open>Lemmas\<close>

text \<open>Arguments that are passed as buffers: each reader with its buffer.\<close>

definition buffer_args :: "(string \<times> 'v lift_reader) list \<Rightarrow> (string \<times> (RustBuffer \<Rightarrow> (LiftError + 'v) mem)) list" where
  "buffer_args args = map (\<lambda>(name, r). (name, try_lift_from_rust_buffer r)) args"

text \<open>Buffers that are valid and own different blocks.\<close>

fun buffers_ok :: "Heap \<Rightarrow> RustBuffer list \<Rightarrow> bool" where
  "buffers_ok h [] = True"
| "buffers_ok h (b # bs) \<longleftrightarrow>
     valid_buffer h b \<and> (\<forall>c \<in> set bs. rb_capacity b \<noteq> 0 \<longrightarrow> rb_capacity c \<noteq> 0 \<longrightarrow> rb_data c \<noteq> rb_data b) \<and>
     buffers_ok h bs"

fun release_all :: "RustBuffer list \<Rightarrow> Heap \<Rightarrow> Heap" where
  "release_all [] h = h"
| "release_all (b # bs) h = release_all bs (release b h)"

lemma valid_after_release:
  assumes "valid_buffer h c" "rb_capacity b \<noteq> 0 \<longrightarrow> rb_capacity c \<noteq> 0 \<longrightarrow> rb_data c \<noteq> rb_data b"
  shows "valid_buffer (release b h) c" "buffer_contents (release b h) c = buffer_contents h c"
  using assms by (auto simp: valid_buffer_def release_def buffer_contents_def)

lemma buffers_ok_valid: "buffers_ok h bs \<Longrightarrow> c \<in> set bs \<Longrightarrow> valid_buffer h c"
  by (induction bs) auto

lemma buffers_ok_mono:
  assumes "buffers_ok h bs" "\<And>c. c \<in> set bs \<Longrightarrow> valid_buffer h' c"
  shows "buffers_ok h' bs"
  using assms by (induction bs) auto

lemma buffers_ok_release:
  assumes "buffers_ok h (b # bs)"
  shows "buffers_ok (release b h) bs"
    "\<And>c. c \<in> set bs \<Longrightarrow> buffer_contents (release b h) c = buffer_contents h c"
proof -
  have "buffers_ok h bs" using assms by simp
  then show "buffers_ok (release b h) bs"
    by (rule buffers_ok_mono) (use assms in \<open>auto intro!: valid_after_release dest: buffers_ok_valid\<close>)
  show "buffer_contents (release b h) c = buffer_contents h c" if "c \<in> set bs" for c
    using that assms by (auto intro!: valid_after_release(2) dest: buffers_ok_valid)
qed

lemma lift_closure_step:
  assumes "try_lift_from_rust_buffer r b h = Done (Inr v) h1"
    and "lift_closure (buffer_args args) bs h1 = Done res h2"
  shows "lift_closure (buffer_args ((name, r) # args)) (b # bs) h = Done (map_sum id (Cons v) res) h2"
  using assms by (cases res) (simp_all add: buffer_args_def mem_defs)

text \<open>Every reader takes its buffer whole: the arguments arrive and every block is released.\<close>

lemma lift_closure_ok:
  assumes "buffers_ok h bs" "length args = length bs" "length vs = length bs"
    and "\<forall>i < length bs. snd (args ! i) (buffer_contents h (bs ! i)) = Inr (vs ! i, [])"
  shows "lift_closure (buffer_args args) bs h = Done (Inr vs) (release_all bs h)"
  using assms
proof (induction bs arbitrary: h args vs)
  case Nil
  then show ?case by (simp add: buffer_args_def mret_def)
next
  case (Cons b bs)
  obtain name r args' where a: "args = (name, r) # args'" using Cons.prems(2) by (cases args) auto
  obtain v vs' where v: "vs = v # vs'" using Cons.prems(3) by (cases vs) auto
  have rd: "r (buffer_contents h b) = Inr (v, [])" using Cons.prems(4) a v by force
  have "valid_buffer h b" using Cons.prems(1) by simp
  from lift_releases [OF this, of r] rd
  have one: "try_lift_from_rust_buffer r b h = Done (Inr v) (release b h)" by simp
  have "\<forall>i < length bs. snd (args' ! i) (buffer_contents (release b h) (bs ! i)) = Inr (vs' ! i, [])"
  proof (intro allI impI)
    fix i assume i: "i < length bs"
    from buffers_ok_release(2) [OF Cons.prems(1)] i
    have "buffer_contents (release b h) (bs ! i) = buffer_contents h (bs ! i)" by simp
    moreover from Cons.prems(4) i have
      "snd (args ! Suc i) (buffer_contents h ((b # bs) ! Suc i)) = Inr (vs ! Suc i, [])" by force
    ultimately show "snd (args' ! i) (buffer_contents (release b h) (bs ! i)) = Inr (vs' ! i, [])"
      using a v by simp
  qed
  from Cons.IH [OF buffers_ok_release(1) [OF Cons.prems(1)] _ _ this] Cons.prems(2,3) a v
  have "lift_closure (buffer_args args') bs (release b h) = Done (Inr vs') (release_all bs (release b h))"
    by simp
  from lift_closure_step [OF one this, of name] a v show ?case by simp
qed

text \<open>The first argument that cannot be read stops the lifting; the buffers after it stay as they are.\<close>

lemma lift_closure_error:
  assumes "buffers_ok h (bs @ b # rest)" "length args = length bs"
    and "\<forall>i < length bs. \<exists>v. snd (args ! i) (buffer_contents h (bs ! i)) = Inr (v, [])"
    and "r (buffer_contents h b) = Inl e" "\<forall>m. e \<noteq> LiftPanic m"
  shows "lift_closure (buffer_args (args @ (name, r) # args')) (bs @ b # rest) h =
    Done (Inl (name, e)) (release_all (bs @ [b]) h)"
  using assms
proof (induction bs arbitrary: h args)
  case Nil
  then have "valid_buffer h b" by simp
  from lift_releases [OF this, of r] Nil
  have "try_lift_from_rust_buffer r b h = Done (Inl e) (release b h)" by (auto split: LiftError.split)
  with Nil show ?case by (simp add: buffer_args_def mem_defs)
next
  case (Cons c bs)
  obtain n s args1 where a: "args = (n, s) # args1" using Cons.prems(2) by (cases args) auto
  from Cons.prems(3) a obtain v where rd: "s (buffer_contents h c) = Inr (v, [])" by force
  have "valid_buffer h c" using Cons.prems(1) by simp
  from lift_releases [OF this, of s] rd
  have one: "try_lift_from_rust_buffer s c h = Done (Inr v) (release c h)" by simp
  have ok: "buffers_ok h (c # (bs @ b # rest))" using Cons.prems(1) by simp
  note same = buffers_ok_release(2) [OF ok]
  have reads: "\<forall>i < length bs. \<exists>v. snd (args1 ! i) (buffer_contents (release c h) (bs ! i)) = Inr (v, [])"
  proof (intro allI impI)
    fix i assume i: "i < length bs"
    from Cons.prems(3) i have
      "\<exists>v. snd (args ! Suc i) (buffer_contents h ((c # bs) ! Suc i)) = Inr (v, [])"
      by (metis Suc_less_eq length_Cons)
    with same [of "bs ! i"] i a
    show "\<exists>v. snd (args1 ! i) (buffer_contents (release c h) (bs ! i)) = Inr (v, [])" by simp
  qed
  have len: "length args1 = length bs" using Cons.prems(2) a by simp
  have err: "r (buffer_contents (release c h) b) = Inl e" using Cons.prems(4) same [of b] by simp
  have "lift_closure (buffer_args (args1 @ (name, r) # args')) (bs @ b # rest) (release c h) =
    Done (Inl (name, e)) (release_all (bs @ [b]) (release c h))"
    by (rule Cons.IH [OF buffers_ok_release(1) [OF ok] len reads err Cons.prems(5)])
  from lift_closure_step [OF one this, of n] a show ?case by simp
qed

lemma release_all_keeps:
  "\<forall>b \<in> set bs. rb_capacity b \<noteq> 0 \<longrightarrow> rb_data b \<noteq> a \<Longrightarrow> blocks (release_all bs h) a = blocks h a"
  by (induction bs arbitrary: h) (auto simp: release_def)

lemma buffers_ok_apart:
  assumes "buffers_ok h (bs @ rest)" "c \<in> set rest" "rb_capacity c \<noteq> 0"
    and "b \<in> set bs" "rb_capacity b \<noteq> 0"
  shows "rb_data b \<noteq> rb_data c"
  using assms
proof (induction bs)
  case (Cons x bs)
  have "c \<in> set (bs @ rest)" using Cons.prems(2) by simp
  moreover have "\<forall>c \<in> set (bs @ rest). rb_capacity x \<noteq> 0 \<longrightarrow> rb_capacity c \<noteq> 0 \<longrightarrow> rb_data c \<noteq> rb_data x"
    using Cons.prems(1) unfolding append_Cons buffers_ok.simps by blast
  moreover have "buffers_ok h (bs @ rest)"
    using Cons.prems(1) unfolding append_Cons buffers_ok.simps by blast
  ultimately show ?case using Cons.IH Cons.prems(2-5) by (metis set_ConsD)
qed simp

lemma heap_ok_release: "heap_ok h \<Longrightarrow> heap_ok (release b h)"
  by (simp add: heap_ok_def release_def)

lemma heap_ok_release_all: "heap_ok h \<Longrightarrow> heap_ok (release_all bs h)"
  by (induction bs arbitrary: h) (simp_all add: heap_ok_release)

section \<open>Properties\<close>

text \<open>C35: when every argument's buffer holds exactly a value of its type, the scaffolding function is
  the Rust function: it runs on the decoded arguments, in the heap where all argument buffers have
  been given back, under \<open>rust_call\<close>.\<close>

theorem scaffolding_calls_function:
  assumes "buffers_ok h bs" and "length args = length bs" and "length vs = length bs"
    and "\<forall>i < length bs. snd (args ! i) (buffer_contents h (bs ! i)) = Inr (vs ! i, [])"
  shows "gen_ffi_function cap_of d (buffer_args args) rust_fn conv lower_ret failed bs st h =
    rust_call cap_of d st (mbind (rust_fn vs) (\<lambda>r. lower_ret (conv r))) (release_all bs h)"
proof -
  have "mbind (lift_closure (buffer_args args) bs) (\<lambda>r. case r of
      Inr vs \<Rightarrow> mbind (rust_fn vs) (\<lambda>res. lower_ret (conv res))
    | Inl (name, e) \<Rightarrow> failed \<lparr>lae_arg_name = name, lae_error = e\<rparr>) h =
    mbind (rust_fn vs) (\<lambda>r. lower_ret (conv r)) (release_all bs h)"
    by (simp add: mbind_def lift_closure_ok [OF assms])
  then show ?thesis
    by (simp add: gen_ffi_function_def rust_call_def rust_call_with_out_status_def mbind_def)
qed

text \<open>A function of one boolean argument.\<close>

definition bool_heap :: Heap where
  "bool_heap = \<lparr>blocks = [5 \<mapsto> [1], 6 \<mapsto> [2], 7 \<mapsto> [0]], next_addr = 8\<rparr>"

abbreviation bool_buffer :: "nat \<Rightarrow> RustBuffer" where
  "bool_buffer a \<equiv> \<lparr>rb_capacity = 1, rb_len = 1, rb_data = a\<rparr>"

lemma bool_heap_reads:
  "bool_try_read [1] = Inr (True, [])" "bool_try_read [2] = Inl UnexpectedBool"
  by (simp_all add: bool_try_read_def reader_apply check_remaining_def get_word_def be_value_def
      from_result_def bool_try_lift_def)

theorem scaffolding_calls_function_witness:
  "gen_ffi_function id False (buffer_args [(''x'', bool_try_read)]) (\<lambda>vs. mret (\<not> hd vs)) id
     (lower_return mret) (\<lambda>_. mret (Inr True)) [bool_buffer 5] default_status bool_heap =
   rust_call id False default_status (mbind (mret (\<not> hd [True])) (\<lambda>r. lower_return mret (id r)))
     (release_all [bool_buffer 5] bool_heap)"
  by (rule scaffolding_calls_function)
     (simp_all add: valid_buffer_def bool_heap_def null_def buffer_contents_def bool_heap_reads)

text \<open>Returning a type that is no \<open>Result\<close> is the case in which no error can be converted.\<close>

lemma handle_failed_lift_plain: "handle_failed_lift debug = handle_failed_lift_result debug (\<lambda>_. None) lower_err"
  by (simp add: fun_eq_iff handle_failed_lift_def handle_failed_lift_result_def)

text \<open>What a scaffolding function does once its arguments have failed to lift.\<close>

lemma failed_lift_run:
  assumes "lift_closure lifts ls h = Done (Inl (name, e)) h1"
    and "failed_lift \<lparr>lae_arg_name = name, lae_error = e\<rparr> h1 = Done (Inl err) h2"
    and "case err of CallError b \<Rightarrow> b = buf \<and> h3 = h2 | InternalError msg \<Rightarrow> lower_string cap_of msg h2 = Done buf h3"
  shows "gen_ffi_function cap_of d lifts rust_fn conv lower_ret failed_lift ls st h =
    Done (d, st\<lparr>status_code := (case err of CallError b \<Rightarrow> Error | InternalError msg \<Rightarrow> UnexpectedError),
      error_buf := buf\<rparr>) h3"
  using assms
  by (auto simp: gen_ffi_function_def rust_call_def rust_call_with_out_status_def mem_defs split: RustCallError.splits)

text \<open>The buffer of the error, from a value's bytes or from a message, is a new block.\<close>

lemma failed_lift_buffer:
  assumes "heap_ok h" "capacity_ok cap_of"
    and "downcast e = None \<Longrightarrow> cap_of (26 + length name + length (debug e)) \<le> ISIZE_MAX"
    and "\<And>u. downcast e = Some u \<Longrightarrow> w u [] = Inr ((), err_bytes) \<and> cap_of (length err_bytes) \<le> ISIZE_MAX"
  shows "\<exists>err h2 buf h3. handle_failed_lift_result debug downcast (lower_into_rust_buffer cap_of w)
        \<lparr>lae_arg_name = name, lae_error = e\<rparr> h = Done (Inl err) h2 \<and>
    (case err of CallError b \<Rightarrow> downcast e \<noteq> None \<and> b = buf \<and> h3 = h2
       | InternalError msg \<Rightarrow> downcast e = None \<and> lower_string cap_of msg h2 = Done buf h3) \<and>
    buffer_contents h3 buf = (if downcast e = None then as_bytes (''Failed to convert arg '' @ [CHR 0x27] @ name @
        [CHR 0x27] @ '':'' @ [CHR 0x0A] @ debug e) else err_bytes) \<and>
    (\<forall>a. blocks h a \<noteq> None \<longrightarrow> blocks h3 a = blocks h a)"
proof (cases "downcast e")
  case None
  let ?msg = "''Failed to convert arg '' @ [CHR 0x27] @ name @ [CHR 0x27] @ '':'' @ [CHR 0x0A] @ debug e"
  have "length (as_bytes ?msg) = 26 + length name + length (debug e)" by simp
  with assms(3) None have "cap_of (length (as_bytes ?msg)) \<le> ISIZE_MAX" by metis
  from buffer_of_bytes_valid [OF assms(1,2) this] obtain buf h3 where "lower_string cap_of ?msg h = Done buf h3"
    "buffer_contents h3 buf = as_bytes ?msg" "\<forall>a. blocks h a \<noteq> None \<longrightarrow> blocks h3 a = blocks h a"
    unfolding lower_string_def by metis
  then show ?thesis
    by (intro exI [of _ "InternalError ?msg"] exI [of _ h] exI [of _ buf] exI [of _ h3])
      (simp add: None handle_failed_lift_result_def to_internal_error_def mret_def del: append.simps)
next
  case (Some u)
  with assms(4) have w: "w u [] = Inr ((), err_bytes)" "cap_of (length err_bytes) \<le> ISIZE_MAX" by auto
  from buffer_of_bytes_valid [OF assms(1,2) w(2)] obtain buf h3 where "buffer_of_bytes cap_of err_bytes h = Done buf h3"
    "buffer_contents h3 buf = err_bytes" "\<forall>a. blocks h a \<noteq> None \<longrightarrow> blocks h3 a = blocks h a" by blast
  then show ?thesis
    by (intro exI [of _ "CallError buf"] exI [of _ h3] exI [of _ buf])
      (simp add: Some w(1) handle_failed_lift_result_def lower_into_rust_buffer_def mem_defs)
qed

text \<open>C27: when an argument cannot be lifted, the Rust function does not run, and the buffers of the arguments
  after the failing one are leaked: nothing has taken them over, and their blocks are still allocated.  If
  the function returns a \<open>Result\<close> whose error type the lift error converts to, the status is \<open>Error\<close> with
  that error; otherwise it is \<open>UnexpectedError\<close> with a message that names the argument.\<close>

theorem failed_lift_leaks_rest:
  fixes d :: "'f"
  assumes "buffers_ok h (bs @ b # rest)" and "length args = length bs"
    and "\<forall>i < length bs. \<exists>v. snd (args ! i) (buffer_contents h (bs ! i)) = Inr (v, [])"
    and "r (buffer_contents h b) = Inl e" and "\<forall>m. e \<noteq> LiftPanic m"
    and "heap_ok h" and "capacity_ok cap_of"
    and "downcast e = None \<Longrightarrow> cap_of (26 + length name + length (debug e)) \<le> ISIZE_MAX"
    and "\<And>u. downcast e = Some u \<Longrightarrow> w u [] = Inr ((), err_bytes) \<and> cap_of (length err_bytes) \<le> ISIZE_MAX"
  shows "\<exists>st' h'. gen_ffi_function cap_of d (buffer_args (args @ (name, r) # args')) rust_fn conv lower_ret
        (handle_failed_lift_result debug downcast (lower_into_rust_buffer cap_of w)) (bs @ b # rest) st h = Done (d, st') h' \<and>
    (case downcast e of
       Some u \<Rightarrow> status_code st' = Error \<and> buffer_contents h' (error_buf st') = err_bytes
     | None \<Rightarrow> status_code st' = UnexpectedError \<and>
         buffer_contents h' (error_buf st') = as_bytes (''Failed to convert arg '' @ [CHR 0x27] @ name @
           [CHR 0x27] @ '':'' @ [CHR 0x0A] @ debug e)) \<and>
    (\<forall>c \<in> set rest. rb_capacity c \<noteq> 0 \<longrightarrow> valid_buffer h' c \<and> buffer_contents h' c = buffer_contents h c)"
proof -
  let ?h1 = "release_all (bs @ [b]) h"
  note run = lift_closure_error [where name = name and r = r and args' = args' and args = args
      and bs = bs and b = b and rest = rest and h = h and e = e, OF assms(1-5)]
  let ?failed = "handle_failed_lift_result debug downcast (lower_into_rust_buffer cap_of w) ::
    LiftError LiftArgsError \<Rightarrow> (RustCallError + 'f) mem"
  obtain err h2 buf h' where fail: "?failed \<lparr>lae_arg_name = name, lae_error = e\<rparr> ?h1 = Done (Inl err) h2"
    and err: "case err of CallError b \<Rightarrow> downcast e \<noteq> None \<and> b = buf \<and> h' = h2
       | InternalError msg \<Rightarrow> downcast e = None \<and> lower_string cap_of msg h2 = Done buf h'"
    and con: "buffer_contents h' buf = (if downcast e = None then as_bytes (''Failed to convert arg '' @ [CHR 0x27] @ name @
        [CHR 0x27] @ '':'' @ [CHR 0x0A] @ debug e) else err_bytes)"
    and keep: "\<forall>a. blocks ?h1 a \<noteq> None \<longrightarrow> blocks h' a = blocks ?h1 a"
    using failed_lift_buffer [where e = e and downcast = downcast and debug = debug and name = name and w = w
        and err_bytes = err_bytes, OF heap_ok_release_all [OF assms(6)] assms(7-9), of "bs @ [b]"] by metis
  have "case err of CallError b \<Rightarrow> b = buf \<and> h' = h2 | InternalError msg \<Rightarrow> lower_string cap_of msg h2 = Done buf h'"
    using err by (auto split: RustCallError.splits)
  note res = failed_lift_run [where failed_lift = ?failed
      and err = err and cap_of = cap_of and d = d and rust_fn = rust_fn and conv = conv and lower_ret = lower_ret and st = st,
      OF run fail this]
  have "valid_buffer h' c \<and> buffer_contents h' c = buffer_contents h c"
    if c: "c \<in> set rest" "rb_capacity c \<noteq> 0" for c
  proof -
    have ok: "buffers_ok h ((bs @ [b]) @ rest)" using assms(1) by simp
    have v: "valid_buffer h c" using buffers_ok_valid [OF assms(1), of c] c by simp
    then have live: "blocks h (rb_data c) \<noteq> None" using c by (auto simp: valid_buffer_def)
    have "blocks ?h1 (rb_data c) = blocks h (rb_data c)"
      by (rule release_all_keeps) (use buffers_ok_apart [OF ok c] in blast)
    with keep live have "blocks h' (rb_data c) = blocks h (rb_data c)" by metis
    with v c show ?thesis by (simp add: valid_buffer_def buffer_contents_def)
  qed
  with res con err show ?thesis by (cases err) (auto split: option.splits)
qed

theorem failed_lift_leaks_rest_witness:
  "\<exists>st' h'. gen_ffi_function id () (buffer_args ([(''a'', bool_try_read)] @ (''b'', bool_try_read) #
        [(''c'', bool_try_read)])) (\<lambda>vs. mret ()) id (lower_return mret)
        (handle_failed_lift_result (\<lambda>_. ''bad'') (\<lambda>e. if e = UnexpectedBool then Some True else None)
          (lower_into_rust_buffer id bool_write)) ([bool_buffer 5] @ bool_buffer 6 # [bool_buffer 7])
        default_status bool_heap = Done ((), st') h' \<and>
    status_code st' = Error \<and> buffer_contents h' (error_buf st') = [1] \<and> buffer_contents h' (bool_buffer 7) = [0]"
proof -
  have w: "bool_write True [] = Inr ((), [1])" by (simp add: bool_write_def bool_lower_def put_word_def put_def be_bytes_def)
  have one: "Suc 0 \<le> ISIZE_MAX" by (simp add: ISIZE_MAX_def)
  have ok: "buffers_ok bool_heap ([bool_buffer 5] @ bool_buffer 6 # [bool_buffer 7])" "heap_ok bool_heap" "capacity_ok id"
    by (auto simp: valid_buffer_def bool_heap_def null_def heap_ok_def dangling_def capacity_ok_def ISIZE_MAX_def)
  have rd: "\<forall>i < length [bool_buffer 5]. \<exists>v. snd ([(''a'', bool_try_read)] ! i) (buffer_contents bool_heap ([bool_buffer 5] ! i)) = Inr (v, [])"
    "bool_try_read (buffer_contents bool_heap (bool_buffer 6)) = Inl UnexpectedBool"
    by (simp_all add: bool_heap_def buffer_contents_def bool_heap_reads) (rule exI [of _ True], simp)
  have rest: "buffer_contents bool_heap (bool_buffer 7) = [0]" by (simp add: bool_heap_def buffer_contents_def)
  show ?thesis
    using one failed_lift_leaks_rest [where cap_of = id and h = bool_heap and bs = "[bool_buffer 5]" and
        b = "bool_buffer 6" and rest = "[bool_buffer 7]" and r = bool_try_read and e = UnexpectedBool and args = "[(''a'', bool_try_read)]" and name = "''b''" and
        args' = "[(''c'', bool_try_read)]" and d = "()" and rust_fn = "\<lambda>vs. mret ()" and conv = id and
        lower_ret = "lower_return mret" and debug = "\<lambda>_. ''bad''" and w = bool_write and err_bytes = "[1]" and
        downcast = "\<lambda>e. if e = UnexpectedBool then Some True else None" and st = default_status,
        OF ok(1) _ rd _ ok(2,3)] w rest by auto
qed

text \<open>C10: an error that a Rust function returns crosses the FFI, if its type round-trips (a flat error's does
  not, as \<open>flat_error_not_lifted_back\<close> shows).  When the arguments of the scaffolding function can be read
  and the function, run on them, returns the error, the scaffolding function reports the status \<open>Error\<close>, and
  a Rust caller that lifts that status back as a foreign result gets the same error; the argument buffers
  are given back and nothing of the error is left allocated.\<close>

theorem error_crosses_ffi:
  assumes args: "buffers_ok h bs" "length args = length bs" "length vs = length bs"
      "\<forall>i < length bs. snd (args ! i) (buffer_contents h (bs ! i)) = Inr (vs ! i, [])"
    and fn: "rust_fn vs (release_all bs h) = Done res h0" "conv res = Inl e" "heap_ok h0"
    and err: "codec w r ok" "ok e" "capacity_ok cap_of" "\<forall>bs. w e [] = Inr ((), bs) \<longrightarrow> cap_of (length bs) \<le> ISIZE_MAX"
  shows "\<exists>st h1. gen_ffi_function cap_of d (buffer_args args) rust_fn conv
        (lower_return_result lower_r (lower_into_rust_buffer cap_of w)) failed bs default_status h = Done (d, st) h1 \<and>
    status_code st = Error \<and>
    lift_foreign_return display lift_r (lift_error_result display r convert)
        (unexpected_error_result convert) d st h1 = Done (Inl e) (h0\<lparr>next_addr := next_addr h1\<rparr>)"
proof -
  from codec.lift_lower [OF err(1,2) fn(3) err(3)] err(4) obtain b h1 where
    b: "lower_into_rust_buffer cap_of w e h0 = Done b h1"
      "try_lift_from_rust_buffer r b h1 = Done (Inr e) (h0\<lparr>next_addr := next_addr h1\<rparr>)"
    by blast
  have "gen_ffi_function cap_of d (buffer_args args) rust_fn conv
      (lower_return_result lower_r (lower_into_rust_buffer cap_of w)) failed bs default_status h =
    Done (d, default_status\<lparr>status_code := Error, error_buf := b\<rparr>) h1"
    using lift_closure_ok [OF args] fn(1,2) b(1)
    by (simp add: gen_ffi_function_def rust_call_def rust_call_with_out_status_def lower_return_result_def mem_defs)
  moreover have "lift_foreign_return display lift_r (lift_error_result display r convert)
      (unexpected_error_result convert) d (default_status\<lparr>status_code := Error, error_buf := b\<rparr>) h1 =
    Done (Inl e) (h0\<lparr>next_addr := next_addr h1\<rparr>)"
    by (simp add: lift_foreign_return_def lift_error_result_def mem_defs b(2))
  ultimately show ?thesis by auto
qed

theorem error_crosses_ffi_witness:
  "\<exists>st h1. gen_ffi_function id () (buffer_args [(''x'', bool_try_read)]) (\<lambda>vs. mret (Inl (hd vs))) id
        (lower_return_result lower_return_unit (lower_into_rust_buffer id bool_write)) (\<lambda>_. mret (Inr ()))
        [bool_buffer 5] default_status bool_heap = Done ((), st) h1 \<and> status_code st = Error \<and>
    lift_foreign_return (\<lambda>_. '''') (\<lambda>_. mret (Inr (Inr ())))
        (lift_error_result (\<lambda>_. '''') bool_try_read Inl) (unexpected_error_result Inl) () st h1 =
      Done (Inl True) ((release_all [bool_buffer 5] bool_heap)\<lparr>next_addr := next_addr h1\<rparr>)"
proof (rule error_crosses_ffi [where vs = "[True]" and res = "Inl True", OF _ _ _ _ _ _ _ bool.codec_axioms])
  show "\<forall>bs. bool_write True [] = Inr ((), bs) \<longrightarrow> id (length bs) \<le> ISIZE_MAX"
    by (simp add: bool_write_def put_word_def put_def ISIZE_MAX_def)
  show "buffers_ok bool_heap [bool_buffer 5]" by (simp add: valid_buffer_def bool_heap_def null_def ISIZE_MAX_def)
  have "heap_ok bool_heap" by (auto simp: bool_heap_def heap_ok_def dangling_def ISIZE_MAX_def)
  then show "heap_ok (release_all [bool_buffer 5] bool_heap)" by (rule heap_ok_release_all)
qed (simp_all add: capacity_ok_def valid_buffer_def bool_heap_def null_def buffer_contents_def bool_heap_reads mret_def ISIZE_MAX_def)

end
