(* ===== verification/RustFuture.thy ===== *)
theory RustFuture
  imports Scaffolding "HOL-Library.Multiset"
begin

text \<open>
  \<open>uniffi_core/src/ffi/rustfuture\<close>: a Rust future that foreign code drives.  The first part has the
  operations of \<open>Scheduler\<close> and \<open>WrappedFuture\<close> as functions of their state, the second the
  concurrent system: the methods of \<open>RustFuture\<close> run on any thread, and every critical section of one
  of its two locks is a step.  Callbacks are invoked outside the locks, so an invocation is a step of its
  own.
\<close>

section \<open>The scheduler\<close>

datatype RustFuturePoll = Poll_Ready | Poll_Wake

datatype 'c State = State_Empty | State_Waked | State_Cancelled | State_Set 'c

definition sched_new :: "'c State" where
  "sched_new = State_Empty"

text \<open>Each operation gives the new state and the invocation to make after the lock is released.\<close>

fun sched_store :: "'c \<Rightarrow> 'c State \<Rightarrow> 'c State \<times> ('c \<times> RustFuturePoll) option" where
  "sched_store callback State_Empty = (State_Set callback, None)"
| "sched_store callback (State_Set old_callback) = (State_Set callback, Some (old_callback, Poll_Wake))"
| "sched_store callback State_Waked = (State_Empty, Some (callback, Poll_Wake))"
| "sched_store callback State_Cancelled = (State_Cancelled, Some (callback, Poll_Ready))"

fun sched_wake :: "'c State \<Rightarrow> 'c State \<times> ('c \<times> RustFuturePoll) option" where
  "sched_wake (State_Set callback) = (State_Empty, Some (callback, Poll_Wake))"
| "sched_wake State_Empty = (State_Waked, None)"
| "sched_wake State_Waked = (State_Waked, None)"
| "sched_wake State_Cancelled = (State_Cancelled, None)"

definition sched_cancel :: "'c State \<Rightarrow> 'c State \<times> ('c \<times> RustFuturePoll) option" where
  "sched_cancel st =
     (State_Cancelled, case st of State_Set cb \<Rightarrow> Some (cb, Poll_Ready) | _ \<Rightarrow> None)"

definition sched_is_cancelled :: "'c State \<Rightarrow> bool" where
  "sched_is_cancelled st \<longleftrightarrow> (case st of State_Cancelled \<Rightarrow> True | _ \<Rightarrow> False)"

fun_cases sched_store_Some: "sched_store c st = (st', Some i)"

section \<open>The wrapped future\<close>

datatype 'a Poll = Pending | Ready 'a

record ('f, 'v) WrappedFuture =
  wf_future :: "'f option"
  wf_result :: "(RustCallStatus + 'v) option"

text \<open>The poll function of \<open>WrappedFuture::new\<close>: the user's future (\<open>fut_poll\<close>) is polled inside
  \<open>try_rust_call\<close>, its value lowered and its lift errors handled.  A future that has finished is not
  given back.\<close>

definition poll_fn ::
  "(nat \<Rightarrow> nat) \<Rightarrow> ('r \<Rightarrow> (RustCallError + 'v) mem) \<Rightarrow> ('x LiftArgsError \<Rightarrow> (RustCallError + 'v) mem) \<Rightarrow>
     ('f \<Rightarrow> ('f \<times> ('x LiftArgsError + 'r) Poll) mem) \<Rightarrow> 'f \<Rightarrow> ('f option \<times> (RustCallStatus + 'v) Poll) mem" where
  "poll_fn cap_of lower_ret failed_lift fut_poll f =
     mbind (try_rust_call cap_of (mbind (fut_poll f) (\<lambda>(f', p). case p of
         Pending \<Rightarrow> mret (Inr (f', Pending))
       | Ready (Inr v) \<Rightarrow> mbind (lower_ret v) (\<lambda>r. mret (map_sum id (\<lambda>x. (f', Ready x)) r))
       | Ready (Inl e) \<Rightarrow> mbind (failed_lift e) (\<lambda>r. mret (map_sum id (\<lambda>x. (f', Ready x)) r)))))
     (\<lambda>call_result. mret (case call_result of
         Inr (f', Pending) \<Rightarrow> (Some f', Pending)
       | Inr (f', Ready v) \<Rightarrow> (None, Ready (Inr v))
       | Inl call_status \<Rightarrow> (None, Ready (Inl call_status))))"

definition wf_new :: "'f \<Rightarrow> ('f, 'v) WrappedFuture" where
  "wf_new f = \<lparr>wf_future = Some f, wf_result = None\<rparr>"

definition wf_poll ::
  "('f \<Rightarrow> ('f option \<times> (RustCallStatus + 'v) Poll) mem) \<Rightarrow> ('f, 'v) WrappedFuture \<Rightarrow>
     (bool \<times> ('f, 'v) WrappedFuture) mem" where
  "wf_poll inner w =
     (if wf_result w \<noteq> None then mret (True, w)
      else case wf_future w of
        Some f \<Rightarrow> mbind (inner f) (\<lambda>(f', p). mret (case p of
            Pending \<Rightarrow> (False, w\<lparr>wf_future := f'\<rparr>)
          | Ready result \<Rightarrow> (True, w\<lparr>wf_future := None, wf_result := Some result\<rparr>)))
      | None \<Rightarrow> mret (True, w))"

definition wf_free :: "('f, 'v) WrappedFuture \<Rightarrow> ('f, 'v) WrappedFuture" where
  "wf_free w = w\<lparr>wf_future := None, wf_result := None\<rparr>"

definition wf_complete ::
  "'v \<Rightarrow> RustCallStatus \<Rightarrow> ('f, 'v) WrappedFuture \<Rightarrow> ('v \<times> RustCallStatus) \<times> ('f, 'v) WrappedFuture" where
  "wf_complete ffi_default out_status w =
     (case wf_result w of
        Some (Inr v) \<Rightarrow> (v, out_status)
      | Some (Inl call_status) \<Rightarrow> (ffi_default, call_status)
      | None \<Rightarrow> (ffi_default, status_cancelled),
      wf_free (w\<lparr>wf_result := None\<rparr>))"

section \<open>Concurrent calls\<close>

text \<open>Where a call that is under way stands: \<open>poll\<close> before it asks \<open>is_cancelled\<close>, before it locks the
  future, before it stores its callback; an invocation that is still to be made; \<open>free\<close> between its two
  locks.\<close>

datatype 'c task =
    Poll_Check 'c
  | Poll_Future 'c
  | Poll_Store 'c
  | Invoke 'c RustFuturePoll
  | Free_Future

text \<open>\<open>rf_polled\<close> records the callbacks that \<open>poll\<close> was called with, \<open>rf_invoked\<close> the invocations made,
  in order.\<close>

record ('c, 'f, 'v) RustFutureState =
  rf_sched :: "'c State"
  rf_future :: "('f, 'v) WrappedFuture"
  rf_tasks :: "'c task multiset"
  rf_polled :: "'c multiset"
  rf_invoked :: "('c \<times> RustFuturePoll) list"

definition rf_new :: "'f \<Rightarrow> ('c, 'f, 'v) RustFutureState" where
  "rf_new f = \<lparr>rf_sched = sched_new, rf_future = wf_new f, rf_tasks = {#}, rf_polled = {#}, rf_invoked = []\<rparr>"

fun invocation :: "('c \<times> RustFuturePoll) option \<Rightarrow> 'c task multiset" where
  "invocation None = {#}"
| "invocation (Some (c, p)) = {#Invoke c p#}"

text \<open>A call under way takes its next step.  \<open>polls w ready w'\<close>: polling the wrapped future may change it
  to \<open>w'\<close> and say \<open>ready\<close>.\<close>

inductive rf_continue ::
  "(('f, 'v) WrappedFuture \<Rightarrow> bool \<Rightarrow> ('f, 'v) WrappedFuture \<Rightarrow> bool) \<Rightarrow>
     ('c, 'f, 'v) RustFutureState \<Rightarrow> ('c, 'f, 'v) RustFutureState \<Rightarrow> bool"
  for polls where
  poll_check: "rf_tasks s = add_mset (Poll_Check c) ts \<Longrightarrow>
     rf_continue polls s (s\<lparr>rf_tasks := add_mset
       (if sched_is_cancelled (rf_sched s) then Invoke c Poll_Ready else Poll_Future c) ts\<rparr>)"
| poll_future: "rf_tasks s = add_mset (Poll_Future c) ts \<Longrightarrow> polls (rf_future s) ready w \<Longrightarrow>
     rf_continue polls s (s\<lparr>rf_future := w,
       rf_tasks := add_mset (if ready then Invoke c Poll_Ready else Poll_Store c) ts\<rparr>)"
| poll_store: "rf_tasks s = add_mset (Poll_Store c) ts \<Longrightarrow> sched_store c (rf_sched s) = (st, i) \<Longrightarrow>
     rf_continue polls s (s\<lparr>rf_sched := st, rf_tasks := ts + invocation i\<rparr>)"
| invoke: "rf_tasks s = add_mset (Invoke c p) ts \<Longrightarrow>
     rf_continue polls s (s\<lparr>rf_tasks := ts, rf_invoked := rf_invoked s @ [(c, p)]\<rparr>)"
| free_future: "rf_tasks s = add_mset Free_Future ts \<Longrightarrow>
     rf_continue polls s (s\<lparr>rf_future := wf_free (rf_future s), rf_tasks := ts\<rparr>)"

text \<open>A new call: \<open>poll\<close>, \<open>cancel\<close>, \<open>complete\<close> and \<open>free\<close> from the foreign side, \<open>wake\<close> from a waker.\<close>

inductive rf_call :: "('c, 'f, 'v) RustFutureState \<Rightarrow> ('c, 'f, 'v) RustFutureState \<Rightarrow> bool" where
  poll: "rf_call s (s\<lparr>rf_tasks := add_mset (Poll_Check c) (rf_tasks s), rf_polled := add_mset c (rf_polled s)\<rparr>)"
| cancel: "sched_cancel (rf_sched s) = (st, i) \<Longrightarrow>
     rf_call s (s\<lparr>rf_sched := st, rf_tasks := rf_tasks s + invocation i\<rparr>)"
| wake: "sched_wake (rf_sched s) = (st, i) \<Longrightarrow>
     rf_call s (s\<lparr>rf_sched := st, rf_tasks := rf_tasks s + invocation i\<rparr>)"
| complete: "rf_call s (s\<lparr>rf_future := snd (wf_complete d out_status (rf_future s))\<rparr>)"
| free: "sched_cancel (rf_sched s) = (st, i) \<Longrightarrow>
     rf_call s (s\<lparr>rf_sched := st, rf_tasks := add_mset Free_Future (rf_tasks s + invocation i)\<rparr>)"

inductive rf_step for polls where
  call: "rf_call s s' \<Longrightarrow> rf_step polls s s'"
| continue: "rf_continue polls s s' \<Longrightarrow> rf_step polls s s'"

inductive_cases rf_continueE: "rf_continue polls s s'"
inductive_cases rf_callE: "rf_call s s'"
inductive_simps rf_step_simps: "rf_step polls s s'"

section \<open>Callbacks are neither lost nor doubled\<close>

fun task_callback :: "'c task \<Rightarrow> 'c multiset" where
  "task_callback (Poll_Check c) = {#c#}"
| "task_callback (Poll_Future c) = {#c#}"
| "task_callback (Poll_Store c) = {#c#}"
| "task_callback (Invoke c p) = {#c#}"
| "task_callback Free_Future = {#}"

fun stored_callback :: "'c State \<Rightarrow> 'c multiset" where
  "stored_callback (State_Set c) = {#c#}"
| "stored_callback _ = {#}"

definition tasks_callbacks :: "'c task multiset \<Rightarrow> 'c multiset" where
  "tasks_callbacks ts = \<Sum>\<^sub># (image_mset task_callback ts)"

lemma tasks_callbacks_simps [simp]:
  "tasks_callbacks {#} = {#}"
  "tasks_callbacks (add_mset t ts) = task_callback t + tasks_callbacks ts"
  "tasks_callbacks (ts + us) = tasks_callbacks ts + tasks_callbacks us"
  by (simp_all add: tasks_callbacks_def)

definition accounted :: "('c, 'f, 'v) RustFutureState \<Rightarrow> bool" where
  "accounted s \<longleftrightarrow> rf_polled s =
     tasks_callbacks (rf_tasks s) + stored_callback (rf_sched s) + mset (map fst (rf_invoked s))"

lemma store_accounts:
  "sched_store c st = (st', i) \<Longrightarrow>
     add_mset c (stored_callback st) = stored_callback st' + tasks_callbacks (invocation i)"
  by (cases st) auto

lemma wake_accounts:
  "sched_wake st = (st', i) \<Longrightarrow> stored_callback st = stored_callback st' + tasks_callbacks (invocation i)"
  by (cases st) auto

lemma cancel_accounts:
  "sched_cancel st = (st', i) \<Longrightarrow> stored_callback st = stored_callback st' + tasks_callbacks (invocation i)"
  by (cases st) (auto simp: sched_cancel_def)

lemma rf_call_accounted: "rf_call s s' \<Longrightarrow> accounted s \<Longrightarrow> accounted s'"
  by (erule rf_callE)
    (auto simp: accounted_def dest!: wake_accounts cancel_accounts)

lemma rf_continue_accounted: "rf_continue polls s s' \<Longrightarrow> accounted s \<Longrightarrow> accounted s'"
proof (erule rf_continueE)
  fix c ts st i
  assume "s' = s\<lparr>rf_sched := st, rf_tasks := ts + invocation i\<rparr>"
    "rf_tasks s = add_mset (Poll_Store c) ts" "sched_store c (rf_sched s) = (st, i)" "accounted s"
  with store_accounts [of c "rf_sched s" st i] show "accounted s'"
    by (simp add: accounted_def ac_simps)
qed (auto simp: accounted_def)

lemma rf_step_accounted: "rf_step polls s s' \<Longrightarrow> accounted s \<Longrightarrow> accounted s'"
  by (auto simp: rf_step_simps intro: rf_call_accounted rf_continue_accounted)

lemma accounted_new: "accounted (rf_new f)"
  by (simp add: accounted_def rf_new_def sched_new_def)

lemma reachable_accounted:
  assumes "(rf_step polls)\<^sup>*\<^sup>* (rf_new f) s"
  shows "accounted s"
  using assms by (induction rule: rtranclp_induct) (auto intro: accounted_new rf_step_accounted)

section \<open>Calls under way come to an end\<close>

fun task_rank :: "'c task \<Rightarrow> nat" where
  "task_rank (Poll_Check c) = 4"
| "task_rank (Poll_Future c) = 3"
| "task_rank (Poll_Store c) = 2"
| "task_rank (Invoke c p) = 1"
| "task_rank Free_Future = 1"

definition tasks_rank :: "'c task multiset \<Rightarrow> nat" where
  "tasks_rank ts = \<Sum>\<^sub># (image_mset task_rank ts)"

lemma tasks_rank_simps [simp]:
  "tasks_rank {#} = 0" "tasks_rank (add_mset t ts) = task_rank t + tasks_rank ts"
  "tasks_rank (ts + us) = tasks_rank ts + tasks_rank us"
  by (simp_all add: tasks_rank_def)

lemma tasks_rank_invocation: "tasks_rank (invocation i) \<le> 1"
  by (cases i) auto

lemma rf_continue_decreases: "rf_continue polls s s' \<Longrightarrow> tasks_rank (rf_tasks s') < tasks_rank (rf_tasks s)"
proof (erule rf_continueE)
  fix c ts st i
  assume "s' = s\<lparr>rf_sched := st, rf_tasks := ts + invocation i\<rparr>"
    "rf_tasks s = add_mset (Poll_Store c) ts"
  with tasks_rank_invocation [of i] show "tasks_rank (rf_tasks s') < tasks_rank (rf_tasks s)" by simp
qed auto

lemma rf_continue_progress:
  assumes "rf_tasks s \<noteq> {#}" "\<And>w. \<exists>ready w'. polls w ready w'"
  shows "\<exists>s'. rf_continue polls s s'"
proof -
  obtain t ts where t: "rf_tasks s = add_mset t ts" using assms(1) by (metis multiset_cases)
  show ?thesis
  proof (cases t)
    case (Poll_Future c)
    obtain ready w where "polls (rf_future s) ready w" using assms(2) by blast
    with t Poll_Future rf_continue.poll_future [of s c ts polls ready w] show ?thesis by blast
  next
    case (Poll_Store c)
    obtain st i where "sched_store c (rf_sched s) = (st, i)" by fastforce
    with t Poll_Store rf_continue.poll_store [of s c ts st i polls] show ?thesis by blast
  next
    case (Poll_Check c)
    with t rf_continue.poll_check [of s c ts polls] show ?thesis by blast
  next
    case (Invoke c p)
    with t rf_continue.invoke [of s c p ts polls] show ?thesis by blast
  next
    case Free_Future
    with t rf_continue.free_future [of s ts polls] show ?thesis by blast
  qed
qed

lemma rf_finishes:
  assumes "\<And>w. \<exists>ready w'. polls w ready w'"
  shows "\<exists>s'. (rf_continue polls)\<^sup>*\<^sup>* s s' \<and> rf_tasks s' = {#}"
proof (induction "tasks_rank (rf_tasks s)" arbitrary: s rule: less_induct)
  case less
  show ?case
  proof (cases "rf_tasks s = {#}")
    case False
    from rf_continue_progress [of s polls, OF this assms] obtain s1 where s1: "rf_continue polls s s1" by blast
    from less [OF rf_continue_decreases [OF s1]] s1 show ?thesis
      by (meson converse_rtranclp_into_rtranclp)
  qed blast
qed

section \<open>Invariants of the states\<close>

lemma store_cancelled [simp]: "sched_store c State_Cancelled = (State_Cancelled, Some (c, Poll_Ready))"
  by simp

lemma sched_store_cancelled_iff:
  "sched_store c st = (st', i) \<Longrightarrow> st' = State_Cancelled \<longleftrightarrow> st = State_Cancelled"
  by (cases st) auto

lemma sched_wake_cancelled_iff:
  "sched_wake st = (st', i) \<Longrightarrow> st' = State_Cancelled \<longleftrightarrow> st = State_Cancelled"
  by (cases st) auto

lemma sched_cancel_cancelled: "sched_cancel st = (st', i) \<Longrightarrow> st' = State_Cancelled"
  by (simp add: sched_cancel_def)

lemma sched_is_cancelled_iff: "sched_is_cancelled st \<longleftrightarrow> st = State_Cancelled"
  by (cases st) (simp_all add: sched_is_cancelled_def)

lemma rf_continue_cancelled: "rf_continue polls s s' \<Longrightarrow> rf_sched s = State_Cancelled \<Longrightarrow> rf_sched s' = State_Cancelled"
  by (erule rf_continueE) (auto simp: sched_store_cancelled_iff)

lemma rf_call_cancelled: "rf_call s s' \<Longrightarrow> rf_sched s = State_Cancelled \<Longrightarrow> rf_sched s' = State_Cancelled"
  by (erule rf_callE) (auto simp: sched_wake_cancelled_iff sched_cancel_cancelled)

lemma rf_steps_cancelled:
  assumes "(rf_step polls)\<^sup>*\<^sup>* s s'" "rf_sched s = State_Cancelled"
  shows "rf_sched s' = State_Cancelled"
  using assms
  by (induction rule: rtranclp_induct) (auto simp: rf_step_simps intro: rf_continue_cancelled rf_call_cancelled)

lemma rf_continues_steps: "(rf_continue polls)\<^sup>*\<^sup>* s s' \<Longrightarrow> (rf_step polls)\<^sup>*\<^sup>* s s'"
  by (induction rule: rtranclp_induct) (auto intro: rtranclp.rtrancl_into_rtrancl rf_step.continue)

text \<open>What polling the wrapped future may do, whatever the inner future does: a relation that contains
  every run of \<open>wf_poll\<close>.\<close>

definition any_poll :: "('f, 'v) WrappedFuture \<Rightarrow> bool \<Rightarrow> ('f, 'v) WrappedFuture \<Rightarrow> bool" where
  "any_poll w ready w' \<longleftrightarrow>
     (if wf_result w \<noteq> None \<or> wf_future w = None then ready \<and> w' = w
      else (\<not> ready \<and> wf_result w' = None) \<or>
           (ready \<and> wf_future w' = None \<and> wf_result w' \<noteq> None))"

lemma wf_poll_any:
  assumes "wf_poll inner w h = Done (ready, w') h'"
  shows "any_poll w ready w'"
  using assms
  by (auto simp: wf_poll_def any_poll_def mem_defs split: if_splits option.splits outcome.splits
      prod.splits Poll.splits)

text \<open>\<open>Ready\<close> is only said when the future has finished, has been completed or freed, or the scheduler is
  cancelled.\<close>

definition settled :: "('c, 'f, 'v) RustFutureState \<Rightarrow> bool" where
  "settled s \<longleftrightarrow> rf_sched s = State_Cancelled \<or> wf_future (rf_future s) = None"

definition told_ready :: "('c, 'f, 'v) RustFutureState \<Rightarrow> bool" where
  "told_ready s \<longleftrightarrow> (\<exists>c. Invoke c Poll_Ready \<in># rf_tasks s \<or> (c, Poll_Ready) \<in> set (rf_invoked s))"

definition future_ok :: "('c, 'f, 'v) RustFutureState \<Rightarrow> bool" where
  "future_ok s \<longleftrightarrow> (wf_result (rf_future s) \<noteq> None \<longrightarrow> wf_future (rf_future s) = None) \<and>
     (told_ready s \<longrightarrow> settled s)"

lemma in_invocation: "Invoke c p \<in># invocation i \<longleftrightarrow> i = Some (c, p)"
  by (cases i) auto

lemma sched_store_ready: "sched_store c st = (st', Some (d, Poll_Ready)) \<Longrightarrow> st = State_Cancelled"
  by (cases st) auto

lemma sched_wake_ready: "sched_wake st \<noteq> (st', Some (d, Poll_Ready))"
  by (cases st) auto

lemma rf_call_future_ok: "rf_call s s' \<Longrightarrow> future_ok s \<Longrightarrow> future_ok s'"
  by (erule rf_callE)
    (auto simp: future_ok_def told_ready_def settled_def in_invocation sched_wake_ready
      wf_complete_def wf_free_def sched_wake_cancelled_iff dest: sched_cancel_cancelled)

lemma rf_continue_future_ok: "rf_continue any_poll s s' \<Longrightarrow> future_ok s \<Longrightarrow> future_ok s'"
proof (erule rf_continueE)
  fix c ts ready w
  assume s': "s' = s\<lparr>rf_future := w,
      rf_tasks := add_mset (if ready then Invoke c Poll_Ready else Poll_Store c) ts\<rparr>"
    and ts: "rf_tasks s = add_mset (Poll_Future c) ts" and p: "any_poll (rf_future s) ready w"
    and ok: "future_ok s"
  have result: "wf_result w \<noteq> None \<longrightarrow> wf_future w = None"
    and none: "ready \<or> wf_future (rf_future s) = None \<longrightarrow> wf_future w = None"
    using p ok by (auto simp: any_poll_def future_ok_def split: if_splits)
  have "told_ready s' \<Longrightarrow> settled s'"
  proof (cases ready)
    case True
    with none s' show "settled s'" by (simp add: settled_def)
  next
    case False
    assume "told_ready s'"
    with False s' ts have "told_ready s" by (auto simp: told_ready_def)
    with ok none s' show "settled s'" by (auto simp: settled_def future_ok_def)
  qed
  with result s' show "future_ok s'" by (simp add: future_ok_def)
next
  fix c ts st i
  assume s': "s' = s\<lparr>rf_sched := st, rf_tasks := ts + invocation i\<rparr>"
    and ts: "rf_tasks s = add_mset (Poll_Store c) ts" and st: "sched_store c (rf_sched s) = (st, i)"
    and ok: "future_ok s"
  have "told_ready s' \<Longrightarrow> told_ready s \<or> st = State_Cancelled"
    using s' ts st sched_store_ready [of c "rf_sched s" st]
    by (auto simp: told_ready_def in_invocation sched_store_cancelled_iff [OF st])
  with ok s' sched_store_cancelled_iff [OF st] show "future_ok s'"
    by (auto simp: future_ok_def settled_def)
qed (auto simp: future_ok_def told_ready_def settled_def sched_is_cancelled_iff wf_free_def split: if_splits)

lemma reachable_future_ok:
  assumes "(rf_step any_poll)\<^sup>*\<^sup>* (rf_new f) s"
  shows "future_ok s"
  using assms
proof (induction rule: rtranclp_induct)
  case base
  show ?case by (simp add: future_ok_def told_ready_def rf_new_def wf_new_def)
next
  case (step s s')
  then show ?case by (auto simp: rf_step_simps intro: rf_call_future_ok rf_continue_future_ok)
qed

section \<open>Invocations that have been issued\<close>

fun task_issued :: "'c task \<Rightarrow> ('c \<times> RustFuturePoll) multiset" where
  "task_issued (Invoke c p) = {#(c, p)#}"
| "task_issued _ = {#}"

definition issued :: "('c, 'f, 'v) RustFutureState \<Rightarrow> ('c \<times> RustFuturePoll) multiset" where
  "issued s = \<Sum>\<^sub># (image_mset task_issued (rf_tasks s)) + mset (rf_invoked s)"

lemma issued_invocation [simp]:
  "\<Sum>\<^sub># (image_mset task_issued (invocation i)) = (case i of Some cp \<Rightarrow> {#cp#} | None \<Rightarrow> {#})"
  by (cases i) auto

lemma rf_call_issued: "rf_call s s' \<Longrightarrow> issued s \<subseteq># issued s'"
  by (erule rf_callE) (auto simp: issued_def)

lemma rf_continue_issued: "rf_continue polls s s' \<Longrightarrow> issued s \<subseteq># issued s'"
  by (erule rf_continueE) (auto simp: issued_def)

text \<open>A wake-up that has found no callback waits in the state, and leaves it only by an invocation.\<close>

definition wake_pending :: "'c State \<Rightarrow> bool" where
  "wake_pending st \<longleftrightarrow> st = State_Waked \<or> st = State_Cancelled"

lemma rf_step_wake_pending:
  assumes "rf_step polls s s'" "wake_pending (rf_sched s)"
  shows "wake_pending (rf_sched s') \<or> issued s \<subset># issued s'"
  using assms(1) unfolding rf_step_simps
proof
  assume "rf_call s s'"
  then show ?thesis
    by (rule rf_callE) (use assms(2) in \<open>auto simp: wake_pending_def sched_cancel_def\<close>)
next
  assume "rf_continue polls s s'"
  then show ?thesis
    by (rule rf_continueE) (use assms(2) in \<open>auto simp: wake_pending_def issued_def subset_mset.less_le\<close>)
qed

lemma rf_steps_wake_pending:
  assumes "(rf_step polls)\<^sup>*\<^sup>* s s'" "wake_pending (rf_sched s) \<or> before \<subset># issued s" "before \<subseteq># issued s"
  shows "(wake_pending (rf_sched s') \<or> before \<subset># issued s') \<and> before \<subseteq># issued s'"
  using assms
proof (induction rule: rtranclp_induct)
  case (step s1 s2)
  have "issued s1 \<subseteq># issued s2"
    using step.hyps(2) by (auto simp: rf_step_simps intro: rf_call_issued rf_continue_issued)
  with step rf_step_wake_pending [OF step.hyps(2)] show ?case
    by (meson subset_mset.le_less_trans subset_mset.less_le_trans subset_mset.order_trans)
qed auto

section \<open>Awaiting\<close>

text \<open>The value of a future that is polled at most \<open>n + 1\<close> times, and what the foreign loop sees of
  it.\<close>

primrec await :: "nat \<Rightarrow> ('f \<Rightarrow> ('f \<times> 'r Poll) mem) \<Rightarrow> 'f \<Rightarrow> 'r option mem" where
  "await 0 fut_poll f = mbind (fut_poll f) (\<lambda>(f', p). case p of Ready r \<Rightarrow> mret (Some r) | Pending \<Rightarrow> mret None)"
| "await (Suc n) fut_poll f =
     mbind (fut_poll f) (\<lambda>(f', p). case p of Ready r \<Rightarrow> mret (Some r) | Pending \<Rightarrow> await n fut_poll f')"

primrec poll_loop ::
  "nat \<Rightarrow> ('f \<Rightarrow> ('f option \<times> (RustCallStatus + 'v) Poll) mem) \<Rightarrow> ('f, 'v) WrappedFuture \<Rightarrow>
     ('f, 'v) WrappedFuture mem" where
  "poll_loop 0 inner w = mbind (wf_poll inner w) (\<lambda>(ready, w'). mret w')"
| "poll_loop (Suc n) inner w =
     mbind (wf_poll inner w) (\<lambda>(ready, w'). if ready then mret w' else poll_loop n inner w')"

text \<open>The closure of a call that blocks on the future.\<close>

definition blocking_body ::
  "nat \<Rightarrow> ('r \<Rightarrow> (RustCallError + 'v) mem) \<Rightarrow> ('x LiftArgsError \<Rightarrow> (RustCallError + 'v) mem) \<Rightarrow>
     ('f \<Rightarrow> ('f \<times> ('x LiftArgsError + 'r) Poll) mem) \<Rightarrow> 'f \<Rightarrow> (RustCallError + 'v) mem" where
  "blocking_body n lower_ret failed_lift fut_poll f =
     mbind (await n fut_poll f) (\<lambda>r. case r of
         Some (Inr v) \<Rightarrow> lower_ret v
       | Some (Inl e) \<Rightarrow> failed_lift e
       | None \<Rightarrow> mpanic ''not finished'')"

lemma wf_poll_new:
  "wf_poll inner (wf_new f) = mbind (inner f) (\<lambda>(f', p). mret (case p of
       Pending \<Rightarrow> (False, (wf_new f)\<lparr>wf_future := f'\<rparr>)
     | Ready result \<Rightarrow> (True, \<lparr>wf_future = None, wf_result = Some result\<rparr>)))"
  by (simp add: wf_poll_def wf_new_def fun_eq_iff mem_defs split: outcome.split prod.split Poll.split)

lemma poll_fn_pending:
  "fut_poll f h = Done (f', Pending) h' \<Longrightarrow>
     poll_fn cap_of lower_ret failed_lift fut_poll f h = Done (Some f', Pending) h'"
  by (simp add: poll_fn_def try_rust_call_def rust_call_with_out_status_def mem_defs)

lemma rust_call_cong: "callback h = callback' h' \<Longrightarrow>
  rust_call cap_of d st callback h = rust_call cap_of d st callback' h'"
  by (simp add: rust_call_def rust_call_with_out_status_def mem_defs)

text \<open>A poll that does not leave the future pending finishes the call.\<close>

lemma poll_finishes:
  assumes "\<And>f' h'. fut_poll f h \<noteq> Done (f', Pending) h'"
  shows "mbind (wf_poll (poll_fn cap_of lower_ret failed_lift fut_poll) (wf_new f))
      (\<lambda>(ready, w). k ready w) h =
    (case rust_call_with_out_status cap_of default_status
        (mbind (fut_poll f) (\<lambda>(f', p). case p of Pending \<Rightarrow> mpanic ''not finished''
           | Ready (Inr v) \<Rightarrow> lower_ret v | Ready (Inl e) \<Rightarrow> failed_lift e)) h of
       Done (r, st) h' \<Rightarrow> k True \<lparr>wf_future = None,
         wf_result = Some (case r of Some v \<Rightarrow> Inr v | None \<Rightarrow> Inl st)\<rparr> h'
     | Panic p h' \<Rightarrow> Panic p h' | Undefined \<Rightarrow> Undefined)"
proof (cases "fut_poll f h")
  case (Done fp h1)
  obtain f' p where fp: "fp = (f', p)" by fastforce
  with Done assms obtain x where x: "p = Ready x" by (cases p) auto
  show ?thesis
  proof (cases x)
    case (Inr v)
    with Done fp x show ?thesis
      by (cases "lower_ret v h1")
        (auto simp: wf_poll_new poll_fn_def try_rust_call_def rust_call_with_out_status_def mem_defs
          split: sum.split RustCallError.split outcome.split)
  next
    case (Inl e)
    with Done fp x show ?thesis
      by (cases "failed_lift e h1")
        (auto simp: wf_poll_new poll_fn_def try_rust_call_def rust_call_with_out_status_def mem_defs
          split: sum.split RustCallError.split outcome.split)
  qed
next
  case (Panic c h1)
  then show ?thesis
    by (auto simp: wf_poll_new poll_fn_def try_rust_call_def rust_call_with_out_status_def mem_defs
        split: outcome.split)
next
  case Undefined
  then show ?thesis
    by (simp add: wf_poll_new poll_fn_def try_rust_call_def rust_call_with_out_status_def mem_defs)
qed

lemma blocking_body_last:
  assumes "\<And>f' h'. fut_poll f h \<noteq> Done (f', Pending) h'"
  shows "blocking_body n lower_ret failed_lift fut_poll f h =
    mbind (fut_poll f) (\<lambda>(f', p). case p of Pending \<Rightarrow> mpanic ''not finished''
           | Ready (Inr v) \<Rightarrow> lower_ret v | Ready (Inl e) \<Rightarrow> failed_lift e) h"
  using assms by (cases n) (auto simp: blocking_body_def mem_defs split: outcome.split prod.split Poll.split)

lemma poll_loop_last:
  assumes np: "\<And>f' h'. fut_poll f h \<noteq> Done (f', Pending) h'"
  shows "mbind (poll_loop n (poll_fn cap_of lower_ret failed_lift fut_poll) (wf_new f))
      (\<lambda>w. mret (fst (wf_complete d default_status w))) h =
    rust_call cap_of d default_status (blocking_body n lower_ret failed_lift fut_poll f) h"
proof -
  let ?inner = "poll_fn cap_of lower_ret failed_lift fut_poll"
  let ?next = "\<lambda>ready w. mbind (if ready \<or> n = 0 then mret w else poll_loop (n - 1) ?inner w)
      (\<lambda>w. mret (fst (wf_complete d default_status w)))"
  have "mbind (poll_loop n ?inner (wf_new f)) (\<lambda>w. mret (fst (wf_complete d default_status w))) h =
    mbind (wf_poll ?inner (wf_new f)) (\<lambda>(ready, w). ?next ready w) h"
    by (cases n) (auto simp: mem_defs split: outcome.split prod.split)
  also have "\<dots> = rust_call cap_of d default_status (blocking_body n lower_ret failed_lift fut_poll f) h"
    unfolding poll_finishes [of fut_poll, OF np]
      rust_call_cong [of "blocking_body n lower_ret failed_lift fut_poll f" h
        "mbind (fut_poll f) (\<lambda>(f', p). case p of Pending \<Rightarrow> mpanic ''not finished''
           | Ready (Inr v) \<Rightarrow> lower_ret v | Ready (Inl e) \<Rightarrow> failed_lift e)" h,
        OF blocking_body_last [of fut_poll f h n lower_ret failed_lift, OF np]]
    by (auto simp: rust_call_def mem_defs wf_complete_def rust_call_with_out_status_def default_status_def
        split: outcome.split sum.split RustCallError.split)
  finally show ?thesis .
qed

lemma poll_loop_awaits:
  assumes "\<And>h'. await n fut_poll f h \<noteq> Done None h'"
  shows "mbind (poll_loop n (poll_fn cap_of lower_ret failed_lift fut_poll) (wf_new f))
      (\<lambda>w. mret (fst (wf_complete d default_status w))) h =
    rust_call cap_of d default_status (blocking_body n lower_ret failed_lift fut_poll f) h"
  using assms
proof (induction n arbitrary: f h)
  case (0 f h)
  have "fut_poll f h \<noteq> Done (f', Pending) h'" for f' h'
    using 0 [of h'] by (auto simp: mem_defs)
  then show ?case by (rule poll_loop_last)
next
  case (Suc n f h)
  let ?inner = "poll_fn cap_of lower_ret failed_lift fut_poll"
  show ?case
  proof (cases "\<exists>f' h'. fut_poll f h = Done (f', Pending) h'")
    case True
    then obtain f' h' where p: "fut_poll f h = Done (f', Pending) h'" by blast
    have w: "wf_poll ?inner (wf_new f) h = Done (False, wf_new f') h'"
      by (simp add: wf_poll_new mem_defs poll_fn_pending [of fut_poll, OF p]) (simp add: wf_new_def)
    have a: "await n fut_poll f' h' \<noteq> Done None h''" for h''
      using Suc.prems [of h''] p by (simp add: mem_defs)
    have "mbind (poll_loop (Suc n) ?inner (wf_new f)) (\<lambda>w. mret (fst (wf_complete d default_status w))) h =
      mbind (poll_loop n ?inner (wf_new f')) (\<lambda>w. mret (fst (wf_complete d default_status w))) h'"
      using w by (simp add: mem_defs)
    also have "\<dots> = rust_call cap_of d default_status (blocking_body n lower_ret failed_lift fut_poll f') h'"
      by (rule Suc.IH [OF a])
    also have "\<dots> = rust_call cap_of d default_status (blocking_body (Suc n) lower_ret failed_lift fut_poll f) h"
      by (rule rust_call_cong) (simp add: blocking_body_def mem_defs p)
    finally show ?thesis .
  next
    case False
    show ?thesis by (rule poll_loop_last) (use False in blast)
  qed
qed

section \<open>Properties\<close>

text \<open>C3: every callback that \<open>poll\<close> was ever called with is in exactly one place, in every state that
  any interleaving of polls, wake-ups, cancellations, completions and frees reaches: still carried by a
  poll or an invocation under way, or stored in the scheduler, or invoked.  So none is lost and none is
  invoked twice.\<close>

theorem callbacks_exactly_once:
  assumes "(rf_step polls)\<^sup>*\<^sup>* (rf_new f) s"
  shows "rf_polled s =
    tasks_callbacks (rf_tasks s) + stored_callback (rf_sched s) + mset (map fst (rf_invoked s))"
  using reachable_accounted [OF assms] by (simp add: accounted_def)

theorem callbacks_exactly_once_witness:
  "\<exists>s :: (nat, nat, nat) RustFutureState. rf_call (rf_new 0) s \<and> rf_polled s = {#7#} \<and>
     tasks_callbacks (rf_tasks s) + stored_callback (rf_sched s) + mset (map fst (rf_invoked s)) = {#7#}"
proof -
  let ?init = "rf_new 0 :: (nat, nat, nat) RustFutureState"
  let ?s = "?init\<lparr>rf_tasks := add_mset (Poll_Check 7) (rf_tasks ?init), rf_polled := add_mset 7 (rf_polled ?init)\<rparr>"
  have call: "rf_call ?init ?s" by (rule rf_call.poll)
  then have "(rf_step any_poll)\<^sup>*\<^sup>* ?init ?s" by (auto intro: rf_step.call)
  from callbacks_exactly_once [OF this] have
    "rf_polled ?s = tasks_callbacks (rf_tasks ?s) + stored_callback (rf_sched ?s) + mset (map fst (rf_invoked ?s))" .
  moreover have "rf_polled ?s = {#7#}" by (simp add: rf_new_def)
  ultimately show ?thesis using call by metis
qed

text \<open>C24: after a cancellation every callback is delivered.  From any reachable cancelled state the calls
  under way can only take finitely many steps; when none is left to take, whatever their order, every
  callback ever polled with has been invoked exactly once.\<close>

theorem cancelled_delivers_all:
  assumes "(rf_step any_poll)\<^sup>*\<^sup>* (rf_new f) s" and "rf_sched s = State_Cancelled"
    and "(rf_continue any_poll ^^ k) s s'"
  shows "k \<le> tasks_rank (rf_tasks s) \<and>
    (case rf_tasks s' = {#} of
       True \<Rightarrow> mset (map fst (rf_invoked s')) = rf_polled s
     | False \<Rightarrow> \<exists>s''. rf_continue any_poll s' s'')"
proof -
  have steps: "(rf_continue any_poll)\<^sup>*\<^sup>* s s'" using assms(3) by (rule relpowp_imp_rtranclp)
  note all = rf_continues_steps [OF steps]
  have acc: "accounted s'" using reachable_accounted assms(1) all by (metis rtranclp_trans)
  have canc: "rf_sched s' = State_Cancelled" by (rule rf_steps_cancelled [OF all assms(2)])
  have polled: "rf_polled s' = rf_polled s"
    using steps by (induction rule: rtranclp_induct) (auto elim: rf_continueE)
  have "k + tasks_rank (rf_tasks s') \<le> tasks_rank (rf_tasks s)"
    using assms(3)
  proof (induction k arbitrary: s')
    case (Suc k)
    then obtain s1 where "(rf_continue any_poll ^^ k) s s1" "rf_continue any_poll s1 s'" by auto
    with Suc.IH rf_continue_decreases [of any_poll s1 s'] show ?case by fastforce
  qed simp
  moreover have "\<exists>s''. rf_continue any_poll s' s''" if "rf_tasks s' \<noteq> {#}"
  proof (rule rf_continue_progress [OF that])
    fix w show "\<exists>ready w'. any_poll w ready w'"
      by (cases "wf_result w \<noteq> None \<or> wf_future w = None")
        (auto simp: any_poll_def intro: exI [of _ "\<lparr>wf_future = None, wf_result = None\<rparr>"])
  qed
  moreover have "mset (map fst (rf_invoked s')) = rf_polled s" if "rf_tasks s' = {#}"
    using acc polled canc that by (simp add: accounted_def)
  ultimately show ?thesis by (auto split: bool.split)
qed

theorem cancelled_delivers_all_witness:
  "\<exists>s :: (nat, nat, nat) RustFutureState. (rf_step any_poll)\<^sup>*\<^sup>* (rf_new 0) s \<and>
     rf_tasks s = {#} \<and> mset (map fst (rf_invoked s)) = {#7#}"
proof -
  let ?a = "rf_new 0 :: (nat, nat, nat) RustFutureState"
  let ?b = "?a\<lparr>rf_tasks := add_mset (Poll_Check 7) (rf_tasks ?a), rf_polled := add_mset 7 (rf_polled ?a)\<rparr>"
  let ?c = "?b\<lparr>rf_sched := State_Cancelled, rf_tasks := rf_tasks ?b + invocation None\<rparr>"
  let ?d = "?c\<lparr>rf_tasks := {#Invoke 7 Poll_Ready#}\<rparr>"
  let ?e = "?d\<lparr>rf_tasks := {#}, rf_invoked := [(7, Poll_Ready)]\<rparr>"
  have "rf_call ?a ?b" by (rule rf_call.poll)
  moreover have "rf_call ?b ?c"
    by (rule rf_call.cancel) (simp add: sched_cancel_def rf_new_def sched_new_def)
  ultimately have reach: "(rf_step any_poll)\<^sup>*\<^sup>* ?a ?c"
    by (meson rf_step.call converse_rtranclp_into_rtranclp r_into_rtranclp)
  have "rf_continue any_poll ?c ?d"
    using rf_continue.poll_check [of ?c 7 "{#}" any_poll] by (simp add: rf_new_def sched_is_cancelled_def)
  moreover have "rf_continue any_poll ?d ?e"
    using rf_continue.invoke [of ?d 7 Poll_Ready "{#}" any_poll] by (simp add: rf_new_def)
  ultimately have run: "(rf_continue any_poll ^^ 2) ?c ?e" by (auto simp: numeral_2_eq_2)
  from cancelled_delivers_all [OF reach _ run]
  have "mset (map fst (rf_invoked ?e)) = rf_polled ?c" by simp
  moreover have "(rf_step any_poll)\<^sup>*\<^sup>* ?a ?e"
    using reach rf_continues_steps [OF relpowp_imp_rtranclp [OF run]] by (rule rtranclp_trans)
  ultimately show ?thesis by (intro exI [of _ ?e]) (simp add: rf_new_def)
qed

text \<open>C25: a wake-up is not lost.  After \<open>wake\<close> is called in any state, at every later point either a
  further invocation has been issued, or the wake-up (or a cancellation) still waits in the scheduler,
  and then storing a callback issues its invocation at once.\<close>

theorem no_lost_wake:
  assumes "sched_wake (rf_sched s) = (st, i)"
    and "(rf_step polls)\<^sup>*\<^sup>* (s\<lparr>rf_sched := st, rf_tasks := rf_tasks s + invocation i\<rparr>) s'"
  shows "issued s \<subset># issued s' \<or>
    (wake_pending (rf_sched s') \<and> (\<forall>c. snd (sched_store c (rf_sched s')) \<in> {Some (c, Poll_Wake), Some (c, Poll_Ready)}))"
proof -
  let ?w = "s\<lparr>rf_sched := st, rf_tasks := rf_tasks s + invocation i\<rparr>"
  have "wake_pending (rf_sched ?w) \<or> issued s \<subset># issued ?w"
    using assms(1) by (cases "rf_sched s") (auto simp: wake_pending_def issued_def subset_mset.less_le)
  moreover have "issued s \<subseteq># issued ?w" by (simp add: issued_def)
  ultimately have "wake_pending (rf_sched s') \<or> issued s \<subset># issued s'"
    using rf_steps_wake_pending [OF assms(2)] by blast
  then show ?thesis by (auto simp: wake_pending_def)
qed

theorem no_lost_wake_witness:
  "issued (rf_new 0 :: (nat, nat, nat) RustFutureState) \<subset># issued ((rf_new 0)\<lparr>rf_tasks := {#Invoke 7 Poll_Wake#}\<rparr> :: (nat, nat, nat) RustFutureState)"
proof -
  let ?a = "rf_new 0 :: (nat, nat, nat) RustFutureState"
  let ?b = "?a\<lparr>rf_sched := State_Waked, rf_tasks := rf_tasks ?a + invocation None\<rparr>"
  let ?c = "?b\<lparr>rf_tasks := add_mset (Poll_Check 7) (rf_tasks ?b), rf_polled := add_mset 7 (rf_polled ?b)\<rparr>"
  let ?d = "?c\<lparr>rf_tasks := {#Poll_Future 7#}\<rparr>"
  let ?e = "?d\<lparr>rf_future := wf_new 0, rf_tasks := {#Poll_Store 7#}\<rparr>"
  let ?f = "?e\<lparr>rf_sched := State_Empty, rf_tasks := {#Invoke 7 Poll_Wake#}\<rparr>"
  have "rf_step any_poll ?b ?c" by (rule rf_step.call) (rule rf_call.poll)
  moreover have "rf_step any_poll ?c ?d"
    using rf_continue.poll_check [of ?c 7 "{#}" any_poll]
    by (auto intro!: rf_step.continue simp: rf_new_def sched_is_cancelled_def)
  moreover have "rf_step any_poll ?d ?e"
    using rf_continue.poll_future [of ?d 7 "{#}" any_poll False "wf_new 0"]
    by (auto intro!: rf_step.continue simp: rf_new_def any_poll_def wf_new_def)
  moreover have "rf_step any_poll ?e ?f"
    using rf_continue.poll_store [of ?e 7 "{#}" State_Empty "Some (7, Poll_Wake)" any_poll]
    by (auto intro!: rf_step.continue simp: rf_new_def)
  ultimately have run: "(rf_step any_poll)\<^sup>*\<^sup>* ?b ?f"
    by (meson converse_rtranclp_into_rtranclp r_into_rtranclp)
  have "sched_wake (rf_sched ?a) = (State_Waked, None)" by (simp add: rf_new_def sched_new_def)
  from no_lost_wake [OF this run] show ?thesis
    by (auto simp: wake_pending_def issued_def)
qed

text \<open>C30: \<open>Ready\<close> is the truth.  In every reachable state a stored result means that the future is gone;
  and when some callback was told \<open>Ready\<close>, or is about to be, there is nothing left to wait for: the
  future has finished, or it was completed or freed, or the scheduler is cancelled.\<close>

theorem ready_means_settled:
  assumes "(rf_step any_poll)\<^sup>*\<^sup>* (rf_new f) s"
  shows "(wf_result (rf_future s) = None \<or> wf_future (rf_future s) = None) \<and>
    (\<forall>c. Invoke c Poll_Ready \<in># rf_tasks s \<or> (c, Poll_Ready) \<in> set (rf_invoked s) \<longrightarrow>
       rf_sched s = State_Cancelled \<or> wf_future (rf_future s) = None)"
  using reachable_future_ok [OF assms]
  by (auto simp: future_ok_def told_ready_def settled_def)

theorem ready_means_settled_witness:
  "\<exists>s :: (nat, nat, nat) RustFutureState. Invoke 7 Poll_Ready \<in># rf_tasks s \<and>
     (rf_sched s = State_Cancelled \<or> wf_future (rf_future s) = None)"
proof -
  let ?a = "rf_new 0 :: (nat, nat, nat) RustFutureState"
  let ?b = "?a\<lparr>rf_tasks := add_mset (Poll_Check 7) (rf_tasks ?a), rf_polled := add_mset 7 (rf_polled ?a)\<rparr>"
  let ?c = "?b\<lparr>rf_tasks := {#Poll_Future 7#}\<rparr>"
  let ?done = "\<lparr>wf_future = None, wf_result = Some (Inr 3)\<rparr> :: (nat, nat) WrappedFuture"
  let ?d = "?c\<lparr>rf_future := ?done, rf_tasks := {#Invoke 7 Poll_Ready#}\<rparr>"
  have "rf_step any_poll ?a ?b" by (rule rf_step.call) (rule rf_call.poll)
  moreover have "rf_step any_poll ?b ?c"
    using rf_continue.poll_check [of ?b 7 "{#}" any_poll]
    by (auto intro!: rf_step.continue simp: rf_new_def sched_new_def sched_is_cancelled_def)
  moreover have "rf_step any_poll ?c ?d"
    using rf_continue.poll_future [of ?c 7 "{#}" any_poll True ?done]
    by (auto intro!: rf_step.continue simp: rf_new_def any_poll_def wf_new_def)
  ultimately have "(rf_step any_poll)\<^sup>*\<^sup>* ?a ?d"
    by (meson converse_rtranclp_into_rtranclp r_into_rtranclp)
  from ready_means_settled [OF this] show ?thesis by (intro exI [of _ ?d]) auto
qed

text \<open>C4: driving a future through the FFI is the same as waiting for it in one call.  When the future
  finishes within \<open>n + 1\<close> polls, polling it in a loop and completing it gives the value, the status and
  the heap that \<open>rust_call\<close> gives on a closure that awaits the same future: results, errors, failed
  lifts and panics alike.\<close>

theorem async_call_is_sync_call:
  assumes "\<forall>h'. await n fut_poll f h \<noteq> Done None h'"
  shows "mbind (poll_loop n (poll_fn cap_of lower_ret failed_lift fut_poll) (wf_new f))
      (\<lambda>w. mret (fst (wf_complete d default_status w))) h =
    rust_call cap_of d default_status (blocking_body n lower_ret failed_lift fut_poll f) h"
  by (rule poll_loop_awaits) (use assms in blast)

text \<open>A future that counts down and then gives \<open>5\<close>.\<close>

definition countdown :: "nat \<Rightarrow> (nat \<times> (string LiftArgsError + nat) Poll) mem" where
  "countdown k = mret (k - 1, if k = 0 then Ready (Inr 5) else Pending)"

theorem async_call_is_sync_call_witness:
  "mbind (poll_loop 2 (poll_fn id (lower_return mret) (handle_failed_lift id) countdown) (wf_new 2))
      (\<lambda>w. mret (fst (wf_complete 0 default_status w))) empty_heap = Done (5, default_status) empty_heap"
proof -
  have "await 2 countdown 2 empty_heap = Done (Some (Inr 5)) empty_heap"
    by (simp add: numeral_2_eq_2 countdown_def mem_defs)
  then have "\<forall>h'. await 2 countdown 2 empty_heap \<noteq> Done None h'" by simp
  from async_call_is_sync_call [OF this, of id "lower_return mret" "handle_failed_lift id" 0] show ?thesis
    by (simp add: rust_call_def rust_call_with_out_status_def blocking_body_def numeral_2_eq_2
        countdown_def mem_defs lower_return_def)
qed

end
