(* ===== verification/FfiSerialize.thy ===== *)
theory FfiSerialize
  imports Scaffolding
begin

text \<open>
  \<open>uniffi_core/src/ffi/ffiserialize.rs\<close>: FFI values in buffers of 8-byte elements, and the FFI-buffer
  form of the scaffolding functions that \<open>uniffi_macros/src/export/scaffolding.rs\<close> generates.

  An element is the union \<open>FfiBufferElement\<close>: eight bytes, of which a field takes as many as its type
  has, from the front.  Storing a field leaves the other bytes as they were.  Integers are in the
  machine's byte order, here least significant byte first; a float is its bit pattern, a pointer its
  address.  \<open>None\<close> is an index out of bounds, which panics.
\<close>

section \<open>Elements\<close>

type_synonym FfiBufferElement = bytes

definition element_default :: FfiBufferElement where
  "element_default = replicate 8 0"

definition elements :: "FfiBufferElement list \<Rightarrow> bool" where
  "elements buf \<longleftrightarrow> (\<forall>e \<in> set buf. length e = 8)"

text \<open>The field of a union that has the type of a word, and storing it.\<close>

definition field_get :: "FfiBufferElement \<Rightarrow> 'a::len word" where
  "field_get e = word_of_nat (le_value (take (LENGTH('a) div 8) e))"

definition field_put :: "FfiBufferElement \<Rightarrow> 'a::len word \<Rightarrow> FfiBufferElement" where
  "field_put e v = le_bytes (LENGTH('a) div 8) (unat v) @ drop (LENGTH('a) div 8) e"

definition simple_get :: "FfiBufferElement list \<Rightarrow> 'a::len word option" where
  "simple_get buf = (case buf of [] \<Rightarrow> None | e # _ \<Rightarrow> Some (field_get e))"

definition simple_put :: "FfiBufferElement list \<Rightarrow> 'a::len word \<Rightarrow> FfiBufferElement list option" where
  "simple_put buf v = (case buf of [] \<Rightarrow> None | e # rest \<Rightarrow> Some (field_put e v # rest))"

definition bool_get :: "FfiBufferElement list \<Rightarrow> bool option" where
  "bool_get buf = map_option (\<lambda>i :: u8. i = 1) (simple_get buf)"

definition bool_put :: "FfiBufferElement list \<Rightarrow> bool \<Rightarrow> FfiBufferElement list option" where
  "bool_put buf v = simple_put buf (if v then 1 else 0 :: u8)"

definition unit_get :: "FfiBufferElement list \<Rightarrow> unit option" where
  "unit_get buf = Some ()"

definition unit_put :: "FfiBufferElement list \<Rightarrow> unit \<Rightarrow> FfiBufferElement list option" where
  "unit_put buf v = Some buf"

definition pointer_get :: "FfiBufferElement list \<Rightarrow> nat option" where
  "pointer_get buf = map_option unat (simple_get buf :: u64 option)"

definition pointer_put :: "FfiBufferElement list \<Rightarrow> nat \<Rightarrow> FfiBufferElement list option" where
  "pointer_put buf v = simple_put buf (word_of_nat v :: u64)"

section \<open>Composite values\<close>

text \<open>\<open>buf[i].field = v\<close> and reading it.\<close>

definition at_get :: "nat \<Rightarrow> (FfiBufferElement list \<Rightarrow> 'a option) \<Rightarrow> FfiBufferElement list \<Rightarrow> 'a option" where
  "at_get i getf buf = (if length buf < i then None else getf (drop i buf))"

definition at_put ::
  "nat \<Rightarrow> (FfiBufferElement list \<Rightarrow> 'a \<Rightarrow> FfiBufferElement list option) \<Rightarrow> FfiBufferElement list \<Rightarrow> 'a \<Rightarrow>
     FfiBufferElement list option" where
  "at_put i putf buf v =
     (if length buf < i then None else map_option (\<lambda>b. take i buf @ b) (putf (drop i buf) v))"

definition rust_buffer_get :: "FfiBufferElement list \<Rightarrow> RustBuffer option" where
  "rust_buffer_get buf =
     (case at_get 0 simple_get buf of None \<Rightarrow> None
      | Some capacity \<Rightarrow> (case at_get 1 simple_get buf of None \<Rightarrow> None
      | Some len \<Rightarrow> (case at_get 2 pointer_get buf of None \<Rightarrow> None
      | Some data \<Rightarrow> Some (from_raw_parts data len capacity))))"

definition rust_buffer_put :: "FfiBufferElement list \<Rightarrow> RustBuffer \<Rightarrow> FfiBufferElement list option" where
  "rust_buffer_put buf v =
     (case at_put 0 simple_put buf (rb_capacity v) of None \<Rightarrow> None
      | Some buf1 \<Rightarrow> (case at_put 1 simple_put buf1 (rb_len v) of None \<Rightarrow> None
      | Some buf2 \<Rightarrow> at_put 2 pointer_put buf2 (rb_data v)))"

text \<open>The raw parts of \<open>ForeignBytes\<close>: the signed length and the address.\<close>

definition foreign_bytes_get :: "FfiBufferElement list \<Rightarrow> (u32 \<times> nat) option" where
  "foreign_bytes_get buf =
     (case at_get 0 simple_get buf of None \<Rightarrow> None
      | Some len \<Rightarrow> (case at_get 1 pointer_get buf of None \<Rightarrow> None
      | Some data \<Rightarrow> Some (len, data)))"

definition foreign_bytes_put :: "FfiBufferElement list \<Rightarrow> u32 \<times> nat \<Rightarrow> FfiBufferElement list option" where
  "foreign_bytes_put buf v =
     (case at_put 0 simple_put buf (fst v) of None \<Rightarrow> None
      | Some buf1 \<Rightarrow> at_put 1 pointer_put buf1 (snd v))"

definition status_get :: "FfiBufferElement list \<Rightarrow> RustCallStatus option" where
  "status_get buf =
     (case at_get 0 simple_get buf of None \<Rightarrow> None
      | Some code \<Rightarrow> (case at_get 1 rust_buffer_get buf of None \<Rightarrow> None
      | Some buffer \<Rightarrow> Some \<lparr>status_code = (case code_try_from code of Inr c \<Rightarrow> c | Inl _ \<Rightarrow> UnexpectedError),
          error_buf = buffer\<rparr>))"

definition status_put :: "FfiBufferElement list \<Rightarrow> RustCallStatus \<Rightarrow> FfiBufferElement list option" where
  "status_put buf v =
     (case at_put 0 simple_put buf (code_value (status_code v)) of None \<Rightarrow> None
      | Some buf1 \<Rightarrow> at_put 1 rust_buffer_put buf1 (error_buf v))"

section \<open>Reading and writing in sequence\<close>

definition ffi_read ::
  "nat \<Rightarrow> (FfiBufferElement list \<Rightarrow> 'a option) \<Rightarrow> FfiBufferElement list \<Rightarrow> ('a \<times> FfiBufferElement list) option" where
  "ffi_read sz getf buf =
     (case getf buf of None \<Rightarrow> None
      | Some value \<Rightarrow> if length buf < sz then None else Some (value, drop sz buf))"

text \<open>The part of the buffer that has been written and the part that the reference is advanced to.\<close>

definition ffi_write ::
  "nat \<Rightarrow> (FfiBufferElement list \<Rightarrow> 'a \<Rightarrow> FfiBufferElement list option) \<Rightarrow> FfiBufferElement list \<Rightarrow> 'a \<Rightarrow>
     (FfiBufferElement list \<times> FfiBufferElement list) option" where
  "ffi_write sz putf buf value =
     (case putf buf value of None \<Rightarrow> None
      | Some buf' \<Rightarrow> if length buf' < sz then None else Some (take sz buf', drop sz buf'))"

section \<open>The contract\<close>

text \<open>Putting a value writes the first \<open>sz\<close> elements and no other; getting it back needs them alone.\<close>

locale ffi_serialize =
  fixes sz :: nat
    and getf :: "FfiBufferElement list \<Rightarrow> 'a option"
    and putf :: "FfiBufferElement list \<Rightarrow> 'a \<Rightarrow> FfiBufferElement list option"
    and ok :: "'a \<Rightarrow> bool"
  assumes put_get: "elements buf \<Longrightarrow> sz \<le> length buf \<Longrightarrow> ok v \<Longrightarrow>
    \<exists>front. putf buf v = Some (front @ drop sz buf) \<and> length front = sz \<and> elements front \<and>
      (\<forall>rest. getf (front @ rest) = Some v)"
begin

lemma write_read:
  assumes "elements buf" "sz \<le> length buf" "ok v"
  shows "\<exists>front. ffi_write sz putf buf v = Some (front, drop sz buf) \<and> length front = sz \<and> elements front \<and>
    (\<forall>rest. ffi_read sz getf (front @ rest) = Some (v, rest))"
  using put_get [OF assms] by (auto simp: ffi_write_def ffi_read_def)

end

lemma elements_simps [simp]:
  "elements []" "elements (e # buf) \<longleftrightarrow> length e = 8 \<and> elements buf"
  "elements (xs @ ys) \<longleftrightarrow> elements xs \<and> elements ys"
  by (auto simp: elements_def)

lemma elements_drop [simp]: "elements buf \<Longrightarrow> elements (drop n buf)"
  by (auto simp: elements_def dest: in_set_dropD)

lemma elements_take [simp]: "elements buf \<Longrightarrow> elements (take n buf)"
  by (auto simp: elements_def dest: in_set_takeD)

lemma field_put_get:
  fixes v :: "'a::len word"
  assumes "LENGTH('a) = 8 * k" "k \<le> 8" "length e = 8"
  shows "field_get (field_put e v) = v" "length (field_put e v) = 8"
proof -
  have k: "LENGTH('a) div 8 = k" using assms(1) by simp
  have "(256 :: nat) ^ k = 2 ^ LENGTH('a)" by (simp add: assms(1) power_mult)
  then have "unat v mod 256 ^ k = unat v" by (simp add: unsigned_less)
  then show "field_get (field_put e v) = v" "length (field_put e v) = 8"
    using assms(2,3) by (simp_all add: field_get_def field_put_def k le_value_le_bytes)
qed

lemma simple_serialize:
  assumes "LENGTH('a) = 8 * k" "k \<le> 8"
  shows "ffi_serialize 1 simple_get (simple_put :: _ \<Rightarrow> 'a::len word \<Rightarrow> _) (\<lambda>_. True)"
proof
  fix buf :: "FfiBufferElement list" and v :: "'a word"
  assume "elements buf" "1 \<le> length buf"
  then obtain e rest where "buf = e # rest" "length e = 8" by (cases buf) auto
  with field_put_get [OF assms, of e v]
  show "\<exists>front. simple_put buf v = Some (front @ drop 1 buf) \<and> length front = 1 \<and> elements front \<and>
      (\<forall>rest. simple_get (front @ rest) = Some v)"
    by (intro exI [of _ "[field_put e v]"]) (simp add: simple_put_def simple_get_def)
qed

interpretation s8: ffi_serialize 1 simple_get "simple_put :: _ \<Rightarrow> u8 \<Rightarrow> _" "\<lambda>_. True"
  by (rule simple_serialize [where k = 1]) simp_all

interpretation s16: ffi_serialize 1 simple_get "simple_put :: _ \<Rightarrow> u16 \<Rightarrow> _" "\<lambda>_. True"
  by (rule simple_serialize [where k = 2]) simp_all

interpretation s32: ffi_serialize 1 simple_get "simple_put :: _ \<Rightarrow> u32 \<Rightarrow> _" "\<lambda>_. True"
  by (rule simple_serialize [where k = 4]) simp_all

interpretation s64: ffi_serialize 1 simple_get "simple_put :: _ \<Rightarrow> u64 \<Rightarrow> _" "\<lambda>_. True"
  by (rule simple_serialize [where k = 8]) simp_all

text \<open>Representing one type by another, and one after the other.\<close>

lemma map_serialize:
  assumes "ffi_serialize sz getf putf ok" "\<And>v. ok' v \<Longrightarrow> ok (f v) \<and> g (f v) = v"
  shows "ffi_serialize sz (\<lambda>buf. map_option g (getf buf)) (\<lambda>buf v. putf buf (f v)) ok'"
proof
  fix buf v assume "elements buf" "sz \<le> length buf" "ok' v"
  with ffi_serialize.put_get [OF assms(1), of buf "f v"] assms(2)
  show "\<exists>front. putf buf (f v) = Some (front @ drop sz buf) \<and> length front = sz \<and> elements front \<and>
      (\<forall>rest. map_option g (getf (front @ rest)) = Some v)"
    by fastforce
qed

definition then_get ::
  "nat \<Rightarrow> (FfiBufferElement list \<Rightarrow> 'a option) \<Rightarrow> (FfiBufferElement list \<Rightarrow> 'b option) \<Rightarrow>
     FfiBufferElement list \<Rightarrow> ('a \<times> 'b) option" where
  "then_get i get1 get2 buf =
     (case at_get 0 get1 buf of None \<Rightarrow> None
      | Some a \<Rightarrow> (case at_get i get2 buf of None \<Rightarrow> None | Some b \<Rightarrow> Some (a, b)))"

definition then_put ::
  "nat \<Rightarrow> (FfiBufferElement list \<Rightarrow> 'a \<Rightarrow> FfiBufferElement list option) \<Rightarrow>
     (FfiBufferElement list \<Rightarrow> 'b \<Rightarrow> FfiBufferElement list option) \<Rightarrow>
     FfiBufferElement list \<Rightarrow> 'a \<times> 'b \<Rightarrow> FfiBufferElement list option" where
  "then_put i put1 put2 buf v =
     (case at_put 0 put1 buf (fst v) of None \<Rightarrow> None | Some buf' \<Rightarrow> at_put i put2 buf' (snd v))"

lemma then_serialize:
  assumes "ffi_serialize i get1 put1 ok1" "ffi_serialize j get2 put2 ok2"
  shows "ffi_serialize (i + j) (then_get i get1 get2) (then_put i put1 put2) (\<lambda>(a, b). ok1 a \<and> ok2 b)"
proof
  fix buf v assume buf: "elements buf" "i + j \<le> length buf" and ok: "case v of (a, b) \<Rightarrow> ok1 a \<and> ok2 b"
  obtain a b where v: "v = (a, b)" by fastforce
  from ffi_serialize.put_get [OF assms(1), of buf a] buf ok v obtain f1 where
    f1: "put1 buf a = Some (f1 @ drop i buf)" "length f1 = i" "elements f1" "\<forall>rest. get1 (f1 @ rest) = Some a"
    by auto
  have "elements (drop i buf)" "j \<le> length (drop i buf)" "ok2 b" using buf ok v by auto
  from ffi_serialize.put_get [OF assms(2) this] obtain f2 where
    f2: "put2 (drop i buf) b = Some (f2 @ drop j (drop i buf))" "length f2 = j" "elements f2"
      "\<forall>rest. get2 (f2 @ rest) = Some b"
    by blast
  show "\<exists>front. then_put i put1 put2 buf v = Some (front @ drop (i + j) buf) \<and> length front = i + j \<and>
      elements front \<and> (\<forall>rest. then_get i get1 get2 (front @ rest) = Some v)"
    using f1 f2 v by (intro exI [of _ "f1 @ f2"])
      (simp add: then_put_def then_get_def at_put_def at_get_def add.commute)
qed

lemma pointer_serialize: "ffi_serialize 1 pointer_get pointer_put (\<lambda>p. p < 2 ^ 64)"
proof -
  have "ffi_serialize 1 (\<lambda>buf. map_option unat (simple_get buf :: u64 option))
      (\<lambda>buf v. simple_put buf (word_of_nat v :: u64)) (\<lambda>p. p < 2 ^ 64)"
    by (rule map_serialize [OF s64.ffi_serialize_axioms]) (simp add: unat_of_nat)
  then show ?thesis by (simp add: pointer_get_def [abs_def] pointer_put_def [abs_def])
qed

interpretation pointer: ffi_serialize 1 pointer_get pointer_put "\<lambda>p. p < 2 ^ 64"
  by (rule pointer_serialize)

interpretation boolean: ffi_serialize 1 bool_get bool_put "\<lambda>_. True"
proof -
  have "ffi_serialize 1 (\<lambda>buf. map_option (\<lambda>i :: u8. i = 1) (simple_get buf))
      (\<lambda>buf v. simple_put buf (if v then 1 else 0 :: u8)) (\<lambda>_. True)"
    by (rule map_serialize [OF s8.ffi_serialize_axioms]) simp
  then show "ffi_serialize 1 bool_get bool_put (\<lambda>_. True)"
    by (simp add: bool_get_def [abs_def] bool_put_def [abs_def])
qed

interpretation unit: ffi_serialize 0 unit_get unit_put "\<lambda>_. True"
  by unfold_locales (simp add: unit_get_def unit_put_def)

definition buffer_address_ok :: "RustBuffer \<Rightarrow> bool" where
  "buffer_address_ok b \<longleftrightarrow> rb_data b < 2 ^ 64"

lemma split_buffer_get:
  "rust_buffer_get = (\<lambda>buf. map_option (\<lambda>((c, l), d). from_raw_parts d l c)
     (then_get 2 (then_get 1 simple_get simple_get) pointer_get buf))"
  by (auto simp: fun_eq_iff rust_buffer_get_def then_get_def at_get_def split: option.split)

lemma split_buffer_put:
  "rust_buffer_put = (\<lambda>buf v. then_put 2 (then_put 1 simple_put simple_put) pointer_put buf
     ((rb_capacity v, rb_len v), rb_data v))"
  by (auto simp: fun_eq_iff rust_buffer_put_def then_put_def at_put_def split: option.split)

interpretation buffer: ffi_serialize 3 rust_buffer_get rust_buffer_put buffer_address_ok
proof -
  have "ffi_serialize (1 + 1 + 1) (then_get (1 + 1) (then_get 1 simple_get simple_get) pointer_get)
      (then_put (1 + 1) (then_put 1 simple_put simple_put) pointer_put)
      (\<lambda>(a, b). (case a of (c :: u64, l :: u64) \<Rightarrow> True \<and> True) \<and> b < 2 ^ 64)"
    by (intro then_serialize s64.ffi_serialize_axioms pointer_serialize)
  from map_serialize [OF this, of buffer_address_ok "\<lambda>v. ((rb_capacity v, rb_len v), rb_data v)"
      "\<lambda>((c, l), d). from_raw_parts d l c"]
  show "ffi_serialize 3 rust_buffer_get rust_buffer_put buffer_address_ok"
    by (simp add: split_buffer_get split_buffer_put buffer_address_ok_def from_raw_parts_def
        numeral_2_eq_2 numeral_3_eq_3)
qed

interpretation foreign_bytes: ffi_serialize 2 foreign_bytes_get foreign_bytes_put "\<lambda>(l, d). d < 2 ^ 64"
proof -
  have g: "foreign_bytes_get = then_get 1 simple_get pointer_get"
    by (auto simp: fun_eq_iff foreign_bytes_get_def then_get_def split: option.split)
  have p: "foreign_bytes_put = then_put 1 simple_put pointer_put"
    by (auto simp: fun_eq_iff foreign_bytes_put_def then_put_def split: option.split)
  from then_serialize [OF s32.ffi_serialize_axioms pointer_serialize]
  show "ffi_serialize 2 foreign_bytes_get foreign_bytes_put (\<lambda>(l, d). d < 2 ^ 64)"
    unfolding g p by (simp add: numeral_2_eq_2)
qed

definition status_address_ok :: "RustCallStatus \<Rightarrow> bool" where
  "status_address_ok st \<longleftrightarrow> buffer_address_ok (error_buf st)"

interpretation status: ffi_serialize 4 status_get status_put status_address_ok
proof -
  have g: "status_get = (\<lambda>buf. map_option (\<lambda>(code, b). \<lparr>status_code =
      (case code_try_from code of Inr c \<Rightarrow> c | Inl _ \<Rightarrow> UnexpectedError), error_buf = b\<rparr>)
      (then_get 1 simple_get rust_buffer_get buf))"
    by (auto simp: fun_eq_iff status_get_def then_get_def split: option.split)
  have p: "status_put = (\<lambda>buf v. then_put 1 simple_put rust_buffer_put buf
      (code_value (status_code v), error_buf v))"
    by (auto simp: fun_eq_iff status_put_def then_put_def split: option.split)
  have "ffi_serialize (1 + 3) (then_get 1 simple_get rust_buffer_get) (then_put 1 simple_put rust_buffer_put)
      (\<lambda>(c :: u8, b). True \<and> buffer_address_ok b)"
    by (rule then_serialize [OF s8.ffi_serialize_axioms buffer.ffi_serialize_axioms])
  from map_serialize [OF this, of status_address_ok "\<lambda>v. (code_value (status_code v), error_buf v)"
      "\<lambda>(code, b). \<lparr>status_code = (case code_try_from code of Inr c \<Rightarrow> c | Inl _ \<Rightarrow> UnexpectedError),
         error_buf = b\<rparr>"]
  show "ffi_serialize 4 status_get status_put status_address_ok"
    unfolding g p by (simp add: status_address_ok_def code_roundtrip)
qed

section \<open>Values of any FFI type\<close>

datatype FfiTy = Ty_8 | Ty_16 | Ty_32 | Ty_64 | Ty_ptr | Ty_bool | Ty_unit | Ty_RustBuffer | Ty_ForeignBytes
  | Ty_RustCallStatus

text \<open>A signed and an unsigned integer, a float and an integer of its width, and a handle and a
  \<open>u64\<close> are stored alike.\<close>

datatype FfiVal = V_8 u8 | V_16 u16 | V_32 u32 | V_64 u64 | V_ptr nat | V_bool bool | V_unit
  | V_RustBuffer RustBuffer | V_ForeignBytes "u32 \<times> nat" | V_RustCallStatus RustCallStatus

fun type_of :: "FfiVal \<Rightarrow> FfiTy" where
  "type_of (V_8 _) = Ty_8"
| "type_of (V_16 _) = Ty_16"
| "type_of (V_32 _) = Ty_32"
| "type_of (V_64 _) = Ty_64"
| "type_of (V_ptr _) = Ty_ptr"
| "type_of (V_bool _) = Ty_bool"
| "type_of V_unit = Ty_unit"
| "type_of (V_RustBuffer _) = Ty_RustBuffer"
| "type_of (V_ForeignBytes _) = Ty_ForeignBytes"
| "type_of (V_RustCallStatus _) = Ty_RustCallStatus"

fun val_ok :: "FfiVal \<Rightarrow> bool" where
  "val_ok (V_ptr p) \<longleftrightarrow> p < 2 ^ 64"
| "val_ok (V_RustBuffer b) \<longleftrightarrow> buffer_address_ok b"
| "val_ok (V_ForeignBytes b) \<longleftrightarrow> snd b < 2 ^ 64"
| "val_ok (V_RustCallStatus st) \<longleftrightarrow> status_address_ok st"
| "val_ok _ \<longleftrightarrow> True"

text \<open>\<open>FfiSerialize::SIZE\<close>, and \<open>ffi_buffer_size!\<close>.\<close>

fun ffi_size :: "FfiTy \<Rightarrow> nat" where
  "ffi_size Ty_unit = 0"
| "ffi_size Ty_RustBuffer = 3"
| "ffi_size Ty_ForeignBytes = 2"
| "ffi_size Ty_RustCallStatus = 4"
| "ffi_size _ = 1"

fun ffi_buffer_size :: "FfiTy list \<Rightarrow> nat" where
  "ffi_buffer_size [] = 0"
| "ffi_buffer_size (t # ts) = ffi_size t + ffi_buffer_size ts"

fun val_get :: "FfiTy \<Rightarrow> FfiBufferElement list \<Rightarrow> FfiVal option" where
  "val_get Ty_8 buf = map_option V_8 (simple_get buf)"
| "val_get Ty_16 buf = map_option V_16 (simple_get buf)"
| "val_get Ty_32 buf = map_option V_32 (simple_get buf)"
| "val_get Ty_64 buf = map_option V_64 (simple_get buf)"
| "val_get Ty_ptr buf = map_option V_ptr (pointer_get buf)"
| "val_get Ty_bool buf = map_option V_bool (bool_get buf)"
| "val_get Ty_unit buf = map_option (\<lambda>_. V_unit) (unit_get buf)"
| "val_get Ty_RustBuffer buf = map_option V_RustBuffer (rust_buffer_get buf)"
| "val_get Ty_ForeignBytes buf = map_option V_ForeignBytes (foreign_bytes_get buf)"
| "val_get Ty_RustCallStatus buf = map_option V_RustCallStatus (status_get buf)"

fun val_put :: "FfiBufferElement list \<Rightarrow> FfiVal \<Rightarrow> FfiBufferElement list option" where
  "val_put buf (V_8 v) = simple_put buf v"
| "val_put buf (V_16 v) = simple_put buf v"
| "val_put buf (V_32 v) = simple_put buf v"
| "val_put buf (V_64 v) = simple_put buf v"
| "val_put buf (V_ptr v) = pointer_put buf v"
| "val_put buf (V_bool v) = bool_put buf v"
| "val_put buf V_unit = unit_put buf ()"
| "val_put buf (V_RustBuffer v) = rust_buffer_put buf v"
| "val_put buf (V_ForeignBytes v) = foreign_bytes_put buf v"
| "val_put buf (V_RustCallStatus v) = status_put buf v"

definition val_read :: "FfiTy \<Rightarrow> FfiBufferElement list \<Rightarrow> (FfiVal \<times> FfiBufferElement list) option" where
  "val_read t = ffi_read (ffi_size t) (val_get t)"

definition val_write ::
  "FfiBufferElement list \<Rightarrow> FfiVal \<Rightarrow> (FfiBufferElement list \<times> FfiBufferElement list) option" where
  "val_write buf v = ffi_write (ffi_size (type_of v)) val_put buf v"

text \<open>The arguments of a call, read one after the other; values written one after the other.\<close>

fun read_args :: "FfiTy list \<Rightarrow> FfiBufferElement list \<Rightarrow> (FfiVal list \<times> FfiBufferElement list) option" where
  "read_args [] buf = Some ([], buf)"
| "read_args (t # ts) buf =
     (case val_read t buf of None \<Rightarrow> None
      | Some (v, buf1) \<Rightarrow> (case read_args ts buf1 of None \<Rightarrow> None
      | Some (vs, buf2) \<Rightarrow> Some (v # vs, buf2)))"

fun write_vals :: "FfiBufferElement list \<Rightarrow> FfiVal list \<Rightarrow> (FfiBufferElement list \<times> FfiBufferElement list) option" where
  "write_vals buf [] = Some ([], buf)"
| "write_vals buf (v # vs) =
     (case val_write buf v of None \<Rightarrow> None
      | Some (front, buf1) \<Rightarrow> (case write_vals buf1 vs of None \<Rightarrow> None
      | Some (front2, buf2) \<Rightarrow> Some (front @ front2, buf2)))"

section \<open>The FFI-buffer scaffolding functions\<close>

text \<open>The two pointers lead to slices of the sizes that the function states; a shorter slice is
  undefined.  A panic here is not caught.\<close>

definition ffi_buffer_fn ::
  "FfiTy list \<Rightarrow> FfiTy \<Rightarrow> (FfiVal list \<Rightarrow> RustCallStatus \<Rightarrow> (FfiVal \<times> RustCallStatus) mem) \<Rightarrow>
     FfiBufferElement list \<Rightarrow> FfiBufferElement list \<Rightarrow> FfiBufferElement list mem" where
  "ffi_buffer_fn param_types return_type ffi_fn arg_buf return_buf =
     (if length arg_buf \<noteq> ffi_buffer_size param_types \<or>
         length return_buf \<noteq> ffi_buffer_size [return_type, Ty_RustCallStatus] then (\<lambda>h. Undefined)
      else case read_args param_types arg_buf of None \<Rightarrow> mpanic ''index out of bounds''
      | Some (args, _) \<Rightarrow> mbind (ffi_fn args default_status) (\<lambda>(return_value, out_status).
          case write_vals return_buf [return_value, V_RustCallStatus out_status] of
            None \<Rightarrow> mpanic ''index out of bounds''
          | Some (front, rest) \<Rightarrow> mret (front @ rest)))"

text \<open>The form for an asynchronous function, whose call gives a handle and no status.\<close>

definition ffi_buffer_async_fn ::
  "FfiTy list \<Rightarrow> (FfiVal list \<Rightarrow> u64 mem) \<Rightarrow> FfiBufferElement list \<Rightarrow> FfiBufferElement list \<Rightarrow>
     FfiBufferElement list mem" where
  "ffi_buffer_async_fn param_types ffi_fn arg_buf return_buf =
     (if length arg_buf \<noteq> ffi_buffer_size param_types \<or> length return_buf \<noteq> ffi_buffer_size [Ty_64]
      then (\<lambda>h. Undefined)
      else case read_args param_types arg_buf of None \<Rightarrow> mpanic ''index out of bounds''
      | Some (args, _) \<Rightarrow> mbind (ffi_fn args) (\<lambda>handle.
          case val_put return_buf (V_64 handle) of
            None \<Rightarrow> mpanic ''index out of bounds''
          | Some buf \<Rightarrow> mret buf))"

section \<open>Lemmas on values\<close>

lemma val_put_get:
  assumes "elements buf" "ffi_size (type_of v) \<le> length buf" "val_ok v"
  shows "\<exists>front. val_put buf v = Some (front @ drop (ffi_size (type_of v)) buf) \<and>
    length front = ffi_size (type_of v) \<and> elements front \<and> (\<forall>rest. val_get (type_of v) (front @ rest) = Some v)"
proof (cases v)
  case (V_8 w) with s8.put_get [of buf w] assms show ?thesis by fastforce
next
  case (V_16 w) with s16.put_get [of buf w] assms show ?thesis by fastforce
next
  case (V_32 w) with s32.put_get [of buf w] assms show ?thesis by fastforce
next
  case (V_64 w) with s64.put_get [of buf w] assms show ?thesis by fastforce
next
  case (V_ptr w) with pointer.put_get [of buf w] assms show ?thesis by fastforce
next
  case (V_bool w) with boolean.put_get [of buf w] assms show ?thesis by fastforce
next
  case V_unit with unit.put_get [of buf "()"] assms show ?thesis by fastforce
next
  case (V_RustBuffer w) with buffer.put_get [of buf w] assms show ?thesis by fastforce
next
  case (V_ForeignBytes w) with foreign_bytes.put_get [of buf w] assms show ?thesis
    by (cases w) fastforce
next
  case (V_RustCallStatus w) with status.put_get [of buf w] assms show ?thesis by fastforce
qed

lemma write_vals_read:
  assumes "elements buf" "ffi_buffer_size (map type_of vs) \<le> length buf" "\<forall>v \<in> set vs. val_ok v"
  shows "\<exists>front. write_vals buf vs = Some (front, drop (ffi_buffer_size (map type_of vs)) buf) \<and>
    length front = ffi_buffer_size (map type_of vs) \<and> elements front \<and>
    (\<forall>rest. read_args (map type_of vs) (front @ rest) = Some (vs, rest))"
  using assms
proof (induction vs arbitrary: buf)
  case (Cons v vs)
  let ?n = "ffi_size (type_of v)"
  have v: "ffi_size (type_of v) \<le> length buf" "val_ok v" using Cons.prems by auto
  from val_put_get [OF Cons.prems(1) v] obtain f1 where
    f1: "val_put buf v = Some (f1 @ drop ?n buf)" "length f1 = ?n" "elements f1"
      "\<forall>rest. val_get (type_of v) (f1 @ rest) = Some v"
    by blast
  have "elements (drop ?n buf)" "ffi_buffer_size (map type_of vs) \<le> length (drop ?n buf)"
    "\<forall>v \<in> set vs. val_ok v"
    using Cons.prems by auto
  from Cons.IH [OF this] obtain f2 where
    f2: "write_vals (drop ?n buf) vs = Some (f2, drop (ffi_buffer_size (map type_of vs)) (drop ?n buf))"
      "length f2 = ffi_buffer_size (map type_of vs)" "elements f2"
      "\<forall>rest. read_args (map type_of vs) (f2 @ rest) = Some (vs, rest)"
    by blast
  show ?case using f1 f2 v(1)
    by (intro exI [of _ "f1 @ f2"])
      (simp add: val_write_def val_read_def ffi_write_def ffi_read_def add.commute)
qed simp

section \<open>Properties\<close>

text \<open>C13: the FFI-buffer form of a scaffolding function is the function.  When a caller has written
  arguments of the right types one after the other, the function is called with exactly those, from a
  fresh status, and what it returns, value and status, is what the caller reads back from the return
  buffer.\<close>

theorem ffi_buffer_fn_calls:
  assumes "elements ab" and "length ab = ffi_buffer_size (map type_of vs)" and "\<forall>v \<in> set vs. val_ok v"
    and "write_vals ab vs = Some (arg_buf, [])"
    and "elements return_buf" and "length return_buf = ffi_buffer_size [return_type, Ty_RustCallStatus]"
    and "ffi_fn vs default_status h = Done (v, st) h'"
    and "type_of v = return_type" and "val_ok v" and "status_address_ok st"
  shows "\<exists>ret. ffi_buffer_fn (map type_of vs) return_type ffi_fn arg_buf return_buf h = Done ret h' \<and>
    read_args [return_type, Ty_RustCallStatus] ret = Some ([v, V_RustCallStatus st], [])"
proof -
  from write_vals_read [OF assms(1) _ assms(3)] assms(2,4)
  have arg: "length arg_buf = ffi_buffer_size (map type_of vs)" "read_args (map type_of vs) arg_buf = Some (vs, [])"
    by (auto dest: spec [of _ "[]"])
  from write_vals_read [OF assms(5), of "[v, V_RustCallStatus st]"] assms(6,8-10) obtain ret where
    ret: "write_vals return_buf [v, V_RustCallStatus st] = Some (ret, [])"
      "read_args [return_type, Ty_RustCallStatus] ret = Some ([v, V_RustCallStatus st], [])"
    by (auto dest: spec [of _ "[]"] simp del: write_vals.simps read_args.simps)
  with arg assms(6,7) show ?thesis
    by (simp add: ffi_buffer_fn_def mem_defs del: read_args.simps write_vals.simps)
qed

theorem ffi_buffer_fn_calls_witness:
  "\<exists>ab ret. write_vals (replicate 2 element_default) [V_8 5, V_bool True] = Some (ab, []) \<and>
     ffi_buffer_fn [Ty_8, Ty_bool] Ty_16 (\<lambda>vs st. mret (if vs = [V_8 5, V_bool True] then V_16 300 else V_16 0, st))
       ab (replicate 5 element_default) empty_heap = Done ret empty_heap \<and>
     read_args [Ty_16, Ty_RustCallStatus] ret = Some ([V_16 300, V_RustCallStatus default_status], [])"
proof -
  let ?vs = "[V_8 5, V_bool True]"
  have el: "elements (replicate n element_default)" for n
    by (simp add: elements_def element_default_def)
  obtain ab where ab: "write_vals (replicate 2 element_default) ?vs = Some (ab, [])"
    using write_vals_read [OF el, of ?vs 2] by (auto simp del: write_vals.simps read_args.simps)
  have "\<exists>ret. ffi_buffer_fn (map type_of ?vs) Ty_16
      (\<lambda>vs st. mret (if vs = ?vs then V_16 300 else V_16 0, st)) ab (replicate 5 element_default) empty_heap =
      Done ret empty_heap \<and>
    read_args [Ty_16, Ty_RustCallStatus] ret = Some ([V_16 300, V_RustCallStatus default_status], [])"
    by (rule ffi_buffer_fn_calls [OF el _ _ ab el])
      (simp_all add: mret_def status_address_ok_def buffer_address_ok_def default_status_def rb_new_def
        from_vec_def vec_new_def from_raw_parts_def dangling_def)
  with ab show ?thesis by auto
qed

end
