(* ===== verification/ForeignFuture.thy ===== *)
theory ForeignFuture
  imports Scaffolding
begin

text \<open>
  \<open>uniffi_core/src/oneshot.rs\<close> and \<open>ffi/foreignfuture.rs\<close>: a Rust future that waits for an
  asynchronous foreign method.  The operations of the channel come first; then the system of the Rust
  future, the foreign completion and the wake-up, which run on different threads.  Every critical section
  of the channel's lock is one step.
\<close>

section \<open>The oneshot channel\<close>

record ('v, 'w) OneshotInner =
  os_value :: "'v option"
  os_waker :: "'w option"

definition channel :: "('v, 'w) OneshotInner" where
  "channel = \<lparr>os_value = None, os_waker = None\<rparr>"

text \<open>The critical section of \<open>send\<close>: it gives the waker, which \<open>send\<close> wakes after it has released the lock.\<close>

definition send :: "'v \<Rightarrow> ('v, 'w) OneshotInner \<Rightarrow> 'w option \<times> ('v, 'w) OneshotInner" where
  "send v inner = (os_waker inner, inner\<lparr>os_value := Some v, os_waker := None\<rparr>)"

definition receiver_poll :: "'w \<Rightarrow> ('v, 'w) OneshotInner \<Rightarrow> 'v option \<times> ('v, 'w) OneshotInner" where
  "receiver_poll cx inner =
     (case os_value inner of
        Some v \<Rightarrow> (Some v, inner\<lparr>os_value := None\<rparr>)
      | None \<Rightarrow> (None, inner\<lparr>os_waker := Some cx\<rparr>))"

section \<open>The asynchronous call\<close>

record 'f ForeignFutureResult =
  return_value :: 'f
  call_status :: RustCallStatus

text \<open>The callback for the drop, with its data; the default one does nothing.\<close>

datatype 'd DroppedCallback = No_op | Callback 'd

text \<open>Where \<open>foreign_async_call\<close> stands: not polled yet, being polled, waiting, or gone (returned,
  unwound or dropped).\<close>

datatype Stage = Unstarted | Polling | Waiting | Gone

record ('f, 'w, 'd) ForeignFutureState =
  ff_stage :: Stage
  ff_channel :: "('f ForeignFutureResult, 'w) OneshotInner"
  ff_sender :: bool  \<comment> \<open>the foreign side holds the sender\<close>
  ff_cx :: "'w option"  \<comment> \<open>the waker of the last poll\<close>
  ff_dropped :: "'d DroppedCallback"
  ff_dropped_calls :: "'d list"
  ff_waking :: "'w option"  \<comment> \<open>taken by \<open>send\<close>, which has not called it yet\<close>
  ff_wakes :: "'w list"  \<comment> \<open>wake-ups issued since the last poll\<close>
  ff_sent :: "'f ForeignFutureResult option"
  ff_received :: "'f ForeignFutureResult option"

definition ff_new :: "('f, 'w, 'd) ForeignFutureState" where
  "ff_new = \<lparr>ff_stage = Unstarted, ff_channel = channel, ff_sender = False, ff_cx = None, ff_dropped = No_op,
     ff_dropped_calls = [], ff_waking = None, ff_wakes = [], ff_sent = None, ff_received = None\<rparr>"

text \<open>\<open>Drop for ForeignFutureDroppedCallbackStruct\<close>.\<close>

definition drop_callback :: "('f, 'w, 'd) ForeignFutureState \<Rightarrow> ('f, 'w, 'd) ForeignFutureState" where
  "drop_callback s = s\<lparr>ff_dropped_calls := ff_dropped_calls s @ (case ff_dropped s of No_op \<Rightarrow> [] | Callback d \<Rightarrow> [d])\<rparr>"

text \<open>The first poll makes the channel and calls the foreign method, which gets the sender and may set
  the callback for the drop.\<close>

definition ff_start :: "'w \<Rightarrow> 'd DroppedCallback \<Rightarrow> ('f, 'w, 'd) ForeignFutureState \<Rightarrow> ('f, 'w, 'd) ForeignFutureState" where
  "ff_start cx cb s = s\<lparr>ff_stage := Polling, ff_channel := channel, ff_sender := True, ff_cx := Some cx,
     ff_dropped := cb\<rparr>"

definition ff_poll_again :: "'w \<Rightarrow> ('f, 'w, 'd) ForeignFutureState \<Rightarrow> ('f, 'w, 'd) ForeignFutureState" where
  "ff_poll_again cx s = s\<lparr>ff_stage := Polling, ff_cx := Some cx, ff_wakes := []\<rparr>"

text \<open>\<open>receiver.await\<close>: when there is a result the call is over, whether lifting it returns or panics,
  and its locals are dropped.\<close>

definition ff_receive :: "'w \<Rightarrow> ('f, 'w, 'd) ForeignFutureState \<Rightarrow> ('f, 'w, 'd) ForeignFutureState" where
  "ff_receive cx s =
     (case receiver_poll cx (ff_channel s) of
        (Some r, inner) \<Rightarrow>
          drop_callback (s\<lparr>ff_stage := Gone, ff_channel := inner, ff_received := Some r\<rparr>)
      | (None, inner) \<Rightarrow> s\<lparr>ff_stage := Waiting, ff_channel := inner\<rparr>)"

text \<open>The foreign side completes the call: \<open>send\<close> up to the end of its critical section, and after it.\<close>

definition foreign_future_complete ::
  "'f ForeignFutureResult \<Rightarrow> ('f, 'w, 'd) ForeignFutureState \<Rightarrow> ('f, 'w, 'd) ForeignFutureState" where
  "foreign_future_complete result s =
     (case send result (ff_channel s) of
        (waker, inner) \<Rightarrow> s\<lparr>ff_channel := inner, ff_sender := False, ff_sent := Some result,
          ff_waking := waker\<rparr>)"

definition ff_wake :: "('f, 'w, 'd) ForeignFutureState \<Rightarrow> ('f, 'w, 'd) ForeignFutureState" where
  "ff_wake s = s\<lparr>ff_waking := None, ff_wakes := ff_wakes s @ (case ff_waking s of Some w \<Rightarrow> [w] | None \<Rightarrow> [])\<rparr>"

text \<open>Dropping the future before it has returned.\<close>

definition ff_drop :: "('f, 'w, 'd) ForeignFutureState \<Rightarrow> ('f, 'w, 'd) ForeignFutureState" where
  "ff_drop s = (if ff_stage s = Unstarted then s\<lparr>ff_stage := Gone\<rparr> else drop_callback (s\<lparr>ff_stage := Gone\<rparr>))"

text \<open>The value of the call, from the result that was received.\<close>

definition foreign_async_result ::
  "(LiftError \<Rightarrow> string) \<Rightarrow> ('f \<Rightarrow> (LiftError + 'a) mem) \<Rightarrow> (RustBuffer \<Rightarrow> 'a mem) \<Rightarrow> (string \<Rightarrow> 'a mem) \<Rightarrow>
     'f ForeignFutureResult \<Rightarrow> 'a mem" where
  "foreign_async_result display lift_success lift_err unexpected result =
     lift_foreign_return display lift_success lift_err unexpected (return_value result)
       (ForeignFutureResult.call_status result)"

text \<open>The foreign side sends once: \<open>from_raw\<close> takes the sender back.\<close>

inductive ff_step :: "('f, 'w, 'd) ForeignFutureState \<Rightarrow> ('f, 'w, 'd) ForeignFutureState \<Rightarrow> bool" where
  start: "ff_stage s = Unstarted \<Longrightarrow> ff_step s (ff_start cx cb s)"
| poll: "ff_stage s = Waiting \<Longrightarrow> ff_step s (ff_poll_again cx s)"
| receive: "ff_stage s = Polling \<Longrightarrow> ff_cx s = Some cx \<Longrightarrow> ff_step s (ff_receive cx s)"
| complete: "ff_sender s \<Longrightarrow> ff_step s (foreign_future_complete result s)"
| wake: "ff_waking s = Some w \<Longrightarrow> ff_step s (ff_wake s)"
| drop: "ff_stage s = Unstarted \<or> ff_stage s = Waiting \<Longrightarrow> ff_step s (ff_drop s)"

inductive_cases ff_stepE: "ff_step s s'"

section \<open>The invariant\<close>

definition installed :: "'d DroppedCallback \<Rightarrow> 'd list" where
  "installed cb = (case cb of No_op \<Rightarrow> [] | Callback d \<Rightarrow> [d])"

text \<open>While the future is alive: the result is in the channel exactly when it has been sent, a waiting
  future has its waker in the channel, or in the hands of \<open>send\<close>, or has been woken, and the callback has
  not run.\<close>

fun ff_inv :: "Stage \<Rightarrow> ('f, 'w, 'd) ForeignFutureState \<Rightarrow> bool" where
  "ff_inv Unstarted s \<longleftrightarrow>
     \<not> ff_sender s \<and> ff_sent s = None \<and> ff_received s = None \<and> ff_dropped_calls s = [] \<and> ff_dropped s = No_op \<and> ff_waking s = None"
| "ff_inv Polling s \<longleftrightarrow>
     os_value (ff_channel s) = ff_sent s \<and> (ff_sender s \<longleftrightarrow> ff_sent s = None) \<and> ff_cx s \<noteq> None \<and>
     ff_received s = None \<and> ff_dropped_calls s = []"
| "ff_inv Waiting s \<longleftrightarrow>
     os_value (ff_channel s) = ff_sent s \<and> (ff_sender s \<longleftrightarrow> ff_sent s = None) \<and> ff_cx s \<noteq> None \<and>
     ff_received s = None \<and> ff_dropped_calls s = [] \<and>
     (if ff_sender s then os_waker (ff_channel s) = ff_cx s
      else ff_waking s = ff_cx s \<or> the (ff_cx s) \<in> set (ff_wakes s))"
| "ff_inv Gone s \<longleftrightarrow>
     (ff_received s = None \<or> ff_received s = ff_sent s) \<and> (ff_sender s \<longrightarrow> ff_sent s = None) \<and>
     ff_dropped_calls s = installed (ff_dropped s)"

lemma ff_inv_new: "ff_inv (ff_stage ff_new) ff_new"
  by (simp add: ff_new_def)

lemma ff_inv_receive:
  assumes "ff_stage s = Polling" "ff_cx s = Some cx" "ff_inv Polling s"
  shows "ff_inv (ff_stage (ff_receive cx s)) (ff_receive cx s)"
  using assms by (cases "os_value (ff_channel s)")
    (auto simp: ff_receive_def receiver_poll_def drop_callback_def installed_def)

lemma ff_inv_complete:
  assumes "ff_inv (ff_stage s) s" "ff_sender s"
  shows "ff_inv (ff_stage s) (foreign_future_complete result s)"
  using assms by (cases "ff_stage s") (auto simp: foreign_future_complete_def send_def)

lemma ff_inv_wake:
  assumes "ff_inv (ff_stage s) s" "ff_waking s \<noteq> None"
  shows "ff_inv (ff_stage s) (ff_wake s)"
  using assms by (cases "ff_stage s") (auto simp: ff_wake_def)

lemma ff_step_inv: "ff_step s s' \<Longrightarrow> ff_inv (ff_stage s) s \<Longrightarrow> ff_inv (ff_stage s') s'"
proof (erule ff_stepE)
  fix w assume "s' = ff_wake s" "ff_waking s = Some w" "ff_inv (ff_stage s) s"
  with ff_inv_wake [of s] show "ff_inv (ff_stage s') s'" by (simp add: ff_wake_def)
next
  fix result assume "s' = foreign_future_complete result s" "ff_sender s" "ff_inv (ff_stage s) s"
  with ff_inv_complete [of s result] show "ff_inv (ff_stage s') s'"
    by (simp add: foreign_future_complete_def send_def)
qed (auto simp: ff_start_def channel_def ff_poll_again_def ff_drop_def drop_callback_def installed_def
    ff_inv_receive split: if_splits)

lemma ff_reachable_inv:
  assumes "ff_step\<^sup>*\<^sup>* ff_new s"
  shows "ff_inv (ff_stage s) s"
  using assms by (induction rule: rtranclp_induct) (auto intro: ff_inv_new ff_step_inv)

section \<open>Properties\<close>

text \<open>C12: an asynchronous foreign call delivers its result and lets go, in every interleaving of polls,
  the foreign completion, the wake-up after it and a drop.  The callback for the drop has run exactly once
  when the future is gone and not before; a result that was received is the one that was sent.  When the
  future waits although its result has been sent, it has been woken through the waker of its last poll,
  or \<open>send\<close> has taken this waker, has released the lock and wakes it in its next step; the next poll takes
  the result.  When it waits and nothing has been sent, the waker of its last poll is in the channel.\<close>

theorem foreign_call_delivers:
  assumes "ff_step\<^sup>*\<^sup>* ff_new s"
  shows "ff_dropped_calls s = (if ff_stage s = Gone then installed (ff_dropped s) else []) \<and>
    (ff_received s = None \<or> ff_received s = ff_sent s) \<and>
    (ff_stage s = Waiting \<longrightarrow> (case ff_sent s of
         Some r \<Rightarrow> (the (ff_cx s) \<in> set (ff_wakes s) \<or>
             ff_waking s = ff_cx s \<and> ff_step s (ff_wake s) \<and> the (ff_cx s) \<in> set (ff_wakes (ff_wake s))) \<and>
           (\<forall>cx. ff_received (ff_receive cx (ff_poll_again cx s)) = Some r)
       | None \<Rightarrow> os_waker (ff_channel s) = ff_cx s))"
proof -
  note inv = ff_reachable_inv [OF assms]
  have "ff_waking s = ff_cx s \<and> ff_step s (ff_wake s) \<and> the (ff_cx s) \<in> set (ff_wakes (ff_wake s))"
    if "ff_stage s = Waiting" "ff_sent s = Some r" "the (ff_cx s) \<notin> set (ff_wakes s)" for r
  proof -
    have w: "ff_waking s = ff_cx s" "ff_cx s \<noteq> None" using inv that by auto
    then have "ff_step s (ff_wake s)" by (auto intro: ff_step.wake)
    with w show ?thesis by (auto simp: ff_wake_def)
  qed
  with inv show ?thesis
    by (cases "ff_stage s")
      (auto simp: ff_receive_def ff_poll_again_def receiver_poll_def drop_callback_def split: option.split)
qed

theorem foreign_call_delivers_witness:
  "\<exists>s :: (nat, nat, nat) ForeignFutureState. ff_step\<^sup>*\<^sup>* ff_new s \<and> ff_stage s = Waiting \<and>
     ff_sent s = Some \<lparr>return_value = 7, call_status = default_status\<rparr> \<and>
     the (ff_cx s) \<notin> set (ff_wakes s) \<and> the (ff_cx s) \<in> set (ff_wakes (ff_wake s))"
proof -
  let ?r = "\<lparr>return_value = 7, call_status = default_status\<rparr> :: nat ForeignFutureResult"
  let ?a = "ff_new :: (nat, nat, nat) ForeignFutureState"
  let ?b = "ff_start 3 (Callback 9) ?a"
  let ?c = "ff_receive 3 ?b"
  let ?d = "foreign_future_complete ?r ?c"
  have "ff_step ?a ?b" by (rule ff_step.start) (simp add: ff_new_def)
  moreover have "ff_step ?b ?c" by (rule ff_step.receive) (simp_all add: ff_start_def)
  moreover have "ff_step ?c ?d"
    by (rule ff_step.complete) (simp add: ff_start_def ff_receive_def receiver_poll_def channel_def)
  ultimately have reach: "ff_step\<^sup>*\<^sup>* ?a ?d"
    by (meson converse_rtranclp_into_rtranclp r_into_rtranclp)
  have "ff_stage ?d = Waiting" "ff_sent ?d = Some ?r" "ff_wakes ?d = []"
    by (simp_all add: foreign_future_complete_def send_def ff_start_def ff_receive_def receiver_poll_def channel_def ff_new_def)
  with foreign_call_delivers [OF reach] reach show ?thesis by (intro exI [of _ ?d]) simp
qed

end
