(* ===== verification/Objects.thy ===== *)
theory Objects
  imports Prelude MetaTypes "HOL-Library.Multiset"
begin

text \<open>
  Objects behind handles: \<open>uniffi_core/src/ffi/handle.rs\<close>, the clone and free functions and the
  converters that \<open>uniffi_macros\<close> generates for objects (\<open>object.rs\<close>) and for trait interfaces
  (\<open>export/trait_interface.rs\<close>, with the trait's implementation for foreign objects of
  \<open>export/callback_interface.rs\<close>), and the foreign table of handles
  (\<open>bindings/python/templates/HandleMap.py\<close>; the other languages have the same).

  Reference counts are explicit.  An operation that uses an \<open>Arc\<close> or a handle that no longer exists is
  \<open>Invalid\<close>: undefined behaviour in Rust, an exception in the foreign table.  Addresses and handles that
  are allocated are parameters; what is known of them is that they are not in use, that a Rust address is
  even and that a foreign handle is odd.
\<close>

section \<open>Handles\<close>

datatype Handle = Handle (as_raw: u64)

definition is_foreign :: "Handle \<Rightarrow> bool" where
  "is_foreign h \<longleftrightarrow> as_raw h AND 1 = 1"

definition from_raw :: "u64 \<Rightarrow> Handle option" where
  "from_raw raw = (if raw = 0 then None else Some (Handle raw))"

section \<open>Reference-counted cells\<close>

text \<open>An object is a Rust value, or the generated struct that stands for a foreign object and holds its
  handle.\<close>

datatype 'o Object = Rust_impl 'o | Foreign_impl Handle

text \<open>\<open>arcs\<close> are the \<open>Arc\<close>s of objects, \<open>outer_arcs\<close> the \<open>Arc<Arc<dyn Trait>>\<close>s that trait handles
  point to; each with its strong count.\<close>

record ('o, 'f) Objects =
  arcs :: "u64 \<Rightarrow> (nat \<times> 'o Object) option"
  outer_arcs :: "u64 \<Rightarrow> (nat \<times> u64) option"
  handle_map :: "Handle \<Rightarrow> 'f option"

datatype invalid = Invalid

type_synonym ('o, 'f, 'a) on_objects = "(('o, 'f) Objects, invalid, 'a) reader"

definition no_objects :: "('o, 'f) Objects" where
  "no_objects = \<lparr>arcs = \<lambda>_. None, outer_arcs = \<lambda>_. None, handle_map = \<lambda>_. None\<rparr>"

text \<open>The foreign table.\<close>

definition handle_map_insert :: "Handle \<Rightarrow> 'f \<Rightarrow> ('o, 'f, Handle) on_objects" where
  "handle_map_insert fresh obj s = Inr (fresh, s\<lparr>handle_map := (handle_map s)(fresh \<mapsto> obj)\<rparr>)"

definition handle_map_clone :: "Handle \<Rightarrow> Handle \<Rightarrow> ('o, 'f, Handle) on_objects" where
  "handle_map_clone fresh h s =
     (case handle_map s h of None \<Rightarrow> Inl Invalid | Some obj \<Rightarrow> handle_map_insert fresh obj s)"

definition handle_map_remove :: "Handle \<Rightarrow> ('o, 'f, unit) on_objects" where
  "handle_map_remove h s =
     (case handle_map s h of None \<Rightarrow> Inl Invalid
      | Some _ \<Rightarrow> Inr ((), s\<lparr>handle_map := (handle_map s)(h := None)\<rparr>))"

text \<open>\<open>Arc\<close>: a new one, one more reference, one less.  The last reference drops the object; dropping
  the struct of a foreign object frees its handle.\<close>

definition arc_new :: "u64 \<Rightarrow> 'o Object \<Rightarrow> ('o, 'f, u64) on_objects" where
  "arc_new fresh obj s = Inr (fresh, s\<lparr>arcs := (arcs s)(fresh \<mapsto> (1, obj))\<rparr>)"

definition arc_increment :: "u64 \<Rightarrow> ('o, 'f, unit) on_objects" where
  "arc_increment a s =
     (case arcs s a of None \<Rightarrow> Inl Invalid
      | Some (n, obj) \<Rightarrow> Inr ((), s\<lparr>arcs := (arcs s)(a \<mapsto> (n + 1, obj))\<rparr>))"

definition drop_object :: "'o Object \<Rightarrow> ('o, 'f, unit) on_objects" where
  "drop_object obj = (case obj of Rust_impl _ \<Rightarrow> rret () | Foreign_impl h \<Rightarrow> handle_map_remove h)"

definition arc_drop :: "u64 \<Rightarrow> ('o, 'f, unit) on_objects" where
  "arc_drop a s =
     (case arcs s a of None \<Rightarrow> Inl Invalid
      | Some (n, obj) \<Rightarrow>
          if n = 1 then drop_object obj (s\<lparr>arcs := (arcs s)(a := None)\<rparr>)
          else Inr ((), s\<lparr>arcs := (arcs s)(a \<mapsto> (n - 1, obj))\<rparr>))"

definition outer_new :: "u64 \<Rightarrow> u64 \<Rightarrow> ('o, 'f, u64) on_objects" where
  "outer_new fresh a s = Inr (fresh, s\<lparr>outer_arcs := (outer_arcs s)(fresh \<mapsto> (1, a))\<rparr>)"

definition outer_increment :: "u64 \<Rightarrow> ('o, 'f, unit) on_objects" where
  "outer_increment x s =
     (case outer_arcs s x of None \<Rightarrow> Inl Invalid
      | Some (n, a) \<Rightarrow> Inr ((), s\<lparr>outer_arcs := (outer_arcs s)(x \<mapsto> (n + 1, a))\<rparr>))"

definition outer_drop :: "u64 \<Rightarrow> ('o, 'f, unit) on_objects" where
  "outer_drop x s =
     (case outer_arcs s x of None \<Rightarrow> Inl Invalid
      | Some (n, a) \<Rightarrow>
          if n = 1 then arc_drop a (s\<lparr>outer_arcs := (outer_arcs s)(x := None)\<rparr>)
          else Inr ((), s\<lparr>outer_arcs := (outer_arcs s)(x \<mapsto> (n - 1, a))\<rparr>))"

section \<open>Objects\<close>

text \<open>An object's handle is the address of its \<open>Arc\<close>: \<open>lower\<close> leaks the reference into it and
  \<open>try_lift\<close> takes it back.  The exported functions clone and free a handle.\<close>

definition from_arc :: "u64 \<Rightarrow> Handle" where
  "from_arc a = Handle a"

definition into_arc :: "Handle \<Rightarrow> u64" where
  "into_arc h = as_raw h"

definition clone_arc_handle :: "Handle \<Rightarrow> ('o, 'f, Handle) on_objects" where
  "clone_arc_handle h = rbind (arc_increment (as_raw h)) (\<lambda>_. rret h)"

definition into_arc_borrowed :: "Handle \<Rightarrow> ('o, 'f, u64) on_objects" where
  "into_arc_borrowed h = rbind (clone_arc_handle h) (\<lambda>_. rret (as_raw h))"

definition object_lower :: "u64 \<Rightarrow> ('o, 'f, Handle) on_objects" where
  "object_lower obj = rret (from_arc obj)"

definition object_try_lift :: "Handle \<Rightarrow> ('o, 'f, u64) on_objects" where
  "object_try_lift h = rret (into_arc h)"

definition object_clone_fn :: "Handle \<Rightarrow> ('o, 'f, Handle) on_objects" where
  "object_clone_fn h = rbind (clone_arc_handle h) (\<lambda>_. rret h)"

definition object_free_fn :: "Handle \<Rightarrow> ('o, 'f, unit) on_objects" where
  "object_free_fn h = arc_drop (into_arc h)"

section \<open>Trait interfaces\<close>

text \<open>\<open>uniffi_foreign_handle\<close>: a Rust implementation has none, the struct of a foreign object clones
  its handle.\<close>

definition uniffi_foreign_handle :: "Handle \<Rightarrow> u64 \<Rightarrow> ('o, 'f, Handle option) on_objects" where
  "uniffi_foreign_handle fresh a s =
     (case arcs s a of None \<Rightarrow> Inl Invalid
      | Some (_, Rust_impl _) \<Rightarrow> Inr (None, s)
      | Some (_, Foreign_impl h) \<Rightarrow> rbind (handle_map_clone fresh h) (\<lambda>h'. rret (Some h')) s)"

text \<open>The argument is dropped after the foreign handle has been cloned, and moved into the outer
  \<open>Arc\<close> otherwise.\<close>

definition trait_lower :: "u64 \<Rightarrow> Handle \<Rightarrow> u64 \<Rightarrow> ('o, 'f, Handle) on_objects" where
  "trait_lower fresh_outer fresh_handle obj =
     rbind (uniffi_foreign_handle fresh_handle obj) (\<lambda>r. case r of
         Some handle \<Rightarrow> rbind (arc_drop obj) (\<lambda>_. rret handle)
       | None \<Rightarrow> rbind (outer_new fresh_outer obj) (\<lambda>x. rret (Handle x)))"

definition lift_foreign :: "u64 \<Rightarrow> Handle \<Rightarrow> ('o, 'f, u64) on_objects" where
  "lift_foreign fresh handle = arc_new fresh (Foreign_impl handle)"

text \<open>The inner \<open>Arc\<close> is cloned, then the outer one dropped.\<close>

definition lift_rust :: "Handle \<Rightarrow> ('o, 'f, u64) on_objects" where
  "lift_rust handle s =
     (case outer_arcs s (as_raw handle) of None \<Rightarrow> Inl Invalid
      | Some (_, a) \<Rightarrow>
          rbind (arc_increment a) (\<lambda>_. rbind (outer_drop (as_raw handle)) (\<lambda>_. rret a)) s)"

definition trait_try_lift :: "TraitKind \<Rightarrow> u64 \<Rightarrow> Handle \<Rightarrow> ('o, 'f, u64) on_objects" where
  "trait_try_lift kind fresh handle =
     (case kind of
        TraitKind_RustOnly \<Rightarrow> lift_rust handle
      | TraitKind_Both \<Rightarrow> if is_foreign handle then lift_foreign fresh handle else lift_rust handle
      | TraitKind_ForeignOnly \<Rightarrow> lift_foreign fresh handle)"

definition trait_clone_fn :: "Handle \<Rightarrow> ('o, 'f, Handle) on_objects" where
  "trait_clone_fn handle = rbind (outer_increment (as_raw handle)) (\<lambda>_. rret handle)"

definition trait_free_fn :: "Handle \<Rightarrow> ('o, 'f, unit) on_objects" where
  "trait_free_fn handle = outer_drop (as_raw handle)"

section \<open>The ledger of references\<close>

text \<open>What the program holds: an \<open>Arc\<close> in Rust, an object's handle or a trait's handle on the foreign
  side, a handle of a foreign object on its way.  Each stands for one reference.\<close>

datatype ref = Rust_arc u64 | Object_handle u64 | Trait_handle u64 | Foreign_handle Handle

text \<open>How many entries of a table satisfy a predicate.\<close>

definition entries :: "('k \<Rightarrow> 'b option) \<Rightarrow> ('b \<Rightarrow> bool) \<Rightarrow> nat" where
  "entries m P = card {k. \<exists>b. m k = Some b \<and> P b}"

definition strong :: "(nat \<times> 'b) option \<Rightarrow> nat" where
  "strong c = (case c of None \<Rightarrow> 0 | Some (n, _) \<Rightarrow> n)"

text \<open>Every count is the number of references that are held, in the ledger or by another cell; no cell
  outlives its references; the foreign table holds exactly the handles that are held.\<close>

definition balanced :: "('o, 'f) Objects \<Rightarrow> ref multiset \<Rightarrow> bool" where
  "balanced s l \<longleftrightarrow>
     finite (dom (arcs s)) \<and> finite (dom (outer_arcs s)) \<and>
     (\<forall>a obj. arcs s a \<noteq> Some (0, obj)) \<and> (\<forall>x a. outer_arcs s x \<noteq> Some (0, a)) \<and>
     (\<forall>a. strong (arcs s a) =
        count l (Rust_arc a) + count l (Object_handle a) + entries (outer_arcs s) (\<lambda>(_, a'). a' = a)) \<and>
     (\<forall>x. strong (outer_arcs s x) = count l (Trait_handle x)) \<and>
     (\<forall>h. (if handle_map s h = None then 0 else 1) =
        count l (Foreign_handle h) + entries (arcs s) (\<lambda>(_, obj). obj = Foreign_impl h)) \<and>
     (\<forall>x. outer_arcs s x \<noteq> None \<longrightarrow> \<not> is_foreign (Handle x)) \<and>
     (\<forall>h. handle_map s h \<noteq> None \<longrightarrow> is_foreign h)"

lemma entries_split:
  assumes "finite (dom m)" "m k = Some b"
  shows "entries m P = entries (m(k := None)) P + (if P b then 1 else 0)"
proof -
  have fin: "finite {k'. \<exists>b. (m(k := None)) k' = Some b \<and> P b}"
    by (rule finite_subset [OF _ assms(1)]) (auto split: if_splits)
  have "{k'. \<exists>b. m k' = Some b \<and> P b} =
    (if P b then insert k {k'. \<exists>b. (m(k := None)) k' = Some b \<and> P b}
     else {k'. \<exists>b. (m(k := None)) k' = Some b \<and> P b})"
    using assms(2) by auto
  with fin show ?thesis by (simp add: entries_def)
qed

lemma entries_add:
  assumes "finite (dom m)" "m k = None"
  shows "entries (m(k \<mapsto> b)) P = entries m P + (if P b then 1 else 0)"
  using entries_split [of "m(k \<mapsto> b)" k b P] assms by (simp add: fun_upd_idem)

lemma entries_update:
  assumes "finite (dom m)" "m k = Some b" "P b' = P b"
  shows "entries (m(k \<mapsto> b')) P = entries m P"
  using entries_split [of "m(k \<mapsto> b')" k b' P] entries_split [OF assms(1,2), of P] assms by simp

lemma entries_pos: "finite (dom m) \<Longrightarrow> m k = Some b \<Longrightarrow> P b \<Longrightarrow> 0 < entries m P"
  using entries_split [of m k b P] by simp

lemma strong_simps [simp]: "strong None = 0" "strong (Some (n, b)) = n"
  by (simp_all add: strong_def)

lemma balanced_arcs: "balanced s l \<Longrightarrow> strong (arcs s a) =
    count l (Rust_arc a) + count l (Object_handle a) + entries (outer_arcs s) (\<lambda>(_, a'). a' = a)"
  and balanced_outer_arcs: "balanced s l \<Longrightarrow> strong (outer_arcs s x) = count l (Trait_handle x)"
  and balanced_handle_map: "balanced s l \<Longrightarrow> (if handle_map s h = None then 0 else 1) =
    count l (Foreign_handle h) + entries (arcs s) (\<lambda>(_, obj). obj = Foreign_impl h)"
  and balanced_finite: "balanced s l \<Longrightarrow> finite (dom (arcs s))" "balanced s l \<Longrightarrow> finite (dom (outer_arcs s))"
  by (simp_all add: balanced_def)

text \<open>Where a reference is held does not matter; nor does the place of a handle, in the ledger or in the
  struct of a foreign object.\<close>

lemma balanced_handle: "balanced s (add_mset (Object_handle a) l) \<longleftrightarrow> balanced s (add_mset (Rust_arc a) l)"
  by (simp add: balanced_def)

lemma balanced_arc_live: "balanced s (add_mset (Rust_arc a) l) \<Longrightarrow> \<exists>n obj. arcs s a = Some (n, obj) \<and> 0 < n"
  by (cases "arcs s a") (auto simp: balanced_def dest!: spec [of _ a])

lemma balanced_outer_live:
  assumes "balanced s (add_mset (Trait_handle x) l)"
  shows "\<exists>n a. outer_arcs s x = Some (n, a) \<and> 0 < n \<and> arcs s a \<noteq> None"
proof -
  from assms obtain n a where x: "outer_arcs s x = Some (n, a)" "0 < n"
    by (cases "outer_arcs s x") (auto simp: balanced_def dest!: spec [of _ x])
  with assms entries_pos [of "outer_arcs s" x "(n, a)" "\<lambda>(_, a'). a' = a"]
  have "0 < strong (arcs s a)" by (simp add: balanced_def)
  with x show ?thesis by (cases "arcs s a") auto
qed

lemma balanced_foreign_live:
  assumes "balanced s (add_mset (Foreign_handle h) l)"
  shows "handle_map s h \<noteq> None"
proof
  assume "handle_map s h = None"
  with assms show False by (auto simp: balanced_def dest!: spec [of _ h])
qed

text \<open>Each primitive keeps the books.\<close>

lemma balanced_increment:
  assumes "balanced s l" "arcs s a = Some (n, obj)"
  shows "balanced (s\<lparr>arcs := (arcs s)(a \<mapsto> (n + 1, obj))\<rparr>) (add_mset (Rust_arc a) l)"
proof -
  have "entries ((arcs s)(a \<mapsto> (n + 1, obj))) (\<lambda>(_, obj). obj = Foreign_impl h) =
      entries (arcs s) (\<lambda>(_, obj). obj = Foreign_impl h)" for h
    by (rule entries_update [OF balanced_finite(1) [OF assms(1)] assms(2)]) simp
  with assms balanced_arcs [OF assms(1), of a] show ?thesis by (auto simp: balanced_def)
qed

lemma balanced_decrement:
  assumes "balanced s (add_mset (Rust_arc a) l)" "arcs s a = Some (n, obj)" "n \<noteq> 1"
  shows "balanced (s\<lparr>arcs := (arcs s)(a \<mapsto> (n - 1, obj))\<rparr>) l"
proof -
  have "entries ((arcs s)(a \<mapsto> (n - 1, obj))) (\<lambda>(_, obj). obj = Foreign_impl h) =
      entries (arcs s) (\<lambda>(_, obj). obj = Foreign_impl h)" for h
    by (rule entries_update [OF balanced_finite(1) [OF assms(1)] assms(2)]) simp
  with assms balanced_arcs [OF assms(1), of a] show ?thesis by (auto simp: balanced_def)
qed

text \<open>The last reference: a handle in the struct goes back to the ledger.\<close>

fun handle_of :: "'o Object \<Rightarrow> ref multiset" where
  "handle_of (Rust_impl _) = {#}"
| "handle_of (Foreign_impl h) = {#Foreign_handle h#}"

lemma handle_of_simps [simp]:
  "count (handle_of obj) (Rust_arc a) = 0" "count (handle_of obj) (Object_handle a) = 0"
  "count (handle_of obj) (Trait_handle a) = 0"
  "count (handle_of obj) (Foreign_handle h) = (if obj = Foreign_impl h then 1 else 0)"
  by (cases obj; simp)+

lemma balanced_last:
  assumes "balanced s (add_mset (Rust_arc a) l)" "arcs s a = Some (1, obj)"
  shows "balanced (s\<lparr>arcs := (arcs s)(a := None)\<rparr>) (l + handle_of obj)"
  using assms balanced_arcs [OF assms(1), of a]
    entries_split [OF balanced_finite(1) [OF assms(1)] assms(2), of "\<lambda>(_, obj). obj = Foreign_impl h" for h]
  by (auto simp: balanced_def ac_simps)

lemma balanced_arc_new:
  assumes "balanced s (l + handle_of obj)" "arcs s a = None"
  shows "balanced (s\<lparr>arcs := (arcs s)(a \<mapsto> (1, obj))\<rparr>) (add_mset (Rust_arc a) l)"
  using assms balanced_arcs [OF assms(1), of a]
    entries_add [OF balanced_finite(1) [OF assms(1)] assms(2), of "(1, obj)" "\<lambda>(_, obj). obj = Foreign_impl h" for h]
  by (auto simp: balanced_def ac_simps)

lemma balanced_remove:
  assumes "balanced s (add_mset (Foreign_handle h) l)"
  shows "balanced (s\<lparr>handle_map := (handle_map s)(h := None)\<rparr>) l"
proof -
  have eq: "(if handle_map s h' = None then 0 else 1) =
      count (add_mset (Foreign_handle h) l) (Foreign_handle h') +
      entries (arcs s) (\<lambda>(_, obj). obj = Foreign_impl h')" for h'
    by (rule balanced_handle_map [OF assms])
  have "(if ((handle_map s)(h := None)) h' = None then 0 else 1) =
      count l (Foreign_handle h') + entries (arcs s) (\<lambda>(_, obj). obj = Foreign_impl h')" for h'
    using eq [of h'] balanced_foreign_live [OF assms] by (auto split: if_splits)
  with assms show ?thesis by (simp add: balanced_def)
qed

lemma balanced_insert:
  assumes "balanced s l" "handle_map s h = None" "is_foreign h"
  shows "balanced (s\<lparr>handle_map := (handle_map s)(h \<mapsto> f)\<rparr>) (add_mset (Foreign_handle h) l)"
proof -
  have "(if ((handle_map s)(h \<mapsto> f)) h' = None then 0 else 1) =
      count (add_mset (Foreign_handle h) l) (Foreign_handle h') +
      entries (arcs s) (\<lambda>(_, obj). obj = Foreign_impl h')" for h'
    using balanced_handle_map [OF assms(1), of h'] assms(2) by (auto split: if_splits)
  with assms show ?thesis by (simp add: balanced_def)
qed

lemma balanced_outer_new:
  assumes "balanced s (add_mset (Rust_arc a) l)" "outer_arcs s x = None" "\<not> is_foreign (Handle x)"
  shows "balanced (s\<lparr>outer_arcs := (outer_arcs s)(x \<mapsto> (1, a))\<rparr>) (add_mset (Trait_handle x) l)"
  using assms balanced_outer_arcs [OF assms(1), of x]
    entries_add [OF balanced_finite(2) [OF assms(1)] assms(2), of "(1, a)" "\<lambda>(_, a'). a' = b" for b]
  by (auto simp: balanced_def)

lemma balanced_outer_increment:
  assumes "balanced s l" "outer_arcs s x = Some (n, a)"
  shows "balanced (s\<lparr>outer_arcs := (outer_arcs s)(x \<mapsto> (n + 1, a))\<rparr>) (add_mset (Trait_handle x) l)"
proof -
  have "entries ((outer_arcs s)(x \<mapsto> (n + 1, a))) (\<lambda>(_, a'). a' = b) =
      entries (outer_arcs s) (\<lambda>(_, a'). a' = b)" for b
    by (rule entries_update [OF balanced_finite(2) [OF assms(1)] assms(2)]) simp
  with assms balanced_outer_arcs [OF assms(1), of x] show ?thesis by (auto simp: balanced_def)
qed

lemma balanced_outer_decrement:
  assumes "balanced s (add_mset (Trait_handle x) l)" "outer_arcs s x = Some (n, a)" "n \<noteq> 1"
  shows "balanced (s\<lparr>outer_arcs := (outer_arcs s)(x \<mapsto> (n - 1, a))\<rparr>) l"
proof -
  have "entries ((outer_arcs s)(x \<mapsto> (n - 1, a))) (\<lambda>(_, a'). a' = b) =
      entries (outer_arcs s) (\<lambda>(_, a'). a' = b)" for b
    by (rule entries_update [OF balanced_finite(2) [OF assms(1)] assms(2)]) simp
  with assms balanced_outer_arcs [OF assms(1), of x] show ?thesis by (auto simp: balanced_def)
qed

lemma balanced_outer_last:
  assumes "balanced s (add_mset (Trait_handle x) l)" "outer_arcs s x = Some (1, a)"
  shows "balanced (s\<lparr>outer_arcs := (outer_arcs s)(x := None)\<rparr>) (add_mset (Rust_arc a) l)"
  using assms balanced_outer_arcs [OF assms(1), of x]
    entries_split [OF balanced_finite(2) [OF assms(1)] assms(2), of "\<lambda>(_, a'). a' = b" for b]
  by (auto simp: balanced_def)

section \<open>Operations keep the books\<close>

lemma drop_object_ok:
  assumes "balanced s (l + handle_of obj)"
  shows "\<exists>s'. drop_object obj s = Inr ((), s') \<and> balanced s' l"
proof (cases obj)
  case (Rust_impl v)
  with assms show ?thesis by (simp add: drop_object_def rret_def)
next
  case (Foreign_impl h)
  with assms have b: "balanced s (add_mset (Foreign_handle h) l)" by simp
  then obtain f where "handle_map s h = Some f" using balanced_foreign_live by blast
  with balanced_remove [OF b] Foreign_impl show ?thesis by (simp add: drop_object_def handle_map_remove_def)
qed

lemma arc_drop_ok:
  assumes "balanced s (add_mset (Rust_arc a) l)"
  shows "\<exists>s'. arc_drop a s = Inr ((), s') \<and> balanced s' l"
proof -
  obtain n obj where a: "arcs s a = Some (n, obj)" using balanced_arc_live [OF assms] by blast
  show ?thesis
  proof (cases "n = 1")
    case True
    with drop_object_ok [OF balanced_last [OF assms, of obj]] a show ?thesis by (simp add: arc_drop_def)
  next
    case False
    with balanced_decrement [OF assms a False] a show ?thesis by (simp add: arc_drop_def)
  qed
qed

lemma arc_increment_ok:
  assumes "balanced s l" "arcs s a \<noteq> None"
  shows "\<exists>s'. arc_increment a s = Inr ((), s') \<and> balanced s' (add_mset (Rust_arc a) l) \<and>
    outer_arcs s' = outer_arcs s"
  using assms balanced_increment [OF assms(1)] by (auto simp: arc_increment_def)

lemma outer_increment_ok:
  assumes "balanced s l" "outer_arcs s x \<noteq> None"
  shows "\<exists>s'. outer_increment x s = Inr ((), s') \<and> balanced s' (add_mset (Trait_handle x) l)"
  using assms balanced_outer_increment [OF assms(1)] by (auto simp: outer_increment_def)

lemma outer_drop_ok:
  assumes "balanced s (add_mset (Trait_handle x) l)"
  shows "\<exists>s'. outer_drop x s = Inr ((), s') \<and> balanced s' l"
proof -
  obtain n a where x: "outer_arcs s x = Some (n, a)" using balanced_outer_live [OF assms] by blast
  show ?thesis
  proof (cases "n = 1")
    case True
    with arc_drop_ok [OF balanced_outer_last [OF assms, of a]] x show ?thesis by (simp add: outer_drop_def)
  next
    case False
    with balanced_outer_decrement [OF assms x False] x show ?thesis by (simp add: outer_drop_def)
  qed
qed

lemma lift_rust_ok:
  assumes "balanced s (add_mset (Trait_handle (as_raw h)) l)"
  shows "\<exists>a s'. lift_rust h s = Inr (a, s') \<and> balanced s' (add_mset (Rust_arc a) l)"
proof -
  obtain n a where x: "outer_arcs s (as_raw h) = Some (n, a)" and a: "arcs s a \<noteq> None"
    using balanced_outer_live [OF assms] by blast
  from arc_increment_ok [OF assms a] obtain s1 where
    s1: "arc_increment a s = Inr ((), s1)" "balanced s1 (add_mset (Rust_arc a) (add_mset (Trait_handle (as_raw h)) l))"
    by blast
  then have "balanced s1 (add_mset (Trait_handle (as_raw h)) (add_mset (Rust_arc a) l))"
    by (simp add: add_mset_commute)
  from outer_drop_ok [OF this] s1 x show ?thesis by (auto simp: lift_rust_def reader_apply)
qed

lemma trait_lower_ok:
  assumes "balanced s (add_mset (Rust_arc a) l)" "outer_arcs s x = None" "\<not> is_foreign (Handle x)"
    and "handle_map s h = None" "is_foreign h"
  shows "\<exists>r s'. trait_lower x h a s = Inr (r, s') \<and>
    balanced s' (add_mset (if is_foreign r then Foreign_handle r else Trait_handle (as_raw r)) l)"
proof -
  obtain n obj where a: "arcs s a = Some (n, obj)" using balanced_arc_live [OF assms(1)] by blast
  show ?thesis
  proof (cases obj)
    case (Rust_impl v)
    with a balanced_outer_new [OF assms(1-3)] assms(3) show ?thesis
      by (simp add: trait_lower_def uniffi_foreign_handle_def outer_new_def reader_apply)
  next
    case (Foreign_impl g)
    have "0 < entries (arcs s) (\<lambda>(_, obj). obj = Foreign_impl g)"
      by (rule entries_pos [OF balanced_finite(1) [OF assms(1)] a]) (simp add: Foreign_impl)
    with balanced_handle_map [OF assms(1), of g] obtain f where g: "handle_map s g = Some f" by (auto split: if_splits)
    let ?s = "s\<lparr>handle_map := (handle_map s)(h \<mapsto> f)\<rparr>"
    have "balanced ?s (add_mset (Rust_arc a) (add_mset (Foreign_handle h) l))"
      using balanced_insert [OF assms(1,4,5), of f] by (simp add: add_mset_commute)
    from arc_drop_ok [OF this] a g Foreign_impl assms(5) show ?thesis
      by (auto simp: trait_lower_def uniffi_foreign_handle_def handle_map_clone_def handle_map_insert_def reader_apply)
  qed
qed

section \<open>Runs\<close>

text \<open>What Rust code and foreign code may do with the references that they hold.\<close>

datatype ('o, 'f) move =
    New_object u64 'o
  | Clone_arc u64
  | Drop_arc u64
  | Object_lower u64
  | Object_lift Handle
  | Object_clone Handle
  | Object_free Handle
  | Trait_lower u64 Handle u64
  | Trait_lift TraitKind u64 Handle
  | Trait_clone Handle
  | Trait_free Handle
  | Foreign_new Handle 'f
  | Foreign_drop Handle

definition ref_of :: "Handle \<Rightarrow> ref" where
  "ref_of h = (if is_foreign h then Foreign_handle h else Trait_handle (as_raw h))"

definition gives ::
  "invalid + 'a \<times> ('o, 'f) Objects \<Rightarrow> ('a \<Rightarrow> ref multiset) \<Rightarrow> invalid + ('o, 'f) Objects \<times> ref multiset" where
  "gives r l = (case r of Inl e \<Rightarrow> Inl e | Inr (a, s) \<Rightarrow> Inr (s, l a))"

fun perform :: "('o, 'f) move \<Rightarrow> ('o, 'f) Objects \<times> ref multiset \<Rightarrow> invalid + ('o, 'f) Objects \<times> ref multiset" where
  "perform (New_object a v) (s, l) = gives (arc_new a (Rust_impl v) s) (\<lambda>a. add_mset (Rust_arc a) l)"
| "perform (Clone_arc a) (s, l) = gives (arc_increment a s) (\<lambda>_. add_mset (Rust_arc a) l)"
| "perform (Drop_arc a) (s, l) = gives (arc_drop a s) (\<lambda>_. l - {#Rust_arc a#})"
| "perform (Object_lower a) (s, l) =
     gives (object_lower a s) (\<lambda>h. add_mset (Object_handle (as_raw h)) (l - {#Rust_arc a#}))"
| "perform (Object_lift h) (s, l) =
     gives (object_try_lift h s) (\<lambda>a. add_mset (Rust_arc a) (l - {#Object_handle (as_raw h)#}))"
| "perform (Object_clone h) (s, l) = gives (object_clone_fn h s) (\<lambda>h'. add_mset (Object_handle (as_raw h')) l)"
| "perform (Object_free h) (s, l) = gives (object_free_fn h s) (\<lambda>_. l - {#Object_handle (as_raw h)#})"
| "perform (Trait_lower x h a) (s, l) = gives (trait_lower x h a s) (\<lambda>r. add_mset (ref_of r) (l - {#Rust_arc a#}))"
| "perform (Trait_lift kind a h) (s, l) =
     gives (trait_try_lift kind a h s) (\<lambda>r. add_mset (Rust_arc r) (l - {#ref_of h#}))"
| "perform (Trait_clone h) (s, l) = gives (trait_clone_fn h s) (\<lambda>h'. add_mset (Trait_handle (as_raw h')) l)"
| "perform (Trait_free h) (s, l) = gives (trait_free_fn h s) (\<lambda>_. l - {#Trait_handle (as_raw h)#})"
| "perform (Foreign_new h f) (s, l) = gives (handle_map_insert h f s) (\<lambda>h'. add_mset (Foreign_handle h') l)"
| "perform (Foreign_drop h) (s, l) = gives (handle_map_remove h s) (\<lambda>_. l - {#Foreign_handle h#})"

text \<open>A move may use the references in the ledger, and what the allocators give is not in use.  A handle
  is lifted by a trait whose implementations can have made it.\<close>

fun allowed :: "('o, 'f) move \<Rightarrow> ('o, 'f) Objects \<times> ref multiset \<Rightarrow> bool" where
  "allowed (New_object a v) (s, l) \<longleftrightarrow> arcs s a = None"
| "allowed (Clone_arc a) (s, l) \<longleftrightarrow> Rust_arc a \<in># l"
| "allowed (Drop_arc a) (s, l) \<longleftrightarrow> Rust_arc a \<in># l"
| "allowed (Object_lower a) (s, l) \<longleftrightarrow> Rust_arc a \<in># l"
| "allowed (Object_lift h) (s, l) \<longleftrightarrow> Object_handle (as_raw h) \<in># l"
| "allowed (Object_clone h) (s, l) \<longleftrightarrow> Object_handle (as_raw h) \<in># l"
| "allowed (Object_free h) (s, l) \<longleftrightarrow> Object_handle (as_raw h) \<in># l"
| "allowed (Trait_lower x h a) (s, l) \<longleftrightarrow> Rust_arc a \<in># l \<and>
     outer_arcs s x = None \<and> \<not> is_foreign (Handle x) \<and> handle_map s h = None \<and> is_foreign h"
| "allowed (Trait_lift kind a h) (s, l) \<longleftrightarrow> ref_of h \<in># l \<and> arcs s a = None \<and>
     (case kind of TraitKind_RustOnly \<Rightarrow> \<not> is_foreign h | TraitKind_Both \<Rightarrow> True | TraitKind_ForeignOnly \<Rightarrow> is_foreign h)"
| "allowed (Trait_clone h) (s, l) \<longleftrightarrow> Trait_handle (as_raw h) \<in># l"
| "allowed (Trait_free h) (s, l) \<longleftrightarrow> Trait_handle (as_raw h) \<in># l"
| "allowed (Foreign_new h f) (s, l) \<longleftrightarrow> handle_map s h = None \<and> is_foreign h"
| "allowed (Foreign_drop h) (s, l) \<longleftrightarrow> Foreign_handle h \<in># l"

fun run :: "('o, 'f) move list \<Rightarrow> ('o, 'f) Objects \<times> ref multiset \<Rightarrow> invalid + ('o, 'f) Objects \<times> ref multiset" where
  "run [] st = Inr st"
| "run (m # ms) st = (case perform m st of Inl e \<Rightarrow> Inl e | Inr st' \<Rightarrow> run ms st')"

fun all_allowed :: "('o, 'f) move list \<Rightarrow> ('o, 'f) Objects \<times> ref multiset \<Rightarrow> bool" where
  "all_allowed [] st = True"
| "all_allowed (m # ms) st \<longleftrightarrow>
     allowed m st \<and> (case perform m st of Inl e \<Rightarrow> True | Inr st' \<Rightarrow> all_allowed ms st')"

lemma in_ledger: "r \<in># l \<Longrightarrow> balanced s l \<Longrightarrow> balanced s (add_mset r (l - {#r#}))"
  by simp

lemma perform_ok:
  assumes "balanced s l" "allowed m (s, l)"
  shows "\<exists>s' l'. perform m (s, l) = Inr (s', l') \<and> balanced s' l'"
proof (cases m)
  case (New_object a v)
  with assms balanced_arc_new [of s l "Rust_impl v" a] show ?thesis by (simp add: gives_def arc_new_def)
next
  case (Clone_arc a)
  with assms have "arcs s a \<noteq> None" using balanced_arc_live [OF in_ledger [of "Rust_arc a" l s]] by auto
  from arc_increment_ok [OF assms(1) this] Clone_arc show ?thesis by (auto simp: gives_def)
next
  case (Drop_arc a)
  with assms arc_drop_ok [OF in_ledger [of "Rust_arc a" l s]] show ?thesis by (auto simp: gives_def)
next
  case (Object_lower a)
  with assms in_ledger [of "Rust_arc a" l s] show ?thesis
    by (simp add: gives_def object_lower_def rret_def from_arc_def balanced_handle)
next
  case (Object_lift h)
  with assms in_ledger [of "Object_handle (as_raw h)" l s] show ?thesis
    by (simp add: gives_def object_try_lift_def rret_def into_arc_def balanced_handle [symmetric])
next
  case (Object_clone h)
  with assms in_ledger [of "Object_handle (as_raw h)" l s]
  have "balanced s (add_mset (Rust_arc (as_raw h)) (l - {#Object_handle (as_raw h)#}))"
    by (simp add: balanced_handle [symmetric])
  then have "arcs s (as_raw h) \<noteq> None" using balanced_arc_live by fastforce
  from arc_increment_ok [OF assms(1) this] Object_clone show ?thesis
    by (auto simp: gives_def object_clone_fn_def clone_arc_handle_def reader_apply balanced_handle)
next
  case (Object_free h)
  with assms in_ledger [of "Object_handle (as_raw h)" l s]
  have "balanced s (add_mset (Rust_arc (as_raw h)) (l - {#Object_handle (as_raw h)#}))"
    by (simp add: balanced_handle [symmetric])
  from arc_drop_ok [OF this] Object_free show ?thesis
    by (auto simp: gives_def object_free_fn_def into_arc_def)
next
  case (Trait_lower x h a)
  with assms trait_lower_ok [OF in_ledger [of "Rust_arc a" l s], of x h] show ?thesis
    by (auto simp: gives_def ref_of_def)
next
  case (Trait_lift kind a h)
  show ?thesis
  proof (cases "is_foreign h")
    case True
    with Trait_lift assms(2) have lift: "trait_try_lift kind a h s = lift_foreign a h s"
      and in_l: "Foreign_handle h \<in># l" and a: "arcs s a = None"
      by (cases kind; simp add: trait_try_lift_def ref_of_def)+
    have "balanced s ((l - {#Foreign_handle h#}) + handle_of (Foreign_impl h))"
      using in_ledger [OF in_l assms(1)] by simp
    from balanced_arc_new [OF this a] lift Trait_lift True show ?thesis
      by (simp add: gives_def lift_foreign_def arc_new_def ref_of_def)
  next
    case False
    with Trait_lift assms(2) have lift: "trait_try_lift kind a h s = lift_rust h s"
      and in_l: "Trait_handle (as_raw h) \<in># l"
      by (cases kind; simp add: trait_try_lift_def ref_of_def)+
    from lift_rust_ok [OF in_ledger [OF in_l assms(1)]] lift Trait_lift False show ?thesis
      by (auto simp: gives_def ref_of_def)
  qed
next
  case (Trait_clone h)
  with assms have "outer_arcs s (as_raw h) \<noteq> None"
    using balanced_outer_live [OF in_ledger [of "Trait_handle (as_raw h)" l s]] by auto
  from outer_increment_ok [OF assms(1) this] Trait_clone show ?thesis
    by (auto simp: gives_def trait_clone_fn_def reader_apply)
next
  case (Trait_free h)
  with assms outer_drop_ok [OF in_ledger [of "Trait_handle (as_raw h)" l s]] show ?thesis
    by (auto simp: gives_def trait_free_fn_def)
next
  case (Foreign_new h f)
  with assms balanced_insert [of s l h f] show ?thesis by (simp add: gives_def handle_map_insert_def)
next
  case (Foreign_drop h)
  with assms have b: "balanced s (add_mset (Foreign_handle h) (l - {#Foreign_handle h#}))" by simp
  from balanced_foreign_live [OF b] balanced_remove [OF b] Foreign_drop show ?thesis
    by (auto simp: gives_def handle_map_remove_def)
qed

lemma balanced_none: "balanced no_objects {#}"
  by (simp add: balanced_def no_objects_def entries_def)

lemma run_ok:
  assumes "balanced s l" "all_allowed ms (s, l)"
  shows "\<exists>s' l'. run ms (s, l) = Inr (s', l') \<and> balanced s' l'"
  using assms
proof (induction ms arbitrary: s l)
  case (Cons m ms)
  from perform_ok [OF Cons.prems(1), of m] Cons.prems(2) obtain s1 l1 where
    "perform m (s, l) = Inr (s1, l1)" "balanced s1 l1" by auto
  with Cons.IH [of s1 l1] Cons.prems(2) show ?case by simp
qed simp

text \<open>No reference, no cell.\<close>

lemma balanced_empty:
  assumes "balanced s {#}"
  shows "s = no_objects"
proof -
  have outer: "outer_arcs s x = None" for x
    using assms balanced_outer_arcs [OF assms, of x] by (cases "outer_arcs s x") (auto simp: balanced_def)
  then have "entries (outer_arcs s) P = 0" for P by (simp add: entries_def)
  then have arc: "arcs s a = None" for a
    using assms balanced_arcs [OF assms, of a] by (cases "arcs s a") (auto simp: balanced_def)
  then have "entries (arcs s) P = 0" for P by (simp add: entries_def)
  then have "handle_map s h = None" for h
    using balanced_handle_map [OF assms, of h] by (auto split: if_splits)
  with outer arc show ?thesis by (simp add: no_objects_def fun_eq_iff)
qed

section \<open>Properties\<close>

text \<open>C8: objects are memory safe across the FFI, whatever the sequence of operations.  As long as Rust
  and the foreign side each use only the references they hold, lowering, lifting, cloning and freeing
  objects and trait objects, made in either language, never touches a cell that is gone; every reference
  held leads to a live object; and when all references have been given up, nothing is left on either
  side.\<close>

theorem objects_safe:
  assumes "all_allowed ms (no_objects, {#})"
  shows "\<exists>s l. run ms (no_objects, {#}) = Inr (s, l) \<and>
    (\<forall>a. Rust_arc a \<in># l \<or> Object_handle a \<in># l \<longrightarrow> arcs s a \<noteq> None) \<and>
    (\<forall>x. Trait_handle x \<in># l \<longrightarrow> (\<exists>n a. outer_arcs s x = Some (n, a) \<and> arcs s a \<noteq> None)) \<and>
    (\<forall>h. Foreign_handle h \<in># l \<longrightarrow> handle_map s h \<noteq> None) \<and>
    (l = {#} \<longrightarrow> s = no_objects)"
proof -
  from run_ok [OF balanced_none assms] obtain s l where
    r: "run ms (no_objects, {#}) = Inr (s, l)" and b: "balanced s l" by blast
  have "arcs s a \<noteq> None" if "Rust_arc a \<in># l \<or> Object_handle a \<in># l" for a
  proof
    assume "arcs s a = None"
    with balanced_arcs [OF b, of a] have "count l (Rust_arc a) = 0" "count l (Object_handle a) = 0" by simp_all
    with that show False by (metis not_in_iff)
  qed
  moreover have "\<exists>n a. outer_arcs s x = Some (n, a) \<and> arcs s a \<noteq> None" if "Trait_handle x \<in># l" for x
    using balanced_outer_live [OF in_ledger [OF that b]] by blast
  moreover have "handle_map s h \<noteq> None" if "Foreign_handle h \<in># l" for h
    by (rule balanced_foreign_live [OF in_ledger [OF that b]])
  moreover have "s = no_objects" if "l = {#}" using balanced_empty b that by blast
  ultimately show ?thesis using r by blast
qed

theorem objects_safe_witness:
  "\<exists>s l. run [New_object 8 (5::nat), Trait_lower 16 (Handle 1) 8, Trait_clone (Handle 16),
       Trait_lift TraitKind_Both 24 (Handle 16), Drop_arc 8, Foreign_new (Handle 3) (7::nat),
       Trait_lift TraitKind_Both 32 (Handle 3), Drop_arc 32, Trait_free (Handle 16)] (no_objects, {#}) =
     Inr (s, l) \<and> (l = {#} \<longrightarrow> s = no_objects)"
proof -
  let ?ms = "[New_object 8 (5::nat), Trait_lower 16 (Handle 1) 8, Trait_clone (Handle 16),
       Trait_lift TraitKind_Both 24 (Handle 16), Drop_arc 8, Foreign_new (Handle 3) (7::nat),
       Trait_lift TraitKind_Both 32 (Handle 3), Drop_arc 32, Trait_free (Handle 16)]"
  have "all_allowed ?ms (no_objects, {#})"
    by (simp add: no_objects_def gives_def arc_new_def trait_lower_def uniffi_foreign_handle_def outer_new_def
        reader_apply ref_of_def is_foreign_def trait_clone_fn_def outer_increment_def trait_try_lift_def
        lift_rust_def arc_increment_def outer_drop_def arc_drop_def drop_object_def handle_map_insert_def
        lift_foreign_def handle_map_remove_def trait_free_fn_def)
  from objects_safe [OF this] show ?thesis by blast
qed

text \<open>C26: an object comes back as itself.  Where Rust can implement a trait interface, a Rust object that is
  lowered through it and lifted again is the same \<open>Arc\<close>, with nothing else changed; where the foreign side
  can, a foreign object that goes through Rust and back arrives under a new handle for the same object,
  and its old handle and Rust's struct for it are gone.\<close>

theorem object_comes_back:
  assumes "balanced s (add_mset (Rust_arc a) (add_mset (Foreign_handle h) l))"
    and "arcs s a = Some (n, Rust_impl v)" and "handle_map s h = Some f"
    and "outer_arcs s x = None" and "\<not> is_foreign (Handle x)"
    and "arcs s y = None" and "is_foreign h" and "h' \<noteq> h"
  shows "(kind = TraitKind_RustOnly \<or> kind = TraitKind_Both \<longrightarrow>
      rbind (trait_lower x h' a) (trait_try_lift kind y) s = Inr (a, s)) \<and>
    (kind = TraitKind_ForeignOnly \<or> kind = TraitKind_Both \<longrightarrow>
      rbind (trait_try_lift kind y h) (trait_lower x h') s =
        Inr (h', s\<lparr>handle_map := ((handle_map s)(h := None))(h' \<mapsto> f)\<rparr>))"
proof (intro conjI impI)
  have "arcs s a \<noteq> Some (0, Rust_impl v)" using assms(1) unfolding balanced_def by blast
  then have n: "n \<noteq> 0" using assms(2) by auto
  have returned: "rbind (trait_lower x h' a) lift_rust s = Inr (a, s)"
    using assms(2,4) n
    by (simp add: trait_lower_def uniffi_foreign_handle_def outer_new_def reader_apply
        lift_rust_def arc_increment_def outer_drop_def arc_drop_def fun_upd_idem)
  assume "kind = TraitKind_RustOnly \<or> kind = TraitKind_Both"
  then have "rbind (trait_lower x h' a) (trait_try_lift kind y) s = rbind (trait_lower x h' a) lift_rust s"
    using assms(2,4,5) by (auto simp: trait_lower_def uniffi_foreign_handle_def outer_new_def reader_apply trait_try_lift_def)
  with returned show "rbind (trait_lower x h' a) (trait_try_lift kind y) s = Inr (a, s)" by simp
next
  assume "kind = TraitKind_ForeignOnly \<or> kind = TraitKind_Both"
  then have "trait_try_lift kind y h = (lift_foreign y h :: ('a, 'b, u64) on_objects)"
    using assms(7) by (auto simp: trait_try_lift_def)
  then show "rbind (trait_try_lift kind y h) (trait_lower x h') s =
      Inr (h', s\<lparr>handle_map := ((handle_map s)(h := None))(h' \<mapsto> f)\<rparr>)"
    using assms(3,6,8)
    by (simp add: trait_lower_def uniffi_foreign_handle_def reader_apply lift_foreign_def
        arc_new_def handle_map_clone_def handle_map_insert_def arc_drop_def drop_object_def
        handle_map_remove_def fun_upd_idem fun_upd_twist)
qed

theorem object_comes_back_witness:
  "\<exists>s :: (nat, nat) Objects. rbind (trait_lower 16 (Handle 3) 8) (trait_try_lift TraitKind_RustOnly 24) s = Inr (8, s) \<and>
     rbind (trait_try_lift TraitKind_ForeignOnly 24 (Handle 1)) (trait_lower 16 (Handle 3)) s =
       Inr (Handle 3, s\<lparr>handle_map := ((handle_map s)(Handle 1 := None))(Handle 3 \<mapsto> 7)\<rparr>)"
proof -
  let ?s = "\<lparr>arcs = [8 \<mapsto> (1, Rust_impl 5)], outer_arcs = \<lambda>_. None, handle_map = [Handle 1 \<mapsto> 7]\<rparr> :: (nat, nat) Objects"
  have odd: "is_foreign (Handle 1)" by (simp add: is_foreign_def)
  let ?none = "no_objects :: (nat, nat) Objects"
  have "balanced (?none\<lparr>arcs := (arcs ?none)(8 \<mapsto> (1, Rust_impl 5))\<rparr>) {#Rust_arc 8#}"
    by (rule balanced_arc_new) (simp_all add: balanced_none, simp add: no_objects_def)
  from balanced_insert [OF this _ odd, of 7]
  have "balanced ?s (add_mset (Rust_arc 8) (add_mset (Foreign_handle (Handle 1)) {#}))"
    by (simp add: no_objects_def add_mset_commute)
  note returned = object_comes_back [OF this, of 1 5 7 16 24 "Handle 3"]
  from returned [of TraitKind_RustOnly] returned [of TraitKind_ForeignOnly] odd show ?thesis
    by (intro exI [of _ ?s]) (simp add: is_foreign_def)
qed

end
