(* ===== verification/InitialNodes.thy ===== *)
theory InitialNodes
  imports MetaTypes
begin

text \<open>
  The initial IR of the bindings pipeline: \<open>uniffi_bindgen/src/pipeline/initial/nodes.rs\<close>.  It is the
  metadata as a tree: namespaces with functions and type definitions, types with their methods.  The
  names of its records start with \<open>I\<close>, to keep them apart from those of the metadata and of the general
  IR.  The visitors at the end are \<open>Node::visit\<close> (\<open>uniffi_pipeline/src/node.rs\<close>) for the node types that
  the passes look for: the descendants in the order of the derived traversal, which is that of the
  declaration of the fields, a node before its children.
\<close>

section \<open>Types\<close>

datatype ITy =
    ITy_UInt8 | ITy_Int8 | ITy_UInt16 | ITy_Int16 | ITy_UInt32 | ITy_Int32 | ITy_UInt64 | ITy_Int64
  | ITy_Float32 | ITy_Float64 | ITy_Boolean | ITy_String | ITy_Bytes | ITy_Timestamp | ITy_Duration
  | ITy_Box ITy
  | ITy_Optional ITy
  | ITy_Sequence ITy
  | ITy_Map ITy ITy
  | ITy_Set ITy
  | ITy_Interface string string string ObjectImpl  \<comment> \<open>namespace, name, orig_name\<close>
  | ITy_Record string string string
  | ITy_Enum string string string
  | ITy_CallbackInterface string string string
  | ITy_Custom string string string ITy


section \<open>Items\<close>

datatype ILiteral =
    ILiteral_Boolean bool
  | ILiteral_String string
  | ILiteral_UInt u64 Radix ITy
  | ILiteral_Int u64 Radix ITy  \<comment> \<open>an \<open>i64\<close> in two's complement\<close>
  | ILiteral_Float string ITy
  | ILiteral_Enum string ITy
  | ILiteral_EmptySequence
  | ILiteral_EmptyMap
  | ILiteral_EmptySet
  | ILiteral_None
  | ILiteral_Some IDefaultValue
and IDefaultValue =
    IDefaultValue_Default
  | IDefaultValue_Literal ILiteral

record IArgument =
  iar_name :: string
  iar_ty :: ITy
  iar_by_ref :: bool
  iar_optional :: bool
  iar_default :: "IDefaultValue option"

definition i_is_borrowed_bytes :: "IArgument \<Rightarrow> bool" where
  "i_is_borrowed_bytes a \<longleftrightarrow> iar_by_ref a \<and> iar_ty a = ITy_Bytes"

record IFunction =
  ifu_orig_name :: string
  ifu_id :: u64
  ifu_name :: string
  ifu_module_path :: string
  ifu_is_async :: bool
  ifu_inputs :: "IArgument list"
  ifu_return_type :: "ITy option"
  ifu_throws :: "ITy option"
  ifu_checksum :: "u16 option"
  ifu_docstring :: "string option"

record IConstructor =
  ico_orig_name :: string
  ico_id :: u64
  ico_name :: string
  ico_is_async :: bool
  ico_inputs :: "IArgument list"
  ico_throws :: "ITy option"
  ico_checksum :: "u16 option"
  ico_docstring :: "string option"

record IMethod =
  ime_orig_name :: string
  ime_id :: u64
  ime_name :: string
  ime_is_async :: bool
  ime_takes_self_by_arc :: bool
  ime_inputs :: "IArgument list"
  ime_return_type :: "ITy option"
  ime_throws :: "ITy option"
  ime_checksum :: "u16 option"
  ime_docstring :: "string option"

datatype IUniffiTrait =
    IUniffiTrait_Debug IMethod
  | IUniffiTrait_Display IMethod
  | IUniffiTrait_Eq IMethod IMethod
  | IUniffiTrait_Hash IMethod
  | IUniffiTrait_Ord IMethod

record IField =
  ifi_name :: string
  ifi_orig_name :: string
  ifi_ty :: ITy
  ifi_default :: "IDefaultValue option"
  ifi_docstring :: "string option"

record IRecord =
  ire_constructors :: "IConstructor list"
  ire_methods :: "IMethod list"
  ire_uniffi_traits :: "IUniffiTrait list"
  ire_module_path :: string
  ire_name :: string
  ire_orig_name :: string
  ire_fields :: "IField list"
  ire_docstring :: "string option"

record IVariant =
  iva_name :: string
  iva_orig_name :: string
  iva_discr :: "ILiteral option"
  iva_fields :: "IField list"
  iva_docstring :: "string option"

record IEnum =
  ien_constructors :: "IConstructor list"
  ien_methods :: "IMethod list"
  ien_uniffi_traits :: "IUniffiTrait list"
  ien_module_path :: string
  ien_name :: string
  ien_orig_name :: string
  ien_shape :: EnumShape
  ien_variants :: "IVariant list"
  ien_discr_type :: "ITy option"
  ien_docstring :: "string option"

record IObjectTraitImpl =
  iot_ty :: ITy
  iot_trait_ty :: ITy

record IInterface =
  iin_constructors :: "IConstructor list"
  iin_methods :: "IMethod list"
  iin_uniffi_traits :: "IUniffiTrait list"
  iin_trait_impls :: "IObjectTraitImpl list"
  iin_module_path :: string
  iin_name :: string
  iin_orig_name :: string
  iin_docstring :: "string option"
  iin_imp :: ObjectImpl

record ICallbackInterface =
  icb_methods :: "IMethod list"
  icb_module_path :: string
  icb_name :: string
  icb_orig_name :: string
  icb_docstring :: "string option"

record ICustomType =
  icu_module_path :: string
  icu_name :: string
  icu_orig_name :: string
  icu_builtin :: ITy
  icu_docstring :: "string option"

datatype ITypeDefinition =
    ITypeDefinition_Interface IInterface
  | ITypeDefinition_CallbackInterface ICallbackInterface
  | ITypeDefinition_Record IRecord
  | ITypeDefinition_Enum IEnum
  | ITypeDefinition_Custom ICustomType

fun i_definition_name :: "ITypeDefinition \<Rightarrow> string" where
  "i_definition_name (ITypeDefinition_Record r) = ire_name r"
| "i_definition_name (ITypeDefinition_Enum e) = ien_name e"
| "i_definition_name (ITypeDefinition_Interface i) = iin_name i"
| "i_definition_name (ITypeDefinition_CallbackInterface c) = icb_name c"
| "i_definition_name (ITypeDefinition_Custom c) = icu_name c"

record INamespace =
  ins_name :: string
  ins_crate_name :: string
  ins_config_toml :: "string option"
  ins_docstring :: "string option"
  ins_functions :: "IFunction list"
  ins_type_definitions :: "ITypeDefinition list"

datatype ChecksumMode = ChecksumMode_Legacy | ChecksumMode_Skip

record IRoot =
  iro_namespaces :: "(string \<times> INamespace) list"
  iro_cdylib :: "string option"
  iro_from_unexpected_callback_error_impls :: "ITy list"
  iro_checksum_mode :: ChecksumMode

section \<open>Visitors\<close>

definition option_list :: "'a option \<Rightarrow> 'a list" where
  "option_list x = (case x of None \<Rightarrow> [] | Some a \<Rightarrow> [a])"

lemma option_list_simps [simp]: "option_list None = []" "option_list (Some a) = [a]"
  by (simp_all add: option_list_def)

text \<open>A \<open>Type\<close> node and its descendants, through boxes, wrappers and the builtin of a custom type.\<close>

fun visit_type :: "ITy \<Rightarrow> ITy list" where
  "visit_type (ITy_Box t) = ITy_Box t # visit_type t"
| "visit_type (ITy_Optional t) = ITy_Optional t # visit_type t"
| "visit_type (ITy_Sequence t) = ITy_Sequence t # visit_type t"
| "visit_type (ITy_Map k v) = ITy_Map k v # visit_type k @ visit_type v"
| "visit_type (ITy_Set t) = ITy_Set t # visit_type t"
| "visit_type (ITy_Custom ns nm orig t) = ITy_Custom ns nm orig t # visit_type t"
| "visit_type t = [t]"

definition visit_opt :: "('a \<Rightarrow> 'b list) \<Rightarrow> 'a option \<Rightarrow> 'b list" where
  "visit_opt visit x = concat (map visit (option_list x))"

definition visit_list :: "('a \<Rightarrow> 'b list) \<Rightarrow> 'a list \<Rightarrow> 'b list" where
  "visit_list visit xs = concat (map visit xs)"

fun literal_types :: "ILiteral \<Rightarrow> ITy list" and default_types :: "IDefaultValue \<Rightarrow> ITy list" where
  "literal_types (ILiteral_UInt v r t) = visit_type t"
| "literal_types (ILiteral_Int v r t) = visit_type t"
| "literal_types (ILiteral_Float s t) = visit_type t"
| "literal_types (ILiteral_Enum s t) = visit_type t"
| "literal_types (ILiteral_Some d) = default_types d"
| "literal_types _ = []"
| "default_types IDefaultValue_Default = []"
| "default_types (IDefaultValue_Literal l) = literal_types l"

definition argument_types :: "IArgument \<Rightarrow> ITy list" where
  "argument_types a = visit_type (iar_ty a) @ visit_opt default_types (iar_default a)"

definition function_types :: "IFunction \<Rightarrow> ITy list" where
  "function_types f = visit_list argument_types (ifu_inputs f) @ visit_opt visit_type (ifu_return_type f) @
     visit_opt visit_type (ifu_throws f)"

definition constructor_types :: "IConstructor \<Rightarrow> ITy list" where
  "constructor_types c = visit_list argument_types (ico_inputs c) @ visit_opt visit_type (ico_throws c)"

definition method_types :: "IMethod \<Rightarrow> ITy list" where
  "method_types m = visit_list argument_types (ime_inputs m) @ visit_opt visit_type (ime_return_type m) @
     visit_opt visit_type (ime_throws m)"

fun trait_methods :: "IUniffiTrait \<Rightarrow> IMethod list" where
  "trait_methods (IUniffiTrait_Debug fmt) = [fmt]"
| "trait_methods (IUniffiTrait_Display fmt) = [fmt]"
| "trait_methods (IUniffiTrait_Eq eq ne) = [eq, ne]"
| "trait_methods (IUniffiTrait_Hash hash) = [hash]"
| "trait_methods (IUniffiTrait_Ord cmp) = [cmp]"

definition trait_types :: "IUniffiTrait \<Rightarrow> ITy list" where
  "trait_types t = visit_list method_types (trait_methods t)"

definition field_types :: "IField \<Rightarrow> ITy list" where
  "field_types f = visit_type (ifi_ty f) @ visit_opt default_types (ifi_default f)"

definition variant_types :: "IVariant \<Rightarrow> ITy list" where
  "variant_types v = visit_opt literal_types (iva_discr v) @ visit_list field_types (iva_fields v)"

fun definition_types :: "ITypeDefinition \<Rightarrow> ITy list" where
  "definition_types (ITypeDefinition_Interface i) =
     visit_list constructor_types (iin_constructors i) @ visit_list method_types (iin_methods i) @
     visit_list trait_types (iin_uniffi_traits i) @
     visit_list (\<lambda>t. visit_type (iot_ty t) @ visit_type (iot_trait_ty t)) (iin_trait_impls i)"
| "definition_types (ITypeDefinition_CallbackInterface c) = visit_list method_types (icb_methods c)"
| "definition_types (ITypeDefinition_Record r) =
     visit_list constructor_types (ire_constructors r) @ visit_list method_types (ire_methods r) @
     visit_list trait_types (ire_uniffi_traits r) @ visit_list field_types (ire_fields r)"
| "definition_types (ITypeDefinition_Enum e) =
     visit_list constructor_types (ien_constructors e) @ visit_list method_types (ien_methods e) @
     visit_list trait_types (ien_uniffi_traits e) @ visit_list variant_types (ien_variants e) @
     visit_opt visit_type (ien_discr_type e)"
| "definition_types (ITypeDefinition_Custom c) = visit_type (icu_builtin c)"

definition namespace_types :: "INamespace \<Rightarrow> ITy list" where
  "namespace_types ns = visit_list function_types (ins_functions ns) @
     visit_list definition_types (ins_type_definitions ns)"

text \<open>Methods include those of the builtin traits.\<close>

fun definition_methods :: "ITypeDefinition \<Rightarrow> IMethod list" where
  "definition_methods (ITypeDefinition_Interface i) = iin_methods i @ visit_list trait_methods (iin_uniffi_traits i)"
| "definition_methods (ITypeDefinition_CallbackInterface c) = icb_methods c"
| "definition_methods (ITypeDefinition_Record r) = ire_methods r @ visit_list trait_methods (ire_uniffi_traits r)"
| "definition_methods (ITypeDefinition_Enum e) = ien_methods e @ visit_list trait_methods (ien_uniffi_traits e)"
| "definition_methods (ITypeDefinition_Custom c) = []"

fun definition_constructors :: "ITypeDefinition \<Rightarrow> IConstructor list" where
  "definition_constructors (ITypeDefinition_Interface i) = iin_constructors i"
| "definition_constructors (ITypeDefinition_Record r) = ire_constructors r"
| "definition_constructors (ITypeDefinition_Enum e) = ien_constructors e"
| "definition_constructors _ = []"

definition namespace_methods :: "INamespace \<Rightarrow> IMethod list" where
  "namespace_methods ns = visit_list definition_methods (ins_type_definitions ns)"

definition namespace_constructors :: "INamespace \<Rightarrow> IConstructor list" where
  "namespace_constructors ns = visit_list definition_constructors (ins_type_definitions ns)"

definition namespace_interfaces :: "INamespace \<Rightarrow> IInterface list" where
  "namespace_interfaces ns =
     List.map_filter (\<lambda>td. case td of ITypeDefinition_Interface i \<Rightarrow> Some i | _ \<Rightarrow> None) (ins_type_definitions ns)"

definition namespace_callback_interfaces :: "INamespace \<Rightarrow> ICallbackInterface list" where
  "namespace_callback_interfaces ns =
     List.map_filter (\<lambda>td. case td of ITypeDefinition_CallbackInterface c \<Rightarrow> Some c | _ \<Rightarrow> None)
       (ins_type_definitions ns)"

definition namespace_records :: "INamespace \<Rightarrow> IRecord list" where
  "namespace_records ns =
     List.map_filter (\<lambda>td. case td of ITypeDefinition_Record r \<Rightarrow> Some r | _ \<Rightarrow> None) (ins_type_definitions ns)"

definition namespace_enums :: "INamespace \<Rightarrow> IEnum list" where
  "namespace_enums ns =
     List.map_filter (\<lambda>td. case td of ITypeDefinition_Enum e \<Rightarrow> Some e | _ \<Rightarrow> None) (ins_type_definitions ns)"

definition namespace_custom_types :: "INamespace \<Rightarrow> ICustomType list" where
  "namespace_custom_types ns =
     List.map_filter (\<lambda>td. case td of ITypeDefinition_Custom c \<Rightarrow> Some c | _ \<Rightarrow> None) (ins_type_definitions ns)"

lemma visit_type_self [simp]: "t \<in> set (visit_type t)"
  by (cases t) auto

lemma set_visit_opt [simp]: "set (visit_opt visit x) = (\<Union>a \<in> set_option x. set (visit a))"
  by (cases x) (simp_all add: visit_opt_def)

lemma set_visit_list [simp]: "set (visit_list visit xs) = (\<Union>a \<in> set xs. set (visit a))"
  by (simp add: visit_list_def)

text \<open>What is visited under a visited type is visited.\<close>

lemma visit_type_trans: "u \<in> set (visit_type t) \<Longrightarrow> v \<in> set (visit_type u) \<Longrightarrow> v \<in> set (visit_type t)"
  by (induction t rule: visit_type.induct) auto

end
