(* ===== verification/GeneralNodes.thy ===== *)
theory GeneralNodes
  imports InitialNodes
begin

text \<open>
  The general IR of the bindings pipeline: \<open>uniffi_bindgen/src/pipeline/general/nodes.rs\<close>.  The general IR
  keeps the \<open>Type\<close> of the initial one.  A struct is a record with prefixed fields, an
  enum a datatype; \<open>IndexMap\<close> and \<open>IndexSet\<close> are lists in insertion order.
\<close>

section \<open>FFI types and definitions\<close>

type_synonym RustFfiFunctionName = string
type_synonym FfiStructName = string
type_synonym FfiFunctionTypeName = string

datatype HandleKind =
    HandleKind_RustFuture
  | HandleKind_ForeignFuture
  | HandleKind_ForeignFutureCallbackData
  | HandleKind_StructInterface string string  \<comment> \<open>namespace, interface_name\<close>
  | HandleKind_TraitInterface string string

datatype FfiType =
    FfiType_UInt8 | FfiType_Int8 | FfiType_UInt16 | FfiType_Int16 | FfiType_UInt32 | FfiType_Int32
  | FfiType_UInt64 | FfiType_Int64 | FfiType_Float32 | FfiType_Float64
  | FfiType_RustBuffer "string option"
  | FfiType_ForeignBytes
  | FfiType_Function FfiFunctionTypeName
  | FfiType_Struct FfiStructName
  | FfiType_Handle HandleKind
  | FfiType_RustCallStatus
  | FfiType_Reference FfiType
  | FfiType_MutReference FfiType
  | FfiType_VoidPointer

record AsyncData =
  ad_ffi_rust_future_poll :: RustFfiFunctionName
  ad_ffi_rust_future_cancel :: RustFfiFunctionName
  ad_ffi_rust_future_free :: RustFfiFunctionName
  ad_ffi_rust_future_complete :: RustFfiFunctionName
  ad_ffi_foreign_future_complete :: FfiFunctionTypeName
  ad_ffi_foreign_future_result :: FfiStructName

record FfiArgument =
  fa_name :: string
  fa_ty :: FfiType

record FfiField =
  ff_name :: string
  ff_ty :: FfiType

record FfiReturnType =
  frt_ty :: "FfiType option"

datatype FfiFunctionKind =
    FfiFunctionKind_Scaffolding | FfiFunctionKind_ObjectClone | FfiFunctionKind_ObjectFree
  | FfiFunctionKind_RustFuturePoll | FfiFunctionKind_RustFutureComplete
  | FfiFunctionKind_RustFutureCancel | FfiFunctionKind_RustFutureFree
  | FfiFunctionKind_RustBufferFromBytes | FfiFunctionKind_RustBufferFree
  | FfiFunctionKind_RustBufferAlloc | FfiFunctionKind_RustBufferReserve
  | FfiFunctionKind_RustVtableInit | FfiFunctionKind_UniffiContractVersion | FfiFunctionKind_Checksum

record FfiFunction =
  ffn_name :: RustFfiFunctionName
  ffn_async_data :: "AsyncData option"
  ffn_arguments :: "FfiArgument list"
  ffn_return_type :: FfiReturnType
  ffn_has_rust_call_status_arg :: bool
  ffn_kind :: FfiFunctionKind

record FfiFunctionType =
  fft_name :: FfiFunctionTypeName
  fft_arguments :: "FfiArgument list"
  fft_return_type :: FfiReturnType
  fft_has_rust_call_status_arg :: bool

record FfiStruct =
  fst_name :: FfiStructName
  fst_fields :: "FfiField list"

datatype FfiDefinition =
    FfiDefinition_RustFunction FfiFunction
  | FfiDefinition_FunctionType FfiFunctionType
  | FfiDefinition_Struct FfiStruct

fun ffi_definition_name :: "FfiDefinition \<Rightarrow> string" where
  "ffi_definition_name (FfiDefinition_RustFunction func) = ffn_name func"
| "ffi_definition_name (FfiDefinition_FunctionType func_type) = fft_name func_type"
| "ffi_definition_name (FfiDefinition_Struct st) = fst_name st"

section \<open>The API\<close>

record TypeNode =
  tn_canonical_name :: string
  tn_id :: u64
  tn_is_used_as_error :: bool
  tn_has_from_unexpected_callback_error_impl :: bool
  tn_ffi_type :: FfiType
  tn_ty :: ITy

datatype GLiteral =
    GLiteral_Boolean bool
  | GLiteral_String string
  | GLiteral_UInt u64 Radix TypeNode
  | GLiteral_Int u64 Radix TypeNode  \<comment> \<open>an \<open>i64\<close> in two's complement\<close>
  | GLiteral_Float string TypeNode
  | GLiteral_Enum string TypeNode
  | GLiteral_EmptySequence
  | GLiteral_EmptyMap
  | GLiteral_EmptySet
  | GLiteral_None
  | GLiteral_Some GDefaultValue
and GDefaultValue =
    GDefaultValue_Literal GLiteral
  | GDefaultValue_Default TypeNode

record Argument =
  arg_name :: string
  arg_orig_name :: string
  arg_ty :: TypeNode
  arg_by_ref :: bool
  arg_optional :: bool
  arg_default :: "GDefaultValue option"

definition is_borrowed_bytes :: "Argument \<Rightarrow> bool" where
  "is_borrowed_bytes a \<longleftrightarrow> arg_by_ref a \<and> tn_ty (arg_ty a) = ITy_Bytes"

datatype CallableKind =
    CallableKind_Function
  | CallableKind_Method TypeNode bool  \<comment> \<open>self_type, takes_self_by_arc\<close>
  | CallableKind_Constructor TypeNode bool  \<comment> \<open>self_type, primary\<close>
  | CallableKind_VTableMethod TypeNode bool bool  \<comment> \<open>self_type, takes_self_by_arc, for_callback_interface\<close>

record Callable =
  ca_id :: u64
  ca_name :: string
  ca_orig_name :: string
  ca_async_data :: "AsyncData option"
  ca_kind :: CallableKind
  ca_arguments :: "Argument list"
  ca_return_type :: "TypeNode option"
  ca_throws_type :: "TypeNode option"
  ca_checksum :: "u16 option"
  ca_ffi_func :: RustFfiFunctionName

definition is_async :: "Callable \<Rightarrow> bool" where
  "is_async c \<longleftrightarrow> ca_async_data c \<noteq> None"

definition is_primary_constructor :: "Callable \<Rightarrow> bool" where
  "is_primary_constructor c \<longleftrightarrow> (case ca_kind c of CallableKind_Constructor _ primary \<Rightarrow> primary | _ \<Rightarrow> False)"

record Method =
  me_callable :: Callable
  me_docstring :: "string option"

record Constructor =
  co_callable :: Callable
  co_docstring :: "string option"

record Function =
  fu_callable :: Callable
  fu_module_path :: string
  fu_docstring :: "string option"

record UniffiTraitMethods =
  ut_debug_fmt :: "Method option"
  ut_display_fmt :: "Method option"
  ut_eq_eq :: "Method option"
  ut_eq_ne :: "Method option"
  ut_hash_hash :: "Method option"
  ut_ord_cmp :: "Method option"

definition no_trait_methods :: UniffiTraitMethods where
  "no_trait_methods = \<lparr>ut_debug_fmt = None, ut_display_fmt = None, ut_eq_eq = None, ut_eq_ne = None,
     ut_hash_hash = None, ut_ord_cmp = None\<rparr>"

datatype FieldsKind = FieldsKind_Unit | FieldsKind_Named | FieldsKind_Unnamed

record Field =
  fi_orig_name :: string
  fi_name :: string
  fi_ty :: TypeNode
  fi_default :: "GDefaultValue option"
  fi_docstring :: "string option"

record Record =
  re_fields_kind :: FieldsKind
  re_self_type :: TypeNode
  re_module_path :: string
  re_orig_name :: string
  re_name :: string
  re_uniffi_trait_methods :: UniffiTraitMethods
  re_fields :: "Field list"
  re_constructors :: "Constructor list"
  re_methods :: "Method list"
  re_docstring :: "string option"
  re_recursive :: bool

record Variant =
  va_name :: string
  va_orig_name :: string
  va_discr :: GLiteral
  va_fields_kind :: FieldsKind
  va_fields :: "Field list"
  va_docstring :: "string option"

record Enum =
  en_is_flat :: bool
  en_self_type :: TypeNode
  en_discr_specified :: bool
  en_discr_type :: TypeNode
  en_variants :: "Variant list"
  en_module_path :: string
  en_orig_name :: string
  en_name :: string
  en_uniffi_trait_methods :: UniffiTraitMethods
  en_shape :: EnumShape
  en_constructors :: "Constructor list"
  en_methods :: "Method list"
  en_docstring :: "string option"
  en_recursive :: bool

record VTableMethod =
  vm_callable :: Callable
  vm_ffi_type :: FfiType

record VTable =
  vt_struct_type :: FfiType
  vt_interface_name :: string
  vt_init_fn :: RustFfiFunctionName
  vt_clone_fn_type :: FfiFunctionTypeName
  vt_free_fn_type :: FfiFunctionTypeName
  vt_methods :: "VTableMethod list"

record ObjectTraitImpl =
  gti_ty :: TypeNode
  gti_trait_ty :: TypeNode

record Interface =
  in_vtable :: "VTable option"
  in_self_type :: TypeNode
  in_ffi_func_clone :: RustFfiFunctionName
  in_ffi_func_free :: RustFfiFunctionName
  in_module_path :: string
  in_orig_name :: string
  in_name :: string
  in_uniffi_trait_methods :: UniffiTraitMethods
  in_docstring :: "string option"
  in_constructors :: "Constructor list"
  in_methods :: "Method list"
  in_trait_impls :: "ObjectTraitImpl list"
  in_imp :: ObjectImpl

record CallbackInterface =
  ci_vtable :: VTable
  ci_self_type :: TypeNode
  ci_module_path :: string
  ci_orig_name :: string
  ci_name :: string
  ci_docstring :: "string option"
  ci_methods :: "Method list"

record CustomType =
  cu_self_type :: TypeNode
  cu_module_path :: string
  cu_orig_name :: string
  cu_name :: string
  cu_builtin :: TypeNode
  cu_docstring :: "string option"

text \<open>\<open>BoxedType\<close>, \<open>OptionalType\<close>, \<open>SequenceType\<close> and \<open>SetType\<close> have the same fields.\<close>

record InnerType =
  it_inner :: TypeNode
  it_self_type :: TypeNode

record MapType =
  mt_key :: TypeNode
  mt_value :: TypeNode
  mt_self_type :: TypeNode

record ExternalType =
  ex_namespace :: string
  ex_name :: string
  ex_self_type :: TypeNode

datatype TypeDefinition =
    TypeDefinition_Interface Interface
  | TypeDefinition_CallbackInterface CallbackInterface
  | TypeDefinition_Record Record
  | TypeDefinition_Enum Enum
  | TypeDefinition_Custom CustomType
  | TypeDefinition_Simple TypeNode
  | TypeDefinition_Box InnerType
  | TypeDefinition_Optional InnerType
  | TypeDefinition_Sequence InnerType
  | TypeDefinition_Map MapType
  | TypeDefinition_Set InnerType
  | TypeDefinition_External ExternalType

fun definition_type_node :: "TypeDefinition \<Rightarrow> TypeNode" where
  "definition_type_node (TypeDefinition_Interface i) = in_self_type i"
| "definition_type_node (TypeDefinition_CallbackInterface c) = ci_self_type c"
| "definition_type_node (TypeDefinition_Record r) = re_self_type r"
| "definition_type_node (TypeDefinition_Enum e) = en_self_type e"
| "definition_type_node (TypeDefinition_Custom c) = cu_self_type c"
| "definition_type_node (TypeDefinition_Simple t) = t"
| "definition_type_node (TypeDefinition_Box i) = it_self_type i"
| "definition_type_node (TypeDefinition_Optional i) = it_self_type i"
| "definition_type_node (TypeDefinition_Sequence i) = it_self_type i"
| "definition_type_node (TypeDefinition_Map m) = mt_self_type m"
| "definition_type_node (TypeDefinition_Set i) = it_self_type i"
| "definition_type_node (TypeDefinition_External e) = ex_self_type e"

definition self_type :: "TypeDefinition \<Rightarrow> ITy" where
  "self_type td = tn_ty (definition_type_node td)"

text \<open>\<open>canonical_name\<close> (\<open>pipeline/general/types.rs\<close>).\<close>

fun canonical_name :: "ITy \<Rightarrow> string" where
  "canonical_name ITy_UInt8 = ''UInt8''"
| "canonical_name ITy_Int8 = ''Int8''"
| "canonical_name ITy_UInt16 = ''UInt16''"
| "canonical_name ITy_Int16 = ''Int16''"
| "canonical_name ITy_UInt32 = ''UInt32''"
| "canonical_name ITy_Int32 = ''Int32''"
| "canonical_name ITy_UInt64 = ''UInt64''"
| "canonical_name ITy_Int64 = ''Int64''"
| "canonical_name ITy_Float32 = ''Float32''"
| "canonical_name ITy_Float64 = ''Float64''"
| "canonical_name ITy_Boolean = ''Boolean''"
| "canonical_name ITy_String = ''String''"
| "canonical_name ITy_Bytes = ''Bytes''"
| "canonical_name ITy_Timestamp = ''Timestamp''"
| "canonical_name ITy_Duration = ''Duration''"
| "canonical_name (ITy_Interface ns nm orig imp) = ''Type'' @ nm"
| "canonical_name (ITy_CallbackInterface ns nm orig) = ''Type'' @ nm"
| "canonical_name (ITy_Record ns nm orig) = ''Type'' @ nm"
| "canonical_name (ITy_Enum ns nm orig) = ''Type'' @ nm"
| "canonical_name (ITy_Custom ns nm orig builtin) = ''Type'' @ nm"
| "canonical_name (ITy_Optional t) = ''Optional'' @ canonical_name t"
| "canonical_name (ITy_Sequence t) = ''Sequence'' @ canonical_name t"
| "canonical_name (ITy_Map k v) = ''Map'' @ canonical_name k @ canonical_name v"
| "canonical_name (ITy_Box t) = ''Box'' @ canonical_name t"
| "canonical_name (ITy_Set t) = ''Set'' @ canonical_name t"

end
