(* ===== verification/Results.thy ===== *)
theory Results
  imports Prelude
begin

text \<open>
  Functions that return \<open>Result\<close>: the combinators for \<open>?\<close>, for \<open>collect::<Result<Vec<_>>>\<close> and for
  \<open>transpose\<close>.  An error is a \<open>Left\<close> value and ends the computation.
\<close>

definition ebind :: "'e + 'a \<Rightarrow> ('a \<Rightarrow> 'e + 'b) \<Rightarrow> 'e + 'b" where
  "ebind x f = (case x of Inl e \<Rightarrow> Inl e | Inr a \<Rightarrow> f a)"

fun emap :: "('a \<Rightarrow> 'e + 'b) \<Rightarrow> 'a list \<Rightarrow> 'e + 'b list" where
  "emap f [] = Inr []"
| "emap f (x # xs) = ebind (f x) (\<lambda>y. ebind (emap f xs) (\<lambda>ys. Inr (y # ys)))"

definition eoption :: "('a \<Rightarrow> 'e + 'b) \<Rightarrow> 'a option \<Rightarrow> 'e + 'b option" where
  "eoption f x = (case x of None \<Rightarrow> Inr None | Some a \<Rightarrow> ebind (f a) (\<lambda>b. Inr (Some b)))"

text \<open>A loop that updates a state; \<open>filter_map\<close> with a fallible filter.\<close>

fun efold :: "('a \<Rightarrow> 's \<Rightarrow> 'e + 's) \<Rightarrow> 'a list \<Rightarrow> 's \<Rightarrow> 'e + 's" where
  "efold f [] s = Inr s"
| "efold f (x # xs) s = ebind (f x s) (efold f xs)"

fun efilter_map :: "('a \<Rightarrow> 'e + bool) \<Rightarrow> ('a \<Rightarrow> 'e + 'b) \<Rightarrow> 'a list \<Rightarrow> 'e + 'b list" where
  "efilter_map skip f [] = Inr []"
| "efilter_map skip f (x # xs) =
     ebind (skip x) (\<lambda>d. if d then efilter_map skip f xs
       else ebind (f x) (\<lambda>y. ebind (efilter_map skip f xs) (\<lambda>ys. Inr (y # ys))))"

definition ok_or :: "'e \<Rightarrow> 'a option \<Rightarrow> 'e + 'a" where
  "ok_or e x = (case x of None \<Rightarrow> Inl e | Some a \<Rightarrow> Inr a)"

lemma ebind_simps [simp]: "ebind (Inl e) f = Inl e" "ebind (Inr a) f = f a"
  by (simp_all add: ebind_def)

lemma ebind_Inr_iff: "ebind x f = Inr b \<longleftrightarrow> (\<exists>a. x = Inr a \<and> f a = Inr b)"
  by (cases x) simp_all

lemma ebind_assoc [simp]: "ebind (ebind x f) g = ebind x (\<lambda>a. ebind (f a) g)"
  by (cases x) simp_all

lemma ebind_cong [fundef_cong]: "x = y \<Longrightarrow> (\<And>a. y = Inr a \<Longrightarrow> f a = g a) \<Longrightarrow> ebind x f = ebind y g"
  by (cases y) simp_all

lemma ok_or_Inr_iff [simp]: "ok_or e x = Inr a \<longleftrightarrow> x = Some a"
  by (cases x) (simp_all add: ok_or_def)

lemma eoption_Inr_iff: "eoption f x = Inr y \<longleftrightarrow>
   (x = None \<and> y = None \<or> (\<exists>a b. x = Some a \<and> y = Some b \<and> f a = Inr b))"
  by (cases x) (auto simp: eoption_def ebind_Inr_iff)

lemma emap_Inr_iff: "emap f xs = Inr ys \<longleftrightarrow> list_all2 (\<lambda>x y. f x = Inr y) xs ys"
  by (induction xs arbitrary: ys) (auto simp: ebind_Inr_iff list_all2_Cons1)

lemma emap_mem:
  assumes "emap f xs = Inr ys" "y \<in> set ys"
  shows "\<exists>x \<in> set xs. f x = Inr y"
  using assms by (fastforce simp: emap_Inr_iff list_all2_conv_all_nth in_set_conv_nth)

lemma emap_image:
  assumes "emap f xs = Inr ys" "x \<in> set xs"
  shows "\<exists>y \<in> set ys. f x = Inr y"
  using assms by (fastforce simp: emap_Inr_iff list_all2_conv_all_nth in_set_conv_nth)

lemma efilter_map_mem:
  "efilter_map skip f xs = Inr ys \<Longrightarrow> y \<in> set ys \<Longrightarrow> \<exists>x \<in> set xs. skip x = Inr False \<and> f x = Inr y"
  by (induction xs arbitrary: ys) (force simp: ebind_Inr_iff split: if_splits)+

lemma efilter_map_image:
  "efilter_map skip f xs = Inr ys \<Longrightarrow> x \<in> set xs \<Longrightarrow> skip x = Inr False \<Longrightarrow> \<exists>y \<in> set ys. f x = Inr y"
  by (induction xs arbitrary: ys) (force simp: ebind_Inr_iff split: if_splits)+

text \<open>A loop over a list keeps what every step keeps.\<close>

lemma efold_invariant:
  assumes "efold f xs s = Inr s'" "P s" "\<And>x s s'. x \<in> set xs \<Longrightarrow> P s \<Longrightarrow> f x s = Inr s' \<Longrightarrow> P s'"
  shows "P s'"
  using assms by (induction xs arbitrary: s) (auto simp: ebind_Inr_iff)

text \<open>What all steps keep, and what each of them gains for good.\<close>

lemma efold_gains:
  assumes "efold f xs s = Inr s'" "P s" "\<And>s. R s s" "\<And>a b c. R a b \<Longrightarrow> R b c \<Longrightarrow> R a c"
    and "\<And>x s s'. x \<in> set xs \<Longrightarrow> P s \<Longrightarrow> f x s = Inr s' \<Longrightarrow> P s' \<and> R s s' \<and> Q x s'"
    and "\<And>x s s'. Q x s \<Longrightarrow> R s s' \<Longrightarrow> Q x s'"
  shows "P s' \<and> R s s' \<and> (\<forall>x \<in> set xs. Q x s')"
  using assms(1,2,5)
proof (induction xs arbitrary: s)
  case (Cons x xs)
  then obtain s1 where s1: "f x s = Inr s1" "efold f xs s1 = Inr s'" by (auto simp: ebind_Inr_iff)
  have one: "P s1 \<and> R s s1 \<and> Q x s1" by (rule Cons.prems(3) [OF _ Cons.prems(2) s1(1)]) simp
  have "P s' \<and> R s1 s' \<and> (\<forall>x \<in> set xs. Q x s')"
    by (rule Cons.IH [OF s1(2) conjunct1 [OF one]]) (rule Cons.prems(3), simp_all)
  with one assms(4) [of s s1 s'] assms(6) [of x s1 s'] show ?case by auto
qed (simp add: assms(3))

end
