(* ===== verification/GeneralContext.thy ===== *)
theory GeneralContext
  imports GeneralNodes Results
begin

text \<open>
  What the pass from the initial IR to the general IR carries with it and how it maps types:
  \<open>uniffi_bindgen/src/pipeline/general/context.rs\<close>, \<open>rename.rs\<close>, \<open>exclude.rs\<close>, \<open>types.rs\<close> and
  \<open>ffi_types.rs\<close>.  A mutable context is returned updated; a clone of it that a node's children see is
  the value passed on.  The \<open>toml\<close> crate is a parameter: \<open>from_str\<close> parses a document into a table.
\<close>

section \<open>Errors and the context\<close>

datatype PipelineError =
    Err_namespace_not_set
  | Err_crate_name_not_set
  | Err_current_type_not_set
  | Err_current_type_name ITy
  | Err_arg_or_field_type_not_set
  | Err_rename_table_not_set
  | Err_toml
  | Err_throws_type ITy
  | Err_type_id ITy
  | Err_discr_type ITy
  | Err_discr_literal GLiteral
  | Err_discr_magnitude
  | Err_discr_length
  | Err_constructor_self_type TypeNode
  | Err_receiver_type ITy
  | Panic_future_return_type FfiType
  | Panic_discr_literal GLiteral
  | Panic_overflow

datatype Toml =
    Toml_String string
  | Toml_Array "Toml list"
  | Toml_Table "(string \<times> Toml) list"
  | Toml_Other  \<comment> \<open>numbers, booleans and dates\<close>

type_synonym toml_table = "(string \<times> Toml) list"

record Context =
  gc_bindings_toml_key :: string
  gc_current_namespace_name :: "string option"
  gc_current_crate_name :: "string option"
  gc_current_type :: "ITy option"
  gc_current_variant :: "IVariant option"
  gc_current_arg_or_field_type :: "ITy option"
  gc_names_used_as_error :: "string set"
  gc_rename_tables :: "string \<Rightarrow> toml_table option"
  gc_exclude_sets :: "string \<Rightarrow> string set option"
  gc_type_id_map :: "ITy \<Rightarrow> u64 option"
  gc_from_unexpected_callback_error_impls :: "ITy set"

definition context_new :: "string \<Rightarrow> Context" where
  "context_new key =
     \<lparr>gc_bindings_toml_key = key, gc_current_namespace_name = None, gc_current_crate_name = None,
      gc_current_type = None, gc_current_variant = None, gc_current_arg_or_field_type = None,
      gc_names_used_as_error = {}, gc_rename_tables = Map.empty, gc_exclude_sets = Map.empty,
      gc_type_id_map = Map.empty, gc_from_unexpected_callback_error_impls = {}\<rparr>"

definition namespace_name :: "Context \<Rightarrow> PipelineError + string" where
  "namespace_name cx = ok_or Err_namespace_not_set (gc_current_namespace_name cx)"

definition context_crate_name :: "Context \<Rightarrow> PipelineError + string" where
  "context_crate_name cx = ok_or Err_crate_name_not_set (gc_current_crate_name cx)"

text \<open>The name in \<open>Interface { name, .. } | Record { name, .. } | ...\<close> patterns.\<close>

fun nominal_name :: "ITy \<Rightarrow> string option" where
  "nominal_name (ITy_Interface ns nm orig imp) = Some nm"
| "nominal_name (ITy_Record ns nm orig) = Some nm"
| "nominal_name (ITy_Enum ns nm orig) = Some nm"
| "nominal_name (ITy_CallbackInterface ns nm orig) = Some nm"
| "nominal_name (ITy_Custom ns nm orig builtin) = Some nm"
| "nominal_name _ = None"

definition current_type_name :: "Context \<Rightarrow> PipelineError + string" where
  "current_type_name cx =
     ebind (ok_or Err_current_type_not_set (gc_current_type cx))
       (\<lambda>ty. ok_or (Err_current_type_name ty) (nominal_name ty))"

section \<open>Renaming and exclusion\<close>

fun as_table :: "Toml \<Rightarrow> toml_table option" where
  "as_table (Toml_Table t) = Some t"
| "as_table _ = None"

fun as_str :: "Toml \<Rightarrow> string option" where
  "as_str (Toml_String s) = Some s"
| "as_str _ = None"

definition get_table :: "string \<Rightarrow> toml_table \<Rightarrow> toml_table option" where
  "get_table k t = Option.bind (map_of t k) as_table"

definition extract_rename_table ::
  "(string \<Rightarrow> toml_table option) \<Rightarrow> INamespace \<Rightarrow> string \<Rightarrow> PipelineError + toml_table" where
  "extract_rename_table from_str ns key =
     (case ins_config_toml ns of None \<Rightarrow> Inr []
      | Some config_toml \<Rightarrow> ebind (ok_or Err_toml (from_str config_toml)) (\<lambda>config. Inr
          (case Option.bind (get_table ''bindings'' config)
              (\<lambda>b. Option.bind (get_table key b) (get_table ''rename'')) of
            Some table \<Rightarrow> table | None \<Rightarrow> [])))"

text \<open>\<open>toml.try_into::<HashSet<String>>()\<close>.\<close>

definition string_set :: "Toml \<Rightarrow> PipelineError + string set" where
  "string_set v = (case v of
     Toml_Array xs \<Rightarrow> ebind (emap (\<lambda>x. ok_or Err_toml (as_str x)) xs) (\<lambda>ss. Inr (set ss))
   | _ \<Rightarrow> Inl Err_toml)"

definition extract_exclude_set ::
  "(string \<Rightarrow> toml_table option) \<Rightarrow> INamespace \<Rightarrow> string \<Rightarrow> PipelineError + string set" where
  "extract_exclude_set from_str ns key =
     (case ins_config_toml ns of None \<Rightarrow> Inr {}
      | Some config_toml \<Rightarrow> ebind (ok_or Err_toml (from_str config_toml)) (\<lambda>config.
          case Option.bind (get_table ''bindings'' config)
              (\<lambda>b. Option.bind (get_table key b) (\<lambda>p. map_of p ''exclude'')) of
            Some toml \<Rightarrow> string_set toml | None \<Rightarrow> Inr {}))"

definition new_name_from_rename_table :: "string \<Rightarrow> string \<Rightarrow> Context \<Rightarrow> PipelineError + string option" where
  "new_name_from_rename_table ns nm cx =
     (case gc_rename_tables cx ns of None \<Rightarrow> Inl Err_rename_table_not_set
      | Some rename_table \<Rightarrow> Inr (Option.bind (map_of rename_table nm) as_str))"

text \<open>\<open>context.new_name_from_rename_table(...)?.unwrap_or(name)\<close>, with the key to look up.\<close>

definition renamed :: "string \<Rightarrow> string \<Rightarrow> string \<Rightarrow> Context \<Rightarrow> PipelineError + string" where
  "renamed ns key nm cx = ebind (new_name_from_rename_table ns key cx)
     (\<lambda>r. Inr (case r of Some new_name \<Rightarrow> new_name | None \<Rightarrow> nm))"

definition rename_type :: "string \<Rightarrow> string \<Rightarrow> Context \<Rightarrow> PipelineError + string" where
  "rename_type ns nm cx = renamed ns nm nm cx"

definition rename_field :: "string \<Rightarrow> Context \<Rightarrow> PipelineError + string" where
  "rename_field field cx =
     ebind (namespace_name cx) (\<lambda>ns. ebind (current_type_name cx) (\<lambda>type_name.
       renamed ns (case gc_current_variant cx of
           None \<Rightarrow> type_name @ ''.'' @ field
         | Some v \<Rightarrow> type_name @ ''.'' @ iva_name v @ ''.'' @ field) field cx))"

definition rename_variant :: "string \<Rightarrow> Context \<Rightarrow> PipelineError + string" where
  "rename_variant variant_name cx =
     ebind (namespace_name cx) (\<lambda>ns. ebind (current_type_name cx) (\<lambda>type_name.
       renamed ns (type_name @ ''.'' @ variant_name) variant_name cx))"

definition rename_func :: "string \<Rightarrow> Context \<Rightarrow> PipelineError + string" where
  "rename_func fn_nm cx = ebind (namespace_name cx) (\<lambda>ns. renamed ns fn_nm fn_nm cx)"

definition rename_func_arg :: "string \<Rightarrow> string \<Rightarrow> Context \<Rightarrow> PipelineError + string" where
  "rename_func_arg arg fn_nm cx =
     ebind (namespace_name cx) (\<lambda>ns. renamed ns (fn_nm @ ''.'' @ arg) arg cx)"

definition rename_method :: "string \<Rightarrow> Context \<Rightarrow> PipelineError + string" where
  "rename_method method_name cx =
     ebind (namespace_name cx) (\<lambda>ns. ebind (current_type_name cx) (\<lambda>type_name.
       renamed ns (type_name @ ''.'' @ method_name) method_name cx))"

definition rename_method_arg :: "string \<Rightarrow> string \<Rightarrow> Context \<Rightarrow> PipelineError + string" where
  "rename_method_arg arg method_name cx =
     ebind (namespace_name cx) (\<lambda>ns. ebind (current_type_name cx) (\<lambda>type_name.
       renamed ns (type_name @ ''.'' @ method_name @ ''.'' @ arg) arg cx))"

definition should_exclude_toplevel_item :: "string \<Rightarrow> Context \<Rightarrow> PipelineError + bool" where
  "should_exclude_toplevel_item nm cx =
     ebind (namespace_name cx) (\<lambda>ns. Inr (case gc_exclude_sets cx ns of
       None \<Rightarrow> False | Some exclude_set \<Rightarrow> nm \<in> exclude_set))"

definition should_exclude_method :: "string \<Rightarrow> Context \<Rightarrow> PipelineError + bool" where
  "should_exclude_method method_name cx =
     ebind (namespace_name cx) (\<lambda>ns. case gc_exclude_sets cx ns of
       None \<Rightarrow> Inr False
     | Some exclude_set \<Rightarrow> ebind (current_type_name cx)
         (\<lambda>type_name. Inr (type_name @ ''.'' @ method_name \<in> exclude_set)))"

section \<open>Types\<close>

text \<open>\<open>map_type\<close> renames the types of the API, and leaves what is inside a \<open>Box\<close> as it is.\<close>

fun map_type :: "Context \<Rightarrow> ITy \<Rightarrow> PipelineError + ITy" where
  "map_type cx (ITy_Record ns nm orig) = ebind (rename_type ns nm cx) (\<lambda>nm'. Inr (ITy_Record ns nm' orig))"
| "map_type cx (ITy_Enum ns nm orig) = ebind (rename_type ns nm cx) (\<lambda>nm'. Inr (ITy_Enum ns nm' orig))"
| "map_type cx (ITy_Interface ns nm orig imp) =
     ebind (rename_type ns nm cx) (\<lambda>nm'. Inr (ITy_Interface ns nm' orig imp))"
| "map_type cx (ITy_CallbackInterface ns nm orig) =
     ebind (rename_type ns nm cx) (\<lambda>nm'. Inr (ITy_CallbackInterface ns nm' orig))"
| "map_type cx (ITy_Custom ns nm orig builtin) =
     ebind (rename_type ns nm cx) (\<lambda>nm'. Inr (ITy_Custom ns nm' orig builtin))"
| "map_type cx (ITy_Optional t) = ebind (map_type cx t) (\<lambda>t'. Inr (ITy_Optional t'))"
| "map_type cx (ITy_Sequence t) = ebind (map_type cx t) (\<lambda>t'. Inr (ITy_Sequence t'))"
| "map_type cx (ITy_Map k v) =
     ebind (map_type cx k) (\<lambda>k'. ebind (map_type cx v) (\<lambda>v'. Inr (ITy_Map k' v')))"
| "map_type cx (ITy_Set t) = ebind (map_type cx t) (\<lambda>t'. Inr (ITy_Set t'))"
| "map_type cx t = Inr t"

definition handle_type :: "string \<Rightarrow> string \<Rightarrow> ObjectImpl \<Rightarrow> FfiType" where
  "handle_type ns nm imp = FfiType_Handle
     (if has_struct imp then HandleKind_StructInterface ns nm else HandleKind_TraitInterface ns nm)"

definition interface_ffi_type :: "string \<Rightarrow> string \<Rightarrow> ObjectImpl \<Rightarrow> PipelineError + FfiType" where
  "interface_ffi_type ns nm imp = Inr (handle_type ns nm imp)"

definition user_buffer :: "string \<Rightarrow> Context \<Rightarrow> PipelineError + FfiType" where
  "user_buffer ns cx = ebind (namespace_name cx)
     (\<lambda>current. Inr (FfiType_RustBuffer (if ns \<noteq> current then Some ns else None)))"

fun ffi_type :: "ITy \<Rightarrow> Context \<Rightarrow> PipelineError + FfiType" where
  "ffi_type ITy_UInt8 cx = Inr FfiType_UInt8"
| "ffi_type ITy_Int8 cx = Inr FfiType_Int8"
| "ffi_type ITy_UInt16 cx = Inr FfiType_UInt16"
| "ffi_type ITy_Int16 cx = Inr FfiType_Int16"
| "ffi_type ITy_UInt32 cx = Inr FfiType_UInt32"
| "ffi_type ITy_Int32 cx = Inr FfiType_Int32"
| "ffi_type ITy_UInt64 cx = Inr FfiType_UInt64"
| "ffi_type ITy_Int64 cx = Inr FfiType_Int64"
| "ffi_type ITy_Float32 cx = Inr FfiType_Float32"
| "ffi_type ITy_Float64 cx = Inr FfiType_Float64"
| "ffi_type ITy_Boolean cx = Inr FfiType_Int8"
| "ffi_type ITy_String cx = Inr (FfiType_RustBuffer None)"
| "ffi_type ITy_Bytes cx = Inr (FfiType_RustBuffer None)"
| "ffi_type (ITy_Interface ns nm orig imp) cx = interface_ffi_type ns nm imp"
| "ffi_type (ITy_CallbackInterface ns nm orig) cx = Inr (FfiType_Handle (HandleKind_TraitInterface ns nm))"
| "ffi_type (ITy_Enum ns nm orig) cx = user_buffer ns cx"
| "ffi_type (ITy_Record ns nm orig) cx = user_buffer ns cx"
| "ffi_type (ITy_Optional t) cx = Inr (FfiType_RustBuffer None)"
| "ffi_type (ITy_Sequence t) cx = Inr (FfiType_RustBuffer None)"
| "ffi_type (ITy_Map k v) cx = Inr (FfiType_RustBuffer None)"
| "ffi_type (ITy_Set t) cx = Inr (FfiType_RustBuffer None)"
| "ffi_type ITy_Timestamp cx = Inr (FfiType_RustBuffer None)"
| "ffi_type ITy_Duration cx = Inr (FfiType_RustBuffer None)"
| "ffi_type (ITy_Custom ns nm orig builtin) cx =
     ebind (ffi_type builtin cx) (\<lambda>t. case t of
       FfiType_RustBuffer None \<Rightarrow> user_buffer ns cx
     | _ \<Rightarrow> Inr t)"
| "ffi_type (ITy_Box t) cx = ffi_type t cx"

definition get_type_id :: "ITy \<Rightarrow> Context \<Rightarrow> PipelineError + u64" where
  "get_type_id ty cx = ok_or (Err_type_id ty) (gc_type_id_map cx ty)"

definition type_is_used_as_error :: "ITy \<Rightarrow> Context \<Rightarrow> bool" where
  "type_is_used_as_error ty cx =
     (case nominal_name ty of Some nm \<Rightarrow> nm \<in> gc_names_used_as_error cx | None \<Rightarrow> False)"

definition map_type_node :: "Context \<Rightarrow> ITy \<Rightarrow> PipelineError + TypeNode" where
  "map_type_node cx ty =
     ebind (get_type_id ty cx) (\<lambda>type_id. ebind (ffi_type ty cx) (\<lambda>ffi. ebind (map_type cx ty) (\<lambda>ty'. Inr
       \<lparr>tn_canonical_name = canonical_name ty, tn_id = type_id,
        tn_is_used_as_error = type_is_used_as_error ty cx,
        tn_has_from_unexpected_callback_error_impl = (ty \<in> gc_from_unexpected_callback_error_impls cx),
        tn_ffi_type = ffi, tn_ty = ty'\<rparr>)))"

definition context_self_type :: "Context \<Rightarrow> PipelineError + TypeNode" where
  "context_self_type cx = ebind (ok_or Err_current_type_not_set (gc_current_type cx)) (map_type_node cx)"

definition current_arg_or_field_type :: "Context \<Rightarrow> PipelineError + TypeNode" where
  "current_arg_or_field_type cx =
     ebind (ok_or Err_arg_or_field_type_not_set (gc_current_arg_or_field_type cx)) (map_type_node cx)"

definition type_for_record :: "IRecord \<Rightarrow> Context \<Rightarrow> PipelineError + ITy" where
  "type_for_record r cx = ebind (namespace_name cx) (\<lambda>ns. Inr (ITy_Record ns (ire_name r) (ire_orig_name r)))"

definition type_for_enum :: "IEnum \<Rightarrow> Context \<Rightarrow> PipelineError + ITy" where
  "type_for_enum e cx = ebind (namespace_name cx) (\<lambda>ns. Inr (ITy_Enum ns (ien_name e) (ien_orig_name e)))"

definition type_for_interface :: "IInterface \<Rightarrow> Context \<Rightarrow> PipelineError + ITy" where
  "type_for_interface i cx =
     ebind (namespace_name cx) (\<lambda>ns. Inr (ITy_Interface ns (iin_name i) (iin_orig_name i) (iin_imp i)))"

definition type_for_callback_interface :: "ICallbackInterface \<Rightarrow> Context \<Rightarrow> PipelineError + ITy" where
  "type_for_callback_interface c cx =
     ebind (namespace_name cx) (\<lambda>ns. Inr (ITy_CallbackInterface ns (icb_name c) (icb_orig_name c)))"

definition type_for_custom_type :: "ICustomType \<Rightarrow> Context \<Rightarrow> PipelineError + ITy" where
  "type_for_custom_type c cx =
     ebind (namespace_name cx) (\<lambda>ns. Inr (ITy_Custom ns (icu_name c) (icu_orig_name c) (icu_builtin c)))"

section \<open>Updates\<close>

definition add_type :: "ITy \<Rightarrow> nat \<times> (ITy \<Rightarrow> u64 option) \<Rightarrow> nat \<times> (ITy \<Rightarrow> u64 option)" where
  "add_type ty s = (case s of (counter, m) \<Rightarrow>
     case m ty of Some _ \<Rightarrow> (counter, m) | None \<Rightarrow> (Suc counter, m(ty \<mapsto> of_nat counter)))"

definition builtin_type_list :: "ITy list" where
  "builtin_type_list = [ITy_UInt8, ITy_Int8, ITy_UInt16, ITy_Int16, ITy_UInt32, ITy_Int32, ITy_UInt64,
     ITy_Int64, ITy_Float32, ITy_Float64, ITy_String]"

definition root_types :: "IRoot \<Rightarrow> ITy list" where
  "root_types root = visit_list (\<lambda>(k, ns). namespace_types ns) (iro_namespaces root) @
     visit_list visit_type (iro_from_unexpected_callback_error_impls root)"

text \<open>For every namespace, the types of all records, enums, ... of the root, as if they were in it.\<close>

definition types_of_definitions :: "IRoot \<Rightarrow> string \<Rightarrow> ITy list" where
  "types_of_definitions root nm =
      map (\<lambda>r. ITy_Record nm (ire_name r) (ire_orig_name r)) (visit_list (\<lambda>(k, ns). namespace_records ns) (iro_namespaces root)) @
      map (\<lambda>e. ITy_Enum nm (ien_name e) (ien_orig_name e)) (visit_list (\<lambda>(k, ns). namespace_enums ns) (iro_namespaces root)) @
      map (\<lambda>i. ITy_Interface nm (iin_name i) (iin_orig_name i) (iin_imp i))
        (visit_list (\<lambda>(k, ns). namespace_interfaces ns) (iro_namespaces root)) @
      map (\<lambda>c. ITy_CallbackInterface nm (icb_name c) (icb_orig_name c))
        (visit_list (\<lambda>(k, ns). namespace_callback_interfaces ns) (iro_namespaces root)) @
      map (\<lambda>c. ITy_Custom nm (icu_name c) (icu_orig_name c) (icu_builtin c))
        (visit_list (\<lambda>(k, ns). namespace_custom_types ns) (iro_namespaces root))"

definition populate_type_id_map :: "IRoot \<Rightarrow> Context \<Rightarrow> Context" where
  "populate_type_id_map root cx =
     cx\<lparr>gc_current_namespace_name := None,
       gc_type_id_map := snd (fold add_type
         (builtin_type_list @ root_types root @
          visit_list (\<lambda>(k, ns). types_of_definitions root (ins_name ns)) (iro_namespaces root)) (0, Map.empty))\<rparr>"

definition update_from_root ::
  "(string \<Rightarrow> toml_table option) \<Rightarrow> IRoot \<Rightarrow> Context \<Rightarrow> PipelineError + Context" where
  "update_from_root from_str root cx =
     ebind (efold (\<lambda>(k, ns) cx.
         ebind (extract_rename_table from_str ns (gc_bindings_toml_key cx)) (\<lambda>rename_table.
         ebind (extract_exclude_set from_str ns (gc_bindings_toml_key cx)) (\<lambda>exclude_set. Inr
           (cx\<lparr>gc_rename_tables := (gc_rename_tables cx)(ins_name ns \<mapsto> rename_table),
               gc_exclude_sets := (gc_exclude_sets cx)(ins_name ns \<mapsto> exclude_set),
               gc_from_unexpected_callback_error_impls := gc_from_unexpected_callback_error_impls cx \<union>
                 set (iro_from_unexpected_callback_error_impls root)\<rparr>))))
       (iro_namespaces root) cx)
     (\<lambda>cx. Inr (populate_type_id_map root cx))"

definition update_from_throws :: "ITy option \<Rightarrow> Context \<Rightarrow> PipelineError + Context" where
  "update_from_throws throws cx =
     (case throws of None \<Rightarrow> Inr cx
      | Some ty \<Rightarrow> ebind (ok_or (Err_throws_type ty) (nominal_name ty))
          (\<lambda>nm. Inr (cx\<lparr>gc_names_used_as_error := insert nm (gc_names_used_as_error cx)\<rparr>)))"

definition populate_names_used_as_error :: "INamespace \<Rightarrow> Context \<Rightarrow> PipelineError + Context" where
  "populate_names_used_as_error ns cx =
     ebind (efold update_from_throws
       (map ifu_throws (ins_functions ns) @ map ime_throws (namespace_methods ns) @
        map ico_throws (namespace_constructors ns)) cx)
     (\<lambda>cx. Inr (cx\<lparr>gc_names_used_as_error := gc_names_used_as_error cx \<union>
        set (map ien_name (filter (\<lambda>e. shape_is_error (ien_shape e)) (namespace_enums ns)))\<rparr>))"

definition update_from_namespace :: "INamespace \<Rightarrow> Context \<Rightarrow> PipelineError + Context" where
  "update_from_namespace ns cx = populate_names_used_as_error ns
     (cx\<lparr>gc_current_namespace_name := Some (ins_name ns), gc_current_crate_name := Some (ins_crate_name ns)\<rparr>)"

definition update_type :: "PipelineError + ITy \<Rightarrow> Context \<Rightarrow> PipelineError + Context" where
  "update_type t cx = ebind t (\<lambda>ty. Inr (cx\<lparr>gc_current_type := Some ty\<rparr>))"

definition update_from_variant :: "IVariant \<Rightarrow> Context \<Rightarrow> Context" where
  "update_from_variant v cx = cx\<lparr>gc_current_variant := Some v\<rparr>"

definition update_from_arg_type :: "ITy \<Rightarrow> Context \<Rightarrow> Context" where
  "update_from_arg_type ty cx = cx\<lparr>gc_current_arg_or_field_type := Some ty\<rparr>"

lemma nominal_name_map: "map_type cx t = Inr t' \<Longrightarrow> nominal_name t = None \<Longrightarrow> nominal_name t' = None"
  by (cases t) (auto simp: ebind_Inr_iff)

end
