(* ===== verification/FromMeta.thy ===== *)
theory FromMeta
  imports GeneralContext FfiNames
begin

text \<open>
  From the list of metadata items to the initial IR: \<open>uniffi_bindgen/src/pipeline/initial/from_uniffi_meta.rs\<close>,
  \<open>context.rs\<close> and \<open>types.rs\<close>.  A \<open>BTreeMap\<close> that is traversed is an association list sorted by its keys,
  one that is only looked up is a map.  The ids of callables come from a shared counter, so the mapping
  functions pass it as a state.  Serialising a table back to TOML is a parameter (\<open>toml\<close> crate).
\<close>

section \<open>Ordered maps\<close>

fun bt_insert :: "('k \<Rightarrow> 'o::linorder) \<Rightarrow> 'k \<Rightarrow> 'v \<Rightarrow> ('k \<times> 'v) list \<Rightarrow> ('k \<times> 'v) list" where
  "bt_insert key k v [] = [(k, v)]"
| "bt_insert key k v ((k', v') # m) =
     (if k = k' then (k, v) # m
      else if key k < key k' then (k, v) # (k', v') # m
      else (k', v') # bt_insert key k v m)"

definition bt_get_or_default :: "'k \<Rightarrow> ('k \<times> 'v list) list \<Rightarrow> 'v list" where
  "bt_get_or_default k m = (case map_of m k of None \<Rightarrow> [] | Some v \<Rightarrow> v)"

definition pair_key :: "string \<times> string \<Rightarrow> nat list list" where
  "pair_key p = [string_key (fst p), string_key (snd p)]"

datatype MetaError =
    Err_conflicting_metadata
  | Err_module_lookup string
  | Err_root_module_lookup string
  | Err_invalid_trait_impl Type
  | Err_methods_and_trait_methods string
  | Err_unknown_namespace string
  | Err_toml_string

text \<open>\<open>insert_unique\<close>, and \<open>entry(..).or_default().insert_unique(..)\<close> on a map of maps.\<close>

definition insert_unique :: "('k \<Rightarrow> 'o::linorder) \<Rightarrow> 'k \<Rightarrow> 'v \<Rightarrow> ('k \<times> 'v) list \<Rightarrow> MetaError + ('k \<times> 'v) list" where
  "insert_unique key k v m =
     (case map_of m k of
        None \<Rightarrow> Inr (bt_insert key k v m)
      | Some v' \<Rightarrow> if v' \<noteq> v then Inl Err_conflicting_metadata else Inr m)"

definition insert_child ::
  "('c \<Rightarrow> 'p::linorder) \<Rightarrow> 'c \<Rightarrow> ('k \<Rightarrow> 'o::linorder) \<Rightarrow> 'k \<Rightarrow> 'v \<Rightarrow> ('c \<times> ('k \<times> 'v) list) list \<Rightarrow>
     MetaError + ('c \<times> ('k \<times> 'v) list) list" where
  "insert_child okey c key k v mm =
     ebind (insert_unique key k v (bt_get_or_default c mm)) (\<lambda>m. Inr (bt_insert okey c m mm))"

section \<open>The converter\<close>

type_synonym 'v by_name = "(string \<times> 'v) list"
type_synonym 'v by_parent = "((string \<times> string) \<times> 'v by_name) list"

record UniffiMetaConverter =
  cv_module_path_map :: "string \<Rightarrow> string option"
  cv_namespaces :: "INamespace by_name"
  cv_module_docstrings :: "string by_name"
  cv_module_toml :: "toml_table by_name"
  cv_functions :: "FnMetadata by_name by_name"
  cv_records :: "RecordMetadata by_name by_name"
  cv_callback_interfaces :: "CallbackInterfaceMetadata by_name by_name"
  cv_enums :: "EnumMetadata by_name by_name"
  cv_custom_types :: "CustomTypeMetadata by_name by_name"
  cv_interfaces :: "ObjectMetadata by_name by_name"
  cv_constructors :: "ConstructorMetadata by_parent"
  cv_methods :: "MethodMetadata by_parent"
  cv_trait_methods :: "TraitMethodMetadata by_parent"
  cv_uniffi_traits :: "UniffiTraitMetadata by_parent"
  cv_trait_impls :: "((string \<times> string) \<times> (Type \<times> ObjectTraitImplMetadata) list) list"
  cv_orig_names :: "string \<times> string \<Rightarrow> string option"
  cv_from_unexpected_callback_error_impls :: "(Type \<times> unit) list"

definition converter_default :: UniffiMetaConverter where
  "converter_default =
     \<lparr>cv_module_path_map = Map.empty, cv_namespaces = [], cv_module_docstrings = [], cv_module_toml = [],
      cv_functions = [], cv_records = [], cv_callback_interfaces = [], cv_enums = [], cv_custom_types = [],
      cv_interfaces = [], cv_constructors = [], cv_methods = [], cv_trait_methods = [], cv_uniffi_traits = [],
      cv_trait_impls = [], cv_orig_names = Map.empty, cv_from_unexpected_callback_error_impls = []\<rparr>"

text \<open>\<open>module_path_to_crate_name\<close> is \<open>crate_name\<close>.\<close>

definition update_orig_names ::
  "string \<Rightarrow> string option \<Rightarrow> string \<Rightarrow> UniffiMetaConverter \<Rightarrow> UniffiMetaConverter" where
  "update_orig_names module_path orig_name nm cv =
     (case orig_name of None \<Rightarrow> cv
      | Some orig \<Rightarrow> cv\<lparr>cv_orig_names := (cv_orig_names cv)((module_path, nm) \<mapsto> orig)\<rparr>)"

definition empty_namespace :: "NamespaceMetadata \<Rightarrow> INamespace" where
  "empty_namespace n =
     \<lparr>ins_name = ns_name n, ins_crate_name = ns_crate_name n, ins_config_toml = None, ins_docstring = None,
      ins_functions = [], ins_type_definitions = []\<rparr>"

definition add_custom_type :: "CustomTypeMetadata \<Rightarrow> CustomTypeMetadata by_name \<Rightarrow> MetaError + CustomTypeMetadata by_name" where
  "add_custom_type custom by_crate =
     (case map_of by_crate (custom_name custom) of
        None \<Rightarrow> Inr (bt_insert string_key (custom_name custom) custom by_crate)
      | Some existing \<Rightarrow>
          if custom_builtin existing \<noteq> custom_builtin custom \<or>
             custom_module_path existing \<noteq> custom_module_path custom
          then Inl Err_conflicting_metadata
          else if custom_docstring custom \<noteq> None \<and> custom_docstring existing = None
          then Inr (bt_insert string_key (custom_name custom) custom by_crate)
          else Inr by_crate)"

fun impl_type_path :: "Type \<Rightarrow> (string \<times> string) option" where
  "impl_type_path (Type_Object mp nm imp) = Some (mp, nm)"
| "impl_type_path (Type_Record mp nm) = Some (mp, nm)"
| "impl_type_path (Type_Enum mp nm) = Some (mp, nm)"
| "impl_type_path (Type_Custom mp nm t) = Some (mp, nm)"
| "impl_type_path (Type_CallbackInterface mp nm) = Some (mp, nm)"
| "impl_type_path _ = None"

fun add_metadata_item :: "Metadata \<Rightarrow> UniffiMetaConverter \<Rightarrow> MetaError + UniffiMetaConverter" where
  "add_metadata_item (Metadata_Namespace n) cv =
     (let cv = cv\<lparr>cv_module_path_map := (cv_module_path_map cv)(ns_crate_name n \<mapsto> ns_name n)\<rparr> in
      ebind (insert_unique string_key (ns_name n) (empty_namespace n) (cv_namespaces cv))
        (\<lambda>m. Inr (cv\<lparr>cv_namespaces := m\<rparr>)))"
| "add_metadata_item (Metadata_Func f) cv =
     (let cv = update_orig_names (fn_module_path f) (fn_orig_name f) (fn_name f) cv in
      ebind (insert_child string_key (crate_name (fn_module_path f)) string_key (fn_name f) f (cv_functions cv))
        (\<lambda>m. Inr (cv\<lparr>cv_functions := m\<rparr>)))"
| "add_metadata_item (Metadata_Record r) cv =
     (let cv = update_orig_names (rec_module_path r) (rec_orig_name r) (rec_name r) cv in
      ebind (insert_child string_key (crate_name (rec_module_path r)) string_key (rec_name r) r (cv_records cv))
        (\<lambda>m. Inr (cv\<lparr>cv_records := m\<rparr>)))"
| "add_metadata_item (Metadata_Enum e) cv =
     (let cv = update_orig_names (enum_module_path e) (enum_orig_name e) (enum_name e) cv in
      ebind (insert_child string_key (crate_name (enum_module_path e)) string_key (enum_name e) e (cv_enums cv))
        (\<lambda>m. Inr (cv\<lparr>cv_enums := m\<rparr>)))"
| "add_metadata_item (Metadata_Object i) cv =
     (let cv = update_orig_names (obj_module_path i) (obj_orig_name i) (obj_name i) cv in
      ebind (insert_child string_key (crate_name (obj_module_path i)) string_key (obj_name i) i (cv_interfaces cv))
        (\<lambda>m. Inr (cv\<lparr>cv_interfaces := m\<rparr>)))"
| "add_metadata_item (Metadata_CallbackInterface c) cv =
     ebind (insert_child string_key (crate_name (cb_module_path c)) string_key (cb_name c) c (cv_callback_interfaces cv))
       (\<lambda>m. Inr (cv\<lparr>cv_callback_interfaces := m\<rparr>))"
| "add_metadata_item (Metadata_CustomType c) cv =
     ebind (add_custom_type c (bt_get_or_default (crate_name (custom_module_path c)) (cv_custom_types cv)))
       (\<lambda>m. Inr (cv\<lparr>cv_custom_types := bt_insert string_key (crate_name (custom_module_path c)) m (cv_custom_types cv)\<rparr>))"
| "add_metadata_item (Metadata_Constructor c) cv =
     ebind (insert_child pair_key (crate_name (ctor_module_path c), ctor_self_name c) string_key (ctor_name c) c
         (cv_constructors cv)) (\<lambda>m. Inr (cv\<lparr>cv_constructors := m\<rparr>))"
| "add_metadata_item (Metadata_Method m) cv =
     ebind (insert_child pair_key (crate_name (meth_module_path m), meth_self_name m) string_key (meth_name m) m
         (cv_methods cv)) (\<lambda>mm. Inr (cv\<lparr>cv_methods := mm\<rparr>))"
| "add_metadata_item (Metadata_TraitMethod m) cv =
     ebind (insert_child pair_key (crate_name (tmeth_module_path m), tmeth_trait_name m) string_key (tmeth_name m) m
         (cv_trait_methods cv)) (\<lambda>mm. Inr (cv\<lparr>cv_trait_methods := mm\<rparr>))"
| "add_metadata_item (Metadata_UniffiTrait t) cv =
     (let m = trait_lead_method t in
      ebind (insert_child pair_key (crate_name (meth_module_path m), meth_self_name m) string_key (trait_name t) t
          (cv_uniffi_traits cv)) (\<lambda>mm. Inr (cv\<lparr>cv_uniffi_traits := mm\<rparr>)))"
| "add_metadata_item (Metadata_ObjectTraitImpl i) cv =
     (case impl_type_path (oti_ty i) of
        None \<Rightarrow> Inl (Err_invalid_trait_impl (oti_ty i))
      | Some (mp, nm) \<Rightarrow>
          ebind (insert_child pair_key (crate_name mp, nm) type_key (oti_trait_ty i) i (cv_trait_impls cv))
            (\<lambda>mm. Inr (cv\<lparr>cv_trait_impls := mm\<rparr>)))"
| "add_metadata_item (Metadata_UdlFile u) cv = Inr cv"
| "add_metadata_item (Metadata_FromUnexpectedCallbackErrorImpl m) cv =
     Inr (cv\<lparr>cv_from_unexpected_callback_error_impls :=
       bt_insert type_key (fuce_ty m) () (cv_from_unexpected_callback_error_impls cv)\<rparr>)"

definition add_module_config_toml ::
  "string \<Rightarrow> toml_table \<Rightarrow> UniffiMetaConverter \<Rightarrow> MetaError + UniffiMetaConverter" where
  "add_module_config_toml module_name table cv =
     ebind (insert_unique string_key module_name table (cv_module_toml cv)) (\<lambda>m. Inr (cv\<lparr>cv_module_toml := m\<rparr>))"

definition add_module_docstring :: "string \<Rightarrow> string \<Rightarrow> UniffiMetaConverter \<Rightarrow> MetaError + UniffiMetaConverter" where
  "add_module_docstring namespace docstring cv =
     ebind (insert_unique string_key namespace docstring (cv_module_docstrings cv))
       (\<lambda>m. Inr (cv\<lparr>cv_module_docstrings := m\<rparr>))"

section \<open>The context\<close>

record MetaContext =
  mc_module_path_map :: "string \<Rightarrow> string option"
  mc_constructors :: "ConstructorMetadata by_parent"
  mc_methods :: "MethodMetadata by_parent"
  mc_trait_methods :: "TraitMethodMetadata by_parent"
  mc_uniffi_traits :: "UniffiTraitMetadata by_parent"
  mc_trait_impls :: "((string \<times> string) \<times> (Type \<times> ObjectTraitImplMetadata) list) list"
  mc_orig_names :: "string \<times> string \<Rightarrow> string option"

text \<open>What passes the counter of callable ids on.\<close>

type_synonym 'a numbering = "(u64, MetaError, 'a) reader"

definition rlift :: "MetaError + 'a \<Rightarrow> 'a numbering" where
  "rlift x = (\<lambda>s. case x of Inl e \<Rightarrow> Inl e | Inr a \<Rightarrow> Inr (a, s))"

fun rmap_list :: "('a \<Rightarrow> 'b numbering) \<Rightarrow> 'a list \<Rightarrow> 'b list numbering" where
  "rmap_list f [] = rret []"
| "rmap_list f (x # xs) = rbind (f x) (\<lambda>y. rbind (rmap_list f xs) (\<lambda>ys. rret (y # ys)))"

definition new_callable_id :: "u64 numbering" where
  "new_callable_id = (\<lambda>counter. Inr (counter, counter + 1))"

definition underscored :: "string \<Rightarrow> string" where
  "underscored s = map (\<lambda>c. if c = CHR ''-'' then CHR ''_'' else c) s"

definition get_namespace_name :: "MetaContext \<Rightarrow> string \<Rightarrow> MetaError + string" where
  "get_namespace_name cx module_path =
     ok_or (Err_module_lookup module_path) (mc_module_path_map cx (underscored (crate_name module_path)))"

definition get_orig_name :: "MetaContext \<Rightarrow> string \<Rightarrow> string \<Rightarrow> string" where
  "get_orig_name cx module_path type_nm =
     (case mc_orig_names cx (module_path, type_nm) of Some orig_name \<Rightarrow> orig_name | None \<Rightarrow> type_nm)"

text \<open>\<open>map_type\<close> of \<open>initial/types.rs\<close>.\<close>

fun initial_type :: "MetaContext \<Rightarrow> Type \<Rightarrow> MetaError + ITy" where
  "initial_type cx Type_UInt8 = Inr ITy_UInt8"
| "initial_type cx Type_Int8 = Inr ITy_Int8"
| "initial_type cx Type_UInt16 = Inr ITy_UInt16"
| "initial_type cx Type_Int16 = Inr ITy_Int16"
| "initial_type cx Type_UInt32 = Inr ITy_UInt32"
| "initial_type cx Type_Int32 = Inr ITy_Int32"
| "initial_type cx Type_UInt64 = Inr ITy_UInt64"
| "initial_type cx Type_Int64 = Inr ITy_Int64"
| "initial_type cx Type_Float32 = Inr ITy_Float32"
| "initial_type cx Type_Float64 = Inr ITy_Float64"
| "initial_type cx Type_Boolean = Inr ITy_Boolean"
| "initial_type cx Type_String = Inr ITy_String"
| "initial_type cx Type_Bytes = Inr ITy_Bytes"
| "initial_type cx Type_Timestamp = Inr ITy_Timestamp"
| "initial_type cx Type_Duration = Inr ITy_Duration"
| "initial_type cx (Type_Box t) = ebind (initial_type cx t) (\<lambda>t'. Inr (ITy_Box t'))"
| "initial_type cx (Type_Optional t) = ebind (initial_type cx t) (\<lambda>t'. Inr (ITy_Optional t'))"
| "initial_type cx (Type_Sequence t) = ebind (initial_type cx t) (\<lambda>t'. Inr (ITy_Sequence t'))"
| "initial_type cx (Type_Map k v) =
     ebind (initial_type cx k) (\<lambda>k'. ebind (initial_type cx v) (\<lambda>v'. Inr (ITy_Map k' v')))"
| "initial_type cx (Type_Set t) = ebind (initial_type cx t) (\<lambda>t'. Inr (ITy_Set t'))"
| "initial_type cx (Type_Object mp nm imp) =
     ebind (get_namespace_name cx mp) (\<lambda>ns. Inr (ITy_Interface ns nm (get_orig_name cx mp nm) imp))"
| "initial_type cx (Type_Record mp nm) =
     ebind (get_namespace_name cx mp) (\<lambda>ns. Inr (ITy_Record ns nm (get_orig_name cx mp nm)))"
| "initial_type cx (Type_Enum mp nm) =
     ebind (get_namespace_name cx mp) (\<lambda>ns. Inr (ITy_Enum ns nm (get_orig_name cx mp nm)))"
| "initial_type cx (Type_CallbackInterface mp nm) =
     ebind (get_namespace_name cx mp) (\<lambda>ns. Inr (ITy_CallbackInterface ns nm (get_orig_name cx mp nm)))"
| "initial_type cx (Type_Custom mp nm builtin) =
     ebind (get_namespace_name cx mp) (\<lambda>ns. ebind (initial_type cx builtin) (\<lambda>b.
       Inr (ITy_Custom ns nm (get_orig_name cx mp nm) b)))"

section \<open>Mapping items\<close>

fun initial_literal :: "MetaContext \<Rightarrow> LiteralMetadata \<Rightarrow> MetaError + ILiteral"
  and initial_default :: "MetaContext \<Rightarrow> DefaultValueMetadata \<Rightarrow> MetaError + IDefaultValue" where
  "initial_literal cx (Literal_Boolean b) = Inr (ILiteral_Boolean b)"
| "initial_literal cx (Literal_String s) = Inr (ILiteral_String s)"
| "initial_literal cx (Literal_UInt v r t) = ebind (initial_type cx t) (\<lambda>t'. Inr (ILiteral_UInt v r t'))"
| "initial_literal cx (Literal_Int v r t) = ebind (initial_type cx t) (\<lambda>t'. Inr (ILiteral_Int v r t'))"
| "initial_literal cx (Literal_Float s t) = ebind (initial_type cx t) (\<lambda>t'. Inr (ILiteral_Float s t'))"
| "initial_literal cx (Literal_Enum s t) = ebind (initial_type cx t) (\<lambda>t'. Inr (ILiteral_Enum s t'))"
| "initial_literal cx Literal_EmptySequence = Inr ILiteral_EmptySequence"
| "initial_literal cx Literal_EmptyMap = Inr ILiteral_EmptyMap"
| "initial_literal cx Literal_EmptySet = Inr ILiteral_EmptySet"
| "initial_literal cx Literal_None = Inr ILiteral_None"
| "initial_literal cx (Literal_Some d) = ebind (initial_default cx d) (\<lambda>d'. Inr (ILiteral_Some d'))"
| "initial_default cx DefaultValue_Default = Inr IDefaultValue_Default"
| "initial_default cx (DefaultValue_Literal l) = ebind (initial_literal cx l) (\<lambda>l'. Inr (IDefaultValue_Literal l'))"

definition orig_or :: "string option \<Rightarrow> string \<Rightarrow> string" where
  "orig_or orig_name nm = (case orig_name of Some orig \<Rightarrow> orig | None \<Rightarrow> nm)"

definition initial_argument :: "MetaContext \<Rightarrow> FnParamMetadata \<Rightarrow> MetaError + IArgument" where
  "initial_argument cx p =
     ebind (initial_type cx (param_ty p)) (\<lambda>ty. ebind (eoption (initial_default cx) (param_default p)) (\<lambda>d. Inr
       \<lparr>iar_name = param_name p, iar_ty = ty, iar_by_ref = param_by_ref p, iar_optional = param_optional p,
        iar_default = d\<rparr>))"

definition initial_function :: "MetaContext \<Rightarrow> FnMetadata \<Rightarrow> IFunction numbering" where
  "initial_function cx f =
     rbind new_callable_id (\<lambda>callable_id. rlift (
       ebind (emap (initial_argument cx) (fn_inputs f)) (\<lambda>inputs.
       ebind (eoption (initial_type cx) (fn_return_type f)) (\<lambda>ret.
       ebind (eoption (initial_type cx) (fn_throws f)) (\<lambda>throws. Inr
         \<lparr>ifu_orig_name = orig_or (fn_orig_name f) (fn_name f), ifu_id = callable_id, ifu_name = fn_name f,
          ifu_module_path = fn_module_path f, ifu_is_async = fn_is_async f, ifu_inputs = inputs,
          ifu_return_type = ret, ifu_throws = throws, ifu_checksum = fn_checksum f,
          ifu_docstring = fn_docstring f\<rparr>)))))"

definition initial_constructor :: "MetaContext \<Rightarrow> ConstructorMetadata \<Rightarrow> IConstructor numbering" where
  "initial_constructor cx c =
     rbind new_callable_id (\<lambda>callable_id. rlift (
       ebind (emap (initial_argument cx) (ctor_inputs c)) (\<lambda>inputs.
       ebind (eoption (initial_type cx) (ctor_throws c)) (\<lambda>throws. Inr
         \<lparr>ico_orig_name = orig_or (ctor_orig_name c) (ctor_name c), ico_id = callable_id, ico_name = ctor_name c,
          ico_is_async = ctor_is_async c, ico_inputs = inputs, ico_throws = throws,
          ico_checksum = ctor_checksum c, ico_docstring = ctor_docstring c\<rparr>))))"

definition initial_method :: "MetaContext \<Rightarrow> MethodMetadata \<Rightarrow> IMethod numbering" where
  "initial_method cx m =
     rbind new_callable_id (\<lambda>callable_id. rlift (
       ebind (emap (initial_argument cx) (meth_inputs m)) (\<lambda>inputs.
       ebind (eoption (initial_type cx) (meth_return_type m)) (\<lambda>ret.
       ebind (eoption (initial_type cx) (meth_throws m)) (\<lambda>throws. Inr
         \<lparr>ime_orig_name = orig_or (meth_orig_name m) (meth_name m), ime_id = callable_id, ime_name = meth_name m,
          ime_is_async = meth_is_async m, ime_takes_self_by_arc = meth_takes_self_by_arc m, ime_inputs = inputs,
          ime_return_type = ret, ime_throws = throws, ime_checksum = meth_checksum m,
          ime_docstring = meth_docstring m\<rparr>)))))"

definition initial_trait_method :: "MetaContext \<Rightarrow> TraitMethodMetadata \<Rightarrow> IMethod numbering" where
  "initial_trait_method cx m =
     rbind new_callable_id (\<lambda>callable_id. rlift (
       ebind (emap (initial_argument cx) (tmeth_inputs m)) (\<lambda>inputs.
       ebind (eoption (initial_type cx) (tmeth_return_type m)) (\<lambda>ret.
       ebind (eoption (initial_type cx) (tmeth_throws m)) (\<lambda>throws. Inr
         \<lparr>ime_orig_name = orig_or (tmeth_orig_name m) (tmeth_name m), ime_id = callable_id, ime_name = tmeth_name m,
          ime_is_async = tmeth_is_async m, ime_takes_self_by_arc = tmeth_takes_self_by_arc m, ime_inputs = inputs,
          ime_return_type = ret, ime_throws = throws, ime_checksum = tmeth_checksum m,
          ime_docstring = tmeth_docstring m\<rparr>)))))"

fun initial_uniffi_trait :: "MetaContext \<Rightarrow> UniffiTraitMetadata \<Rightarrow> IUniffiTrait numbering" where
  "initial_uniffi_trait cx (UniffiTrait_Debug fmt) =
     rbind (initial_method cx fmt) (\<lambda>m. rret (IUniffiTrait_Debug m))"
| "initial_uniffi_trait cx (UniffiTrait_Display fmt) =
     rbind (initial_method cx fmt) (\<lambda>m. rret (IUniffiTrait_Display m))"
| "initial_uniffi_trait cx (UniffiTrait_Eq eq ne) =
     rbind (initial_method cx eq) (\<lambda>m. rbind (initial_method cx ne) (\<lambda>m'. rret (IUniffiTrait_Eq m m')))"
| "initial_uniffi_trait cx (UniffiTrait_Hash hash) =
     rbind (initial_method cx hash) (\<lambda>m. rret (IUniffiTrait_Hash m))"
| "initial_uniffi_trait cx (UniffiTrait_Ord cmp) =
     rbind (initial_method cx cmp) (\<lambda>m. rret (IUniffiTrait_Ord m))"

definition methods_for_type :: "MetaContext \<Rightarrow> string \<Rightarrow> string \<Rightarrow> IMethod list numbering" where
  "methods_for_type cx module_path type_nm =
     (let child_key = (crate_name module_path, type_nm) in
      case map_of (mc_methods cx) child_key of
        Some ms \<Rightarrow>
          if map_of (mc_trait_methods cx) child_key \<noteq> None then rfail (Err_methods_and_trait_methods type_nm)
          else rmap_list (initial_method cx) (map snd ms)
      | None \<Rightarrow>
          (case map_of (mc_trait_methods cx) child_key of
             Some ms \<Rightarrow> rmap_list (initial_trait_method cx) (sort_key (\<lambda>m. unat (tmeth_index m)) (map snd ms))
           | None \<Rightarrow> rret []))"

text \<open>\<open>constructors_for_type\<close>, \<open>uniffi_traits_for_type\<close> and \<open>trait_impls_for_type\<close>.\<close>

definition children_for_type ::
  "('a \<Rightarrow> 'b numbering) \<Rightarrow> ((string \<times> string) \<times> ('k \<times> 'a) list) list \<Rightarrow> string \<Rightarrow> string \<Rightarrow> 'b list numbering" where
  "children_for_type f mm module_path type_nm =
     (case map_of mm (crate_name module_path, type_nm) of
        Some m \<Rightarrow> rmap_list f (map snd m)
      | None \<Rightarrow> rret [])"

definition initial_trait_impl :: "MetaContext \<Rightarrow> ObjectTraitImplMetadata \<Rightarrow> MetaError + IObjectTraitImpl" where
  "initial_trait_impl cx i =
     ebind (initial_type cx (oti_ty i)) (\<lambda>ty. ebind (initial_type cx (oti_trait_ty i)) (\<lambda>trait_ty. Inr
       \<lparr>iot_ty = ty, iot_trait_ty = trait_ty\<rparr>))"

definition initial_field :: "MetaContext \<Rightarrow> FieldMetadata \<Rightarrow> MetaError + IField" where
  "initial_field cx f =
     ebind (initial_type cx (field_ty f)) (\<lambda>ty. ebind (eoption (initial_default cx) (field_default f)) (\<lambda>d. Inr
       \<lparr>ifi_name = field_name f, ifi_orig_name = orig_or (field_orig_name f) (field_name f), ifi_ty = ty,
        ifi_default = d, ifi_docstring = field_docstring f\<rparr>))"

definition initial_variant :: "MetaContext \<Rightarrow> VariantMetadata \<Rightarrow> MetaError + IVariant" where
  "initial_variant cx v =
     ebind (eoption (initial_literal cx) (var_discr v)) (\<lambda>discr.
     ebind (emap (initial_field cx) (var_fields v)) (\<lambda>fields. Inr
       \<lparr>iva_name = var_name v, iva_orig_name = orig_or (var_orig_name v) (var_name v), iva_discr = discr,
        iva_fields = fields, iva_docstring = var_docstring v\<rparr>))"

definition initial_record :: "MetaContext \<Rightarrow> RecordMetadata \<Rightarrow> IRecord numbering" where
  "initial_record cx r =
     rbind (children_for_type (initial_constructor cx) (mc_constructors cx) (rec_module_path r) (rec_name r)) (\<lambda>constructors.
     rbind (methods_for_type cx (rec_module_path r) (rec_name r)) (\<lambda>methods.
     rbind (children_for_type (initial_uniffi_trait cx) (mc_uniffi_traits cx) (rec_module_path r) (rec_name r)) (\<lambda>traits.
     rbind (rlift (emap (initial_field cx) (rec_fields r))) (\<lambda>fields. rret
       \<lparr>ire_constructors = constructors, ire_methods = methods, ire_uniffi_traits = traits,
        ire_module_path = rec_module_path r, ire_name = rec_name r,
        ire_orig_name = orig_or (rec_orig_name r) (rec_name r), ire_fields = fields,
        ire_docstring = rec_docstring r\<rparr>))))"

definition initial_enum :: "MetaContext \<Rightarrow> EnumMetadata \<Rightarrow> IEnum numbering" where
  "initial_enum cx e =
     rbind (children_for_type (initial_constructor cx) (mc_constructors cx) (enum_module_path e) (enum_name e)) (\<lambda>constructors.
     rbind (methods_for_type cx (enum_module_path e) (enum_name e)) (\<lambda>methods.
     rbind (children_for_type (initial_uniffi_trait cx) (mc_uniffi_traits cx) (enum_module_path e) (enum_name e)) (\<lambda>traits.
     rbind (rlift (emap (initial_variant cx) (enum_variants e))) (\<lambda>variants.
     rbind (rlift (eoption (initial_type cx) (enum_discr_type e))) (\<lambda>discr. rret
       \<lparr>ien_constructors = constructors, ien_methods = methods, ien_uniffi_traits = traits,
        ien_module_path = enum_module_path e, ien_name = enum_name e,
        ien_orig_name = orig_or (enum_orig_name e) (enum_name e), ien_shape = enum_shape e,
        ien_variants = variants, ien_discr_type = discr, ien_docstring = enum_docstring e\<rparr>)))))"

definition initial_interface :: "MetaContext \<Rightarrow> ObjectMetadata \<Rightarrow> IInterface numbering" where
  "initial_interface cx i =
     rbind (children_for_type (initial_constructor cx) (mc_constructors cx) (obj_module_path i) (obj_name i)) (\<lambda>constructors.
     rbind (methods_for_type cx (obj_module_path i) (obj_name i)) (\<lambda>methods.
     rbind (children_for_type (initial_uniffi_trait cx) (mc_uniffi_traits cx) (obj_module_path i) (obj_name i)) (\<lambda>traits.
     rbind (children_for_type (\<lambda>t. rlift (initial_trait_impl cx t)) (mc_trait_impls cx) (obj_module_path i) (obj_name i))
       (\<lambda>impls. rret
       \<lparr>iin_constructors = constructors, iin_methods = methods, iin_uniffi_traits = traits, iin_trait_impls = impls,
        iin_module_path = obj_module_path i, iin_name = obj_name i,
        iin_orig_name = orig_or (obj_orig_name i) (obj_name i), iin_docstring = obj_docstring i,
        iin_imp = obj_imp i\<rparr>))))"

definition initial_callback_interface :: "MetaContext \<Rightarrow> CallbackInterfaceMetadata \<Rightarrow> ICallbackInterface numbering" where
  "initial_callback_interface cx c =
     rbind (methods_for_type cx (cb_module_path c) (cb_name c)) (\<lambda>methods. rret
       \<lparr>icb_methods = methods, icb_module_path = cb_module_path c, icb_name = cb_name c,
        icb_orig_name = cb_name c, icb_docstring = cb_docstring c\<rparr>)"

definition initial_custom_type :: "MetaContext \<Rightarrow> CustomTypeMetadata \<Rightarrow> MetaError + ICustomType" where
  "initial_custom_type cx c =
     ebind (initial_type cx (custom_builtin c)) (\<lambda>builtin. Inr
       \<lparr>icu_module_path = custom_module_path c, icu_name = custom_name c,
        icu_orig_name = orig_or (custom_orig_name c) (custom_name c), icu_builtin = builtin,
        icu_docstring = custom_docstring c\<rparr>)"

section \<open>The initial IR\<close>

text \<open>\<open>get_mut\<close> on the namespaces and the update of what it returns.\<close>

fun update_named :: "string \<Rightarrow> ('v \<Rightarrow> 'v) \<Rightarrow> 'v by_name \<Rightarrow> 'v by_name" where
  "update_named k f [] = []"
| "update_named k f ((k', v) # m) = (if k = k' then (k', f v) # m else (k', v) # update_named k f m)"

definition set_docstring :: "string \<times> string \<Rightarrow> INamespace by_name \<Rightarrow> MetaError + INamespace by_name" where
  "set_docstring d namespaces = (case d of (nm, docstring) \<Rightarrow>
     if map_of namespaces nm = None then Inl (Err_unknown_namespace nm)
     else Inr (update_named nm (\<lambda>ns. ns\<lparr>ins_docstring := Some docstring\<rparr>) namespaces))"

definition set_config_toml ::
  "(toml_table \<Rightarrow> string option) \<Rightarrow> string \<times> toml_table \<Rightarrow> INamespace by_name \<Rightarrow> MetaError + INamespace by_name" where
  "set_config_toml to_str d namespaces = (case d of (nm, table) \<Rightarrow>
     if map_of namespaces nm = None then Inl (Err_unknown_namespace nm)
     else ebind (ok_or Err_toml_string (to_str table)) (\<lambda>config.
       Inr (update_named nm (\<lambda>ns. ns\<lparr>ins_config_toml := Some config\<rparr>) namespaces)))"

definition get_namespace ::
  "(string \<Rightarrow> string option) \<Rightarrow> INamespace by_name \<Rightarrow> string \<Rightarrow> MetaError + string" where
  "get_namespace module_path_map namespaces module_path =
     ebind (ok_or (Err_module_lookup module_path) (module_path_map (underscored (crate_name module_path)))) (\<lambda>nm.
       if map_of namespaces nm = None then Inl (Err_root_module_lookup module_path) else Inr nm)"

text \<open>The loops over the functions and over each kind of type: for every crate, the namespace is looked up
  and the mapped items are pushed onto one of its lists.\<close>

definition push_items ::
  "(string \<Rightarrow> string option) \<Rightarrow> ('a \<Rightarrow> 'b numbering) \<Rightarrow> ('b list \<Rightarrow> INamespace \<Rightarrow> INamespace) \<Rightarrow>
     string \<times> 'a by_name \<Rightarrow> INamespace by_name \<Rightarrow> INamespace by_name numbering" where
  "push_items module_path_map f push entry namespaces = (case entry of (module_path, items) \<Rightarrow>
     rbind (rlift (get_namespace module_path_map namespaces module_path)) (\<lambda>nm.
     rbind (rmap_list f (map snd items)) (\<lambda>nodes.
     rret (update_named nm (push nodes) namespaces))))"

fun rfold :: "('a \<Rightarrow> 's \<Rightarrow> 's numbering) \<Rightarrow> 'a list \<Rightarrow> 's \<Rightarrow> 's numbering" where
  "rfold f [] s = rret s"
| "rfold f (x # xs) s = rbind (f x s) (rfold f xs)"

definition push_functions :: "IFunction list \<Rightarrow> INamespace \<Rightarrow> INamespace" where
  "push_functions fs ns = ns\<lparr>ins_functions := ins_functions ns @ fs\<rparr>"

definition push_definitions :: "('a \<Rightarrow> ITypeDefinition) \<Rightarrow> 'a list \<Rightarrow> INamespace \<Rightarrow> INamespace" where
  "push_definitions constr xs ns = ns\<lparr>ins_type_definitions := ins_type_definitions ns @ map constr xs\<rparr>"

definition converter_context :: "UniffiMetaConverter \<Rightarrow> MetaContext" where
  "converter_context cv =
     \<lparr>mc_module_path_map = cv_module_path_map cv, mc_constructors = cv_constructors cv, mc_methods = cv_methods cv,
      mc_trait_methods = cv_trait_methods cv, mc_uniffi_traits = cv_uniffi_traits cv,
      mc_trait_impls = cv_trait_impls cv, mc_orig_names = cv_orig_names cv\<rparr>"

definition converter_namespaces ::
  "(toml_table \<Rightarrow> string option) \<Rightarrow> UniffiMetaConverter \<Rightarrow> INamespace by_name numbering" where
  "converter_namespaces to_str cv =
     (let cx = converter_context cv; paths = cv_module_path_map cv in
      rbind (rlift (efold set_docstring (cv_module_docstrings cv) (cv_namespaces cv))) (\<lambda>ns.
      rbind (rlift (efold (set_config_toml to_str) (cv_module_toml cv) ns)) (\<lambda>ns.
      rbind (rfold (push_items paths (initial_function cx) push_functions) (cv_functions cv) ns) (\<lambda>ns.
      rbind (rfold (push_items paths (initial_record cx) (push_definitions ITypeDefinition_Record)) (cv_records cv) ns) (\<lambda>ns.
      rbind (rfold (push_items paths (initial_enum cx) (push_definitions ITypeDefinition_Enum)) (cv_enums cv) ns) (\<lambda>ns.
      rbind (rfold (push_items paths (\<lambda>c. rlift (initial_custom_type cx c)) (push_definitions ITypeDefinition_Custom))
        (cv_custom_types cv) ns) (\<lambda>ns.
      rbind (rfold (push_items paths (initial_interface cx) (push_definitions ITypeDefinition_Interface))
        (cv_interfaces cv) ns) (\<lambda>ns.
      rfold (push_items paths (initial_callback_interface cx) (push_definitions ITypeDefinition_CallbackInterface))
        (cv_callback_interfaces cv) ns))))))))"

definition try_into_initial_ir ::
  "(toml_table \<Rightarrow> string option) \<Rightarrow> UniffiMetaConverter \<Rightarrow> MetaError + IRoot" where
  "try_into_initial_ir to_str cv =
     ebind (emap (initial_type (converter_context cv)) (map fst (cv_from_unexpected_callback_error_impls cv))) (\<lambda>impls.
     ebind (converter_namespaces to_str cv 0) (\<lambda>(namespaces, counter). Inr
       \<lparr>iro_namespaces = namespaces, iro_cdylib = None, iro_from_unexpected_callback_error_impls = impls,
        iro_checksum_mode = ChecksumMode_Legacy\<rparr>))"

text \<open>All items of a library, then the tree.\<close>

definition items_into_initial_ir ::
  "(toml_table \<Rightarrow> string option) \<Rightarrow> Metadata list \<Rightarrow> MetaError + IRoot" where
  "items_into_initial_ir to_str items =
     ebind (efold add_metadata_item items converter_default) (try_into_initial_ir to_str)"

end
