(* ===== verification/Discriminants.thy ===== *)
theory Discriminants
  imports GeneralContext
begin

text \<open>
  \<open>uniffi_bindgen/src/pipeline/general/enums.rs\<close>: the discriminants of an enum, as \<open>rustc\<close> assigns
  them, and the type that holds them.  Literals and defaults are mapped as \<open>default.rs\<close> and the derived
  \<open>MapNode\<close> do.  An addition that overflows is a panic, as in a checked build.
\<close>

section \<open>Literals\<close>

fun map_literal :: "Context \<Rightarrow> ILiteral \<Rightarrow> PipelineError + GLiteral"
  and map_default_value :: "Context \<Rightarrow> IDefaultValue \<Rightarrow> PipelineError + GDefaultValue" where
  "map_literal cx (ILiteral_Boolean b) = Inr (GLiteral_Boolean b)"
| "map_literal cx (ILiteral_String s) = Inr (GLiteral_String s)"
| "map_literal cx (ILiteral_UInt v r t) = ebind (map_type_node cx t) (\<lambda>n. Inr (GLiteral_UInt v r n))"
| "map_literal cx (ILiteral_Int v r t) = ebind (map_type_node cx t) (\<lambda>n. Inr (GLiteral_Int v r n))"
| "map_literal cx (ILiteral_Float s t) = ebind (map_type_node cx t) (\<lambda>n. Inr (GLiteral_Float s n))"
| "map_literal cx (ILiteral_Enum s t) = ebind (map_type_node cx t) (\<lambda>n. Inr (GLiteral_Enum s n))"
| "map_literal cx ILiteral_EmptySequence = Inr GLiteral_EmptySequence"
| "map_literal cx ILiteral_EmptyMap = Inr GLiteral_EmptyMap"
| "map_literal cx ILiteral_EmptySet = Inr GLiteral_EmptySet"
| "map_literal cx ILiteral_None = Inr GLiteral_None"
| "map_literal cx (ILiteral_Some d) = ebind (map_default_value cx d) (\<lambda>d'. Inr (GLiteral_Some d'))"
| "map_default_value cx (IDefaultValue_Literal l) = ebind (map_literal cx l) (\<lambda>l'. Inr (GDefaultValue_Literal l'))"
| "map_default_value cx IDefaultValue_Default =
     ebind (current_arg_or_field_type cx) (\<lambda>n. Inr (GDefaultValue_Default n))"

section \<open>Discriminants\<close>

record DiscriminantInfo =
  di_discr_type :: TypeNode
  di_variant_discrs :: "GLiteral list"

fun discr_type_signed :: "ITy \<Rightarrow> PipelineError + bool" where
  "discr_type_signed ITy_UInt8 = Inr False"
| "discr_type_signed ITy_UInt16 = Inr False"
| "discr_type_signed ITy_UInt32 = Inr False"
| "discr_type_signed ITy_UInt64 = Inr False"
| "discr_type_signed ITy_Int8 = Inr True"
| "discr_type_signed ITy_Int16 = Inr True"
| "discr_type_signed ITy_Int32 = Inr True"
| "discr_type_signed ITy_Int64 = Inr True"
| "discr_type_signed ty = Inl (Err_discr_type ty)"

definition U64_MAX :: u64 where "U64_MAX = 0xFFFFFFFFFFFFFFFF"
definition I64_MAX :: u64 where "I64_MAX = 0x7FFFFFFFFFFFFFFF"

text \<open>The discriminant of a variant, given the last one.\<close>

definition variant_discr ::
  "Context \<Rightarrow> TypeNode \<Rightarrow> bool \<Rightarrow> GLiteral option \<Rightarrow> ILiteral option \<Rightarrow> PipelineError + GLiteral" where
  "variant_discr cx placeholder is_signed prev discr =
     (case discr of
        None \<Rightarrow> (case prev of
            None \<Rightarrow> Inr (if is_signed then GLiteral_Int 0 Radix_Decimal placeholder
                         else GLiteral_UInt 0 Radix_Decimal placeholder)
          | Some (GLiteral_UInt val _ _) \<Rightarrow>
              if val = U64_MAX then Inl Panic_overflow
              else Inr (GLiteral_UInt (val + 1) Radix_Decimal placeholder)
          | Some (GLiteral_Int val _ _) \<Rightarrow>
              if val = I64_MAX then Inl Panic_overflow
              else Inr (GLiteral_Int (val + 1) Radix_Decimal placeholder)
          | Some lit \<Rightarrow> Inl (Err_discr_literal lit))
      | Some lit \<Rightarrow> map_literal cx lit)"

text \<open>\<open>min_value\<close> is an \<open>i64\<close>.\<close>

fun update_bounds :: "GLiteral \<Rightarrow> u64 \<times> u64 \<Rightarrow> PipelineError + (u64 \<times> u64)" where
  "update_bounds (GLiteral_UInt val r t) (max_value, min_value) = Inr (max max_value val, min_value)"
| "update_bounds (GLiteral_Int val r t) (max_value, min_value) =
     (if 0 \<le> sint val then Inr (max max_value val, min_value)
      else Inr (max_value, if sint val < sint min_value then val else min_value))"
| "update_bounds lit b = Inl (Panic_discr_literal lit)"

fun discr_loop ::
  "Context \<Rightarrow> TypeNode \<Rightarrow> bool \<Rightarrow> IVariant list \<Rightarrow> GLiteral list \<Rightarrow> u64 \<times> u64 \<Rightarrow>
     PipelineError + (GLiteral list \<times> (u64 \<times> u64))" where
  "discr_loop cx placeholder is_signed [] variant_discrs b = Inr (variant_discrs, b)"
| "discr_loop cx placeholder is_signed (variant # variants) variant_discrs b =
     ebind (variant_discr cx placeholder is_signed
         (if variant_discrs = [] then None else Some (last variant_discrs)) (iva_discr variant)) (\<lambda>discr.
     ebind (update_bounds discr b) (\<lambda>b'.
       discr_loop cx placeholder is_signed variants (variant_discrs @ [discr]) b'))"

text \<open>The type for given bounds, when none was specified.\<close>

definition smallest_type :: "u64 \<times> u64 \<Rightarrow> PipelineError + ITy" where
  "smallest_type b = (case b of (max_value, min_value) \<Rightarrow>
     if - (2 ^ 7) \<le> sint min_value \<and> uint max_value < 2 ^ 7 then Inr ITy_Int8
     else if - (2 ^ 15) \<le> sint min_value \<and> uint max_value < 2 ^ 15 then Inr ITy_Int16
     else if - (2 ^ 31) \<le> sint min_value \<and> uint max_value < 2 ^ 31 then Inr ITy_Int32
     else if uint max_value < 2 ^ 63 then Inr ITy_Int64
     else Inl Err_discr_magnitude)"

fun set_literal_type :: "TypeNode \<Rightarrow> GLiteral \<Rightarrow> PipelineError + GLiteral" where
  "set_literal_type n (GLiteral_UInt v r t) = Inr (GLiteral_UInt v r n)"
| "set_literal_type n (GLiteral_Int v r t) = Inr (GLiteral_Int v r n)"
| "set_literal_type n lit = Inl (Panic_discr_literal lit)"

definition determine_discriminants ::
  "ITy option \<Rightarrow> IVariant list \<Rightarrow> Context \<Rightarrow> PipelineError + DiscriminantInfo" where
  "determine_discriminants discr_type variants cx =
     ebind (case discr_type of Some ty \<Rightarrow> discr_type_signed ty | None \<Rightarrow> Inr True) (\<lambda>is_signed.
     ebind (map_type_node cx ITy_UInt8) (\<lambda>placeholder.
     ebind (discr_loop cx placeholder is_signed variants [] (0, 0)) (\<lambda>(variant_discrs, b).
     ebind (ebind (case discr_type of Some ty \<Rightarrow> Inr ty | None \<Rightarrow> smallest_type b) (map_type_node cx)) (\<lambda>node.
     ebind (emap (set_literal_type node) variant_discrs) (\<lambda>discrs. Inr
       \<lparr>di_discr_type = node, di_variant_discrs = discrs\<rparr>)))))"

definition enum_discr_type :: "IEnum \<Rightarrow> Context \<Rightarrow> PipelineError + TypeNode" where
  "enum_discr_type en cx =
     ebind (determine_discriminants (ien_discr_type en) (ien_variants en) cx) (\<lambda>info. Inr (di_discr_type info))"

definition is_flat :: "IEnum \<Rightarrow> bool" where
  "is_flat en = (case ien_shape en of
     EnumShape_Error flat \<Rightarrow> flat
   | EnumShape_Enum \<Rightarrow> list_all (\<lambda>v. iva_fields v = []) (ien_variants en))"

section \<open>What \<open>rustc\<close> does\<close>

text \<open>A variant without a discriminant has the last one plus one, the first variant zero.\<close>

fun rust_discriminants :: "int \<Rightarrow> int option list \<Rightarrow> int list" where
  "rust_discriminants following [] = []"
| "rust_discriminants following (None # ds) = following # rust_discriminants (following + 1) ds"
| "rust_discriminants following (Some d # ds) = d # rust_discriminants (d + 1) ds"

fun literal_value :: "ILiteral \<Rightarrow> int" where
  "literal_value (ILiteral_UInt v r t) = uint v"
| "literal_value (ILiteral_Int v r t) = sint v"
| "literal_value _ = 0"

fun discr_value :: "GLiteral \<Rightarrow> int" where
  "discr_value (GLiteral_UInt v r t) = uint v"
| "discr_value (GLiteral_Int v r t) = sint v"
| "discr_value _ = 0"

definition integer_types :: "ITy list" where
  "integer_types = [ITy_UInt8, ITy_Int8, ITy_UInt16, ITy_Int16, ITy_UInt32, ITy_Int32, ITy_UInt64, ITy_Int64]"

definition int_range :: "nat \<Rightarrow> int set" where
  "int_range bits = {- (2 ^ (bits - 1)) ..< 2 ^ (bits - 1)}"

definition numeric_literal :: "ILiteral \<Rightarrow> bool" where
  "numeric_literal lit \<longleftrightarrow> (\<exists>v r t. t \<in> set integer_types \<and> (lit = ILiteral_UInt v r t \<or> lit = ILiteral_Int v r t))"

definition discrs_given :: "IVariant list \<Rightarrow> int option list" where
  "discrs_given variants = map (\<lambda>v. map_option literal_value (iva_discr v)) variants"

fun is_numeric :: "GLiteral \<Rightarrow> bool" where
  "is_numeric (GLiteral_UInt v r t) = True"
| "is_numeric (GLiteral_Int v r t) = True"
| "is_numeric _ = False"

text \<open>The bounds say how large and how small the discriminants are that they were updated with.\<close>

definition bounds_of :: "u64 \<times> u64 \<Rightarrow> int list \<Rightarrow> bool" where
  "bounds_of b ds \<longleftrightarrow> uint (fst b) = fold max ds 0 \<and> sint (snd b) = fold min ds 0"

lemma sint_u64:
  fixes v :: u64
  shows "sint v = (if uint v < 2 ^ 63 then uint v else uint v - 2 ^ 64)"
proof -
  have s: "sint v = (uint v + 2 ^ 63) mod 2 ^ 64 - 2 ^ 63"
    by (simp add: sint_uint signed_take_bit_eq_take_bit_shift take_bit_eq_mod)
  have v: "0 \<le> uint v" "uint v < 2 ^ 64" using uint_lt2p [of v] by simp_all
  show ?thesis
  proof (cases "uint v < 2 ^ 63")
    case True
    with v s show ?thesis by simp
  next
    case False
    have "(uint v + 2 ^ 63) mod 2 ^ 64 = ((uint v - 2 ^ 63) + 2 ^ 64) mod 2 ^ 64"
      by (simp add: add.commute)
    also have "\<dots> = uint v - 2 ^ 63"
      using v False by (subst mod_add_self2) (simp add: mod_pos_pos_trivial)
    finally show ?thesis using s False by simp
  qed
qed

lemma uint_plus_one:
  fixes v :: u64
  assumes "uint v < 2 ^ 64 - 1"
  shows "uint (v + 1) = uint v + 1"
  using assms by (simp add: uint_word_ariths)

lemma sint_plus_one:
  fixes v :: u64
  assumes "v \<noteq> I64_MAX"
  shows "sint (v + 1) = sint v + 1"
proof -
  have max: "uint v \<noteq> 2 ^ 63 - 1"
    using assms by (auto simp: I64_MAX_def word_uint_eq_iff)
  show ?thesis
  proof (cases "uint v = 2 ^ 64 - 1")
    case True
    then have "uint (v + 1) = 0" by (simp add: uint_word_ariths)
    with True show ?thesis by (simp add: sint_u64)
  next
    case False
    then have "uint v < 2 ^ 64 - 1" using uint_lt2p [of v] by simp
    from uint_plus_one [OF this] max show ?thesis by (auto simp: sint_u64)
  qed
qed

lemma sint_nonneg:
  fixes v :: u64
  assumes "0 \<le> sint v"
  shows "uint v = sint v"
  using assms uint_lt2p [of v] by (auto simp: sint_u64 split: if_splits)

lemma uint_max_word: "uint (max v w) = max (uint v) (uint w)"
  by (simp add: max_def word_le_def)

lemma fold_min_le: "fold min ds x \<le> (x :: int)"
proof (induction ds arbitrary: x)
  case (Cons d ds)
  show ?case using Cons.IH [of "min d x"] by simp
qed simp

lemma fold_max_le: "(x :: int) \<le> fold max ds x"
proof (induction ds arbitrary: x)
  case (Cons d ds)
  show ?case using Cons.IH [of "max d x"] by simp
qed simp

lemma fold_max_less: "fold max ds x < k \<longleftrightarrow> x < k \<and> (\<forall>d \<in> set ds. d < (k :: int))"
  by (induction ds arbitrary: x) auto

lemma fold_min_ge: "k \<le> fold min ds x \<longleftrightarrow> k \<le> x \<and> (\<forall>d \<in> set ds. (k :: int) \<le> d)"
  by (induction ds arbitrary: x) auto

text \<open>One step of the loop.\<close>

lemma update_bounds_ok:
  assumes "is_numeric d" "bounds_of b ds"
  shows "\<exists>b'. update_bounds d b = Inr b' \<and> bounds_of b' (ds @ [discr_value d])"
proof -
  obtain hi lo where b: "b = (hi, lo)" by fastforce
  have hi: "fold max ds 0 = uint hi" and lo: "fold min ds 0 = sint lo"
    using assms(2) by (simp_all add: b bounds_of_def)
  have lo0: "sint lo \<le> 0" using fold_min_le [of ds 0] by (simp add: lo)
  show ?thesis
  proof (cases d)
    case (GLiteral_UInt v r t)
    have "min (uint v) (sint lo) = sint lo" using lo0 order_trans [of "sint lo" 0 "uint v"] by (simp add: min_def)
    then show ?thesis by (auto simp: GLiteral_UInt b bounds_of_def hi lo uint_max_word max.commute)
  next
    case (GLiteral_Int v r t)
    show ?thesis
    proof (cases "0 \<le> sint v")
      case True
      with lo0 show ?thesis
        by (auto simp: GLiteral_Int b bounds_of_def hi lo uint_max_word sint_nonneg max.commute min_def)
    next
      case False
      then have "max (sint v) (uint hi) = uint hi"
        using order_trans [of "sint v" 0 "uint hi"] by (simp add: max_def)
      with False show ?thesis by (auto simp: GLiteral_Int b bounds_of_def hi lo min_def)
    qed
  qed (use assms(1) in simp_all)
qed


lemma map_numeric_literal:
  assumes "numeric_literal lit" "\<forall>t \<in> set integer_types. map_type_node cx t = Inr (node t)"
  shows "\<exists>d. map_literal cx lit = Inr d \<and> is_numeric d \<and> discr_value d = literal_value lit"
  using assms by (auto simp: numeric_literal_def)

definition following_value :: "GLiteral list \<Rightarrow> int" where
  "following_value acc = (if acc = [] then 0 else discr_value (last acc) + 1)"

lemma following_value_snoc [simp]: "following_value (acc @ [d]) = discr_value d + 1"
  by (simp add: following_value_def)

lemma variant_discr_implicit:
  assumes "list_all is_numeric acc" "following_value acc \<in> int_range 64"
  shows "\<exists>d. variant_discr cx p sg (if acc = [] then None else Some (last acc)) None = Inr d \<and>
    is_numeric d \<and> discr_value d = following_value acc"
proof (cases acc rule: rev_cases)
  case Nil
  then show ?thesis by (simp add: variant_discr_def following_value_def)
next
  case (snoc acc' d)
  with assms have d: "is_numeric d" "discr_value d + 1 \<in> int_range 64" by simp_all
  show ?thesis
  proof (cases d)
    case (GLiteral_UInt v r t)
    with d(2) have "uint v < 2 ^ 64 - 1" by (simp add: int_range_def)
    moreover from this have "v \<noteq> U64_MAX" by (auto simp: U64_MAX_def)
    ultimately show ?thesis by (simp add: snoc GLiteral_UInt variant_discr_def uint_plus_one)
  next
    case (GLiteral_Int v r t)
    with d(2) have "v \<noteq> I64_MAX" by (auto simp: I64_MAX_def int_range_def)
    then show ?thesis by (simp add: snoc GLiteral_Int variant_discr_def sint_plus_one)
  qed (use d(1) in simp_all)
qed

lemma discr_loop_ok:
  assumes "\<forall>v \<in> set vs. \<forall>lit. iva_discr v = Some lit \<longrightarrow> numeric_literal lit"
    and nodes: "\<forall>t \<in> set integer_types. map_type_node cx t = Inr (node t)"
    and "list_all is_numeric acc" "bounds_of b (map discr_value acc)"
    and "set (rust_discriminants (following_value acc) (discrs_given vs)) \<subseteq> int_range 64"
  shows "\<exists>ds b'. discr_loop cx p sg vs acc b = Inr (acc @ ds, b') \<and> list_all is_numeric ds \<and>
    map discr_value ds = rust_discriminants (following_value acc) (discrs_given vs) \<and>
    bounds_of b' (map discr_value (acc @ ds))"
  using assms(1,3-)
proof (induction vs arbitrary: acc b)
  case Nil
  then show ?case by (simp add: discrs_given_def)
next
  case (Cons v vs)
  let ?val = "case iva_discr v of Some lit \<Rightarrow> literal_value lit | None \<Rightarrow> following_value acc"
  have spec: "rust_discriminants (following_value acc) (discrs_given (v # vs)) =
      ?val # rust_discriminants (?val + 1) (discrs_given vs)"
    by (simp add: discrs_given_def split: option.split)
  have "\<exists>d. variant_discr cx p sg (if acc = [] then None else Some (last acc)) (iva_discr v) = Inr d \<and>
      is_numeric d \<and> discr_value d = ?val"
  proof (cases "iva_discr v")
    case None
    with Cons.prems(4) spec variant_discr_implicit [OF Cons.prems(2)] show ?thesis by simp
  next
    case (Some lit)
    with Cons.prems(1) map_numeric_literal [OF _ nodes] show ?thesis by (simp add: variant_discr_def)
  qed
  then obtain d where d: "variant_discr cx p sg (if acc = [] then None else Some (last acc)) (iva_discr v) = Inr d"
    "is_numeric d" "discr_value d = ?val" by blast
  from update_bounds_ok [OF d(2) Cons.prems(3)] obtain b1 where
    b1: "update_bounds d b = Inr b1" "bounds_of b1 (map discr_value (acc @ [d]))" by auto
  have "\<exists>ds b'. discr_loop cx p sg vs (acc @ [d]) b1 = Inr ((acc @ [d]) @ ds, b') \<and> list_all is_numeric ds \<and>
      map discr_value ds = rust_discriminants (following_value (acc @ [d])) (discrs_given vs) \<and>
      bounds_of b' (map discr_value ((acc @ [d]) @ ds))"
    by (rule Cons.IH) (use Cons.prems b1(2) d spec in auto)
  then obtain ds b' where ds: "discr_loop cx p sg vs (acc @ [d]) b1 = Inr ((acc @ [d]) @ ds, b')"
    "list_all is_numeric ds" "map discr_value ds = rust_discriminants (?val + 1) (discrs_given vs)"
    "bounds_of b' (map discr_value ((acc @ [d]) @ ds))" using d(3) by auto
  show ?case
    using d b1 ds spec by (intro exI [of _ "d # ds"] exI [of _ b']) simp
qed

fun sized_int :: "nat \<Rightarrow> ITy" where
  "sized_int bits = (if bits = 8 then ITy_Int8 else if bits = 16 then ITy_Int16 else if bits = 32 then ITy_Int32
     else ITy_Int64)"

lemma smallest_type_ok:
  assumes "bounds_of b ds" "set ds \<subseteq> int_range 64"
  shows "\<exists>bits \<in> {8, 16, 32, 64}. smallest_type b = Inr (sized_int bits) \<and> set ds \<subseteq> int_range bits \<and>
    (\<forall>n \<in> {8, 16, 32, 64}. set ds \<subseteq> int_range n \<longrightarrow> bits \<le> n)"
proof -
  obtain hi lo where b: "b = (hi, lo)" by fastforce
  have sub: "set ds \<subseteq> int_range n \<longleftrightarrow> - (2 ^ (n - 1)) \<le> sint lo \<and> uint hi < 2 ^ (n - 1)" for n
    using assms(1) unfolding bounds_of_def b int_range_def by (auto simp: fold_max_less fold_min_ge subset_iff)
  have "uint hi < 2 ^ 63" using assms(2) sub [of 64] by simp
  then show ?thesis
    using sub [of 8] sub [of 16] sub [of 32] sub [of 64] assms(2)
    by (auto simp: b smallest_type_def)
qed

fun literal_type_node :: "GLiteral \<Rightarrow> TypeNode option" where
  "literal_type_node (GLiteral_UInt v r n) = Some n"
| "literal_type_node (GLiteral_Int v r n) = Some n"
| "literal_type_node _ = None"

lemma set_literal_types:
  "list_all is_numeric ds \<Longrightarrow> \<exists>ds'. emap (set_literal_type n) ds = Inr ds' \<and> map discr_value ds' = map discr_value ds \<and>
     (\<forall>d \<in> set ds'. literal_type_node d = Some n)"
proof (induction ds)
  case (Cons d ds)
  then obtain ds' where "emap (set_literal_type n) ds = Inr ds'" "map discr_value ds' = map discr_value ds"
    "\<forall>d \<in> set ds'. literal_type_node d = Some n" by auto
  with Cons.prems show ?case by (cases d) auto
qed simp

section \<open>Properties\<close>

text \<open>C19: the discriminants of an enum are those that \<open>rustc\<close> gives its variants: the one written, or the
  last one plus one.  Determining them succeeds whenever they are in the range of an \<open>i64\<close>; the type is
  the one specified, or else the smallest signed type that holds all of them, and every literal gets
  that type.\<close>

theorem discriminants_follow_rust:
  assumes "\<forall>v \<in> set variants. \<forall>lit. iva_discr v = Some lit \<longrightarrow> numeric_literal lit"
    and "\<forall>t \<in> set integer_types. map_type_node cx t = Inr (node t)"
    and "\<forall>ty. discr_type = Some ty \<longrightarrow> ty \<in> set integer_types"
    and "set (rust_discriminants 0 (discrs_given variants)) \<subseteq> int_range 64"
  shows "\<exists>info. determine_discriminants discr_type variants cx = Inr info \<and>
    map discr_value (di_variant_discrs info) = rust_discriminants 0 (discrs_given variants) \<and>
    (\<forall>lit \<in> set (di_variant_discrs info). literal_type_node lit = Some (di_discr_type info)) \<and>
    (case discr_type of
       Some ty \<Rightarrow> di_discr_type info = node ty
     | None \<Rightarrow> \<exists>bits \<in> {8, 16, 32, 64}. di_discr_type info = node (sized_int bits) \<and>
         set (rust_discriminants 0 (discrs_given variants)) \<subseteq> int_range bits \<and>
         (\<forall>n \<in> {8, 16, 32, 64}. set (rust_discriminants 0 (discrs_given variants)) \<subseteq> int_range n \<longrightarrow> bits \<le> n))"
proof -
  let ?spec = "rust_discriminants 0 (discrs_given variants)"
  have "\<exists>sg. (case discr_type of Some ty \<Rightarrow> discr_type_signed ty | None \<Rightarrow> Inr True) = Inr sg"
    using assms(3) by (cases discr_type) (auto simp: integer_types_def)
  then obtain sg where sg: "(case discr_type of Some ty \<Rightarrow> discr_type_signed ty | None \<Rightarrow> Inr True) = Inr sg" by blast
  have u8: "map_type_node cx ITy_UInt8 = Inr (node ITy_UInt8)" using assms(2) by (simp add: integer_types_def)
  have "bounds_of (0, 0) (map discr_value [])" by (simp add: bounds_of_def)
  from discr_loop_ok [OF assms(1,2) _ this, of "node ITy_UInt8" sg] assms(4) obtain ds b where
    ds: "discr_loop cx (node ITy_UInt8) sg variants [] (0, 0) = Inr (ds, b)" "list_all is_numeric ds"
      "map discr_value ds = ?spec" "bounds_of b ?spec"
    by (auto simp: following_value_def)
  show ?thesis
  proof (cases discr_type)
    case None
    from smallest_type_ok [OF ds(4) assms(4)] obtain bits where
      bits: "bits \<in> {8, 16, 32, 64}" "smallest_type b = Inr (sized_int bits)" "set ?spec \<subseteq> int_range bits"
        "\<forall>n \<in> {8, 16, 32, 64}. set ?spec \<subseteq> int_range n \<longrightarrow> bits \<le> n" by blast
    have "map_type_node cx (sized_int bits) = Inr (node (sized_int bits))"
      using assms(2) bits(1) by (auto simp: integer_types_def)
    with set_literal_types [OF ds(2), of "node (sized_int bits)"] None bits ds sg u8 show ?thesis
      by (auto simp: determine_discriminants_def simp del: sized_int.simps)
  next
    case (Some ty)
    with assms(2,3) have "map_type_node cx ty = Inr (node ty)" by simp
    with set_literal_types [OF ds(2), of "node ty"] Some ds sg u8 show ?thesis
      by (auto simp: determine_discriminants_def)
  qed
qed

text \<open>A context in which the integer types are known, and an enum with implicit discriminants.\<close>

definition example_context :: Context where
  "example_context = (context_new ''python'')\<lparr>gc_type_id_map := (\<lambda>ty. Some 0)\<rparr>"

definition example_variant :: "string \<Rightarrow> ILiteral option \<Rightarrow> IVariant" where
  "example_variant nm discr = \<lparr>iva_name = nm, iva_orig_name = nm, iva_discr = discr, iva_fields = [],
     iva_docstring = None\<rparr>"

theorem discriminants_follow_rust_witness:
  "\<exists>info. determine_discriminants None
      [example_variant ''A'' None, example_variant ''B'' (Some (ILiteral_Int 199 Radix_Decimal ITy_Int16)),
       example_variant ''C'' None] example_context = Inr info \<and>
    map discr_value (di_variant_discrs info) = [0, 199, 200]"
proof -
  let ?variants = "[example_variant ''A'' None, example_variant ''B'' (Some (ILiteral_Int 199 Radix_Decimal ITy_Int16)),
       example_variant ''C'' None]"
  have spec: "rust_discriminants 0 (discrs_given ?variants) = [0, 199, 200]"
    by (simp add: discrs_given_def example_variant_def)
  let ?node = "\<lambda>t. projr (map_type_node example_context t)"
  have "\<forall>t \<in> set integer_types. map_type_node example_context t = Inr (?node t)"
    by (simp add: integer_types_def map_type_node_def get_type_id_def example_context_def ok_or_def)
  moreover have "\<forall>v \<in> set ?variants. \<forall>lit. iva_discr v = Some lit \<longrightarrow> numeric_literal lit"
    by (auto simp: example_variant_def numeric_literal_def integer_types_def)
  ultimately show ?thesis
    using discriminants_follow_rust [of ?variants example_context ?node None] by (auto simp: spec int_range_def)
qed

end
