(* ===== verification/FfiDefs.thy ===== *)
theory FfiDefs
  imports GeneralContext FfiNames
begin

text \<open>
  The FFI definitions of a namespace: \<open>uniffi_bindgen/src/pipeline/general/ffi_async_data.rs\<close>,
  \<open>rust_buffer.rs\<close>, \<open>checksums.rs\<close>, \<open>ffi_functions.rs\<close>, \<open>objects.rs\<close>, \<open>callback_interfaces.rs\<close> and
  \<open>rust_future.rs\<close>.  The conversion to upper camel case is that of the \<open>heck\<close> crate, a parameter.
\<close>

section \<open>Data of asynchronous calls (\<open>ffi_async_data.rs\<close>)\<close>

fun future_type_name :: "FfiType option \<Rightarrow> PipelineError + string" where
  "future_type_name (Some FfiType_UInt8) = Inr ''u8''"
| "future_type_name (Some FfiType_Int8) = Inr ''i8''"
| "future_type_name (Some FfiType_UInt16) = Inr ''u16''"
| "future_type_name (Some FfiType_Int16) = Inr ''i16''"
| "future_type_name (Some FfiType_UInt32) = Inr ''u32''"
| "future_type_name (Some FfiType_Int32) = Inr ''i32''"
| "future_type_name (Some FfiType_UInt64) = Inr ''u64''"
| "future_type_name (Some FfiType_Int64) = Inr ''i64''"
| "future_type_name (Some FfiType_Float32) = Inr ''f32''"
| "future_type_name (Some FfiType_Float64) = Inr ''f64''"
| "future_type_name (Some (FfiType_Handle k)) = Inr ''u64''"
| "future_type_name (Some (FfiType_RustBuffer b)) = Inr ''rust_buffer''"
| "future_type_name None = Inr ''void''"
| "future_type_name (Some t) = Inl (Panic_future_return_type t)"

fun struct_crate_name :: "FfiType option \<Rightarrow> string" where
  "struct_crate_name (Some (FfiType_RustBuffer (Some rust_buffer_crate))) = rust_buffer_crate"
| "struct_crate_name _ = ''''"

definition rust_future_fn :: "string \<Rightarrow> string \<Rightarrow> string \<Rightarrow> RustFfiFunctionName" where
  "rust_future_fn crate operation nm = ''ffi_'' @ crate @ ''_rust_future_'' @ operation @ ''_'' @ nm"

definition async_data ::
  "(string \<Rightarrow> string) \<Rightarrow> Context \<Rightarrow> FfiType option \<Rightarrow> PipelineError + AsyncData" where
  "async_data upper_camel cx ffi_return_type =
     ebind (context_crate_name cx) (\<lambda>crate. ebind (future_type_name ffi_return_type) (\<lambda>nm. Inr
       \<lparr>ad_ffi_rust_future_poll = rust_future_fn crate ''poll'' nm,
        ad_ffi_rust_future_cancel = rust_future_fn crate ''cancel'' nm,
        ad_ffi_rust_future_free = rust_future_fn crate ''free'' nm,
        ad_ffi_rust_future_complete = rust_future_fn crate ''complete'' nm,
        ad_ffi_foreign_future_complete = ''ForeignFutureComplete'' @ struct_crate_name ffi_return_type @ nm,
        ad_ffi_foreign_future_result =
          ''ForeignFutureResult'' @ struct_crate_name ffi_return_type @ upper_camel nm\<rparr>))"

definition callable_async_data ::
  "(string \<Rightarrow> string) \<Rightarrow> bool \<Rightarrow> ITy option \<Rightarrow> Context \<Rightarrow> PipelineError + AsyncData option" where
  "callable_async_data upper_camel async return_type cx =
     (if \<not> async then Inr None
      else ebind (eoption (\<lambda>t. ffi_type t cx) return_type) (\<lambda>t.
        ebind (async_data upper_camel cx t) (\<lambda>ad. Inr (Some ad))))"

definition function_async_data :: "(string \<Rightarrow> string) \<Rightarrow> IFunction \<Rightarrow> Context \<Rightarrow> PipelineError + AsyncData option" where
  "function_async_data upper_camel f cx = callable_async_data upper_camel (ifu_is_async f) (ifu_return_type f) cx"

definition method_async_data :: "(string \<Rightarrow> string) \<Rightarrow> IMethod \<Rightarrow> Context \<Rightarrow> PipelineError + AsyncData option" where
  "method_async_data upper_camel m cx = callable_async_data upper_camel (ime_is_async m) (ime_return_type m) cx"

definition constructor_async_data ::
  "(string \<Rightarrow> string) \<Rightarrow> IConstructor \<Rightarrow> string \<Rightarrow> ObjectImpl \<Rightarrow> Context \<Rightarrow> PipelineError + AsyncData option" where
  "constructor_async_data upper_camel c interface_name imp cx =
     ebind (namespace_name cx) (\<lambda>ns.
       if \<not> ico_is_async c then Inr None
       else ebind (interface_ffi_type ns interface_name imp) (\<lambda>t.
         ebind (async_data upper_camel cx (Some t)) (\<lambda>ad. Inr (Some ad))))"

section \<open>Buffers and checksums (\<open>rust_buffer.rs\<close>, \<open>checksums.rs\<close>)\<close>

definition rust_fn ::
  "string \<Rightarrow> FfiArgument list \<Rightarrow> FfiType option \<Rightarrow> bool \<Rightarrow> FfiFunctionKind \<Rightarrow> FfiDefinition" where
  "rust_fn nm args ret status kind = FfiDefinition_RustFunction
     \<lparr>ffn_name = nm, ffn_async_data = None, ffn_arguments = args, ffn_return_type = \<lparr>frt_ty = ret\<rparr>,
      ffn_has_rust_call_status_arg = status, ffn_kind = kind\<rparr>"

definition fn_type :: "string \<Rightarrow> FfiArgument list \<Rightarrow> FfiType option \<Rightarrow> bool \<Rightarrow> FfiDefinition" where
  "fn_type nm args ret status = FfiDefinition_FunctionType
     \<lparr>fft_name = nm, fft_arguments = args, fft_return_type = \<lparr>frt_ty = ret\<rparr>,
      fft_has_rust_call_status_arg = status\<rparr>"

definition ffi_arg :: "string \<Rightarrow> FfiType \<Rightarrow> FfiArgument" where
  "ffi_arg nm ty = \<lparr>fa_name = nm, fa_ty = ty\<rparr>"

definition ffi_field :: "string \<Rightarrow> FfiType \<Rightarrow> FfiField" where
  "ffi_field nm ty = \<lparr>ff_name = nm, ff_ty = ty\<rparr>"

definition rustbuffer_fn_name :: "string \<Rightarrow> Context \<Rightarrow> PipelineError + RustFfiFunctionName" where
  "rustbuffer_fn_name operation cx =
     ebind (context_crate_name cx) (\<lambda>crate. Inr (''ffi_'' @ crate @ ''_rustbuffer_'' @ operation))"

definition rust_buffer_defs :: "Context \<Rightarrow> PipelineError + FfiDefinition list" where
  "rust_buffer_defs cx =
     ebind (rustbuffer_fn_name ''alloc'' cx) (\<lambda>alloc_nm.
     ebind (rustbuffer_fn_name ''from_bytes'' cx) (\<lambda>from_bytes_nm.
     ebind (rustbuffer_fn_name ''free'' cx) (\<lambda>free_nm.
     ebind (rustbuffer_fn_name ''reserve'' cx) (\<lambda>reserve_nm. Inr
       [rust_fn alloc_nm [ffi_arg ''size'' FfiType_UInt64] (Some (FfiType_RustBuffer None)) True
          FfiFunctionKind_RustBufferAlloc,
        rust_fn from_bytes_nm [ffi_arg ''bytes'' FfiType_ForeignBytes] (Some (FfiType_RustBuffer None)) True
          FfiFunctionKind_RustBufferFromBytes,
        rust_fn free_nm [ffi_arg ''buf'' (FfiType_RustBuffer None)] None True FfiFunctionKind_RustBufferFree,
        rust_fn reserve_nm [ffi_arg ''buf'' (FfiType_RustBuffer None), ffi_arg ''additional'' FfiType_UInt64]
          (Some (FfiType_RustBuffer None)) True FfiFunctionKind_RustBufferReserve]))))"

record Checksum =
  cs_fn_name :: RustFfiFunctionName
  cs_checksum :: u16

text \<open>Only functions, and the methods and constructors of interfaces, are visited.\<close>

definition interface_checksums :: "string \<Rightarrow> IInterface \<Rightarrow> Checksum list" where
  "interface_checksums crate i =
     List.map_filter (\<lambda>m. map_option (\<lambda>c.
         \<lparr>cs_fn_name = method_checksum_symbol_name crate (iin_name i) (ime_name m), cs_checksum = c\<rparr>)
       (ime_checksum m)) (iin_methods i) @
     List.map_filter (\<lambda>k. map_option (\<lambda>c.
         \<lparr>cs_fn_name = constructor_checksum_symbol_name crate (iin_name i) (ico_name k), cs_checksum = c\<rparr>)
       (ico_checksum k)) (iin_constructors i)"

definition checksums :: "INamespace \<Rightarrow> Checksum list" where
  "checksums ns =
     List.map_filter (\<lambda>f. map_option (\<lambda>c.
         \<lparr>cs_fn_name = fn_checksum_symbol_name (ins_crate_name ns) (ifu_name f), cs_checksum = c\<rparr>)
       (ifu_checksum f)) (ins_functions ns) @
     concat (map (interface_checksums (ins_crate_name ns)) (namespace_interfaces ns))"

definition ffi_uniffi_contract_version :: "INamespace \<Rightarrow> RustFfiFunctionName" where
  "ffi_uniffi_contract_version ns = ''ffi_'' @ ins_crate_name ns @ ''_uniffi_contract_version''"

definition checksum_defs :: "INamespace \<Rightarrow> FfiDefinition list" where
  "checksum_defs ns =
     rust_fn (ffi_uniffi_contract_version ns) [] (Some FfiType_UInt32) False FfiFunctionKind_UniffiContractVersion #
     map (\<lambda>c. rust_fn (cs_fn_name c) [] (Some FfiType_UInt16) False FfiFunctionKind_Checksum) (checksums ns)"

section \<open>Scaffolding functions (\<open>ffi_functions.rs\<close>)\<close>

definition argument_to_ffi_argument :: "Context \<Rightarrow> IArgument \<Rightarrow> PipelineError + FfiArgument" where
  "argument_to_ffi_argument cx a =
     ebind (if i_is_borrowed_bytes a then Inr FfiType_ForeignBytes else ffi_type (iar_ty a) cx)
       (\<lambda>t. Inr (ffi_arg (iar_name a) t))"

definition ffi_def ::
  "string \<Rightarrow> IArgument list \<Rightarrow> ITy option \<Rightarrow> AsyncData option \<Rightarrow> Context \<Rightarrow> PipelineError + FfiDefinition" where
  "ffi_def nm arguments return_type ad cx =
     ebind (emap (argument_to_ffi_argument cx) arguments) (\<lambda>args.
       case ad of
         None \<Rightarrow> ebind (eoption (\<lambda>t. ffi_type t cx) return_type) (\<lambda>ret.
           Inr (rust_fn nm args ret True FfiFunctionKind_Scaffolding))
       | Some _ \<Rightarrow> Inr (FfiDefinition_RustFunction
           \<lparr>ffn_name = nm, ffn_async_data = ad, ffn_arguments = args,
            ffn_return_type = \<lparr>frt_ty = Some (FfiType_Handle HandleKind_RustFuture)\<rparr>,
            ffn_has_rust_call_status_arg = False, ffn_kind = FfiFunctionKind_Scaffolding\<rparr>))"

definition function_ffi_def ::
  "(string \<Rightarrow> string) \<Rightarrow> string \<Rightarrow> Context \<Rightarrow> IFunction \<Rightarrow> PipelineError + FfiDefinition" where
  "function_ffi_def upper_camel crate cx f =
     ebind (function_async_data upper_camel f cx) (\<lambda>ad.
       ffi_def (fn_symbol_name crate (ifu_name f)) (ifu_inputs f) (ifu_return_type f) ad cx)"

definition method_ffi_def ::
  "(string \<Rightarrow> string) \<Rightarrow> string \<Rightarrow> ITy \<Rightarrow> Context \<Rightarrow> IMethod \<Rightarrow> PipelineError + FfiDefinition" where
  "method_ffi_def upper_camel crate receiver_ty cx m =
     ebind (ok_or (Err_receiver_type receiver_ty) (nominal_name receiver_ty)) (\<lambda>type_nm.
     ebind (method_async_data upper_camel m cx) (\<lambda>ad.
       ffi_def (method_symbol_name crate type_nm (ime_name m))
         (\<lparr>iar_name = ''uniffi_self'', iar_ty = receiver_ty, iar_by_ref = True, iar_optional = False,
           iar_default = None\<rparr> # ime_inputs m) (ime_return_type m) ad cx))"

definition constructor_ffi_def ::
  "(string \<Rightarrow> string) \<Rightarrow> string \<Rightarrow> ITy \<Rightarrow> string \<Rightarrow> ObjectImpl \<Rightarrow> Context \<Rightarrow> IConstructor \<Rightarrow>
     PipelineError + FfiDefinition" where
  "constructor_ffi_def upper_camel crate self_ty interface_name imp cx c =
     ebind (constructor_async_data upper_camel c interface_name imp cx) (\<lambda>ad.
       ffi_def (constructor_symbol_name crate interface_name (ico_name c)) (ico_inputs c) (Some self_ty) ad cx)"

definition ffi_function_defs ::
  "(string \<Rightarrow> string) \<Rightarrow> INamespace \<Rightarrow> Context \<Rightarrow> PipelineError + FfiDefinition list" where
  "ffi_function_defs upper_camel ns cx =
     ebind (context_crate_name cx) (\<lambda>crate.
     ebind (emap (function_ffi_def upper_camel crate cx) (ins_functions ns)) (\<lambda>functions.
     ebind (emap (\<lambda>i.
         let self_ty = ITy_Interface (ins_name ns) (iin_name i) (iin_orig_name i) (iin_imp i) in
         ebind (emap (method_ffi_def upper_camel crate self_ty cx)
           (definition_methods (ITypeDefinition_Interface i))) (\<lambda>methods.
         ebind (emap (constructor_ffi_def upper_camel crate self_ty (iin_name i) (iin_imp i) cx)
           (iin_constructors i)) (\<lambda>constructors. Inr (methods @ constructors))))
       (namespace_interfaces ns)) (\<lambda>interfaces.
     ebind (emap (\<lambda>r. emap (method_ffi_def upper_camel crate
           (ITy_Record (ins_name ns) (ire_name r) (ire_orig_name r)) cx)
         (definition_methods (ITypeDefinition_Record r))) (namespace_records ns)) (\<lambda>records.
     ebind (emap (\<lambda>e. emap (method_ffi_def upper_camel crate
           (ITy_Enum (ins_name ns) (ien_name e) (ien_orig_name e)) cx)
         (definition_methods (ITypeDefinition_Enum e))) (namespace_enums ns)) (\<lambda>enums.
     Inr (functions @ concat interfaces @ concat records @ concat enums))))))"

section \<open>Objects (\<open>objects.rs\<close>)\<close>

definition ffi_clone_name :: "string \<Rightarrow> Context \<Rightarrow> PipelineError + RustFfiFunctionName" where
  "ffi_clone_name interface_name cx =
     ebind (context_crate_name cx) (\<lambda>crate. Inr (clone_fn_symbol_name crate interface_name))"

definition ffi_free_name :: "string \<Rightarrow> Context \<Rightarrow> PipelineError + RustFfiFunctionName" where
  "ffi_free_name interface_name cx =
     ebind (context_crate_name cx) (\<lambda>crate. Inr (free_fn_symbol_name crate interface_name))"

definition object_defs :: "INamespace \<Rightarrow> Context \<Rightarrow> PipelineError + FfiDefinition list" where
  "object_defs ns cx =
     ebind (emap (\<lambda>i.
       let handle = handle_type (ins_name ns) (iin_name i) (iin_imp i) in
       ebind (ffi_clone_name (iin_name i) cx) (\<lambda>clone_nm.
       ebind (ffi_free_name (iin_name i) cx) (\<lambda>free_nm. Inr
         [rust_fn clone_nm [ffi_arg ''ptr'' handle] (Some handle) True FfiFunctionKind_ObjectClone,
          rust_fn free_nm [ffi_arg ''ptr'' handle] None True FfiFunctionKind_ObjectFree])))
       (namespace_interfaces ns)) (\<lambda>defs. Inr (concat defs))"

section \<open>Callback interfaces (\<open>callback_interfaces.rs\<close>)\<close>

definition vtable_struct_name :: "(string \<Rightarrow> string) \<Rightarrow> string \<Rightarrow> string \<Rightarrow> FfiStructName" where
  "vtable_struct_name upper_camel ns interface_name =
     ''VTableCallbackInterface'' @ upper_camel ns @ interface_name"

definition vtable_struct_type :: "(string \<Rightarrow> string) \<Rightarrow> string \<Rightarrow> string \<Rightarrow> FfiType" where
  "vtable_struct_type upper_camel ns interface_name =
     FfiType_Struct (vtable_struct_name upper_camel ns interface_name)"

definition vtable_method_name :: "(string \<Rightarrow> string) \<Rightarrow> string \<Rightarrow> string \<Rightarrow> nat \<Rightarrow> FfiFunctionTypeName" where
  "vtable_method_name upper_camel ns interface_name i =
     ''CallbackInterface'' @ upper_camel ns @ interface_name @ ''Method'' @ decimal i"

definition vtable_clone_name :: "(string \<Rightarrow> string) \<Rightarrow> string \<Rightarrow> string \<Rightarrow> FfiFunctionTypeName" where
  "vtable_clone_name upper_camel ns interface_name =
     ''CallbackInterfaceClone'' @ upper_camel ns @ ''_'' @ interface_name"

definition vtable_free_name :: "(string \<Rightarrow> string) \<Rightarrow> string \<Rightarrow> string \<Rightarrow> FfiFunctionTypeName" where
  "vtable_free_name upper_camel ns interface_name =
     ''CallbackInterfaceFree'' @ upper_camel ns @ ''_'' @ interface_name"

definition dropped_struct :: FfiStructName where
  "dropped_struct = ''ForeignFutureDroppedCallbackStruct''"

definition dropped_callback :: FfiFunctionTypeName where
  "dropped_callback = ''ForeignFutureDroppedCallback''"

definition vtable_struct ::
  "(string \<Rightarrow> string) \<Rightarrow> string \<Rightarrow> string \<Rightarrow> IMethod list \<Rightarrow> FfiDefinition" where
  "vtable_struct upper_camel ns interface_name methods = FfiDefinition_Struct
     \<lparr>fst_name = vtable_struct_name upper_camel ns interface_name,
      fst_fields =
        [ffi_field ''uniffi_free'' (FfiType_Function (vtable_free_name upper_camel ns interface_name)),
         ffi_field ''uniffi_clone'' (FfiType_Function (vtable_clone_name upper_camel ns interface_name))] @
        map (\<lambda>(i, m). ffi_field (ime_name m)
            (FfiType_Function (vtable_method_name upper_camel ns interface_name i)))
          (List.enumerate 0 methods)\<rparr>"

text \<open>What the foreign side passes back: the return value, if there is one, and the call status.\<close>

definition future_result_fields :: "FfiType option \<Rightarrow> FfiField list" where
  "future_result_fields ret =
     map (\<lambda>t. ffi_field ''return_value'' t) (option_list ret) @ [ffi_field ''call_status'' FfiType_RustCallStatus]"

definition vtable_return_args :: "AsyncData option \<Rightarrow> FfiType option \<Rightarrow> FfiArgument list" where
  "vtable_return_args ad ret =
     (case ad of
        None \<Rightarrow> [ffi_arg ''uniffi_out_return''
            (case ret of Some t \<Rightarrow> FfiType_MutReference t | None \<Rightarrow> FfiType_VoidPointer)]
      | Some a \<Rightarrow>
          [ffi_arg ''uniffi_future_callback'' (FfiType_Function (ad_ffi_foreign_future_complete a)),
           ffi_arg ''uniffi_callback_data'' (FfiType_Handle HandleKind_ForeignFutureCallbackData),
           ffi_arg ''uniffi_out_return'' (FfiType_MutReference (FfiType_Struct dropped_struct))])"

definition foreign_future_defs :: "AsyncData option \<Rightarrow> FfiType option \<Rightarrow> FfiDefinition list" where
  "foreign_future_defs ad ret =
     (case ad of
        None \<Rightarrow> []
      | Some a \<Rightarrow>
          [FfiDefinition_Struct \<lparr>fst_name = ad_ffi_foreign_future_result a, fst_fields = future_result_fields ret\<rparr>,
           fn_type (ad_ffi_foreign_future_complete a)
             [ffi_arg ''callback_data'' (FfiType_Handle HandleKind_ForeignFuture),
              ffi_arg ''result'' (FfiType_Struct (ad_ffi_foreign_future_result a))] None False])"

definition vtable_method_defs ::
  "(string \<Rightarrow> string) \<Rightarrow> string \<Rightarrow> string \<Rightarrow> Context \<Rightarrow> nat \<times> IMethod \<Rightarrow> PipelineError + FfiDefinition list" where
  "vtable_method_defs upper_camel ns interface_name cx im = (case im of (i, m) \<Rightarrow>
     ebind (emap (\<lambda>a. ebind (ffi_type (iar_ty a) cx) (\<lambda>t. Inr (ffi_arg (iar_name a) t))) (ime_inputs m)) (\<lambda>args.
     ebind (eoption (\<lambda>t. ffi_type t cx) (ime_return_type m)) (\<lambda>ret.
     ebind (method_async_data upper_camel m cx) (\<lambda>ad. Inr (
       fn_type (vtable_method_name upper_camel ns interface_name i)
         (ffi_arg ''uniffi_handle'' (FfiType_Handle (HandleKind_TraitInterface ns interface_name)) # args @
          vtable_return_args ad ret) None (ad = None) #
       foreign_future_defs ad ret)))))"

definition add_vtable_ffi_defs ::
  "(string \<Rightarrow> string) \<Rightarrow> string \<Rightarrow> string \<Rightarrow> Context \<Rightarrow> string \<times> IMethod list \<Rightarrow> PipelineError + FfiDefinition list" where
  "add_vtable_ffi_defs upper_camel crate ns cx im = (case im of (interface_name, methods) \<Rightarrow>
     ebind (emap (vtable_method_defs upper_camel ns interface_name cx) (List.enumerate 0 methods)) (\<lambda>defs.
       let handle = FfiType_Handle (HandleKind_TraitInterface ns interface_name) in Inr
       (concat defs @
        [fn_type (vtable_clone_name upper_camel ns interface_name) [ffi_arg ''handle'' handle] (Some handle) False,
         fn_type (vtable_free_name upper_camel ns interface_name) [ffi_arg ''handle'' handle] None False,
         vtable_struct upper_camel ns interface_name methods,
         rust_fn (init_callback_vtable_fn_symbol_name crate interface_name)
           [ffi_arg ''vtable'' (FfiType_Reference (vtable_struct_type upper_camel ns interface_name))] None False
           FfiFunctionKind_RustVtableInit])))"

text \<open>The interfaces with a vtable, each with its methods.\<close>

definition vtable_interfaces :: "INamespace \<Rightarrow> (string \<times> IMethod list) list" where
  "vtable_interfaces ns =
     map (\<lambda>i. (iin_name i, iin_methods i)) (filter (\<lambda>i. has_callback_interface (iin_imp i)) (namespace_interfaces ns)) @
     map (\<lambda>c. (icb_name c, icb_methods c)) (namespace_callback_interfaces ns)"

definition callback_interface_defs ::
  "(string \<Rightarrow> string) \<Rightarrow> INamespace \<Rightarrow> Context \<Rightarrow> PipelineError + FfiDefinition list" where
  "callback_interface_defs upper_camel ns cx =
     ebind (emap (add_vtable_ffi_defs upper_camel (ins_crate_name ns) (ins_name ns) cx) (vtable_interfaces ns)) (\<lambda>defs.
       Inr (concat defs @
         (if \<exists>(nm, methods) \<in> set (vtable_interfaces ns). \<exists>m \<in> set methods. ime_is_async m then
            [fn_type dropped_callback [ffi_arg ''handle'' (FfiType_Handle HandleKind_ForeignFuture)] None False,
             FfiDefinition_Struct
               \<lparr>fst_name = dropped_struct,
                fst_fields = [ffi_field ''handle'' (FfiType_Handle HandleKind_ForeignFuture),
                  ffi_field ''free'' (FfiType_Function dropped_callback)]\<rparr>]
          else [])))"

section \<open>Rust futures (\<open>rust_future.rs\<close>)\<close>

definition all_async_return_types :: "(FfiType option \<times> string) list" where
  "all_async_return_types =
     [(Some FfiType_UInt8, ''u8''), (Some FfiType_Int8, ''i8''), (Some FfiType_UInt16, ''u16''),
      (Some FfiType_Int16, ''i16''), (Some FfiType_UInt32, ''u32''), (Some FfiType_Int32, ''i32''),
      (Some FfiType_UInt64, ''u64''), (Some FfiType_Int64, ''i64''), (Some FfiType_Float32, ''f32''),
      (Some FfiType_Float64, ''f64''),
      (Some (FfiType_Handle (HandleKind_StructInterface '''' '''')), ''u64''),
      (Some (FfiType_Handle (HandleKind_TraitInterface '''' '''')), ''u64''),
      (Some (FfiType_RustBuffer None), ''rust_buffer''), (None, ''void'')]"

definition continuation_callback :: FfiFunctionTypeName where
  "continuation_callback = ''RustFutureContinuationCallback''"

definition rust_future_handle :: FfiType where
  "rust_future_handle = FfiType_Handle HandleKind_RustFuture"

definition ffi_rust_future_poll :: "string \<Rightarrow> FfiDefinition" where
  "ffi_rust_future_poll nm = rust_fn nm
     [ffi_arg ''handle'' rust_future_handle, ffi_arg ''callback'' (FfiType_Function continuation_callback),
      ffi_arg ''callback_data'' rust_future_handle] None False FfiFunctionKind_RustFuturePoll"

definition ffi_rust_future_cancel :: "string \<Rightarrow> FfiDefinition" where
  "ffi_rust_future_cancel nm =
     rust_fn nm [ffi_arg ''handle'' rust_future_handle] None False FfiFunctionKind_RustFutureCancel"

definition ffi_rust_future_complete :: "FfiType option \<Rightarrow> string \<Rightarrow> FfiDefinition" where
  "ffi_rust_future_complete ret nm =
     rust_fn nm [ffi_arg ''handle'' rust_future_handle] ret True FfiFunctionKind_RustFutureComplete"

definition ffi_rust_future_free :: "string \<Rightarrow> FfiDefinition" where
  "ffi_rust_future_free nm =
     rust_fn nm [ffi_arg ''handle'' rust_future_handle] None False FfiFunctionKind_RustFutureFree"

definition has_async_fns :: "INamespace \<Rightarrow> bool" where
  "has_async_fns ns \<longleftrightarrow> (\<exists>f \<in> set (ins_functions ns). ifu_is_async f) \<or>
     (\<exists>m \<in> set (namespace_methods ns). ime_is_async m) \<or>
     (\<exists>c \<in> set (namespace_constructors ns). ico_is_async c)"

definition rust_future_defs :: "INamespace \<Rightarrow> FfiDefinition list" where
  "rust_future_defs ns =
     (if \<not> has_async_fns ns then []
      else fn_type continuation_callback
          [ffi_arg ''data'' rust_future_handle, ffi_arg ''poll_result'' FfiType_Int8] None False #
        concat (map (\<lambda>(ret, nm).
          [ffi_rust_future_poll (rust_future_fn (ins_crate_name ns) ''poll'' nm),
           ffi_rust_future_cancel (rust_future_fn (ins_crate_name ns) ''cancel'' nm),
           ffi_rust_future_complete ret (rust_future_fn (ins_crate_name ns) ''complete'' nm),
           ffi_rust_future_free (rust_future_fn (ins_crate_name ns) ''free'' nm)])
          all_async_return_types))"

end
