(* ===== verification/DepSort.thy ===== *)
theory DepSort
  imports GeneralNodes "HOL-Library.Multiset"
begin

text \<open>
  \<open>uniffi_bindgen/src/pipeline/general/sort.rs\<close>: definitions in an order in which dependencies come
  first, by depth-first search.  The sorter takes the logic (\<open>item_name\<close> and \<open>dependency_names\<close>) as
  arguments; its two instances follow.  An \<open>IndexMap\<close> is an association list in insertion order.
\<close>

section \<open>The sorter\<close>

text \<open>Inserting into an \<open>IndexMap\<close>: a key that is there keeps its place and gets the new value.\<close>

fun index_insert :: "('k \<times> 'v) list \<Rightarrow> 'k \<Rightarrow> 'v \<Rightarrow> ('k \<times> 'v) list" where
  "index_insert [] k v = [(k, v)]"
| "index_insert ((k', v') # m) k v = (if k' = k then (k', v) # m else (k', v') # index_insert m k v)"

definition shift_remove :: "'k \<Rightarrow> ('k \<times> 'v) list \<Rightarrow> ('k \<times> 'v) list" where
  "shift_remove k m = filter (\<lambda>kv. fst kv \<noteq> k) m"

type_synonym ('k, 'i) sorter = "('k \<times> 'i) list \<times> 'i list"  \<comment> \<open>unsorted, sorted\<close>

definition sorter_new :: "('i \<Rightarrow> 'k) \<Rightarrow> 'i list \<Rightarrow> ('k, 'i) sorter" where
  "sorter_new item_name items = (fold (\<lambda>i m. index_insert m (item_name i) i) items [], [])"

function (sequential) recurse :: "('i \<Rightarrow> 'k list) \<Rightarrow> 'k \<Rightarrow> ('k, 'i) sorter \<Rightarrow> ('k, 'i) sorter"
  and recurse_all :: "('i \<Rightarrow> 'k list) \<Rightarrow> 'k list \<Rightarrow> ('k, 'i) sorter \<Rightarrow> ('k, 'i) sorter" where
  "recurse dependency_names current_name (unsorted, out) =
     (case map_of unsorted current_name of
        None \<Rightarrow> (unsorted, out)
      | Some current_item \<Rightarrow>
          (case recurse_all dependency_names (dependency_names current_item)
              (shift_remove current_name unsorted, out) of
            (unout', out') \<Rightarrow> (unout', out' @ [current_item])))"
| "recurse_all dependency_names [] st = st"
| "recurse_all dependency_names (name # names) st =
     recurse_all dependency_names names (recurse dependency_names name st)"
  by pat_completeness auto

lemma length_shift_remove: "length (shift_remove k m) \<le> length m"
  by (simp add: shift_remove_def)

lemma length_shift_remove_less: "map_of m k = Some v \<Longrightarrow> length (shift_remove k m) < length m"
  unfolding shift_remove_def by (rule length_filter_less [of "(k, v)"]) (auto dest: map_of_SomeD)

text \<open>Nothing is put back, so the nested recursion ends.\<close>

lemma recurse_shrinks:
  "recurse_recurse_all_dom (Inl (dep, k, st)) \<Longrightarrow> length (fst (recurse dep k st)) \<le> length (fst st)"
  "recurse_recurse_all_dom (Inr (dep, ks, st)) \<Longrightarrow> length (fst (recurse_all dep ks st)) \<le> length (fst st)"
proof (induction dep k st and dep ks st rule: recurse_recurse_all.pinduct)
  case (1 dep k unsorted out)
  then show ?case
    using length_shift_remove [of k unsorted]
    by (auto simp: recurse.psimps split: option.split prod.split)
next
  case (3 dep k ks st)
  then show ?case by (auto simp: recurse_all.psimps)
qed (simp add: recurse_all.psimps)

termination recurse
proof (relation "measures [\<lambda>x. case x of Inl (dep, k, st) \<Rightarrow> length (fst st) | Inr (dep, ks, st) \<Rightarrow> length (fst st),
    \<lambda>x. case x of Inl _ \<Rightarrow> 0 | Inr (dep, ks, st) \<Rightarrow> Suc (length ks)]")
qed (auto dest: length_shift_remove_less dest!: recurse_shrinks(1) simp: le_less)

lemma length_recurse: "length (fst (recurse dep k st)) \<le> length (fst st)"
  and length_recurse_all: "length (fst (recurse_all dep ks st)) \<le> length (fst st)"
proof (induction dep k st and dep ks st rule: recurse_recurse_all.induct)
  case (1 dep k unsorted out)
  then show ?case using length_shift_remove [of k unsorted] by (auto split: option.split prod.split)
qed auto

lemma length_recurse_less:
  assumes "map_of unsorted k = Some i"
  shows "length (fst (recurse dep k (unsorted, out))) < length unsorted"
  using assms length_recurse_all [of dep "dep i" "(shift_remove k unsorted, out)"]
    length_shift_remove_less [OF assms] by (auto split: prod.split)

lemma length_recurse_first:
  "length (fst (recurse dep name ((name, i) # rest, out))) < Suc (length rest)"
  using length_recurse_less [of "(name, i) # rest" name i dep out] by (simp del: recurse.simps)

function sort_loop :: "('i \<Rightarrow> 'k list) \<Rightarrow> ('k, 'i) sorter \<Rightarrow> 'i list" where
  "sort_loop dependency_names ([], out) = out"
| "sort_loop dependency_names ((name, i) # rest, out) =
     sort_loop dependency_names (recurse dependency_names name ((name, i) # rest, out))"
  by pat_completeness auto
termination
  by (relation "measure (\<lambda>(dep, st). length (fst st))") (auto intro: length_recurse_first simp del: recurse.simps)

definition dependency_sort :: "('i \<Rightarrow> 'k) \<Rightarrow> ('i \<Rightarrow> 'k list) \<Rightarrow> 'i list \<Rightarrow> 'i list" where
  "dependency_sort item_name dependency_names items = sort_loop dependency_names (sorter_new item_name items)"

section \<open>What the search finds\<close>

text \<open>Names that lead from one to the other through dependencies.\<close>

definition depends :: "('i \<Rightarrow> 'k) \<Rightarrow> ('i \<Rightarrow> 'k list) \<Rightarrow> 'i list \<Rightarrow> ('k \<times> 'k) set" where
  "depends item_name dependency_names items =
     {(item_name i, d) | i d. i \<in> set items \<and> d \<in> set (dependency_names i)}"

text \<open>In an order, every dependency on a name of \<open>names\<close> comes earlier, unless it leads back.\<close>

definition ordered :: "('i \<Rightarrow> 'k) \<Rightarrow> ('i \<Rightarrow> 'k list) \<Rightarrow> 'i list \<Rightarrow> 'k set \<Rightarrow> 'i list \<Rightarrow> bool" where
  "ordered nm dep items names t \<longleftrightarrow>
     (\<forall>pre x post d. t = pre @ x # post \<longrightarrow> d \<in> set (dep x) \<longrightarrow> d \<in> names \<longrightarrow>
        d \<in> nm ` set pre \<or> (d, nm x) \<in> (depends nm dep items)\<^sup>*)"

definition sorter_ok :: "('i \<Rightarrow> 'k) \<Rightarrow> 'i list \<Rightarrow> ('k \<times> 'i) list \<Rightarrow> bool" where
  "sorter_ok nm items u \<longleftrightarrow> distinct (map fst u) \<and> (\<forall>(k, i) \<in> set u. k = nm i \<and> i \<in> set items)"

text \<open>A call moves \<open>t\<close> from the unsorted items to the sorted ones.\<close>

definition moved :: "('i \<Rightarrow> 'k) \<Rightarrow> ('k \<times> 'i) list \<Rightarrow> ('k \<times> 'i) list \<Rightarrow> 'i list \<Rightarrow> bool" where
  "moved nm u u' t \<longleftrightarrow> u' = filter (\<lambda>kv. fst kv \<notin> nm ` set t) u \<and> nm ` set t \<subseteq> fst ` set u \<and>
     mset (map snd u) = mset t + mset (map snd u')"

lemma moved_trans:
  assumes "moved nm u u1 t1" "moved nm u1 u2 t2"
  shows "moved nm u u2 (t1 @ t2)"
  using assms by (auto simp: moved_def image_Un)

lemma moved_ok: "moved nm u u' t \<Longrightarrow> sorter_ok nm items u \<Longrightarrow> sorter_ok nm items u'"
  by (auto simp: moved_def sorter_ok_def distinct_map_filter)

lemma ordered_append:
  assumes "ordered nm dep items (fst ` set u) t1" "ordered nm dep items (fst ` set u1) t2" "moved nm u u1 t1"
  shows "ordered nm dep items (fst ` set u) (t1 @ t2)"
  unfolding ordered_def
proof (intro allI impI)
  fix pre x post d
  assume split: "t1 @ t2 = pre @ x # post" and d: "d \<in> set (dep x)" "d \<in> fst ` set u"
  from split consider post1 where "t1 = pre @ x # post1" | pre2 where "pre = t1 @ pre2" "t2 = pre2 @ x # post"
    by (auto simp: append_eq_append_conv2 append_eq_Cons_conv)
  then show "d \<in> nm ` set pre \<or> (d, nm x) \<in> (depends nm dep items)\<^sup>*"
  proof cases
    case 1
    with assms(1) d show ?thesis by (auto simp: ordered_def)
  next
    case 2
    show ?thesis
    proof (cases "d \<in> nm ` set t1")
      case True
      then show ?thesis by (simp add: 2(1) image_Un)
    next
      case False
      with d(2) assms(3) have "d \<in> fst ` set u1" by (auto simp: moved_def)
      with assms(2) 2(2) d(1) have "d \<in> nm ` set pre2 \<or> (d, nm x) \<in> (depends nm dep items)\<^sup>*"
        unfolding ordered_def by metis
      then show ?thesis by (auto simp: 2(1))
    qed
  qed
qed

lemma shift_remove_moved:
  assumes "sorter_ok nm items u" "map_of u k = Some i"
  shows "moved nm u (shift_remove k u) [i]" "nm i = k" "i \<in> set items"
proof -
  from assms have ki: "(k, i) \<in> set u" "nm i = k" "i \<in> set items"
    by (auto simp: sorter_ok_def dest: map_of_SomeD)
  then show "nm i = k" "i \<in> set items" by auto
  have "distinct (map fst u)" using assms(1) by (simp add: sorter_ok_def)
  then have "mset (map snd u) = add_mset i (mset (map snd (filter (\<lambda>kv. fst kv \<noteq> k) u)))"
    using ki(1)
  proof (induction u)
    case (Cons kv u)
    show ?case
    proof (cases "fst kv = k")
      case True
      with Cons.prems have "kv = (k, i)" "filter (\<lambda>kv. fst kv \<noteq> k) u = u"
        by (auto simp: filter_id_conv rev_image_eqI)
      then show ?thesis by simp
    next
      case False
      with Cons show ?thesis by auto
    qed
  qed simp
  with ki show "moved nm u (shift_remove k u) [i]"
    by (auto simp: moved_def shift_remove_def rev_image_eqI intro: filter_cong)
qed

definition visits ::
  "('i \<Rightarrow> 'k) \<Rightarrow> ('i \<Rightarrow> 'k list) \<Rightarrow> 'i list \<Rightarrow> 'k list \<Rightarrow> ('k, 'i) sorter \<Rightarrow> ('k, 'i) sorter \<Rightarrow> bool" where
  "visits nm dep items ks st st' \<longleftrightarrow> (\<exists>t. snd st' = snd st @ t \<and> moved nm (fst st) (fst st') t \<and>
     ordered nm dep items (fst ` set (fst st)) t \<and>
     (\<forall>k \<in> set ks. k \<in> fst ` set (fst st) \<longrightarrow> k \<in> nm ` set t) \<and>
     (\<forall>x \<in> set t. \<exists>k \<in> set ks. (k, nm x) \<in> (depends nm dep items)\<^sup>*))"

lemma visits_none: "k \<notin> fst ` set (fst st) \<Longrightarrow> visits nm dep items [k] st st"
  by (auto simp: visits_def moved_def ordered_def)

lemma visits_nil: "visits nm dep items [] st st"
  by (auto simp: visits_def moved_def ordered_def)

lemma visits_cons:
  assumes "visits nm dep items [k] st st1" "visits nm dep items ks st1 st2"
  shows "visits nm dep items (k # ks) st st2"
proof -
  obtain t1 where t1: "snd st1 = snd st @ t1" "moved nm (fst st) (fst st1) t1"
    "ordered nm dep items (fst ` set (fst st)) t1" "k \<in> fst ` set (fst st) \<longrightarrow> k \<in> nm ` set t1"
    "\<forall>x \<in> set t1. (k, nm x) \<in> (depends nm dep items)\<^sup>*"
    using assms(1) by (auto simp: visits_def)
  obtain t2 where t2: "snd st2 = snd st1 @ t2" "moved nm (fst st1) (fst st2) t2"
    "ordered nm dep items (fst ` set (fst st1)) t2" "\<forall>k \<in> set ks. k \<in> fst ` set (fst st1) \<longrightarrow> k \<in> nm ` set t2"
    "\<forall>x \<in> set t2. \<exists>k \<in> set ks. (k, nm x) \<in> (depends nm dep items)\<^sup>*"
    using assms(2) by (auto simp: visits_def)
  have "k' \<in> nm ` set (t1 @ t2)" if "k' \<in> set (k # ks)" "k' \<in> fst ` set (fst st)" for k'
  proof (cases "k' \<in> nm ` set t1")
    case False
    with that t1(2,4) have "k' \<in> fst ` set (fst st1)" "k' \<in> set ks" by (auto simp: moved_def)
    with t2(4) show ?thesis by auto
  qed auto
  moreover have "\<exists>k' \<in> set (k # ks). (k', nm x) \<in> (depends nm dep items)\<^sup>*" if "x \<in> set (t1 @ t2)" for x
    using that t1(5) t2(5) by auto
  ultimately show ?thesis
    unfolding visits_def
    using t1(1) t2(1) moved_trans [OF t1(2) t2(2)] ordered_append [OF t1(3) t2(3) t1(2)]
    by (intro exI [of _ "t1 @ t2"]) simp
qed

text \<open>An item is pushed after what its dependencies have given.\<close>

lemma visits_item:
  assumes ok: "sorter_ok nm items u" and k: "map_of u k = Some i"
    and deps: "visits nm dep items (dep i) (shift_remove k u, out) (u', out')"
  shows "visits nm dep items [k] (u, out) (u', out' @ [i])"
proof -
  note rem = shift_remove_moved [OF ok k]
  obtain t where t: "out' = out @ t" "moved nm (shift_remove k u) u' t"
    "ordered nm dep items (fst ` set (shift_remove k u)) t"
    "\<forall>d \<in> set (dep i). d \<in> fst ` set (shift_remove k u) \<longrightarrow> d \<in> nm ` set t"
    "\<forall>x \<in> set t. \<exists>d \<in> set (dep i). (d, nm x) \<in> (depends nm dep items)\<^sup>*"
    using deps by (auto simp: visits_def)
  have edge: "(k, d) \<in> depends nm dep items" if "d \<in> set (dep i)" for d
    using that rem(2,3) by (auto simp: depends_def)
  have reach: "(k, nm x) \<in> (depends nm dep items)\<^sup>*" if "x \<in> set (t @ [i])" for x
    using that t(5) edge rem(2) by (auto intro: converse_rtrancl_into_rtrancl)
  have keys: "d = k \<or> d \<in> fst ` set (shift_remove k u)" if "d \<in> fst ` set u" for d
    using that by (auto simp: shift_remove_def)
  have "moved nm u u' ([i] @ t)" by (rule moved_trans [OF rem(1) t(2)])
  then have moved: "moved nm u u' (t @ [i])" by (simp add: moved_def)
  have "ordered nm dep items (fst ` set u) (t @ [i])"
    unfolding ordered_def
  proof (intro allI impI)
    fix pre x post d
    assume split: "t @ [i] = pre @ x # post" and d: "d \<in> set (dep x)" "d \<in> fst ` set u"
    have x: "x \<in> set (t @ [i])" by (simp only: split) simp
    show "d \<in> nm ` set pre \<or> (d, nm x) \<in> (depends nm dep items)\<^sup>*"
    proof (cases "d = k")
      case True
      with reach [OF x] show ?thesis by simp
    next
      case False
      with keys [OF d(2)] have d': "d \<in> fst ` set (shift_remove k u)" by simp
      show ?thesis
      proof (cases post rule: rev_cases)
        case Nil
        with split have "pre = t" "x = i" by simp_all
        with t(4) d(1) d' show ?thesis by simp
      next
        case (snoc post' z)
        with split have "t = pre @ x # post'" by simp
        with t(3) d(1) d' show ?thesis unfolding ordered_def by metis
      qed
    qed
  qed
  with moved reach t(1) rem(2) show ?thesis
    unfolding visits_def by (intro exI [of _ "t @ [i]"]) simp
qed

lemma recurse_visits:
  "sorter_ok nm items (fst st) \<Longrightarrow> visits nm dep items [k] st (recurse dep k st)"
  "sorter_ok nm items (fst st) \<Longrightarrow> visits nm dep items ks st (recurse_all dep ks st)"
proof (induction dep k st and dep ks st rule: recurse_recurse_all.induct)
  case (1 dep k u out)
  show ?case
  proof (cases "map_of u k")
    case None
    then have "k \<notin> fst ` set u" by (simp add: map_of_eq_None_iff)
    with None show ?thesis by (simp add: visits_none)
  next
    case (Some i)
    obtain u' out' where r: "recurse_all dep (dep i) (shift_remove k u, out) = (u', out')" by fastforce
    have "sorter_ok nm items (shift_remove k u)"
      using moved_ok shift_remove_moved(1) [OF _ Some] "1.prems" by fastforce
    with "1.IH" [OF Some] r have "visits nm dep items (dep i) (shift_remove k u, out) (u', out')" by simp
    from visits_item [OF _ Some this] "1.prems" Some r show ?thesis by simp
  qed
next
  case (3 dep k ks st)
  let ?st1 = "recurse dep k st"
  have one: "visits nm dep items [k] st ?st1" by (rule "3.IH"(1) [OF "3.prems"])
  then have "sorter_ok nm items (fst ?st1)"
    using moved_ok "3.prems" by (auto simp: visits_def)
  from visits_cons [OF one "3.IH"(2) [OF this]] show ?case by simp
qed (simp add: visits_nil)

lemma sort_loop_visits:
  assumes "sorter_ok nm items (fst st)"
  shows "\<exists>t. sort_loop dep st = snd st @ t \<and> moved nm (fst st) [] t \<and>
    ordered nm dep items (fst ` set (fst st)) t"
  using assms
proof (induction dep st rule: sort_loop.induct)
  case (1 dep out)
  then show ?case by (auto simp: moved_def ordered_def)
next
  case (2 dep k i rest out)
  let ?st = "((k, i) # rest, out)"
  obtain u1 out1 where st1: "recurse dep k ?st = (u1, out1)" by fastforce
  have one: "visits nm dep items [k] ?st (u1, out1)"
    using recurse_visits(1) [OF "2.prems", of dep k] st1 by simp
  then obtain t1 where t1: "out1 = out @ t1" "moved nm ((k, i) # rest) u1 t1"
    "ordered nm dep items (fst ` set ((k, i) # rest)) t1"
    by (auto simp: visits_def)
  have "sorter_ok nm items u1" using moved_ok [OF t1(2)] "2.prems" by simp
  with "2.IH" st1 obtain t2 where t2: "sort_loop dep (u1, out1) = out1 @ t2" "moved nm u1 [] t2"
    "ordered nm dep items (fst ` set u1) t2" by auto
  show ?case
    using st1 t1(1) t2(1) moved_trans [OF t1(2) t2(2)] ordered_append [OF t1(3) t2(3) t1(2)]
    by (intro exI [of _ "t1 @ t2"]) (simp del: recurse.simps)
qed

lemma index_insert_new: "k \<notin> fst ` set m \<Longrightarrow> index_insert m k v = m @ [(k, v)]"
  by (induction m k v rule: index_insert.induct) auto

lemma sorter_new_distinct:
  assumes "distinct (map nm items)"
  shows "sorter_new nm items = (map (\<lambda>i. (nm i, i)) items, [])"
proof -
  have "fold (\<lambda>i m. index_insert m (nm i) i) items m = m @ map (\<lambda>i. (nm i, i)) items"
    if "fst ` set m \<inter> nm ` set items = {}" for m
    using assms that
  proof (induction items arbitrary: m)
    case (Cons i items)
    then have "index_insert m (nm i) i = m @ [(nm i, i)]" by (intro index_insert_new) auto
    moreover have "fst ` set (m @ [(nm i, i)]) \<inter> nm ` set items = {}" using Cons.prems by auto
    ultimately show ?case using Cons.IH [of "m @ [(nm i, i)]"] Cons.prems(1) by simp
  qed simp
  from this [of "[]"] show ?thesis by (simp add: sorter_new_def)
qed

lemma dependency_sort_spec:
  assumes "distinct (map nm items)"
  shows "mset (dependency_sort nm dep items) = mset items"
    "ordered nm dep items (nm ` set items) (dependency_sort nm dep items)"
proof -
  let ?u = "map (\<lambda>i. (nm i, i)) items"
  have "sorter_ok nm items (fst (?u, []))" using assms by (simp add: sorter_ok_def comp_def)
  from sort_loop_visits [OF this, of dep]
  have t: "moved nm ?u [] (dependency_sort nm dep items)"
    "ordered nm dep items (fst ` set ?u) (dependency_sort nm dep items)"
    by (auto simp: dependency_sort_def sorter_new_distinct [OF assms])
  from t(1) have "mset (map snd ?u) = mset (dependency_sort nm dep items)" by (simp add: moved_def)
  then show "mset (dependency_sort nm dep items) = mset items" by (simp add: comp_def)
  from t(2) show "ordered nm dep items (nm ` set items) (dependency_sort nm dep items)"
    by (simp add: image_image)
qed

text \<open>Without distinct names, one item of each name is left.\<close>

lemma keys_index_insert: "fst ` set (index_insert m k v) = insert k (fst ` set m)"
  by (induction m k v rule: index_insert.induct) auto

lemma set_index_insert: "set (index_insert m k v) \<subseteq> insert (k, v) (set m)"
  by (induction m k v rule: index_insert.induct) auto

lemma distinct_index_insert: "distinct (map fst m) \<Longrightarrow> distinct (map fst (index_insert m k v))"
proof (induction m k v rule: index_insert.induct)
  case (2 k' v' m k v)
  then show ?case using keys_index_insert [of m k v] by auto
qed simp

lemma index_insert_ok:
  assumes "sorter_ok nm items m" "i \<in> set items"
  shows "sorter_ok nm items (index_insert m (nm i) i)"
proof -
  have "distinct (map fst m)" "\<forall>(k, j) \<in> set m. k = nm j \<and> j \<in> set items"
    using assms(1) by (simp_all add: sorter_ok_def)
  with distinct_index_insert [of m "nm i" i] set_index_insert [of m "nm i" i] assms(2) show ?thesis
    unfolding sorter_ok_def by blast
qed

lemma sorter_new_ok:
  "sorter_ok nm items (fst (sorter_new nm items))" "fst ` set (fst (sorter_new nm items)) = nm ` set items"
  "snd (sorter_new nm items) = []"
proof -
  have "sorter_ok nm items (fold (\<lambda>i m. index_insert m (nm i) i) xs m) \<and>
      fst ` set (fold (\<lambda>i m. index_insert m (nm i) i) xs m) = fst ` set m \<union> nm ` set xs"
    if "sorter_ok nm items m" "set xs \<subseteq> set items" for m xs
    using that
  proof (induction xs arbitrary: m)
    case (Cons i xs)
    then have "sorter_ok nm items (index_insert m (nm i) i)" by (intro index_insert_ok) simp_all
    with Cons show ?case by (simp add: keys_index_insert)
  qed simp
  from this [of "[]" items] show "sorter_ok nm items (fst (sorter_new nm items))"
    "fst ` set (fst (sorter_new nm items)) = nm ` set items"
    by (simp_all add: sorter_new_def sorter_ok_def)
qed (simp add: sorter_new_def)

lemma dependency_sort_names:
  "nm ` set (dependency_sort nm dep items) = nm ` set items" "set (dependency_sort nm dep items) \<subseteq> set items"
proof -
  let ?u = "fst (sorter_new nm items)"
  obtain t where t: "dependency_sort nm dep items = t" "moved nm ?u [] t"
    using sort_loop_visits [OF sorter_new_ok(1), of dep] by (auto simp: dependency_sort_def sorter_new_ok(3))
  from t(2) have "mset (map snd ?u) = mset t" by (simp add: moved_def)
  then have eq: "set (map snd ?u) = set t" by (rule mset_eq_setD)
  have ok: "\<forall>(k, i) \<in> set ?u. k = nm i \<and> i \<in> set items" using sorter_new_ok(1) [of nm items] by (simp add: sorter_ok_def)
  then have "map (nm \<circ> snd) ?u = map fst ?u" by (intro map_cong) auto
  then have "set (map (nm \<circ> snd) ?u) = set (map fst ?u)" by simp
  then have "nm ` set t = fst ` set ?u" unfolding eq [symmetric] by (simp add: image_image)
  then show "nm ` set (dependency_sort nm dep items) = nm ` set items" by (simp add: t(1) sorter_new_ok(2))
  show "set (dependency_sort nm dep items) \<subseteq> set items" unfolding t(1) eq [symmetric] using ok by auto
qed

text \<open>The item that is left of a name is the last one.\<close>

definition last_named :: "('i \<Rightarrow> 'k) \<Rightarrow> 'i list \<Rightarrow> 'i \<Rightarrow> bool" where
  "last_named nm items x \<longleftrightarrow> (\<exists>pre post. items = pre @ x # post \<and> nm x \<notin> nm ` set post)"

lemma last_named_snoc: "last_named nm items x \<Longrightarrow> nm x \<noteq> nm i \<Longrightarrow> last_named nm (items @ [i]) x"
  unfolding last_named_def by force

lemma map_of_index_insert: "map_of (index_insert m k v) = (map_of m)(k \<mapsto> v)"
  by (induction m k v rule: index_insert.induct) auto

lemma sorter_new_last: "map_of (fst (sorter_new nm items)) k = Some x \<Longrightarrow> nm x = k \<and> last_named nm items x"
proof (induction items arbitrary: k x rule: rev_induct)
  case (snoc i items)
  have new: "map_of (fst (sorter_new nm (items @ [i]))) = (map_of (fst (sorter_new nm items)))(nm i \<mapsto> i)"
    by (simp add: sorter_new_def map_of_index_insert)
  show ?case
  proof (cases "k = nm i")
    case True
    with snoc.prems new have "x = i" by simp
    with True show ?thesis by (force simp: last_named_def)
  next
    case False
    with snoc.prems new snoc.IH show ?thesis by (auto intro: last_named_snoc)
  qed
qed (simp add: sorter_new_def)

lemma dependency_sort_kept:
  fixes nm :: "'i \<Rightarrow> 'k" and dep items
  defines "R \<equiv> dependency_sort nm dep items"
  shows "distinct (map nm R)" "x \<in> set R \<Longrightarrow> last_named nm items x" "ordered nm dep R (nm ` set items) R"
proof -
  let ?u = "fst (sorter_new nm items)"
  have ok: "distinct (map fst ?u)" "\<forall>(k, i) \<in> set ?u. k = nm i" using sorter_new_ok(1) [of nm items] by (auto simp: sorter_ok_def)
  then have names: "map fst ?u = map nm (map snd ?u)" by auto
  have "sorter_ok nm (map snd ?u) ?u" using ok by (force simp: sorter_ok_def)
  from sort_loop_visits [OF this, of dep] have R: "moved nm ?u [] R" "ordered nm dep (map snd ?u) (fst ` set ?u) R"
    by (auto simp: R_def dependency_sort_def sorter_new_ok(3))
  have ms: "mset (map snd ?u) = mset R" using R(1) by (simp add: moved_def)
  then have "mset (map nm (map snd ?u)) = mset (map nm R)" by (metis mset_map)
  then show "distinct (map nm R)" using ok(1) unfolding names by (metis mset_eq_imp_distinct_iff)
  have eq: "set (map snd ?u) = set R" using ms by (rule mset_eq_setD)
  show "last_named nm items x" if "x \<in> set R"
  proof -
    from that eq obtain k where "(k, x) \<in> set ?u" by fastforce
    then have "map_of ?u k = Some x" using ok(1) by simp
    then show ?thesis using sorter_new_last by fast
  qed
  have "depends nm dep (map snd ?u) = depends nm dep R" unfolding depends_def eq by simp
  then show "ordered nm dep R (nm ` set items) R"
    using R(2) unfolding ordered_def by (simp add: sorter_new_ok(2))
qed

section \<open>The two instances\<close>

fun type_dependency_name :: "FfiType \<Rightarrow> string option" where
  "type_dependency_name (FfiType_Struct nm) = Some nm"
| "type_dependency_name (FfiType_Function nm) = Some nm"
| "type_dependency_name (FfiType_Reference t) = type_dependency_name t"
| "type_dependency_name (FfiType_MutReference t) = type_dependency_name t"
| "type_dependency_name _ = None"

fun ffi_dependency_names :: "FfiDefinition \<Rightarrow> string list" where
  "ffi_dependency_names (FfiDefinition_Struct st) =
     List.map_filter (\<lambda>f. type_dependency_name (ff_ty f)) (fst_fields st)"
| "ffi_dependency_names (FfiDefinition_RustFunction func) =
     List.map_filter type_dependency_name
       (map fa_ty (ffn_arguments func) @ option_list (frt_ty (ffn_return_type func)))"
| "ffi_dependency_names (FfiDefinition_FunctionType func_type) =
     List.map_filter type_dependency_name
       (map fa_ty (fft_arguments func_type) @ option_list (frt_ty (fft_return_type func_type)))"

definition sort_ffi_definitions :: "FfiDefinition list \<Rightarrow> FfiDefinition list" where
  "sort_ffi_definitions defs = dependency_sort ffi_definition_name ffi_dependency_names defs"

definition item_name :: "TypeDefinition \<Rightarrow> string" where
  "item_name td = tn_canonical_name (definition_type_node td)"

definition callable_types :: "Callable \<Rightarrow> TypeNode list" where
  "callable_types c = map arg_ty (ca_arguments c) @ option_list (ca_return_type c) @ option_list (ca_throws_type c)"

fun type_dependency_names :: "TypeDefinition \<Rightarrow> string list" where
  "type_dependency_names (TypeDefinition_Simple t) = []"
| "type_dependency_names (TypeDefinition_Box i) = [tn_canonical_name (it_inner i)]"
| "type_dependency_names (TypeDefinition_Optional i) = [tn_canonical_name (it_inner i)]"
| "type_dependency_names (TypeDefinition_Sequence i) = [tn_canonical_name (it_inner i)]"
| "type_dependency_names (TypeDefinition_Set i) = [tn_canonical_name (it_inner i)]"
| "type_dependency_names (TypeDefinition_Map m) = [tn_canonical_name (mt_key m), tn_canonical_name (mt_value m)]"
| "type_dependency_names (TypeDefinition_Record r) = map (\<lambda>f. tn_canonical_name (fi_ty f)) (re_fields r)"
| "type_dependency_names (TypeDefinition_Enum e) =
     concat (map (\<lambda>v. map (\<lambda>f. tn_canonical_name (fi_ty f)) (va_fields v)) (en_variants e))"
| "type_dependency_names (TypeDefinition_Interface i) =
     map (\<lambda>t. tn_canonical_name (gti_trait_ty t)) (in_trait_impls i) @
     concat (map (\<lambda>callable. map tn_canonical_name (callable_types callable))
       (map me_callable (in_methods i) @
        concat (map (\<lambda>vtable. map vm_callable (vt_methods vtable)) (option_list (in_vtable i)))))"
| "type_dependency_names (TypeDefinition_CallbackInterface c) =
     map tn_canonical_name (concat (map (\<lambda>m. callable_types (vm_callable m)) (vt_methods (ci_vtable c))))"
| "type_dependency_names (TypeDefinition_Custom c) = [tn_canonical_name (cu_builtin c)]"
| "type_dependency_names (TypeDefinition_External e) = []"

definition sort_type_definitions :: "TypeDefinition list \<Rightarrow> TypeDefinition list" where
  "sort_type_definitions defs = dependency_sort item_name type_dependency_names defs"

section \<open>Properties\<close>

text \<open>C31: the generated definitions come in an order that a language without forward references can
  read.  The sorter, which always ends, keeps one definition of each canonical name, the last one that it is given -- so every definition
  exactly once when their names are distinct -- and a kept definition comes after
  each one that it depends on; the only exceptions are dependencies that lead back to it through kept definitions, for
  which no order exists.\<close>

theorem sort_dependencies_first:
  shows "item_name ` set (sort_type_definitions defs) = item_name ` set defs \<and>
    distinct (map item_name (sort_type_definitions defs)) \<and>
    (\<forall>x \<in> set (sort_type_definitions defs). last_named item_name defs x) \<and>
    (distinct (map item_name defs) \<longrightarrow> mset (sort_type_definitions defs) = mset defs) \<and>
    (\<forall>pre x post d. sort_type_definitions defs = pre @ x # post \<longrightarrow> d \<in> set (type_dependency_names x) \<longrightarrow>
       d \<in> item_name ` set defs \<longrightarrow>
       d \<in> item_name ` set pre \<or>
       (d, item_name x) \<in> (depends item_name type_dependency_names (sort_type_definitions defs))\<^sup>*)"
proof -
  note kept = dependency_sort_kept [where nm = item_name and dep = type_dependency_names and items = defs, folded sort_type_definitions_def]
  have "item_name ` set (sort_type_definitions defs) = item_name ` set defs"
    unfolding sort_type_definitions_def by (rule dependency_sort_names(1))
  moreover have "mset (sort_type_definitions defs) = mset defs" if "distinct (map item_name defs)"
    unfolding sort_type_definitions_def by (rule dependency_sort_spec(1) [OF that])
  ultimately show ?thesis using kept(1,2) kept(3) [unfolded ordered_def] by blast
qed

definition example_node :: "ITy \<Rightarrow> TypeNode" where
  "example_node t = \<lparr>tn_canonical_name = canonical_name t, tn_id = 0, tn_is_used_as_error = False,
     tn_has_from_unexpected_callback_error_impl = False, tn_ffi_type = FfiType_RustBuffer None, tn_ty = t\<rparr>"

definition example_optional :: TypeDefinition where
  "example_optional = TypeDefinition_Optional
     \<lparr>it_inner = example_node ITy_String, it_self_type = example_node (ITy_Optional ITy_String)\<rparr>"

definition example_string :: TypeDefinition where
  "example_string = TypeDefinition_Simple (example_node ITy_String)"

theorem sort_dependencies_first_witness:
  "sort_type_definitions [example_optional, example_string] = [example_string, example_optional] \<and>
   mset (sort_type_definitions [example_optional, example_string]) = mset [example_optional, example_string]"
proof -
  have "distinct (map item_name [example_optional, example_string])"
    by (simp add: item_name_def example_optional_def example_string_def example_node_def)
  with sort_dependencies_first [of "[example_optional, example_string]"]
  have "mset (sort_type_definitions [example_optional, example_string]) = mset [example_optional, example_string]"
    by blast
  moreover have "sort_type_definitions [example_optional, example_string] = [example_string, example_optional]"
    by (simp add: sort_type_definitions_def dependency_sort_def sorter_new_def shift_remove_def
        item_name_def example_optional_def example_string_def example_node_def)
  ultimately show ?thesis by simp
qed

end
