(* ===== verification/RecursiveTypes.thy ===== *)
theory RecursiveTypes
  imports DepSort
begin

text \<open>
  \<open>uniffi_bindgen/src/pipeline/general/infer_recursive_enums.rs\<close>: which enums and records contain
  themselves, by depth-first search for back edges.  (\<open>interface/mod.rs\<close> runs the same search.)  The
  graph is a \<open>HashMap\<close> of \<open>HashSet\<close>s, whose iteration order is arbitrary: here it is an association list
  of lists, and what is shown for every such list holds for every order.
\<close>

section \<open>The search\<close>

type_synonym 'a graph = "('a \<times> 'a list) list"

record 'a search =
  se_visited :: "'a list"  \<comment> \<open>in the order of insertion\<close>
  se_recursive :: "'a set"

text \<open>\<open>stack[pos..]\<close>, where \<open>pos\<close> is the position of the name.\<close>

definition from_position :: "'a \<Rightarrow> 'a list \<Rightarrow> 'a list" where
  "from_position name stack = dropWhile (\<lambda>s. s \<noteq> name) stack"

function dfs :: "'a graph \<Rightarrow> 'a \<Rightarrow> 'a list \<Rightarrow> 'a search \<Rightarrow> 'a search"
  and dfs_all :: "'a graph \<Rightarrow> 'a list \<Rightarrow> 'a list \<Rightarrow> 'a search \<Rightarrow> 'a search" where
  "dfs deps name stack s =
     (if name \<in> set (se_visited s) then s
      else if name \<in> set stack then
        s\<lparr>se_recursive := se_recursive s \<union> set (from_position name stack)\<rparr>
      else
        let s' = (case map_of deps name of
                    Some neighbors \<Rightarrow> dfs_all deps neighbors (stack @ [name]) s
                  | None \<Rightarrow> s)
        in s'\<lparr>se_visited := se_visited s' @ [name]\<rparr>)"
| "dfs_all deps [] stack s = s"
| "dfs_all deps (dep # neighbors) stack s = dfs_all deps neighbors stack (dfs deps dep stack s)"
  by pat_completeness auto

text \<open>A call leaves the visited nodes visited, and pushes only keys of the graph that are not on the
  stack.\<close>

definition unseen :: "'a graph \<Rightarrow> 'a list \<Rightarrow> 'a search \<Rightarrow> nat" where
  "unseen deps stack s = card (fst ` set deps - set stack - set (se_visited s))"

lemma dfs_visits_more:
  "dfs_dfs_all_dom (Inl (deps, name, stack, s)) \<Longrightarrow> set (se_visited s) \<subseteq> set (se_visited (dfs deps name stack s))"
  "dfs_dfs_all_dom (Inr (deps, names, stack, s)) \<Longrightarrow> set (se_visited s) \<subseteq> set (se_visited (dfs_all deps names stack s))"
proof (induction deps name stack s and deps names stack s rule: dfs_dfs_all.pinduct)
  case (1 deps name stack s)
  then show ?case by (auto simp: dfs.psimps Let_def split: option.split)
next
  case (3 deps dep neighbors stack s)
  then show ?case by (auto simp: dfs_all.psimps)
qed (simp add: dfs_all.psimps)

lemma unseen_push:
  assumes "map_of deps name = Some ns" "name \<notin> set (se_visited s)" "name \<notin> set stack"
  shows "unseen deps (stack @ [name]) s < unseen deps stack s"
  unfolding unseen_def
proof (rule psubset_card_mono)
  have "name \<in> fst ` set deps" using assms(1) by (auto dest: map_of_SomeD simp: rev_image_eqI)
  with assms(2,3) show "fst ` set deps - set (stack @ [name]) - set (se_visited s) \<subset>
      fst ` set deps - set stack - set (se_visited s)" by auto
qed simp

lemma unseen_mono:
  "set (se_visited s) \<subseteq> set (se_visited s') \<Longrightarrow> unseen deps stack s' \<le> unseen deps stack s"
  unfolding unseen_def by (rule card_mono) auto

termination dfs
proof (relation "measures [\<lambda>x. case x of Inl (deps, name, stack, s) \<Rightarrow> unseen deps stack s
      | Inr (deps, names, stack, s) \<Rightarrow> unseen deps stack s,
    \<lambda>x. case x of Inl _ \<Rightarrow> 0 | Inr (deps, names, stack, s) \<Rightarrow> Suc (length names)]", goal_cases)
  case (4 deps dep neighbors stack s)
  then show ?case using unseen_mono [OF dfs_visits_more(1) [OF 4]] by (auto simp: le_less)
qed (auto intro: unseen_push)

definition search_all :: "'a graph \<Rightarrow> 'a search" where
  "search_all deps = fold (\<lambda>name s. dfs deps name [] s) (map fst deps) \<lparr>se_visited = [], se_recursive = {}\<rparr>"

definition find_recursive_enum_names :: "'a graph \<Rightarrow> 'a set" where
  "find_recursive_enum_names deps = se_recursive (search_all deps)"

section \<open>What is found\<close>

definition edges :: "'a graph \<Rightarrow> ('a \<times> 'a) set" where
  "edges deps = {(a, b). \<exists>ns. map_of deps a = Some ns \<and> b \<in> set ns}"

lemma edges_key: "(x, y) \<in> edges deps \<Longrightarrow> x \<in> fst ` set deps"
  by (force simp: edges_def dest: map_of_SomeD)

text \<open>The stack is a path; back at a name on it, everything from there on lies on a cycle.\<close>

definition path :: "'a graph \<Rightarrow> 'a list \<Rightarrow> bool" where
  "path deps stack \<longleftrightarrow> successively (\<lambda>a b. (a, b) \<in> edges deps) stack"

lemma path_reaches:
  assumes "path deps stack" "x \<in> set stack"
  shows "(hd stack, x) \<in> (edges deps)\<^sup>* \<and> (x, last stack) \<in> (edges deps)\<^sup>*"
  using assms unfolding path_def
proof (induction stack arbitrary: x)
  case (Cons a stack)
  show ?case
  proof (cases "stack = []")
    case False
    then have step: "(a, hd stack) \<in> edges deps" "successively (\<lambda>a b. (a, b) \<in> edges deps) stack"
      using Cons.prems(1) by (auto simp: successively_Cons)
    have "(hd stack, y) \<in> (edges deps)\<^sup>* \<and> (y, last stack) \<in> (edges deps)\<^sup>*" if "y \<in> set stack" for y
      using Cons.IH step(2) that by simp
    with step(1) False Cons.prems(2) show ?thesis
      by (auto intro: converse_rtrancl_into_rtrancl hd_in_set)
  qed (use Cons.prems in auto)
qed simp

lemma from_position_suffix: "\<exists>pre. stack = pre @ from_position name stack"
  unfolding from_position_def by (metis takeWhile_dropWhile_id)

lemma from_position_hd: "name \<in> set stack \<Longrightarrow> from_position name stack \<noteq> [] \<and> hd (from_position name stack) = name"
  unfolding from_position_def by (induction stack) auto

lemma from_position_last: "name \<in> set (stack @ [x]) \<Longrightarrow> x \<in> set (from_position name (stack @ [x]))"
  unfolding from_position_def by (induction stack) auto

lemma back_edge_cycles:
  assumes "path deps stack" "name \<in> set stack" "(last stack, name) \<in> edges deps"
    and "x \<in> set (from_position name stack)"
  shows "(x, x) \<in> (edges deps)\<^sup>+"
proof -
  let ?c = "from_position name stack"
  from from_position_suffix [of stack name] obtain pre where pre: "stack = pre @ ?c" ..
  note hd = from_position_hd [OF assms(2)]
  have "path deps (pre @ ?c)" using assms(1) by (simp only: pre [symmetric])
  then have "path deps ?c" unfolding path_def successively_append_iff by blast
  from path_reaches [OF this assms(4)] hd
  have "(name, x) \<in> (edges deps)\<^sup>*" "(x, last ?c) \<in> (edges deps)\<^sup>*" by simp_all
  moreover have "last (pre @ ?c) = last ?c" using hd by (simp add: last_append)
  then have "(last ?c, name) \<in> edges deps" using assms(3) by (simp only: pre [symmetric])
  ultimately show ?thesis by (meson rtrancl_into_trancl1 trancl_rtrancl_trancl)
qed

lemma path_push:
  "path deps stack \<Longrightarrow> stack = [] \<or> (last stack, name) \<in> edges deps \<Longrightarrow> path deps (stack @ [name])"
  by (auto simp: path_def successively_append_iff)

definition on_cycle :: "'a graph \<Rightarrow> 'a set" where
  "on_cycle deps = {x. (x, x) \<in> (edges deps)\<^sup>+}"

lemma dfs_sound:
  "path deps stack \<Longrightarrow> stack = [] \<or> (last stack, name) \<in> edges deps \<Longrightarrow>
     se_recursive (dfs deps name stack s) \<subseteq> se_recursive s \<union> on_cycle deps"
  "path deps stack \<Longrightarrow> \<forall>name \<in> set names. stack = [] \<or> (last stack, name) \<in> edges deps \<Longrightarrow>
     se_recursive (dfs_all deps names stack s) \<subseteq> se_recursive s \<union> on_cycle deps"
proof (induction deps name stack s and deps names stack s rule: dfs_dfs_all.induct)
  case (1 deps name stack s)
  show ?case
  proof (cases "name \<in> set (se_visited s)")
    case False
    show ?thesis
    proof (cases "name \<in> set stack")
      case True
      with 1(3) have "(last stack, name) \<in> edges deps" by auto
      with back_edge_cycles [OF 1(2) True] False True show ?thesis by (auto simp: on_cycle_def)
    next
      case fresh: False
      show ?thesis
      proof (cases "map_of deps name")
        case (Some ns)
        have "\<forall>n \<in> set ns. stack @ [name] = [] \<or> (last (stack @ [name]), n) \<in> edges deps"
          using Some by (auto simp: edges_def)
        with 1(1) [OF False fresh Some path_push [OF 1(2,3)]] False fresh Some show ?thesis
          by (simp add: Let_def)
      qed (use False fresh in \<open>auto simp: Let_def\<close>)
    qed
  qed simp
next
  case (3 deps dep neighbors stack s)
  then show ?case by fastforce
qed simp

text \<open>The finished nodes, in the order in which they were finished: an edge goes to a node that was
  finished before, or its source is marked.\<close>

definition finished :: "'a graph \<Rightarrow> 'a search \<Rightarrow> bool" where
  "finished deps s \<longleftrightarrow> (\<forall>pre v post w. se_visited s = pre @ v # post \<longrightarrow> (v, w) \<in> edges deps \<longrightarrow>
     w \<in> set pre \<or> v \<in> se_recursive s)"

definition grows :: "'a search \<Rightarrow> 'a search \<Rightarrow> bool" where
  "grows s s' \<longleftrightarrow> (\<exists>t. se_visited s' = se_visited s @ t) \<and> se_recursive s \<subseteq> se_recursive s'"

lemma grows_refl: "grows s s" by (simp add: grows_def)

lemma grows_trans: "grows s s1 \<Longrightarrow> grows s1 s2 \<Longrightarrow> grows s s2" by (auto simp: grows_def)

lemma finished_snoc:
  assumes "finished deps s" "\<And>w. (v, w) \<in> edges deps \<Longrightarrow> w \<in> set (se_visited s) \<or> v \<in> se_recursive s"
  shows "finished deps (s\<lparr>se_visited := se_visited s @ [v]\<rparr>)"
  unfolding finished_def
proof (intro allI impI)
  fix pre x post w
  assume split: "se_visited (s\<lparr>se_visited := se_visited s @ [v]\<rparr>) = pre @ x # post" and e: "(x, w) \<in> edges deps"
  show "w \<in> set pre \<or> x \<in> se_recursive (s\<lparr>se_visited := se_visited s @ [v]\<rparr>)"
  proof (cases post rule: rev_cases)
    case Nil
    with split have "pre = se_visited s" "x = v" by simp_all
    with assms(2) e show ?thesis by auto
  next
    case (snoc post' z)
    with split have "se_visited s = pre @ x # post'" by simp
    with assms(1) e show ?thesis by (auto simp: finished_def)
  qed
qed

lemma dfs_finishes:
  "finished deps s \<Longrightarrow> finished deps (dfs deps name stack s) \<and> grows s (dfs deps name stack s) \<and>
     (name \<in> set (se_visited (dfs deps name stack s)) \<or>
      name \<in> set stack \<and> set (from_position name stack) \<subseteq> se_recursive (dfs deps name stack s))"
  "finished deps s \<Longrightarrow> finished deps (dfs_all deps names stack s) \<and> grows s (dfs_all deps names stack s) \<and>
     (\<forall>name \<in> set names. name \<in> set (se_visited (dfs_all deps names stack s)) \<or>
      name \<in> set stack \<and> set (from_position name stack) \<subseteq> se_recursive (dfs_all deps names stack s))"
proof (induction deps name stack s and deps names stack s rule: dfs_dfs_all.induct)
  case (1 deps name stack s)
  consider "name \<in> set (se_visited s)" | "name \<notin> set (se_visited s)" "name \<in> set stack"
    | "name \<notin> set (se_visited s)" "name \<notin> set stack" by blast
  then show ?case
  proof cases
    case 1
    then show ?thesis using "1.prems" by (simp add: grows_refl)
  next
    case 2
    then show ?thesis using "1.prems" by (auto simp: grows_def finished_def)
  next
    case 3
    let ?s1 = "case map_of deps name of Some ns \<Rightarrow> dfs_all deps ns (stack @ [name]) s | None \<Rightarrow> s"
    have res: "dfs deps name stack s = ?s1\<lparr>se_visited := se_visited ?s1 @ [name]\<rparr>"
      using 3 by (simp add: Let_def)
    have "finished deps ?s1 \<and> grows s ?s1 \<and>
      (\<forall>w. (name, w) \<in> edges deps \<longrightarrow> w \<in> set (se_visited ?s1) \<or> name \<in> se_recursive ?s1)"
    proof (cases "map_of deps name")
      case None
      then show ?thesis using "1.prems" by (simp add: grows_refl edges_def)
    next
      case (Some ns)
      from "1.IH" [OF 3 Some "1.prems"] Some show ?thesis
        using from_position_last [of _ stack name] by (auto simp: edges_def)
    qed
    then show ?thesis
      unfolding res using finished_snoc [of deps ?s1 name] by (auto simp: grows_def)
  qed
next
  case (3 deps dep neighbors stack s)
  let ?s1 = "dfs deps dep stack s"
  from "3.IH"(1) [OF "3.prems"] have one: "finished deps ?s1" "grows s ?s1"
    "dep \<in> set (se_visited ?s1) \<or> dep \<in> set stack \<and> set (from_position dep stack) \<subseteq> se_recursive ?s1"
    by auto
  from "3.IH"(2) [OF one(1)] one(2,3) grows_trans [OF one(2)] show ?case
    by (auto simp: grows_def simp del: dfs.simps)
qed (simp add: grows_refl)

lemma find_recursive_run:
  shows "finished deps (search_all deps)" "fst ` set deps \<subseteq> set (se_visited (search_all deps))"
    "find_recursive_enum_names deps \<subseteq> on_cycle deps"
proof -
  have "finished deps (fold (\<lambda>name s. dfs deps name [] s) names s) \<and>
      set names \<union> set (se_visited s) \<subseteq> set (se_visited (fold (\<lambda>name s. dfs deps name [] s) names s)) \<and>
      se_recursive (fold (\<lambda>name s. dfs deps name [] s) names s) \<subseteq> se_recursive s \<union> on_cycle deps"
    if "finished deps s" for names s
    using that
  proof (induction names arbitrary: s)
    case (Cons n names)
    let ?s1 = "dfs deps n [] s"
    have one: "finished deps ?s1" "grows s ?s1" "n \<in> set (se_visited ?s1)"
      using dfs_finishes(1) [OF Cons.prems, of n "[]"] by auto
    have "se_recursive ?s1 \<subseteq> se_recursive s \<union> on_cycle deps"
      by (rule dfs_sound(1)) (simp_all add: path_def)
    with Cons.IH [OF one(1)] one(2,3) show ?case by (auto simp: grows_def simp del: dfs.simps)
  qed simp
  note run = this
  have "finished deps \<lparr>se_visited = [], se_recursive = {}\<rparr>" by (simp add: finished_def)
  from run [OF this, of "map fst deps"]
  show "finished deps (search_all deps)" "fst ` set deps \<subseteq> set (se_visited (search_all deps))"
    "find_recursive_enum_names deps \<subseteq> on_cycle deps"
    by (auto simp: search_all_def find_recursive_enum_names_def simp del: dfs.simps)
qed

text \<open>In a set of names each of which leads to another one, the name that is finished first is marked.\<close>

lemma first_in:
  assumes "x \<in> set xs" "x \<in> C"
  shows "\<exists>pre v post. xs = pre @ v # post \<and> v \<in> C \<and> set pre \<inter> C = {}"
  using split_list_first_prop [of xs "\<lambda>x. x \<in> C"] assms by blast

lemma find_recursive_hits:
  assumes "C \<noteq> {}" "\<forall>x \<in> C. \<exists>y \<in> C. (x, y) \<in> edges deps"
  shows "C \<inter> find_recursive_enum_names deps \<noteq> {}"
proof -
  note run = find_recursive_run [of deps]
  obtain x where x: "x \<in> C" using assms(1) by blast
  with assms(2) edges_key have "x \<in> fst ` set deps" by metis
  with run(2) have "x \<in> set (se_visited (search_all deps))" by blast
  from first_in [OF this x] obtain pre v post where
    v: "se_visited (search_all deps) = pre @ v # post" "v \<in> C" "set pre \<inter> C = {}" by blast
  from assms(2) v(2) obtain w where w: "w \<in> C" "(v, w) \<in> edges deps" by blast
  with run(1) v(1) have "w \<in> set pre \<or> v \<in> find_recursive_enum_names deps"
    unfolding finished_def find_recursive_enum_names_def by blast
  with v(2,3) w(1) show ?thesis by blast
qed

section \<open>Types\<close>

fun type_names_in_type :: "ITy \<Rightarrow> string list" where
  "type_names_in_type (ITy_Enum ns nm orig) = [nm]"
| "type_names_in_type (ITy_Record ns nm orig) = [nm]"
| "type_names_in_type (ITy_Box t) = type_names_in_type t"
| "type_names_in_type (ITy_Optional t) = type_names_in_type t"
| "type_names_in_type (ITy_Sequence t) = type_names_in_type t"
| "type_names_in_type (ITy_Set t) = type_names_in_type t"
| "type_names_in_type (ITy_Map k v) = type_names_in_type k @ type_names_in_type v"
| "type_names_in_type _ = []"

definition fields_names :: "Field list \<Rightarrow> string list" where
  "fields_names fs = remdups (concat (map (\<lambda>f. type_names_in_type (tn_ty (fi_ty f))) fs))"

fun graph_entry :: "TypeDefinition \<Rightarrow> (string \<times> string list) option" where
  "graph_entry (TypeDefinition_Enum e) = Some (en_name e, fields_names (concat (map va_fields (en_variants e))))"
| "graph_entry (TypeDefinition_Record r) = Some (re_name r, fields_names (re_fields r))"
| "graph_entry _ = None"

definition type_dep_graph :: "TypeDefinition list \<Rightarrow> string graph" where
  "type_dep_graph type_defs =
     fold (\<lambda>(k, v) m. index_insert m k v) (List.map_filter graph_entry type_defs) []"

definition mark_recursive :: "string set \<Rightarrow> TypeDefinition \<Rightarrow> TypeDefinition" where
  "mark_recursive recursive td =
     (case td of
        TypeDefinition_Enum e \<Rightarrow>
          if en_name e \<in> recursive then TypeDefinition_Enum (e\<lparr>en_recursive := True\<rparr>) else td
      | TypeDefinition_Record r \<Rightarrow>
          if re_name r \<in> recursive then TypeDefinition_Record (r\<lparr>re_recursive := True\<rparr>) else td
      | _ \<Rightarrow> td)"

definition infer_recursive_types :: "TypeDefinition list \<Rightarrow> TypeDefinition list" where
  "infer_recursive_types type_defs =
     map (mark_recursive (find_recursive_enum_names (type_dep_graph type_defs))) type_defs"

fun marked :: "TypeDefinition \<Rightarrow> bool" where
  "marked (TypeDefinition_Enum e) = en_recursive e"
| "marked (TypeDefinition_Record r) = re_recursive r"
| "marked _ = False"

fun node_name :: "TypeDefinition \<Rightarrow> string option" where
  "node_name (TypeDefinition_Enum e) = Some (en_name e)"
| "node_name (TypeDefinition_Record r) = Some (re_name r)"
| "node_name _ = None"

lemma node_name_mark [simp]: "node_name (mark_recursive recursive td) = node_name td"
  by (simp add: mark_recursive_def split: TypeDefinition.split)

lemma marked_mark:
  "marked (mark_recursive recursive td) \<longleftrightarrow> marked td \<or> (\<exists>nm \<in> recursive. node_name td = Some nm)"
  by (cases td) (auto simp: mark_recursive_def)

lemma keys_type_dep_graph: "fst ` set (type_dep_graph defs) = {nm. \<exists>td \<in> set defs. node_name td = Some nm}"
proof -
  have keys: "fst ` set (fold (\<lambda>(k, v) m. index_insert m k v) kvs m) = fst ` set m \<union> fst ` set kvs"
    for kvs and m :: "string graph"
    by (induction kvs arbitrary: m) (simp_all add: keys_index_insert split_beta)
  have "fst ` set (List.map_filter graph_entry defs) = {nm. \<exists>td \<in> set defs. node_name td = Some nm}"
  proof (induction defs)
    case (Cons td defs)
    then show ?case by (cases td) (auto simp: map_filter_simps)
  qed (simp add: map_filter_simps)
  then show ?thesis by (simp add: type_dep_graph_def keys)
qed

section \<open>Properties\<close>

text \<open>C32: recursion is inferred soundly, and no cycle escapes whole.  A definition is marked only if its
  type contains itself through the fields of enums and records -- in an interface without such a cycle nothing is
  marked -- and of any names each of which contains another one of them, at least one is marked.  (Not all: see
  \<open>recursion_depends_on_order\<close>.)  A type is known by its name here, as in the code; of two definitions with one name the last counts.\<close>

theorem recursive_types_inferred:
  assumes "\<forall>td \<in> set defs. \<not> marked td"
  shows "(\<forall>td \<in> set (infer_recursive_types defs). marked td \<longrightarrow>
      (\<exists>nm. node_name td = Some nm \<and> (nm, nm) \<in> (edges (type_dep_graph defs))\<^sup>+)) \<and>
    (\<forall>C. C \<noteq> {} \<longrightarrow> (\<forall>x \<in> C. \<exists>y \<in> C. (x, y) \<in> edges (type_dep_graph defs)) \<longrightarrow>
      (\<exists>td \<in> set (infer_recursive_types defs). marked td \<and> (\<exists>nm \<in> C. node_name td = Some nm)))"
proof (intro conjI allI impI)
  show "\<forall>td \<in> set (infer_recursive_types defs). marked td \<longrightarrow>
      (\<exists>nm. node_name td = Some nm \<and> (nm, nm) \<in> (edges (type_dep_graph defs))\<^sup>+)"
    using assms find_recursive_run(3) [of "type_dep_graph defs"]
    by (auto simp: infer_recursive_types_def marked_mark on_cycle_def)
  fix C assume C: "C \<noteq> {}" "\<forall>x \<in> C. \<exists>y \<in> C. (x, y) \<in> edges (type_dep_graph defs)"
  from find_recursive_hits [OF this] obtain nm where
    nm: "nm \<in> C" "nm \<in> find_recursive_enum_names (type_dep_graph defs)" by blast
  with C(2) edges_key have "nm \<in> fst ` set (type_dep_graph defs)" by metis
  then obtain td where "td \<in> set defs" "node_name td = Some nm" by (auto simp: keys_type_dep_graph)
  with nm show "\<exists>td \<in> set (infer_recursive_types defs). marked td \<and> (\<exists>nm \<in> C. node_name td = Some nm)"
    by (auto simp: infer_recursive_types_def marked_mark)
qed

text \<open>A record with one field.\<close>

definition example_record :: "string \<Rightarrow> ITy \<Rightarrow> TypeDefinition" where
  "example_record nm field = TypeDefinition_Record
     \<lparr>re_fields_kind = FieldsKind_Named, re_self_type = example_node (ITy_Record ''ns'' nm nm),
      re_module_path = ''m'', re_orig_name = nm, re_name = nm, re_uniffi_trait_methods = no_trait_methods,
      re_fields = [\<lparr>fi_orig_name = ''f'', fi_name = ''f'', fi_ty = example_node field, fi_default = None,
        fi_docstring = None\<rparr>],
      re_constructors = [], re_methods = [], re_docstring = None, re_recursive = False\<rparr>"

theorem recursive_types_inferred_witness:
  "\<exists>td \<in> set (infer_recursive_types [example_record ''Rose'' (ITy_Sequence (ITy_Record ''ns'' ''Rose'' ''Rose''))]).
     marked td \<and> node_name td = Some ''Rose''"
proof -
  let ?defs = "[example_record ''Rose'' (ITy_Sequence (ITy_Record ''ns'' ''Rose'' ''Rose''))]"
  have "edges (type_dep_graph ?defs) = {(''Rose'', ''Rose'')}"
    by (auto simp: edges_def type_dep_graph_def map_filter_def example_record_def fields_names_def example_node_def
        split: if_splits)
  then have "\<forall>x \<in> {''Rose''}. \<exists>y \<in> {''Rose''}. (x, y) \<in> edges (type_dep_graph ?defs)" by simp
  moreover have "\<forall>td \<in> set ?defs. \<not> marked td" by (simp add: example_record_def)
  ultimately show ?thesis using recursive_types_inferred [of ?defs] by blast
qed

text \<open>Which types are marked depends on the order in which the hash map and the hash sets are
  iterated.  In the graph where \<open>A\<close> contains \<open>B\<close> and \<open>C\<close>, \<open>B\<close> contains \<open>A\<close> and \<open>C\<close> contains \<open>B\<close>, all three lie
  on a cycle; \<open>C\<close> is found when it is visited before \<open>B\<close>, and missed when it is visited after it.\<close>

lemma recursion_depends_on_order:
  "find_recursive_enum_names [(''A'', [''C'', ''B'']), (''B'', [''A'']), (''C'', [''B''])] = {''A'', ''B'', ''C''} \<and>
   find_recursive_enum_names [(''A'', [''B'', ''C'']), (''B'', [''A'']), (''C'', [''B''])] = {''A'', ''B''} \<and>
   (''C'', ''C'') \<in> (edges [(''A'', [''B'', ''C'']), (''B'', [''A'']), (''C'', [''B''])])\<^sup>+"
proof (intro conjI)
  show "find_recursive_enum_names [(''A'', [''C'', ''B'']), (''B'', [''A'']), (''C'', [''B''])] = {''A'', ''B'', ''C''}"
    by (simp add: find_recursive_enum_names_def search_all_def from_position_def Let_def insert_commute)
  show "find_recursive_enum_names [(''A'', [''B'', ''C'']), (''B'', [''A'']), (''C'', [''B''])] = {''A'', ''B''}"
    by (simp add: find_recursive_enum_names_def search_all_def from_position_def Let_def insert_commute)
  let ?e = "edges [(''A'', [''B'', ''C'']), (''B'', [''A'']), (''C'', [''B''])]"
  have "(''C'', ''B'') \<in> ?e" "(''B'', ''A'') \<in> ?e" "(''A'', ''C'') \<in> ?e" by (simp_all add: edges_def)
  then show "(''C'', ''C'') \<in> ?e\<^sup>+" by (meson trancl.r_into_trancl trancl.trancl_into_trancl)
qed

end
