(* ===== verification/GeneralMap.thy ===== *)
theory GeneralMap
  imports Discriminants FfiDefs RecursiveTypes
begin

text \<open>
  The pass from the initial IR to the general IR (\<open>uniffi_bindgen/src/pipeline/general\<close>): \<open>callable.rs\<close>,
  \<open>records.rs\<close>, the mapping functions of \<open>enums.rs\<close>, \<open>objects.rs\<close>, \<open>callback_interfaces.rs\<close> and
  \<open>uniffi_traits.rs\<close>, the \<open>MapNode\<close> implementations derived from the attributes of \<open>nodes.rs\<close>,
  \<open>type_definitions_from_api.rs\<close>, \<open>namespaces.rs\<close> and \<open>root.rs\<close>.  The fields of a node are computed in
  the order of their declaration, which decides the error that is reported.
\<close>

section \<open>Callables\<close>

definition map_arg ::
  "(string \<Rightarrow> Context \<Rightarrow> PipelineError + string) \<Rightarrow> Context \<Rightarrow> IArgument \<Rightarrow> PipelineError + Argument" where
  "map_arg rename context a =
     (let cx = update_from_arg_type (iar_ty a) context in
      ebind (rename (iar_name a) cx) (\<lambda>nm. ebind (map_type_node cx (iar_ty a)) (\<lambda>ty.
      ebind (eoption (map_default_value cx) (iar_default a)) (\<lambda>default. Inr
        \<lparr>arg_name = nm, arg_orig_name = iar_name a, arg_ty = ty, arg_by_ref = iar_by_ref a,
         arg_optional = iar_optional a, arg_default = default\<rparr>))))"

definition map_func_args :: "IArgument list \<Rightarrow> string \<Rightarrow> Context \<Rightarrow> PipelineError + Argument list" where
  "map_func_args inputs fn_nm cx = emap (map_arg (\<lambda>nm. rename_func_arg nm fn_nm) cx) inputs"

definition map_method_args :: "IArgument list \<Rightarrow> string \<Rightarrow> Context \<Rightarrow> PipelineError + Argument list" where
  "map_method_args inputs fn_nm cx = emap (map_arg (\<lambda>nm. rename_method_arg nm fn_nm) cx) inputs"

definition map_type_nodes :: "Context \<Rightarrow> ITy option \<Rightarrow> PipelineError + TypeNode option" where
  "map_type_nodes cx t = eoption (map_type_node cx) t"

definition function_callable :: "(string \<Rightarrow> string) \<Rightarrow> IFunction \<Rightarrow> Context \<Rightarrow> PipelineError + Callable" where
  "function_callable upper_camel f cx =
     ebind (map_func_args (ifu_inputs f) (ifu_name f) cx) (\<lambda>arguments.
     ebind (rename_func (ifu_name f) cx) (\<lambda>nm.
     ebind (function_async_data upper_camel f cx) (\<lambda>ad.
     ebind (map_type_nodes cx (ifu_return_type f)) (\<lambda>ret.
     ebind (map_type_nodes cx (ifu_throws f)) (\<lambda>throws.
     ebind (context_crate_name cx) (\<lambda>crate. Inr
       \<lparr>ca_id = ifu_id f, ca_name = nm, ca_orig_name = ifu_orig_name f, ca_async_data = ad,
        ca_kind = CallableKind_Function, ca_arguments = arguments, ca_return_type = ret,
        ca_throws_type = throws, ca_checksum = ifu_checksum f,
        ca_ffi_func = fn_symbol_name crate (ifu_name f)\<rparr>))))))"

definition method_callable_with_kind ::
  "(string \<Rightarrow> string) \<Rightarrow> IMethod \<Rightarrow> CallableKind \<Rightarrow> Context \<Rightarrow> PipelineError + Callable" where
  "method_callable_with_kind upper_camel m kind cx =
     ebind (context_crate_name cx) (\<lambda>crate. ebind (current_type_name cx) (\<lambda>type_nm.
     ebind (map_method_args (ime_inputs m) (ime_name m) cx) (\<lambda>arguments.
     ebind (rename_method (ime_name m) cx) (\<lambda>nm.
     ebind (map_type_nodes cx (ime_return_type m)) (\<lambda>ret.
     ebind (map_type_nodes cx (ime_throws m)) (\<lambda>throws.
     ebind (method_async_data upper_camel m cx) (\<lambda>ad. Inr
       \<lparr>ca_id = ime_id m, ca_name = nm, ca_orig_name = ime_orig_name m, ca_async_data = ad, ca_kind = kind,
        ca_arguments = arguments, ca_return_type = ret, ca_throws_type = throws,
        ca_checksum = ime_checksum m,
        ca_ffi_func = method_symbol_name crate type_nm (ime_name m)\<rparr>)))))))"

definition method_callable :: "(string \<Rightarrow> string) \<Rightarrow> IMethod \<Rightarrow> Context \<Rightarrow> PipelineError + Callable" where
  "method_callable upper_camel m cx =
     ebind (context_self_type cx) (\<lambda>self_ty.
       method_callable_with_kind upper_camel m (CallableKind_Method self_ty (ime_takes_self_by_arc m)) cx)"

definition constructor_callable :: "(string \<Rightarrow> string) \<Rightarrow> Context \<Rightarrow> IConstructor \<Rightarrow> PipelineError + Callable" where
  "constructor_callable upper_camel cx c =
     ebind (context_self_type cx) (\<lambda>self_ty.
     ebind (context_crate_name cx) (\<lambda>crate. ebind (current_type_name cx) (\<lambda>type_nm.
     ebind (case tn_ty self_ty of
         ITy_Interface ns nm orig imp \<Rightarrow> Inr (nm, imp)
       | _ \<Rightarrow> Inl (Err_constructor_self_type self_ty)) (\<lambda>(interface_name, imp).
     ebind (map_method_args (ico_inputs c) (ico_name c) cx) (\<lambda>arguments.
     ebind (rename_method (ico_name c) cx) (\<lambda>nm.
     ebind (constructor_async_data upper_camel c interface_name imp cx) (\<lambda>ad.
     ebind (map_type_nodes cx (ico_throws c)) (\<lambda>throws. Inr
       \<lparr>ca_id = ico_id c, ca_name = nm, ca_orig_name = ico_orig_name c, ca_async_data = ad,
        ca_kind = CallableKind_Constructor self_ty (ico_name c = ''new''), ca_arguments = arguments,
        ca_return_type = Some self_ty, ca_throws_type = throws, ca_checksum = ico_checksum c,
        ca_ffi_func = constructor_symbol_name crate type_nm (ico_name c)\<rparr>))))))))"

definition map_function :: "(string \<Rightarrow> string) \<Rightarrow> Context \<Rightarrow> IFunction \<Rightarrow> PipelineError + Function" where
  "map_function upper_camel cx f =
     ebind (function_callable upper_camel f cx) (\<lambda>callable. Inr
       \<lparr>fu_callable = callable, fu_module_path = ifu_module_path f, fu_docstring = ifu_docstring f\<rparr>)"

definition map_method :: "(string \<Rightarrow> string) \<Rightarrow> Context \<Rightarrow> IMethod \<Rightarrow> PipelineError + Method" where
  "map_method upper_camel cx m =
     ebind (method_callable upper_camel m cx) (\<lambda>callable. Inr
       \<lparr>me_callable = callable, me_docstring = ime_docstring m\<rparr>)"

definition map_constructor :: "(string \<Rightarrow> string) \<Rightarrow> Context \<Rightarrow> IConstructor \<Rightarrow> PipelineError + Constructor" where
  "map_constructor upper_camel cx c =
     ebind (constructor_callable upper_camel cx c) (\<lambda>callable. Inr
       \<lparr>co_callable = callable, co_docstring = ico_docstring c\<rparr>)"

section \<open>Methods and constructors of a type\<close>

definition map_constructors ::
  "(string \<Rightarrow> string) \<Rightarrow> IConstructor list \<Rightarrow> Context \<Rightarrow> PipelineError + Constructor list" where
  "map_constructors upper_camel constructors cx =
     efilter_map (\<lambda>c. should_exclude_method (ico_name c) cx) (map_constructor upper_camel cx) constructors"

definition methods_with_kind ::
  "(string \<Rightarrow> string) \<Rightarrow> IMethod list \<Rightarrow> Context \<Rightarrow> (IMethod \<Rightarrow> CallableKind) \<Rightarrow> PipelineError + Method list" where
  "methods_with_kind upper_camel methods cx create_kind =
     efilter_map (\<lambda>m. should_exclude_method (ime_name m) cx)
       (\<lambda>m. ebind (method_callable_with_kind upper_camel m (create_kind m) cx) (\<lambda>callable. Inr
          \<lparr>me_callable = callable, me_docstring = ime_docstring m\<rparr>)) methods"

text \<open>\<open>methods\<close> and \<open>interface_methods\<close>, which are the same, and \<open>callback_interface_methods\<close>.\<close>

definition map_methods :: "(string \<Rightarrow> string) \<Rightarrow> IMethod list \<Rightarrow> Context \<Rightarrow> PipelineError + Method list" where
  "map_methods upper_camel methods cx =
     ebind (context_self_type cx) (\<lambda>self_ty. methods_with_kind upper_camel methods cx
       (\<lambda>m. CallableKind_Method self_ty (ime_takes_self_by_arc m)))"

definition callback_interface_methods ::
  "(string \<Rightarrow> string) \<Rightarrow> IMethod list \<Rightarrow> Context \<Rightarrow> PipelineError + Method list" where
  "callback_interface_methods upper_camel methods cx =
     ebind (context_self_type cx) (\<lambda>self_ty. methods_with_kind upper_camel methods cx
       (\<lambda>m. CallableKind_VTableMethod self_ty (ime_takes_self_by_arc m) True))"

definition vtable :: "(string \<Rightarrow> string) \<Rightarrow> IMethod list \<Rightarrow> Context \<Rightarrow> PipelineError + VTable" where
  "vtable upper_camel methods cx =
     ebind (context_crate_name cx) (\<lambda>crate. ebind (namespace_name cx) (\<lambda>ns.
     ebind (current_type_name cx) (\<lambda>interface_name.
     ebind (emap (\<lambda>(i, m). ebind (context_self_type cx) (\<lambda>self_ty.
         ebind (method_callable_with_kind upper_camel m
           (CallableKind_VTableMethod self_ty (ime_takes_self_by_arc m) True) cx) (\<lambda>callable. Inr
           \<lparr>vm_callable = callable,
            vm_ffi_type = FfiType_Function (vtable_method_name upper_camel ns interface_name i)\<rparr>)))
       (List.enumerate 0 methods)) (\<lambda>vms. Inr
       \<lparr>vt_struct_type = vtable_struct_type upper_camel ns interface_name,
        vt_interface_name = interface_name,
        vt_init_fn = init_callback_vtable_fn_symbol_name crate interface_name,
        vt_clone_fn_type = vtable_clone_name upper_camel ns interface_name,
        vt_free_fn_type = vtable_free_name upper_camel ns interface_name,
        vt_methods = vms\<rparr>))))"

definition vtable_for_interface :: "(string \<Rightarrow> string) \<Rightarrow> IInterface \<Rightarrow> Context \<Rightarrow> PipelineError + VTable option" where
  "vtable_for_interface upper_camel i cx =
     (if has_callback_interface (iin_imp i) then
        ebind (vtable upper_camel (iin_methods i) cx) (\<lambda>v. Inr (Some v))
      else Inr None)"

fun map_trait ::
  "(string \<Rightarrow> string) \<Rightarrow> Context \<Rightarrow> IUniffiTrait \<Rightarrow> UniffiTraitMethods \<Rightarrow> PipelineError + UniffiTraitMethods" where
  "map_trait upper_camel cx (IUniffiTrait_Debug fmt) dest =
     ebind (map_method upper_camel cx fmt) (\<lambda>m. Inr (dest\<lparr>ut_debug_fmt := Some m\<rparr>))"
| "map_trait upper_camel cx (IUniffiTrait_Display fmt) dest =
     ebind (map_method upper_camel cx fmt) (\<lambda>m. Inr (dest\<lparr>ut_display_fmt := Some m\<rparr>))"
| "map_trait upper_camel cx (IUniffiTrait_Eq eq ne) dest =
     ebind (map_method upper_camel cx eq) (\<lambda>m. ebind (map_method upper_camel cx ne) (\<lambda>m'.
       Inr (dest\<lparr>ut_eq_eq := Some m, ut_eq_ne := Some m'\<rparr>)))"
| "map_trait upper_camel cx (IUniffiTrait_Hash hash) dest =
     ebind (map_method upper_camel cx hash) (\<lambda>m. Inr (dest\<lparr>ut_hash_hash := Some m\<rparr>))"
| "map_trait upper_camel cx (IUniffiTrait_Ord cmp) dest =
     ebind (map_method upper_camel cx cmp) (\<lambda>m. Inr (dest\<lparr>ut_ord_cmp := Some m\<rparr>))"

definition map_trait_vec ::
  "(string \<Rightarrow> string) \<Rightarrow> IUniffiTrait list \<Rightarrow> Context \<Rightarrow> PipelineError + UniffiTraitMethods" where
  "map_trait_vec upper_camel traits cx = efold (map_trait upper_camel cx) traits no_trait_methods"

section \<open>Type definitions\<close>

definition fields_kind :: "IField list \<Rightarrow> FieldsKind" where
  "fields_kind fs =
     (if fs = [] then FieldsKind_Unit
      else if list_ex (\<lambda>f. ifi_name f = '''') fs then FieldsKind_Unnamed
      else FieldsKind_Named)"

definition map_field :: "Context \<Rightarrow> IField \<Rightarrow> PipelineError + Field" where
  "map_field context f =
     (let cx = update_from_arg_type (ifi_ty f) context in
      ebind (rename_field (ifi_name f) cx) (\<lambda>nm. ebind (map_type_node cx (ifi_ty f)) (\<lambda>ty.
      ebind (eoption (map_default_value cx) (ifi_default f)) (\<lambda>default. Inr
        \<lparr>fi_orig_name = ifi_orig_name f, fi_name = nm, fi_ty = ty, fi_default = default,
         fi_docstring = ifi_docstring f\<rparr>))))"

definition map_record :: "(string \<Rightarrow> string) \<Rightarrow> Context \<Rightarrow> IRecord \<Rightarrow> PipelineError + Record" where
  "map_record upper_camel context r =
     ebind (update_type (type_for_record r context) context) (\<lambda>cx.
     ebind (context_self_type cx) (\<lambda>self_ty.
     ebind (ebind (namespace_name cx) (\<lambda>ns. rename_type ns (ire_name r) cx)) (\<lambda>nm.
     ebind (map_trait_vec upper_camel (ire_uniffi_traits r) cx) (\<lambda>traits.
     ebind (emap (map_field cx) (ire_fields r)) (\<lambda>fields.
     ebind (map_constructors upper_camel (ire_constructors r) cx) (\<lambda>constructors.
     ebind (map_methods upper_camel (ire_methods r) cx) (\<lambda>methods. Inr
       \<lparr>re_fields_kind = fields_kind (ire_fields r), re_self_type = self_ty,
        re_module_path = ire_module_path r, re_orig_name = ire_orig_name r, re_name = nm,
        re_uniffi_trait_methods = traits, re_fields = fields, re_constructors = constructors,
        re_methods = methods, re_docstring = ire_docstring r, re_recursive = False\<rparr>)))))))"

definition map_variants :: "ITy option \<Rightarrow> IVariant list \<Rightarrow> Context \<Rightarrow> PipelineError + Variant list" where
  "map_variants discr_type variants context =
     ebind (determine_discriminants discr_type variants context) (\<lambda>info.
       if length (di_variant_discrs info) \<noteq> length variants then Inl Err_discr_length
       else emap (\<lambda>(v, discr).
         let cx = update_from_variant v context in
         ebind (rename_variant (iva_name v) cx) (\<lambda>nm. ebind (emap (map_field cx) (iva_fields v)) (\<lambda>fields. Inr
           \<lparr>va_name = nm, va_orig_name = iva_orig_name v, va_discr = discr,
            va_fields_kind = fields_kind (iva_fields v), va_fields = fields,
            va_docstring = iva_docstring v\<rparr>)))
         (zip variants (di_variant_discrs info)))"

definition map_enum :: "(string \<Rightarrow> string) \<Rightarrow> Context \<Rightarrow> IEnum \<Rightarrow> PipelineError + Enum" where
  "map_enum upper_camel context e =
     ebind (update_type (type_for_enum e context) context) (\<lambda>cx.
     ebind (context_self_type cx) (\<lambda>self_ty.
     ebind (enum_discr_type e cx) (\<lambda>discr_ty.
     ebind (map_variants (ien_discr_type e) (ien_variants e) cx) (\<lambda>variants.
     ebind (ebind (namespace_name cx) (\<lambda>ns. rename_type ns (ien_name e) cx)) (\<lambda>nm.
     ebind (map_trait_vec upper_camel (ien_uniffi_traits e) cx) (\<lambda>traits.
     ebind (map_constructors upper_camel (ien_constructors e) cx) (\<lambda>constructors.
     ebind (map_methods upper_camel (ien_methods e) cx) (\<lambda>methods. Inr
       \<lparr>en_is_flat = is_flat e, en_self_type = self_ty, en_discr_specified = (ien_discr_type e \<noteq> None),
        en_discr_type = discr_ty, en_variants = variants, en_module_path = ien_module_path e,
        en_orig_name = ien_orig_name e, en_name = nm, en_uniffi_trait_methods = traits,
        en_shape = ien_shape e, en_constructors = constructors, en_methods = methods,
        en_docstring = ien_docstring e, en_recursive = False\<rparr>))))))))"

definition map_trait_impl :: "Context \<Rightarrow> IObjectTraitImpl \<Rightarrow> PipelineError + ObjectTraitImpl" where
  "map_trait_impl cx t =
     ebind (map_type_node cx (iot_ty t)) (\<lambda>ty. ebind (map_type_node cx (iot_trait_ty t)) (\<lambda>trait_ty. Inr
       \<lparr>gti_ty = ty, gti_trait_ty = trait_ty\<rparr>))"

definition map_interface :: "(string \<Rightarrow> string) \<Rightarrow> Context \<Rightarrow> IInterface \<Rightarrow> PipelineError + Interface" where
  "map_interface upper_camel context i =
     ebind (update_type (type_for_interface i context) context) (\<lambda>cx.
     ebind (vtable_for_interface upper_camel i cx) (\<lambda>vt.
     ebind (context_self_type cx) (\<lambda>self_ty.
     ebind (ffi_clone_name (iin_name i) cx) (\<lambda>clone_nm.
     ebind (ffi_free_name (iin_name i) cx) (\<lambda>free_nm.
     ebind (ebind (namespace_name cx) (\<lambda>ns. rename_type ns (iin_name i) cx)) (\<lambda>nm.
     ebind (map_trait_vec upper_camel (iin_uniffi_traits i) cx) (\<lambda>traits.
     ebind (map_constructors upper_camel (iin_constructors i) cx) (\<lambda>constructors.
     ebind (map_methods upper_camel (iin_methods i) cx) (\<lambda>methods.
     ebind (emap (map_trait_impl cx) (iin_trait_impls i)) (\<lambda>trait_impls. Inr
       \<lparr>in_vtable = vt, in_self_type = self_ty, in_ffi_func_clone = clone_nm, in_ffi_func_free = free_nm,
        in_module_path = iin_module_path i, in_orig_name = iin_orig_name i, in_name = nm,
        in_uniffi_trait_methods = traits, in_docstring = iin_docstring i, in_constructors = constructors,
        in_methods = methods, in_trait_impls = trait_impls, in_imp = iin_imp i\<rparr>))))))))))"

definition map_callback_interface ::
  "(string \<Rightarrow> string) \<Rightarrow> Context \<Rightarrow> ICallbackInterface \<Rightarrow> PipelineError + CallbackInterface" where
  "map_callback_interface upper_camel context c =
     ebind (update_type (type_for_callback_interface c context) context) (\<lambda>cx.
     ebind (vtable upper_camel (icb_methods c) cx) (\<lambda>vt.
     ebind (context_self_type cx) (\<lambda>self_ty.
     ebind (ebind (namespace_name cx) (\<lambda>ns. rename_type ns (icb_name c) cx)) (\<lambda>nm.
     ebind (callback_interface_methods upper_camel (icb_methods c) cx) (\<lambda>methods. Inr
       \<lparr>ci_vtable = vt, ci_self_type = self_ty, ci_module_path = icb_module_path c,
        ci_orig_name = icb_orig_name c, ci_name = nm, ci_docstring = icb_docstring c,
        ci_methods = methods\<rparr>)))))"

definition map_custom_type :: "Context \<Rightarrow> ICustomType \<Rightarrow> PipelineError + CustomType" where
  "map_custom_type context c =
     ebind (update_type (type_for_custom_type c context) context) (\<lambda>cx.
     ebind (context_self_type cx) (\<lambda>self_ty.
     ebind (ebind (namespace_name cx) (\<lambda>ns. rename_type ns (icu_name c) cx)) (\<lambda>nm.
     ebind (map_type_node cx (icu_builtin c)) (\<lambda>builtin. Inr
       \<lparr>cu_self_type = self_ty, cu_module_path = icu_module_path c, cu_orig_name = icu_orig_name c,
        cu_name = nm, cu_builtin = builtin, cu_docstring = icu_docstring c\<rparr>))))"

fun map_type_definition ::
  "(string \<Rightarrow> string) \<Rightarrow> Context \<Rightarrow> ITypeDefinition \<Rightarrow> PipelineError + TypeDefinition" where
  "map_type_definition upper_camel cx (ITypeDefinition_Interface i) =
     ebind (map_interface upper_camel cx i) (\<lambda>x. Inr (TypeDefinition_Interface x))"
| "map_type_definition upper_camel cx (ITypeDefinition_CallbackInterface c) =
     ebind (map_callback_interface upper_camel cx c) (\<lambda>x. Inr (TypeDefinition_CallbackInterface x))"
| "map_type_definition upper_camel cx (ITypeDefinition_Record r) =
     ebind (map_record upper_camel cx r) (\<lambda>x. Inr (TypeDefinition_Record x))"
| "map_type_definition upper_camel cx (ITypeDefinition_Enum e) =
     ebind (map_enum upper_camel cx e) (\<lambda>x. Inr (TypeDefinition_Enum x))"
| "map_type_definition upper_camel cx (ITypeDefinition_Custom c) =
     ebind (map_custom_type cx c) (\<lambda>x. Inr (TypeDefinition_Custom x))"

section \<open>Types used by the API (\<open>type_definitions_from_api.rs\<close>)\<close>

text \<open>An \<open>IndexSet\<close> keeps the first of equal elements.\<close>

definition index_set :: "'a list \<Rightarrow> 'a list" where
  "index_set xs = rev (remdups (rev xs))"

lemma set_index_set [simp]: "set (index_set xs) = set xs"
  by (simp add: index_set_def)

definition inner_definition ::
  "(InnerType \<Rightarrow> TypeDefinition) \<Rightarrow> Context \<Rightarrow> ITy \<Rightarrow> TypeNode \<Rightarrow> PipelineError + TypeDefinition list" where
  "inner_definition constr cx t self_ty =
     ebind (map_type_node cx t) (\<lambda>inner. Inr [constr \<lparr>it_inner = inner, it_self_type = self_ty\<rparr>])"

definition external_definition :: "string \<Rightarrow> string \<Rightarrow> string \<Rightarrow> TypeNode \<Rightarrow> TypeDefinition list" where
  "external_definition current ns nm self_ty =
     (if ns \<noteq> current then [TypeDefinition_External \<lparr>ex_namespace = ns, ex_name = nm, ex_self_type = self_ty\<rparr>]
      else [])"

fun definition_of_type :: "string \<Rightarrow> Context \<Rightarrow> TypeNode \<Rightarrow> ITy \<Rightarrow> PipelineError + TypeDefinition list" where
  "definition_of_type current cx self_ty (ITy_Box t) = inner_definition TypeDefinition_Box cx t self_ty"
| "definition_of_type current cx self_ty (ITy_Optional t) = inner_definition TypeDefinition_Optional cx t self_ty"
| "definition_of_type current cx self_ty (ITy_Sequence t) = inner_definition TypeDefinition_Sequence cx t self_ty"
| "definition_of_type current cx self_ty (ITy_Set t) = inner_definition TypeDefinition_Set cx t self_ty"
| "definition_of_type current cx self_ty (ITy_Map k v) =
     ebind (map_type_node cx k) (\<lambda>key. ebind (map_type_node cx v) (\<lambda>val.
       Inr [TypeDefinition_Map \<lparr>mt_key = key, mt_value = val, mt_self_type = self_ty\<rparr>]))"
| "definition_of_type current cx self_ty (ITy_Record ns nm orig) = Inr (external_definition current ns nm self_ty)"
| "definition_of_type current cx self_ty (ITy_Enum ns nm orig) = Inr (external_definition current ns nm self_ty)"
| "definition_of_type current cx self_ty (ITy_Interface ns nm orig imp) =
     Inr (external_definition current ns nm self_ty)"
| "definition_of_type current cx self_ty (ITy_Custom ns nm orig builtin) =
     Inr (external_definition current ns nm self_ty)"
| "definition_of_type current cx self_ty (ITy_CallbackInterface ns nm orig) = Inr []"
| "definition_of_type current cx self_ty t = ebind (map_type_node cx t) (\<lambda>n. Inr [TypeDefinition_Simple n])"

definition api_type_definitions :: "INamespace \<Rightarrow> Context \<Rightarrow> PipelineError + TypeDefinition list" where
  "api_type_definitions ns cx =
     ebind (emap (\<lambda>t. ebind (map_type_node cx t) (\<lambda>self_ty. definition_of_type (ins_name ns) cx self_ty t))
       (index_set (ITy_String # namespace_types ns))) (\<lambda>defs. Inr (concat defs))"

section \<open>Namespaces and the root\<close>

record Namespace =
  gn_name :: string
  gn_crate_name :: string
  gn_config_toml :: "string option"
  gn_docstring :: "string option"
  gn_functions :: "Function list"
  gn_type_definitions :: "TypeDefinition list"
  gn_ffi_definitions :: "FfiDefinition list"
  gn_checksums :: "Checksum list"
  gn_ffi_rustbuffer_alloc :: RustFfiFunctionName
  gn_ffi_rustbuffer_from_bytes :: RustFfiFunctionName
  gn_ffi_rustbuffer_free :: RustFfiFunctionName
  gn_ffi_rustbuffer_reserve :: RustFfiFunctionName
  gn_ffi_uniffi_contract_version :: RustFfiFunctionName
  gn_correct_contract_version :: string

definition UNIFFI_CONTRACT_VERSION :: nat where "UNIFFI_CONTRACT_VERSION = 30"

definition unsorted_ffi_defs ::
  "(string \<Rightarrow> string) \<Rightarrow> INamespace \<Rightarrow> Context \<Rightarrow> PipelineError + FfiDefinition list" where
  "unsorted_ffi_defs upper_camel ns cx =
     ebind (rust_buffer_defs cx) (\<lambda>buffers.
     ebind (ffi_function_defs upper_camel ns cx) (\<lambda>functions.
     ebind (object_defs ns cx) (\<lambda>objects.
     ebind (callback_interface_defs upper_camel ns cx) (\<lambda>callbacks.
     Inr (buffers @ checksum_defs ns @ functions @ objects @ callbacks @ rust_future_defs ns)))))"

definition namespace_type_definitions ::
  "(string \<Rightarrow> string) \<Rightarrow> INamespace \<Rightarrow> Context \<Rightarrow> PipelineError + TypeDefinition list" where
  "namespace_type_definitions upper_camel ns cx =
     ebind (efilter_map (\<lambda>td. should_exclude_toplevel_item (i_definition_name td) cx)
       (map_type_definition upper_camel cx) (ins_type_definitions ns)) (\<lambda>own.
     ebind (api_type_definitions ns cx) (\<lambda>api.
     Inr (sort_type_definitions (infer_recursive_types (own @ api)))))"

definition map_namespace :: "(string \<Rightarrow> string) \<Rightarrow> INamespace \<Rightarrow> Context \<Rightarrow> PipelineError + Namespace" where
  "map_namespace upper_camel ns context =
     ebind (update_from_namespace ns context) (\<lambda>cx.
     ebind (unsorted_ffi_defs upper_camel ns cx) (\<lambda>ffi_defs.
     ebind (namespace_type_definitions upper_camel ns cx) (\<lambda>type_defs.
     ebind (rustbuffer_fn_name ''alloc'' cx) (\<lambda>alloc_nm.
     ebind (rustbuffer_fn_name ''from_bytes'' cx) (\<lambda>from_bytes_nm.
     ebind (rustbuffer_fn_name ''free'' cx) (\<lambda>free_nm.
     ebind (rustbuffer_fn_name ''reserve'' cx) (\<lambda>reserve_nm.
     ebind (efilter_map (\<lambda>f. should_exclude_toplevel_item (ifu_name f) cx) (map_function upper_camel cx)
       (ins_functions ns)) (\<lambda>functions. Inr
       \<lparr>gn_name = ins_name ns, gn_crate_name = ins_crate_name ns, gn_config_toml = ins_config_toml ns,
        gn_docstring = ins_docstring ns, gn_functions = functions, gn_type_definitions = type_defs,
        gn_ffi_definitions = index_set (sort_ffi_definitions ffi_defs), gn_checksums = checksums ns,
        gn_ffi_rustbuffer_alloc = alloc_nm, gn_ffi_rustbuffer_from_bytes = from_bytes_nm,
        gn_ffi_rustbuffer_free = free_nm, gn_ffi_rustbuffer_reserve = reserve_nm,
        gn_ffi_uniffi_contract_version = ffi_uniffi_contract_version ns,
        gn_correct_contract_version = decimal UNIFFI_CONTRACT_VERSION\<rparr>))))))))"

text \<open>The type nodes of \<open>BuiltinTypes\<close>, in the order in which they are computed.\<close>

record Root =
  gr_cdylib :: "string option"
  gr_namespaces :: "(string \<times> Namespace) list"
  gr_builtin_types :: "TypeNode list"
  gr_checksum_mode :: ChecksumMode

definition builtin_types :: "Context \<Rightarrow> PipelineError + TypeNode list" where
  "builtin_types cx = emap (map_type_node cx)
     [ITy_Int8, ITy_UInt8, ITy_Int16, ITy_UInt16, ITy_Int32, ITy_UInt32, ITy_Int64, ITy_UInt64, ITy_Float32,
      ITy_Float64, ITy_String]"

definition map_root ::
  "(string \<Rightarrow> toml_table option) \<Rightarrow> (string \<Rightarrow> string) \<Rightarrow> IRoot \<Rightarrow> Context \<Rightarrow> PipelineError + Root" where
  "map_root from_str upper_camel input context =
     ebind (update_from_root from_str input context) (\<lambda>cx.
     ebind (emap (\<lambda>(k, ns). ebind (map_namespace upper_camel ns cx) (\<lambda>ns'. Inr (k, ns')))
       (iro_namespaces input)) (\<lambda>namespaces.
     ebind (builtin_types cx) (\<lambda>builtins. Inr
       \<lparr>gr_cdylib = iro_cdylib input, gr_namespaces = namespaces, gr_builtin_types = builtins,
        gr_checksum_mode = iro_checksum_mode input\<rparr>)))"

definition pipeline ::
  "(string \<Rightarrow> toml_table option) \<Rightarrow> (string \<Rightarrow> string) \<Rightarrow> string \<Rightarrow> IRoot \<Rightarrow> PipelineError + Root" where
  "pipeline from_str upper_camel bindings_toml_key root =
     map_root from_str upper_camel root (context_new bindings_toml_key)"

end
