(* ===== verification/FfiClosure.thy ===== *)
theory FfiClosure
  imports GeneralMap
begin

text \<open>
  Referential integrity of the general IR: what refers to an FFI function, function type or struct by
  name finds it among the FFI definitions of the namespace.  The definitions are deduplicated by their
  names alone when they are sorted, so the proof shows that a name determines its kind.
\<close>

section \<open>References\<close>

datatype FfiKind = Kind_RustFunction | Kind_FunctionType | Kind_Struct

fun declares :: "FfiDefinition \<Rightarrow> FfiKind \<times> string" where
  "declares (FfiDefinition_RustFunction f) = (Kind_RustFunction, ffn_name f)"
| "declares (FfiDefinition_FunctionType f) = (Kind_FunctionType, fft_name f)"
| "declares (FfiDefinition_Struct s) = (Kind_Struct, fst_name s)"

fun type_ref :: "FfiType \<Rightarrow> (FfiKind \<times> string) option" where
  "type_ref (FfiType_Function nm) = Some (Kind_FunctionType, nm)"
| "type_ref (FfiType_Struct nm) = Some (Kind_Struct, nm)"
| "type_ref (FfiType_Reference t) = type_ref t"
| "type_ref (FfiType_MutReference t) = type_ref t"
| "type_ref _ = None"

fun ffi_def_types :: "FfiDefinition \<Rightarrow> FfiType list" where
  "ffi_def_types (FfiDefinition_RustFunction f) = map fa_ty (ffn_arguments f) @ option_list (frt_ty (ffn_return_type f))"
| "ffi_def_types (FfiDefinition_FunctionType f) = map fa_ty (fft_arguments f) @ option_list (frt_ty (fft_return_type f))"
| "ffi_def_types (FfiDefinition_Struct s) = map ff_ty (fst_fields s)"

definition type_refs :: "FfiType list \<Rightarrow> (FfiKind \<times> string) set" where
  "type_refs ts = {r. \<exists>t \<in> set ts. type_ref t = Some r}"

definition refs :: "FfiDefinition \<Rightarrow> (FfiKind \<times> string) set" where
  "refs d = type_refs (ffi_def_types d)"

text \<open>What a list of definitions refers to and what it declares.\<close>

definition all_refs :: "FfiDefinition list \<Rightarrow> (FfiKind \<times> string) set" where
  "all_refs defs = (\<Union>d \<in> set defs. refs d)"

definition declared :: "FfiDefinition list \<Rightarrow> (FfiKind \<times> string) set" where
  "declared defs = declares ` set defs"

lemma type_refs_simps [simp]:
  "type_refs [] = {}" "type_refs (t # ts) = set_option (type_ref t) \<union> type_refs ts"
  "type_refs (ts @ us) = type_refs ts \<union> type_refs us"
  by (auto simp: type_refs_def)

lemma all_refs_simps [simp]:
  "all_refs [] = {}" "all_refs (d # ds) = refs d \<union> all_refs ds" "all_refs (ds @ es) = all_refs ds \<union> all_refs es"
  by (auto simp: all_refs_def)

lemma declared_simps [simp]:
  "declared [] = {}" "declared (d # ds) = insert (declares d) (declared ds)"
  "declared (ds @ es) = declared ds \<union> declared es"
  by (auto simp: declared_def)

lemma refs_concat: "all_refs (concat dss) = (\<Union>ds \<in> set dss. all_refs ds)"
  "declared (concat dss) = (\<Union>ds \<in> set dss. declared ds)"
  by (auto simp: all_refs_def declared_def)

lemma ffi_name_declares: "ffi_definition_name d = snd (declares d)"
  by (cases d) simp_all

lemma made_defs [simp]:
  "declares (rust_fn nm args ret status kind) = (Kind_RustFunction, nm)"
  "declares (fn_type nm args ret status) = (Kind_FunctionType, nm)"
  "refs (rust_fn nm args ret status kind) = type_refs (map fa_ty args) \<union> type_refs (option_list ret)"
  "refs (fn_type nm args ret status) = type_refs (map fa_ty args) \<union> type_refs (option_list ret)"
  "refs (FfiDefinition_Struct s) = type_refs (map ff_ty (fst_fields s))"
  "fa_ty (ffi_arg nm t) = t" "ff_ty (ffi_field nm t) = t"
  by (simp_all add: rust_fn_def fn_type_def refs_def ffi_arg_def ffi_field_def)

lemma ffi_type_no_ref: "ffi_type t cx = Inr f \<Longrightarrow> type_ref f = None"
proof (induction t arbitrary: f)
  case (ITy_Custom ns nm orig builtin)
  then obtain g where g: "ffi_type builtin cx = Inr g"
    "(case g of FfiType_RustBuffer None \<Rightarrow> user_buffer ns cx | _ \<Rightarrow> Inr g) = Inr f"
    by (auto simp: ebind_Inr_iff)
  have "type_ref g = None" by (rule ITy_Custom.IH [OF g(1)])
  with g(2) show ?case
    by (auto simp: user_buffer_def ebind_Inr_iff split: FfiType.splits option.splits)
qed (auto simp: user_buffer_def ebind_Inr_iff interface_ffi_type_def handle_type_def)

lemma opt_ffi_type_no_ref: "eoption (\<lambda>t. ffi_type t cx) t = Inr f \<Longrightarrow> type_refs (option_list f) = {}"
  by (auto simp: eoption_Inr_iff ffi_type_no_ref)

lemma map_no_ref:
  assumes "\<And>a. a \<in> set as \<Longrightarrow> type_ref (f a) = None"
  shows "type_refs (map f as) = {}"
  using assms by (auto simp: type_refs_def)

lemma map_filter_mem: "y \<in> set (List.map_filter f xs) \<longleftrightarrow> (\<exists>x \<in> set xs. f x = Some y)"
  by (force simp: List.map_filter_def)

section \<open>The contributions\<close>

lemma rust_buffer_closed:
  assumes "rust_buffer_defs cx = Inr defs"
  shows "all_refs defs = {}" "gc_current_crate_name cx = Some crate \<Longrightarrow>
    declared defs = (\<lambda>op. (Kind_RustFunction, ''ffi_'' @ crate @ ''_rustbuffer_'' @ op)) `
      {''alloc'', ''from_bytes'', ''free'', ''reserve''}"
  using assms by (auto simp: rust_buffer_defs_def rustbuffer_fn_name_def context_crate_name_def ebind_Inr_iff)

lemma rustbuffer_name:
  "gc_current_crate_name cx = Some crate \<Longrightarrow>
     rustbuffer_fn_name op cx = Inr (''ffi_'' @ crate @ ''_rustbuffer_'' @ op)"
  by (simp add: rustbuffer_fn_name_def context_crate_name_def ok_or_def)

lemma checksum_closed:
  "all_refs (checksum_defs ns) = {}"
  "declared (checksum_defs ns) = insert (Kind_RustFunction, ffi_uniffi_contract_version ns)
     ((\<lambda>c. (Kind_RustFunction, cs_fn_name c)) ` set (checksums ns))"
  by (simp_all add: checksum_defs_def all_refs_def declared_def image_image)

lemma ffi_def_closed:
  assumes "ffi_def nm args ret ad cx = Inr d"
  shows "refs d = {}" "declares d = (Kind_RustFunction, nm)"
proof -
  obtain as where as: "emap (argument_to_ffi_argument cx) args = Inr as"
    "(case ad of
         None \<Rightarrow> ebind (eoption (\<lambda>t. ffi_type t cx) ret) (\<lambda>r. Inr (rust_fn nm as r True FfiFunctionKind_Scaffolding))
       | Some _ \<Rightarrow> Inr (FfiDefinition_RustFunction
           \<lparr>ffn_name = nm, ffn_async_data = ad, ffn_arguments = as,
            ffn_return_type = \<lparr>frt_ty = Some (FfiType_Handle HandleKind_RustFuture)\<rparr>,
            ffn_has_rust_call_status_arg = False, ffn_kind = FfiFunctionKind_Scaffolding\<rparr>)) = Inr d"
    using assms unfolding ffi_def_def ebind_Inr_iff by blast
  have "type_ref (fa_ty a) = None" if "a \<in> set as" for a
    using emap_mem [OF as(1) that]
    by (auto simp: argument_to_ffi_argument_def ebind_Inr_iff ffi_type_no_ref split: if_splits)
  then have args: "type_refs (map fa_ty as) = {}" by (rule map_no_ref)
  show "refs d = {}" "declares d = (Kind_RustFunction, nm)"
    using as(2) args opt_ffi_type_no_ref [of cx ret]
    by (auto simp: ebind_Inr_iff refs_def rust_fn_def split: option.splits)
qed

lemma function_def_closed:
  "function_ffi_def uc crate cx f = Inr d \<Longrightarrow>
     refs d = {} \<and> declares d = (Kind_RustFunction, fn_symbol_name crate (ifu_name f))"
  "method_ffi_def uc crate ty cx m = Inr d \<Longrightarrow> refs d = {} \<and>
     (\<exists>nm. nominal_name ty = Some nm \<and> declares d = (Kind_RustFunction, method_symbol_name crate nm (ime_name m)))"
  "constructor_ffi_def uc crate ty nm imp cx c = Inr d \<Longrightarrow>
     refs d = {} \<and> declares d = (Kind_RustFunction, constructor_symbol_name crate nm (ico_name c))"
  by (auto simp: function_ffi_def_def method_ffi_def_def constructor_ffi_def_def ebind_Inr_iff
      dest: ffi_def_closed)

text \<open>The names under which the scaffolding functions of a namespace are declared.\<close>

definition scaffolding_names :: "string \<Rightarrow> INamespace \<Rightarrow> string set" where
  "scaffolding_names crate ns =
     (\<lambda>f. fn_symbol_name crate (ifu_name f)) ` set (ins_functions ns) \<union>
     (\<Union>i \<in> set (namespace_interfaces ns).
       (\<lambda>m. method_symbol_name crate (iin_name i) (ime_name m)) ` set (definition_methods (ITypeDefinition_Interface i)) \<union>
       (\<lambda>c. constructor_symbol_name crate (iin_name i) (ico_name c)) ` set (iin_constructors i)) \<union>
     (\<Union>r \<in> set (namespace_records ns).
       (\<lambda>m. method_symbol_name crate (ire_name r) (ime_name m)) ` set (definition_methods (ITypeDefinition_Record r))) \<union>
     (\<Union>e \<in> set (namespace_enums ns).
       (\<lambda>m. method_symbol_name crate (ien_name e) (ime_name m)) ` set (definition_methods (ITypeDefinition_Enum e)))"

lemma emap_closed:
  assumes "emap f xs = Inr ds" "\<And>x d. x \<in> set xs \<Longrightarrow> f x = Inr d \<Longrightarrow> refs d = {} \<and> declares d = (Kind_RustFunction, nm x)"
  shows "all_refs ds = {}" "declared ds = (\<lambda>x. (Kind_RustFunction, nm x)) ` set xs"
proof -
  show "all_refs ds = {}" using emap_mem [OF assms(1)] assms(2) by (fastforce simp: all_refs_def)
  have "list_all2 (\<lambda>x d. declares d = (Kind_RustFunction, nm x)) xs ds"
    using assms unfolding emap_Inr_iff by (auto intro: list_all2_mono simp: list_all2_conv_all_nth)
  then have "map declares ds = map (\<lambda>x. (Kind_RustFunction, nm x)) xs"
    by (auto simp: list_all2_conv_all_nth intro: nth_equalityI)
  then show "declared ds = (\<lambda>x. (Kind_RustFunction, nm x)) ` set xs"
    unfolding declared_def by (metis list.set_map)
qed

lemma emap_concat_closed:
  assumes "emap f xs = Inr dss" "\<And>x ds. x \<in> set xs \<Longrightarrow> f x = Inr ds \<Longrightarrow> all_refs ds = {} \<and> declared ds = N x"
  shows "all_refs (concat dss) = {}" "declared (concat dss) = (\<Union>x \<in> set xs. N x)"
proof -
  show "all_refs (concat dss) = {}" using emap_mem [OF assms(1)] assms(2) by (fastforce simp: refs_concat)
  show "declared (concat dss) = (\<Union>x \<in> set xs. N x)"
    unfolding refs_concat using emap_mem [OF assms(1)] emap_image [OF assms(1)] assms(2) by fastforce
qed

lemma methods_closed:
  assumes "emap (method_ffi_def uc crate ty cx) ms = Inr ds" "nominal_name ty = Some nm"
  shows "all_refs ds = {} \<and> declared ds = (\<lambda>m. (Kind_RustFunction, method_symbol_name crate nm (ime_name m))) ` set ms"
  using emap_closed [OF assms(1), of "\<lambda>m. method_symbol_name crate nm (ime_name m)"] function_def_closed(2) assms(2)
  by fastforce

lemma constructors_closed:
  assumes "emap (constructor_ffi_def uc crate ty nm imp cx) cs = Inr ds"
  shows "all_refs ds = {} \<and> declared ds = (\<lambda>c. (Kind_RustFunction, constructor_symbol_name crate nm (ico_name c))) ` set cs"
  using emap_closed [OF assms, of "\<lambda>c. constructor_symbol_name crate nm (ico_name c)"] function_def_closed(3)
  by fastforce

definition interface_names :: "string \<Rightarrow> IInterface \<Rightarrow> (FfiKind \<times> string) set" where
  "interface_names crate i =
     (\<lambda>m. (Kind_RustFunction, method_symbol_name crate (iin_name i) (ime_name m))) `
       set (definition_methods (ITypeDefinition_Interface i)) \<union>
     (\<lambda>c. (Kind_RustFunction, constructor_symbol_name crate (iin_name i) (ico_name c))) ` set (iin_constructors i)"

lemma interface_closed:
  assumes "ebind (emap (method_ffi_def uc crate (ITy_Interface ns (iin_name i) orig imp) cx)
      (definition_methods (ITypeDefinition_Interface i))) (\<lambda>methods.
      ebind (emap (constructor_ffi_def uc crate (ITy_Interface ns (iin_name i) orig imp) (iin_name i) imp cx)
        (iin_constructors i)) (\<lambda>constructors. Inr (methods @ constructors))) = Inr ds"
  shows "all_refs ds = {} \<and> declared ds = interface_names crate i"
  using assms methods_closed [where ty = "ITy_Interface ns (iin_name i) orig imp" and nm = "iin_name i"] constructors_closed
  unfolding interface_names_def ebind_Inr_iff by fastforce

lemma ffi_functions_closed:
  assumes "ffi_function_defs uc ns cx = Inr defs" "gc_current_crate_name cx = Some crate"
  shows "all_refs defs = {}" "declared defs = Pair Kind_RustFunction ` scaffolding_names crate ns"
proof -
  let ?ity = "\<lambda>i. ITy_Interface (ins_name ns) (iin_name i) (iin_orig_name i) (iin_imp i)"
  obtain fs ints rs es where
    fs: "emap (function_ffi_def uc crate cx) (ins_functions ns) = Inr fs" and
    ints: "emap (\<lambda>i. ebind (emap (method_ffi_def uc crate (?ity i) cx) (definition_methods (ITypeDefinition_Interface i)))
        (\<lambda>methods. ebind (emap (constructor_ffi_def uc crate (?ity i) (iin_name i) (iin_imp i) cx) (iin_constructors i))
        (\<lambda>constructors. Inr (methods @ constructors)))) (namespace_interfaces ns) = Inr ints" and
    rs: "emap (\<lambda>r. emap (method_ffi_def uc crate (ITy_Record (ins_name ns) (ire_name r) (ire_orig_name r)) cx)
        (definition_methods (ITypeDefinition_Record r))) (namespace_records ns) = Inr rs" and
    es: "emap (\<lambda>e. emap (method_ffi_def uc crate (ITy_Enum (ins_name ns) (ien_name e) (ien_orig_name e)) cx)
        (definition_methods (ITypeDefinition_Enum e))) (namespace_enums ns) = Inr es" and
    defs: "defs = fs @ concat ints @ concat rs @ concat es"
    using assms by (auto simp: ffi_function_defs_def ebind_Inr_iff context_crate_name_def Let_def simp del: definition_methods.simps)
  let ?ms = "\<lambda>nm td. (\<lambda>m. (Kind_RustFunction, method_symbol_name crate nm (ime_name m))) ` set (definition_methods td)"
  have F: "all_refs fs = {}" "declared fs = (\<lambda>f. (Kind_RustFunction, fn_symbol_name crate (ifu_name f))) ` set (ins_functions ns)"
    by (rule emap_closed [OF fs], erule function_def_closed(1))+
  have I: "all_refs (concat ints) = {}" "declared (concat ints) = (\<Union>i \<in> set (namespace_interfaces ns). interface_names crate i)"
    by (rule emap_concat_closed [OF ints], erule interface_closed)+
  have R: "all_refs (concat rs) = {}" "declared (concat rs) = (\<Union>r \<in> set (namespace_records ns). ?ms (ire_name r) (ITypeDefinition_Record r))"
    by (rule emap_concat_closed [OF rs], erule methods_closed, simp)+
  have E: "all_refs (concat es) = {}" "declared (concat es) = (\<Union>e \<in> set (namespace_enums ns). ?ms (ien_name e) (ITypeDefinition_Enum e))"
    by (rule emap_concat_closed [OF es], erule methods_closed, simp)+
  show "all_refs defs = {}" by (simp add: defs F(1) I(1) R(1) E(1))
  show "declared defs = Pair Kind_RustFunction ` scaffolding_names crate ns"
    by (simp add: defs F(2) I(2) R(2) E(2) scaffolding_names_def interface_names_def image_Un image_UN image_image Un_assoc
        del: definition_methods.simps)
qed

lemma object_closed:
  assumes "object_defs ns cx = Inr defs" "gc_current_crate_name cx = Some crate"
  shows "all_refs defs = {}" "declared defs = (\<Union>i \<in> set (namespace_interfaces ns).
    {(Kind_RustFunction, clone_fn_symbol_name crate (iin_name i)), (Kind_RustFunction, free_fn_symbol_name crate (iin_name i))})"
proof -
  obtain dss where dss: "emap (\<lambda>i.
       let handle = handle_type (ins_name ns) (iin_name i) (iin_imp i) in
       ebind (ffi_clone_name (iin_name i) cx) (\<lambda>clone_nm. ebind (ffi_free_name (iin_name i) cx) (\<lambda>free_nm. Inr
         [rust_fn clone_nm [ffi_arg ''ptr'' handle] (Some handle) True FfiFunctionKind_ObjectClone,
          rust_fn free_nm [ffi_arg ''ptr'' handle] None True FfiFunctionKind_ObjectFree])))
       (namespace_interfaces ns) = Inr dss" "defs = concat dss"
    using assms(1) unfolding object_defs_def ebind_Inr_iff by blast
  show "all_refs defs = {}" "declared defs = (\<Union>i \<in> set (namespace_interfaces ns).
    {(Kind_RustFunction, clone_fn_symbol_name crate (iin_name i)), (Kind_RustFunction, free_fn_symbol_name crate (iin_name i))})"
    unfolding dss(2)
    by (rule emap_concat_closed [OF dss(1)];
        use assms(2) in \<open>auto simp: Let_def ffi_clone_name_def ffi_free_name_def context_crate_name_def handle_type_def ebind_Inr_iff\<close>)+
qed


text \<open>The names of the data of an asynchronous call that the Rust side exports, and those of the foreign side.\<close>

definition future_names :: "string \<Rightarrow> (FfiKind \<times> string) set" where
  "future_names crate = (\<Union>(ret, nm) \<in> set all_async_return_types.
     {(Kind_RustFunction, rust_future_fn crate ''poll'' nm),
      (Kind_RustFunction, rust_future_fn crate ''cancel'' nm),
      (Kind_RustFunction, rust_future_fn crate ''complete'' nm),
      (Kind_RustFunction, rust_future_fn crate ''free'' nm)})"

definition rust_async_names :: "AsyncData \<Rightarrow> (FfiKind \<times> string) set" where
  "rust_async_names a =
     {(Kind_RustFunction, ad_ffi_rust_future_poll a), (Kind_RustFunction, ad_ffi_rust_future_cancel a),
      (Kind_RustFunction, ad_ffi_rust_future_complete a), (Kind_RustFunction, ad_ffi_rust_future_free a)}"

definition foreign_async_names :: "AsyncData \<Rightarrow> (FfiKind \<times> string) set" where
  "foreign_async_names a =
     {(Kind_FunctionType, ad_ffi_foreign_future_complete a), (Kind_Struct, ad_ffi_foreign_future_result a)}"

lemma future_type_names: "future_type_name t = Inr nm \<Longrightarrow> nm \<in> snd ` set all_async_return_types"
  by (cases t rule: future_type_name.cases) (auto simp: all_async_return_types_def)

lemma async_data_names:
  assumes "async_data uc cx t = Inr a" "gc_current_crate_name cx = Some crate"
  shows "rust_async_names a \<subseteq> future_names crate"
proof -
  obtain nm where nm: "future_type_name t = Inr nm" "ad_ffi_rust_future_poll a = rust_future_fn crate ''poll'' nm"
    "ad_ffi_rust_future_cancel a = rust_future_fn crate ''cancel'' nm"
    "ad_ffi_rust_future_free a = rust_future_fn crate ''free'' nm"
    "ad_ffi_rust_future_complete a = rust_future_fn crate ''complete'' nm"
    using assms by (auto simp: async_data_def context_crate_name_def ebind_Inr_iff)
  from future_type_names [OF nm(1)] obtain ret where "(ret, nm) \<in> set all_async_return_types" by auto
  then show ?thesis unfolding future_names_def rust_async_names_def nm(2-) by blast
qed

lemma callable_async_data_iff:
  assumes "callable_async_data uc async t cx = Inr ad"
  shows "(ad \<noteq> None) = async"
    "gc_current_crate_name cx = Some crate \<Longrightarrow> ad = Some a \<Longrightarrow> rust_async_names a \<subseteq> future_names crate"
proof -
  show "(ad \<noteq> None) = async"
    using assms by (auto simp: callable_async_data_def ebind_Inr_iff split: if_splits)
  assume "gc_current_crate_name cx = Some crate" "ad = Some a"
  moreover from this(2) assms obtain f where "async_data uc cx f = Inr a"
    by (auto simp: callable_async_data_def ebind_Inr_iff split: if_splits)
  ultimately show "rust_async_names a \<subseteq> future_names crate" by (intro async_data_names)
qed

lemma rust_future_closed:
  "all_refs (rust_future_defs ns) \<subseteq> declared (rust_future_defs ns)"
  "has_async_fns ns \<Longrightarrow> future_names (ins_crate_name ns) \<subseteq> declared (rust_future_defs ns)"
proof -
  have "type_refs (option_list ret) = {}" if "(ret, nm) \<in> set all_async_return_types" for ret nm
    using that by (auto simp: all_async_return_types_def)
  then show "all_refs (rust_future_defs ns) \<subseteq> declared (rust_future_defs ns)"
    by (auto simp: rust_future_defs_def refs_concat ffi_rust_future_poll_def ffi_rust_future_cancel_def
        ffi_rust_future_complete_def ffi_rust_future_free_def rust_future_handle_def)
  show "has_async_fns ns \<Longrightarrow> future_names (ins_crate_name ns) \<subseteq> declared (rust_future_defs ns)"
    by (force simp: rust_future_defs_def refs_concat future_names_def ffi_rust_future_poll_def
        ffi_rust_future_cancel_def ffi_rust_future_complete_def ffi_rust_future_free_def)
qed

text \<open>A method of a vtable: its function type refers to what is declared beside it, and to the struct for
  dropped futures when it is asynchronous.\<close>

definition dropped_refs :: "bool \<Rightarrow> (FfiKind \<times> string) set" where
  "dropped_refs async = (if async then {(Kind_Struct, dropped_struct)} else {})"

lemma vtable_method_closed:
  assumes "vtable_method_defs uc ns nm cx (i, m) = Inr ds"
  shows "all_refs ds \<subseteq> declared ds \<union> dropped_refs (ime_is_async m)"
    "(Kind_FunctionType, vtable_method_name uc ns nm i) \<in> declared ds"
    "method_async_data uc m cx = Inr (Some a) \<Longrightarrow> foreign_async_names a \<subseteq> declared ds"
proof -
  obtain args ret ad where
    args: "emap (\<lambda>a. ebind (ffi_type (iar_ty a) cx) (\<lambda>t. Inr (ffi_arg (iar_name a) t))) (ime_inputs m) = Inr args" and
    ret: "eoption (\<lambda>t. ffi_type t cx) (ime_return_type m) = Inr ret" and
    ad: "method_async_data uc m cx = Inr ad" and
    ds: "ds = fn_type (vtable_method_name uc ns nm i)
         (ffi_arg ''uniffi_handle'' (FfiType_Handle (HandleKind_TraitInterface ns nm)) # args @ vtable_return_args ad ret)
         None (ad = None) # foreign_future_defs ad ret"
    using assms unfolding vtable_method_defs_def ebind_Inr_iff prod.case sum.inject by blast
  have "type_ref (fa_ty a) = None" if "a \<in> set args" for a
    using emap_mem [OF args that] by (auto simp: ebind_Inr_iff ffi_type_no_ref)
  then have args0: "type_refs (map fa_ty args) = {}" by (rule map_no_ref)
  have ret0: "type_refs (option_list ret) = {}" by (rule opt_ffi_type_no_ref [OF ret])
  have result: "type_refs (map ff_ty (future_result_fields ret)) = {}"
    using ret0 by (cases ret) (simp_all add: future_result_fields_def)
  have async: "(ad \<noteq> None) = ime_is_async m"
    using callable_async_data_iff(1) ad unfolding method_async_data_def by blast
  show "all_refs ds \<subseteq> declared ds \<union> dropped_refs (ime_is_async m)"
    using args0 ret0 result async by (cases ad; cases ret) (auto simp: ds dropped_refs_def vtable_return_args_def foreign_future_defs_def)
  show "(Kind_FunctionType, vtable_method_name uc ns nm i) \<in> declared ds" by (simp add: ds)
  show "method_async_data uc m cx = Inr (Some a) \<Longrightarrow> foreign_async_names a \<subseteq> declared ds"
    using ad by (simp add: ds foreign_async_names_def foreign_future_defs_def)
qed

text \<open>What the vtable of an interface refers to.\<close>

definition vtable_refs :: "(string \<Rightarrow> string) \<Rightarrow> string \<Rightarrow> string \<Rightarrow> string \<Rightarrow> IMethod list \<Rightarrow> (FfiKind \<times> string) set" where
  "vtable_refs uc crate ns nm methods =
     {(Kind_Struct, vtable_struct_name uc ns nm), (Kind_FunctionType, vtable_clone_name uc ns nm),
      (Kind_FunctionType, vtable_free_name uc ns nm),
      (Kind_RustFunction, init_callback_vtable_fn_symbol_name crate nm)} \<union>
     (\<lambda>i. (Kind_FunctionType, vtable_method_name uc ns nm i)) ` {..< length methods}"

lemma enumerate_mem: "(i, m) \<in> set (List.enumerate 0 xs) \<longleftrightarrow> i < length xs \<and> m = xs ! i"
  by (auto simp: in_set_enumerate_eq)

lemma vtable_closed:
  assumes "add_vtable_ffi_defs uc crate ns cx (nm, methods) = Inr ds"
  shows "all_refs ds \<subseteq> declared ds \<union> dropped_refs (\<exists>m \<in> set methods. ime_is_async m)"
    "vtable_refs uc crate ns nm methods \<subseteq> declared ds"
    "m \<in> set methods \<Longrightarrow> method_async_data uc m cx = Inr (Some a) \<Longrightarrow> foreign_async_names a \<subseteq> declared ds"
proof -
  obtain dss where dss: "emap (vtable_method_defs uc ns nm cx) (List.enumerate 0 methods) = Inr dss" and
    ds: "ds = concat dss @
        [fn_type (vtable_clone_name uc ns nm) [ffi_arg ''handle'' (FfiType_Handle (HandleKind_TraitInterface ns nm))]
           (Some (FfiType_Handle (HandleKind_TraitInterface ns nm))) False,
         fn_type (vtable_free_name uc ns nm) [ffi_arg ''handle'' (FfiType_Handle (HandleKind_TraitInterface ns nm))] None False,
         vtable_struct uc ns nm methods,
         rust_fn (init_callback_vtable_fn_symbol_name crate nm)
           [ffi_arg ''vtable'' (FfiType_Reference (vtable_struct_type uc ns nm))] None False
           FfiFunctionKind_RustVtableInit]"
    using assms unfolding add_vtable_ffi_defs_def by (auto simp: ebind_Inr_iff Let_def)
  have meth: "(Kind_FunctionType, vtable_method_name uc ns nm i) \<in> declared (concat dss)" if "i < length methods" for i
  proof -
    from that have "(i, methods ! i) \<in> set (List.enumerate 0 methods)" by (simp add: enumerate_mem)
    from emap_image [OF dss this] obtain d where "d \<in> set dss" "vtable_method_defs uc ns nm cx (i, methods ! i) = Inr d" by blast
    with vtable_method_closed(2) [OF this(2)] show ?thesis by (auto simp: refs_concat)
  qed
  have vs: "declares (vtable_struct uc ns nm methods) = (Kind_Struct, vtable_struct_name uc ns nm)"
    "refs (vtable_struct uc ns nm methods) = {(Kind_FunctionType, vtable_free_name uc ns nm),
       (Kind_FunctionType, vtable_clone_name uc ns nm)} \<union>
       (\<lambda>i. (Kind_FunctionType, vtable_method_name uc ns nm i)) ` {..< length methods}"
    by (auto simp: vtable_struct_def type_refs_def enumerate_mem image_iff Bex_def)
  show v: "vtable_refs uc crate ns nm methods \<subseteq> declared ds"
    using meth by (auto simp: vtable_refs_def ds vs)
  have "all_refs d \<subseteq> declared ds \<union> dropped_refs (\<exists>m \<in> set methods. ime_is_async m)" if "d \<in> set dss" for d
  proof -
    from emap_mem [OF dss that] obtain i m where "vtable_method_defs uc ns nm cx (i, m) = Inr d" "m \<in> set methods"
      by (auto simp: in_set_enumerate_eq)
    with vtable_method_closed(1) [OF this(1)] that show ?thesis
      by (auto simp: ds refs_concat dropped_refs_def split: if_splits)
  qed
  then have "all_refs (concat dss) \<subseteq> declared ds \<union> dropped_refs (\<exists>m \<in> set methods. ime_is_async m)"
    by (auto simp: refs_concat)
  with v show "all_refs ds \<subseteq> declared ds \<union> dropped_refs (\<exists>m \<in> set methods. ime_is_async m)"
    by (auto simp: ds vs vtable_refs_def vtable_struct_type_def)
  show "foreign_async_names a \<subseteq> declared ds" if "m \<in> set methods" "method_async_data uc m cx = Inr (Some a)"
  proof -
    from that(1) obtain i where "i < length methods" "m = methods ! i" by (auto simp: in_set_conv_nth)
    then have "(i, m) \<in> set (List.enumerate 0 methods)" by (simp add: enumerate_mem)
    from emap_image [OF dss this] obtain d where "d \<in> set dss" "vtable_method_defs uc ns nm cx (i, m) = Inr d" by blast
    with vtable_method_closed(3) [OF this(2) that(2)] show ?thesis by (auto simp: ds refs_concat)
  qed
qed

lemma callback_interfaces_closed:
  assumes "callback_interface_defs uc ns cx = Inr defs"
  shows "all_refs defs \<subseteq> declared defs"
    "(nm, methods) \<in> set (vtable_interfaces ns) \<Longrightarrow>
       vtable_refs uc (ins_crate_name ns) (ins_name ns) nm methods \<subseteq> declared defs"
    "(nm, methods) \<in> set (vtable_interfaces ns) \<Longrightarrow> m \<in> set methods \<Longrightarrow>
       method_async_data uc m cx = Inr (Some a) \<Longrightarrow> foreign_async_names a \<subseteq> declared defs"
proof -
  let ?async = "\<exists>(nm, methods) \<in> set (vtable_interfaces ns). \<exists>m \<in> set methods. ime_is_async m"
  let ?dropped = "[fn_type dropped_callback [ffi_arg ''handle'' (FfiType_Handle HandleKind_ForeignFuture)] None False,
      FfiDefinition_Struct \<lparr>fst_name = dropped_struct,
        fst_fields = [ffi_field ''handle'' (FfiType_Handle HandleKind_ForeignFuture),
          ffi_field ''free'' (FfiType_Function dropped_callback)]\<rparr>]"
  obtain dss where dss: "emap (add_vtable_ffi_defs uc (ins_crate_name ns) (ins_name ns) cx) (vtable_interfaces ns) = Inr dss" and
    defs: "defs = concat dss @ (if ?async then ?dropped else [])"
    using assms by (auto simp: callback_interface_defs_def ebind_Inr_iff)
  have sub: "declared d \<subseteq> declared defs" if "d \<in> set dss" for d
    using that by (auto simp: defs refs_concat)
  have dropped: "dropped_refs ?async \<subseteq> declared defs" by (auto simp: dropped_refs_def defs)
  have one: "\<exists>d \<in> set dss. add_vtable_ffi_defs uc (ins_crate_name ns) (ins_name ns) cx (nm, methods) = Inr d"
    if "(nm, methods) \<in> set (vtable_interfaces ns)" for nm methods
    using emap_image [OF dss that] .
  have "all_refs d \<subseteq> declared defs" if d: "d \<in> set dss" for d
  proof -
    from emap_mem [OF dss d] obtain nm methods where v: "(nm, methods) \<in> set (vtable_interfaces ns)"
      "add_vtable_ffi_defs uc (ins_crate_name ns) (ins_name ns) cx (nm, methods) = Inr d" by auto
    then have "dropped_refs (\<exists>m \<in> set methods. ime_is_async m) \<subseteq> dropped_refs ?async"
      by (auto simp: dropped_refs_def)
    with vtable_closed(1) [OF v(2)] sub [OF d] dropped show ?thesis by blast
  qed
  moreover have "all_refs ?dropped \<subseteq> declared ?dropped" by simp
  ultimately show "all_refs defs \<subseteq> declared defs"
    unfolding defs by (cases ?async) (auto simp: refs_concat)
  show "vtable_refs uc (ins_crate_name ns) (ins_name ns) nm methods \<subseteq> declared defs"
    if "(nm, methods) \<in> set (vtable_interfaces ns)"
    using one [OF that] vtable_closed(2) sub by blast
  show "foreign_async_names a \<subseteq> declared defs" if "(nm, methods) \<in> set (vtable_interfaces ns)" "m \<in> set methods"
    "method_async_data uc m cx = Inr (Some a)"
    using one [OF that(1)] vtable_closed(3) [OF _ that(2,3)] sub by blast
qed

section \<open>A name determines its kind\<close>

definition kind_of_name :: "string \<Rightarrow> FfiKind" where
  "kind_of_name nm =
     (if nm \<noteq> [] \<and> (hd nm = CHR ''f'' \<or> hd nm = CHR ''u'') then Kind_RustFunction
      else if nm \<noteq> [] \<and> (hd nm = CHR ''V'' \<or> take 14 nm = ''ForeignFutureR'' \<or> nm = dropped_struct)
      then Kind_Struct else Kind_FunctionType)"

definition well_named :: "FfiDefinition list \<Rightarrow> bool" where
  "well_named defs \<longleftrightarrow> (\<forall>(k, nm) \<in> declared defs. k = kind_of_name nm)"

lemma well_named_simps [simp]:
  "well_named []" "well_named (d # ds) \<longleftrightarrow> fst (declares d) = kind_of_name (snd (declares d)) \<and> well_named ds"
  "well_named (ds @ es) \<longleftrightarrow> well_named ds \<and> well_named es"
  by (auto simp: well_named_def)

lemma well_named_concat: "well_named (concat dss) \<longleftrightarrow> (\<forall>ds \<in> set dss. well_named ds)"
  by (auto simp: well_named_def refs_concat)

lemma kind_of_rust_name [simp]:
  "kind_of_name (''ffi_'' @ s) = Kind_RustFunction" "kind_of_name (''uniffi_'' @ s) = Kind_RustFunction"
  by (simp_all add: kind_of_name_def)

lemma kind_of_symbol [simp]:
  "kind_of_name (fn_symbol_name crate nm) = Kind_RustFunction"
  "kind_of_name (method_symbol_name crate t nm) = Kind_RustFunction"
  "kind_of_name (constructor_symbol_name crate t nm) = Kind_RustFunction"
  "kind_of_name (clone_fn_symbol_name crate nm) = Kind_RustFunction"
  "kind_of_name (free_fn_symbol_name crate nm) = Kind_RustFunction"
  "kind_of_name (init_callback_vtable_fn_symbol_name crate nm) = Kind_RustFunction"
  "kind_of_name (fn_checksum_symbol_name crate nm) = Kind_RustFunction"
  "kind_of_name (method_checksum_symbol_name crate t nm) = Kind_RustFunction"
  "kind_of_name (constructor_checksum_symbol_name crate t nm) = Kind_RustFunction"
  "kind_of_name (rust_future_fn crate op nm) = Kind_RustFunction"
  "kind_of_name (ffi_uniffi_contract_version ns) = Kind_RustFunction"
  unfolding fn_symbol_name_def method_symbol_name_def constructor_symbol_name_def clone_fn_symbol_name_def
    free_fn_symbol_name_def init_callback_vtable_fn_symbol_name_def fn_checksum_symbol_name_def
    method_checksum_symbol_name_def constructor_checksum_symbol_name_def rust_future_fn_def
    ffi_uniffi_contract_version_def
  by (rule kind_of_rust_name)+

lemma kind_of_foreign_name [simp]:
  "kind_of_name (vtable_struct_name uc ns nm) = Kind_Struct"
  "kind_of_name (vtable_method_name uc ns nm i) = Kind_FunctionType"
  "kind_of_name (vtable_clone_name uc ns nm) = Kind_FunctionType"
  "kind_of_name (vtable_free_name uc ns nm) = Kind_FunctionType"
  "kind_of_name dropped_struct = Kind_Struct" "kind_of_name dropped_callback = Kind_FunctionType"
  "kind_of_name continuation_callback = Kind_FunctionType"
  "kind_of_name (''ForeignFutureComplete'' @ s) = Kind_FunctionType"
  "kind_of_name (''ForeignFutureResult'' @ s) = Kind_Struct"
  by (simp_all add: kind_of_name_def vtable_struct_name_def vtable_method_name_def vtable_clone_name_def
      vtable_free_name_def dropped_struct_def dropped_callback_def continuation_callback_def)

lemma interface_names_named: "(k, nm) \<in> interface_names crate i \<Longrightarrow> k = kind_of_name nm"
  by (auto simp: interface_names_def)

lemma unsorted_named:
  "rust_buffer_defs cx = Inr defs \<Longrightarrow> gc_current_crate_name cx = Some crate \<Longrightarrow> well_named defs"
  "well_named (checksum_defs ns)"
  "ffi_function_defs uc ns cx = Inr defs \<Longrightarrow> gc_current_crate_name cx = Some crate \<Longrightarrow> well_named defs"
  "object_defs ns cx = Inr defs \<Longrightarrow> gc_current_crate_name cx = Some crate \<Longrightarrow> well_named defs"
  "well_named (rust_future_defs ns)"
proof -
  show "rust_buffer_defs cx = Inr defs \<Longrightarrow> gc_current_crate_name cx = Some crate \<Longrightarrow> well_named defs"
    by (auto simp: well_named_def rust_buffer_closed(2) simp del: append.simps)
  have "kind_of_name (cs_fn_name c) = Kind_RustFunction" if "c \<in> set (checksums ns)" for c
    using that by (auto simp: checksums_def interface_checksums_def map_filter_mem)
  then show "well_named (checksum_defs ns)" by (auto simp: well_named_def checksum_closed(2))
  show "ffi_function_defs uc ns cx = Inr defs \<Longrightarrow> gc_current_crate_name cx = Some crate \<Longrightarrow> well_named defs"
    by (auto simp: well_named_def ffi_functions_closed(2) scaffolding_names_def simp del: definition_methods.simps)
  show "object_defs ns cx = Inr defs \<Longrightarrow> gc_current_crate_name cx = Some crate \<Longrightarrow> well_named defs"
    by (auto simp: well_named_def object_closed(2))
  show "well_named (rust_future_defs ns)"
    by (auto simp: rust_future_defs_def well_named_concat ffi_rust_future_poll_def ffi_rust_future_cancel_def
        ffi_rust_future_complete_def ffi_rust_future_free_def)
qed

lemma async_data_named:
  assumes "method_async_data uc m cx = Inr (Some a)"
  shows "kind_of_name (ad_ffi_foreign_future_complete a) = Kind_FunctionType"
    "kind_of_name (ad_ffi_foreign_future_result a) = Kind_Struct"
proof -
  from assms obtain f where "async_data uc cx f = Inr a"
    by (auto simp: method_async_data_def callable_async_data_def ebind_Inr_iff split: if_splits)
  then obtain nm where "ad_ffi_foreign_future_complete a = ''ForeignFutureComplete'' @ struct_crate_name f @ nm"
    "ad_ffi_foreign_future_result a = ''ForeignFutureResult'' @ struct_crate_name f @ uc nm"
    unfolding async_data_def ebind_Inr_iff by auto
  then show "kind_of_name (ad_ffi_foreign_future_complete a) = Kind_FunctionType"
    "kind_of_name (ad_ffi_foreign_future_result a) = Kind_Struct"
    by (simp_all only: kind_of_foreign_name)
qed

lemma vtable_method_named:
  assumes "vtable_method_defs uc ns nm cx (i, m) = Inr ds"
  shows "well_named ds"
proof -
  obtain args ret ad where ad: "method_async_data uc m cx = Inr ad" and
    ds: "ds = fn_type (vtable_method_name uc ns nm i)
         (ffi_arg ''uniffi_handle'' (FfiType_Handle (HandleKind_TraitInterface ns nm)) # args @ vtable_return_args ad ret)
         None (ad = None) # foreign_future_defs ad ret"
    using assms unfolding vtable_method_defs_def ebind_Inr_iff prod.case sum.inject by blast
  show ?thesis using ad async_data_named by (cases ad) (simp_all add: ds foreign_future_defs_def)
qed

lemma callback_interfaces_named:
  assumes "callback_interface_defs uc ns cx = Inr defs"
  shows "well_named defs"
proof -
  have v: "well_named ds" if vt: "add_vtable_ffi_defs uc crate n cx im = Inr ds" for crate n im ds
  proof -
    obtain nm ms where im: "im = (nm, ms)" by fastforce
    obtain dss where "emap (vtable_method_defs uc n nm cx) (List.enumerate 0 ms) = Inr dss" and
      ds: "ds = concat dss @ drop (length (concat dss)) ds" "well_named (drop (length (concat dss)) ds)"
      using vt unfolding im add_vtable_ffi_defs_def by (auto simp: ebind_Inr_iff Let_def vtable_struct_def)
    then have "\<forall>d \<in> set dss. well_named d" using emap_mem vtable_method_named by fastforce
    then have "well_named (concat dss @ drop (length (concat dss)) ds)" using ds(2) by (simp add: well_named_concat)
    with ds(1) show ?thesis by simp
  qed
  obtain dss where dss: "emap (add_vtable_ffi_defs uc (ins_crate_name ns) (ins_name ns) cx) (vtable_interfaces ns) = Inr dss"
    "defs = concat dss @ drop (length (concat dss)) defs" "well_named (drop (length (concat dss)) defs)"
    using assms by (auto simp: callback_interface_defs_def ebind_Inr_iff)
  have "\<forall>d \<in> set dss. well_named d" using emap_mem [OF dss(1)] v by blast
  then have "well_named (concat dss @ drop (length (concat dss)) defs)" using dss(3) by (simp add: well_named_concat)
  with dss(2) show ?thesis by simp
qed

text \<open>Sorting, which keeps one definition of each name, keeps what is declared.\<close>

lemma sort_declared:
  assumes "well_named defs" "all_refs defs \<subseteq> declared defs"
  shows "declared (sort_ffi_definitions defs) = declared defs"
    "all_refs (sort_ffi_definitions defs) \<subseteq> declared (sort_ffi_definitions defs)"
proof -
  note sorted = dependency_sort_names [of ffi_definition_name ffi_dependency_names defs, folded sort_ffi_definitions_def]
  have "(k, nm) \<in> declared (sort_ffi_definitions defs)" if decl: "(k, nm) \<in> declared defs" for k nm
  proof -
    from decl obtain d where "d \<in> set defs" "declares d = (k, nm)" by (auto simp: declared_def)
    then have "nm \<in> ffi_definition_name ` set defs" by (simp add: ffi_name_declares rev_image_eqI)
    then have "nm \<in> ffi_definition_name ` set (sort_ffi_definitions defs)" by (simp only: sorted(1))
    then obtain d where d: "d \<in> set (sort_ffi_definitions defs)" "ffi_definition_name d = nm" by (auto simp only: image_iff)
    with sorted(2) have "declares d \<in> declared defs" by (auto simp: declared_def)
    with assms(1) d(2) have "fst (declares d) = kind_of_name nm" by (auto simp: well_named_def ffi_name_declares)
    moreover have "k = kind_of_name nm" using assms(1) decl by (auto simp: well_named_def)
    ultimately have "declares d = (k, nm)" using d(2) by (simp add: ffi_name_declares prod_eq_iff)
    with d(1) show ?thesis by (force simp: declared_def)
  qed
  then have "declared defs \<subseteq> declared (sort_ffi_definitions defs)" by (rule subrelI)
  with sorted(2) show eq: "declared (sort_ffi_definitions defs) = declared defs"
    unfolding declared_def by (meson equalityI image_mono)
  have "all_refs (sort_ffi_definitions defs) \<subseteq> all_refs defs" using sorted(2) by (auto simp: all_refs_def)
  with assms(2) eq show "all_refs (sort_ffi_definitions defs) \<subseteq> declared (sort_ffi_definitions defs)" by simp
qed

section \<open>All the FFI definitions\<close>

text \<open>What the FFI definitions of a namespace declare.\<close>

lemma unsorted_closed:
  assumes "unsorted_ffi_defs uc ns cx = Inr defs" "gc_current_crate_name cx = Some (ins_crate_name ns)"
  shows "well_named defs" "all_refs defs \<subseteq> declared defs"
    "Pair Kind_RustFunction ` scaffolding_names (ins_crate_name ns) ns \<subseteq> declared defs"
    "i \<in> set (namespace_interfaces ns) \<Longrightarrow> {(Kind_RustFunction, clone_fn_symbol_name (ins_crate_name ns) (iin_name i)),
       (Kind_RustFunction, free_fn_symbol_name (ins_crate_name ns) (iin_name i))} \<subseteq> declared defs"
    "has_async_fns ns \<Longrightarrow> future_names (ins_crate_name ns) \<subseteq> declared defs"
    "(nm, methods) \<in> set (vtable_interfaces ns) \<Longrightarrow>
       vtable_refs uc (ins_crate_name ns) (ins_name ns) nm methods \<subseteq> declared defs"
    "(nm, methods) \<in> set (vtable_interfaces ns) \<Longrightarrow> m \<in> set methods \<Longrightarrow>
       method_async_data uc m cx = Inr (Some a) \<Longrightarrow> foreign_async_names a \<subseteq> declared defs"
    "c \<in> set (checksums ns) \<Longrightarrow> (Kind_RustFunction, cs_fn_name c) \<in> declared defs"
    "(Kind_RustFunction, ffi_uniffi_contract_version ns) \<in> declared defs"
    "op \<in> {''alloc'', ''from_bytes'', ''free'', ''reserve''} \<Longrightarrow> rustbuffer_fn_name op cx = Inr nm \<Longrightarrow>
       (Kind_RustFunction, nm) \<in> declared defs"
proof -
  obtain bufs fns objs cbs where
    bufs: "rust_buffer_defs cx = Inr bufs" and fns: "ffi_function_defs uc ns cx = Inr fns" and
    objs: "object_defs ns cx = Inr objs" and cbs: "callback_interface_defs uc ns cx = Inr cbs" and
    defs: "defs = bufs @ checksum_defs ns @ fns @ objs @ cbs @ rust_future_defs ns"
    using assms(1) unfolding unsorted_ffi_defs_def ebind_Inr_iff by blast
  note crate = assms(2)
  show "well_named defs"
    using unsorted_named(1) [OF bufs crate] unsorted_named(2) unsorted_named(3) [OF fns crate]
      unsorted_named(4) [OF objs crate] unsorted_named(5) callback_interfaces_named [OF cbs]
    by (simp add: defs)
  show "all_refs defs \<subseteq> declared defs"
    using rust_buffer_closed(1) [OF bufs] checksum_closed(1) [of ns] ffi_functions_closed(1) [OF fns crate]
      object_closed(1) [OF objs crate] callback_interfaces_closed(1) [OF cbs] rust_future_closed(1) [of ns]
    by (auto simp: defs)
  show "Pair Kind_RustFunction ` scaffolding_names (ins_crate_name ns) ns \<subseteq> declared defs"
    by (simp add: defs ffi_functions_closed(2) [OF fns crate] le_supI1 le_supI2)
  show "i \<in> set (namespace_interfaces ns) \<Longrightarrow> {(Kind_RustFunction, clone_fn_symbol_name (ins_crate_name ns) (iin_name i)),
       (Kind_RustFunction, free_fn_symbol_name (ins_crate_name ns) (iin_name i))} \<subseteq> declared defs"
    by (auto simp: defs object_closed(2) [OF objs crate])
  show "has_async_fns ns \<Longrightarrow> future_names (ins_crate_name ns) \<subseteq> declared defs"
    using rust_future_closed(2) by (auto simp: defs)
  show "(nm, methods) \<in> set (vtable_interfaces ns) \<Longrightarrow>
       vtable_refs uc (ins_crate_name ns) (ins_name ns) nm methods \<subseteq> declared defs"
    using callback_interfaces_closed(2) [OF cbs] by (auto simp: defs)
  show "(nm, methods) \<in> set (vtable_interfaces ns) \<Longrightarrow> m \<in> set methods \<Longrightarrow>
       method_async_data uc m cx = Inr (Some a) \<Longrightarrow> foreign_async_names a \<subseteq> declared defs"
    using callback_interfaces_closed(3) [OF cbs, of nm methods m a] by (simp add: defs le_supI1 le_supI2)
  show "c \<in> set (checksums ns) \<Longrightarrow> (Kind_RustFunction, cs_fn_name c) \<in> declared defs"
    "(Kind_RustFunction, ffi_uniffi_contract_version ns) \<in> declared defs"
    by (auto simp: defs checksum_closed(2))
  show "op \<in> {''alloc'', ''from_bytes'', ''free'', ''reserve''} \<Longrightarrow> rustbuffer_fn_name op cx = Inr nm \<Longrightarrow>
       (Kind_RustFunction, nm) \<in> declared defs"
    by (auto simp: defs rust_buffer_closed(2) [OF bufs crate] rustbuffer_name [OF crate] simp del: append.simps)
qed

end
