(* ===== verification/FfiUses.thy ===== *)
theory FfiUses
  imports FfiClosure
begin

text \<open>
  What the general IR of a namespace refers to, outside its FFI definitions: the scaffolding function of
  every callable, the functions that drive a future, clone and free functions, vtables, buffer and
  checksum functions.  All of it is declared.
\<close>

section \<open>What a namespace uses\<close>

definition option_uses :: "('a \<Rightarrow> (FfiKind \<times> string) set) \<Rightarrow> 'a option \<Rightarrow> (FfiKind \<times> string) set" where
  "option_uses uses x = (case x of None \<Rightarrow> {} | Some a \<Rightarrow> uses a)"

definition callable_uses :: "Callable \<Rightarrow> (FfiKind \<times> string) set" where
  "callable_uses c = insert (Kind_RustFunction, ca_ffi_func c) (option_uses rust_async_names (ca_async_data c))"

text \<open>A method that the foreign side implements is reached through the vtable, not through an exported function.\<close>

definition foreign_callable_uses :: "Callable \<Rightarrow> (FfiKind \<times> string) set" where
  "foreign_callable_uses c = option_uses (\<lambda>a. rust_async_names a \<union> foreign_async_names a) (ca_async_data c)"

definition vtable_uses :: "VTable \<Rightarrow> (FfiKind \<times> string) set" where
  "vtable_uses v =
     {(Kind_RustFunction, vt_init_fn v), (Kind_FunctionType, vt_clone_fn_type v), (Kind_FunctionType, vt_free_fn_type v)} \<union>
     type_refs (vt_struct_type v # map vm_ffi_type (vt_methods v)) \<union>
     (\<Union>m \<in> set (vt_methods v). foreign_callable_uses (vm_callable m))"

text \<open>The methods of an interface that the foreign side can implement are exported by Rust as well.\<close>

definition vtable_funcs :: "VTable \<Rightarrow> (FfiKind \<times> string) set" where
  "vtable_funcs v = (\<lambda>m. (Kind_RustFunction, ca_ffi_func (vm_callable m))) ` set (vt_methods v)"

definition methods_of_traits :: "UniffiTraitMethods \<Rightarrow> Method set" where
  "methods_of_traits t = set_option (ut_debug_fmt t) \<union> set_option (ut_display_fmt t) \<union> set_option (ut_eq_eq t) \<union>
     set_option (ut_eq_ne t) \<union> set_option (ut_hash_hash t) \<union> set_option (ut_ord_cmp t)"

definition methods_uses :: "Method list \<Rightarrow> UniffiTraitMethods \<Rightarrow> Constructor list \<Rightarrow> (FfiKind \<times> string) set" where
  "methods_uses ms t cs = (\<Union>m \<in> set ms \<union> methods_of_traits t. callable_uses (me_callable m)) \<union>
     (\<Union>c \<in> set cs. callable_uses (co_callable c))"

fun definition_uses :: "TypeDefinition \<Rightarrow> (FfiKind \<times> string) set" where
  "definition_uses (TypeDefinition_Interface i) =
     {(Kind_RustFunction, in_ffi_func_clone i), (Kind_RustFunction, in_ffi_func_free i)} \<union>
     methods_uses (in_methods i) (in_uniffi_trait_methods i) (in_constructors i) \<union>
     option_uses (\<lambda>v. vtable_uses v \<union> vtable_funcs v) (in_vtable i)"
| "definition_uses (TypeDefinition_CallbackInterface c) =
     vtable_uses (ci_vtable c) \<union> (\<Union>m \<in> set (ci_methods c). foreign_callable_uses (me_callable m))"
| "definition_uses (TypeDefinition_Record r) = methods_uses (re_methods r) (re_uniffi_trait_methods r) (re_constructors r)"
| "definition_uses (TypeDefinition_Enum e) = methods_uses (en_methods e) (en_uniffi_trait_methods e) (en_constructors e)"
| "definition_uses _ = {}"

definition namespace_uses :: "Namespace \<Rightarrow> (FfiKind \<times> string) set" where
  "namespace_uses ns =
     (\<Union>f \<in> set (gn_functions ns). callable_uses (fu_callable f)) \<union>
     (\<Union>td \<in> set (gn_type_definitions ns). definition_uses td) \<union>
     Pair Kind_RustFunction ` (cs_fn_name ` set (gn_checksums ns) \<union>
       {gn_ffi_rustbuffer_alloc ns, gn_ffi_rustbuffer_from_bytes ns, gn_ffi_rustbuffer_free ns,
        gn_ffi_rustbuffer_reserve ns, gn_ffi_uniffi_contract_version ns})"

section \<open>What a namespace names\<close>

text \<open>
  Besides what a binding is bound to, a callable carries names that serve only one side: the names of a foreign future are
  there for a callable that Rust implements, and the name of a scaffolding function is there for a method of a
  callback interface.  The FFI function of an asynchronous callable carries the names of its futures as well.
\<close>

definition async_names :: "AsyncData option \<Rightarrow> (FfiKind \<times> string) set" where
  "async_names ad = option_uses (\<lambda>a. rust_async_names a \<union> foreign_async_names a) ad"

definition callable_names :: "Callable \<Rightarrow> (FfiKind \<times> string) set" where
  "callable_names c = insert (Kind_RustFunction, ca_ffi_func c) (async_names (ca_async_data c))"

definition members_callables :: "Method list \<Rightarrow> UniffiTraitMethods \<Rightarrow> Constructor list \<Rightarrow> Callable set" where
  "members_callables ms t cs = me_callable ` (set ms \<union> methods_of_traits t) \<union> co_callable ` set cs"

fun rust_callables :: "TypeDefinition \<Rightarrow> Callable set" where
  "rust_callables (TypeDefinition_Interface i) = members_callables (in_methods i) (in_uniffi_trait_methods i) (in_constructors i)"
| "rust_callables (TypeDefinition_Record r) = members_callables (re_methods r) (re_uniffi_trait_methods r) (re_constructors r)"
| "rust_callables (TypeDefinition_Enum e) = members_callables (en_methods e) (en_uniffi_trait_methods e) (en_constructors e)"
| "rust_callables _ = {}"

fun vtable_callables :: "TypeDefinition \<Rightarrow> Callable set" where
  "vtable_callables (TypeDefinition_Interface i) = (\<Union>v \<in> set_option (in_vtable i). vm_callable ` set (vt_methods v))"
| "vtable_callables _ = {}"

fun callback_callables :: "TypeDefinition \<Rightarrow> Callable set" where
  "callback_callables (TypeDefinition_CallbackInterface c) =
     me_callable ` set (ci_methods c) \<union> vm_callable ` set (vt_methods (ci_vtable c))"
| "callback_callables _ = {}"

definition namespace_rust_callables :: "Namespace \<Rightarrow> Callable set" where
  "namespace_rust_callables ns = fu_callable ` set (gn_functions ns) \<union> (\<Union>td \<in> set (gn_type_definitions ns). rust_callables td)"

fun def_async :: "FfiDefinition \<Rightarrow> AsyncData option" where
  "def_async (FfiDefinition_RustFunction f) = ffn_async_data f"
| "def_async _ = None"

definition namespace_names :: "Namespace \<Rightarrow> (FfiKind \<times> string) set" where
  "namespace_names ns =
     namespace_uses ns \<union>
     (\<Union>c \<in> namespace_rust_callables ns. callable_names c) \<union>
     (\<Union>td \<in> set (gn_type_definitions ns). \<Union>c \<in> vtable_callables td \<union> callback_callables td. callable_names c) \<union>
     (\<Union>d \<in> set (gn_ffi_definitions ns). refs d \<union> async_names (def_async d))"

text \<open>The names that are there although nothing is bound to them.\<close>

definition unbound_names :: "Namespace \<Rightarrow> (FfiKind \<times> string) set" where
  "unbound_names ns =
     (\<Union>c \<in> namespace_rust_callables ns. option_uses foreign_async_names (ca_async_data c)) \<union>
     (\<Union>d \<in> set (gn_ffi_definitions ns). option_uses foreign_async_names (def_async d)) \<union>
     (\<Union>td \<in> set (gn_type_definitions ns). (\<lambda>c. (Kind_RustFunction, ca_ffi_func c)) ` callback_callables td)"

lemma callable_names_split:
  "callable_names c = callable_uses c \<union> option_uses foreign_async_names (ca_async_data c)"
  "callable_names c = insert (Kind_RustFunction, ca_ffi_func c) (foreign_callable_uses c)"
  by (auto simp: callable_names_def async_names_def callable_uses_def foreign_callable_uses_def option_uses_def split: option.splits)

lemma rust_callables_named:
  assumes "c \<in> rust_callables td"
  shows "callable_names c \<subseteq> definition_uses td \<union> option_uses foreign_async_names (ca_async_data c)"
  using assms unfolding callable_names_split(1) by (cases td) (auto simp: members_callables_def methods_uses_def)

lemma vtable_callables_named: "c \<in> vtable_callables td \<Longrightarrow> callable_names c \<subseteq> definition_uses td"
  unfolding callable_names_split(2) by (cases td) (auto simp: option_uses_def vtable_uses_def vtable_funcs_def)

lemma callback_callables_named:
  "c \<in> callback_callables td \<Longrightarrow> callable_names c \<subseteq> insert (Kind_RustFunction, ca_ffi_func c) (definition_uses td)"
  unfolding callable_names_split(2) by (cases td) (auto simp: vtable_uses_def)

text \<open>Apart from the futures of FFI functions, what is named and not used is unbound.\<close>

lemma namespace_names_used:
  "namespace_names ns \<subseteq> namespace_uses ns \<union> all_refs (gn_ffi_definitions ns) \<union>
     (\<Union>d \<in> set (gn_ffi_definitions ns). option_uses rust_async_names (def_async d)) \<union> unbound_names ns"
proof -
  have defs: "definition_uses td \<subseteq> namespace_uses ns" if "td \<in> set (gn_type_definitions ns)" for td
    using that by (auto simp: namespace_uses_def)
  have fns: "callable_uses (fu_callable f) \<subseteq> namespace_uses ns" if "f \<in> set (gn_functions ns)" for f
    using that by (auto simp: namespace_uses_def)
  have rust: "callable_names c \<subseteq> namespace_uses ns \<union> unbound_names ns" if c: "c \<in> namespace_rust_callables ns" for c
  proof -
    from c have "callable_names c \<subseteq> namespace_uses ns \<union> option_uses foreign_async_names (ca_async_data c)"
      using rust_callables_named defs fns by (fastforce simp: namespace_rust_callables_def callable_names_split(1))
    with c show ?thesis unfolding unbound_names_def by blast
  qed
  have foreign: "callable_names c \<subseteq> namespace_uses ns \<union> unbound_names ns"
    if "td \<in> set (gn_type_definitions ns)" "c \<in> vtable_callables td \<union> callback_callables td" for td c
    using that vtable_callables_named [of c td] callback_callables_named [of c td] defs [of td]
    unfolding unbound_names_def by blast
  have async: "async_names ad \<subseteq> option_uses rust_async_names ad \<union> option_uses foreign_async_names ad" for ad
    by (auto simp: async_names_def option_uses_def split: option.splits)
  have ffi: "refs d \<union> async_names (def_async d) \<subseteq> all_refs (gn_ffi_definitions ns) \<union>
      (\<Union>d \<in> set (gn_ffi_definitions ns). option_uses rust_async_names (def_async d)) \<union> unbound_names ns"
    if "d \<in> set (gn_ffi_definitions ns)" for d
  proof -
    have "refs d \<subseteq> all_refs (gn_ffi_definitions ns)" "option_uses foreign_async_names (def_async d) \<subseteq> unbound_names ns"
      using that unfolding all_refs_def unbound_names_def by blast+
    with async [of "def_async d"] that show ?thesis by fast
  qed
  define futures where "futures = (\<Union>d \<in> set (gn_ffi_definitions ns). option_uses rust_async_names (def_async d))"
  define bound where "bound = namespace_uses ns \<union> all_refs (gn_ffi_definitions ns) \<union> futures \<union> unbound_names ns"
  have "callable_names c \<subseteq> bound" if "c \<in> namespace_rust_callables ns" for c
    using rust [OF that] by (auto simp: bound_def)
  moreover have "callable_names c \<subseteq> bound"
    if "td \<in> set (gn_type_definitions ns)" "c \<in> vtable_callables td \<union> callback_callables td" for td c
    using foreign [OF that] by (auto simp: bound_def)
  moreover have "refs d \<union> async_names (def_async d) \<subseteq> bound" if "d \<in> set (gn_ffi_definitions ns)" for d
    using ffi [OF that, folded futures_def] unfolding bound_def by blast
  moreover have "namespace_uses ns \<subseteq> bound" by (auto simp: bound_def)
  ultimately have "namespace_names ns \<subseteq> bound" unfolding namespace_names_def by (intro Un_least UN_least) simp_all
  then show ?thesis unfolding bound_def futures_def .
qed

text \<open>Types are mapped to FFI types in the same way in all contexts of a namespace.\<close>

definition same_namespace :: "Context \<Rightarrow> Context \<Rightarrow> bool" where
  "same_namespace cx cx' \<longleftrightarrow> gc_current_namespace_name cx = gc_current_namespace_name cx' \<and>
     gc_current_crate_name cx = gc_current_crate_name cx'"

lemma same_namespace_ffi_type:
  assumes "same_namespace cx cx'"
  shows "ffi_type t cx = ffi_type t cx'"
proof -
  have buffer: "user_buffer ns cx = user_buffer ns cx'" for ns
    using assms by (simp add: user_buffer_def namespace_name_def same_namespace_def)
  show ?thesis
  proof (induction t)
    case (ITy_Custom ns nm orig builtin)
    then show ?case by (simp only: ffi_type.simps buffer)
  qed (simp_all add: buffer)
qed

lemma same_namespace_async:
  assumes "same_namespace cx cx'"
  shows "method_async_data uc m cx = method_async_data uc m cx'"
proof -
  have "async_data uc cx = async_data uc cx'"
    using assms by (simp add: async_data_def context_crate_name_def same_namespace_def fun_eq_iff)
  then show ?thesis
    by (simp add: method_async_data_def callable_async_data_def same_namespace_ffi_type [OF assms])
qed

section \<open>Callables\<close>

lemma function_callable_uses:
  assumes "map_function uc cx f = Inr fu" "gc_current_crate_name cx = Some crate"
  shows "ca_ffi_func (fu_callable fu) = fn_symbol_name crate (ifu_name f)"
    "option_uses rust_async_names (ca_async_data (fu_callable fu)) \<subseteq> (if ifu_is_async f then future_names crate else {})"
proof -
  obtain ad where "function_async_data uc f cx = Inr ad" and
    ad: "ca_async_data (fu_callable fu) = ad" "ca_ffi_func (fu_callable fu) = fn_symbol_name crate (ifu_name f)"
    using assms by (auto simp: map_function_def function_callable_def ebind_Inr_iff context_crate_name_def)
  then have ca: "callable_async_data uc (ifu_is_async f) (ifu_return_type f) cx = Inr ad"
    by (simp add: function_async_data_def)
  show "ca_ffi_func (fu_callable fu) = fn_symbol_name crate (ifu_name f)" by (fact ad(2))
  show "option_uses rust_async_names (ca_async_data (fu_callable fu)) \<subseteq> (if ifu_is_async f then future_names crate else {})"
    using callable_async_data_iff [OF ca] assms(2) by (cases ad) (auto simp: ad option_uses_def)
qed

lemma method_callable_uses:
  assumes "method_callable_with_kind uc m kind cx = Inr c" "gc_current_crate_name cx = Some crate"
    "gc_current_type cx = Some ty" "nominal_name ty = Some nm"
  shows "ca_ffi_func c = method_symbol_name crate nm (ime_name m)" "method_async_data uc m cx = Inr (ca_async_data c)"
    "option_uses rust_async_names (ca_async_data c) \<subseteq> (if ime_is_async m then future_names crate else {})"
proof -
  show f: "ca_ffi_func c = method_symbol_name crate nm (ime_name m)" and
    ad: "method_async_data uc m cx = Inr (ca_async_data c)"
    using assms by (auto simp: method_callable_with_kind_def ebind_Inr_iff context_crate_name_def current_type_name_def)
  show "option_uses rust_async_names (ca_async_data c) \<subseteq> (if ime_is_async m then future_names crate else {})"
    using callable_async_data_iff [OF ad [unfolded method_async_data_def]] assms(2)
    by (cases "ca_async_data c") (auto simp: option_uses_def)
qed

lemma interface_type_iff:
  "(case t of ITy_Interface ns nm orig imp \<Rightarrow> Inr (nm, imp) | _ \<Rightarrow> Inl e) = Inr p \<longleftrightarrow>
     (\<exists>ns orig. t = ITy_Interface ns (fst p) orig (snd p))"
  by (cases t; cases p) auto

lemma constructor_callable_uses:
  assumes "constructor_callable uc cx c = Inr k" "gc_current_crate_name cx = Some crate"
    "gc_current_type cx = Some ty" "nominal_name ty = Some nm"
  shows "ca_ffi_func k = constructor_symbol_name crate nm (ico_name c)"
    "option_uses rust_async_names (ca_async_data k) \<subseteq> (if ico_is_async c then future_names crate else {})"
    "\<exists>ns nm orig imp. ty = ITy_Interface ns nm orig imp"
proof -
  obtain self_ty ns' nm' orig' imp' where self: "map_type_node cx ty = Inr self_ty" and
    i: "tn_ty self_ty = ITy_Interface ns' nm' orig' imp'"
    and f: "ca_ffi_func k = constructor_symbol_name crate nm (ico_name c)"
    and ad: "constructor_async_data uc c nm' imp' cx = Inr (ca_async_data k)"
    using assms by (force simp: constructor_callable_def ebind_Inr_iff context_crate_name_def current_type_name_def
        context_self_type_def interface_type_iff)
  show "ca_ffi_func k = constructor_symbol_name crate nm (ico_name c)" by (fact f)
  show "option_uses rust_async_names (ca_async_data k) \<subseteq> (if ico_is_async c then future_names crate else {})"
  proof (cases "ico_is_async c")
    case True
    with ad obtain t a where "async_data uc cx t = Inr a" "ca_async_data k = Some a"
      by (auto simp: constructor_async_data_def ebind_Inr_iff)
    with True async_data_names [OF this(1) assms(2)] show ?thesis by (simp add: option_uses_def)
  next
    case False
    with ad show ?thesis by (auto simp: constructor_async_data_def option_uses_def ebind_Inr_iff)
  qed
  show "\<exists>ns nm orig imp. ty = ITy_Interface ns nm orig imp"
    using self i by (cases ty) (auto simp: map_type_node_def ebind_Inr_iff)
qed

section \<open>Type definitions\<close>

lemma map_trait_methods:
  "map_trait uc cx x s = Inr s' \<Longrightarrow> m' \<in> methods_of_traits s' \<Longrightarrow>
     m' \<in> methods_of_traits s \<or> (\<exists>m \<in> set (trait_methods x). map_method uc cx m = Inr m')"
  by (cases x) (auto simp: methods_of_traits_def ebind_Inr_iff)

lemma trait_methods_mapped:
  assumes "map_trait_vec uc traits cx = Inr t" "m' \<in> methods_of_traits t"
  shows "\<exists>m \<in> set (visit_list trait_methods traits). map_method uc cx m = Inr m'"
proof -
  let ?P = "\<lambda>t. \<forall>m' \<in> methods_of_traits t. \<exists>m \<in> set (visit_list trait_methods traits). map_method uc cx m = Inr m'"
  have "?P t"
  proof (rule efold_invariant [OF assms(1) [unfolded map_trait_vec_def], of ?P])
    show "?P no_trait_methods" by (simp add: methods_of_traits_def no_trait_methods_def)
    show "?P s'" if "x \<in> set traits" "?P s" "map_trait uc cx x s = Inr s'" for x s s'
      using that(1,2) map_trait_methods [OF that(3)] unfolding set_visit_list by blast
  qed
  with assms(2) show ?thesis by blast
qed

lemma map_method_callable:
  "map_method uc cx m = Inr m' \<Longrightarrow> \<exists>kind. method_callable_with_kind uc m kind cx = Inr (me_callable m')"
  by (auto simp: map_method_def method_callable_def ebind_Inr_iff)

lemma methods_with_kind_callable:
  "methods_with_kind uc ms cx kind = Inr ms' \<Longrightarrow> m' \<in> set ms' \<Longrightarrow>
     \<exists>m \<in> set ms. method_callable_with_kind uc m (kind m) cx = Inr (me_callable m')"
  by (fastforce simp: methods_with_kind_def ebind_Inr_iff dest!: efilter_map_mem)

lemma methods_uses_declared:
  assumes cx: "gc_current_crate_name cx = Some crate" "gc_current_type cx = Some ty" "nominal_name ty = Some nm"
    and mapped: "map_trait_vec uc traits cx = Inr t" "map_constructors uc cs cx = Inr cs'" "map_methods uc ms cx = Inr ms'"
    and methods: "\<And>m. m \<in> set ms \<union> set (visit_list trait_methods traits) \<Longrightarrow>
      (Kind_RustFunction, method_symbol_name crate nm (ime_name m)) \<in> D \<and> (ime_is_async m \<longrightarrow> future_names crate \<subseteq> D)"
    and constructors: "\<And>c ns nm' orig imp. c \<in> set cs \<Longrightarrow> ty = ITy_Interface ns nm' orig imp \<Longrightarrow>
      (Kind_RustFunction, constructor_symbol_name crate nm (ico_name c)) \<in> D \<and> (ico_is_async c \<longrightarrow> future_names crate \<subseteq> D)"
  shows "methods_uses ms' t cs' \<subseteq> D"
proof -
  have "callable_uses (me_callable m') \<subseteq> D" if m': "m' \<in> set ms' \<union> methods_of_traits t" for m'
  proof -
    from m' obtain m kind where m: "m \<in> set ms \<union> set (visit_list trait_methods traits)"
      "method_callable_with_kind uc m kind cx = Inr (me_callable m')"
      using trait_methods_mapped [OF mapped(1)] map_method_callable methods_with_kind_callable mapped(3)
      unfolding map_methods_def ebind_Inr_iff by (metis Un_iff)
    with method_callable_uses [OF m(2) cx] methods [OF m(1)] show ?thesis
      by (auto simp: callable_uses_def split: if_splits)
  qed
  moreover have "callable_uses (co_callable c') \<subseteq> D" if c': "c' \<in> set cs'" for c'
  proof -
    from c' mapped(2) obtain c where c: "c \<in> set cs" "constructor_callable uc cx c = Inr (co_callable c')"
      by (auto simp: map_constructors_def map_constructor_def ebind_Inr_iff dest!: efilter_map_mem)
    from constructor_callable_uses(3) [OF c(2) cx] constructors [OF c(1)]
    have "(Kind_RustFunction, constructor_symbol_name crate nm (ico_name c)) \<in> D \<and> (ico_is_async c \<longrightarrow> future_names crate \<subseteq> D)"
      by blast
    with constructor_callable_uses(1,2) [OF c(2) cx] show ?thesis
      by (auto simp: callable_uses_def split: if_splits)
  qed
  ultimately show ?thesis by (auto simp: methods_uses_def)
qed

lemma foreign_callable_declared:
  assumes "method_callable_with_kind uc m kind cx = Inr c" "gc_current_crate_name cx = Some crate"
    "gc_current_type cx = Some ty" "nominal_name ty = Some nm"
    "ime_is_async m \<Longrightarrow> future_names crate \<subseteq> D"
    "\<And>a. method_async_data uc m cx = Inr (Some a) \<Longrightarrow> foreign_async_names a \<subseteq> D"
  shows "foreign_callable_uses c \<subseteq> D"
  using method_callable_uses(2,3) [OF assms(1-4)] assms(5,6)
  by (cases "ca_async_data c") (auto simp: foreign_callable_uses_def option_uses_def split: if_splits)

definition vtable_method_of ::
  "(string \<Rightarrow> string) \<Rightarrow> Context \<Rightarrow> string \<Rightarrow> string \<Rightarrow> nat \<times> IMethod \<Rightarrow> PipelineError + VTableMethod" where
  "vtable_method_of uc cx ns nm = (\<lambda>(i, m). ebind (context_self_type cx) (\<lambda>self_ty.
     ebind (method_callable_with_kind uc m (CallableKind_VTableMethod self_ty (ime_takes_self_by_arc m) True) cx)
       (\<lambda>callable. Inr \<lparr>vm_callable = callable, vm_ffi_type = FfiType_Function (vtable_method_name uc ns nm i)\<rparr>)))"

lemma vtable_shape:
  assumes "vtable uc ms cx = Inr v" "gc_current_crate_name cx = Some crate" "gc_current_namespace_name cx = Some ns"
    "gc_current_type cx = Some ty" "nominal_name ty = Some nm"
  obtains vms where "emap (vtable_method_of uc cx ns nm) (List.enumerate 0 ms) = Inr vms"
    "v = \<lparr>vt_struct_type = vtable_struct_type uc ns nm, vt_interface_name = nm,
        vt_init_fn = init_callback_vtable_fn_symbol_name crate nm, vt_clone_fn_type = vtable_clone_name uc ns nm,
        vt_free_fn_type = vtable_free_name uc ns nm, vt_methods = vms\<rparr>"
proof -
  obtain vms where vms: "emap (\<lambda>(i, m). ebind (context_self_type cx) (\<lambda>self_ty.
         ebind (method_callable_with_kind uc m
           (CallableKind_VTableMethod self_ty (ime_takes_self_by_arc m) True) cx) (\<lambda>callable. Inr
           \<lparr>vm_callable = callable, vm_ffi_type = FfiType_Function (vtable_method_name uc ns nm i)\<rparr>)))
       (List.enumerate 0 ms) = Inr vms" and
    v: "v = \<lparr>vt_struct_type = vtable_struct_type uc ns nm, vt_interface_name = nm,
        vt_init_fn = init_callback_vtable_fn_symbol_name crate nm, vt_clone_fn_type = vtable_clone_name uc ns nm,
        vt_free_fn_type = vtable_free_name uc ns nm, vt_methods = vms\<rparr>"
    using assms by (auto simp: vtable_def ebind_Inr_iff context_crate_name_def namespace_name_def current_type_name_def)
  show thesis by (rule that [OF vms [folded vtable_method_of_def] v])
qed

lemma vtable_declared:
  assumes "vtable uc ms cx = Inr v" "gc_current_crate_name cx = Some crate" "gc_current_namespace_name cx = Some ns"
    "gc_current_type cx = Some ty" "nominal_name ty = Some nm"
    and refs: "vtable_refs uc crate ns nm ms \<subseteq> D"
    and async: "\<And>m. m \<in> set ms \<Longrightarrow> ime_is_async m \<Longrightarrow> future_names crate \<subseteq> D"
      "\<And>m a. m \<in> set ms \<Longrightarrow> method_async_data uc m cx = Inr (Some a) \<Longrightarrow> foreign_async_names a \<subseteq> D"
  shows "vtable_uses v \<subseteq> D"
proof -
  obtain vms where vms: "emap (vtable_method_of uc cx ns nm) (List.enumerate 0 ms) = Inr vms" and
    v: "v = \<lparr>vt_struct_type = vtable_struct_type uc ns nm, vt_interface_name = nm,
        vt_init_fn = init_callback_vtable_fn_symbol_name crate nm, vt_clone_fn_type = vtable_clone_name uc ns nm,
        vt_free_fn_type = vtable_free_name uc ns nm, vt_methods = vms\<rparr>"
    by (rule vtable_shape [OF assms(1-5)])
  have "set_option (type_ref (vm_ffi_type vm)) \<subseteq> D \<and> foreign_callable_uses (vm_callable vm) \<subseteq> D" if vm: "vm \<in> set vms" for vm
  proof -
    from emap_mem [OF vms vm] obtain i m kind where im: "(i, m) \<in> set (List.enumerate 0 ms)"
      "method_callable_with_kind uc m kind cx = Inr (vm_callable vm)"
      "vm_ffi_type vm = FfiType_Function (vtable_method_name uc ns nm i)"
      by (auto simp: vtable_method_of_def ebind_Inr_iff)
    from im(1) have "i < length ms" "m \<in> set ms" by (auto simp: in_set_enumerate_eq)
    with refs im(3) foreign_callable_declared [OF im(2) assms(2,4,5), of D] async show ?thesis
      by (auto simp: vtable_refs_def)
  qed
  then have "type_refs (map vm_ffi_type vms) \<subseteq> D" "(\<Union>m \<in> set vms. foreign_callable_uses (vm_callable m)) \<subseteq> D"
    by (auto simp: type_refs_def)
  with refs show ?thesis by (auto simp: vtable_uses_def v vtable_refs_def vtable_struct_type_def)
qed

text \<open>The scaffolding functions that the methods of a vtable name are those of the methods.\<close>

lemma vtable_funcs_symbols:
  assumes "vtable uc ms cx = Inr v" "gc_current_crate_name cx = Some crate" "gc_current_namespace_name cx = Some ns"
    "gc_current_type cx = Some ty" "nominal_name ty = Some nm"
  shows "vtable_funcs v \<subseteq> (\<lambda>m. (Kind_RustFunction, method_symbol_name crate nm (ime_name m))) ` set ms"
proof -
  obtain vms where vms: "emap (vtable_method_of uc cx ns nm) (List.enumerate 0 ms) = Inr vms" and v: "vt_methods v = vms"
    by (rule vtable_shape [OF assms]) simp
  have "ca_ffi_func (vm_callable vm) \<in> (\<lambda>m. method_symbol_name crate nm (ime_name m)) ` set ms" if vm: "vm \<in> set vms" for vm
  proof -
    from emap_mem [OF vms vm] obtain i m kind where im: "(i, m) \<in> set (List.enumerate 0 ms)"
      "method_callable_with_kind uc m kind cx = Inr (vm_callable vm)"
      by (auto simp: vtable_method_of_def ebind_Inr_iff)
    from im(1) have "m \<in> set ms" by (auto simp: in_set_enumerate_eq)
    with method_callable_uses(1) [OF im(2) assms(2,4,5)] show ?thesis by blast
  qed
  then show ?thesis by (auto simp: vtable_funcs_def v)
qed

lemma item_case_iff:
  "(case td of ITypeDefinition_Interface i \<Rightarrow> Some i | _ \<Rightarrow> None) = Some x \<longleftrightarrow> td = ITypeDefinition_Interface x"
  "(case td of ITypeDefinition_Record r \<Rightarrow> Some r | _ \<Rightarrow> None) = Some y \<longleftrightarrow> td = ITypeDefinition_Record y"
  "(case td of ITypeDefinition_Enum e \<Rightarrow> Some e | _ \<Rightarrow> None) = Some z \<longleftrightarrow> td = ITypeDefinition_Enum z"
  "(case td of ITypeDefinition_CallbackInterface c \<Rightarrow> Some c | _ \<Rightarrow> None) = Some w \<longleftrightarrow>
     td = ITypeDefinition_CallbackInterface w"
  by (cases td; simp)+

lemma namespace_items_iff:
  "i \<in> set (namespace_interfaces ns) \<longleftrightarrow> ITypeDefinition_Interface i \<in> set (ins_type_definitions ns)"
  "r \<in> set (namespace_records ns) \<longleftrightarrow> ITypeDefinition_Record r \<in> set (ins_type_definitions ns)"
  "e \<in> set (namespace_enums ns) \<longleftrightarrow> ITypeDefinition_Enum e \<in> set (ins_type_definitions ns)"
  "c \<in> set (namespace_callback_interfaces ns) \<longleftrightarrow> ITypeDefinition_CallbackInterface c \<in> set (ins_type_definitions ns)"
  unfolding namespace_interfaces_def namespace_records_def namespace_enums_def namespace_callback_interfaces_def
    map_filter_mem item_case_iff by simp_all

lemma scaffolding_namesI:
  "f \<in> set (ins_functions ns) \<Longrightarrow> fn_symbol_name crate (ifu_name f) \<in> scaffolding_names crate ns"
  "ITypeDefinition_Interface i \<in> set (ins_type_definitions ns) \<Longrightarrow> m \<in> set (definition_methods (ITypeDefinition_Interface i)) \<Longrightarrow>
     method_symbol_name crate (iin_name i) (ime_name m) \<in> scaffolding_names crate ns"
  "ITypeDefinition_Interface i \<in> set (ins_type_definitions ns) \<Longrightarrow> c \<in> set (iin_constructors i) \<Longrightarrow>
     constructor_symbol_name crate (iin_name i) (ico_name c) \<in> scaffolding_names crate ns"
  "ITypeDefinition_Record r \<in> set (ins_type_definitions ns) \<Longrightarrow> m \<in> set (definition_methods (ITypeDefinition_Record r)) \<Longrightarrow>
     method_symbol_name crate (ire_name r) (ime_name m) \<in> scaffolding_names crate ns"
  "ITypeDefinition_Enum e \<in> set (ins_type_definitions ns) \<Longrightarrow> m \<in> set (definition_methods (ITypeDefinition_Enum e)) \<Longrightarrow>
     method_symbol_name crate (ien_name e) (ime_name m) \<in> scaffolding_names crate ns"
  unfolding scaffolding_names_def namespace_items_iff [symmetric] by blast+

lemma async_member:
  "td \<in> set (ins_type_definitions ns) \<Longrightarrow> m \<in> set (definition_methods td) \<Longrightarrow> ime_is_async m \<Longrightarrow> has_async_fns ns"
  "td \<in> set (ins_type_definitions ns) \<Longrightarrow> c \<in> set (definition_constructors td) \<Longrightarrow> ico_is_async c \<Longrightarrow> has_async_fns ns"
  "f \<in> set (ins_functions ns) \<Longrightarrow> ifu_is_async f \<Longrightarrow> has_async_fns ns"
  by (auto simp: has_async_fns_def namespace_methods_def namespace_constructors_def)

text \<open>The context of a namespace, and the one of a type in it.\<close>

definition namespace_context :: "INamespace \<Rightarrow> Context \<Rightarrow> bool" where
  "namespace_context ns cx \<longleftrightarrow> gc_current_namespace_name cx = Some (ins_name ns) \<and>
     gc_current_crate_name cx = Some (ins_crate_name ns)"

lemma update_from_namespace_context:
  assumes "update_from_namespace ns cx = Inr cx'"
  shows "namespace_context ns cx'"
proof -
  let ?cx = "cx\<lparr>gc_current_namespace_name := Some (ins_name ns), gc_current_crate_name := Some (ins_crate_name ns)\<rparr>"
  obtain xs cx1 where fold: "efold update_from_throws xs ?cx = Inr cx1" and
    cx': "namespace_context ns cx' = namespace_context ns cx1"
    using assms by (auto simp: update_from_namespace_def populate_names_used_as_error_def ebind_Inr_iff namespace_context_def)
  have "namespace_context ns cx1"
    by (rule efold_invariant [OF fold, of "namespace_context ns"])
      (auto simp: namespace_context_def update_from_throws_def ebind_Inr_iff split: option.splits)
  with cx' show ?thesis by simp
qed

lemma type_context:
  assumes "update_type t cx = Inr cx'" "namespace_context ns cx"
  shows "namespace_context ns cx'" "same_namespace cx' cx" "\<exists>ty. t = Inr ty \<and> gc_current_type cx' = Some ty"
  using assms by (auto simp: update_type_def ebind_Inr_iff namespace_context_def same_namespace_def)

text \<open>What the parts of a type definition of the namespace need.\<close>

lemma member_declared:
  assumes td: "td \<in> set (ins_type_definitions ns)"
    and ns: "namespace_context ns cx" and defs: "unsorted_ffi_defs uc ns cx = Inr defs"
  shows "m \<in> set (definition_methods td) \<Longrightarrow> ime_is_async m \<longrightarrow> future_names (ins_crate_name ns) \<subseteq> declared defs"
    "c \<in> set (definition_constructors td) \<Longrightarrow> ico_is_async c \<longrightarrow> future_names (ins_crate_name ns) \<subseteq> declared defs"
    "s \<in> scaffolding_names (ins_crate_name ns) ns \<Longrightarrow> (Kind_RustFunction, s) \<in> declared defs"
    "(nm, ms) \<in> set (vtable_interfaces ns) \<Longrightarrow> m \<in> set ms \<Longrightarrow> method_async_data uc m cx' = Inr (Some a) \<Longrightarrow>
       same_namespace cx' cx \<Longrightarrow> foreign_async_names a \<subseteq> declared defs"
    "(nm, ms) \<in> set (vtable_interfaces ns) \<Longrightarrow>
       vtable_refs uc (ins_crate_name ns) (ins_name ns) nm ms \<subseteq> declared defs"
proof -
  from ns have "gc_current_crate_name cx = Some (ins_crate_name ns)" by (simp add: namespace_context_def)
  note closed = unsorted_closed [OF defs this]
  show "m \<in> set (definition_methods td) \<Longrightarrow> ime_is_async m \<longrightarrow> future_names (ins_crate_name ns) \<subseteq> declared defs"
    "c \<in> set (definition_constructors td) \<Longrightarrow> ico_is_async c \<longrightarrow> future_names (ins_crate_name ns) \<subseteq> declared defs"
    using closed(5) async_member(1,2) [OF td] by blast+
  show "s \<in> scaffolding_names (ins_crate_name ns) ns \<Longrightarrow> (Kind_RustFunction, s) \<in> declared defs"
    using closed(3) by blast
  show "(nm, ms) \<in> set (vtable_interfaces ns) \<Longrightarrow> m \<in> set ms \<Longrightarrow> method_async_data uc m cx' = Inr (Some a) \<Longrightarrow>
       same_namespace cx' cx \<Longrightarrow> foreign_async_names a \<subseteq> declared defs"
    using closed(7) same_namespace_async by metis
  show "(nm, ms) \<in> set (vtable_interfaces ns) \<Longrightarrow>
       vtable_refs uc (ins_crate_name ns) (ins_name ns) nm ms \<subseteq> declared defs" by (rule closed(6))
qed

lemma record_uses_declared:
  assumes map: "map_record uc cx r = Inr x" and td: "ITypeDefinition_Record r \<in> set (ins_type_definitions ns)"
    and ns: "namespace_context ns cx" and defs: "unsorted_ffi_defs uc ns cx = Inr defs"
  shows "definition_uses (TypeDefinition_Record x) \<subseteq> declared defs"
proof -
  note member = member_declared [OF td ns defs]
  obtain cx' where cx': "update_type (type_for_record r cx) cx = Inr cx'" and
    x: "map_trait_vec uc (ire_uniffi_traits r) cx' = Inr (re_uniffi_trait_methods x)"
    "map_constructors uc (ire_constructors r) cx' = Inr (re_constructors x)" "map_methods uc (ire_methods r) cx' = Inr (re_methods x)"
    using map by (auto simp: map_record_def ebind_Inr_iff)
  note t = type_context [OF cx' ns]
  obtain orig where ty: "gc_current_type cx' = Some (ITy_Record (ins_name ns) (ire_name r) orig)"
    using t(3) ns by (auto simp: type_for_record_def namespace_name_def ebind_Inr_iff namespace_context_def)
  have methods: "\<forall>m \<in> set (definition_methods (ITypeDefinition_Record r)). (Kind_RustFunction, method_symbol_name (ins_crate_name ns) (ire_name r) (ime_name m)) \<in> declared defs \<and>
      (ime_is_async m \<longrightarrow> future_names (ins_crate_name ns) \<subseteq> declared defs)"
    using member(3) scaffolding_namesI(4) td member(1) by blast
  have "methods_uses (re_methods x) (re_uniffi_trait_methods x) (re_constructors x) \<subseteq> declared defs"
    by (rule methods_uses_declared [OF _ ty _ x(1-3), where nm = "ire_name r"])
      (use t(1) methods in \<open>auto simp add: namespace_context_def\<close>)
  then show ?thesis by simp
qed

lemma enum_uses_declared:
  assumes map: "map_enum uc cx e = Inr x" and td: "ITypeDefinition_Enum e \<in> set (ins_type_definitions ns)"
    and ns: "namespace_context ns cx" and defs: "unsorted_ffi_defs uc ns cx = Inr defs"
  shows "definition_uses (TypeDefinition_Enum x) \<subseteq> declared defs"
proof -
  note member = member_declared [OF td ns defs]
  obtain cx' where cx': "update_type (type_for_enum e cx) cx = Inr cx'" and
    x: "map_trait_vec uc (ien_uniffi_traits e) cx' = Inr (en_uniffi_trait_methods x)"
    "map_constructors uc (ien_constructors e) cx' = Inr (en_constructors x)" "map_methods uc (ien_methods e) cx' = Inr (en_methods x)"
    using map by (auto simp: map_enum_def ebind_Inr_iff)
  note t = type_context [OF cx' ns]
  obtain orig where ty: "gc_current_type cx' = Some (ITy_Enum (ins_name ns) (ien_name e) orig)"
    using t(3) ns by (auto simp: type_for_enum_def namespace_name_def ebind_Inr_iff namespace_context_def)
  have methods: "\<forall>m \<in> set (definition_methods (ITypeDefinition_Enum e)). (Kind_RustFunction, method_symbol_name (ins_crate_name ns) (ien_name e) (ime_name m)) \<in> declared defs \<and>
      (ime_is_async m \<longrightarrow> future_names (ins_crate_name ns) \<subseteq> declared defs)"
    using member(3) scaffolding_namesI(5) td member(1) by blast
  have "methods_uses (en_methods x) (en_uniffi_trait_methods x) (en_constructors x) \<subseteq> declared defs"
    by (rule methods_uses_declared [OF _ ty _ x(1-3), where nm = "ien_name e"])
      (use t(1) methods in \<open>auto simp add: namespace_context_def\<close>)
  then show ?thesis by simp
qed

lemma interface_uses_declared:
  assumes map: "map_interface uc cx i = Inr x" and td: "ITypeDefinition_Interface i \<in> set (ins_type_definitions ns)"
    and ns: "namespace_context ns cx" and defs: "unsorted_ffi_defs uc ns cx = Inr defs"
  shows "definition_uses (TypeDefinition_Interface x) \<subseteq> declared defs"
proof -
  note member = member_declared [OF td ns defs]
  obtain cx' where cx': "update_type (type_for_interface i cx) cx = Inr cx'" and
    x: "map_trait_vec uc (iin_uniffi_traits i) cx' = Inr (in_uniffi_trait_methods x)"
    "map_constructors uc (iin_constructors i) cx' = Inr (in_constructors x)" "map_methods uc (iin_methods i) cx' = Inr (in_methods x)"
    and v: "vtable_for_interface uc i cx' = Inr (in_vtable x)" and
    fns: "ffi_clone_name (iin_name i) cx' = Inr (in_ffi_func_clone x)" "ffi_free_name (iin_name i) cx' = Inr (in_ffi_func_free x)"
    using map by (auto simp: map_interface_def ebind_Inr_iff)
  note t = type_context [OF cx' ns]
  obtain orig where ty: "gc_current_type cx' = Some (ITy_Interface (ins_name ns) (iin_name i) orig (iin_imp i))"
    using t(3) ns by (auto simp: type_for_interface_def namespace_name_def ebind_Inr_iff namespace_context_def)
  have i: "i \<in> set (namespace_interfaces ns)" using td by (simp add: namespace_items_iff)
  have methods: "\<forall>m \<in> set (definition_methods (ITypeDefinition_Interface i)). (Kind_RustFunction, method_symbol_name (ins_crate_name ns) (iin_name i) (ime_name m)) \<in> declared defs \<and>
      (ime_is_async m \<longrightarrow> future_names (ins_crate_name ns) \<subseteq> declared defs)"
    using member(3) scaffolding_namesI(2) td member(1) by blast
  have constructors: "\<forall>c \<in> set (iin_constructors i). (Kind_RustFunction, constructor_symbol_name (ins_crate_name ns) (iin_name i) (ico_name c)) \<in> declared defs \<and>
      (ico_is_async c \<longrightarrow> future_names (ins_crate_name ns) \<subseteq> declared defs)"
    using member(3) scaffolding_namesI(3) td member(2) unfolding definition_constructors.simps by blast
  have "methods_uses (in_methods x) (in_uniffi_trait_methods x) (in_constructors x) \<subseteq> declared defs"
    by (rule methods_uses_declared [OF _ ty _ x(1-3), where nm = "iin_name i"])
      (use t(1) methods constructors in \<open>auto simp add: namespace_context_def\<close>)
  moreover have "vtable_uses v' \<union> vtable_funcs v' \<subseteq> declared defs" if v': "in_vtable x = Some v'" for v'
  proof -
    from v v' have vt: "vtable uc (iin_methods i) cx' = Inr v'" and cb: "has_callback_interface (iin_imp i)"
      by (auto simp: vtable_for_interface_def ebind_Inr_iff split: if_splits)
    from i cb have mem: "(iin_name i, iin_methods i) \<in> set (vtable_interfaces ns)" by (auto simp: vtable_interfaces_def)
    have async: "\<forall>m \<in> set (iin_methods i). ime_is_async m \<longrightarrow> future_names (ins_crate_name ns) \<subseteq> declared defs"
      using member(1) unfolding definition_methods.simps set_append by blast
    have "vtable_uses v' \<subseteq> declared defs"
      by (rule vtable_declared [OF vt _ _ ty])
        (use t(1,2) member(5) [OF mem] member(4) [OF mem] async in \<open>auto simp: namespace_context_def\<close>)
    moreover have "vtable_funcs v' \<subseteq> declared defs"
      using vtable_funcs_symbols [OF vt _ _ ty] t(1) methods by (fastforce simp: namespace_context_def)
    ultimately show ?thesis by simp
  qed
  moreover have "{(Kind_RustFunction, in_ffi_func_clone x), (Kind_RustFunction, in_ffi_func_free x)} \<subseteq> declared defs"
    using unsorted_closed(4) [OF defs _ i] ns fns t(1) by (simp add: ffi_clone_name_def ffi_free_name_def context_crate_name_def ebind_Inr_iff namespace_context_def)
  ultimately show ?thesis by (cases "in_vtable x") (simp_all add: option_uses_def)
qed

lemma callback_interface_uses_declared:
  assumes map: "map_callback_interface uc cx c = Inr x" and td: "ITypeDefinition_CallbackInterface c \<in> set (ins_type_definitions ns)"
    and ns: "namespace_context ns cx" and defs: "unsorted_ffi_defs uc ns cx = Inr defs"
  shows "definition_uses (TypeDefinition_CallbackInterface x) \<subseteq> declared defs"
proof -
  note member = member_declared [OF td ns defs]
  obtain cx' where cx': "update_type (type_for_callback_interface c cx) cx = Inr cx'" and
    v: "vtable uc (icb_methods c) cx' = Inr (ci_vtable x)" and
    ms: "callback_interface_methods uc (icb_methods c) cx' = Inr (ci_methods x)"
    using map by (auto simp: map_callback_interface_def ebind_Inr_iff)
  note t = type_context [OF cx' ns]
  obtain orig where ty: "gc_current_type cx' = Some (ITy_CallbackInterface (ins_name ns) (icb_name c) orig)"
    using t(3) ns by (auto simp: type_for_callback_interface_def namespace_name_def ebind_Inr_iff namespace_context_def)
  have mem: "(icb_name c, icb_methods c) \<in> set (vtable_interfaces ns)"
    using td by (auto simp: namespace_items_iff vtable_interfaces_def)
  have async: "\<forall>m \<in> set (icb_methods c). ime_is_async m \<longrightarrow> future_names (ins_crate_name ns) \<subseteq> declared defs"
    using member(1) unfolding definition_methods.simps by blast
  have "vtable_uses (ci_vtable x) \<subseteq> declared defs"
    by (rule vtable_declared [OF v _ _ ty])
      (use t(1,2) member(5) [OF mem] member(4) [OF mem] async in \<open>auto simp: namespace_context_def\<close>)
  moreover have "foreign_callable_uses (me_callable m') \<subseteq> declared defs" if m': "m' \<in> set (ci_methods x)" for m'
  proof -
    obtain m kind where m: "m \<in> set (icb_methods c)" "method_callable_with_kind uc m kind cx' = Inr (me_callable m')"
      using ms m' methods_with_kind_callable unfolding callback_interface_methods_def ebind_Inr_iff by blast
    show ?thesis
      by (rule foreign_callable_declared [OF m(2) _ ty])
        (use t(1,2) m(1) member(4) [OF mem] async in \<open>auto simp: namespace_context_def\<close>)
  qed
  ultimately show ?thesis by auto
qed

lemma definition_uses_declared:
  assumes "map_type_definition uc cx td = Inr d" "td \<in> set (ins_type_definitions ns)"
    "namespace_context ns cx" "unsorted_ffi_defs uc ns cx = Inr defs"
  shows "definition_uses d \<subseteq> declared defs"
  using assms(1,2) record_uses_declared [OF _ _ assms(3,4)] enum_uses_declared [OF _ _ assms(3,4)]
    interface_uses_declared [OF _ _ assms(3,4)] callback_interface_uses_declared [OF _ _ assms(3,4)]
  by (cases td) (simp_all add: ebind_Inr_iff del: definition_uses.simps(1-4), blast+, auto)

section \<open>Namespaces\<close>

lemma marked_uses: "definition_uses (mark_recursive names td) = definition_uses td"
  by (cases td) (simp_all add: mark_recursive_def)

lemma api_definitions_no_uses:
  assumes "api_type_definitions ns cx = Inr defs" "d \<in> set defs"
  shows "definition_uses d = {}"
proof -
  have "definition_uses d = {}" if "definition_of_type current cx n t = Inr ds" "d \<in> set ds" for current n t ds d
    using that by (cases t) (auto simp: inner_definition_def external_definition_def ebind_Inr_iff split: if_splits)
  moreover obtain dss where dss: "emap (\<lambda>t. ebind (map_type_node cx t) (\<lambda>self_ty. definition_of_type (ins_name ns) cx self_ty t))
       (index_set (ITy_String # namespace_types ns)) = Inr dss" "defs = concat dss"
    using assms(1) unfolding api_type_definitions_def ebind_Inr_iff by blast
  moreover obtain ds where "ds \<in> set dss" "d \<in> set ds" using assms(2) dss(2) by auto
  moreover from emap_mem [OF dss(1) this(1)] obtain t n where "definition_of_type (ins_name ns) cx n t = Inr ds"
    unfolding ebind_Inr_iff by blast
  ultimately show ?thesis by blast
qed

lemma type_definitions_use_declared:
  assumes tdefs: "namespace_type_definitions uc ns cx = Inr tdefs" and td: "td \<in> set tdefs"
    and ns: "namespace_context ns cx" and defs: "unsorted_ffi_defs uc ns cx = Inr defs"
  shows "definition_uses td \<subseteq> declared defs"
proof -
  obtain own api where own: "efilter_map (\<lambda>td. should_exclude_toplevel_item (i_definition_name td) cx)
      (map_type_definition uc cx) (ins_type_definitions ns) = Inr own" and api: "api_type_definitions ns cx = Inr api" and
    t: "tdefs = sort_type_definitions (infer_recursive_types (own @ api))"
    using tdefs by (auto simp: namespace_type_definitions_def ebind_Inr_iff)
  from td have "td \<in> set (infer_recursive_types (own @ api))"
    unfolding t sort_type_definitions_def by (rule subsetD [OF dependency_sort_names(2)])
  then obtain d names where d: "d \<in> set own \<union> set api" "td = mark_recursive names d"
    unfolding infer_recursive_types_def by auto
  from d(1) show ?thesis
  proof
    assume "d \<in> set own"
    from efilter_map_mem [OF own this] obtain itd where "itd \<in> set (ins_type_definitions ns)"
      "map_type_definition uc cx itd = Inr d" by blast
    from definition_uses_declared [OF this(2,1) ns defs] show ?thesis by (simp add: d(2) marked_uses)
  next
    assume "d \<in> set api"
    from api_definitions_no_uses [OF api this] show ?thesis by (simp add: d(2) marked_uses)
  qed
qed

text \<open>The FFI definitions of a mapped namespace declare what the unsorted ones do.\<close>

lemma map_namespace_defs:
  assumes "map_namespace uc ns cx = Inr ns'"
  obtains cx' defs where "namespace_context ns cx'" "unsorted_ffi_defs uc ns cx' = Inr defs"
    "declared (gn_ffi_definitions ns') = declared defs" "all_refs (gn_ffi_definitions ns') \<subseteq> declared defs"
    "update_from_namespace ns cx = Inr cx'"
proof -
  obtain cx' defs where cx': "update_from_namespace ns cx = Inr cx'" and
    defs: "unsorted_ffi_defs uc ns cx' = Inr defs" and ns': "gn_ffi_definitions ns' = index_set (sort_ffi_definitions defs)"
    using assms unfolding map_namespace_def ebind_Inr_iff by force
  have nscx: "namespace_context ns cx'" by (rule update_from_namespace_context [OF cx'])
  then have "gc_current_crate_name cx' = Some (ins_crate_name ns)" by (simp add: namespace_context_def)
  note closed = unsorted_closed [OF defs this]
  have "declared (gn_ffi_definitions ns') = declared defs" "all_refs (gn_ffi_definitions ns') \<subseteq> declared defs"
    using sort_declared [OF closed(1,2)] by (simp_all add: ns' declared_def all_refs_def)
  with that nscx defs cx' show thesis by blast
qed

section \<open>The futures of FFI functions\<close>

definition sync_defs :: "FfiDefinition list \<Rightarrow> bool" where
  "sync_defs ds \<longleftrightarrow> (\<forall>d \<in> set ds. def_async d = None)"

lemma sync_defs_simps [simp]:
  "sync_defs []" "sync_defs (d # ds) \<longleftrightarrow> def_async d = None \<and> sync_defs ds" "sync_defs (ds @ es) \<longleftrightarrow> sync_defs ds \<and> sync_defs es"
  "def_async (rust_fn nm args ret status kind) = None" "def_async (fn_type nm args ret status) = None"
  by (auto simp: sync_defs_def rust_fn_def fn_type_def)

lemma sync_defs_concat: "sync_defs (concat dss) \<longleftrightarrow> (\<forall>ds \<in> set dss. sync_defs ds)"
  by (auto simp: sync_defs_def)

lemma sync_parts:
  "rust_buffer_defs cx = Inr defs \<Longrightarrow> sync_defs defs" "sync_defs (checksum_defs ns)"
  "object_defs ns cx = Inr defs \<Longrightarrow> sync_defs defs" "sync_defs (rust_future_defs ns)"
proof -
  show "rust_buffer_defs cx = Inr defs \<Longrightarrow> sync_defs defs" by (auto simp: rust_buffer_defs_def ebind_Inr_iff)
  show "sync_defs (checksum_defs ns)" by (auto simp: checksum_defs_def sync_defs_def rust_fn_def)
  show "sync_defs defs" if o: "object_defs ns cx = Inr defs"
  proof -
    obtain dss where dss: "emap (\<lambda>i.
         let handle = handle_type (ins_name ns) (iin_name i) (iin_imp i) in
         ebind (ffi_clone_name (iin_name i) cx) (\<lambda>clone_nm. ebind (ffi_free_name (iin_name i) cx) (\<lambda>free_nm. Inr
           [rust_fn clone_nm [ffi_arg ''ptr'' handle] (Some handle) True FfiFunctionKind_ObjectClone,
            rust_fn free_nm [ffi_arg ''ptr'' handle] None True FfiFunctionKind_ObjectFree])))
         (namespace_interfaces ns) = Inr dss" "defs = concat dss"
      using o unfolding object_defs_def ebind_Inr_iff by blast
    have "sync_defs ds" if "ds \<in> set dss" for ds
      using emap_mem [OF dss(1) that] by (auto simp: Let_def ebind_Inr_iff)
    then show ?thesis by (simp add: dss(2) sync_defs_concat)
  qed
  show "sync_defs (rust_future_defs ns)"
    by (auto simp: rust_future_defs_def sync_defs_concat ffi_rust_future_poll_def ffi_rust_future_cancel_def
        ffi_rust_future_complete_def ffi_rust_future_free_def)
qed

lemma callback_interfaces_sync:
  assumes "callback_interface_defs uc ns cx = Inr defs"
  shows "sync_defs defs"
proof -
  have m: "sync_defs ds" if m: "vtable_method_defs uc n nm cx im = Inr ds" for n nm im ds
    using m by (auto simp: vtable_method_defs_def ebind_Inr_iff foreign_future_defs_def split: prod.splits option.splits)
  have v: "sync_defs ds" if vt: "add_vtable_ffi_defs uc crate n cx im = Inr ds" for crate n im ds
  proof -
    obtain nm ms where im: "im = (nm, ms)" by fastforce
    obtain dss where dss: "emap (vtable_method_defs uc n nm cx) (List.enumerate 0 ms) = Inr dss" and
      ds: "ds = concat dss @ drop (length (concat dss)) ds" "sync_defs (drop (length (concat dss)) ds)"
      using vt unfolding im add_vtable_ffi_defs_def by (auto simp: ebind_Inr_iff Let_def vtable_struct_def)
    have "sync_defs (concat dss)" using emap_mem [OF dss] m unfolding sync_defs_concat by blast
    with ds show ?thesis by (metis sync_defs_simps(3))
  qed
  obtain dss where dss: "emap (add_vtable_ffi_defs uc (ins_crate_name ns) (ins_name ns) cx) (vtable_interfaces ns) = Inr dss"
    "defs = concat dss @ drop (length (concat dss)) defs" "sync_defs (drop (length (concat dss)) defs)"
    using assms by (auto simp: callback_interface_defs_def ebind_Inr_iff)
  have "sync_defs (concat dss)" using emap_mem [OF dss(1)] v unfolding sync_defs_concat by blast
  with dss(2,3) show ?thesis by (metis sync_defs_simps(3))
qed

lemma ffi_def_async: "ffi_def nm args ret ad cx = Inr d \<Longrightarrow> def_async d = ad"
  by (cases ad) (auto simp: ffi_def_def ebind_Inr_iff)

lemma scaffolding_async:
  assumes "gc_current_crate_name cx = Some crate" "def_async d = Some a"
  shows "function_ffi_def uc c cx f = Inr d \<Longrightarrow> ifu_is_async f \<and> rust_async_names a \<subseteq> future_names crate"
    "method_ffi_def uc c ty cx m = Inr d \<Longrightarrow> ime_is_async m \<and> rust_async_names a \<subseteq> future_names crate"
    "constructor_ffi_def uc c ty nm imp cx k = Inr d \<Longrightarrow> ico_is_async k \<and> rust_async_names a \<subseteq> future_names crate"
proof -
  have ad: "b \<and> rust_async_names a \<subseteq> future_names crate" if "callable_async_data uc b t cx = Inr (Some a)" for b t
    using callable_async_data_iff [OF that] assms(1) by simp
  show "function_ffi_def uc c cx f = Inr d \<Longrightarrow> ifu_is_async f \<and> rust_async_names a \<subseteq> future_names crate"
    "method_ffi_def uc c ty cx m = Inr d \<Longrightarrow> ime_is_async m \<and> rust_async_names a \<subseteq> future_names crate"
    using assms(2) ad
    by (simp_all add: function_ffi_def_def method_ffi_def_def function_async_data_def method_async_data_def ebind_Inr_iff)
      (metis ffi_def_async)+
  have cons: "ico_is_async k \<and> rust_async_names a \<subseteq> future_names crate"
    if "constructor_async_data uc k nm imp cx = Inr (Some a)"
    using that async_data_names [OF _ assms(1)] by (auto simp: constructor_async_data_def ebind_Inr_iff split: if_splits)
  then show "constructor_ffi_def uc c ty nm imp cx k = Inr d \<Longrightarrow> ico_is_async k \<and> rust_async_names a \<subseteq> future_names crate"
    using assms(2) by (simp add: constructor_ffi_def_def ebind_Inr_iff) (metis ffi_def_async)
qed

lemma ffi_functions_async:
  assumes "ffi_function_defs uc ns cx = Inr defs" "gc_current_crate_name cx = Some crate" "d \<in> set defs" "def_async d = Some a"
  shows "has_async_fns ns \<and> rust_async_names a \<subseteq> future_names crate"
proof -
  note async = scaffolding_async [OF assms(2,4)]
  let ?ity = "\<lambda>i. ITy_Interface (ins_name ns) (iin_name i) (iin_orig_name i) (iin_imp i)"
  have item: "td \<in> set (ins_type_definitions ns) \<Longrightarrow> m \<in> set (definition_methods td) \<Longrightarrow>
      method_ffi_def uc c ty cx m = Inr d \<Longrightarrow> ?thesis" for td m c ty
    using async(2) async_member(1) by blast
  have cons: "i \<in> set (namespace_interfaces ns) \<Longrightarrow> k \<in> set (iin_constructors i) \<Longrightarrow>
      constructor_ffi_def uc c ty nm imp cx k = Inr d \<Longrightarrow> ?thesis" for i k c ty nm imp
    using async(3) async_member(2) [of "ITypeDefinition_Interface i"] by (auto simp: namespace_items_iff)
  obtain fs ints rs es where
    fs: "emap (function_ffi_def uc crate cx) (ins_functions ns) = Inr fs" and
    ints: "emap (\<lambda>i. ebind (emap (method_ffi_def uc crate (?ity i) cx) (definition_methods (ITypeDefinition_Interface i)))
        (\<lambda>methods. ebind (emap (constructor_ffi_def uc crate (?ity i) (iin_name i) (iin_imp i) cx) (iin_constructors i))
        (\<lambda>constructors. Inr (methods @ constructors)))) (namespace_interfaces ns) = Inr ints" and
    rs: "emap (\<lambda>r. emap (method_ffi_def uc crate (ITy_Record (ins_name ns) (ire_name r) (ire_orig_name r)) cx)
        (definition_methods (ITypeDefinition_Record r))) (namespace_records ns) = Inr rs" and
    es: "emap (\<lambda>e. emap (method_ffi_def uc crate (ITy_Enum (ins_name ns) (ien_name e) (ien_orig_name e)) cx)
        (definition_methods (ITypeDefinition_Enum e))) (namespace_enums ns) = Inr es" and
    defs: "defs = fs @ concat ints @ concat rs @ concat es"
    using assms(1,2) by (auto simp: ffi_function_defs_def ebind_Inr_iff context_crate_name_def Let_def simp del: definition_methods.simps)
  from assms(3) consider "d \<in> set fs" | ds where "ds \<in> set ints" "d \<in> set ds" | ds where "ds \<in> set rs" "d \<in> set ds"
    | ds where "ds \<in> set es" "d \<in> set ds" unfolding defs by auto
  then show ?thesis
  proof cases
    case 1
    with emap_mem [OF fs] async(1) async_member(3) show ?thesis by blast
  next
    case (2 ds)
    from emap_mem [OF ints this(1)] obtain i ms cs where i: "i \<in> set (namespace_interfaces ns)" and
      ms: "emap (method_ffi_def uc crate (?ity i) cx) (definition_methods (ITypeDefinition_Interface i)) = Inr ms" and
      cs: "emap (constructor_ffi_def uc crate (?ity i) (iin_name i) (iin_imp i) cx) (iin_constructors i) = Inr cs" and
      ds: "ds = ms @ cs" by (auto simp: ebind_Inr_iff simp del: definition_methods.simps)
    from 2(2) ds consider "d \<in> set ms" | "d \<in> set cs" by auto
    then show ?thesis
      using emap_mem [OF ms] emap_mem [OF cs] item cons i unfolding namespace_items_iff by cases blast+
  next
    case (3 ds)
    from emap_mem [OF rs this(1)] obtain r where r: "ITypeDefinition_Record r \<in> set (ins_type_definitions ns)"
      "emap (method_ffi_def uc crate (ITy_Record (ins_name ns) (ire_name r) (ire_orig_name r)) cx)
        (definition_methods (ITypeDefinition_Record r)) = Inr ds" using namespace_items_iff(2) by blast
    from emap_mem [OF r(2) 3(2)] item [OF r(1)] show ?thesis by blast
  next
    case (4 ds)
    from emap_mem [OF es this(1)] obtain e where e: "ITypeDefinition_Enum e \<in> set (ins_type_definitions ns)"
      "emap (method_ffi_def uc crate (ITy_Enum (ins_name ns) (ien_name e) (ien_orig_name e)) cx)
        (definition_methods (ITypeDefinition_Enum e)) = Inr ds" using namespace_items_iff(3) by blast
    from emap_mem [OF e(2) 4(2)] item [OF e(1)] show ?thesis by blast
  qed
qed

lemma ffi_definitions_async:
  assumes "unsorted_ffi_defs uc ns cx = Inr defs" "gc_current_crate_name cx = Some (ins_crate_name ns)" "d \<in> set defs"
  shows "option_uses rust_async_names (def_async d) \<subseteq> declared defs"
proof (cases "def_async d")
  case (Some a)
  obtain bufs fns objs cbs where
    bufs: "rust_buffer_defs cx = Inr bufs" and fns: "ffi_function_defs uc ns cx = Inr fns" and
    objs: "object_defs ns cx = Inr objs" and cbs: "callback_interface_defs uc ns cx = Inr cbs" and
    defs: "defs = bufs @ checksum_defs ns @ fns @ objs @ cbs @ rust_future_defs ns"
    using assms(1) unfolding unsorted_ffi_defs_def ebind_Inr_iff by blast
  have "sync_defs bufs" "sync_defs (checksum_defs ns)" "sync_defs objs" "sync_defs cbs" "sync_defs (rust_future_defs ns)"
    using sync_parts(1) [OF bufs] sync_parts(2,4) sync_parts(3) [OF objs] callback_interfaces_sync [OF cbs] by simp_all
  with Some assms(3) have "d \<in> set fns" unfolding defs by (auto simp: sync_defs_def)
  from ffi_functions_async [OF fns assms(2) this Some] unsorted_closed(5) [OF assms(1,2)] show ?thesis
    by (auto simp: option_uses_def Some)
qed (simp add: option_uses_def)

section \<open>The property\<close>

text \<open>C5: everything that the general IR of a namespace binds to exists.  Whatever metadata the namespace was
  built from, when the pass succeeds, every exported function that a function, method, constructor, vtable,
  future or buffer operation is bound to, every function type and every struct that a vtable or the future of a
  foreign method needs, and everything that an FFI definition refers to in its types, is among the FFI definitions of the
  namespace, and under the right kind.  All the other FFI names that the IR carries are declared as well, with two
  exceptions, which nothing is bound to: the foreign-future types in the asynchronous data of a callable that Rust
  implements and of its FFI function, and the scaffolding functions named by the methods of a callback interface.\<close>

theorem ffi_references_declared:
  assumes "map_namespace uc ns cx = Inr ns'"
  shows "namespace_uses ns' \<union> all_refs (gn_ffi_definitions ns') \<subseteq> declared (gn_ffi_definitions ns') \<and>
    namespace_names ns' \<subseteq> declared (gn_ffi_definitions ns') \<union> unbound_names ns'"
proof -
  obtain cx' defs tdefs fs where cx': "update_from_namespace ns cx = Inr cx'" and
    defs: "unsorted_ffi_defs uc ns cx' = Inr defs" and tdefs: "namespace_type_definitions uc ns cx' = Inr tdefs" and
    bufs: "rustbuffer_fn_name ''alloc'' cx' = Inr (gn_ffi_rustbuffer_alloc ns')"
      "rustbuffer_fn_name ''from_bytes'' cx' = Inr (gn_ffi_rustbuffer_from_bytes ns')"
      "rustbuffer_fn_name ''free'' cx' = Inr (gn_ffi_rustbuffer_free ns')"
      "rustbuffer_fn_name ''reserve'' cx' = Inr (gn_ffi_rustbuffer_reserve ns')" and
    fs: "efilter_map (\<lambda>f. should_exclude_toplevel_item (ifu_name f) cx') (map_function uc cx') (ins_functions ns) = Inr fs" and
    ns': "gn_functions ns' = fs" "gn_type_definitions ns' = tdefs" "gn_checksums ns' = checksums ns"
      "gn_ffi_definitions ns' = index_set (sort_ffi_definitions defs)"
      "gn_ffi_uniffi_contract_version ns' = ffi_uniffi_contract_version ns"
    using assms unfolding map_namespace_def ebind_Inr_iff by force
  obtain cx2 defs2 where two: "namespace_context ns cx2" "unsorted_ffi_defs uc ns cx2 = Inr defs2"
    "declared (gn_ffi_definitions ns') = declared defs2" "all_refs (gn_ffi_definitions ns') \<subseteq> declared defs2"
    "update_from_namespace ns cx = Inr cx2" by (rule map_namespace_defs [OF assms])
  with cx' defs have nscx: "namespace_context ns cx'" and decl: "declared (gn_ffi_definitions ns') = declared defs"
    and refs: "all_refs (gn_ffi_definitions ns') \<subseteq> declared defs" by simp_all
  from nscx have crate: "gc_current_crate_name cx' = Some (ins_crate_name ns)" by (simp add: namespace_context_def)
  note closed = unsorted_closed [OF defs crate]
  have fns: "callable_uses (fu_callable fu) \<subseteq> declared defs" if "fu \<in> set fs" for fu
  proof -
    from efilter_map_mem [OF fs that] obtain f where f: "f \<in> set (ins_functions ns)" "map_function uc cx' f = Inr fu" by blast
    show ?thesis
      using function_callable_uses [OF f(2) crate] closed(3,5) scaffolding_namesI(1) [OF f(1)] async_member(3) [OF f(1)]
      by (auto simp: callable_uses_def split: if_splits)
  qed
  have types: "definition_uses td \<subseteq> declared defs" if "td \<in> set tdefs" for td
    by (rule type_definitions_use_declared [OF tdefs that nscx defs])
  have "Pair Kind_RustFunction ` (cs_fn_name ` set (gn_checksums ns') \<union>
       {gn_ffi_rustbuffer_alloc ns', gn_ffi_rustbuffer_from_bytes ns', gn_ffi_rustbuffer_free ns',
        gn_ffi_rustbuffer_reserve ns', gn_ffi_uniffi_contract_version ns'}) \<subseteq> declared defs"
    using closed(8,9) closed(10) [OF _ bufs(1)] closed(10) [OF _ bufs(2)] closed(10) [OF _ bufs(3)]
      closed(10) [OF _ bufs(4)] by (auto simp: ns')
  with fns types refs have uses: "namespace_uses ns' \<union> all_refs (gn_ffi_definitions ns') \<subseteq> declared defs"
    unfolding namespace_uses_def by (auto simp: ns')
  have "set (gn_ffi_definitions ns') \<subseteq> set defs"
    using dependency_sort_names(2) [of ffi_definition_name ffi_dependency_names defs, folded sort_ffi_definitions_def]
    by (simp add: ns')
  then have "(\<Union>d \<in> set (gn_ffi_definitions ns'). option_uses rust_async_names (def_async d)) \<subseteq> declared defs"
    using ffi_definitions_async [OF defs crate] by blast
  with uses namespace_names_used [of ns'] show ?thesis unfolding decl by blast
qed

definition example_method :: "string \<Rightarrow> IMethod" where
  "example_method nm = \<lparr>ime_orig_name = nm, ime_id = 1, ime_name = nm, ime_is_async = True, ime_takes_self_by_arc = False,
     ime_inputs = [], ime_return_type = Some ITy_String, ime_throws = None, ime_checksum = Some 7, ime_docstring = None\<rparr>"

definition example_interface :: IInterface where
  "example_interface = \<lparr>iin_constructors = [], iin_methods = [example_method ''m''], iin_uniffi_traits = [],
     iin_trait_impls = [], iin_module_path = ''c'', iin_name = ''T'', iin_orig_name = ''T'', iin_docstring = None,
     iin_imp = (ObjectImpl_Trait TraitKind_Both)\<rparr>"

definition example_namespace :: INamespace where
  "example_namespace = \<lparr>ins_name = ''n'', ins_crate_name = ''c'', ins_config_toml = None, ins_docstring = None,
     ins_functions = [], ins_type_definitions = [ITypeDefinition_Interface example_interface]\<rparr>"

definition example_namespace_context :: Context where
  "example_namespace_context = (context_new ''python'')\<lparr>gc_rename_tables := Map.empty (''n'' \<mapsto> []),
     gc_type_id_map := Map.empty (ITy_String \<mapsto> 0, ITy_Interface ''n'' ''T'' ''T'' (ObjectImpl_Trait TraitKind_Both) \<mapsto> 1)\<rparr>"

lemma map_namespace_succeeds:
  assumes "update_from_namespace ns cx = Inr cx'" "gc_current_crate_name cx' = Some crate" "ins_functions ns = []"
    "unsorted_ffi_defs uc ns cx' = Inr defs" "namespace_type_definitions uc ns cx' = Inr tdefs"
  shows "\<exists>ns'. map_namespace uc ns cx = Inr ns'"
  using assms by (simp add: map_namespace_def rustbuffer_name)

lemma example_namespace_mapped: "\<exists>ns'. map_namespace id example_namespace example_namespace_context = Inr ns'"
proof -
  let ?cx = "example_namespace_context\<lparr>gc_current_namespace_name := Some ''n'', gc_current_crate_name := Some ''c''\<rparr>"
  note items = namespace_interfaces_def namespace_callback_interfaces_def namespace_records_def namespace_enums_def
    List.map_filter_def namespace_methods_def namespace_constructors_def visit_list_def vtable_interfaces_def
  note cxd = context_crate_name_def namespace_name_def current_type_name_def ok_or_def
    example_namespace_def example_interface_def example_method_def
  note tys = callable_async_data_def method_async_data_def async_data_def eoption_def ffi_def_def
    argument_to_ffi_argument_def i_is_borrowed_bytes_def interface_ffi_type_def
  have cx: "update_from_namespace example_namespace example_namespace_context = Inr ?cx"
    by (simp add: update_from_namespace_def populate_names_used_as_error_def items cxd update_from_throws_def)
  have "\<exists>defs. unsorted_ffi_defs id example_namespace ?cx = Inr defs"
    by (simp add: unsorted_ffi_defs_def rust_buffer_defs_def rustbuffer_fn_name_def ffi_function_defs_def
        object_defs_def callback_interface_defs_def add_vtable_ffi_defs_def vtable_method_defs_def method_ffi_def_def
        ffi_clone_name_def ffi_free_name_def items cxd tys Let_def del: append.simps)
  moreover have api: "index_set (ITy_String # namespace_types example_namespace) = [ITy_String]"
    by (simp add: index_set_def namespace_types_def method_types_def visit_opt_def items cxd)
  moreover have "\<exists>defs. namespace_type_definitions id example_namespace ?cx = Inr defs"
    using api by (simp add: namespace_type_definitions_def should_exclude_toplevel_item_def map_interface_def update_type_def
      type_for_interface_def vtable_for_interface_def vtable_def context_self_type_def map_type_node_def get_type_id_def
      method_callable_with_kind_def map_method_args_def rename_method_def renamed_def new_name_from_rename_table_def
      map_type_nodes_def ffi_clone_name_def ffi_free_name_def rename_type_def map_trait_vec_def map_constructors_def
      map_methods_def methods_with_kind_def should_exclude_method_def api_type_definitions_def inner_definition_def external_definition_def
      has_callback_interface.simps example_namespace_context_def context_new_def items cxd tys del: append.simps)
  ultimately show ?thesis
    by (elim exE, intro map_namespace_succeeds [OF cx]) (simp_all add: example_namespace_def)
qed

lemma ffi_references_declared_witness:
  "\<exists>ns'. map_namespace id example_namespace example_namespace_context = Inr ns' \<and>
     namespace_uses ns' \<union> all_refs (gn_ffi_definitions ns') \<subseteq> declared (gn_ffi_definitions ns') \<and>
     namespace_names ns' \<subseteq> declared (gn_ffi_definitions ns') \<union> unbound_names ns'"
  using example_namespace_mapped ffi_references_declared by blast

end
