(* ===== verification/FromMetaProps.thy ===== *)
theory FromMetaProps
  imports FromMeta FfiUses MetaGroup
begin

text \<open>
  From metadata to bindings: no item is lost on the way.  An item that was added is in the converter, a
  function or type in the converter is in its namespace with its methods and constructors, and the
  symbols of all of them are declared in the general IR.
\<close>

section \<open>The converter keeps the items\<close>

lemma map_of_bt_insert [simp]: "map_of (bt_insert key k v m) = (map_of m)(k \<mapsto> v)"
  by (induction key k v m rule: bt_insert.induct) (auto simp: fun_eq_iff)

definition look :: "('c \<times> ('k \<times> 'v) list) list \<Rightarrow> 'c \<Rightarrow> 'k \<Rightarrow> 'v option" where
  "look mm c k = Option.bind (map_of mm c) (\<lambda>m. map_of m k)"

lemma insert_unique_Some:
  assumes "insert_unique key k v m = Inr m'"
  shows "map_of m' = (map_of m)(k \<mapsto> v)" "map_of m k \<in> {None, Some v}"
  using assms by (auto simp: insert_unique_def fun_eq_iff split: option.splits if_splits)

lemma look_default [simp]: "map_of (bt_get_or_default c mm) k = look mm c k"
  by (simp add: look_def bt_get_or_default_def split: option.split)

lemma insert_child_look:
  assumes "insert_child okey c key k v mm = Inr mm'"
  shows "look mm' c' k' = (if c' = c \<and> k' = k then Some v else look mm c' k')" "look mm c k \<in> {None, Some v}"
proof -
  obtain m where m: "insert_unique key k v (bt_get_or_default c mm) = Inr m" and mm': "mm' = bt_insert okey c m mm"
    using assms by (auto simp: insert_child_def ebind_Inr_iff)
  show "look mm c k \<in> {None, Some v}" using insert_unique_Some(2) [OF m] by simp
  have "map_of m j = (if j = k then Some v else look mm c j)" for j by (simp add: insert_unique_Some(1) [OF m])
  then show "look mm' c' k' = (if c' = c \<and> k' = k then Some v else look mm c' k')" by (simp add: mm' look_def)
qed

lemma insert_unique_mono: "insert_unique key k v m = Inr m' \<Longrightarrow> map_of m j = Some w \<Longrightarrow> map_of m' j = Some w"
  using insert_unique_Some [of key k v m m'] by auto

lemma insert_child_mono:
  assumes "insert_child okey c key k v mm = Inr mm'" "look mm c' k' = Some w"
  shows "look mm' c' k' = Some w"
  using insert_child_look [OF assms(1)] assms(2) by auto

text \<open>Where an item is found.  Custom types, whose entries may be replaced, are left out.\<close>

fun has_item :: "UniffiMetaConverter \<Rightarrow> Metadata \<Rightarrow> bool" where
  "has_item cv (Metadata_Namespace n) \<longleftrightarrow> map_of (cv_namespaces cv) (ns_name n) = Some (empty_namespace n)"
| "has_item cv (Metadata_Func f) \<longleftrightarrow> look (cv_functions cv) (crate_name (fn_module_path f)) (fn_name f) = Some f"
| "has_item cv (Metadata_Record r) \<longleftrightarrow> look (cv_records cv) (crate_name (rec_module_path r)) (rec_name r) = Some r"
| "has_item cv (Metadata_Enum e) \<longleftrightarrow> look (cv_enums cv) (crate_name (enum_module_path e)) (enum_name e) = Some e"
| "has_item cv (Metadata_Object i) \<longleftrightarrow> look (cv_interfaces cv) (crate_name (obj_module_path i)) (obj_name i) = Some i"
| "has_item cv (Metadata_CallbackInterface c) \<longleftrightarrow>
     look (cv_callback_interfaces cv) (crate_name (cb_module_path c)) (cb_name c) = Some c"
| "has_item cv (Metadata_Constructor c) \<longleftrightarrow>
     look (cv_constructors cv) (crate_name (ctor_module_path c), ctor_self_name c) (ctor_name c) = Some c"
| "has_item cv (Metadata_Method m) \<longleftrightarrow>
     look (cv_methods cv) (crate_name (meth_module_path m), meth_self_name m) (meth_name m) = Some m"
| "has_item cv (Metadata_TraitMethod m) \<longleftrightarrow>
     look (cv_trait_methods cv) (crate_name (tmeth_module_path m), tmeth_trait_name m) (tmeth_name m) = Some m"
| "has_item cv (Metadata_UniffiTrait t) \<longleftrightarrow>
     look (cv_uniffi_traits cv) (crate_name (trait_module_path t), trait_self_name t) (trait_name t) = Some t"
| "has_item cv _ \<longleftrightarrow> True"

text \<open>What only grows.\<close>

definition kept :: "('c \<times> ('k \<times> 'v) list) list \<Rightarrow> ('c \<times> ('k \<times> 'v) list) list \<Rightarrow> bool" where
  "kept mm mm' \<longleftrightarrow> (\<forall>c k v. look mm c k = Some v \<longrightarrow> look mm' c k = Some v)"

lemma kept_refl [simp]: "kept mm mm"
  by (simp add: kept_def)

lemma kept_trans: "kept a b \<Longrightarrow> kept b c \<Longrightarrow> kept a c"
  by (simp add: kept_def)

lemma kept_insert_child: "insert_child okey c key k v mm = Inr mm' \<Longrightarrow> kept mm mm'"
  by (simp add: kept_def insert_child_mono)

definition cv_grows :: "UniffiMetaConverter \<Rightarrow> UniffiMetaConverter \<Rightarrow> bool" where
  "cv_grows cv cv' \<longleftrightarrow>
     (\<forall>n ns. map_of (cv_namespaces cv) n = Some ns \<longrightarrow> map_of (cv_namespaces cv') n = Some ns) \<and>
     kept (cv_functions cv) (cv_functions cv') \<and> kept (cv_records cv) (cv_records cv') \<and>
     kept (cv_enums cv) (cv_enums cv') \<and> kept (cv_interfaces cv) (cv_interfaces cv') \<and>
     kept (cv_callback_interfaces cv) (cv_callback_interfaces cv') \<and>
     kept (cv_constructors cv) (cv_constructors cv') \<and> kept (cv_methods cv) (cv_methods cv') \<and>
     kept (cv_trait_methods cv) (cv_trait_methods cv') \<and> kept (cv_uniffi_traits cv) (cv_uniffi_traits cv')"

lemma cv_grows_refl [simp]: "cv_grows cv cv"
  by (simp add: cv_grows_def)

lemma cv_grows_trans:
  assumes "cv_grows a b" "cv_grows b c"
  shows "cv_grows a c"
  using assms unfolding cv_grows_def by (intro conjI) (blast intro: kept_trans)+

lemma cv_grows_item: "cv_grows cv cv' \<Longrightarrow> has_item cv i \<Longrightarrow> has_item cv' i"
  by (cases i) (simp_all add: cv_grows_def kept_def)

lemma orig_names_fields [simp]:
  "cv_namespaces (update_orig_names mp orig nm cv) = cv_namespaces cv"
  "cv_module_path_map (update_orig_names mp orig nm cv) = cv_module_path_map cv"
  "cv_functions (update_orig_names mp orig nm cv) = cv_functions cv"
  "cv_records (update_orig_names mp orig nm cv) = cv_records cv"
  "cv_enums (update_orig_names mp orig nm cv) = cv_enums cv"
  "cv_interfaces (update_orig_names mp orig nm cv) = cv_interfaces cv"
  "cv_callback_interfaces (update_orig_names mp orig nm cv) = cv_callback_interfaces cv"
  "cv_constructors (update_orig_names mp orig nm cv) = cv_constructors cv"
  "cv_methods (update_orig_names mp orig nm cv) = cv_methods cv"
  "cv_trait_methods (update_orig_names mp orig nm cv) = cv_trait_methods cv"
  "cv_uniffi_traits (update_orig_names mp orig nm cv) = cv_uniffi_traits cv"
  by (simp_all add: update_orig_names_def split: option.split)

lemma add_item_grows:
  assumes "add_metadata_item i cv = Inr cv'"
  shows "cv_grows cv cv'" "has_item cv' i"
proof -
  show "cv_grows cv cv'"
    using assms by (cases i) (auto simp: cv_grows_def Let_def ebind_Inr_iff dest: insert_unique_mono
        kept_insert_child split: option.splits)
  show "has_item cv' i"
    using assms by (cases i) (auto simp: Let_def ebind_Inr_iff insert_child_look(1) insert_unique_Some(1)
        trait_module_path_def trait_self_name_def split: option.splits)
qed

text \<open>The map of crate names leads to the namespace of the crate.\<close>

definition paths_ok :: "UniffiMetaConverter \<Rightarrow> bool" where
  "paths_ok cv \<longleftrightarrow> (\<forall>p n. cv_module_path_map cv p = Some n \<longrightarrow>
     (\<exists>ns. map_of (cv_namespaces cv) n = Some ns \<and> ins_crate_name ns = p))"

lemma add_item_paths:
  assumes "add_metadata_item i cv = Inr cv'" "paths_ok cv"
  shows "paths_ok cv'"
proof (cases i)
  case (Metadata_Namespace n)
  with assms(1) obtain m where m: "insert_unique string_key (ns_name n) (empty_namespace n) (cv_namespaces cv) = Inr m"
    "cv_namespaces cv' = m" "cv_module_path_map cv' = (cv_module_path_map cv)(ns_crate_name n \<mapsto> ns_name n)"
    by (auto simp: Let_def ebind_Inr_iff)
  show ?thesis
    unfolding paths_ok_def m(2,3)
  proof (intro allI impI)
    fix p k assume p: "((cv_module_path_map cv)(ns_crate_name n \<mapsto> ns_name n)) p = Some k"
    show "\<exists>ns. map_of m k = Some ns \<and> ins_crate_name ns = p"
    proof (cases "p = ns_crate_name n")
      case True
      with p show ?thesis by (simp add: insert_unique_Some(1) [OF m(1)] empty_namespace_def)
    next
      case False
      with p assms(2) obtain ns where "map_of (cv_namespaces cv) k = Some ns" "ins_crate_name ns = p"
        by (auto simp: paths_ok_def)
      with insert_unique_Some [OF m(1)] False show ?thesis by (auto simp: empty_namespace_def)
    qed
  qed
qed (use assms in \<open>auto simp: paths_ok_def Let_def ebind_Inr_iff split: option.splits\<close>)

lemma add_items:
  assumes "efold add_metadata_item items cv = Inr cv'" "paths_ok cv"
  shows "cv_grows cv cv' \<and> paths_ok cv' \<and> (\<forall>i \<in> set items. has_item cv' i)"
  using assms
proof (induction items arbitrary: cv)
  case (Cons i items)
  then obtain cv1 where one: "add_metadata_item i cv = Inr cv1" "efold add_metadata_item items cv1 = Inr cv'"
    by (auto simp: ebind_Inr_iff)
  from Cons.IH [OF one(2) add_item_paths [OF one(1) Cons.prems(2)]] add_item_grows [OF one(1)]
  show ?case using cv_grows_trans cv_grows_item by auto
qed simp

section \<open>Nothing in the converter is left out of the tree\<close>

definition ns_grows :: "INamespace \<Rightarrow> INamespace \<Rightarrow> bool" where
  "ns_grows ns ns' \<longleftrightarrow> ins_crate_name ns' = ins_crate_name ns \<and> set (ins_functions ns) \<subseteq> set (ins_functions ns') \<and>
     set (ins_type_definitions ns) \<subseteq> set (ins_type_definitions ns')"

definition tree_grows :: "INamespace by_name \<Rightarrow> INamespace by_name \<Rightarrow> bool" where
  "tree_grows m m' \<longleftrightarrow> (\<forall>k ns. map_of m k = Some ns \<longrightarrow> (\<exists>ns'. map_of m' k = Some ns' \<and> ns_grows ns ns'))"

lemma tree_grows_refl [simp]: "tree_grows m m"
  by (simp add: tree_grows_def ns_grows_def)

lemma ns_grows_trans: "ns_grows a b \<Longrightarrow> ns_grows b c \<Longrightarrow> ns_grows a c"
  by (auto simp: ns_grows_def)

lemma tree_grows_trans: "tree_grows a b \<Longrightarrow> tree_grows b c \<Longrightarrow> tree_grows a c"
  unfolding tree_grows_def using ns_grows_trans by meson

lemma map_of_update_named [simp]:
  "map_of (update_named k f m) k' = (if k' = k then map_option f (map_of m k) else map_of m k')"
  by (induction m) auto

lemma update_named_grows: "(\<And>ns. ns_grows ns (f ns)) \<Longrightarrow> tree_grows m (update_named k f m)"
  by (auto simp: tree_grows_def ns_grows_def)

lemma rlift_Inr: "rlift x s = Inr (a, s') \<longleftrightarrow> x = Inr a \<and> s' = s"
  by (auto simp: rlift_def split: sum.split)

lemma rmap_list_mem: "rmap_list f xs s = Inr (ys, s') \<Longrightarrow> x \<in> set xs \<Longrightarrow> \<exists>y t t'. y \<in> set ys \<and> f x t = Inr (y, t')"
proof (induction xs arbitrary: s ys)
  case (Cons a xs)
  from Cons.prems(1) obtain y ys1 s1 where y: "f a s = Inr (y, s1)" "rmap_list f xs s1 = Inr (ys1, s')" "ys = y # ys1"
    by (auto simp: rbind_Inr)
  show ?case
  proof (cases "x = a")
    case True
    with y show ?thesis by auto
  next
    case False
    with Cons.prems(2) Cons.IH [OF y(2)] y(3) show ?thesis by auto
  qed
qed simp

text \<open>The loops: \<open>acc\<close> is what a namespace has of the kind of item that is pushed.\<close>

lemma push_items_Inr:
  assumes "push_items paths f push (pth, items) m s = Inr (m', s')" "\<And>nodes ns. ns_grows ns (push nodes ns)"
  shows "tree_grows m m'"
    "x \<in> set (map snd items) \<Longrightarrow> (\<And>node nodes ns. node \<in> set nodes \<Longrightarrow> node \<in> acc (push nodes ns)) \<Longrightarrow>
       \<exists>n node ns' t t'. paths (underscored (crate_name pth)) = Some n \<and> map_of m' n = Some ns' \<and>
         f x t = Inr (node, t') \<and> node \<in> acc ns'"
proof -
  obtain n nodes t where n: "paths (underscored (crate_name pth)) = Some n" "map_of m n \<noteq> None" and
    nodes: "rmap_list f (map snd items) t = Inr (nodes, s')" and m': "m' = update_named n (push nodes) m"
    using assms(1) by (auto simp: push_items_def get_namespace_def rbind_Inr rlift_Inr ebind_Inr_iff split: if_splits)
  show "tree_grows m m'" unfolding m' by (rule update_named_grows) (rule assms(2))
  assume x: "x \<in> set (map snd items)" and acc: "\<And>node nodes ns. node \<in> set nodes \<Longrightarrow> node \<in> acc (push nodes ns)"
  from rmap_list_mem [OF nodes x] obtain node t t' where "node \<in> set nodes" "f x t = Inr (node, t')" by blast
  with n acc show "\<exists>n node ns' t t'. paths (underscored (crate_name pth)) = Some n \<and> map_of m' n = Some ns' \<and>
      f x t = Inr (node, t') \<and> node \<in> acc ns'"
    unfolding m' by fastforce
qed

lemma push_loop:
  assumes "rfold (push_items paths f push) mm m s = Inr (m', s')" "\<And>nodes ns. ns_grows ns (push nodes ns)"
  shows "tree_grows m m'"
    "look mm pth k = Some x \<Longrightarrow> (\<And>node nodes ns. node \<in> set nodes \<Longrightarrow> node \<in> acc (push nodes ns)) \<Longrightarrow>
     (\<And>ns ns'. ns_grows ns ns' \<Longrightarrow> acc ns \<subseteq> acc ns') \<Longrightarrow>
       \<exists>n node ns' t t'. paths (underscored (crate_name pth)) = Some n \<and> map_of m' n = Some ns' \<and>
         f x t = Inr (node, t') \<and> node \<in> acc ns'"
proof -
  have "tree_grows m m' \<and> (\<forall>pth items x. (pth, items) \<in> set mm \<longrightarrow> x \<in> set (map snd items) \<longrightarrow>
      (\<forall>node nodes ns. node \<in> set nodes \<longrightarrow> node \<in> acc (push nodes ns)) \<longrightarrow> (\<forall>ns ns'. ns_grows ns ns' \<longrightarrow> acc ns \<subseteq> acc ns') \<longrightarrow>
      (\<exists>n node ns' t t'. paths (underscored (crate_name pth)) = Some n \<and> map_of m' n = Some ns' \<and>
         f x t = Inr (node, t') \<and> node \<in> acc ns'))" for acc
    using assms(1)
  proof (induction mm arbitrary: m s)
    case (Cons e mm)
    obtain pth0 items0 where e: "e = (pth0, items0)" by fastforce
    obtain m1 s1 where one: "push_items paths f push (pth0, items0) m s = Inr (m1, s1)" and
      rest: "rfold (push_items paths f push) mm m1 s1 = Inr (m', s')"
      using Cons.prems by (auto simp: e rbind_Inr)
    note IH = Cons.IH [OF rest]
    have "tree_grows m m'" using push_items_Inr(1) [OF one assms(2)] IH tree_grows_trans by blast
    moreover have "\<exists>n node ns' t t'. paths (underscored (crate_name pth0)) = Some n \<and> map_of m' n = Some ns' \<and>
         f x t = Inr (node, t') \<and> node \<in> acc ns'"
      if x: "x \<in> set (map snd items0)" and acc: "\<forall>node nodes ns. node \<in> set nodes \<longrightarrow> node \<in> acc (push nodes ns)"
        and mono: "\<forall>ns ns'. ns_grows ns ns' \<longrightarrow> acc ns \<subseteq> acc ns'" for x
    proof -
      from push_items_Inr(2) [OF one assms(2) x, of acc] acc obtain n node ns1 t t' where
        "paths (underscored (crate_name pth0)) = Some n" "map_of m1 n = Some ns1" "f x t = Inr (node, t')" "node \<in> acc ns1"
        by blast
      moreover from IH this(2) obtain ns' where "map_of m' n = Some ns'" "ns_grows ns1 ns'"
        unfolding tree_grows_def by blast
      ultimately show ?thesis using mono by blast
    qed
    ultimately show ?case using IH unfolding e by auto
  qed simp
  note loop = this
  show "tree_grows m m'" using loop by blast
  assume "look mm pth k = Some x" and acc: "\<And>node nodes ns. node \<in> set nodes \<Longrightarrow> node \<in> acc (push nodes ns)"
    "\<And>ns ns'. ns_grows ns ns' \<Longrightarrow> acc ns \<subseteq> acc ns'"
  then obtain items where "map_of mm pth = Some items" "map_of items k = Some x"
    by (auto simp: look_def bind_eq_Some_conv)
  then have "(pth, items) \<in> set mm" "x \<in> set (map snd items)"
    by (auto dest!: map_of_SomeD simp: rev_image_eqI)
  with loop [of acc] acc show "\<exists>n node ns' t t'. paths (underscored (crate_name pth)) = Some n \<and> map_of m' n = Some ns' \<and>
         f x t = Inr (node, t') \<and> node \<in> acc ns'" by blast
qed

lemma pushes_grow [simp]: "ns_grows ns (push_functions fs ns)" "ns_grows ns (push_definitions constr xs ns)"
  by (auto simp: ns_grows_def push_functions_def push_definitions_def)

definition defined :: "('b \<Rightarrow> ITypeDefinition) \<Rightarrow> INamespace \<Rightarrow> 'b set" where
  "defined constr ns = {x. constr x \<in> set (ins_type_definitions ns)}"

lemma defined_grows: "ns_grows ns ns' \<Longrightarrow> defined constr ns \<subseteq> defined constr ns'"
  by (auto simp: ns_grows_def defined_def)

lemma defined_pushed: "node \<in> set nodes \<Longrightarrow> node \<in> defined constr (push_definitions constr nodes ns)"
  by (simp add: defined_def push_definitions_def)

text \<open>A kind of type definition: what one loop has pushed is there after the following ones.\<close>

lemma pushed_definition:
  assumes "rfold (push_items paths f (push_definitions constr)) mm m s = Inr (m1, s1)" "tree_grows m1 m'"
    "look mm p k = Some x"
  shows "\<exists>n node ns t t'. paths (underscored (crate_name p)) = Some n \<and> map_of m' n = Some ns \<and>
    f x t = Inr (node, t') \<and> constr node \<in> set (ins_type_definitions ns)"
proof -
  have "\<exists>n node ns t t'. paths (underscored (crate_name p)) = Some n \<and> map_of m1 n = Some ns \<and>
      f x t = Inr (node, t') \<and> node \<in> defined constr ns"
    by (rule push_loop(2) [OF assms(1) _ assms(3), of "defined constr"])
      (simp_all add: defined_pushed defined_grows)
  then obtain n node ns t t' where n: "paths (underscored (crate_name p)) = Some n" "map_of m1 n = Some ns"
    "f x t = Inr (node, t')" "node \<in> defined constr ns" by blast
  from assms(2) n(2) obtain ns' where "map_of m' n = Some ns'" "ns_grows ns ns'" unfolding tree_grows_def by blast
  with n defined_grows [OF this(2), of constr] show ?thesis unfolding defined_def by blast
qed

lemma docstrings_grow:
  "efold set_docstring ds m = Inr m' \<Longrightarrow> tree_grows m m'"
  "efold (set_config_toml to_str) ts m = Inr m' \<Longrightarrow> tree_grows m m'"
proof -
  show "tree_grows m m'" if "efold set_docstring ds m = Inr m'"
    by (rule efold_invariant [OF that, of "tree_grows m"])
      (auto simp: set_docstring_def ns_grows_def split: if_splits prod.splits elim!: tree_grows_trans intro!: update_named_grows)
  show "tree_grows m m'" if "efold (set_config_toml to_str) ts m = Inr m'"
    by (rule efold_invariant [OF that, of "tree_grows m"])
      (auto simp: set_config_toml_def ns_grows_def ebind_Inr_iff split: if_splits prod.splits
        elim!: tree_grows_trans intro!: update_named_grows)
qed

lemma converter_tree:
  assumes "converter_namespaces to_str cv s = Inr (m, s')"
  shows "tree_grows (cv_namespaces cv) m"
    "look (cv_functions cv) p k = Some f \<Longrightarrow> \<exists>n node ns t t'. cv_module_path_map cv (underscored (crate_name p)) = Some n \<and>
       map_of m n = Some ns \<and> initial_function (converter_context cv) f t = Inr (node, t') \<and> node \<in> set (ins_functions ns)"
    "look (cv_records cv) p k = Some r \<Longrightarrow> \<exists>n node ns t t'. cv_module_path_map cv (underscored (crate_name p)) = Some n \<and>
       map_of m n = Some ns \<and> initial_record (converter_context cv) r t = Inr (node, t') \<and>
       ITypeDefinition_Record node \<in> set (ins_type_definitions ns)"
    "look (cv_enums cv) p k = Some e \<Longrightarrow> \<exists>n node ns t t'. cv_module_path_map cv (underscored (crate_name p)) = Some n \<and>
       map_of m n = Some ns \<and> initial_enum (converter_context cv) e t = Inr (node, t') \<and>
       ITypeDefinition_Enum node \<in> set (ins_type_definitions ns)"
    "look (cv_interfaces cv) p k = Some i \<Longrightarrow> \<exists>n node ns t t'. cv_module_path_map cv (underscored (crate_name p)) = Some n \<and>
       map_of m n = Some ns \<and> initial_interface (converter_context cv) i t = Inr (node, t') \<and>
       ITypeDefinition_Interface node \<in> set (ins_type_definitions ns)"
proof -
  let ?cx = "converter_context cv" and ?paths = "cv_module_path_map cv"
  obtain m1 m2 m3 m4 m5 m6 m7 s3 s4 s5 s6 s7 where
    d: "efold set_docstring (cv_module_docstrings cv) (cv_namespaces cv) = Inr m1"
      "efold (set_config_toml to_str) (cv_module_toml cv) m1 = Inr m2" and
    f: "rfold (push_items ?paths (initial_function ?cx) push_functions) (cv_functions cv) m2 s = Inr (m3, s3)" and
    r: "rfold (push_items ?paths (initial_record ?cx) (push_definitions ITypeDefinition_Record)) (cv_records cv) m3 s3 = Inr (m4, s4)" and
    e: "rfold (push_items ?paths (initial_enum ?cx) (push_definitions ITypeDefinition_Enum)) (cv_enums cv) m4 s4 = Inr (m5, s5)" and
    c: "rfold (push_items ?paths (\<lambda>c. rlift (initial_custom_type ?cx c)) (push_definitions ITypeDefinition_Custom))
        (cv_custom_types cv) m5 s5 = Inr (m6, s6)" and
    i: "rfold (push_items ?paths (initial_interface ?cx) (push_definitions ITypeDefinition_Interface))
        (cv_interfaces cv) m6 s6 = Inr (m7, s7)" and
    cb: "rfold (push_items ?paths (initial_callback_interface ?cx) (push_definitions ITypeDefinition_CallbackInterface))
        (cv_callback_interfaces cv) m7 s7 = Inr (m, s')"
    using assms unfolding converter_namespaces_def Let_def rbind_Inr rlift_Inr by blast
  have g: "tree_grows m2 m3" "tree_grows m3 m4" "tree_grows m4 m5" "tree_grows m5 m6" "tree_grows m6 m7" "tree_grows m7 m"
    using push_loop(1) [OF f] push_loop(1) [OF r] push_loop(1) [OF e] push_loop(1) [OF c] push_loop(1) [OF i]
      push_loop(1) [OF cb] by simp_all
  have g7: "tree_grows m7 m" by (fact g(6))
  have g5: "tree_grows m5 m" using tree_grows_trans [OF g(4) tree_grows_trans [OF g(5) g7]] .
  have g4: "tree_grows m4 m" using tree_grows_trans [OF g(3) g5] .
  have g3: "tree_grows m3 m" using tree_grows_trans [OF g(2) g4] .
  show "tree_grows (cv_namespaces cv) m"
    using tree_grows_trans [OF docstrings_grow(1) [OF d(1)] tree_grows_trans [OF docstrings_grow(2) [OF d(2)]
          tree_grows_trans [OF g(1) g3]]] .
  show "\<exists>n node ns t t'. ?paths (underscored (crate_name p)) = Some n \<and>
       map_of m n = Some ns \<and> initial_function ?cx f t = Inr (node, t') \<and> node \<in> set (ins_functions ns)"
    if "look (cv_functions cv) p k = Some f" for f
  proof -
    have "\<exists>n node ns t t'. ?paths (underscored (crate_name p)) = Some n \<and>
       map_of m3 n = Some ns \<and> initial_function ?cx f t = Inr (node, t') \<and> node \<in> set (ins_functions ns)"
      by (rule push_loop(2) [OF f _ that, where acc = "\<lambda>ns. set (ins_functions ns)"]) (auto simp: push_functions_def ns_grows_def)
    then obtain n node ns t t' where n: "?paths (underscored (crate_name p)) = Some n" "map_of m3 n = Some ns"
      "initial_function ?cx f t = Inr (node, t')" "node \<in> set (ins_functions ns)" by blast
    from g3 n(2) obtain ns' where "map_of m n = Some ns'" "ns_grows ns ns'" unfolding tree_grows_def by blast
    with n show ?thesis unfolding ns_grows_def by blast
  qed
  show "look (cv_records cv) p k = Some r \<Longrightarrow> \<exists>n node ns t t'. ?paths (underscored (crate_name p)) = Some n \<and>
       map_of m n = Some ns \<and> initial_record ?cx r t = Inr (node, t') \<and> ITypeDefinition_Record node \<in> set (ins_type_definitions ns)" for r
    by (rule pushed_definition [OF r g4])
  show "look (cv_enums cv) p k = Some e \<Longrightarrow> \<exists>n node ns t t'. ?paths (underscored (crate_name p)) = Some n \<and>
       map_of m n = Some ns \<and> initial_enum ?cx e t = Inr (node, t') \<and> ITypeDefinition_Enum node \<in> set (ins_type_definitions ns)" for e
    by (rule pushed_definition [OF e g5])
  show "look (cv_interfaces cv) p k = Some i \<Longrightarrow> \<exists>n node ns t t'. ?paths (underscored (crate_name p)) = Some n \<and>
       map_of m n = Some ns \<and> initial_interface ?cx i t = Inr (node, t') \<and> ITypeDefinition_Interface node \<in> set (ins_type_definitions ns)" for i
    by (rule pushed_definition [OF i g7])
qed

section \<open>Children\<close>

lemma children_mapped:
  assumes "children_for_type f mm mp nm s = Inr (ys, s')" "look mm (crate_name mp, nm) k = Some x"
  shows "\<exists>y t t'. y \<in> set ys \<and> f x t = Inr (y, t')"
proof -
  from assms(2) obtain m where m: "map_of mm (crate_name mp, nm) = Some m" "map_of m k = Some x"
    by (auto simp: look_def bind_eq_Some_conv)
  then have "x \<in> set (map snd m)" by (auto dest!: map_of_SomeD simp: rev_image_eqI)
  moreover have "rmap_list f (map snd m) s = Inr (ys, s')" using assms(1) m(1) by (simp add: children_for_type_def)
  ultimately show ?thesis by (rule rmap_list_mem [rotated])
qed

lemma methods_mapped:
  assumes "methods_for_type cx mp nm s = Inr (ms, s')"
  shows "look (mc_methods cx) (crate_name mp, nm) k = Some m \<Longrightarrow> \<exists>y t t'. y \<in> set ms \<and> initial_method cx m t = Inr (y, t')"
    "look (mc_trait_methods cx) (crate_name mp, nm) k = Some tm \<Longrightarrow>
       \<exists>y t t'. y \<in> set ms \<and> initial_trait_method cx tm t = Inr (y, t')"
proof -
  assume "look (mc_methods cx) (crate_name mp, nm) k = Some m"
  then obtain l where l: "map_of (mc_methods cx) (crate_name mp, nm) = Some l" "map_of l k = Some m"
    by (auto simp: look_def bind_eq_Some_conv)
  then have "m \<in> set (map snd l)" by (auto dest!: map_of_SomeD simp: rev_image_eqI)
  moreover have "rmap_list (initial_method cx) (map snd l) s = Inr (ms, s')"
    using assms l(1) by (auto simp: methods_for_type_def Let_def split: if_splits)
  ultimately show "\<exists>y t t'. y \<in> set ms \<and> initial_method cx m t = Inr (y, t')" by (rule rmap_list_mem [rotated])
next
  assume "look (mc_trait_methods cx) (crate_name mp, nm) k = Some tm"
  then obtain l where l: "map_of (mc_trait_methods cx) (crate_name mp, nm) = Some l" "map_of l k = Some tm"
    by (auto simp: look_def bind_eq_Some_conv)
  then have "tm \<in> set (sort_key (\<lambda>m. unat (tmeth_index m)) (map snd l))"
    by (auto dest!: map_of_SomeD simp: rev_image_eqI)
  moreover have "rmap_list (initial_trait_method cx) (sort_key (\<lambda>m. unat (tmeth_index m)) (map snd l)) s = Inr (ms, s')"
    using assms l(1) by (auto simp: methods_for_type_def Let_def split: option.splits)
  ultimately show "\<exists>y t t'. y \<in> set ms \<and> initial_trait_method cx tm t = Inr (y, t')" by (rule rmap_list_mem [rotated])
qed

lemma mapped_names:
  "initial_function cx f t = Inr (f', t') \<Longrightarrow> ifu_name f' = fn_name f"
  "initial_constructor cx c t = Inr (c', t') \<Longrightarrow> ico_name c' = ctor_name c"
  "initial_method cx m t = Inr (m', t') \<Longrightarrow> ime_name m' = meth_name m"
  "initial_trait_method cx tm t = Inr (m', t') \<Longrightarrow> ime_name m' = tmeth_name tm"
  by (auto simp: initial_function_def initial_constructor_def initial_method_def initial_trait_method_def
      rbind_Inr rlift_Inr ebind_Inr_iff)

lemma mapped_trait:
  "initial_uniffi_trait cx tr t = Inr (tr', t') \<Longrightarrow>
     meth_name ` set (meta_trait_methods tr) \<subseteq> ime_name ` set (trait_methods tr')"
  by (cases tr) (auto simp: rbind_Inr mapped_names)

text \<open>The names of the methods that the metadata has for a type.\<close>

definition meta_method_names :: "MetaContext \<Rightarrow> string \<Rightarrow> string \<Rightarrow> string set" where
  "meta_method_names cx c nm =
     {meth_name m | m k. look (mc_methods cx) (c, nm) k = Some m} \<union>
     {tmeth_name m | m k. look (mc_trait_methods cx) (c, nm) k = Some m} \<union>
     {meth_name m | m k tr. look (mc_uniffi_traits cx) (c, nm) k = Some tr \<and> m \<in> set (meta_trait_methods tr)}"

lemma method_names_kept:
  assumes "methods_for_type cx mp nm s = Inr (ms, s')"
    "children_for_type (initial_uniffi_trait cx) (mc_uniffi_traits cx) mp nm t = Inr (trs, t')"
  shows "meta_method_names cx (crate_name mp) nm \<subseteq> ime_name ` (set ms \<union> (\<Union>tr \<in> set trs. set (trait_methods tr)))"
proof
  fix x assume "x \<in> meta_method_names cx (crate_name mp) nm"
  then consider (own) m k where "x = meth_name m" "look (mc_methods cx) (crate_name mp, nm) k = Some m"
    | (trait) m k where "x = tmeth_name m" "look (mc_trait_methods cx) (crate_name mp, nm) k = Some m"
    | (uniffi) m k tr where "x = meth_name m" "look (mc_uniffi_traits cx) (crate_name mp, nm) k = Some tr"
        "m \<in> set (meta_trait_methods tr)"
    unfolding meta_method_names_def by blast
  then show "x \<in> ime_name ` (set ms \<union> (\<Union>tr \<in> set trs. set (trait_methods tr)))"
  proof cases
    case own
    with methods_mapped(1) [OF assms(1) own(2)] show ?thesis using mapped_names(3) by (metis UnCI image_eqI)
  next
    case trait
    with methods_mapped(2) [OF assms(1) trait(2)] show ?thesis using mapped_names(4) by (metis UnCI image_eqI)
  next
    case uniffi
    from children_mapped [OF assms(2) uniffi(2)] obtain tr' t1 t2 where tr: "tr' \<in> set trs"
      "initial_uniffi_trait cx tr t1 = Inr (tr', t2)" by blast
    from mapped_trait [OF tr(2)] uniffi(1,3) tr(1) show ?thesis by blast
  qed
qed

lemma record_children:
  "initial_record cx r t = Inr (r', t') \<Longrightarrow> ire_name r' = rec_name r \<and>
     meta_method_names cx (crate_name (rec_module_path r)) (rec_name r) \<subseteq>
       ime_name ` set (definition_methods (ITypeDefinition_Record r'))"
  "initial_enum cx e t = Inr (e', t') \<Longrightarrow> ien_name e' = enum_name e \<and>
     meta_method_names cx (crate_name (enum_module_path e)) (enum_name e) \<subseteq>
       ime_name ` set (definition_methods (ITypeDefinition_Enum e'))"
  "initial_interface cx i t = Inr (i', t') \<Longrightarrow> iin_name i' = obj_name i \<and>
     meta_method_names cx (crate_name (obj_module_path i)) (obj_name i) \<subseteq>
       ime_name ` set (definition_methods (ITypeDefinition_Interface i')) \<and>
     (\<forall>k c. look (mc_constructors cx) (crate_name (obj_module_path i), obj_name i) k = Some c \<longrightarrow>
       ctor_name c \<in> ico_name ` set (iin_constructors i'))"
proof -
  show "initial_record cx r t = Inr (r', t') \<Longrightarrow> ire_name r' = rec_name r \<and>
     meta_method_names cx (crate_name (rec_module_path r)) (rec_name r) \<subseteq>
       ime_name ` set (definition_methods (ITypeDefinition_Record r'))"
    by (auto simp: initial_record_def rbind_Inr rlift_Inr dest!: method_names_kept)
  show "initial_enum cx e t = Inr (e', t') \<Longrightarrow> ien_name e' = enum_name e \<and>
     meta_method_names cx (crate_name (enum_module_path e)) (enum_name e) \<subseteq>
       ime_name ` set (definition_methods (ITypeDefinition_Enum e'))"
    by (auto simp: initial_enum_def rbind_Inr rlift_Inr dest!: method_names_kept)
  assume "initial_interface cx i t = Inr (i', t')"
  then obtain t1 t2 t3 where i: "iin_name i' = obj_name i"
    "children_for_type (initial_constructor cx) (mc_constructors cx) (obj_module_path i) (obj_name i) t = Inr (iin_constructors i', t1)"
    "methods_for_type cx (obj_module_path i) (obj_name i) t1 = Inr (iin_methods i', t2)"
    "children_for_type (initial_uniffi_trait cx) (mc_uniffi_traits cx) (obj_module_path i) (obj_name i) t2 = Inr (iin_uniffi_traits i', t3)"
    by (auto simp: initial_interface_def rbind_Inr)
  have "ctor_name c \<in> ico_name ` set (iin_constructors i')"
    if "look (mc_constructors cx) (crate_name (obj_module_path i), obj_name i) k = Some c" for k c
    using children_mapped [OF i(2) that] mapped_names(2) by (metis image_eqI)
  with i(1) method_names_kept [OF i(3,4)] show "iin_name i' = obj_name i \<and>
     meta_method_names cx (crate_name (obj_module_path i)) (obj_name i) \<subseteq>
       ime_name ` set (definition_methods (ITypeDefinition_Interface i')) \<and>
     (\<forall>k c. look (mc_constructors cx) (crate_name (obj_module_path i), obj_name i) k = Some c \<longrightarrow>
       ctor_name c \<in> ico_name ` set (iin_constructors i'))"
    by simp
qed

section \<open>The exported symbols\<close>

text \<open>The scaffolding symbols that the Rust side exports for an item, from its metadata.  A method,
  constructor or builtin trait has them through the type it belongs to.\<close>

definition owner :: "Metadata list \<Rightarrow> string \<Rightarrow> string \<Rightarrow> bool" where
  "owner items c nm \<longleftrightarrow>
     (\<exists>i. Metadata_Object i \<in> set items \<and> crate_name (obj_module_path i) = c \<and> obj_name i = nm) \<or>
     (\<exists>r. Metadata_Record r \<in> set items \<and> crate_name (rec_module_path r) = c \<and> rec_name r = nm) \<or>
     (\<exists>e. Metadata_Enum e \<in> set items \<and> crate_name (enum_module_path e) = c \<and> enum_name e = nm)"

fun exported_symbols :: "Metadata list \<Rightarrow> Metadata \<Rightarrow> string set" where
  "exported_symbols items (Metadata_Func f) = {fn_ffi_symbol_name f}"
| "exported_symbols items (Metadata_Object i) = {obj_clone_ffi_symbol_name i, obj_free_ffi_symbol_name i}"
| "exported_symbols items (Metadata_Constructor c) =
     (if \<exists>i. Metadata_Object i \<in> set items \<and> crate_name (obj_module_path i) = crate_name (ctor_module_path c) \<and>
        obj_name i = ctor_self_name c
      then {ctor_ffi_symbol_name c} else {})"
| "exported_symbols items (Metadata_Method m) =
     (if owner items (crate_name (meth_module_path m)) (meth_self_name m) then {meth_ffi_symbol_name m} else {})"
| "exported_symbols items (Metadata_TraitMethod m) =
     (if owner items (crate_name (tmeth_module_path m)) (tmeth_trait_name m) then {tmeth_ffi_symbol_name m} else {})"
| "exported_symbols items (Metadata_UniffiTrait t) =
     (if owner items (crate_name (trait_module_path t)) (trait_self_name t)
      then (\<lambda>m. method_symbol_name (trait_module_path t) (trait_self_name t) (meth_name m)) ` set (meta_trait_methods t)
      else {})"
| "exported_symbols items _ = {}"

lemma symbols_of_crate [simp]:
  "fn_symbol_name (crate_name mp) = fn_symbol_name mp" "method_symbol_name (crate_name mp) = method_symbol_name mp"
  "constructor_symbol_name (crate_name mp) = constructor_symbol_name mp"
  "clone_fn_symbol_name (crate_name mp) = clone_fn_symbol_name mp"
  "free_fn_symbol_name (crate_name mp) = free_fn_symbol_name mp"
  by (simp_all add: fun_eq_iff symbol_name_defs namespace_of_def)

definition tree_has :: "INamespace by_name \<Rightarrow> string \<Rightarrow> bool" where
  "tree_has m s \<longleftrightarrow> (\<exists>n ns. map_of m n = Some ns \<and>
     (s \<in> scaffolding_names (ins_crate_name ns) ns \<or>
      (\<exists>j \<in> set (namespace_interfaces ns). s \<in> {clone_fn_symbol_name (ins_crate_name ns) (iin_name j),
         free_fn_symbol_name (ins_crate_name ns) (iin_name j)})))"

text \<open>A converter with all the items, and its tree.\<close>

definition converted :: "Metadata list \<Rightarrow> UniffiMetaConverter \<Rightarrow> INamespace by_name \<Rightarrow> bool" where
  "converted items cv m \<longleftrightarrow> (\<forall>i \<in> set items. has_item cv i) \<and> paths_ok cv \<and>
     (\<exists>to_str s s'. converter_namespaces to_str cv s = Inr (m, s'))"

lemma converted_crate:
  assumes "converted items cv m" "cv_module_path_map cv p = Some n" "map_of m n = Some ns"
  shows "ins_crate_name ns = p"
proof -
  from assms(1,2) obtain ns0 where "map_of (cv_namespaces cv) n = Some ns0" "ins_crate_name ns0 = p"
    unfolding converted_def paths_ok_def by blast
  moreover from assms(1) have "tree_grows (cv_namespaces cv) m" unfolding converted_def using converter_tree(1) by blast
  ultimately obtain ns' where "map_of m n = Some ns'" "ns_grows ns0 ns'" unfolding tree_grows_def by blast
  with assms(3) \<open>ins_crate_name ns0 = p\<close> show ?thesis by (simp add: ns_grows_def)
qed

lemma converted_function:
  assumes "converted items cv m" "Metadata_Func f \<in> set items"
    "underscored (crate_name (fn_module_path f)) = crate_name (fn_module_path f)"
  shows "tree_has m (fn_ffi_symbol_name f)"
proof -
  from assms(1,2) have "look (cv_functions cv) (crate_name (fn_module_path f)) (fn_name f) = Some f"
    by (auto simp: converted_def)
  with assms(1) converter_tree(2) [OF _ this] obtain n node ns t t' where
    n: "cv_module_path_map cv (underscored (crate_name (fn_module_path f))) = Some n" "map_of m n = Some ns"
    and node: "initial_function (converter_context cv) f t = Inr (node, t')" "node \<in> set (ins_functions ns)"
    unfolding converted_def crate_name_idem by blast
  have "ins_crate_name ns = crate_name (fn_module_path f)" using converted_crate [OF assms(1) n] assms(3) by simp
  with scaffolding_namesI(1) [OF node(2)] mapped_names(1) [OF node(1)]
  have "fn_ffi_symbol_name f \<in> scaffolding_names (ins_crate_name ns) ns" by (metis fn_ffi_symbol_name_def symbols_of_crate(1))
  with n(2) show ?thesis unfolding tree_has_def by blast
qed

lemma converted_object:
  assumes "converted items cv m" "Metadata_Object i \<in> set items"
    "underscored (crate_name (obj_module_path i)) = crate_name (obj_module_path i)"
  shows "\<exists>n ns j. map_of m n = Some ns \<and> ins_crate_name ns = crate_name (obj_module_path i) \<and>
    ITypeDefinition_Interface j \<in> set (ins_type_definitions ns) \<and> iin_name j = obj_name i \<and>
    meta_method_names (converter_context cv) (crate_name (obj_module_path i)) (obj_name i) \<subseteq>
      ime_name ` set (definition_methods (ITypeDefinition_Interface j)) \<and>
    (\<forall>k c. look (cv_constructors cv) (crate_name (obj_module_path i), obj_name i) k = Some c \<longrightarrow>
       ctor_name c \<in> ico_name ` set (iin_constructors j))"
proof -
  from assms(1,2) have "look (cv_interfaces cv) (crate_name (obj_module_path i)) (obj_name i) = Some i"
    by (auto simp: converted_def)
  with assms(1) converter_tree(5) [OF _ this] obtain n node ns t t' where
    n: "cv_module_path_map cv (underscored (crate_name (obj_module_path i))) = Some n" "map_of m n = Some ns"
    and node: "initial_interface (converter_context cv) i t = Inr (node, t')"
      "ITypeDefinition_Interface node \<in> set (ins_type_definitions ns)"
    unfolding converted_def crate_name_idem by blast
  have "ins_crate_name ns = crate_name (obj_module_path i)" using converted_crate [OF assms(1) n] assms(3) by simp
  moreover have "mc_constructors (converter_context cv) = cv_constructors cv" by (simp add: converter_context_def)
  ultimately show ?thesis using n(2) node(2) record_children(3) [OF node(1)] by metis
qed

lemma converted_owner:
  assumes "converted items cv m" "owner items c nm" "underscored c = c"
    "x \<in> meta_method_names (converter_context cv) c nm"
  shows "tree_has m (method_symbol_name c nm x)"
proof -
  let ?names = "meta_method_names (converter_context cv) c nm"
  have "\<exists>n ns. map_of m n = Some ns \<and> ins_crate_name ns = c \<and> method_symbol_name c nm x \<in> scaffolding_names c ns"
    using assms(2) unfolding owner_def
  proof (elim disjE exE conjE)
    fix i assume i: "Metadata_Object i \<in> set items" "crate_name (obj_module_path i) = c" "obj_name i = nm"
    from converted_object [OF assms(1) i(1)] assms(3) i(2,3) obtain n ns j where j: "map_of m n = Some ns" "ins_crate_name ns = c"
      "ITypeDefinition_Interface j \<in> set (ins_type_definitions ns)" "iin_name j = nm"
      "?names \<subseteq> ime_name ` set (definition_methods (ITypeDefinition_Interface j))" by metis
    from j(5) assms(4) obtain y where "y \<in> set (definition_methods (ITypeDefinition_Interface j))" "ime_name y = x" by blast
    from scaffolding_namesI(2) [OF j(3) this(1)] this(2) j show ?thesis by metis
  next
    fix r assume r: "Metadata_Record r \<in> set items" "crate_name (rec_module_path r) = c" "rec_name r = nm"
    from assms(1) r have "look (cv_records cv) c nm = Some r" by (auto simp: converted_def)
    with assms(1) converter_tree(3) [OF _ this] obtain n node ns t t' where
      n: "cv_module_path_map cv (underscored c) = Some n" "map_of m n = Some ns" and
      node: "initial_record (converter_context cv) r t = Inr (node, t')" "ITypeDefinition_Record node \<in> set (ins_type_definitions ns)"
      using r(2) crate_name_idem unfolding converted_def by metis
    from record_children(1) [OF node(1)] r(2,3) assms(4) obtain y where
      y: "y \<in> set (definition_methods (ITypeDefinition_Record node))" "ime_name y = x" "ire_name node = nm" by blast
    from scaffolding_namesI(4) [OF node(2) y(1)] y(2,3) converted_crate [OF assms(1) n] n(2) assms(3) show ?thesis by metis
  next
    fix e assume e: "Metadata_Enum e \<in> set items" "crate_name (enum_module_path e) = c" "enum_name e = nm"
    from assms(1) e have "look (cv_enums cv) c nm = Some e" by (auto simp: converted_def)
    with assms(1) converter_tree(4) [OF _ this] obtain n node ns t t' where
      n: "cv_module_path_map cv (underscored c) = Some n" "map_of m n = Some ns" and
      node: "initial_enum (converter_context cv) e t = Inr (node, t')" "ITypeDefinition_Enum node \<in> set (ins_type_definitions ns)"
      using e(2) crate_name_idem unfolding converted_def by metis
    from record_children(2) [OF node(1)] e(2,3) assms(4) obtain y where
      y: "y \<in> set (definition_methods (ITypeDefinition_Enum node))" "ime_name y = x" "ien_name node = nm" by blast
    from scaffolding_namesI(5) [OF node(2) y(1)] y(2,3) converted_crate [OF assms(1) n] n(2) assms(3) show ?thesis by metis
  qed
  then show ?thesis unfolding tree_has_def by blast
qed

text \<open>Methods and constructors come after the types they belong to, in either order of the items.\<close>

lemma exported_in_tree:
  assumes conv: "converted items cv m" and i: "i \<in> set items" "s \<in> exported_symbols items i"
    and crate: "\<And>c. item_crate i = Some c \<Longrightarrow> underscored c = c"
  shows "tree_has m s"
proof -
  have item: "has_item cv i" using conv i(1) by (simp add: converted_def)
  have cx: "mc_constructors (converter_context cv) = cv_constructors cv" "mc_methods (converter_context cv) = cv_methods cv"
    "mc_trait_methods (converter_context cv) = cv_trait_methods cv" "mc_uniffi_traits (converter_context cv) = cv_uniffi_traits cv"
    by (simp_all add: converter_context_def)
  show ?thesis
  proof (cases i)
    case (Metadata_Func f)
    with converted_function [OF conv] i crate show ?thesis by (simp add: item_crate_def)
  next
    case (Metadata_Object ob)
    from converted_object [OF conv] i(1) crate Metadata_Object obtain n ns j where j: "map_of m n = Some ns"
      "ins_crate_name ns = crate_name (obj_module_path ob)" "ITypeDefinition_Interface j \<in> set (ins_type_definitions ns)"
      "iin_name j = obj_name ob" unfolding item_crate_def by fastforce
    from j(3) have "j \<in> set (namespace_interfaces ns)" by (simp add: namespace_items_iff)
    moreover have "s \<in> {clone_fn_symbol_name (ins_crate_name ns) (iin_name j), free_fn_symbol_name (ins_crate_name ns) (iin_name j)}"
      using i(2) by (simp add: Metadata_Object j(2,4) obj_clone_ffi_symbol_name_def obj_free_ffi_symbol_name_def)
    ultimately show ?thesis using j(1) unfolding tree_has_def by blast
  next
    case (Metadata_Constructor c)
    with i(2) obtain ob where ob: "Metadata_Object ob \<in> set items" "crate_name (obj_module_path ob) = crate_name (ctor_module_path c)"
      "obj_name ob = ctor_self_name c" and s: "s = ctor_ffi_symbol_name c" by (auto split: if_splits)
    from converted_object [OF conv ob(1)] ob(2,3) crate Metadata_Constructor item cx(1) obtain n ns j where j: "map_of m n = Some ns"
      "ins_crate_name ns = crate_name (ctor_module_path c)" "ITypeDefinition_Interface j \<in> set (ins_type_definitions ns)"
      "iin_name j = ctor_self_name c" "ctor_name c \<in> ico_name ` set (iin_constructors j)" unfolding item_crate_def by fastforce
    from j(5) obtain k where k: "k \<in> set (iin_constructors j)" "ico_name k = ctor_name c" by force
    from scaffolding_namesI(3) [OF j(3) k(1), of "ins_crate_name ns"] k(2) j s show ?thesis
      unfolding tree_has_def ctor_ffi_symbol_name_def by (metis symbols_of_crate(3))
  next
    case (Metadata_Method mt)
    with i(2) have s: "s = meth_ffi_symbol_name mt" "owner items (crate_name (meth_module_path mt)) (meth_self_name mt)"
      by (auto split: if_splits)
    have "meth_name mt \<in> meta_method_names (converter_context cv) (crate_name (meth_module_path mt)) (meth_self_name mt)"
      using item Metadata_Method by (auto simp: meta_method_names_def cx)
    from converted_owner [OF conv s(2) _ this] crate Metadata_Method s(1) show ?thesis
      by (simp add: item_crate_def meth_ffi_symbol_name_def)
  next
    case (Metadata_TraitMethod mt)
    with i(2) have s: "s = tmeth_ffi_symbol_name mt" "owner items (crate_name (tmeth_module_path mt)) (tmeth_trait_name mt)"
      by (auto split: if_splits)
    have "tmeth_name mt \<in> meta_method_names (converter_context cv) (crate_name (tmeth_module_path mt)) (tmeth_trait_name mt)"
      using item Metadata_TraitMethod by (auto simp: meta_method_names_def cx)
    from converted_owner [OF conv s(2) _ this] crate Metadata_TraitMethod s(1) show ?thesis
      by (simp add: item_crate_def tmeth_ffi_symbol_name_def)
  next
    case (Metadata_UniffiTrait t)
    with i(2) obtain mt where mt: "mt \<in> set (meta_trait_methods t)" and
      s: "s = method_symbol_name (trait_module_path t) (trait_self_name t) (meth_name mt)"
        "owner items (crate_name (trait_module_path t)) (trait_self_name t)" by (auto split: if_splits)
    have "meth_name mt \<in> meta_method_names (converter_context cv) (crate_name (trait_module_path t)) (trait_self_name t)"
      using item Metadata_UniffiTrait mt by (auto simp: meta_method_names_def cx)
    from converted_owner [OF conv s(2) _ this] crate Metadata_UniffiTrait s(1) show ?thesis by (simp add: item_crate_def)
  qed (use i(2) in simp_all)
qed

lemma tree_has_declared:
  assumes "tree_has m s" "iro_namespaces root = m" "pipeline from_str uc key root = Inr r"
  shows "\<exists>(k, ns') \<in> set (gr_namespaces r). (Kind_RustFunction, s) \<in> declared (gn_ffi_definitions ns')"
proof -
  obtain n ns where ns: "(n, ns) \<in> set m" and s: "s \<in> scaffolding_names (ins_crate_name ns) ns \<or>
      (\<exists>j \<in> set (namespace_interfaces ns). s \<in> {clone_fn_symbol_name (ins_crate_name ns) (iin_name j),
         free_fn_symbol_name (ins_crate_name ns) (iin_name j)})"
    using assms(1) map_of_SomeD unfolding tree_has_def by metis
  obtain cx where "emap (\<lambda>(k, ns). ebind (map_namespace uc ns cx) (\<lambda>ns'. Inr (k, ns'))) m = Inr (gr_namespaces r)"
    using assms(2,3) by (auto simp: pipeline_def map_root_def ebind_Inr_iff)
  from emap_image [OF this ns] obtain ns' where mem: "(n, ns') \<in> set (gr_namespaces r)" and map: "map_namespace uc ns cx = Inr ns'"
    by (auto simp: ebind_Inr_iff)
  obtain cx' defs where two: "namespace_context ns cx'" "unsorted_ffi_defs uc ns cx' = Inr defs"
    "declared (gn_ffi_definitions ns') = declared defs" by (rule map_namespace_defs [OF map])
  then have "gc_current_crate_name cx' = Some (ins_crate_name ns)" by (simp add: namespace_context_def)
  note closed = unsorted_closed [OF two(2) this]
  have "(Kind_RustFunction, s) \<in> declared defs"
    using s closed(3,4) by blast
  with mem two(3) show ?thesis by auto
qed

text \<open>C6: no exported symbol is lost between the metadata and the bindings.  Whatever the order of the items,
  if building the initial IR and the pass to the general IR succeed, then the scaffolding function of every
  function, constructor, method, trait method and builtin trait method in the metadata, and the clone and
  free function of every object, is declared among the FFI definitions of a namespace, under the symbol
  that the macros exported it with (for a member: when the metadata has its type; for crate names
  without a dash, which the map of crates replaces by an underscore on lookup only).\<close>

theorem exported_symbols_declared:
  assumes "items_into_initial_ir to_str items = Inr root" "pipeline from_str uc key root = Inr r"
    "i \<in> set items" "s \<in> exported_symbols items i" "\<And>c. item_crate i = Some c \<Longrightarrow> underscored c = c"
  shows "\<exists>(k, ns) \<in> set (gr_namespaces r). (Kind_RustFunction, s) \<in> declared (gn_ffi_definitions ns)"
proof -
  obtain cv m s' where cv: "efold add_metadata_item items converter_default = Inr cv" and
    m: "converter_namespaces to_str cv 0 = Inr (m, s')" "iro_namespaces root = m"
    using assms(1) by (auto simp: items_into_initial_ir_def try_into_initial_ir_def ebind_Inr_iff)
  have "paths_ok converter_default" by (simp add: paths_ok_def converter_default_def)
  with add_items [OF cv] m(1) have "converted items cv m" unfolding converted_def by blast
  from exported_in_tree [OF this assms(3,4,5)] show ?thesis by (rule tree_has_declared [OF _ m(2) assms(2)])
qed

definition small_items :: "Metadata list" where
  "small_items =
     [Metadata_Func \<lparr>fn_module_path = ''c::m'', fn_name = ''f'', fn_orig_name = None, fn_is_async = False, fn_inputs = [],
        fn_return_type = None, fn_throws = None, fn_checksum = None, fn_docstring = None\<rparr>,
      Metadata_Namespace \<lparr>ns_crate_name = ''c'', ns_name = ''n''\<rparr>]"

definition small_root :: IRoot where
  "small_root = \<lparr>iro_namespaces = [(''n'', \<lparr>ins_name = ''n'', ins_crate_name = ''c'', ins_config_toml = None, ins_docstring = None,
     ins_functions = [\<lparr>ifu_orig_name = ''f'', ifu_id = 0, ifu_name = ''f'', ifu_module_path = ''c::m'', ifu_is_async = False, ifu_inputs = [],
       ifu_return_type = None, ifu_throws = None, ifu_checksum = None, ifu_docstring = None\<rparr>],
     ins_type_definitions = []\<rparr>)], iro_cdylib = None, iro_from_unexpected_callback_error_impls = [],
        iro_checksum_mode = ChecksumMode_Legacy\<rparr>"

lemma small_root: "items_into_initial_ir (\<lambda>_. None) small_items = Inr small_root"
  by code_simp

lemma small_root_mapped: "\<exists>r. pipeline (\<lambda>_. None) id ''python'' small_root = Inr r"
proof -
  have "\<not> isl (pipeline (\<lambda>_. None) id ''python'' small_root)" by code_simp
  then show ?thesis by (cases "pipeline (\<lambda>_. None) id ''python'' small_root") simp_all
qed

lemma exported_symbols_declared_witness:
  "\<exists>r. pipeline (\<lambda>_. None) id ''python'' small_root = Inr r \<and>
     (\<exists>(k, ns) \<in> set (gr_namespaces r). (Kind_RustFunction, ''uniffi_c_fn_func_f'') \<in> declared (gn_ffi_definitions ns))"
proof -
  let ?f = "small_items ! 0"
  have f: "?f \<in> set small_items" "''uniffi_c_fn_func_f'' \<in> exported_symbols small_items ?f" "item_crate ?f = Some ''c''"
    by (simp_all add: small_items_def fn_ffi_symbol_name_def symbol_name_defs namespace_of_def item_crate_def crate_name_def
        to_ascii_lowercase_def ascii_lower_def)
  obtain r where r: "pipeline (\<lambda>_. None) id ''python'' small_root = Inr r" using small_root_mapped by blast
  have "\<exists>(k, ns) \<in> set (gr_namespaces r). (Kind_RustFunction, ''uniffi_c_fn_func_f'') \<in> declared (gn_ffi_definitions ns)"
    by (rule exported_symbols_declared [OF small_root r f(1,2)]) (simp add: f(3) underscored_def)
  with r show ?thesis by blast
qed

end
