(* ===== verification/TypeIds.thy ===== *)
theory TypeIds
  imports FfiUses
begin

text \<open>
  The ids of types in the general IR: \<open>populate_type_id_map\<close> gives every type of the tree its own id.
\<close>

section \<open>Which types there are\<close>

text \<open>The parts of a type, itself included.\<close>

inductive ity_part :: "ITy \<Rightarrow> ITy \<Rightarrow> bool" for s where
  ity_self: "ity_part s s"
| ity_optional: "ity_part s t \<Longrightarrow> ity_part s (ITy_Optional t)"
| ity_sequence: "ity_part s t \<Longrightarrow> ity_part s (ITy_Sequence t)"
| ity_set: "ity_part s t \<Longrightarrow> ity_part s (ITy_Set t)"
| ity_key: "ity_part s k \<Longrightarrow> ity_part s (ITy_Map k v)"
| ity_value: "ity_part s v \<Longrightarrow> ity_part s (ITy_Map k v)"
| ity_builtin: "ity_part s t \<Longrightarrow> ity_part s (ITy_Custom ns nm orig t)"
| ity_box: "ity_part s t \<Longrightarrow> ity_part s (ITy_Box t)"

text \<open>The types that are written in the items of a tree.\<close>

fun literal_written :: "ILiteral \<Rightarrow> ITy set" and default_written :: "IDefaultValue \<Rightarrow> ITy set" where
  "literal_written (ILiteral_UInt v r t) = {t}"
| "literal_written (ILiteral_Int v r t) = {t}"
| "literal_written (ILiteral_Float s t) = {t}"
| "literal_written (ILiteral_Enum s t) = {t}"
| "literal_written (ILiteral_Some d) = default_written d"
| "literal_written _ = {}"
| "default_written IDefaultValue_Default = {}"
| "default_written (IDefaultValue_Literal l) = literal_written l"

definition callable_written :: "IArgument list \<Rightarrow> ITy option \<Rightarrow> ITy option \<Rightarrow> ITy set" where
  "callable_written args ret thr =
     (\<Union>a \<in> set args. insert (iar_ty a) (\<Union>d \<in> set_option (iar_default a). default_written d)) \<union>
     set_option ret \<union> set_option thr"

definition field_written :: "IField \<Rightarrow> ITy set" where
  "field_written f = insert (ifi_ty f) (\<Union>d \<in> set_option (ifi_default f). default_written d)"

fun body_written :: "ITypeDefinition \<Rightarrow> ITy set" where
  "body_written (ITypeDefinition_Record r) = (\<Union>f \<in> set (ire_fields r). field_written f)"
| "body_written (ITypeDefinition_Enum e) = set_option (ien_discr_type e) \<union> (\<Union>v \<in> set (ien_variants e).
     (\<Union>l \<in> set_option (iva_discr v). literal_written l) \<union> (\<Union>f \<in> set (iva_fields v). field_written f))"
| "body_written (ITypeDefinition_Interface i) = (\<Union>t \<in> set (iin_trait_impls i). {iot_ty t, iot_trait_ty t})"
| "body_written (ITypeDefinition_Custom c) = {icu_builtin c}"
| "body_written (ITypeDefinition_CallbackInterface c) = {}"

definition definition_written :: "ITypeDefinition \<Rightarrow> ITy set" where
  "definition_written td = body_written td \<union>
     (\<Union>m \<in> set (definition_methods td). callable_written (ime_inputs m) (ime_return_type m) (ime_throws m)) \<union>
     (\<Union>c \<in> set (definition_constructors td). callable_written (ico_inputs c) None (ico_throws c))"

definition root_written :: "IRoot \<Rightarrow> ITy set" where
  "root_written root = set (iro_from_unexpected_callback_error_impls root) \<union>
     (\<Union>(k, ns) \<in> set (iro_namespaces root).
       (\<Union>f \<in> set (ins_functions ns). callable_written (ifu_inputs f) (ifu_return_type f) (ifu_throws f)) \<union>
       (\<Union>td \<in> set (ins_type_definitions ns). definition_written td))"

text \<open>The type that a definition stands for in a namespace.\<close>

fun defined_type :: "string \<Rightarrow> ITypeDefinition \<Rightarrow> ITy" where
  "defined_type nm (ITypeDefinition_Record r) = ITy_Record nm (ire_name r) (ire_orig_name r)"
| "defined_type nm (ITypeDefinition_Enum e) = ITy_Enum nm (ien_name e) (ien_orig_name e)"
| "defined_type nm (ITypeDefinition_Interface i) = ITy_Interface nm (iin_name i) (iin_orig_name i) (iin_imp i)"
| "defined_type nm (ITypeDefinition_CallbackInterface c) = ITy_CallbackInterface nm (icb_name c) (icb_orig_name c)"
| "defined_type nm (ITypeDefinition_Custom c) = ITy_Custom nm (icu_name c) (icu_orig_name c) (icu_builtin c)"

inductive identified :: "IRoot \<Rightarrow> ITy \<Rightarrow> bool" for root where
  identified_builtin: "t \<in> {ITy_UInt8, ITy_Int8, ITy_UInt16, ITy_Int16, ITy_UInt32, ITy_Int32, ITy_UInt64, ITy_Int64,
     ITy_Float32, ITy_Float64, ITy_String} \<Longrightarrow> identified root t"
| identified_written: "w \<in> root_written root \<Longrightarrow> ity_part t w \<Longrightarrow> identified root t"
| identified_definition: "(k, ns) \<in> set (iro_namespaces root) \<Longrightarrow> (k', ns') \<in> set (iro_namespaces root) \<Longrightarrow>
    td \<in> set (ins_type_definitions ns') \<Longrightarrow> identified root (defined_type (ins_name ns) td)"

section \<open>The types that are numbered\<close>

definition numbered_types :: "IRoot \<Rightarrow> ITy list" where
  "numbered_types root = builtin_type_list @ root_types root @
     visit_list (\<lambda>(k, ns). types_of_definitions root (ins_name ns)) (iro_namespaces root)"

lemma visit_type_parts: "set (visit_type t) = {s. ity_part s t}"
proof -
  have "ity_part s t" if "s \<in> set (visit_type t)" for s
    using that by (induction t rule: visit_type.induct) (auto intro: ity_part.intros)
  moreover have "s \<in> set (visit_type t)" if "ity_part s t" for s
    using that by induction (auto intro: visit_type_self)
  ultimately show ?thesis by blast
qed

definition parts :: "ITy set \<Rightarrow> ITy set" where
  "parts ws = {s. \<exists>w \<in> ws. ity_part s w}"

lemma parts_simps [simp]:
  "parts {} = {}" "parts (insert w ws) = set (visit_type w) \<union> parts ws" "parts (vs \<union> ws) = parts vs \<union> parts ws"
  "parts (\<Union>x \<in> X. f x) = (\<Union>x \<in> X. parts (f x))" "parts (set ts) = (\<Union>t \<in> set ts. set (visit_type t))"
  "parts (set_option x) = (\<Union>a \<in> set_option x. set (visit_type a))"
  by (auto simp: parts_def visit_type_parts)

lemma literal_parts:
  "set (literal_types l) = parts (literal_written l)" "set (default_types d) = parts (default_written d)"
  by (induction l and d rule: literal_types_default_types.induct) simp_all

lemma item_parts:
  "set (function_types f) = parts (callable_written (ifu_inputs f) (ifu_return_type f) (ifu_throws f))"
  "set (method_types m) = parts (callable_written (ime_inputs m) (ime_return_type m) (ime_throws m))"
  "set (constructor_types c) = parts (callable_written (ico_inputs c) None (ico_throws c))"
  "set (field_types fd) = parts (field_written fd)"
  by (simp_all add: function_types_def method_types_def constructor_types_def callable_written_def argument_types_def
      field_types_def field_written_def literal_parts Un_assoc)

lemma definition_parts: "set (definition_types td) = parts (definition_written td)"
  by (cases td) (auto simp: definition_written_def item_parts trait_types_def variant_types_def literal_parts)

lemma root_parts: "set (root_types root) = parts (root_written root)"
  by (auto simp: root_types_def root_written_def namespace_types_def item_parts definition_parts split_beta)

lemma namespace_custom_types_iff:
  "c \<in> set (namespace_custom_types ns) \<longleftrightarrow> ITypeDefinition_Custom c \<in> set (ins_type_definitions ns)"
proof -
  have "(case td of ITypeDefinition_Custom c \<Rightarrow> Some c | _ \<Rightarrow> None) = Some c \<longleftrightarrow> td = ITypeDefinition_Custom c" for td by (cases td) auto
  then show ?thesis unfolding namespace_custom_types_def map_filter_mem by auto
qed

lemma types_of_definitions_set:
  "set (types_of_definitions root nm) =
     (\<Union>kns \<in> set (iro_namespaces root). defined_type nm ` set (ins_type_definitions (snd kns)))"
proof -
  have "t \<in> set (types_of_definitions root nm) \<longleftrightarrow>
      (\<exists>kns \<in> set (iro_namespaces root). \<exists>td \<in> set (ins_type_definitions (snd kns)). t = defined_type nm td)" for t
  proof
    assume "t \<in> set (types_of_definitions root nm)"
    then obtain kns where kns: "kns \<in> set (iro_namespaces root)" and
      t: "(\<exists>r \<in> set (namespace_records (snd kns)). t = defined_type nm (ITypeDefinition_Record r)) \<or>
        (\<exists>e \<in> set (namespace_enums (snd kns)). t = defined_type nm (ITypeDefinition_Enum e)) \<or>
        (\<exists>i \<in> set (namespace_interfaces (snd kns)). t = defined_type nm (ITypeDefinition_Interface i)) \<or>
        (\<exists>c \<in> set (namespace_callback_interfaces (snd kns)). t = defined_type nm (ITypeDefinition_CallbackInterface c)) \<or>
        (\<exists>c \<in> set (namespace_custom_types (snd kns)). t = defined_type nm (ITypeDefinition_Custom c))"
      unfolding types_of_definitions_def by (auto simp: split_beta; blast)
    from t have "\<exists>td \<in> set (ins_type_definitions (snd kns)). t = defined_type nm td"
      unfolding namespace_items_iff namespace_custom_types_iff Bex_def by blast
    with kns show "\<exists>kns \<in> set (iro_namespaces root). \<exists>td \<in> set (ins_type_definitions (snd kns)). t = defined_type nm td" by blast
  next
    assume "\<exists>kns \<in> set (iro_namespaces root). \<exists>td \<in> set (ins_type_definitions (snd kns)). t = defined_type nm td"
    then obtain kns td where td: "kns \<in> set (iro_namespaces root)" "td \<in> set (ins_type_definitions (snd kns))"
      "t = defined_type nm td" by blast
    then show "t \<in> set (types_of_definitions root nm)"
      unfolding types_of_definitions_def
      by (cases td) (auto simp: split_beta image_UN namespace_items_iff [symmetric] namespace_custom_types_iff [symmetric])
  qed
  then show ?thesis unfolding set_eq_iff UN_iff image_iff Bex_def by blast
qed

lemma numbered_types_identified: "set (numbered_types root) = {t. identified root t}"
proof -
  have "set (numbered_types root) = set builtin_type_list \<union> parts (root_written root) \<union>
      (\<Union>kns \<in> set (iro_namespaces root). set (types_of_definitions root (ins_name (snd kns))))"
    by (simp add: numbered_types_def root_parts split_beta Un_assoc)
  also have "\<dots> = {t. identified root t}"
    unfolding types_of_definitions_set parts_def builtin_type_list_def
    by (auto elim!: identified.cases intro: identified_builtin identified_written identified_definition) force+
  finally show ?thesis .
qed

section \<open>The numbers\<close>

text \<open>The numbers that are in use are below the counter, and no two types share one.\<close>

definition numbered :: "nat \<times> (ITy \<Rightarrow> u64 option) \<Rightarrow> bool" where
  "numbered s \<longleftrightarrow> finite (dom (snd s)) \<and> fst s = card (dom (snd s)) \<and>
     (\<exists>f. inj_on f (dom (snd s)) \<and> (\<forall>t \<in> dom (snd s). f t < fst s \<and> snd s t = Some (of_nat (f t))))"

lemma numbered_start: "numbered (0, Map.empty)"
  by (simp add: numbered_def)

lemma numbered_step:
  assumes "numbered s"
  shows "numbered (add_type t s)" "dom (snd (add_type t s)) = insert t (dom (snd s))"
proof -
  obtain c m where s: "s = (c, m)" by fastforce
  show "dom (snd (add_type t s)) = insert t (dom (snd s))"
    by (auto simp: s add_type_def split: option.split)
  show "numbered (add_type t s)"
  proof (cases "m t")
    case None
    from assms obtain f where f: "inj_on f (dom m)" "\<forall>u \<in> dom m. f u < c \<and> m u = Some (of_nat (f u))"
      by (auto simp: numbered_def s)
    have "t \<notin> dom m" using None by auto
    then have "inj_on (f(t := c)) (insert t (dom m))"
      using f by (auto simp: inj_on_def)
    moreover have "\<forall>u \<in> insert t (dom m). (f(t := c)) u < Suc c \<and> (m(t \<mapsto> of_nat c)) u = Some (of_nat ((f(t := c)) u))"
      using f \<open>t \<notin> dom m\<close> by (auto simp: less_Suc_eq)
    moreover have "Suc c = card (insert t (dom m))" "finite (insert t (dom m))"
      using assms \<open>t \<notin> dom m\<close> by (simp_all add: numbered_def s)
    ultimately show ?thesis
      by (auto simp: numbered_def s add_type_def None dom_fun_upd simp del: fun_upd_apply)
  qed (use assms in \<open>simp add: s add_type_def\<close>)
qed

lemma numbered_fold: "numbered s \<Longrightarrow> numbered (fold add_type ts s) \<and> dom (snd (fold add_type ts s)) = set ts \<union> dom (snd s)"
  by (induction ts arbitrary: s) (simp_all add: numbered_step)

lemma update_from_root_ids:
  assumes "update_from_root from_str root cx = Inr cx'"
  shows "gc_type_id_map cx' = snd (fold add_type (numbered_types root) (0, Map.empty))"
  using assms by (auto simp: update_from_root_def ebind_Inr_iff populate_type_id_map_def numbered_types_def)

text \<open>C22: type ids identify types.  After the context has been set up from the root, a type has an id exactly
  when it is one of the integer types, the floating-point types or the string type, or is a part of a type that is written in the tree --
  in an argument, a result, an error, a field, a default value, a discriminant, a trait implementation, a conversion
  from unexpected callback errors or the builtin type of a custom type -- or is what the definition of some namespace stands for under the name of some namespace, not
  necessarily its own.  Two types have the same id only when
  they are the same type, so that a generator may key the code for a type by the id of its node (the ids
  are \<open>u64\<close>; there are fewer types than that).\<close>

theorem type_ids_exact:
  assumes "update_from_root from_str root cx = Inr cx'" "card {t. identified root t} \<le> 2 ^ 64"
  shows "(get_type_id t cx' = Inl (Err_type_id t) \<longleftrightarrow> \<not> identified root t) \<and>
    (get_type_id t cx' = Inr i \<and> get_type_id u cx' = Inr i \<longrightarrow> t = u)"
proof -
  let ?s = "fold add_type (numbered_types root) (0, Map.empty)"
  have s: "numbered ?s" "dom (snd ?s) = {t. identified root t}"
    using numbered_fold [OF numbered_start] by (simp_all add: numbered_types_identified)
  note ids = update_from_root_ids [OF assms(1)]
  obtain f where f: "inj_on f (dom (snd ?s))" "\<forall>t \<in> dom (snd ?s). f t < fst ?s \<and> snd ?s t = Some (of_nat (f t))"
    and c: "fst ?s = card (dom (snd ?s))" using s(1) by (auto simp: numbered_def)
  have "t = u" if t: "snd ?s t = Some i" "snd ?s u = Some i"
  proof -
    have dom: "t \<in> dom (snd ?s)" "u \<in> dom (snd ?s)" using t by blast+
    with f(2) t have eq: "of_nat (f t) = (of_nat (f u) :: u64)" by (metis option.inject)
    have "f v < 2 ^ 64" if "v \<in> dom (snd ?s)" for v
      using f(2) that c s(2) assms(2) by (metis less_le_trans)
    with dom have "f t < 2 ^ 64" "f u < 2 ^ 64" by blast+
    moreover from eq have "unat (of_nat (f t) :: u64) = unat (of_nat (f u) :: u64)" by simp
    ultimately have "f t = f u" by (simp add: unat_of_nat)
    with f(1) dom show ?thesis by (metis inj_onD)
  qed
  moreover have "snd ?s t = None \<longleftrightarrow> \<not> identified root t"
    using s(2) by auto
  ultimately show ?thesis by (auto simp: get_type_id_def ids ok_or_def split: option.splits)
qed

definition empty_root :: IRoot where
  "empty_root = \<lparr>iro_namespaces = [], iro_cdylib = None, iro_from_unexpected_callback_error_impls = [ITy_Set ITy_Bytes],
     iro_checksum_mode = ChecksumMode_Legacy\<rparr>"

lemma empty_root_identified: "{t. identified empty_root t} = set (builtin_type_list @ [ITy_Set ITy_Bytes, ITy_Bytes])"
  unfolding numbered_types_identified [symmetric] by (simp add: numbered_types_def root_types_def empty_root_def visit_list_def)

lemma type_ids_exact_witness:
  "\<exists>cx. update_from_root (\<lambda>_. None) empty_root (context_new ''python'') = Inr cx \<and>
     get_type_id ITy_Timestamp cx = Inl (Err_type_id ITy_Timestamp) \<and> get_type_id ITy_Bytes cx \<noteq> get_type_id ITy_UInt8 cx"
proof -
  have "card {t. identified empty_root t} \<le> length (builtin_type_list @ [ITy_Set ITy_Bytes, ITy_Bytes])"
    unfolding empty_root_identified by (rule card_length)
  then have card: "card {t. identified empty_root t} \<le> 2 ^ 64" by (simp add: builtin_type_list_def)
  have types: "identified empty_root t \<longleftrightarrow> t \<in> set (builtin_type_list @ [ITy_Set ITy_Bytes, ITy_Bytes])" for t
    using empty_root_identified by blast
  obtain cx where cx: "update_from_root (\<lambda>_. None) empty_root (context_new ''python'') = Inr cx"
    by (simp add: update_from_root_def empty_root_def)
  note ids = type_ids_exact [OF cx card]
  have "get_type_id ITy_Bytes cx \<noteq> get_type_id ITy_UInt8 cx"
  proof
    assume eq: "get_type_id ITy_Bytes cx = get_type_id ITy_UInt8 cx"
    obtain i where "get_type_id ITy_Bytes cx = Inr i"
      using ids [of ITy_Bytes] by (cases "gc_type_id_map cx ITy_Bytes") (auto simp: types get_type_id_def ok_or_def)
    with eq ids [of ITy_Bytes i ITy_UInt8] show False by simp
  qed
  with cx ids [of ITy_Timestamp] show ?thesis by (auto simp: types builtin_type_list_def)
qed

end
