(* ===== verification/CiNodes.thy ===== *)
theory CiNodes
  imports FfiNames Results
begin

text \<open>
  The items of a component interface and what they are made of (\<open>uniffi_bindgen/src/interface\<close>: \<open>ffi.rs\<close>,
  \<open>function.rs\<close>, \<open>object.rs\<close>, \<open>record.rs\<close>, \<open>enum_.rs\<close>, \<open>callbacks.rs\<close>, \<open>custom_type.rs\<close>): how they come from
  the metadata, which types they mention, and the FFI functions that are derived for them.
\<close>

datatype CiError =
    CiErr_panic
  | CiErr_conflicting_types Type Type
  | CiErr_duplicate string
  | CiErr_conflicting_definition string
  | CiErr_not_found string
  | CiErr_no_trait_support string
  | CiErr_method_index string string
  | CiErr_namespace_mismatch
  | CiErr_missing_namespace
  | CiErr_discr_literal
  | CiErr_variant_index

section \<open>FFI types and items (\<open>ffi.rs\<close>)\<close>

record ExternalFfiMetadata =
  ext_name :: string
  ext_module_path :: string

datatype CFfiType =
    CFfi_UInt8 | CFfi_Int8 | CFfi_UInt16 | CFfi_Int16 | CFfi_UInt32 | CFfi_Int32 | CFfi_UInt64 | CFfi_Int64
  | CFfi_Float32 | CFfi_Float64
  | CFfi_RustBuffer "ExternalFfiMetadata option"
  | CFfi_ForeignBytes
  | CFfi_Callback string
  | CFfi_Struct string
  | CFfi_Handle
  | CFfi_RustCallStatus
  | CFfi_Reference CFfiType
  | CFfi_MutReference CFfiType
  | CFfi_VoidPointer

text \<open>\<open>return_type_name\<close>; the error is the panic of \<open>unimplemented!\<close>.\<close>

fun return_type_name :: "CFfiType option \<Rightarrow> CiError + string" where
  "return_type_name None = Inr ''void''"
| "return_type_name (Some CFfi_UInt8) = Inr ''u8''"
| "return_type_name (Some CFfi_Int8) = Inr ''i8''"
| "return_type_name (Some CFfi_UInt16) = Inr ''u16''"
| "return_type_name (Some CFfi_Int16) = Inr ''i16''"
| "return_type_name (Some CFfi_UInt32) = Inr ''u32''"
| "return_type_name (Some CFfi_Int32) = Inr ''i32''"
| "return_type_name (Some CFfi_UInt64) = Inr ''u64''"
| "return_type_name (Some CFfi_Int64) = Inr ''i64''"
| "return_type_name (Some CFfi_Float32) = Inr ''f32''"
| "return_type_name (Some CFfi_Float64) = Inr ''f64''"
| "return_type_name (Some CFfi_Handle) = Inr ''u64''"
| "return_type_name (Some (CFfi_RustBuffer m)) = Inr ''rust_buffer''"
| "return_type_name (Some _) = Inl CiErr_panic"

text \<open>\<open>FfiType::from(&Type)\<close>.\<close>

fun ffi_type_of :: "Type \<Rightarrow> CFfiType" where
  "ffi_type_of Type_UInt8 = CFfi_UInt8"
| "ffi_type_of Type_Int8 = CFfi_Int8"
| "ffi_type_of Type_UInt16 = CFfi_UInt16"
| "ffi_type_of Type_Int16 = CFfi_Int16"
| "ffi_type_of Type_UInt32 = CFfi_UInt32"
| "ffi_type_of Type_Int32 = CFfi_Int32"
| "ffi_type_of Type_UInt64 = CFfi_UInt64"
| "ffi_type_of Type_Int64 = CFfi_Int64"
| "ffi_type_of Type_Float32 = CFfi_Float32"
| "ffi_type_of Type_Float64 = CFfi_Float64"
| "ffi_type_of Type_Boolean = CFfi_Int8"
| "ffi_type_of Type_String = CFfi_RustBuffer None"
| "ffi_type_of Type_Bytes = CFfi_RustBuffer None"
| "ffi_type_of (Type_Object mp nm imp) = CFfi_Handle"
| "ffi_type_of (Type_CallbackInterface mp nm) = CFfi_UInt64"
| "ffi_type_of (Type_Enum mp nm) = CFfi_RustBuffer (Some \<lparr>ext_name = nm, ext_module_path = mp\<rparr>)"
| "ffi_type_of (Type_Record mp nm) = CFfi_RustBuffer (Some \<lparr>ext_name = nm, ext_module_path = mp\<rparr>)"
| "ffi_type_of (Type_Optional t) = CFfi_RustBuffer None"
| "ffi_type_of (Type_Sequence t) = CFfi_RustBuffer None"
| "ffi_type_of (Type_Map k v) = CFfi_RustBuffer None"
| "ffi_type_of (Type_Set t) = CFfi_RustBuffer None"
| "ffi_type_of Type_Timestamp = CFfi_RustBuffer None"
| "ffi_type_of Type_Duration = CFfi_RustBuffer None"
| "ffi_type_of (Type_Custom mp nm builtin) =
     (case ffi_type_of builtin of
        CFfi_RustBuffer None \<Rightarrow> CFfi_RustBuffer (Some \<lparr>ext_name = nm, ext_module_path = mp\<rparr>)
      | t \<Rightarrow> t)"
| "ffi_type_of (Type_Box t) = ffi_type_of t"

record CFfiArgument =
  cfa_name :: string
  cfa_type :: CFfiType

abbreviation cffi_arg :: "string \<Rightarrow> CFfiType \<Rightarrow> CFfiArgument" where
  "cffi_arg nm t \<equiv> \<lparr>cfa_name = nm, cfa_type = t\<rparr>"

record CFfiFunction =
  cff_name :: string
  cff_is_async :: bool
  cff_arguments :: "CFfiArgument list"
  cff_return_type :: "CFfiType option"
  cff_has_rust_call_status_arg :: bool
  cff_is_object_free_function :: bool

record CFfiCallbackFunction =
  cfc_name :: string
  cfc_arguments :: "CFfiArgument list"
  cfc_return_type :: "CFfiType option"
  cfc_has_rust_call_status_arg :: bool

record CFfiField =
  cfi_name :: string
  cfi_type :: CFfiType

abbreviation cffi_field :: "string \<Rightarrow> CFfiType \<Rightarrow> CFfiField" where
  "cffi_field nm t \<equiv> \<lparr>cfi_name = nm, cfi_type = t\<rparr>"

record CFfiStruct =
  cfs_name :: string
  cfs_fields :: "CFfiField list"

datatype CFfiDefinition =
    CFfiDef_Function CFfiFunction
  | CFfiDef_CallbackFunction CFfiCallbackFunction
  | CFfiDef_Struct CFfiStruct

fun cffi_definition_name :: "CFfiDefinition \<Rightarrow> string" where
  "cffi_definition_name (CFfiDef_Function f) = cff_name f"
| "cffi_definition_name (CFfiDef_CallbackFunction f) = cfc_name f"
| "cffi_definition_name (CFfiDef_Struct s) = cfs_name s"

definition cff_default :: CFfiFunction where
  "cff_default = \<lparr>cff_name = '''', cff_is_async = False, cff_arguments = [], cff_return_type = None,
     cff_has_rust_call_status_arg = True, cff_is_object_free_function = False\<rparr>"

definition cff_init :: "CFfiType option \<Rightarrow> CFfiArgument list \<Rightarrow> CFfiFunction \<Rightarrow> CFfiFunction" where
  "cff_init return_type args f =
     (let f = f\<lparr>cff_arguments := args\<rparr> in
      if cff_is_async f then f\<lparr>cff_return_type := Some CFfi_Handle, cff_has_rust_call_status_arg := False\<rparr>
      else f\<lparr>cff_return_type := return_type\<rparr>)"

definition callback_init :: "string \<Rightarrow> string \<Rightarrow> string \<Rightarrow> CFfiFunction" where
  "callback_init module_path trait_nm vtable_nm = cff_default\<lparr>
     cff_name := init_callback_vtable_fn_symbol_name module_path trait_nm,
     cff_arguments := [cffi_arg ''vtable'' (CFfi_Reference (CFfi_Struct vtable_nm))],
     cff_return_type := None, cff_has_rust_call_status_arg := False\<rparr>"

section \<open>Callables (\<open>function.rs\<close>, \<open>object.rs\<close>)\<close>

record CArgument =
  carg_name :: string
  carg_type :: Type
  carg_by_ref :: bool
  carg_optional :: bool
  carg_default :: "DefaultValueMetadata option"

definition carg_from_metadata :: "FnParamMetadata \<Rightarrow> CArgument" where
  "carg_from_metadata p = \<lparr>carg_name = param_name p, carg_type = param_ty p, carg_by_ref = param_by_ref p,
     carg_optional = param_optional p, carg_default = param_default p\<rparr>"

definition carg_is_borrowed_bytes :: "CArgument \<Rightarrow> bool" where
  "carg_is_borrowed_bytes a \<longleftrightarrow> carg_by_ref a \<and> carg_type a = Type_Bytes"

definition carg_ffi_argument :: "CArgument \<Rightarrow> CFfiArgument" where
  "carg_ffi_argument a = cffi_arg (carg_name a)
     (if carg_is_borrowed_bytes a then CFfi_ForeignBytes else ffi_type_of (carg_type a))"

record CFunction =
  cfu_name :: string
  cfu_module_path :: string
  cfu_is_async :: bool
  cfu_arguments :: "CArgument list"
  cfu_return_type :: "Type option"
  cfu_ffi_func :: CFfiFunction
  cfu_docstring :: "string option"
  cfu_throws :: "Type option"
  cfu_checksum_fn_name :: string
  cfu_checksum :: "u16 option"

record CConstructor =
  cco_name :: string
  cco_object_name :: string
  cco_object_module_path :: string
  cco_is_async :: bool
  cco_arguments :: "CArgument list"
  cco_ffi_func :: CFfiFunction
  cco_docstring :: "string option"
  cco_throws :: "Type option"
  cco_checksum_fn_name :: string
  cco_checksum :: "u16 option"
  cco_self_type :: Type

record CMethod =
  cme_name :: string
  cme_is_async :: bool
  cme_self_type :: Type
  cme_arguments :: "CArgument list"
  cme_return_type :: "Type option"
  cme_ffi_func :: CFfiFunction
  cme_docstring :: "string option"
  cme_throws :: "Type option"
  cme_takes_self_by_arc :: bool
  cme_checksum_fn_name :: string
  cme_checksum :: "u16 option"

definition cfu_from_metadata :: "FnMetadata \<Rightarrow> CFunction" where
  "cfu_from_metadata m =
     \<lparr>cfu_name = fn_name m, cfu_module_path = fn_module_path m, cfu_is_async = fn_is_async m,
      cfu_arguments = map carg_from_metadata (fn_inputs m), cfu_return_type = fn_return_type m,
      cfu_ffi_func = cff_default\<lparr>cff_name := fn_ffi_symbol_name m, cff_is_async := fn_is_async m\<rparr>,
      cfu_docstring = fn_docstring m, cfu_throws = fn_throws m,
      cfu_checksum_fn_name = fn_checksum_symbol_name (fn_module_path m) (fn_name m), cfu_checksum = fn_checksum m\<rparr>"

definition cco_from_metadata :: "ConstructorMetadata \<Rightarrow> CConstructor" where
  "cco_from_metadata m =
     \<lparr>cco_name = ctor_name m, cco_object_name = ctor_self_name m, cco_object_module_path = ctor_module_path m,
      cco_is_async = ctor_is_async m, cco_arguments = map carg_from_metadata (ctor_inputs m),
      cco_ffi_func = cff_default\<lparr>cff_name := ctor_ffi_symbol_name m, cff_is_async := ctor_is_async m\<rparr>,
      cco_docstring = ctor_docstring m, cco_throws = ctor_throws m,
      cco_checksum_fn_name = constructor_checksum_symbol_name (ctor_module_path m) (ctor_self_name m) (ctor_name m),
      cco_checksum = ctor_checksum m,
      cco_self_type = Type_Object (ctor_module_path m) (ctor_self_name m) ObjectImpl_Struct\<rparr>"

definition cme_from_metadata :: "MethodMetadata \<Rightarrow> Type \<Rightarrow> CMethod" where
  "cme_from_metadata m receiver =
     \<lparr>cme_name = meth_name m, cme_is_async = meth_is_async m, cme_self_type = receiver,
      cme_arguments = map carg_from_metadata (meth_inputs m), cme_return_type = meth_return_type m,
      cme_ffi_func = cff_default\<lparr>cff_name := meth_ffi_symbol_name m, cff_is_async := meth_is_async m\<rparr>,
      cme_docstring = meth_docstring m, cme_throws = meth_throws m,
      cme_takes_self_by_arc = meth_takes_self_by_arc m,
      cme_checksum_fn_name = method_checksum_symbol_name (meth_module_path m) (meth_self_name m) (meth_name m),
      cme_checksum = meth_checksum m\<rparr>"

text \<open>\<open>Callable::iter_types\<close>: arguments, return type, error; a constructor returns its \<open>self_type\<close>.\<close>

definition cal_iter_types :: "CArgument list \<Rightarrow> Type option \<Rightarrow> Type option \<Rightarrow> Type list" where
  "cal_iter_types args return_type throws =
     concat (map (\<lambda>a. iter_types (carg_type a)) args) @
     (case return_type of None \<Rightarrow> [] | Some t \<Rightarrow> iter_types t) @
     (case throws of None \<Rightarrow> [] | Some t \<Rightarrow> iter_types t)"

definition cfu_iter_types :: "CFunction \<Rightarrow> Type list" where
  "cfu_iter_types f = cal_iter_types (cfu_arguments f) (cfu_return_type f) (cfu_throws f)"

definition cco_iter_types :: "CConstructor \<Rightarrow> Type list" where
  "cco_iter_types c = cal_iter_types (cco_arguments c) (Some (cco_self_type c)) (cco_throws c)"

definition cme_iter_types :: "CMethod \<Rightarrow> Type list" where
  "cme_iter_types m = cal_iter_types (cme_arguments m) (cme_return_type m) (cme_throws m)"

text \<open>\<open>throws_name\<close>, with its panic for a type that cannot be thrown.\<close>

definition throws_name :: "Type option \<Rightarrow> CiError + string option" where
  "throws_name throws =
     (case throws of
        None \<Rightarrow> Inr None
      | Some (Type_Enum mp nm) \<Rightarrow> Inr (Some nm)
      | Some (Type_Object mp nm imp) \<Rightarrow> Inr (Some nm)
      | Some (Type_Custom mp nm (Type_Enum mp' nm')) \<Rightarrow> Inr (Some nm)
      | Some (Type_Custom mp nm (Type_Object mp' nm' imp)) \<Rightarrow> Inr (Some nm)
      | Some t \<Rightarrow> Inl CiErr_panic)"

definition cme_full_arguments :: "CMethod \<Rightarrow> CArgument list" where
  "cme_full_arguments m =
     \<lparr>carg_name = ''ptr'', carg_type = cme_self_type m, carg_by_ref = \<not> cme_takes_self_by_arc m,
      carg_optional = False, carg_default = None\<rparr> # cme_arguments m"

text \<open>Deriving the FFI functions; each starts with \<open>assert!(!name.is_empty())\<close>.\<close>

definition cfu_derive :: "CFunction \<Rightarrow> CiError + CFunction" where
  "cfu_derive f =
     (if cff_name (cfu_ffi_func f) = '''' then Inl CiErr_panic
      else Inr (f\<lparr>cfu_ffi_func := cff_init (map_option ffi_type_of (cfu_return_type f))
        (map carg_ffi_argument (cfu_arguments f)) (cfu_ffi_func f)\<rparr>))"

definition cco_derive :: "CConstructor \<Rightarrow> CiError + CConstructor" where
  "cco_derive c =
     (if cff_name (cco_ffi_func c) = '''' then Inl CiErr_panic
      else Inr (c\<lparr>cco_ffi_func := cff_init (Some CFfi_Handle) (map carg_ffi_argument (cco_arguments c)) (cco_ffi_func c)\<rparr>))"

definition cme_derive :: "CMethod \<Rightarrow> CiError + CMethod" where
  "cme_derive m =
     (if cff_name (cme_ffi_func m) = '''' then Inl CiErr_panic
      else Inr (m\<lparr>cme_ffi_func := cff_init (map_option ffi_type_of (cme_return_type m))
        (map carg_ffi_argument (cme_full_arguments m)) (cme_ffi_func m)\<rparr>))"

datatype CUniffiTrait =
    CUniffiTrait_Debug CMethod
  | CUniffiTrait_Display CMethod
  | CUniffiTrait_Eq CMethod CMethod
  | CUniffiTrait_Hash CMethod
  | CUniffiTrait_Ord CMethod

fun ctr_methods :: "CUniffiTrait \<Rightarrow> CMethod list" where
  "ctr_methods (CUniffiTrait_Debug fmt) = [fmt]"
| "ctr_methods (CUniffiTrait_Display fmt) = [fmt]"
| "ctr_methods (CUniffiTrait_Eq eq ne) = [eq, ne]"
| "ctr_methods (CUniffiTrait_Hash hash) = [hash]"
| "ctr_methods (CUniffiTrait_Ord cmp) = [cmp]"

definition ctr_iter_types :: "CUniffiTrait \<Rightarrow> Type list" where
  "ctr_iter_types t = concat (map cme_iter_types (ctr_methods t))"

fun ctr_derive :: "CUniffiTrait \<Rightarrow> CiError + CUniffiTrait" where
  "ctr_derive (CUniffiTrait_Debug fmt) = ebind (cme_derive fmt) (\<lambda>m. Inr (CUniffiTrait_Debug m))"
| "ctr_derive (CUniffiTrait_Display fmt) = ebind (cme_derive fmt) (\<lambda>m. Inr (CUniffiTrait_Display m))"
| "ctr_derive (CUniffiTrait_Eq eq ne) =
     ebind (cme_derive eq) (\<lambda>m. ebind (cme_derive ne) (\<lambda>m'. Inr (CUniffiTrait_Eq m m')))"
| "ctr_derive (CUniffiTrait_Hash hash) = ebind (cme_derive hash) (\<lambda>m. Inr (CUniffiTrait_Hash m))"
| "ctr_derive (CUniffiTrait_Ord cmp) = ebind (cme_derive cmp) (\<lambda>m. Inr (CUniffiTrait_Ord m))"

fun ctr_from_metadata :: "UniffiTraitMetadata \<Rightarrow> Type \<Rightarrow> CUniffiTrait" where
  "ctr_from_metadata (UniffiTrait_Debug fmt) receiver = CUniffiTrait_Debug (cme_from_metadata fmt receiver)"
| "ctr_from_metadata (UniffiTrait_Display fmt) receiver = CUniffiTrait_Display (cme_from_metadata fmt receiver)"
| "ctr_from_metadata (UniffiTrait_Eq eq ne) receiver =
     CUniffiTrait_Eq (cme_from_metadata eq receiver) (cme_from_metadata ne receiver)"
| "ctr_from_metadata (UniffiTrait_Hash hash) receiver = CUniffiTrait_Hash (cme_from_metadata hash receiver)"
| "ctr_from_metadata (UniffiTrait_Ord cmp) receiver = CUniffiTrait_Ord (cme_from_metadata cmp receiver)"

end
