(* ===== verification/CiItems.thy ===== *)
theory CiItems
  imports CiNodes
begin

text \<open>
  Records, enums, objects, callback interfaces and custom types of a component interface
  (\<open>interface/record.rs\<close>, \<open>enum_.rs\<close>, \<open>object.rs\<close>, \<open>callbacks.rs\<close>, \<open>custom_type.rs\<close>).
  The conversion to upper camel case (\<open>heck\<close> crate) is the parameter \<open>upper_camel\<close>.
\<close>

section \<open>Data\<close>

record CField =
  cfd_name :: string
  cfd_type :: Type
  cfd_default :: "DefaultValueMetadata option"
  cfd_docstring :: "string option"

record CRecord =
  cre_name :: string
  cre_module_path :: string
  cre_remote :: bool
  cre_fields :: "CField list"
  cre_constructors :: "CConstructor list"
  cre_methods :: "CMethod list"
  cre_uniffi_traits :: "CUniffiTrait list"
  cre_docstring :: "string option"

record CVariant =
  cva_name :: string
  cva_discr :: "LiteralMetadata option"
  cva_fields :: "CField list"
  cva_docstring :: "string option"

record CEnum =
  cen_name :: string
  cen_module_path :: string
  cen_remote :: bool
  cen_discr_type :: "Type option"
  cen_variants :: "CVariant list"
  cen_shape :: EnumShape
  cen_non_exhaustive :: bool
  cen_constructors :: "CConstructor list"
  cen_methods :: "CMethod list"
  cen_uniffi_traits :: "CUniffiTrait list"
  cen_docstring :: "string option"

record CObject =
  cob_name :: string
  cob_imp :: ObjectImpl
  cob_module_path :: string
  cob_remote :: bool
  cob_constructors :: "CConstructor list"
  cob_methods :: "CMethod list"
  cob_uniffi_traits :: "CUniffiTrait list"
  cob_trait_impls :: "ObjectTraitImplMetadata list"
  cob_ffi_func_clone :: CFfiFunction
  cob_ffi_func_free :: CFfiFunction
  cob_ffi_init_callback :: "CFfiFunction option"
  cob_docstring :: "string option"

record CCallbackInterface =
  ccb_name :: string
  ccb_module_path :: string
  ccb_methods :: "CMethod list"
  ccb_ffi_init_callback :: CFfiFunction
  ccb_docstring :: "string option"

record CCustomType =
  ccu_name :: string
  ccu_module_path :: string
  ccu_builtin :: Type
  ccu_docstring :: "string option"

section \<open>From metadata\<close>

definition cfd_from_metadata :: "FieldMetadata \<Rightarrow> CField" where
  "cfd_from_metadata f = \<lparr>cfd_name = field_name f, cfd_type = field_ty f, cfd_default = field_default f,
     cfd_docstring = field_docstring f\<rparr>"

definition cre_from_metadata :: "RecordMetadata \<Rightarrow> CRecord" where
  "cre_from_metadata m =
     \<lparr>cre_name = rec_name m, cre_module_path = rec_module_path m, cre_remote = rec_remote m,
      cre_fields = map cfd_from_metadata (rec_fields m), cre_constructors = [], cre_methods = [],
      cre_uniffi_traits = [], cre_docstring = rec_docstring m\<rparr>"

definition cva_from_metadata :: "VariantMetadata \<Rightarrow> CVariant" where
  "cva_from_metadata v = \<lparr>cva_name = var_name v, cva_discr = var_discr v,
     cva_fields = map cfd_from_metadata (var_fields v), cva_docstring = var_docstring v\<rparr>"

definition cen_from_metadata :: "EnumMetadata \<Rightarrow> CEnum" where
  "cen_from_metadata m =
     \<lparr>cen_name = enum_name m, cen_module_path = enum_module_path m, cen_remote = enum_remote m,
      cen_discr_type = enum_discr_type m, cen_variants = map cva_from_metadata (enum_variants m),
      cen_shape = enum_shape m, cen_non_exhaustive = enum_non_exhaustive m, cen_constructors = [], cen_methods = [],
      cen_uniffi_traits = [], cen_docstring = enum_docstring m\<rparr>"

definition cob_from_metadata :: "ObjectMetadata \<Rightarrow> CObject" where
  "cob_from_metadata m =
     \<lparr>cob_name = obj_name m, cob_imp = obj_imp m, cob_module_path = obj_module_path m, cob_remote = obj_remote m,
      cob_constructors = [], cob_methods = [], cob_uniffi_traits = [], cob_trait_impls = [],
      cob_ffi_func_clone = cff_default\<lparr>cff_name := obj_clone_ffi_symbol_name m\<rparr>,
      cob_ffi_func_free = cff_default\<lparr>cff_name := obj_free_ffi_symbol_name m\<rparr>,
      cob_ffi_init_callback = None, cob_docstring = obj_docstring m\<rparr>"

definition ccb_from_metadata :: "CallbackInterfaceMetadata \<Rightarrow> CCallbackInterface" where
  "ccb_from_metadata m = \<lparr>ccb_name = cb_name m, ccb_module_path = cb_module_path m, ccb_methods = [],
     ccb_ffi_init_callback = cff_default, ccb_docstring = cb_docstring m\<rparr>"

definition ccu_from_metadata :: "CustomTypeMetadata \<Rightarrow> CCustomType" where
  "ccu_from_metadata m = \<lparr>ccu_name = custom_name m, ccu_module_path = custom_module_path m,
     ccu_builtin = custom_builtin m, ccu_docstring = custom_docstring m\<rparr>"

text \<open>\<open>AsType\<close>.\<close>

definition cre_as_type :: "CRecord \<Rightarrow> Type" where
  "cre_as_type r = Type_Record (cre_module_path r) (cre_name r)"

definition cen_as_type :: "CEnum \<Rightarrow> Type" where
  "cen_as_type e = Type_Enum (cen_module_path e) (cen_name e)"

definition cob_as_type :: "CObject \<Rightarrow> Type" where
  "cob_as_type ob = Type_Object (cob_module_path ob) (cob_name ob) (cob_imp ob)"

definition ccb_as_type :: "CCallbackInterface \<Rightarrow> Type" where
  "ccb_as_type c = Type_CallbackInterface (ccb_module_path c) (ccb_name c)"

text \<open>\<open>iter_types\<close>.\<close>

definition fields_iter_types :: "CField list \<Rightarrow> Type list" where
  "fields_iter_types fs = concat (map (\<lambda>f. iter_types (cfd_type f)) fs)"

definition cre_iter_types :: "CRecord \<Rightarrow> Type list" where
  "cre_iter_types r = fields_iter_types (cre_fields r) @ concat (map cco_iter_types (cre_constructors r)) @
     concat (map cme_iter_types (cre_methods r))"

definition cva_iter_types :: "CVariant \<Rightarrow> Type list" where
  "cva_iter_types v = fields_iter_types (cva_fields v)"

definition cen_iter_types :: "CEnum \<Rightarrow> Type list" where
  "cen_iter_types e = concat (map cva_iter_types (cen_variants e)) @ concat (map cco_iter_types (cen_constructors e)) @
     concat (map cme_iter_types (cen_methods e))"

definition cob_iter_types :: "CObject \<Rightarrow> Type list" where
  "cob_iter_types ob = concat (map cme_iter_types (cob_methods ob)) @ concat (map ctr_iter_types (cob_uniffi_traits ob)) @
     concat (map cco_iter_types (cob_constructors ob))"

definition ccb_iter_types :: "CCallbackInterface \<Rightarrow> Type list" where
  "ccb_iter_types c = concat (map cme_iter_types (ccb_methods c))"

definition cen_is_flat :: "CEnum \<Rightarrow> bool" where
  "cen_is_flat e = (case cen_shape e of EnumShape_Error flat \<Rightarrow> flat
     | EnumShape_Enum \<Rightarrow> list_all (\<lambda>v. cva_fields v = []) (cen_variants e))"

section \<open>Discriminants (\<open>enum_.rs\<close>)\<close>

text \<open>\<open>variant_discr_iter\<close> and the loop of \<open>variant_discr\<close>: \<open>next\<close> is the \<open>u64\<close> that the next variant has when
  it gives no discriminant; an \<open>i64\<close> is its two's complement.\<close>

definition this_discr :: "u64 \<Rightarrow> CVariant \<Rightarrow> CiError + u64 \<times> LiteralMetadata" where
  "this_discr next v =
     (case cva_discr v of
        None \<Rightarrow> Inr (next, if sint next < 0 then new_int next else new_uint next)
      | Some (Literal_UInt w radix t) \<Rightarrow> Inr (w, new_uint w)
      | Some (Literal_Int w radix t) \<Rightarrow> Inr (w, new_int w)
      | Some _ \<Rightarrow> Inl CiErr_discr_literal)"

fun discr_loop_at :: "nat \<Rightarrow> u64 \<Rightarrow> CVariant list \<Rightarrow> CiError + LiteralMetadata" where
  "discr_loop_at i next [] = Inl CiErr_variant_index"
| "discr_loop_at i next (v # vs) =
     ebind (this_discr next v) (\<lambda>(this, lit). case i of 0 \<Rightarrow> Inr lit | Suc j \<Rightarrow> discr_loop_at j (this + 1) vs)"

definition cen_variant_discr :: "CEnum \<Rightarrow> nat \<Rightarrow> CiError + LiteralMetadata" where
  "cen_variant_discr e i = discr_loop_at i 0 (cen_variants e)"

section \<open>Vtables and foreign futures (\<open>callbacks.rs\<close>)\<close>

definition vtable_name_of :: "string \<Rightarrow> string" where
  "vtable_name_of trait_nm = ''VTableCallbackInterface'' @ trait_nm"

definition method_ffi_callback_name :: "string \<Rightarrow> nat \<Rightarrow> string" where
  "method_ffi_callback_name trait_nm i = ''CallbackInterface'' @ trait_nm @ ''Method'' @ decimal i"

definition foreign_future_ffi_result_struct ::
  "(string \<Rightarrow> string) \<Rightarrow> CFfiType option \<Rightarrow> CiError + CFfiStruct" where
  "foreign_future_ffi_result_struct upper_camel return_ffi_type =
     ebind (return_type_name return_ffi_type) (\<lambda>nm. Inr
       \<lparr>cfs_name = ''ForeignFutureResult'' @ upper_camel nm,
        cfs_fields = (case return_ffi_type of
            Some t \<Rightarrow> [cffi_field ''return_value'' t, cffi_field ''call_status'' CFfi_RustCallStatus]
          | None \<Rightarrow> [cffi_field ''call_status'' CFfi_RustCallStatus])\<rparr>)"

definition ffi_foreign_future_complete ::
  "(string \<Rightarrow> string) \<Rightarrow> CFfiType option \<Rightarrow> CiError + CFfiCallbackFunction" where
  "ffi_foreign_future_complete upper_camel return_ffi_type =
     ebind (return_type_name return_ffi_type) (\<lambda>nm. Inr
       \<lparr>cfc_name = ''ForeignFutureComplete'' @ upper_camel nm,
        cfc_arguments = [cffi_arg ''callback_data'' CFfi_UInt64,
          cffi_arg ''result'' (CFfi_Struct (''ForeignFutureResult'' @ upper_camel nm))],
        cfc_return_type = None, cfc_has_rust_call_status_arg = False\<rparr>)"

definition method_ffi_callback ::
  "(string \<Rightarrow> string) \<Rightarrow> string \<Rightarrow> CMethod \<Rightarrow> nat \<Rightarrow> CiError + CFfiCallbackFunction" where
  "method_ffi_callback upper_camel trait_nm m i =
     (if \<not> cme_is_async m then Inr
        \<lparr>cfc_name = method_ffi_callback_name trait_nm i,
         cfc_arguments = cffi_arg ''uniffi_handle'' CFfi_UInt64 # map carg_ffi_argument (cme_arguments m) @
           [case cme_return_type m of
              Some t \<Rightarrow> cffi_arg ''uniffi_out_return'' (CFfi_MutReference (ffi_type_of t))
            | None \<Rightarrow> cffi_arg ''uniffi_out_return'' CFfi_VoidPointer],
         cfc_return_type = None, cfc_has_rust_call_status_arg = True\<rparr>
      else ebind (ffi_foreign_future_complete upper_camel (map_option ffi_type_of (cme_return_type m)))
        (\<lambda>completion. Inr
        \<lparr>cfc_name = method_ffi_callback_name trait_nm i,
         cfc_arguments = cffi_arg ''uniffi_handle'' CFfi_UInt64 # map carg_ffi_argument (cme_arguments m) @
           [cffi_arg ''uniffi_future_callback'' (CFfi_Callback (cfc_name completion)),
            cffi_arg ''uniffi_callback_data'' CFfi_UInt64,
            cffi_arg ''uniffi_out_dropped_callback''
              (CFfi_MutReference (CFfi_Struct ''ForeignFutureDroppedCallbackStruct''))],
         cfc_return_type = None, cfc_has_rust_call_status_arg = False\<rparr>))"

definition ffi_callbacks ::
  "(string \<Rightarrow> string) \<Rightarrow> string \<Rightarrow> CMethod list \<Rightarrow> CiError + CFfiCallbackFunction list" where
  "ffi_callbacks upper_camel trait_nm methods =
     emap (\<lambda>(i, m). method_ffi_callback upper_camel trait_nm m i) (List.enumerate 0 methods)"

definition ci_vtable_struct :: "string \<Rightarrow> CMethod list \<Rightarrow> CFfiStruct" where
  "ci_vtable_struct trait_nm methods =
     \<lparr>cfs_name = vtable_name_of trait_nm,
      cfs_fields = [cffi_field ''uniffi_free'' (CFfi_Callback ''CallbackInterfaceFree''),
          cffi_field ''uniffi_clone'' (CFfi_Callback ''CallbackInterfaceClone'')] @
        map (\<lambda>(i, m). cffi_field (cme_name m)
          (CFfi_Callback (''CallbackInterface'' @ trait_nm @ ''Method'' @ decimal i))) (List.enumerate 0 methods)\<rparr>"

section \<open>FFI functions of items\<close>

definition ccb_derive :: "CCallbackInterface \<Rightarrow> CCallbackInterface" where
  "ccb_derive c = c\<lparr>ccb_ffi_init_callback := callback_init (ccb_module_path c) (ccb_name c) (vtable_name_of (ccb_name c))\<rparr>"

definition cob_derive :: "CObject \<Rightarrow> CiError + CObject" where
  "cob_derive ob =
     (if cff_name (cob_ffi_func_clone ob) = '''' \<or> cff_name (cob_ffi_func_free ob) = '''' then Inl CiErr_panic
      else
        ebind (emap cco_derive (cob_constructors ob)) (\<lambda>constructors.
        ebind (emap cme_derive (cob_methods ob)) (\<lambda>methods.
        ebind (emap ctr_derive (cob_uniffi_traits ob)) (\<lambda>traits. Inr
          (ob\<lparr>cob_ffi_func_clone := (cob_ffi_func_clone ob)
              \<lparr>cff_arguments := [cffi_arg ''handle'' CFfi_Handle], cff_return_type := Some CFfi_Handle\<rparr>,
            cob_ffi_func_free := (cob_ffi_func_free ob)
              \<lparr>cff_arguments := [cffi_arg ''handle'' CFfi_Handle], cff_return_type := None,
               cff_is_object_free_function := True\<rparr>,
            cob_ffi_init_callback :=
              (if has_callback_interface (cob_imp ob)
               then Some (callback_init (cob_module_path ob) (cob_name ob) (vtable_name_of (cob_name ob)))
               else cob_ffi_init_callback ob),
            cob_constructors := constructors, cob_methods := methods, cob_uniffi_traits := traits\<rparr>)))))"

definition cre_derive :: "CRecord \<Rightarrow> CiError + CRecord" where
  "cre_derive r =
     ebind (emap cco_derive (cre_constructors r)) (\<lambda>constructors.
     ebind (emap cme_derive (cre_methods r)) (\<lambda>methods.
     ebind (emap ctr_derive (cre_uniffi_traits r)) (\<lambda>traits. Inr
       (r\<lparr>cre_constructors := constructors, cre_methods := methods, cre_uniffi_traits := traits\<rparr>))))"

definition cen_derive :: "CEnum \<Rightarrow> CiError + CEnum" where
  "cen_derive e =
     ebind (emap cco_derive (cen_constructors e)) (\<lambda>constructors.
     ebind (emap cme_derive (cen_methods e)) (\<lambda>methods.
     ebind (emap ctr_derive (cen_uniffi_traits e)) (\<lambda>traits. Inr
       (e\<lparr>cen_constructors := constructors, cen_methods := methods, cen_uniffi_traits := traits\<rparr>))))"

text \<open>\<open>iter_ffi_function_definitions\<close>; the members of all three kinds of items come in the same order.\<close>

definition member_ffi_functions :: "CConstructor list \<Rightarrow> CMethod list \<Rightarrow> CUniffiTrait list \<Rightarrow> CFfiFunction list" where
  "member_ffi_functions constructors methods traits =
     map cco_ffi_func constructors @ map cme_ffi_func methods @
     map cme_ffi_func (concat (map ctr_methods traits))"

definition cob_ffi_functions :: "CObject \<Rightarrow> CFfiFunction list" where
  "cob_ffi_functions ob = [cob_ffi_func_clone ob, cob_ffi_func_free ob] @
     (case cob_ffi_init_callback ob of None \<Rightarrow> [] | Some f \<Rightarrow> [f]) @
     member_ffi_functions (cob_constructors ob) (cob_methods ob) (cob_uniffi_traits ob)"

definition cre_ffi_functions :: "CRecord \<Rightarrow> CFfiFunction list" where
  "cre_ffi_functions r = member_ffi_functions (cre_constructors r) (cre_methods r) (cre_uniffi_traits r)"

definition cen_ffi_functions :: "CEnum \<Rightarrow> CFfiFunction list" where
  "cen_ffi_functions e = member_ffi_functions (cen_constructors e) (cen_methods e) (cen_uniffi_traits e)"

definition cob_ffi_callbacks :: "(string \<Rightarrow> string) \<Rightarrow> CObject \<Rightarrow> CiError + CFfiCallbackFunction list" where
  "cob_ffi_callbacks upper_camel ob =
     (if is_trait_interface (cob_imp ob) then ffi_callbacks upper_camel (cob_name ob) (cob_methods ob) else Inr [])"

definition cob_vtable_definition :: "CObject \<Rightarrow> CFfiStruct option" where
  "cob_vtable_definition ob =
     (if is_trait_interface (cob_imp ob) then Some (ci_vtable_struct (cob_name ob) (cob_methods ob)) else None)"

definition ccb_ffi_callbacks :: "(string \<Rightarrow> string) \<Rightarrow> CCallbackInterface \<Rightarrow> CiError + CFfiCallbackFunction list" where
  "ccb_ffi_callbacks upper_camel c = ffi_callbacks upper_camel (ccb_name c) (ccb_methods c)"

definition ccb_vtable_definition :: "CCallbackInterface \<Rightarrow> CFfiStruct" where
  "ccb_vtable_definition c = ci_vtable_struct (ccb_name c) (ccb_methods c)"

end
