(* ===== verification/CiBuild.thy ===== *)
theory CiBuild
  imports CiItems RecursiveTypes
begin

text \<open>
  How a component interface is built from metadata: the universe of its types (\<open>interface/universe.rs\<close>),
  the operations that add items (\<open>interface/mod.rs\<close>) and \<open>macro_metadata/ci.rs\<close>, which feeds them the items of
  a metadata group in the order of its \<open>BTreeSet\<close>.
\<close>

section \<open>The universe of types\<close>

record TypeUniverse =
  tu_namespace :: NamespaceMetadata
  tu_namespace_docstring :: "string option"
  tu_type_definitions :: "string \<Rightarrow> Type option"
  tu_all_known_types :: "Type set"

definition universe_new :: "NamespaceMetadata \<Rightarrow> TypeUniverse" where
  "universe_new namespace = \<lparr>tu_namespace = namespace, tu_namespace_docstring = None,
     tu_type_definitions = Map.empty, tu_all_known_types = {}\<rparr>"

text \<open>\<open>normalize_module_path\<close> is \<open>crate_name\<close>.\<close>

fun normalize_type_module_path :: "Type \<Rightarrow> Type" where
  "normalize_type_module_path (Type_Object mp nm imp) = Type_Object (crate_name mp) nm imp"
| "normalize_type_module_path (Type_Record mp nm) = Type_Record (crate_name mp) nm"
| "normalize_type_module_path (Type_Enum mp nm) = Type_Enum (crate_name mp) nm"
| "normalize_type_module_path (Type_CallbackInterface mp nm) = Type_CallbackInterface (crate_name mp) nm"
| "normalize_type_module_path (Type_Optional t) = Type_Optional (normalize_type_module_path t)"
| "normalize_type_module_path (Type_Sequence t) = Type_Sequence (normalize_type_module_path t)"
| "normalize_type_module_path (Type_Map k v) =
     Type_Map (normalize_type_module_path k) (normalize_type_module_path v)"
| "normalize_type_module_path (Type_Set t) = Type_Set (normalize_type_module_path t)"
| "normalize_type_module_path (Type_Custom mp nm builtin) =
     Type_Custom (crate_name mp) nm (normalize_type_module_path builtin)"
| "normalize_type_module_path (Type_Box t) = normalize_type_module_path t"
| "normalize_type_module_path t = t"

definition add_type_definition :: "string \<Rightarrow> Type \<Rightarrow> TypeUniverse \<Rightarrow> CiError + TypeUniverse" where
  "add_type_definition nm t u =
     (case tu_type_definitions u nm of
        Some cur \<Rightarrow>
          if normalize_type_module_path t = normalize_type_module_path cur then Inr u
          else Inl (CiErr_conflicting_types cur t)
      | None \<Rightarrow> Inr (u\<lparr>tu_type_definitions := (tu_type_definitions u)(nm \<mapsto> t)\<rparr>))"

lemma size_iter_types: "s \<in> set (iter_types t) \<Longrightarrow> size s \<le> size t" "s \<in> set (iter_nested_types t) \<Longrightarrow> size s < size t"
  by (induction t and t rule: iter_types_iter_nested_types.induct) fastforce+

lemma efold_cong [fundef_cong]:
  "xs = ys \<Longrightarrow> s = t \<Longrightarrow> (\<And>x u. x \<in> set ys \<Longrightarrow> f x u = g x u) \<Longrightarrow> efold f xs s = efold g ys t"
  by (induction xs arbitrary: ys s t) (fastforce intro: ebind_cong)+

function add_known_type :: "Type \<Rightarrow> TypeUniverse \<Rightarrow> CiError + TypeUniverse" where
  "add_known_type t u =
     (let u = (if t \<in> tu_all_known_types u then u
               else u\<lparr>tu_all_known_types := insert (normalize_type_module_path t) (tu_all_known_types u)\<rparr>) in
      ebind (efold (\<lambda>sub u. add_known_type sub u) (iter_nested_types t) u) (\<lambda>u.
        case type_name t of None \<Rightarrow> Inr u | Some nm \<Rightarrow> add_type_definition nm t u))"
  by pat_completeness auto
termination by (relation "measure (\<lambda>(t, u). size t)") (simp_all add: size_iter_types(2))

declare add_known_type.simps [simp del]

definition add_known_types :: "Type list \<Rightarrow> TypeUniverse \<Rightarrow> CiError + TypeUniverse" where
  "add_known_types types u = efold add_known_type types u"

definition is_external :: "TypeUniverse \<Rightarrow> Type \<Rightarrow> bool" where
  "is_external u t = (case type_crate_name t of
     Some p \<Rightarrow> p \<noteq> ns_crate_name (tu_namespace u) | None \<Rightarrow> False)"

definition iter_local_types :: "TypeUniverse \<Rightarrow> Type list" where
  "iter_local_types u = filter (\<lambda>t. \<not> is_external u t) (sorted_list_of_set (tu_all_known_types u))"

definition iter_external_types :: "TypeUniverse \<Rightarrow> Type list" where
  "iter_external_types u = filter (is_external u) (sorted_list_of_set (tu_all_known_types u))"

section \<open>The component interface\<close>

text \<open>The clones of the other interfaces, \<open>all_component_interfaces\<close>, are a separate argument of what uses them.\<close>

record ComponentInterface =
  ci_types :: TypeUniverse
  ci_enums :: "CEnum list"
  ci_records :: "CRecord list"
  ci_functions :: "CFunction list"
  ci_objects :: "CObject list"
  ci_custom_types :: "CCustomType list"
  ci_callback_interfaces :: "CCallbackInterface list"
  ci_errors :: "string set"
  ci_recursive_types :: "string set"
  ci_callback_interface_throws_types :: "Type set"
  ci_crate_to_namespace :: "string \<Rightarrow> NamespaceMetadata option"
  ci_skip_checksum_checks :: bool

definition ci_new :: "NamespaceMetadata \<Rightarrow> ComponentInterface" where
  "ci_new namespace =
     \<lparr>ci_types = universe_new namespace, ci_enums = [], ci_records = [], ci_functions = [], ci_objects = [],
      ci_custom_types = [], ci_callback_interfaces = [], ci_errors = {}, ci_recursive_types = {},
      ci_callback_interface_throws_types = {}, ci_crate_to_namespace = Map.empty, ci_skip_checksum_checks = False\<rparr>"

definition ci_namespace :: "ComponentInterface \<Rightarrow> string" where
  "ci_namespace ci = ns_name (tu_namespace (ci_types ci))"

definition ci_crate_name :: "ComponentInterface \<Rightarrow> string" where
  "ci_crate_name ci = ns_crate_name (tu_namespace (ci_types ci))"

fun update_first :: "('a \<Rightarrow> bool) \<Rightarrow> ('a \<Rightarrow> 'a) \<Rightarrow> 'a list \<Rightarrow> 'a list" where
  "update_first p f [] = []"
| "update_first p f (x # xs) = (if p x then f x # xs else x # update_first p f xs)"

text \<open>What several operations do: make types known, remember a name that is thrown.\<close>

definition learn_types :: "Type list \<Rightarrow> ComponentInterface \<Rightarrow> CiError + ComponentInterface" where
  "learn_types types ci = ebind (add_known_types types (ci_types ci)) (\<lambda>u. Inr (ci\<lparr>ci_types := u\<rparr>))"

definition learn_error :: "Type option \<Rightarrow> ComponentInterface \<Rightarrow> CiError + ComponentInterface" where
  "learn_error throws ci =
     ebind (throws_name throws) (\<lambda>nm. Inr (case nm of None \<Rightarrow> ci | Some n \<Rightarrow> ci\<lparr>ci_errors := insert n (ci_errors ci)\<rparr>))"

section \<open>Adding definitions\<close>

definition add_enum_definition :: "CEnum \<Rightarrow> ComponentInterface \<Rightarrow> CiError + ComponentInterface" where
  "add_enum_definition defn ci =
     (if \<exists>e \<in> set (ci_enums ci). cen_name e = cen_name defn then Inl (CiErr_duplicate (cen_name defn))
      else
        let ci = (if shape_is_error (cen_shape defn) then ci\<lparr>ci_errors := insert (cen_name defn) (ci_errors ci)\<rparr> else ci) in
        ebind (learn_types (cen_iter_types defn) ci) (\<lambda>ci. Inr (ci\<lparr>ci_enums := ci_enums ci @ [defn]\<rparr>)))"

definition add_record_definition :: "CRecord \<Rightarrow> ComponentInterface \<Rightarrow> CiError + ComponentInterface" where
  "add_record_definition defn ci =
     (if \<exists>r \<in> set (ci_records ci). cre_name r = cre_name defn then Inl (CiErr_duplicate (cre_name defn))
      else ebind (learn_types (cre_iter_types defn) ci) (\<lambda>ci. Inr (ci\<lparr>ci_records := ci_records ci @ [defn]\<rparr>)))"

definition add_custom_type_definition :: "CCustomType \<Rightarrow> ComponentInterface \<Rightarrow> CiError + ComponentInterface" where
  "add_custom_type_definition defn ci =
     (case find (\<lambda>c. ccu_name c = ccu_name defn) (ci_custom_types ci) of
        Some existing \<Rightarrow>
          if ccu_builtin existing = ccu_builtin defn \<and> ccu_module_path existing = ccu_module_path defn then
            Inr (if ccu_docstring defn \<noteq> None \<and> ccu_docstring existing = None
                 then ci\<lparr>ci_custom_types := update_first (\<lambda>c. ccu_name c = ccu_name defn)
                   (\<lambda>c. c\<lparr>ccu_docstring := ccu_docstring defn\<rparr>) (ci_custom_types ci)\<rparr>
                 else ci)
          else Inl (CiErr_conflicting_definition (ccu_name defn))
      | None \<Rightarrow> Inr (ci\<lparr>ci_custom_types := ci_custom_types ci @ [defn]\<rparr>))"

definition add_function_definition :: "CFunction \<Rightarrow> ComponentInterface \<Rightarrow> CiError + ComponentInterface" where
  "add_function_definition defn ci =
     (if \<exists>f \<in> set (ci_functions ci). cfu_name f = cfu_name defn then Inl (CiErr_duplicate (cfu_name defn))
      else if tu_type_definitions (ci_types ci) (cfu_name defn) \<noteq> None then Inl (CiErr_conflicting_definition (cfu_name defn))
      else ebind (learn_types (cfu_iter_types defn) ci) (\<lambda>ci.
        ebind (learn_error (cfu_throws defn) ci) (\<lambda>ci. Inr (ci\<lparr>ci_functions := ci_functions ci @ [defn]\<rparr>))))"

text \<open>The item that a member belongs to: objects first, then records, then enums.\<close>

datatype Owner = Owner_Object CObject | Owner_Record CRecord | Owner_Enum CEnum

definition find_owner :: "string \<Rightarrow> ComponentInterface \<Rightarrow> Owner option" where
  "find_owner self_nm ci =
     (case find (\<lambda>ob. cob_name ob = self_nm) (ci_objects ci) of
        Some ob \<Rightarrow> Some (Owner_Object ob)
      | None \<Rightarrow>
          (case find (\<lambda>r. cre_name r = self_nm) (ci_records ci) of
             Some r \<Rightarrow> Some (Owner_Record r)
           | None \<Rightarrow> map_option Owner_Enum (find (\<lambda>e. cen_name e = self_nm) (ci_enums ci))))"

fun owner_as_type :: "Owner \<Rightarrow> Type" where
  "owner_as_type (Owner_Object ob) = cob_as_type ob"
| "owner_as_type (Owner_Record r) = cre_as_type r"
| "owner_as_type (Owner_Enum e) = cen_as_type e"

fun push_constructor :: "Owner \<Rightarrow> CConstructor \<Rightarrow> ComponentInterface \<Rightarrow> ComponentInterface" where
  "push_constructor (Owner_Object ob) c ci = ci\<lparr>ci_objects := update_first (\<lambda>x. cob_name x = cob_name ob)
     (\<lambda>x. x\<lparr>cob_constructors := cob_constructors x @ [c]\<rparr>) (ci_objects ci)\<rparr>"
| "push_constructor (Owner_Record r) c ci = ci\<lparr>ci_records := update_first (\<lambda>x. cre_name x = cre_name r)
     (\<lambda>x. x\<lparr>cre_constructors := cre_constructors x @ [c]\<rparr>) (ci_records ci)\<rparr>"
| "push_constructor (Owner_Enum e) c ci = ci\<lparr>ci_enums := update_first (\<lambda>x. cen_name x = cen_name e)
     (\<lambda>x. x\<lparr>cen_constructors := cen_constructors x @ [c]\<rparr>) (ci_enums ci)\<rparr>"

fun push_method :: "Owner \<Rightarrow> CMethod \<Rightarrow> ComponentInterface \<Rightarrow> ComponentInterface" where
  "push_method (Owner_Object ob) m ci = ci\<lparr>ci_objects := update_first (\<lambda>x. cob_name x = cob_name ob)
     (\<lambda>x. x\<lparr>cob_methods := cob_methods x @ [m]\<rparr>) (ci_objects ci)\<rparr>"
| "push_method (Owner_Record r) m ci = ci\<lparr>ci_records := update_first (\<lambda>x. cre_name x = cre_name r)
     (\<lambda>x. x\<lparr>cre_methods := cre_methods x @ [m]\<rparr>) (ci_records ci)\<rparr>"
| "push_method (Owner_Enum e) m ci = ci\<lparr>ci_enums := update_first (\<lambda>x. cen_name x = cen_name e)
     (\<lambda>x. x\<lparr>cen_methods := cen_methods x @ [m]\<rparr>) (ci_enums ci)\<rparr>"

definition add_constructor_meta :: "ConstructorMetadata \<Rightarrow> ComponentInterface \<Rightarrow> CiError + ComponentInterface" where
  "add_constructor_meta m ci =
     (case find_owner (ctor_self_name m) ci of
        None \<Rightarrow> Inl (CiErr_not_found (ctor_self_name m))
      | Some own \<Rightarrow>
          let defn = cco_from_metadata m in
          ebind (learn_types (cco_iter_types defn) ci) (\<lambda>ci.
          ebind (learn_error (cco_throws defn) ci) (\<lambda>ci. Inr (push_constructor own defn ci))))"

definition add_method_meta :: "MethodMetadata \<Rightarrow> ComponentInterface \<Rightarrow> CiError + ComponentInterface" where
  "add_method_meta m ci =
     (case find_owner (meth_self_name m) ci of
        None \<Rightarrow> Inl (CiErr_not_found (meth_self_name m))
      | Some own \<Rightarrow>
          let defn = cme_from_metadata m (owner_as_type own) in
          ebind (learn_types (cme_iter_types defn) ci) (\<lambda>ci.
          ebind (learn_error (cme_throws defn) ci) (\<lambda>ci. Inr (push_method own defn ci))))"

text \<open>Here enums come before records.\<close>

definition add_uniffitrait_meta :: "UniffiTraitMetadata \<Rightarrow> ComponentInterface \<Rightarrow> CiError + ComponentInterface" where
  "add_uniffitrait_meta m ci =
     (let self_nm = trait_self_name m in
      case tu_type_definitions (ci_types ci) self_nm of
        None \<Rightarrow> Inl (CiErr_not_found self_nm)
      | Some receiver \<Rightarrow>
          let ut = ctr_from_metadata m receiver in
          ebind (learn_types (ctr_iter_types ut) ci) (\<lambda>ci.
            if \<exists>ob \<in> set (ci_objects ci). cob_name ob = self_nm then
              Inr (ci\<lparr>ci_objects := update_first (\<lambda>x. cob_name x = self_nm)
                (\<lambda>x. x\<lparr>cob_uniffi_traits := cob_uniffi_traits x @ [ut]\<rparr>) (ci_objects ci)\<rparr>)
            else if \<exists>e \<in> set (ci_enums ci). cen_name e = self_nm then
              Inr (ci\<lparr>ci_enums := update_first (\<lambda>x. cen_name x = self_nm)
                (\<lambda>x. x\<lparr>cen_uniffi_traits := cen_uniffi_traits x @ [ut]\<rparr>) (ci_enums ci)\<rparr>)
            else if \<exists>r \<in> set (ci_records ci). cre_name r = self_nm then
              Inr (ci\<lparr>ci_records := update_first (\<lambda>x. cre_name x = self_nm)
                (\<lambda>x. x\<lparr>cre_uniffi_traits := cre_uniffi_traits x @ [ut]\<rparr>) (ci_records ci)\<rparr>)
            else Inl (CiErr_no_trait_support self_nm)))"

definition add_object_meta :: "ObjectMetadata \<Rightarrow> ComponentInterface \<Rightarrow> CiError + ComponentInterface" where
  "add_object_meta m ci =
     (let defn = cob_from_metadata m in
      ebind (learn_types [cob_as_type defn] ci) (\<lambda>ci.
      ebind (learn_types (cob_iter_types defn) ci) (\<lambda>ci. Inr (ci\<lparr>ci_objects := ci_objects ci @ [defn]\<rparr>))))"

definition add_callback_interface_definition ::
  "CCallbackInterface \<Rightarrow> ComponentInterface \<Rightarrow> CiError + ComponentInterface" where
  "add_callback_interface_definition defn ci =
     ebind (learn_types [ccb_as_type defn] ci) (\<lambda>ci.
     ebind (learn_types (ccb_iter_types defn) ci) (\<lambda>ci. Inr (ci\<lparr>ci_callback_interfaces := ci_callback_interfaces ci @ [defn]\<rparr>)))"

definition add_trait_method_meta :: "TraitMethodMetadata \<Rightarrow> ComponentInterface \<Rightarrow> CiError + ComponentInterface" where
  "add_trait_method_meta m ci =
     (case find (\<lambda>c. ccb_name c = tmeth_trait_name m) (ci_callback_interfaces ci) of
        Some cbi \<Rightarrow>
          if length (ccb_methods cbi) \<noteq> unat (tmeth_index m) then Inl (CiErr_method_index (tmeth_trait_name m) (tmeth_name m))
          else
            let defn = cme_from_metadata (method_from_trait_method m) (ccb_as_type cbi);
                ci = (case cme_throws defn of None \<Rightarrow> ci
                      | Some error \<Rightarrow> ci\<lparr>ci_callback_interface_throws_types := insert error (ci_callback_interface_throws_types ci)\<rparr>)
            in ebind (learn_types (cme_iter_types defn) ci) (\<lambda>ci.
               ebind (learn_error (cme_throws defn) ci) (\<lambda>ci. Inr
                 (ci\<lparr>ci_callback_interfaces := update_first (\<lambda>c. ccb_name c = tmeth_trait_name m)
                   (\<lambda>c. c\<lparr>ccb_methods := ccb_methods c @ [defn]\<rparr>) (ci_callback_interfaces ci)\<rparr>)))
      | None \<Rightarrow> add_method_meta (method_from_trait_method m) ci)"

definition add_object_trait_impl :: "ObjectTraitImplMetadata \<Rightarrow> ComponentInterface \<Rightarrow> CiError + ComponentInterface" where
  "add_object_trait_impl imp ci =
     (case type_name (oti_ty imp) of
        Some nm \<Rightarrow>
          if \<exists>ob \<in> set (ci_objects ci). cob_name ob = nm then
            Inr (ci\<lparr>ci_objects := update_first (\<lambda>x. cob_name x = nm)
              (\<lambda>x. x\<lparr>cob_trait_impls := cob_trait_impls x @ [imp]\<rparr>) (ci_objects ci)\<rparr>)
          else Inl (CiErr_not_found nm)
      | None \<Rightarrow> Inl (CiErr_not_found ''''))"

section \<open>Items and groups (\<open>macro_metadata/ci.rs\<close>)\<close>

text \<open>A namespace item is \<open>unreachable!\<close>.\<close>

fun add_item_to_ci :: "Metadata \<Rightarrow> ComponentInterface \<Rightarrow> CiError + ComponentInterface" where
  "add_item_to_ci (Metadata_Namespace m) ci = Inl CiErr_panic"
| "add_item_to_ci (Metadata_UdlFile m) ci = Inr ci"
| "add_item_to_ci (Metadata_Func m) ci = add_function_definition (cfu_from_metadata m) ci"
| "add_item_to_ci (Metadata_Constructor m) ci = add_constructor_meta m ci"
| "add_item_to_ci (Metadata_Method m) ci = add_method_meta m ci"
| "add_item_to_ci (Metadata_Record m) ci =
     ebind (learn_types [Type_Record (rec_module_path m) (rec_name m)] ci) (add_record_definition (cre_from_metadata m))"
| "add_item_to_ci (Metadata_Enum m) ci =
     ebind (learn_types [Type_Enum (enum_module_path m) (enum_name m)] ci) (add_enum_definition (cen_from_metadata m))"
| "add_item_to_ci (Metadata_Object m) ci =
     ebind (learn_types [Type_Object (obj_module_path m) (obj_name m) (obj_imp m)] ci) (add_object_meta m)"
| "add_item_to_ci (Metadata_UniffiTrait m) ci = add_uniffitrait_meta m ci"
| "add_item_to_ci (Metadata_ObjectTraitImpl m) ci = add_object_trait_impl m ci"
| "add_item_to_ci (Metadata_CallbackInterface m) ci = add_callback_interface_definition (ccb_from_metadata m) ci"
| "add_item_to_ci (Metadata_TraitMethod m) ci = add_trait_method_meta m ci"
| "add_item_to_ci (Metadata_CustomType m) ci =
     ebind (learn_types [Type_Custom (custom_module_path m) (custom_name m) (custom_builtin m)] ci)
       (add_custom_type_definition (ccu_from_metadata m))"
| "add_item_to_ci (Metadata_FromUnexpectedCallbackErrorImpl m) ci = Inr ci"

definition check_consistency :: "ComponentInterface \<Rightarrow> CiError + unit" where
  "check_consistency ci =
     (if ci_namespace ci = '''' then Inl CiErr_missing_namespace
      else case find (\<lambda>f. tu_type_definitions (ci_types ci) (cfu_name f) \<noteq> None) (ci_functions ci) of
        Some f \<Rightarrow> Inl (CiErr_conflicting_definition (cfu_name f))
      | None \<Rightarrow> Inr ())"

definition add_group_to_ci :: "NamespaceMetadata \<Rightarrow> Metadata list \<Rightarrow> ComponentInterface \<Rightarrow> CiError + ComponentInterface" where
  "add_group_to_ci namespace items ci =
     (if ns_name namespace \<noteq> ci_namespace ci then Inl CiErr_namespace_mismatch
      else ebind (efold add_item_to_ci items ci) (\<lambda>ci. ebind (check_consistency ci) (\<lambda>_. Inr ci)))"

fun type_names_in_type :: "Type \<Rightarrow> string list" where
  "type_names_in_type (Type_Enum mp nm) = [nm]"
| "type_names_in_type (Type_Record mp nm) = [nm]"
| "type_names_in_type (Type_Box t) = type_names_in_type t"
| "type_names_in_type (Type_Optional t) = type_names_in_type t"
| "type_names_in_type (Type_Sequence t) = type_names_in_type t"
| "type_names_in_type (Type_Set t) = type_names_in_type t"
| "type_names_in_type (Type_Map k v) = type_names_in_type k @ type_names_in_type v"
| "type_names_in_type _ = []"

definition ci_type_dep_graph :: "ComponentInterface \<Rightarrow> string graph" where
  "ci_type_dep_graph ci =
     fold (\<lambda>(k, v) m. index_insert m k v)
       (map (\<lambda>e. (cen_name e, concat (map (\<lambda>v. concat (map (\<lambda>f. type_names_in_type (cfd_type f)) (cva_fields v))) (cen_variants e))))
          (ci_enums ci) @
        map (\<lambda>r. (cre_name r, concat (map (\<lambda>f. type_names_in_type (cfd_type f)) (cre_fields r)))) (ci_records ci)) []"

definition ci_infer_recursive_types :: "ComponentInterface \<Rightarrow> ComponentInterface" where
  "ci_infer_recursive_types ci = ci\<lparr>ci_recursive_types := find_recursive_enum_names (ci_type_dep_graph ci)\<rparr>"

definition add_metadata ::
  "NamespaceMetadata \<Rightarrow> string option \<Rightarrow> Metadata list \<Rightarrow> ComponentInterface \<Rightarrow> CiError + ComponentInterface" where
  "add_metadata namespace docstring items ci =
     ebind (if ns_name (tu_namespace (ci_types ci)) = '''' then Inr (ci\<lparr>ci_types := (ci_types ci)\<lparr>tu_namespace := namespace\<rparr>\<rparr>)
            else if tu_namespace (ci_types ci) \<noteq> namespace then Inl CiErr_namespace_mismatch else Inr ci) (\<lambda>ci.
     let ci = (if docstring \<noteq> None then ci\<lparr>ci_types := (ci_types ci)\<lparr>tu_namespace_docstring := docstring\<rparr>\<rparr> else ci) in
     ebind (learn_types [Type_String] ci) (\<lambda>ci.
     ebind (add_group_to_ci namespace items ci) (\<lambda>ci. Inr (ci_infer_recursive_types ci))))"

definition ci_from_metadata :: "NamespaceMetadata \<Rightarrow> string option \<Rightarrow> Metadata list \<Rightarrow> CiError + ComponentInterface" where
  "ci_from_metadata namespace docstring items = add_metadata namespace docstring items (ci_new namespace)"

definition derive_ffi_funcs :: "ComponentInterface \<Rightarrow> CiError + ComponentInterface" where
  "derive_ffi_funcs ci =
     ebind (emap cfu_derive (ci_functions ci)) (\<lambda>functions.
     ebind (emap cob_derive (ci_objects ci)) (\<lambda>objects.
     ebind (emap cen_derive (ci_enums ci)) (\<lambda>enums.
     ebind (emap cre_derive (ci_records ci)) (\<lambda>records. Inr
       (ci\<lparr>ci_functions := functions, ci_objects := objects, ci_enums := enums, ci_records := records,
         ci_callback_interfaces := map ccb_derive (ci_callback_interfaces ci)\<rparr>)))))"

end
