(* ===== verification/CiFfi.thy ===== *)
theory CiFfi
  imports CiBuild
begin

text \<open>
  What a component interface offers to the binding generators (\<open>interface/mod.rs\<close>): the FFI functions,
  callbacks and structs, in the order in which they have to be defined, the lookup of definitions, and the
  types that an item contains.
\<close>

section \<open>Builtin FFI functions\<close>

abbreviation ci_plain_fn :: "string \<Rightarrow> CFfiArgument list \<Rightarrow> CFfiType option \<Rightarrow> bool \<Rightarrow> CFfiFunction" where
  "ci_plain_fn nm args return_type call_status \<equiv>
     \<lparr>cff_name = nm, cff_is_async = False, cff_arguments = args, cff_return_type = return_type,
      cff_has_rust_call_status_arg = call_status, cff_is_object_free_function = False\<rparr>"

definition ci_uniffi_contract_version :: "ComponentInterface \<Rightarrow> CFfiFunction" where
  "ci_uniffi_contract_version ci =
     ci_plain_fn (''ffi_'' @ ci_crate_name ci @ ''_uniffi_contract_version'') [] (Some CFfi_UInt32) False"

definition ci_rustbuffer_alloc :: "ComponentInterface \<Rightarrow> CFfiFunction" where
  "ci_rustbuffer_alloc ci = ci_plain_fn (''ffi_'' @ ci_crate_name ci @ ''_rustbuffer_alloc'')
     [cffi_arg ''size'' CFfi_UInt64] (Some (CFfi_RustBuffer None)) True"

definition ci_rustbuffer_from_bytes :: "ComponentInterface \<Rightarrow> CFfiFunction" where
  "ci_rustbuffer_from_bytes ci = ci_plain_fn (''ffi_'' @ ci_crate_name ci @ ''_rustbuffer_from_bytes'')
     [cffi_arg ''bytes'' CFfi_ForeignBytes] (Some (CFfi_RustBuffer None)) True"

definition ci_rustbuffer_free :: "ComponentInterface \<Rightarrow> CFfiFunction" where
  "ci_rustbuffer_free ci = ci_plain_fn (''ffi_'' @ ci_crate_name ci @ ''_rustbuffer_free'')
     [cffi_arg ''buf'' (CFfi_RustBuffer None)] None True"

definition ci_rustbuffer_reserve :: "ComponentInterface \<Rightarrow> CFfiFunction" where
  "ci_rustbuffer_reserve ci = ci_plain_fn (''ffi_'' @ ci_crate_name ci @ ''_rustbuffer_reserve'')
     [cffi_arg ''buf'' (CFfi_RustBuffer None), cffi_arg ''additional'' CFfi_UInt64] (Some (CFfi_RustBuffer None)) True"

definition rust_future_ffi_fn_name :: "ComponentInterface \<Rightarrow> string \<Rightarrow> CFfiType option \<Rightarrow> CiError + string" where
  "rust_future_ffi_fn_name ci base_name return_ffi_type =
     ebind (return_type_name return_ffi_type) (\<lambda>nm. Inr (''ffi_'' @ ci_crate_name ci @ ''_'' @ base_name @ ''_'' @ nm))"

definition ci_rust_future_poll :: "ComponentInterface \<Rightarrow> CFfiType option \<Rightarrow> CiError + CFfiFunction" where
  "ci_rust_future_poll ci t = ebind (rust_future_ffi_fn_name ci ''rust_future_poll'' t) (\<lambda>nm. Inr
     (ci_plain_fn nm [cffi_arg ''handle'' CFfi_Handle,
        cffi_arg ''callback'' (CFfi_Callback ''RustFutureContinuationCallback''),
        cffi_arg ''callback_data'' CFfi_Handle] None False))"

definition ci_rust_future_complete :: "ComponentInterface \<Rightarrow> CFfiType option \<Rightarrow> CiError + CFfiFunction" where
  "ci_rust_future_complete ci t = ebind (rust_future_ffi_fn_name ci ''rust_future_complete'' t) (\<lambda>nm. Inr
     (ci_plain_fn nm [cffi_arg ''handle'' CFfi_Handle] t True))"

definition ci_rust_future_cancel :: "ComponentInterface \<Rightarrow> CFfiType option \<Rightarrow> CiError + CFfiFunction" where
  "ci_rust_future_cancel ci t = ebind (rust_future_ffi_fn_name ci ''rust_future_cancel'' t) (\<lambda>nm. Inr
     (ci_plain_fn nm [cffi_arg ''handle'' CFfi_Handle] None False))"

definition ci_rust_future_free :: "ComponentInterface \<Rightarrow> CFfiType option \<Rightarrow> CiError + CFfiFunction" where
  "ci_rust_future_free ci t = ebind (rust_future_ffi_fn_name ci ''rust_future_free'' t) (\<lambda>nm. Inr
     (ci_plain_fn nm [cffi_arg ''handle'' CFfi_Handle] None False))"

definition all_possible_return_ffi_types :: "CFfiType option list" where
  "all_possible_return_ffi_types =
     [Some CFfi_UInt8, Some CFfi_Int8, Some CFfi_UInt16, Some CFfi_Int16, Some CFfi_UInt32, Some CFfi_Int32,
      Some CFfi_UInt64, Some CFfi_Int64, Some CFfi_Float32, Some CFfi_Float64, Some (CFfi_RustBuffer None), None]"

section \<open>FFI definitions\<close>

definition iter_futures_ffi_function_definitions :: "ComponentInterface \<Rightarrow> CiError + CFfiFunction list" where
  "iter_futures_ffi_function_definitions ci =
     ebind (emap (\<lambda>t.
       ebind (ci_rust_future_poll ci t) (\<lambda>poll. ebind (ci_rust_future_cancel ci t) (\<lambda>cancel.
       ebind (ci_rust_future_free ci t) (\<lambda>free. ebind (ci_rust_future_complete ci t) (\<lambda>complete.
         Inr [poll, cancel, free, complete]))))) all_possible_return_ffi_types) (\<lambda>fss. Inr (concat fss))"

definition iter_rust_buffer_ffi_function_definitions :: "ComponentInterface \<Rightarrow> CFfiFunction list" where
  "iter_rust_buffer_ffi_function_definitions ci =
     [ci_rustbuffer_alloc ci, ci_rustbuffer_from_bytes ci, ci_rustbuffer_free ci, ci_rustbuffer_reserve ci]"

definition iter_user_ffi_function_definitions :: "ComponentInterface \<Rightarrow> CFfiFunction list" where
  "iter_user_ffi_function_definitions ci =
     concat (map cob_ffi_functions (ci_objects ci)) @
     map ccb_ffi_init_callback (ci_callback_interfaces ci) @
     concat (map cen_ffi_functions (ci_enums ci)) @
     concat (map cre_ffi_functions (ci_records ci)) @
     map cfu_ffi_func (ci_functions ci)"

text \<open>The names of \<open>iter_checksums\<close> and the functions made of them.\<close>

definition checksum_fn_names :: "ComponentInterface \<Rightarrow> string list" where
  "checksum_fn_names ci =
     map cfu_checksum_fn_name (ci_functions ci) @
     concat (map (\<lambda>ob. map cme_checksum_fn_name (cob_methods ob)) (ci_objects ci)) @
     concat (map (\<lambda>ob. map cco_checksum_fn_name (cob_constructors ob)) (ci_objects ci)) @
     concat (map (\<lambda>c. filter (\<lambda>nm. nm \<noteq> '''') (map cme_checksum_fn_name (ccb_methods c))) (ci_callback_interfaces ci))"

definition iter_checksum_ffi_functions :: "ComponentInterface \<Rightarrow> CFfiFunction list" where
  "iter_checksum_ffi_functions ci = map (\<lambda>nm. ci_plain_fn nm [] (Some CFfi_UInt16) False) (checksum_fn_names ci)"

definition iter_ffi_function_integrity_checks :: "ComponentInterface \<Rightarrow> CFfiFunction list" where
  "iter_ffi_function_integrity_checks ci = iter_checksum_ffi_functions ci @ [ci_uniffi_contract_version ci]"

text \<open>\<open>iter_ffi_function_definitions_conditionally_include_integrity_checks\<close>, its two instances, and the one
  for languages without asynchronous functions.\<close>

definition ffi_functions_with :: "bool \<Rightarrow> ComponentInterface \<Rightarrow> CiError + CFfiFunction list" where
  "ffi_functions_with include_checksums ci =
     ebind (iter_futures_ffi_function_definitions ci) (\<lambda>futures.
       let fs = iter_user_ffi_function_definitions ci @ iter_rust_buffer_ffi_function_definitions ci @ futures in
       Inr (if include_checksums then fs @ iter_ffi_function_integrity_checks ci else fs))"

definition iter_ffi_function_definitions :: "ComponentInterface \<Rightarrow> CiError + CFfiFunction list" where
  "iter_ffi_function_definitions = ffi_functions_with True"

definition iter_ffi_function_definitions_excluding_integrity_checks ::
  "ComponentInterface \<Rightarrow> CiError + CFfiFunction list" where
  "iter_ffi_function_definitions_excluding_integrity_checks = ffi_functions_with False"

definition iter_ffi_function_definitions_non_async :: "ComponentInterface \<Rightarrow> CFfiFunction list" where
  "iter_ffi_function_definitions_non_async ci =
     iter_user_ffi_function_definitions ci @ iter_rust_buffer_ffi_function_definitions ci @
     iter_ffi_function_integrity_checks ci"

definition callback_interface_callback_definitions ::
  "(string \<Rightarrow> string) \<Rightarrow> ComponentInterface \<Rightarrow> CiError + CFfiCallbackFunction list" where
  "callback_interface_callback_definitions upper_camel ci =
     ebind (emap (ccb_ffi_callbacks upper_camel) (ci_callback_interfaces ci)) (\<lambda>cs.
     ebind (emap (cob_ffi_callbacks upper_camel) (ci_objects ci)) (\<lambda>os. Inr (concat cs @ concat os)))"

definition callback_interface_vtable_definitions :: "ComponentInterface \<Rightarrow> CFfiStruct list" where
  "callback_interface_vtable_definitions ci =
     map ccb_vtable_definition (ci_callback_interfaces ci) @ List.map_filter cob_vtable_definition (ci_objects ci)"

definition ci_callback :: "string \<Rightarrow> CFfiArgument list \<Rightarrow> CFfiType option \<Rightarrow> CFfiDefinition" where
  "ci_callback nm args return_type = CFfiDef_CallbackFunction \<lparr>cfc_name = nm, cfc_arguments = args,
     cfc_return_type = return_type, cfc_has_rust_call_status_arg = False\<rparr>"

definition builtin_ffi_definitions :: "(string \<Rightarrow> string) \<Rightarrow> CiError + CFfiDefinition list" where
  "builtin_ffi_definitions upper_camel =
     ebind (emap (\<lambda>t.
       ebind (foreign_future_ffi_result_struct upper_camel t) (\<lambda>s.
       ebind (ffi_foreign_future_complete upper_camel t) (\<lambda>c. Inr [CFfiDef_Struct s, CFfiDef_CallbackFunction c])))
       all_possible_return_ffi_types) (\<lambda>dss. Inr (
     [ci_callback ''RustFutureContinuationCallback'' [cffi_arg ''data'' CFfi_UInt64, cffi_arg ''poll_result'' CFfi_Int8] None,
      ci_callback ''ForeignFutureDroppedCallback'' [cffi_arg ''handle'' CFfi_UInt64] None,
      ci_callback ''CallbackInterfaceFree'' [cffi_arg ''handle'' CFfi_UInt64] None,
      ci_callback ''CallbackInterfaceClone'' [cffi_arg ''handle'' CFfi_UInt64] (Some CFfi_UInt64),
      CFfiDef_Struct \<lparr>cfs_name = ''ForeignFutureDroppedCallbackStruct'', cfs_fields =
        [cffi_field ''handle'' CFfi_UInt64, cffi_field ''free'' (CFfi_Callback ''ForeignFutureDroppedCallback'')]\<rparr>]
     @ concat dss))"

definition ci_ffi_definitions :: "(string \<Rightarrow> string) \<Rightarrow> ComponentInterface \<Rightarrow> CiError + CFfiDefinition list" where
  "ci_ffi_definitions upper_camel ci =
     ebind (builtin_ffi_definitions upper_camel) (\<lambda>builtins.
     ebind (callback_interface_callback_definitions upper_camel ci) (\<lambda>callbacks.
     ebind (iter_ffi_function_definitions ci) (\<lambda>functions. Inr (
       builtins @ map CFfiDef_CallbackFunction callbacks @
       map CFfiDef_Struct (callback_interface_vtable_definitions ci) @ map CFfiDef_Function functions))))"

section \<open>Questions about the interface\<close>

definition get_enum_definition :: "ComponentInterface \<Rightarrow> string \<Rightarrow> CEnum option" where
  "get_enum_definition ci nm = find (\<lambda>e. cen_name e = nm) (ci_enums ci)"

definition get_record_definition :: "ComponentInterface \<Rightarrow> string \<Rightarrow> CRecord option" where
  "get_record_definition ci nm = find (\<lambda>r. cre_name r = nm) (ci_records ci)"

definition get_object_definition :: "ComponentInterface \<Rightarrow> string \<Rightarrow> CObject option" where
  "get_object_definition ci nm = find (\<lambda>ob. cob_name ob = nm) (ci_objects ci)"

definition get_callback_interface_definition :: "ComponentInterface \<Rightarrow> string \<Rightarrow> CCallbackInterface option" where
  "get_callback_interface_definition ci nm = find (\<lambda>c. ccb_name c = nm) (ci_callback_interfaces ci)"

definition has_async_callback_interface_definition :: "ComponentInterface \<Rightarrow> bool" where
  "has_async_callback_interface_definition ci \<longleftrightarrow>
     (\<exists>c \<in> set (ci_callback_interfaces ci). \<exists>m \<in> set (ccb_methods c). cme_is_async m) \<or>
     (\<exists>ob \<in> set (ci_objects ci). has_callback_interface (cob_imp ob) \<and> (\<exists>m \<in> set (cob_methods ob). cme_is_async m))"

definition has_callback_definitions :: "ComponentInterface \<Rightarrow> bool" where
  "has_callback_definitions ci \<longleftrightarrow> ci_callback_interfaces ci \<noteq> [] \<or>
     (\<exists>ob \<in> set (ci_objects ci). has_callback_interface (cob_imp ob))"

definition ci_has_async_fns :: "ComponentInterface \<Rightarrow> CiError + bool" where
  "ci_has_async_fns ci = ebind (iter_ffi_function_definitions ci) (\<lambda>fs. Inr
     ((\<exists>f \<in> set fs. cff_is_async f) \<or>
      (\<exists>c \<in> set (ci_callback_interfaces ci). \<exists>m \<in> set (ccb_methods c). cme_is_async m)))"

definition is_name_used_as_error :: "ComponentInterface list \<Rightarrow> ComponentInterface \<Rightarrow> string \<Rightarrow> bool" where
  "is_name_used_as_error all ci nm \<longleftrightarrow> nm \<in> ci_errors ci \<or> (\<exists>ci' \<in> set all. nm \<in> ci_errors ci')"

definition should_generate_error_read :: "ComponentInterface list \<Rightarrow> ComponentInterface \<Rightarrow> CEnum \<Rightarrow> bool" where
  "should_generate_error_read all ci e \<longleftrightarrow>
     is_name_used_as_error all ci (cen_name e) \<and>
     (\<not> cen_is_flat e \<or>
      (\<exists>m \<in> set (concat (map ccb_methods (ci_callback_interfaces ci)) @
          concat (map cob_methods (filter (\<lambda>ob. has_callback_interface (cob_imp ob)) (ci_objects ci)))).
        cme_throws m = Some (cen_as_type e)))"

definition namespace_for_module_path :: "ComponentInterface \<Rightarrow> string \<Rightarrow> string option" where
  "namespace_for_module_path ci module_path =
     (case ci_crate_to_namespace ci (map (\<lambda>c. if c = CHR ''-'' then CHR ''_'' else c) (crate_name module_path)) of
        Some n \<Rightarrow> Some (ns_name n)
      | None \<Rightarrow> if module_path = ci_crate_name ci then Some (ci_namespace ci) else None)"

section \<open>The types in an item\<close>

definition find_component_interface :: "ComponentInterface list \<Rightarrow> string \<Rightarrow> ComponentInterface option" where
  "find_component_interface all module_path = find (\<lambda>ci. ci_crate_name ci = module_path) all"

definition find_ci_for :: "ComponentInterface list \<Rightarrow> ComponentInterface \<Rightarrow> string \<Rightarrow> ComponentInterface" where
  "find_ci_for all ci module_path =
     (case find_component_interface all module_path of Some ci' \<Rightarrow> ci' | None \<Rightarrow> ci)"

text \<open>The types that are put on the queue, with what they are remembered by.\<close>

fun pending_key :: "Type \<Rightarrow> (string \<times> string) option" where
  "pending_key (Type_Record mp nm) = Some (mp, nm)"
| "pending_key (Type_Enum mp nm) = Some (mp, nm)"
| "pending_key (Type_Object mp nm imp) = Some (mp, nm)"
| "pending_key (Type_CallbackInterface mp nm) = Some (mp, nm)"
| "pending_key _ = None"

text \<open>The lookup in \<open>advance_to_next_type\<close>; when it finds nothing, the exhausted iterator stays.\<close>

fun definition_types_of :: "ComponentInterface list \<Rightarrow> ComponentInterface \<Rightarrow> Type \<Rightarrow> Type list" where
  "definition_types_of all ci (Type_Record mp nm) =
     (case get_record_definition (find_ci_for all ci mp) nm of Some r \<Rightarrow> cre_iter_types r | None \<Rightarrow> [])"
| "definition_types_of all ci (Type_Enum mp nm) =
     (case get_enum_definition (find_ci_for all ci mp) nm of Some e \<Rightarrow> cen_iter_types e | None \<Rightarrow> [])"
| "definition_types_of all ci (Type_Object mp nm imp) =
     (case get_object_definition (find_ci_for all ci mp) nm of Some ob \<Rightarrow> cob_iter_types ob | None \<Rightarrow> [])"
| "definition_types_of all ci (Type_CallbackInterface mp nm) =
     (case get_callback_interface_definition (find_ci_for all ci mp) nm of Some c \<Rightarrow> ccb_iter_types c | None \<Rightarrow> [])"
| "definition_types_of all ci _ = []"

definition ci_item_types :: "ComponentInterface \<Rightarrow> Type list" where
  "ci_item_types ci = concat (map cre_iter_types (ci_records ci)) @ concat (map cen_iter_types (ci_enums ci)) @
     concat (map cob_iter_types (ci_objects ci)) @ concat (map ccb_iter_types (ci_callback_interfaces ci))"

lemma find_in: "find p xs = Some x \<Longrightarrow> x \<in> set xs \<and> p x"
  by (auto simp: find_Some_iff)

lemma definitions_known:
  "get_record_definition ci nm = Some r \<Longrightarrow> set (cre_iter_types r) \<subseteq> set (ci_item_types ci)"
  "get_enum_definition ci nm = Some e \<Longrightarrow> set (cen_iter_types e) \<subseteq> set (ci_item_types ci)"
  "get_object_definition ci nm = Some ob \<Longrightarrow> set (cob_iter_types ob) \<subseteq> set (ci_item_types ci)"
  "get_callback_interface_definition ci nm = Some c \<Longrightarrow> set (ccb_iter_types c) \<subseteq> set (ci_item_types ci)"
  by (auto simp: ci_item_types_def get_record_definition_def get_enum_definition_def get_object_definition_def
      get_callback_interface_definition_def dest!: find_in)

lemma definition_types_known:
  "set (definition_types_of all ci t) \<subseteq> set (concat (map ci_item_types (ci # all)))"
proof -
  have in_all: "find_ci_for all ci mp \<in> set (ci # all)" for mp
    by (auto simp: find_ci_for_def find_component_interface_def dest: find_in split: option.split)
  have "s \<in> set (concat (map ci_item_types (ci # all)))" if s: "s \<in> set (definition_types_of all ci t)" for s
  proof -
    have "\<exists>mp. s \<in> set (ci_item_types (find_ci_for all ci mp))"
    proof (cases t)
      case (Type_Object mp nm imp)
      with s obtain ob where "get_object_definition (find_ci_for all ci mp) nm = Some ob" "s \<in> set (cob_iter_types ob)"
        by (cases "get_object_definition (find_ci_for all ci mp) nm") simp_all
      with definitions_known(3) show ?thesis by blast
    next
      case (Type_Record mp nm)
      with s obtain r where "get_record_definition (find_ci_for all ci mp) nm = Some r" "s \<in> set (cre_iter_types r)"
        by (cases "get_record_definition (find_ci_for all ci mp) nm") simp_all
      with definitions_known(1) show ?thesis by blast
    next
      case (Type_Enum mp nm)
      with s obtain e where "get_enum_definition (find_ci_for all ci mp) nm = Some e" "s \<in> set (cen_iter_types e)"
        by (cases "get_enum_definition (find_ci_for all ci mp) nm") simp_all
      with definitions_known(2) show ?thesis by blast
    next
      case (Type_CallbackInterface mp nm)
      with s obtain c where "get_callback_interface_definition (find_ci_for all ci mp) nm = Some c" "s \<in> set (ccb_iter_types c)"
        by (cases "get_callback_interface_definition (find_ci_for all ci mp) nm") simp_all
      with definitions_known(4) show ?thesis by blast
    qed (use s in simp_all)
    with in_all show ?thesis unfolding set_concat set_map by blast
  qed
  then show ?thesis by blast
qed

text \<open>The names that are not yet seen, among those that can still come up.\<close>

definition unseen_names ::
  "ComponentInterface list \<Rightarrow> ComponentInterface \<Rightarrow> Type list \<Rightarrow> (string \<times> string) set \<Rightarrow> nat" where
  "unseen_names all ci current seen =
     card ({k. \<exists>t \<in> set (current @ concat (map ci_item_types (ci # all))). pending_key t = Some k} - seen)"

lemma finite_names: "finite {k. \<exists>t \<in> set ts. pending_key t = Some k}"
proof -
  have "{k. \<exists>t \<in> set ts. pending_key t = Some k} \<subseteq> (\<lambda>t. the (pending_key t)) ` set ts" by force
  then show ?thesis by (rule finite_subset) simp
qed

lemma unseen_names_new:
  assumes "pending_key t = Some k" "k \<notin> seen"
  shows "unseen_names all ci current (insert k seen) < unseen_names all ci (t # current) seen"
  unfolding unseen_names_def
proof (rule psubset_card_mono)
  let ?K = "\<lambda>ts. {k. \<exists>t \<in> set (ts @ concat (map ci_item_types (ci # all))). pending_key t = Some k}"
  show "finite (?K (t # current) - seen)" using finite_names by blast
  show "?K current - insert k seen \<subset> ?K (t # current) - seen" using assms by auto
qed

lemma unseen_names_tail: "unseen_names all ci current seen \<le> unseen_names all ci (t # current) seen"
  unfolding unseen_names_def by (rule card_mono) (use finite_names in blast, auto)

lemma unseen_names_definition:
  "unseen_names all ci (definition_types_of all ci t) seen = unseen_names all ci [] seen"
proof -
  have "set (definition_types_of all ci t @ concat (map ci_item_types (ci # all))) = set ([] @ concat (map ci_item_types (ci # all)))"
    using definition_types_known [of all ci t] by auto
  then show ?thesis unfolding unseen_names_def by simp
qed

text \<open>\<open>RecursiveTypeIterator\<close>, run to its end; the queue is a stack, its top in front.\<close>

function recursive_types_from ::
  "ComponentInterface list \<Rightarrow> ComponentInterface \<Rightarrow> Type list \<Rightarrow> (string \<times> string) set \<Rightarrow> Type list \<Rightarrow> Type list" where
  "recursive_types_from all ci (t # current) seen pending =
     t # (case pending_key t of
            Some k \<Rightarrow> if k \<notin> seen then recursive_types_from all ci current (insert k seen) (t # pending)
                      else recursive_types_from all ci current seen pending
          | None \<Rightarrow> recursive_types_from all ci current seen pending)"
| "recursive_types_from all ci [] seen (t # pending) =
     recursive_types_from all ci (definition_types_of all ci t) seen pending"
| "recursive_types_from all ci [] seen [] = []"
  by pat_completeness auto

termination recursive_types_from
  by (relation "measures [\<lambda>(all, ci, current, seen, pending). unseen_names all ci current seen,
    \<lambda>(all, ci, current, seen, pending). length pending, \<lambda>(all, ci, current, seen, pending). length current]")
    (simp_all add: unseen_names_new unseen_names_definition le_imp_less_or_eq [OF unseen_names_tail])

definition iter_types_in_item :: "ComponentInterface list \<Rightarrow> ComponentInterface \<Rightarrow> Type \<Rightarrow> Type list" where
  "iter_types_in_item all ci t = recursive_types_from all ci (iter_types t) {} []"

fun is_object_type :: "Type \<Rightarrow> bool" where
  "is_object_type (Type_Object mp nm imp) = True"
| "is_object_type _ = False"

definition item_contains_object_references :: "ComponentInterface list \<Rightarrow> ComponentInterface \<Rightarrow> Type \<Rightarrow> bool" where
  "item_contains_object_references all ci t \<longleftrightarrow> list_ex is_object_type (iter_types_in_item all ci t)"

definition item_contains_unsigned_types :: "ComponentInterface list \<Rightarrow> ComponentInterface \<Rightarrow> Type \<Rightarrow> bool" where
  "item_contains_unsigned_types all ci t \<longleftrightarrow>
     list_ex (\<lambda>s. s \<in> {Type_UInt8, Type_UInt16, Type_UInt32, Type_UInt64}) (iter_types_in_item all ci t)"

end
