(* ===== verification/CiTypes.thy ===== *)
theory CiTypes
  imports CiFfi
begin

text \<open>
  The types of a component interface: one name means one type, and every type that an item mentions is
  known; what \<open>RecursiveTypeIterator\<close> yields.
\<close>

section \<open>The universe\<close>

lemma normalize_twice [simp]: "normalize_type_module_path (normalize_type_module_path t) = normalize_type_module_path t"
  by (induction t) (simp_all add: crate_name_idem)

definition universe_ok :: "TypeUniverse \<Rightarrow> bool" where
  "universe_ok u \<longleftrightarrow> finite (tu_all_known_types u) \<and> (\<forall>t \<in> tu_all_known_types u. normalize_type_module_path t = t)"

definition universe_grows :: "TypeUniverse \<Rightarrow> TypeUniverse \<Rightarrow> bool" where
  "universe_grows u u' \<longleftrightarrow> tu_namespace u' = tu_namespace u \<and> tu_all_known_types u \<subseteq> tu_all_known_types u' \<and>
     (\<forall>nm t. tu_type_definitions u nm = Some t \<longrightarrow> tu_type_definitions u' nm = Some t)"

text \<open>A type is known, and its name means this type.\<close>

definition learned :: "Type \<Rightarrow> TypeUniverse \<Rightarrow> bool" where
  "learned t u \<longleftrightarrow> normalize_type_module_path t \<in> tu_all_known_types u \<and>
     (\<forall>nm. type_name t = Some nm \<longrightarrow> (\<exists>cur. tu_type_definitions u nm = Some cur \<and>
        normalize_type_module_path cur = normalize_type_module_path t))"

lemma universe_grows_refl [simp]: "universe_grows u u"
  by (simp add: universe_grows_def)

lemma universe_grows_trans: "universe_grows a b \<Longrightarrow> universe_grows b c \<Longrightarrow> universe_grows a c"
  by (auto simp: universe_grows_def)

lemma learned_grows: "learned t u \<Longrightarrow> universe_grows u u' \<Longrightarrow> learned t u'"
  by (auto simp: learned_def universe_grows_def)

lemma one_name_one_type:
  "learned s u \<Longrightarrow> learned t u \<Longrightarrow> type_name s = Some nm \<Longrightarrow> type_name t = Some nm \<Longrightarrow>
     normalize_type_module_path s = normalize_type_module_path t"
  by (auto simp: learned_def)

lemma add_type_definition_ok:
  assumes "add_type_definition nm t u = Inr u'" "universe_ok u"
  shows "universe_ok u'" "universe_grows u u'" "tu_all_known_types u' = tu_all_known_types u"
    "\<exists>cur. tu_type_definitions u' nm = Some cur \<and> normalize_type_module_path cur = normalize_type_module_path t"
  using assms by (auto simp: add_type_definition_def universe_ok_def universe_grows_def split: option.splits if_splits)

lemma add_known_type_ok:
  assumes "add_known_type t u = Inr u'" "universe_ok u"
  shows "universe_ok u' \<and> universe_grows u u' \<and> (\<forall>s \<in> set (iter_types t). learned s u')"
  using assms
proof (induction t u arbitrary: u' rule: add_known_type.induct)
  case (1 t u)
  let ?u = "if t \<in> tu_all_known_types u then u
            else u\<lparr>tu_all_known_types := insert (normalize_type_module_path t) (tu_all_known_types u)\<rparr>"
  have start: "universe_ok ?u" "universe_grows u ?u" "normalize_type_module_path t \<in> tu_all_known_types ?u"
    using "1.prems"(2) by (auto simp: universe_ok_def universe_grows_def)
  obtain u1 where u1: "efold add_known_type (iter_nested_types t) ?u = Inr u1" and
    last: "(case type_name t of None \<Rightarrow> Inr u1 | Some nm \<Rightarrow> add_type_definition nm t u1) = Inr u'"
    using "1.prems"(1) by (subst (asm) add_known_type.simps) (auto simp: Let_def ebind_Inr_iff)
  have "universe_ok u1 \<and> universe_grows ?u u1 \<and>
      (\<forall>s \<in> set (iter_nested_types t). \<forall>s' \<in> set (iter_types s). learned s' u1)"
  proof (rule efold_gains [OF u1, where P = universe_ok and R = universe_grows])
    show "universe_ok s' \<and> universe_grows s s' \<and> (\<forall>x' \<in> set (iter_types x). learned x' s')"
      if "x \<in> set (iter_nested_types t)" "universe_ok s" "add_known_type x s = Inr s'" for x s s'
      using "1.IH" [OF refl that(1,3,2)] .
  qed (use start universe_grows_trans learned_grows in auto)
  then have nested: "universe_ok u1" "universe_grows ?u u1" "\<forall>s \<in> set (iter_nested_types t). learned s u1" by auto
  have u': "universe_ok u'" "universe_grows u1 u'"
    using last nested(1) add_type_definition_ok(1,2) by (auto split: option.splits)
  have grows: "universe_grows ?u u'" "universe_grows u u'"
    using universe_grows_trans nested(2) u'(2) start(2) by blast+
  have "learned t u'"
    unfolding learned_def
  proof (intro conjI allI impI)
    show "normalize_type_module_path t \<in> tu_all_known_types u'"
      using grows(1) start(3) by (auto simp: universe_grows_def)
    fix nm assume "type_name t = Some nm"
    with last add_type_definition_ok(4) [OF _ nested(1)] show "\<exists>cur. tu_type_definitions u' nm = Some cur \<and>
        normalize_type_module_path cur = normalize_type_module_path t" by simp
  qed
  with nested(3) u' grows(2) learned_grows show ?case by auto
qed

lemma add_known_types_ok:
  assumes "add_known_types types u = Inr u'" "universe_ok u"
  shows "universe_ok u' \<and> universe_grows u u' \<and> (\<forall>t \<in> set types. \<forall>s \<in> set (iter_types t). learned s u')"
  by (rule efold_gains [OF assms(1) [unfolded add_known_types_def], where P = universe_ok and R = universe_grows])
    (use assms(2) add_known_type_ok universe_grows_trans learned_grows in auto)

section \<open>Every item makes its types known\<close>

definition callable_meta_types :: "FnParamMetadata list \<Rightarrow> Type option \<Rightarrow> Type option \<Rightarrow> Type set" where
  "callable_meta_types inputs return_type throws = param_ty ` set inputs \<union> set_option return_type \<union> set_option throws"

fun item_types :: "Metadata \<Rightarrow> Type set" where
  "item_types (Metadata_Func m) = callable_meta_types (fn_inputs m) (fn_return_type m) (fn_throws m)"
| "item_types (Metadata_Constructor m) =
     callable_meta_types (ctor_inputs m) (Some (Type_Object (ctor_module_path m) (ctor_self_name m) ObjectImpl_Struct)) (ctor_throws m)"
| "item_types (Metadata_Method m) = callable_meta_types (meth_inputs m) (meth_return_type m) (meth_throws m)"
| "item_types (Metadata_TraitMethod m) = callable_meta_types (tmeth_inputs m) (tmeth_return_type m) (tmeth_throws m)"
| "item_types (Metadata_Record m) = insert (Type_Record (rec_module_path m) (rec_name m)) (field_ty ` set (rec_fields m))"
| "item_types (Metadata_Enum m) = insert (Type_Enum (enum_module_path m) (enum_name m))
     (\<Union>v \<in> set (enum_variants m). field_ty ` set (var_fields v))"
| "item_types (Metadata_Object m) = {Type_Object (obj_module_path m) (obj_name m) (obj_imp m)}"
| "item_types (Metadata_CallbackInterface m) = {Type_CallbackInterface (cb_module_path m) (cb_name m)}"
| "item_types (Metadata_CustomType m) = {Type_Custom (custom_module_path m) (custom_name m) (custom_builtin m)}"
| "item_types (Metadata_UniffiTrait m) =
     (\<Union>d \<in> set (meta_trait_methods m). callable_meta_types (meth_inputs d) (meth_return_type d) (meth_throws d))"
| "item_types _ = {}"

definition all_learned :: "Type set \<Rightarrow> ComponentInterface \<Rightarrow> bool" where
  "all_learned ts ci \<longleftrightarrow> (\<forall>t \<in> ts. \<forall>s \<in> set (iter_types t). learned s (ci_types ci))"

definition ci_grows :: "ComponentInterface \<Rightarrow> ComponentInterface \<Rightarrow> bool" where
  "ci_grows ci ci' \<longleftrightarrow> universe_grows (ci_types ci) (ci_types ci')"

definition ci_ok :: "ComponentInterface \<Rightarrow> bool" where
  "ci_ok ci \<longleftrightarrow> universe_ok (ci_types ci)"

lemma all_learned_grows: "all_learned ts ci \<Longrightarrow> ci_grows ci ci' \<Longrightarrow> all_learned ts ci'"
  unfolding all_learned_def ci_grows_def using learned_grows by blast

lemma ci_grows_refl [simp]: "ci_grows ci ci"
  by (simp add: ci_grows_def)

lemma ci_grows_trans: "ci_grows a b \<Longrightarrow> ci_grows b c \<Longrightarrow> ci_grows a c"
  unfolding ci_grows_def by (rule universe_grows_trans)

lemma learn_types_ok:
  assumes "learn_types types ci = Inr ci'" "ci_ok ci"
  shows "ci_ok ci'" "ci_grows ci ci'" "all_learned (set types) ci'" "\<exists>u. ci' = ci\<lparr>ci_types := u\<rparr>"
proof -
  obtain u where u: "add_known_types types (ci_types ci) = Inr u" "ci' = ci\<lparr>ci_types := u\<rparr>"
    using assms(1) by (auto simp: learn_types_def ebind_Inr_iff)
  with add_known_types_ok [OF u(1)] assms(2) show "ci_ok ci'" "ci_grows ci ci'" "all_learned (set types) ci'"
    by (simp_all add: ci_ok_def ci_grows_def all_learned_def)
  show "\<exists>u. ci' = ci\<lparr>ci_types := u\<rparr>" using u(2) by blast
qed

lemma learn_error_ok:
  assumes "learn_error throws ci = Inr ci'"
  shows "\<exists>es. ci' = ci\<lparr>ci_errors := es\<rparr>"
proof -
  obtain nm where "ci' = (case nm of None \<Rightarrow> ci | Some n \<Rightarrow> ci\<lparr>ci_errors := insert n (ci_errors ci)\<rparr>)"
    using assms by (auto simp: learn_error_def ebind_Inr_iff)
  then show ?thesis
    by (intro exI [of _ "case nm of None \<Rightarrow> ci_errors ci | Some n \<Rightarrow> insert n (ci_errors ci)"]) (auto split: option.split)
qed

text \<open>What an operation that makes types known does; everything that is done besides leaves them alone.\<close>

definition adds :: "Type set \<Rightarrow> ComponentInterface \<Rightarrow> ComponentInterface \<Rightarrow> bool" where
  "adds ts ci ci' \<longleftrightarrow> (ci_ok ci \<longrightarrow> ci_ok ci' \<and> ci_grows ci ci' \<and> all_learned ts ci')"

lemma adds_learn:
  assumes "learn_types types ci0 = Inr ci'" "ci_types ci0 = ci_types ci"
  shows "adds (set types) ci ci'"
proof -
  have "ci_ok ci0 = ci_ok ci" "ci_grows ci0 ci' = ci_grows ci ci'" using assms(2) by (simp_all add: ci_ok_def ci_grows_def)
  with learn_types_ok(1-3) [OF assms(1)] show ?thesis by (simp add: adds_def)
qed

lemma adds_same: "adds ts ci ci1 \<Longrightarrow> ci_types ci2 = ci_types ci1 \<Longrightarrow> adds ts ci ci2"
  by (simp add: adds_def ci_ok_def ci_grows_def all_learned_def)

lemma adds_nothing: "ci_types ci' = ci_types ci \<Longrightarrow> adds {} ci ci'"
  by (simp add: adds_def ci_ok_def ci_grows_def all_learned_def)

lemma all_learned_Un: "all_learned (ts \<union> us) ci \<longleftrightarrow> all_learned ts ci \<and> all_learned us ci"
  by (auto simp: all_learned_def)

lemma adds_trans: "adds ts ci ci1 \<Longrightarrow> adds us ci1 ci2 \<Longrightarrow> adds (ts \<union> us) ci ci2"
  unfolding adds_def all_learned_Un using ci_grows_trans all_learned_grows by blast

lemma adds_error:
  assumes "adds ts ci ci1" "learn_error thr ci1 = Inr ci2"
  shows "adds ts ci ci2"
  using adds_same [OF assms(1)] learn_error_ok [OF assms(2)] by auto

lemma push_types [simp]:
  "ci_types (push_method own m ci) = ci_types ci" "ci_types (push_constructor own c ci) = ci_types ci"
  by (cases own; simp)+

text \<open>Learning the types in the iterators of items is learning the types that the items mention.\<close>

lemma adds_subset: "adds (set ts) ci ci' \<Longrightarrow> (\<And>t. t \<in> us \<Longrightarrow> set (iter_types t) \<subseteq> set ts) \<Longrightarrow> adds us ci ci'"
  unfolding adds_def all_learned_def by fastforce

lemma callable_learned:
  "set (cal_iter_types (map carg_from_metadata inputs) r thr) = (\<Union>t \<in> callable_meta_types inputs r thr. set (iter_types t))"
  by (auto simp: cal_iter_types_def callable_meta_types_def carg_from_metadata_def split: option.split simp del: iter_types.simps)

lemma adds_callable:
  assumes "learn_types (cal_iter_types (map carg_from_metadata inputs) r thr) ci = Inr ci'"
  shows "adds (callable_meta_types inputs r thr) ci ci'"
  by (rule adds_subset [OF adds_learn [OF assms refl]]) (auto simp: callable_learned simp del: iter_types.simps)

lemma add_constructor_adds:
  assumes "add_constructor_meta m ci = Inr ci'"
  shows "adds (item_types (Metadata_Constructor m)) ci ci'"
proof -
  obtain own ci1 ci2 where "learn_types (cco_iter_types (cco_from_metadata m)) ci = Inr ci1"
    "learn_error (cco_throws (cco_from_metadata m)) ci1 = Inr ci2" "ci' = push_constructor own (cco_from_metadata m) ci2"
    using assms by (auto simp: add_constructor_meta_def Let_def ebind_Inr_iff split: option.splits)
  with adds_same [OF adds_error [OF adds_callable]] show ?thesis by (simp add: cco_iter_types_def cco_from_metadata_def)
qed

lemma add_method_adds:
  assumes "add_method_meta m ci = Inr ci'"
  shows "adds (item_types (Metadata_Method m)) ci ci'"
proof -
  obtain own ci1 ci2 where "learn_types (cme_iter_types (cme_from_metadata m (owner_as_type own))) ci = Inr ci1"
    "learn_error (cme_throws (cme_from_metadata m (owner_as_type own))) ci1 = Inr ci2"
    "ci' = push_method own (cme_from_metadata m (owner_as_type own)) ci2"
    using assms by (auto simp: add_method_meta_def Let_def ebind_Inr_iff split: option.splits)
  with adds_same [OF adds_error [OF adds_callable]] show ?thesis by (simp add: cme_iter_types_def cme_from_metadata_def)
qed

lemma add_trait_method_adds:
  assumes "add_trait_method_meta m ci = Inr ci'"
  shows "adds (item_types (Metadata_TraitMethod m)) ci ci'"
proof (cases "find (\<lambda>c. ccb_name c = tmeth_trait_name m) (ci_callback_interfaces ci)")
  case None
  with assms add_method_adds [of "method_from_trait_method m"] show ?thesis
    by (simp add: add_trait_method_meta_def method_from_trait_method_def)
next
  case (Some cbi)
  let ?d = "cme_from_metadata (method_from_trait_method m) (ccb_as_type cbi)"
  let ?ci0 = "case cme_throws ?d of None \<Rightarrow> ci
    | Some error \<Rightarrow> ci\<lparr>ci_callback_interface_throws_types := insert error (ci_callback_interface_throws_types ci)\<rparr>"
  obtain ci1 ci2 where l: "learn_types (cme_iter_types ?d) ?ci0 = Inr ci1"
    "learn_error (cme_throws ?d) ci1 = Inr ci2" and same: "ci_types ci' = ci_types ci2"
    using assms Some by (auto simp: add_trait_method_meta_def Let_def ebind_Inr_iff split: if_splits)
  have "adds (item_types (Metadata_TraitMethod m)) ?ci0 ci1"
    using adds_callable l(1) by (simp add: cme_iter_types_def cme_from_metadata_def method_from_trait_method_def)
  from adds_error [OF this l(2)] have "adds (item_types (Metadata_TraitMethod m)) ?ci0 ci'" using same by (rule adds_same)
  moreover have "ci_types ?ci0 = ci_types ci" by (simp split: option.split)
  ultimately show ?thesis by (simp add: adds_def ci_ok_def ci_grows_def)
qed

lemma add_uniffitrait_adds:
  assumes "add_uniffitrait_meta m ci = Inr ci'"
  shows "adds (item_types (Metadata_UniffiTrait m)) ci ci'"
proof -
  obtain receiver ci1 where l: "learn_types (ctr_iter_types (ctr_from_metadata m receiver)) ci = Inr ci1" and
    same: "ci_types ci' = ci_types ci1"
    using assms by (auto simp: add_uniffitrait_meta_def Let_def ebind_Inr_iff split: option.splits if_splits)
  have "adds (item_types (Metadata_UniffiTrait m)) ci ci1"
    by (rule adds_subset [OF adds_learn [OF l refl]], cases m)
      (auto simp: ctr_iter_types_def cme_iter_types_def cme_from_metadata_def callable_learned simp del: iter_types.simps)
  then show ?thesis by (rule adds_same) (fact same)
qed

lemma fields_learned: "set (fields_iter_types (map cfd_from_metadata fs)) = (\<Union>f \<in> set fs. set (iter_types (field_ty f)))"
  by (simp add: fields_iter_types_def cfd_from_metadata_def del: iter_types.simps)

lemma adds_cons: "adds {t} ci ci1 \<Longrightarrow> adds ts ci1 ci2 \<Longrightarrow> adds (insert t ts) ci ci2"
  using adds_trans [of "{t}" ci ci1 ts ci2] by simp

lemma add_record_adds:
  assumes "add_item_to_ci (Metadata_Record m) ci = Inr ci'"
  shows "adds (item_types (Metadata_Record m)) ci ci'"
proof -
  obtain ci1 ci2 where l: "learn_types [Type_Record (rec_module_path m) (rec_name m)] ci = Inr ci1"
    "learn_types (cre_iter_types (cre_from_metadata m)) ci1 = Inr ci2" and same: "ci_types ci' = ci_types ci2"
    using assms by (auto simp: add_record_definition_def ebind_Inr_iff split: if_splits)
  have "adds (field_ty ` set (rec_fields m)) ci1 ci2"
    by (rule adds_subset [OF adds_learn [OF l(2) refl]])
      (auto simp: cre_iter_types_def cre_from_metadata_def fields_learned simp del: iter_types.simps)
  with adds_cons [OF adds_learn [OF l(1) refl, simplified]] same show ?thesis by (simp add: adds_same)
qed

lemma add_enum_adds:
  assumes "add_item_to_ci (Metadata_Enum m) ci = Inr ci'"
  shows "adds (item_types (Metadata_Enum m)) ci ci'"
proof -
  let ?ci1 = "\<lambda>ci1. if shape_is_error (cen_shape (cen_from_metadata m))
    then ci1\<lparr>ci_errors := insert (cen_name (cen_from_metadata m)) (ci_errors ci1)\<rparr> else ci1"
  obtain ci1 where l1: "learn_types [Type_Enum (enum_module_path m) (enum_name m)] ci = Inr ci1" and
    add: "add_enum_definition (cen_from_metadata m) ci1 = Inr ci'" using assms by (auto simp: ebind_Inr_iff)
  from add obtain ci2 where l2: "learn_types (cen_iter_types (cen_from_metadata m)) (?ci1 ci1) = Inr ci2" and
    same: "ci_types ci' = ci_types ci2"
    by (cases "shape_is_error (cen_shape (cen_from_metadata m))")
      (auto simp: add_enum_definition_def ebind_Inr_iff split: if_splits)
  have types: "ci_types (?ci1 ci1) = ci_types ci1" by simp
  have "adds (\<Union>v \<in> set (enum_variants m). field_ty ` set (var_fields v)) ci1 ci2"
    by (rule adds_subset [OF adds_learn [OF l2 types]])
      (auto simp: cen_iter_types_def cen_from_metadata_def cva_iter_types_def cva_from_metadata_def fields_learned simp del: iter_types.simps)
  with adds_cons [OF adds_learn [OF l1 refl, simplified]] same show ?thesis by (simp add: adds_same)
qed

lemma add_item_adds:
  assumes "add_item_to_ci i ci = Inr ci'"
  shows "adds (item_types i) ci ci'"
proof (cases i)
  case (Metadata_Func m)
  then obtain ci1 ci2 where "learn_types (cfu_iter_types (cfu_from_metadata m)) ci = Inr ci1"
    "learn_error (cfu_throws (cfu_from_metadata m)) ci1 = Inr ci2" "ci_types ci' = ci_types ci2"
    using assms by (auto simp: add_function_definition_def ebind_Inr_iff split: if_splits)
  with adds_same [OF adds_error [OF adds_callable]] Metadata_Func show ?thesis
    by (simp add: cfu_iter_types_def cfu_from_metadata_def)
next
  case (Metadata_Object m)
  let ?t = "Type_Object (obj_module_path m) (obj_name m) (obj_imp m)"
  from Metadata_Object assms obtain ci1 ci2 ci3 where l: "learn_types [?t] ci = Inr ci1" "learn_types [?t] ci1 = Inr ci2"
    "learn_types (cob_iter_types (cob_from_metadata m)) ci2 = Inr ci3" and same: "ci_types ci' = ci_types ci3"
    by (auto simp: add_object_meta_def Let_def ebind_Inr_iff cob_as_type_def cob_from_metadata_def)
  from l have "adds {?t} ci ci1" "adds {?t} ci1 ci2" "adds (set (cob_iter_types (cob_from_metadata m))) ci2 ci3"
    using adds_learn [OF _ refl] by fastforce+
  from adds_same [OF adds_trans [OF adds_trans [OF this(1,2)] this(3)] same] Metadata_Object show ?thesis
    by (simp add: cob_iter_types_def cob_from_metadata_def)
next
  case (Metadata_CallbackInterface m)
  let ?t = "Type_CallbackInterface (cb_module_path m) (cb_name m)"
  from Metadata_CallbackInterface assms obtain ci1 ci2 where l: "learn_types [?t] ci = Inr ci1"
    "learn_types (ccb_iter_types (ccb_from_metadata m)) ci1 = Inr ci2" and same: "ci_types ci' = ci_types ci2"
    by (auto simp: add_callback_interface_definition_def ebind_Inr_iff ccb_as_type_def ccb_from_metadata_def)
  from l have "adds {?t} ci ci1" "adds (set (ccb_iter_types (ccb_from_metadata m))) ci1 ci2"
    using adds_learn [OF _ refl] by fastforce+
  from adds_same [OF adds_trans [OF this] same] Metadata_CallbackInterface show ?thesis
    by (simp add: ccb_iter_types_def ccb_from_metadata_def)
next
  case (Metadata_CustomType m)
  let ?t = "Type_Custom (custom_module_path m) (custom_name m) (custom_builtin m)"
  from Metadata_CustomType assms obtain ci1 where l: "learn_types [?t] ci = Inr ci1"
    "add_custom_type_definition (ccu_from_metadata m) ci1 = Inr ci'" by (auto simp: ebind_Inr_iff)
  from l(2) have "ci_types ci' = ci_types ci1"
    by (cases "find (\<lambda>c. ccu_name c = ccu_name (ccu_from_metadata m)) (ci_custom_types ci1)")
      (auto simp: add_custom_type_definition_def split: if_splits)
  from adds_same [OF adds_learn [OF l(1) refl] this] Metadata_CustomType show ?thesis by simp
next
  case (Metadata_ObjectTraitImpl m)
  with assms show ?thesis by (auto simp: add_object_trait_impl_def intro: adds_nothing split: option.splits if_splits)
qed (use assms add_constructor_adds add_method_adds add_trait_method_adds add_uniffitrait_adds add_record_adds add_enum_adds
    in \<open>simp_all add: adds_nothing\<close>)

lemma items_adds:
  assumes "efold add_item_to_ci items ci = Inr ci'" "ci_ok ci"
  shows "ci_ok ci' \<and> ci_grows ci ci' \<and> (\<forall>i \<in> set items. all_learned (item_types i) ci')"
proof (rule efold_gains [OF assms(1), where P = ci_ok and R = ci_grows])
  show "ci_ok ci" by fact
  show "ci_grows s s" for s by simp
  show "ci_grows a c" if "ci_grows a b" "ci_grows b c" for a b c using that by (rule ci_grows_trans)
  show "ci_ok s' \<and> ci_grows s s' \<and> all_learned (item_types x) s'" if "ci_ok s" "add_item_to_ci x s = Inr s'" for x s s'
    using add_item_adds [OF that(2)] that(1) by (simp add: adds_def)
  show "all_learned (item_types x) s'" if "all_learned (item_types x) s" "ci_grows s s'" for x s s'
    using that by (rule all_learned_grows)
qed

text \<open>What building from metadata amounts to.\<close>

lemma ci_from_metadata_run:
  assumes "ci_from_metadata namespace docstring items = Inr ci"
  obtains ci0 ci1 where "ci_ok ci0" "\<exists>u. ci0 = (ci_new namespace)\<lparr>ci_types := u\<rparr>" "efold add_item_to_ci items ci0 = Inr ci1"
    "check_consistency ci1 = Inr ()" "ci = ci_infer_recursive_types ci1"
proof -
  let ?start = "(ci_new namespace)\<lparr>ci_types := (ci_types (ci_new namespace))\<lparr>tu_namespace_docstring := docstring\<rparr>\<rparr>"
  have same: "(if docstring \<noteq> None then ?start else ci_new namespace) = ?start"
    by (auto simp: ci_new_def universe_new_def)
  obtain ci0 where l: "learn_types [Type_String] ?start = Inr ci0" and
    g: "ebind (add_group_to_ci namespace items ci0) (\<lambda>ci. Inr (ci_infer_recursive_types ci)) = Inr ci"
    using assms same by (auto simp: ci_from_metadata_def add_metadata_def ebind_Inr_iff Let_def ci_new_def universe_new_def split: if_splits)
  have "ci_ok ?start" by (simp add: ci_ok_def universe_ok_def ci_new_def universe_new_def)
  with learn_types_ok(1,4) [OF l] have 0: "ci_ok ci0" "\<exists>u. ci0 = (ci_new namespace)\<lparr>ci_types := u\<rparr>" by auto
  from g obtain ci1 where "efold add_item_to_ci items ci0 = Inr ci1" "check_consistency ci1 = Inr ()"
    "ci = ci_infer_recursive_types ci1" by (auto simp: add_group_to_ci_def ebind_Inr_iff split: if_splits)
  with 0 show ?thesis by (rule that)
qed

lemma interface_learned:
  assumes "ci_from_metadata namespace docstring items = Inr ci"
  shows "ci_ok ci" "\<forall>i \<in> set items. all_learned (item_types i) ci"
proof -
  obtain ci0 ci1 where r: "ci_ok ci0" "efold add_item_to_ci items ci0 = Inr ci1" "ci = ci_infer_recursive_types ci1"
    using ci_from_metadata_run [OF assms] by metis
  have "ci_types ci = ci_types ci1" using r(3) by (simp add: ci_infer_recursive_types_def)
  with items_adds [OF r(2,1)] show "ci_ok ci" "\<forall>i \<in> set items. all_learned (item_types i) ci"
    by (simp_all add: ci_ok_def all_learned_def)
qed

end
