(* ===== verification/CiProps.thy ===== *)
theory CiProps
  imports CiTypes
begin

text \<open>
  Properties of the component interface: every type that its items mention is known, which members it
  accepts, and which types the iteration over the contents of a type yields.
\<close>

section \<open>Known types\<close>






definition example_group :: NamespaceMetadata where
  "example_group = \<lparr>ns_crate_name = ''c'', ns_name = ''n''\<rparr>"

definition example_record_meta :: RecordMetadata where
  "example_record_meta = \<lparr>rec_module_path = ''c::m'', rec_name = ''R'', rec_orig_name = None, rec_remote = False, rec_fields =
     [\<lparr>field_name = ''f'', field_orig_name = None, field_ty = Type_Optional (Type_Object ''d::m'' ''O'' ObjectImpl_Struct),
       field_default = None, field_docstring = None\<rparr>],
     rec_docstring = None\<rparr>"



section \<open>Constructors of records and enums\<close>

text \<open>C28: \<open>add_constructor_meta\<close> has branches for the constructors of records and enums, but the type that a
  constructor is given as its own is always an object type; it conflicts with the record or enum of the same
  name in the universe of types, so no component interface is ever built from metadata with such a
  constructor.\<close>

theorem value_constructors_rejected:
  assumes "Metadata_Constructor c \<in> set items"
    "(\<exists>r. Metadata_Record r \<in> set items \<and> rec_name r = ctor_self_name c) \<or>
     (\<exists>e. Metadata_Enum e \<in> set items \<and> enum_name e = ctor_self_name c)"
  shows "\<exists>e. ci_from_metadata namespace docstring items = Inl e"
proof (rule ccontr)
  assume "\<not> ?thesis"
  then obtain ci where "ci_from_metadata namespace docstring items = Inr ci"
    by (cases "ci_from_metadata namespace docstring items") auto
  then have all: "all_learned (item_types i) ci" if "i \<in> set items" for i using interface_learned(2) that by blast
  let ?ob = "Type_Object (ctor_module_path c) (ctor_self_name c) ObjectImpl_Struct"
  have ob: "learned ?ob (ci_types ci)"
    using all [OF assms(1)] by (simp add: all_learned_def callable_meta_types_def)
  obtain mp where "learned (Type_Record mp (ctor_self_name c)) (ci_types ci) \<or> learned (Type_Enum mp (ctor_self_name c)) (ci_types ci)"
    using assms(2) all by (fastforce simp: all_learned_def)
  with one_name_one_type [OF ob, of "Type_Record mp (ctor_self_name c)" "ctor_self_name c"]
    one_name_one_type [OF ob, of "Type_Enum mp (ctor_self_name c)" "ctor_self_name c"] show False by auto
qed

theorem value_constructors_rejected_witness:
  "\<exists>e. ci_from_metadata example_group None [Metadata_Record example_record_meta, Metadata_Constructor
     \<lparr>ctor_module_path = ''c::m'', ctor_self_name = ''R'', ctor_name = ''new'', ctor_orig_name = None, ctor_is_async = False,
      ctor_inputs = [], ctor_throws = None, ctor_checksum = None, ctor_docstring = None\<rparr>] = Inl e"
  by (rule value_constructors_rejected) (auto simp: example_record_meta_def)

section \<open>The types in an item\<close>

text \<open>What the search reaches: what the iterator over a type yields, and what the lookups of the named types among
  these yield.\<close>

inductive type_reaches :: "ComponentInterface list \<Rightarrow> ComponentInterface \<Rightarrow> Type \<Rightarrow> Type \<Rightarrow> bool"
  for all_cis ci t where
  reaches_own: "s \<in> set (iter_types t) \<Longrightarrow> type_reaches all_cis ci t s"
| reaches_definition: "type_reaches all_cis ci t s \<Longrightarrow> u \<in> set (definition_types_of all_cis ci s) \<Longrightarrow>
    type_reaches all_cis ci t u"

text \<open>The search yields what is queued, and nothing that is not reached from it.\<close>

lemma recursive_types_current: "set current \<subseteq> set (recursive_types_from all_cis ci current seen pending)"
  by (induction all_cis ci current seen pending rule: recursive_types_from.induct) (auto split: option.split)

lemma recursive_types_pending:
  "p \<in> set pending \<Longrightarrow> set (definition_types_of all_cis ci p) \<subseteq> set (recursive_types_from all_cis ci current seen pending)"
proof (induction all_cis ci current seen pending rule: recursive_types_from.induct)
  case (2 all_cis ci seen t pending)
  then show ?case using recursive_types_current [of "definition_types_of all_cis ci t" all_cis ci seen pending] by auto
qed (fastforce split: option.split)+

lemma recursive_types_sound:
  assumes "set current \<subseteq> S" "\<And>p. p \<in> set pending \<Longrightarrow> set (definition_types_of all_cis ci p) \<subseteq> S"
    "\<And>p. p \<in> S \<Longrightarrow> set (definition_types_of all_cis ci p) \<subseteq> S"
  shows "set (recursive_types_from all_cis ci current seen pending) \<subseteq> S"
  using assms
proof (induction all_cis ci current seen pending rule: recursive_types_from.induct)
  case (1 all_cis ci t current seen pending)
  then have "t \<in> S" by simp
  then have next_ok: "set (definition_types_of all_cis ci p) \<subseteq> S" if "p \<in> set (t # pending)" for p
    using that "1.prems"(2,3) by (metis set_ConsD)
  have "set current \<subseteq> S" using "1.prems"(1) by simp
  with "1.IH" "1.prems"(2,3) next_ok \<open>t \<in> S\<close> show ?case by (simp split: option.split)
qed auto

text \<open>A named type that was not seen before is followed, itself or one remembered by the same name.\<close>

lemma recursive_types_followed:
  assumes "s \<in> set (recursive_types_from all_cis ci current seen pending)" "pending_key s = Some k" "k \<notin> seen"
  shows "\<exists>s'. s' \<in> set (recursive_types_from all_cis ci current seen pending) \<and> pending_key s' = Some k \<and>
    set (definition_types_of all_cis ci s') \<subseteq> set (recursive_types_from all_cis ci current seen pending)"
  using assms
proof (induction all_cis ci current seen pending rule: recursive_types_from.induct)
  case (1 all_cis ci t current seen pending)
  show ?case
  proof (cases "pending_key t = Some k")
    case True
    let ?rest = "recursive_types_from all_cis ci current (insert k seen) (t # pending)"
    have "set (definition_types_of all_cis ci t) \<subseteq> set ?rest" by (rule recursive_types_pending) simp
    with True "1.prems"(3) show ?thesis by (intro exI [of _ t]) auto
  next
    case False
    with "1.prems" "1.IH" show ?thesis by (cases "pending_key t") (fastforce split: if_splits)+
  qed
qed auto

lemma definition_types_named: "s \<in> set (definition_types_of all_cis ci t) \<Longrightarrow> pending_key t \<noteq> None"
  by (cases t) simp_all

lemma recursive_types_reached:
  assumes "\<And>s s'. type_reaches all_cis ci t s \<Longrightarrow> type_reaches all_cis ci t s' \<Longrightarrow> pending_key s = pending_key s' \<Longrightarrow>
    pending_key s \<noteq> None \<Longrightarrow> definition_types_of all_cis ci s = definition_types_of all_cis ci s'"
  shows "set (iter_types_in_item all_cis ci t) = {s. type_reaches all_cis ci t s}"
proof -
  let ?R = "set (iter_types_in_item all_cis ci t)"
  have sound: "?R \<subseteq> {s. type_reaches all_cis ci t s}"
    unfolding iter_types_in_item_def
    by (rule recursive_types_sound) (auto intro: reaches_own reaches_definition simp del: iter_types.simps)
  have "s \<in> ?R" if "type_reaches all_cis ci t s" for s
    using that
  proof induction
    case (reaches_own s)
    then show ?case unfolding iter_types_in_item_def using recursive_types_current by blast
  next
    case (reaches_definition s u)
    have "pending_key s \<noteq> None" using reaches_definition.hyps(2) by (rule definition_types_named)
    then obtain k where k: "pending_key s = Some k" by (cases "pending_key s") simp_all
    from recursive_types_followed [OF reaches_definition.IH [unfolded iter_types_in_item_def] k] obtain s' where
      s': "s' \<in> ?R" "pending_key s' = Some k" "set (definition_types_of all_cis ci s') \<subseteq> ?R"
      unfolding iter_types_in_item_def by auto
    have "definition_types_of all_cis ci s = definition_types_of all_cis ci s'"
      by (rule assms [OF reaches_definition.hyps(1)]) (use s' sound k in auto)
    with s'(3) reaches_definition.hyps(2) show ?case by auto
  qed
  with sound show ?thesis by blast
qed

section \<open>What a type contains\<close>

text \<open>The parts of a type, the content of a \<open>Box\<close> included.\<close>

inductive part_of :: "Type \<Rightarrow> Type \<Rightarrow> bool" for s where
  part_self: "part_of s s"
| part_optional: "part_of s t \<Longrightarrow> part_of s (Type_Optional t)"
| part_sequence: "part_of s t \<Longrightarrow> part_of s (Type_Sequence t)"
| part_set: "part_of s t \<Longrightarrow> part_of s (Type_Set t)"
| part_key: "part_of s k \<Longrightarrow> part_of s (Type_Map k v)"
| part_value: "part_of s v \<Longrightarrow> part_of s (Type_Map k v)"
| part_builtin: "part_of s t \<Longrightarrow> part_of s (Type_Custom mp nm t)"
| part_box: "part_of s t \<Longrightarrow> part_of s (Type_Box t)"

text \<open>The types written in the definitions: fields, and the arguments, results and errors of constructors and methods, for an
  object also those of its builtin traits.  (Those of a record or enum are not visited; they take the type itself and give
  builtin types.)\<close>

definition ci_callable_types :: "CArgument list \<Rightarrow> Type option \<Rightarrow> Type option \<Rightarrow> Type set" where
  "ci_callable_types args ret thr = carg_type ` set args \<union> set_option ret \<union> set_option thr"

definition member_types :: "CConstructor list \<Rightarrow> CMethod list \<Rightarrow> Type set" where
  "member_types cs ms =
     (\<Union>c \<in> set cs. ci_callable_types (cco_arguments c) (Some (cco_self_type c)) (cco_throws c)) \<union>
     (\<Union>m \<in> set ms. ci_callable_types (cme_arguments m) (cme_return_type m) (cme_throws m))"

definition record_types :: "CRecord \<Rightarrow> Type set" where
  "record_types r = cfd_type ` set (cre_fields r) \<union> member_types (cre_constructors r) (cre_methods r)"

definition enum_types :: "CEnum \<Rightarrow> Type set" where
  "enum_types e = (\<Union>v \<in> set (cen_variants e). cfd_type ` set (cva_fields v)) \<union>
     member_types (cen_constructors e) (cen_methods e)"

definition object_types :: "CObject \<Rightarrow> Type set" where
  "object_types ob = member_types (cob_constructors ob) (cob_methods ob @ concat (map ctr_methods (cob_uniffi_traits ob)))"

definition callback_types :: "CCallbackInterface \<Rightarrow> Type set" where
  "callback_types c = member_types [] (ccb_methods c)"

text \<open>The definitions of a named type in an interface, each with the types written in it.\<close>

fun definitions_in :: "ComponentInterface \<Rightarrow> Type \<Rightarrow> Type set set" where
  "definitions_in c (Type_Record mp nm) = record_types ` {r \<in> set (ci_records c). cre_name r = nm}"
| "definitions_in c (Type_Enum mp nm) = enum_types ` {e \<in> set (ci_enums c). cen_name e = nm}"
| "definitions_in c (Type_Object mp nm imp) = object_types ` {ob \<in> set (ci_objects c). cob_name ob = nm}"
| "definitions_in c (Type_CallbackInterface mp nm) = callback_types ` {k \<in> set (ci_callback_interfaces c). ccb_name k = nm}"
| "definitions_in c _ = {}"

text \<open>A type contains its parts, and the parts of what is written in the definition of a named type that it
  contains, in the interface of the crate that the type belongs to.\<close>

inductive type_contains :: "ComponentInterface set \<Rightarrow> Type \<Rightarrow> Type \<Rightarrow> bool" for cis t where
  contains_part: "part_of s t \<Longrightarrow> type_contains cis t s"
| contains_definition: "type_contains cis t u \<Longrightarrow> pending_key u = Some (mp, nm) \<Longrightarrow> c \<in> cis \<Longrightarrow>
    ci_crate_name c = crate_name mp \<Longrightarrow> ts \<in> definitions_in c u \<Longrightarrow> w \<in> ts \<Longrightarrow> part_of s w \<Longrightarrow> type_contains cis t s"

text \<open>Interfaces of different crates in which a name has one definition, and the types that the search can follow: not a
  \<open>Box\<close>, and a named type with a definition in the interface at hand or in that of another crate, if the type's path is the
  crate's name.\<close>

definition interfaces_ok :: "ComponentInterface set \<Rightarrow> bool" where
  "interfaces_ok cis \<longleftrightarrow> inj_on ci_crate_name cis \<and> (\<forall>c \<in> cis. crate_name (ci_crate_name c) = ci_crate_name c \<and>
     distinct (map cre_name (ci_records c) @ map cen_name (ci_enums c) @ map cob_name (ci_objects c) @
       map ccb_name (ci_callback_interfaces c)))"

lemma interfaces_okD:
  assumes "interfaces_ok cis" "c \<in> cis"
  shows "c' \<in> cis \<Longrightarrow> ci_crate_name c = ci_crate_name c' \<Longrightarrow> c = c'" "crate_name (ci_crate_name c) = ci_crate_name c"
    "distinct (map cre_name (ci_records c) @ map cen_name (ci_enums c) @ map cob_name (ci_objects c) @
       map ccb_name (ci_callback_interfaces c))"
  using assms unfolding interfaces_ok_def by (blast dest: inj_onD)+

definition can_follow :: "ComponentInterface list \<Rightarrow> ComponentInterface \<Rightarrow> Type \<Rightarrow> bool" where
  "can_follow all_cis ci s \<longleftrightarrow> (\<forall>b. s \<noteq> Type_Box b) \<and>
     (\<forall>mp nm. pending_key s = Some (mp, nm) \<longrightarrow> (\<exists>c \<in> set (ci # all_cis). ci_crate_name c = crate_name mp \<and>
        (c = ci \<or> mp = crate_name mp) \<and> definitions_in c s \<noteq> {}))"

lemma iter_types_part:
  "s \<in> set (iter_types t) \<Longrightarrow> part_of s t" "s \<in> set (iter_nested_types t) \<Longrightarrow> part_of s t"
  by (induction t and t rule: iter_types_iter_nested_types.induct) (auto intro: part_of.intros)

lemma part_iter_types:
  assumes "part_of s t" "\<And>x b. part_of x t \<Longrightarrow> x \<noteq> Type_Box b"
  shows "s \<in> set (iter_types t)"
  using assms by induction (auto intro: part_of.intros)

lemma definition_iter_types:
  "set (cre_iter_types r) = (\<Union>w \<in> record_types r. set (iter_types w))"
  "set (cen_iter_types e) = (\<Union>w \<in> enum_types e. set (iter_types w))"
  "set (cob_iter_types ob) = (\<Union>w \<in> object_types ob. set (iter_types w))"
  "set (ccb_iter_types c) = (\<Union>w \<in> callback_types c. set (iter_types w))"
proof -
  have cal: "set (cal_iter_types args ret thr) = (\<Union>w \<in> ci_callable_types args ret thr. set (iter_types w))" for args ret thr
    by (auto simp: cal_iter_types_def ci_callable_types_def simp del: iter_types.simps split: option.split)
  have fld: "set (fields_iter_types fs) = (\<Union>f \<in> set fs. set (iter_types (cfd_type f)))" for fs
    by (simp add: fields_iter_types_def del: iter_types.simps)
  show "set (cre_iter_types r) = (\<Union>w \<in> record_types r. set (iter_types w))"
    "set (cen_iter_types e) = (\<Union>w \<in> enum_types e. set (iter_types w))"
    "set (cob_iter_types ob) = (\<Union>w \<in> object_types ob. set (iter_types w))"
    "set (ccb_iter_types c) = (\<Union>w \<in> callback_types c. set (iter_types w))"
    by (auto simp: cre_iter_types_def cen_iter_types_def cob_iter_types_def ccb_iter_types_def cva_iter_types_def
        cco_iter_types_def cme_iter_types_def ctr_iter_types_def cal fld record_types_def enum_types_def object_types_def
        callback_types_def member_types_def simp del: iter_types.simps)
qed

lemma find_unique:
  assumes "distinct (map f xs)" "x \<in> set xs" "f x = k"
  shows "find (\<lambda>y. f y = k) xs = Some x" "{y \<in> set xs. f y = k} = {x}"
proof -
  show "find (\<lambda>y. f y = k) xs = Some x" using assms by (induction xs) (auto simp: image_iff)
  show "{y \<in> set xs. f y = k} = {x}" using assms by (auto simp: distinct_map inj_on_def)
qed

text \<open>The interface in which the search looks a type up is the one of the type's crate, and finds the definition.\<close>

lemma follow_interface:
  assumes "interfaces_ok (set (ci # all_cis))" "can_follow all_cis ci s" "pending_key s = Some (mp, nm)"
    "c \<in> set (ci # all_cis)" "ci_crate_name c = crate_name mp"
  shows "find_ci_for all_cis ci mp = c" "definitions_in c s \<noteq> {}"
proof -
  let ?cis = "set (ci # all_cis)"
  obtain c' where c': "c' \<in> ?cis" "ci_crate_name c' = crate_name mp" "c' = ci \<or> mp = crate_name mp" "definitions_in c' s \<noteq> {}"
    using assms(2,3) unfolding can_follow_def by blast
  note okD = interfaces_okD [OF assms(1)]
  have c: "c' = c" by (rule okD(1) [OF c'(1) assms(4)]) (simp add: c'(2) assms(5))
  then show "definitions_in c s \<noteq> {}" using c'(4) by simp
  show "find_ci_for all_cis ci mp = c"
  proof (cases "find (\<lambda>ci. ci_crate_name ci = mp) all_cis")
    case (Some a)
    then have a: "a \<in> ?cis" "ci_crate_name a = mp" by (auto dest: find_in)
    with okD(2) [OF a(1)] have "ci_crate_name a = ci_crate_name c" using assms(5) by simp
    with Some okD(1) [OF a(1) assms(4)] show ?thesis by (simp add: find_ci_for_def find_component_interface_def)
  next
    case None
    then have "c = ci" using c c'(3) assms(4,5) by (auto simp: find_None_iff)
    with None show ?thesis by (simp add: find_ci_for_def find_component_interface_def)
  qed
qed

lemma follow_definition:
  assumes "interfaces_ok (set (ci # all_cis))" "pending_key s = Some (mp, nm)" "find_ci_for all_cis ci mp = c"
    "c \<in> set (ci # all_cis)" "ts \<in> definitions_in c s"
  shows "set (definition_types_of all_cis ci s) = (\<Union>w \<in> ts. set (iter_types w))"
proof -
  have d: "distinct (map cre_name (ci_records c))" "distinct (map cen_name (ci_enums c))" "distinct (map cob_name (ci_objects c))"
    "distinct (map ccb_name (ci_callback_interfaces c))" using interfaces_okD(3) [OF assms(1,4)] unfolding distinct_append by blast+
  show ?thesis
  proof (cases s)
    case (Type_Record mp' nm')
    then obtain r where "r \<in> set (ci_records c)" "cre_name r = nm'" "ts = record_types r" using assms(5) by auto
    with find_unique(1) [OF d(1) this(1,2)] Type_Record assms(2,3) show ?thesis
      by (simp add: get_record_definition_def definition_iter_types del: iter_types.simps)
  next
    case (Type_Enum mp' nm')
    then obtain e where "e \<in> set (ci_enums c)" "cen_name e = nm'" "ts = enum_types e" using assms(5) by auto
    with find_unique(1) [OF d(2) this(1,2)] Type_Enum assms(2,3) show ?thesis
      by (simp add: get_enum_definition_def definition_iter_types del: iter_types.simps)
  next
    case (Type_Object mp' nm' imp)
    then obtain ob where "ob \<in> set (ci_objects c)" "cob_name ob = nm'" "ts = object_types ob" using assms(5) by auto
    with find_unique(1) [OF d(3) this(1,2)] Type_Object assms(2,3) show ?thesis
      by (simp add: get_object_definition_def definition_iter_types del: iter_types.simps)
  next
    case (Type_CallbackInterface mp' nm')
    then obtain k where "k \<in> set (ci_callback_interfaces c)" "ccb_name k = nm'" "ts = callback_types k" using assms(5) by auto
    with find_unique(1) [OF d(4) this(1,2)] Type_CallbackInterface assms(2,3) show ?thesis
      by (simp add: get_callback_interface_definition_def definition_iter_types del: iter_types.simps)
  qed (use assms(2) in simp_all)
qed

lemma pending_key_types:
  "pending_key s = Some (mp, nm) \<Longrightarrow>
     s = Type_Record mp nm \<or> s = Type_Enum mp nm \<or> s = Type_CallbackInterface mp nm \<or> (\<exists>imp. s = Type_Object mp nm imp)"
  by (cases s) simp_all

lemma named_definition:
  "definitions_in c (Type_Record mp nm) \<noteq> {} \<longleftrightarrow> nm \<in> set (map cre_name (ci_records c))"
  "definitions_in c (Type_Enum mp nm) \<noteq> {} \<longleftrightarrow> nm \<in> set (map cen_name (ci_enums c))"
  "definitions_in c (Type_Object mp nm imp) \<noteq> {} \<longleftrightarrow> nm \<in> set (map cob_name (ci_objects c))"
  "definitions_in c (Type_CallbackInterface mp nm) \<noteq> {} \<longleftrightarrow> nm \<in> set (map ccb_name (ci_callback_interfaces c))"
  by (simp_all add: image_iff, metis+)

lemma same_definition:
  assumes "interfaces_ok cis" "c \<in> cis" "definitions_in c s \<noteq> {}" "definitions_in c s' \<noteq> {}" "pending_key s = pending_key s'"
    "pending_key s \<noteq> None"
  shows "definition_types_of all_cis ci s = definition_types_of all_cis ci s'"
proof -
  obtain mp nm where key: "pending_key s = Some (mp, nm)" "pending_key s' = Some (mp, nm)" using assms(5,6) by auto
  from interfaces_okD(3) [OF assms(1,2)]
  have "\<not> (nm \<in> set (map cre_name (ci_records c)) \<and> nm \<in> set (map cen_name (ci_enums c)))"
    "\<not> (nm \<in> set (map cre_name (ci_records c)) \<and> nm \<in> set (map cob_name (ci_objects c)))"
    "\<not> (nm \<in> set (map cre_name (ci_records c)) \<and> nm \<in> set (map ccb_name (ci_callback_interfaces c)))"
    "\<not> (nm \<in> set (map cen_name (ci_enums c)) \<and> nm \<in> set (map cob_name (ci_objects c)))"
    "\<not> (nm \<in> set (map cen_name (ci_enums c)) \<and> nm \<in> set (map ccb_name (ci_callback_interfaces c)))"
    "\<not> (nm \<in> set (map cob_name (ci_objects c)) \<and> nm \<in> set (map ccb_name (ci_callback_interfaces c)))"
    unfolding distinct_append set_append by blast+
  then show ?thesis
    using pending_key_types [OF key(1)] pending_key_types [OF key(2)] assms(3,4)
    by (elim disjE exE; simp only: named_definition definition_types_of.simps) blast+
qed

lemma reaches_contains:
  assumes ok: "interfaces_ok (set (ci # all_cis))" and follow: "\<And>s. type_contains (set (ci # all_cis)) t s \<Longrightarrow> can_follow all_cis ci s"
  shows "type_reaches all_cis ci t s \<longleftrightarrow> type_contains (set (ci # all_cis)) t s"
proof
  show "type_contains (set (ci # all_cis)) t s" if "type_reaches all_cis ci t s"
    using that
  proof induction
    case (reaches_own s)
    then show ?case using iter_types_part(1) contains_part by blast
  next
    case (reaches_definition s u)
    obtain mp nm where key: "pending_key s = Some (mp, nm)"
      using definition_types_named [OF reaches_definition.hyps(2)] by (cases "pending_key s") auto
    note can = follow [OF reaches_definition.IH]
    then obtain c where c: "c \<in> set (ci # all_cis)" "ci_crate_name c = crate_name mp"
      using key unfolding can_follow_def by blast
    note found = follow_interface [OF ok can key c]
    then obtain ts where ts: "ts \<in> definitions_in c s" by blast
    from follow_definition [OF ok key found(1) c(1) ts] reaches_definition.hyps(2) obtain w where
      "w \<in> ts" "u \<in> set (iter_types w)" by blast
    with contains_definition [OF reaches_definition.IH key c ts] iter_types_part(1) show ?case by blast
  qed
  show "type_reaches all_cis ci t s" if "type_contains (set (ci # all_cis)) t s"
    using that
  proof induction
    case (contains_part s)
    have "x \<noteq> Type_Box b" if "part_of x t" for x b
      using follow [OF type_contains.contains_part [OF that]] by (simp add: can_follow_def)
    with contains_part show ?case by (intro reaches_own part_iter_types)
  next
    case (contains_definition u mp nm c ts w s)
    have "x \<noteq> Type_Box b" if "part_of x w" for x b
      using follow [OF type_contains.contains_definition [OF contains_definition.hyps(1-6) that]] by (simp add: can_follow_def)
    with contains_definition.hyps have s: "s \<in> set (iter_types w)" by (intro part_iter_types)
    note found = follow_interface [OF ok follow [OF contains_definition.hyps(1)] contains_definition.hyps(2-4)]
    from follow_definition [OF ok contains_definition.hyps(2) found(1) contains_definition.hyps(3,5)] s
    have "s \<in> set (definition_types_of all_cis ci u)" using contains_definition.hyps(6) by blast
    with contains_definition.IH show ?case by (rule reaches_definition)
  qed
qed

text \<open>C23: the iterator over the types in an item, which follows the definitions of records, enums, objects
  and callback interfaces through the component interfaces of all crates and follows each name once, ends and yields
  exactly the types that the item contains: its parts, and those of what is written in the fields, constructors and methods of the
  definitions of the named types among them, to any depth.  So a language binding learns whether a type contains objects.
  This holds when in each interface a name has one definition, no \<open>Box\<close> is contained, and every named type that is
  contained has a definition in the interface at hand or, if its module path is the bare name of another crate, in that
  crate's interface; a \<open>Box\<close> and a submodule path of another crate are not followed.\<close>

theorem recursive_types_exact:
  assumes "interfaces_ok (set (ci # all_cis))" "\<forall>s. type_contains (set (ci # all_cis)) t s \<longrightarrow> can_follow all_cis ci s"
  shows "set (iter_types_in_item all_cis ci t) = {s. type_contains (set (ci # all_cis)) t s} \<and>
    (item_contains_object_references all_cis ci t \<longleftrightarrow>
       (\<exists>mp nm imp. type_contains (set (ci # all_cis)) t (Type_Object mp nm imp)))"
proof -
  let ?cis = "set (ci # all_cis)"
  have eq: "type_reaches all_cis ci t s \<longleftrightarrow> type_contains ?cis t s" for s
    using assms by (intro reaches_contains) blast+
  have same: "definition_types_of all_cis ci s = definition_types_of all_cis ci s'"
    if s: "type_contains ?cis t s" "type_contains ?cis t s'" "pending_key s = pending_key s'" "pending_key s \<noteq> None" for s s'
  proof -
    obtain mp nm where key: "pending_key s = Some (mp, nm)" using s(4) by (cases "pending_key s") auto
    have can: "can_follow all_cis ci s" "can_follow all_cis ci s'" using assms(2) s(1,2) by blast+
    then obtain c where c: "c \<in> ?cis" "ci_crate_name c = crate_name mp" using key unfolding can_follow_def by blast
    have "definitions_in c s \<noteq> {}" by (rule follow_interface(2) [OF assms(1) can(1) key c])
    moreover have "definitions_in c s' \<noteq> {}"
      by (rule follow_interface(2) [OF assms(1) can(2) _ c]) (simp add: key s(3) [symmetric])
    ultimately show ?thesis using s(3,4) by (rule same_definition [OF assms(1) c(1)])
  qed
  have "set (iter_types_in_item all_cis ci t) = {s. type_contains ?cis t s}"
    unfolding eq [symmetric] by (rule recursive_types_reached, rule same) (simp_all only: eq not_False_eq_True)
  moreover have "is_object_type s \<longleftrightarrow> (\<exists>mp nm imp. s = Type_Object mp nm imp)" for s by (cases s) simp_all
  ultimately show ?thesis unfolding item_contains_object_references_def list_ex_iff by auto
qed

definition example_ci :: ComponentInterface where
  "example_ci = (ci_new example_group)\<lparr>ci_records := [cre_from_metadata (example_record_meta
     \<lparr>rec_fields := map (\<lambda>t. \<lparr>field_name = ''f'', field_orig_name = None, field_ty = t, field_default = None, field_docstring = None\<rparr>)
       [Type_Optional (Type_Record ''c'' ''R''), Type_Object ''d'' ''O'' ObjectImpl_Struct]\<rparr>)]\<rparr>"

definition example_dep :: ComponentInterface where
  "example_dep = (ci_new \<lparr>ns_crate_name = ''d'', ns_name = ''d''\<rparr>)\<lparr>ci_objects :=
     [cob_from_metadata \<lparr>obj_module_path = ''d'', obj_name = ''O'', obj_orig_name = None, obj_remote = False, obj_imp = ObjectImpl_Struct, obj_docstring = None\<rparr>]\<rparr>"

definition example_contents :: "Type set" where
  "example_contents = {Type_Record ''c'' ''R'', Type_Optional (Type_Record ''c'' ''R''), Type_Object ''d'' ''O'' ObjectImpl_Struct}"

lemma example_items:
  "ci_records example_ci = [cre_from_metadata (example_record_meta
     \<lparr>rec_fields := map (\<lambda>t. \<lparr>field_name = ''f'', field_orig_name = None, field_ty = t, field_default = None, field_docstring = None\<rparr>)
       [Type_Optional (Type_Record ''c'' ''R''), Type_Object ''d'' ''O'' ObjectImpl_Struct]\<rparr>)]"
  "ci_objects example_ci = []" "ci_enums example_ci = []" "ci_callback_interfaces example_ci = []"
  "ci_records example_dep = []" "ci_objects example_dep = [cob_from_metadata \<lparr>obj_module_path = ''d'', obj_name = ''O'',
     obj_orig_name = None, obj_remote = False, obj_imp = ObjectImpl_Struct, obj_docstring = None\<rparr>]"
  "ci_enums example_dep = []" "ci_callback_interfaces example_dep = []"
  "ci_crate_name example_ci = ''c''" "ci_crate_name example_dep = ''d''"
  by (simp_all add: example_ci_def example_dep_def ci_new_def ci_crate_name_def example_group_def universe_new_def)

lemma example_definitions:
  "definitions_in example_ci (Type_Record mp nm) = (if nm = ''R'' then
     {{Type_Optional (Type_Record ''c'' ''R''), Type_Object ''d'' ''O'' ObjectImpl_Struct}} else {})"
  "definitions_in example_ci (Type_Object mp nm imp) = {}"
  "definitions_in example_dep (Type_Object mp nm imp) = (if nm = ''O'' then {{}} else {})" "definitions_in example_dep (Type_Record mp nm) = {}"
proof -
  have single: "f ` {x \<in> set [a]. P x} = (if P a then {f a} else {})" for f :: "'a \<Rightarrow> Type set" and a P by auto
  show "definitions_in example_ci (Type_Record mp nm) = (if nm = ''R'' then
     {{Type_Optional (Type_Record ''c'' ''R''), Type_Object ''d'' ''O'' ObjectImpl_Struct}} else {})"
    unfolding definitions_in.simps example_items single
    by (auto simp: cre_from_metadata_def example_record_meta_def record_types_def member_types_def cfd_from_metadata_def)
  show "definitions_in example_dep (Type_Object mp nm imp) = (if nm = ''O'' then {{}} else {})"
    unfolding definitions_in.simps example_items single
    by (auto simp: cob_from_metadata_def object_types_def member_types_def)
qed (simp_all add: example_items)

lemma example_crates: "crate_name ''c'' = ''c''" "crate_name ''d'' = ''d''" by code_simp+

inductive_cases part_cases: "part_of s (Type_Record mp nm)" "part_of s (Type_Optional t)" "part_of s (Type_Object mp nm imp)"

lemma example_ci_contents:
  assumes "type_contains {example_ci, example_dep} (Type_Record ''c'' ''R'') s"
  shows "s \<in> example_contents"
  using assms
proof induction
  case (contains_part s)
  then show ?case by (auto simp: example_contents_def elim!: part_cases)
next
  case (contains_definition u mp nm c ts w s)
  then consider "u = Type_Record ''c'' ''R''" "c = example_ci" | "u = Type_Object ''d'' ''O'' ObjectImpl_Struct" "c = example_dep"
    by (auto simp: example_contents_def example_crates example_items(9,10))
  then show ?case
    using contains_definition.hyps(5-7)
    by cases (auto simp: example_definitions example_contents_def simp del: definitions_in.simps elim!: part_cases)
qed

lemma example_interfaces: "interfaces_ok (set [example_ci, example_dep])"
  by (auto simp: interfaces_ok_def example_crates example_items)

theorem recursive_types_exact_witness:
  "item_contains_object_references [example_dep] example_ci (Type_Record ''c'' ''R'') \<and>
   set (iter_types_in_item [example_dep] example_ci (Type_Record ''c'' ''R'')) =
     {s. type_contains (set [example_ci, example_dep]) (Type_Record ''c'' ''R'') s}"
proof -
  let ?c = "type_contains (set [example_ci, example_dep]) (Type_Record ''c'' ''R'')"
  have "can_follow [example_dep] example_ci s" if "?c s" for s
    using example_ci_contents [of s] that by (auto simp: example_contents_def can_follow_def example_crates example_items(9,10) example_definitions simp del: definitions_in.simps)
  note exact = recursive_types_exact [where all_cis = "[example_dep]" and ci = example_ci and t = "Type_Record ''c'' ''R''",
      OF example_interfaces, OF allI [OF impI, OF this]]
  have "?c (Type_Object ''d'' ''O'' ObjectImpl_Struct)"
    by (rule contains_definition [OF contains_part [OF part_self], where c = example_ci])
      (auto simp: example_crates example_items(9) example_definitions simp del: definitions_in.simps intro: part_self)
  with exact show ?thesis by blast
qed

end
