(* ===== verification/CiSymbols.thy ===== *)
theory CiSymbols
  imports CiTypes
begin

text \<open>
  The FFI functions that a component interface declares for its items are those that the macros export:
  what each item adds to the names, and that deriving the functions does not fail.
\<close>

section \<open>Names of the FFI functions\<close>

definition member_names :: "CConstructor list \<Rightarrow> CMethod list \<Rightarrow> CUniffiTrait list \<Rightarrow> string set" where
  "member_names cs ms ts = (\<lambda>c. cff_name (cco_ffi_func c)) ` set cs \<union> (\<lambda>m. cff_name (cme_ffi_func m)) ` set ms \<union>
     (\<Union>t \<in> set ts. (\<lambda>m. cff_name (cme_ffi_func m)) ` set (ctr_methods t))"

definition object_names :: "CObject \<Rightarrow> string set" where
  "object_names ob = {cff_name (cob_ffi_func_clone ob), cff_name (cob_ffi_func_free ob)} \<union>
     (if has_callback_interface (cob_imp ob) then {init_callback_vtable_fn_symbol_name (cob_module_path ob) (cob_name ob)}
      else cff_name ` set_option (cob_ffi_init_callback ob)) \<union>
     member_names (cob_constructors ob) (cob_methods ob) (cob_uniffi_traits ob)"

definition enum_names :: "CEnum \<Rightarrow> string set" where
  "enum_names e = member_names (cen_constructors e) (cen_methods e) (cen_uniffi_traits e)"

definition record_names :: "CRecord \<Rightarrow> string set" where
  "record_names r = member_names (cre_constructors r) (cre_methods r) (cre_uniffi_traits r)"

definition callback_name :: "CCallbackInterface \<Rightarrow> string" where
  "callback_name c = init_callback_vtable_fn_symbol_name (ccb_module_path c) (ccb_name c)"

text \<open>What the names will be once they are derived.\<close>

definition ci_names :: "ComponentInterface \<Rightarrow> string set" where
  "ci_names ci = (\<Union>ob \<in> set (ci_objects ci). object_names ob) \<union> callback_name ` set (ci_callback_interfaces ci) \<union>
     (\<Union>e \<in> set (ci_enums ci). enum_names e) \<union> (\<Union>r \<in> set (ci_records ci). record_names r) \<union>
     (\<lambda>f. cff_name (cfu_ffi_func f)) ` set (ci_functions ci)"

lemma member_names_snoc [simp]:
  "member_names (cs @ [c]) ms ts = insert (cff_name (cco_ffi_func c)) (member_names cs ms ts)"
  "member_names cs (ms @ [m]) ts = insert (cff_name (cme_ffi_func m)) (member_names cs ms ts)"
  "member_names cs ms (ts @ [t]) = (\<lambda>m. cff_name (cme_ffi_func m)) ` set (ctr_methods t) \<union> member_names cs ms ts"
  "member_names [] [] [] = {}"
  by (auto simp: member_names_def)

section \<open>What an item adds\<close>

text \<open>The symbols that the macros export for an item; the methods of callback interfaces are in vtables.\<close>

fun exported_by :: "string set \<Rightarrow> Metadata \<Rightarrow> string set" where
  "exported_by callbacks (Metadata_Func m) = {fn_ffi_symbol_name m}"
| "exported_by callbacks (Metadata_Constructor m) = {ctor_ffi_symbol_name m}"
| "exported_by callbacks (Metadata_Method m) = {meth_ffi_symbol_name m}"
| "exported_by callbacks (Metadata_TraitMethod m) =
     (if tmeth_trait_name m \<in> callbacks then {} else {tmeth_ffi_symbol_name m})"
| "exported_by callbacks (Metadata_Object m) = {obj_clone_ffi_symbol_name m, obj_free_ffi_symbol_name m} \<union>
     (if has_callback_interface (obj_imp m) then {init_callback_vtable_fn_symbol_name (obj_module_path m) (obj_name m)} else {})"
| "exported_by callbacks (Metadata_CallbackInterface m) = {init_callback_vtable_fn_symbol_name (cb_module_path m) (cb_name m)}"
| "exported_by callbacks (Metadata_UniffiTrait t) = meth_ffi_symbol_name ` set (meta_trait_methods t)"
| "exported_by callbacks _ = {}"

fun callback_of :: "Metadata \<Rightarrow> string set" where
  "callback_of (Metadata_CallbackInterface m) = {cb_name m}"
| "callback_of _ = {}"

fun owner_of :: "Metadata \<Rightarrow> string set" where
  "owner_of (Metadata_Object m) = {obj_name m}"
| "owner_of (Metadata_Record m) = {rec_name m}"
| "owner_of (Metadata_Enum m) = {enum_name m}"
| "owner_of _ = {}"

definition callbacks_in :: "ComponentInterface \<Rightarrow> string set" where
  "callbacks_in ci = ccb_name ` set (ci_callback_interfaces ci)"

definition owners_in :: "ComponentInterface \<Rightarrow> string set" where
  "owners_in ci = cob_name ` set (ci_objects ci) \<union> cre_name ` set (ci_records ci) \<union> cen_name ` set (ci_enums ci)"

text \<open>Before the functions are derived, no object has one that registers its vtable.\<close>

definition unregistered :: "ComponentInterface \<Rightarrow> bool" where
  "unregistered ci \<longleftrightarrow> (\<forall>ob \<in> set (ci_objects ci). cob_ffi_init_callback ob = None)"

lemma update_first_Ball: "Ball (set xs) P \<Longrightarrow> (\<And>x. P (f x) = P x) \<Longrightarrow> Ball (set (update_first p f xs)) P"
  by (induction xs) auto

lemma update_first_Union:
  "\<exists>x \<in> set xs. p x \<Longrightarrow> (\<And>x. g (f x) = N \<union> g x) \<Longrightarrow> (\<Union>x \<in> set (update_first p f xs). g x) = N \<union> (\<Union>x \<in> set xs. g x)"
  by (induction xs) auto

lemma update_first_image [simp]: "(\<And>x. g (f x) = g x) \<Longrightarrow> g ` set (update_first p f xs) = g ` set xs"
  by (induction xs) auto

text \<open>An operation that adds names, and leaves the names of the owners and callback interfaces alone.\<close>

definition adds_names :: "string set \<Rightarrow> ComponentInterface \<Rightarrow> ComponentInterface \<Rightarrow> bool" where
  "adds_names N ci ci' \<longleftrightarrow> ci_names ci' = N \<union> ci_names ci \<and> callbacks_in ci' = callbacks_in ci \<and>
     owners_in ci' = owners_in ci \<and> (unregistered ci \<longrightarrow> unregistered ci')"

lemma find_owner_in:
  "find_owner nm ci = Some (Owner_Object ob) \<Longrightarrow> ob \<in> set (ci_objects ci) \<and> cob_name ob = nm"
  "find_owner nm ci = Some (Owner_Record r) \<Longrightarrow> r \<in> set (ci_records ci) \<and> cre_name r = nm"
  "find_owner nm ci = Some (Owner_Enum e) \<Longrightarrow> e \<in> set (ci_enums ci) \<and> cen_name e = nm"
  by (auto simp: find_owner_def dest: find_in split: option.splits)

lemma find_owner_names: "find_owner nm ci = Some own \<Longrightarrow> nm \<in> owners_in ci"
  by (cases own) (auto simp: owners_in_def dest: find_owner_in)

lemma objects_updated:
  assumes "\<exists>x \<in> set (ci_objects ci). p x" "\<And>x. object_names (f x) = N \<union> object_names x" "\<And>x. cob_name (f x) = cob_name x"
    "\<And>x. cob_ffi_init_callback (f x) = cob_ffi_init_callback x"
  shows "adds_names N ci (ci\<lparr>ci_objects := update_first p f (ci_objects ci)\<rparr>)"
  using update_first_Union [OF assms(1), of object_names f N, OF assms(2)] assms(3,4)
    update_first_Ball [of "ci_objects ci" "\<lambda>ob. cob_ffi_init_callback ob = None" f p]
  by (auto simp: adds_names_def ci_names_def callbacks_in_def owners_in_def unregistered_def)

lemma records_updated:
  assumes "\<exists>x \<in> set (ci_records ci). p x" "\<And>x. record_names (f x) = N \<union> record_names x" "\<And>x. cre_name (f x) = cre_name x"
  shows "adds_names N ci (ci\<lparr>ci_records := update_first p f (ci_records ci)\<rparr>)"
  using update_first_Union [OF assms(1), of record_names f N, OF assms(2)] assms(3)
  by (auto simp: adds_names_def ci_names_def callbacks_in_def owners_in_def unregistered_def)

lemma enums_updated:
  assumes "\<exists>x \<in> set (ci_enums ci). p x" "\<And>x. enum_names (f x) = N \<union> enum_names x" "\<And>x. cen_name (f x) = cen_name x"
  shows "adds_names N ci (ci\<lparr>ci_enums := update_first p f (ci_enums ci)\<rparr>)"
  using update_first_Union [OF assms(1), of enum_names f N, OF assms(2)] assms(3)
  by (auto simp: adds_names_def ci_names_def callbacks_in_def owners_in_def unregistered_def)

text \<open>The same items, with other types and errors.\<close>

definition same_items :: "ComponentInterface \<Rightarrow> ComponentInterface \<Rightarrow> bool" where
  "same_items ci ci' \<longleftrightarrow> ci_objects ci' = ci_objects ci \<and> ci_records ci' = ci_records ci \<and> ci_enums ci' = ci_enums ci \<and>
     ci_callback_interfaces ci' = ci_callback_interfaces ci \<and> ci_functions ci' = ci_functions ci"

lemma same_items_learn: "learn_types ts ci = Inr ci' \<Longrightarrow> same_items ci ci'" "learn_error thr ci = Inr ci' \<Longrightarrow> same_items ci ci'"
  by (auto simp: learn_types_def learn_error_def same_items_def ebind_Inr_iff split: option.split)

lemma same_items_trans: "same_items a b \<Longrightarrow> same_items b c \<Longrightarrow> same_items a c"
  by (simp add: same_items_def)

lemma adds_names_same: "same_items ci0 ci \<Longrightarrow> adds_names N ci ci' \<Longrightarrow> adds_names N ci0 ci'"
  by (simp add: same_items_def adds_names_def ci_names_def callbacks_in_def owners_in_def unregistered_def)

lemma same_adds_nothing: "same_items ci ci' \<Longrightarrow> adds_names {} ci ci'"
  by (simp add: same_items_def adds_names_def ci_names_def callbacks_in_def owners_in_def unregistered_def)

lemma push_names:
  assumes "find_owner nm ci0 = Some own" "same_items ci0 ci"
  shows "adds_names {cff_name (cco_ffi_func c)} ci (push_constructor own c ci)"
    "adds_names {cff_name (cme_ffi_func m)} ci (push_method own m ci)"
proof -
  have "case own of Owner_Object ob \<Rightarrow> \<exists>x \<in> set (ci_objects ci). cob_name x = cob_name ob
      | Owner_Record r \<Rightarrow> \<exists>x \<in> set (ci_records ci). cre_name x = cre_name r
      | Owner_Enum e \<Rightarrow> \<exists>x \<in> set (ci_enums ci). cen_name x = cen_name e"
    using assms find_owner_in [of nm ci0] by (cases own) (auto simp: same_items_def)
  then show "adds_names {cff_name (cco_ffi_func c)} ci (push_constructor own c ci)"
    "adds_names {cff_name (cme_ffi_func m)} ci (push_method own m ci)"
    by (cases own; simp; intro objects_updated records_updated enums_updated;
      auto simp: object_names_def record_names_def enum_names_def)+
qed

lemma constructor_adds_names:
  assumes "add_constructor_meta m ci = Inr ci'"
  shows "adds_names {ctor_ffi_symbol_name m} ci ci'"
proof -
  obtain own ci1 ci2 where l: "find_owner (ctor_self_name m) ci = Some own"
    "learn_types (cco_iter_types (cco_from_metadata m)) ci = Inr ci1"
    "learn_error (cco_throws (cco_from_metadata m)) ci1 = Inr ci2" "ci' = push_constructor own (cco_from_metadata m) ci2"
    using assms by (auto simp: add_constructor_meta_def Let_def ebind_Inr_iff split: option.splits)
  have same: "same_items ci ci2" using same_items_trans same_items_learn l(2,3) by blast
  with push_names(1) [OF l(1) same, of "cco_from_metadata m"] adds_names_same l(4) show ?thesis
    by (simp add: cco_from_metadata_def cff_default_def)
qed

lemma method_adds_names:
  assumes "add_method_meta m ci = Inr ci'"
  shows "adds_names {meth_ffi_symbol_name m} ci ci'" "meth_self_name m \<in> owners_in ci"
proof -
  obtain own ci1 ci2 where l: "find_owner (meth_self_name m) ci = Some own"
    "learn_types (cme_iter_types (cme_from_metadata m (owner_as_type own))) ci = Inr ci1"
    "learn_error (cme_throws (cme_from_metadata m (owner_as_type own))) ci1 = Inr ci2"
    "ci' = push_method own (cme_from_metadata m (owner_as_type own)) ci2"
    using assms by (auto simp: add_method_meta_def Let_def ebind_Inr_iff split: option.splits)
  have same: "same_items ci ci2" using same_items_trans same_items_learn l(2,3) by blast
  with push_names(2) [OF l(1) same, of "cme_from_metadata m (owner_as_type own)"] adds_names_same l(4)
  show "adds_names {meth_ffi_symbol_name m} ci ci'" by (simp add: cme_from_metadata_def cff_default_def)
  show "meth_self_name m \<in> owners_in ci" using l(1) by (rule find_owner_names)
qed

lemma trait_names: "(\<lambda>m. cff_name (cme_ffi_func m)) ` set (ctr_methods (ctr_from_metadata t receiver)) =
    meth_ffi_symbol_name ` set (meta_trait_methods t)"
  by (cases t) (auto simp: cme_from_metadata_def)

lemma uniffitrait_adds_names:
  assumes "add_uniffitrait_meta m ci = Inr ci'"
  shows "adds_names (meth_ffi_symbol_name ` set (meta_trait_methods m)) ci ci'"
proof -
  let ?nm = "trait_self_name m"
  obtain receiver where rc: "tu_type_definitions (ci_types ci) ?nm = Some receiver"
    using assms by (auto simp: add_uniffitrait_meta_def Let_def split: option.splits)
  let ?ut = "ctr_from_metadata m receiver"
  obtain ci1 where l: "learn_types (ctr_iter_types ?ut) ci = Inr ci1" and
    r: "(if \<exists>ob \<in> set (ci_objects ci1). cob_name ob = ?nm then
              Inr (ci1\<lparr>ci_objects := update_first (\<lambda>x. cob_name x = ?nm)
                (\<lambda>x. x\<lparr>cob_uniffi_traits := cob_uniffi_traits x @ [?ut]\<rparr>) (ci_objects ci1)\<rparr>)
            else if \<exists>e \<in> set (ci_enums ci1). cen_name e = ?nm then
              Inr (ci1\<lparr>ci_enums := update_first (\<lambda>x. cen_name x = ?nm)
                (\<lambda>x. x\<lparr>cen_uniffi_traits := cen_uniffi_traits x @ [?ut]\<rparr>) (ci_enums ci1)\<rparr>)
            else if \<exists>r \<in> set (ci_records ci1). cre_name r = ?nm then
              Inr (ci1\<lparr>ci_records := update_first (\<lambda>x. cre_name x = ?nm)
                (\<lambda>x. x\<lparr>cre_uniffi_traits := cre_uniffi_traits x @ [?ut]\<rparr>) (ci_records ci1)\<rparr>)
            else Inl (CiErr_no_trait_support ?nm)) = Inr ci'"
    using assms rc by (auto simp: add_uniffitrait_meta_def Let_def ebind_Inr_iff)
  have "adds_names ((\<lambda>m. cff_name (cme_ffi_func m)) ` set (ctr_methods ?ut)) ci1 ci'"
    using r by (auto split: if_splits intro!: objects_updated records_updated enums_updated
        simp: object_names_def record_names_def enum_names_def)
  with adds_names_same [OF same_items_learn(1) [OF l]] show ?thesis by (simp only: trait_names)
qed

text \<open>Every item adds its symbols, and its name to the names of the owners or of the callback interfaces.\<close>

definition item_added :: "string set \<Rightarrow> Metadata \<Rightarrow> ComponentInterface \<Rightarrow> ComponentInterface \<Rightarrow> bool" where
  "item_added callbacks i ci ci' \<longleftrightarrow> ci_names ci' = exported_by callbacks i \<union> ci_names ci \<and>
     callbacks_in ci' = callback_of i \<union> callbacks_in ci \<and> owners_in ci' = owner_of i \<union> owners_in ci \<and>
     (unregistered ci \<longrightarrow> unregistered ci')"

lemma item_added_members:
  "adds_names (exported_by callbacks i) ci ci' \<Longrightarrow> callback_of i = {} \<Longrightarrow> owner_of i = {} \<Longrightarrow> item_added callbacks i ci ci'"
  by (simp add: adds_names_def item_added_def)

lemma item_added_new:
  assumes "same_items ci ci1"
    "ci' \<in> {ci1\<lparr>ci_objects := ci_objects ci1 @ obs, ci_records := ci_records ci1 @ rs, ci_enums := ci_enums ci1 @ es,
       ci_callback_interfaces := ci_callback_interfaces ci1 @ cs, ci_functions := ci_functions ci1 @ fs\<rparr>}"
    "exported_by callbacks i = (\<Union>ob \<in> set obs. object_names ob) \<union> callback_name ` set cs \<union> (\<Union>e \<in> set es. enum_names e) \<union>
       (\<Union>r \<in> set rs. record_names r) \<union> (\<lambda>f. cff_name (cfu_ffi_func f)) ` set fs"
    "callback_of i = ccb_name ` set cs" "owner_of i = cob_name ` set obs \<union> cre_name ` set rs \<union> cen_name ` set es"
    "\<forall>ob \<in> set obs. cob_ffi_init_callback ob = None"
  shows "item_added callbacks i ci ci'"
  using assms by (auto simp: item_added_def same_items_def ci_names_def callbacks_in_def owners_in_def unregistered_def)

lemma callback_method_adds:
  assumes "add_trait_method_meta m ci = Inr ci'" "find (\<lambda>c. ccb_name c = tmeth_trait_name m) (ci_callback_interfaces ci) = Some cbi"
  shows "adds_names {} ci ci'"
proof -
  let ?d = "cme_from_metadata (method_from_trait_method m) (ccb_as_type cbi)"
  let ?ci0 = "case cme_throws ?d of None \<Rightarrow> ci
    | Some error \<Rightarrow> ci\<lparr>ci_callback_interface_throws_types := insert error (ci_callback_interface_throws_types ci)\<rparr>"
  obtain ci1 ci2 where l: "learn_types (cme_iter_types ?d) ?ci0 = Inr ci1" "learn_error (cme_throws ?d) ci1 = Inr ci2" and
    ci': "ci' = ci2\<lparr>ci_callback_interfaces := update_first (\<lambda>c. ccb_name c = tmeth_trait_name m)
      (\<lambda>c. c\<lparr>ccb_methods := ccb_methods c @ [?d]\<rparr>) (ci_callback_interfaces ci2)\<rparr>"
    using assms by (auto simp: add_trait_method_meta_def Let_def ebind_Inr_iff split: if_splits)
  have "same_items ci ?ci0" by (simp add: same_items_def split: option.split)
  with same_items_trans same_items_learn l have "same_items ci ci2" by blast
  moreover have "adds_names {} ci2 ci'"
    by (simp add: ci' adds_names_def ci_names_def callbacks_in_def owners_in_def unregistered_def callback_name_def)
  ultimately show ?thesis by (rule adds_names_same)
qed

text \<open>Here a method of a trait that is no callback interface must find an owner, so its trait cannot become a
  callback interface afterwards.\<close>

lemma trait_method_added:
  assumes "add_trait_method_meta m ci = Inr ci'" "callbacks_in ci \<subseteq> callbacks" "owners_in ci \<inter> callbacks = {}"
  shows "item_added callbacks (Metadata_TraitMethod m) ci ci'"
proof (cases "find (\<lambda>c. ccb_name c = tmeth_trait_name m) (ci_callback_interfaces ci)")
  case None
  with assms(1) have add: "add_method_meta (method_from_trait_method m) ci = Inr ci'" by (simp add: add_trait_method_meta_def)
  have "tmeth_trait_name m \<notin> callbacks"
    using method_adds_names(2) [OF add] assms(3) by (auto simp: method_from_trait_method_def)
  then show ?thesis using method_adds_names(1) [OF add]
    by (intro item_added_members)
      (simp_all add: method_from_trait_method_def meth_ffi_symbol_name_def tmeth_ffi_symbol_name_def)
next
  case (Some cbi)
  with find_in [OF Some] assms(2) have "tmeth_trait_name m \<in> callbacks" by (auto simp: callbacks_in_def)
  with callback_method_adds [OF assms(1) Some] show ?thesis by (intro item_added_members) simp_all
qed

lemma new_item_added:
  assumes "add_item_to_ci i ci = Inr ci'"
    "case i of Metadata_Func m \<Rightarrow> True | Metadata_Record m \<Rightarrow> True | Metadata_Enum m \<Rightarrow> True | Metadata_Object m \<Rightarrow> True
      | Metadata_CallbackInterface m \<Rightarrow> True | _ \<Rightarrow> False"
  shows "item_added callbacks i ci ci'"
proof (cases i)
  case (Metadata_Func m)
  with assms obtain ci1 ci2 where l: "learn_types (cfu_iter_types (cfu_from_metadata m)) ci = Inr ci1"
    "learn_error (cfu_throws (cfu_from_metadata m)) ci1 = Inr ci2"
    "ci' = ci2\<lparr>ci_functions := ci_functions ci2 @ [cfu_from_metadata m]\<rparr>"
    by (auto simp: add_function_definition_def ebind_Inr_iff split: if_splits)
  have "same_items ci ci2" using same_items_trans same_items_learn l(1,2) by blast
  from item_added_new [OF this, where ci' = ci' and obs = "[]" and rs = "[]" and es = "[]"
      and cs = "[]" and fs = "[cfu_from_metadata m]"] l(3) Metadata_Func show ?thesis
    by (simp add: cfu_from_metadata_def)
next
  case (Metadata_Record m)
  with assms obtain ci1 ci2 where l: "learn_types [Type_Record (rec_module_path m) (rec_name m)] ci = Inr ci1"
    "learn_types (cre_iter_types (cre_from_metadata m)) ci1 = Inr ci2"
    "ci' = ci2\<lparr>ci_records := ci_records ci2 @ [cre_from_metadata m]\<rparr>"
    by (auto simp: add_record_definition_def ebind_Inr_iff split: if_splits)
  have "same_items ci ci2" using same_items_trans same_items_learn l(1,2) by blast
  from item_added_new [OF this, where ci' = ci' and obs = "[]" and rs = "[cre_from_metadata m]" and es = "[]"
      and cs = "[]" and fs = "[]"] l(3) Metadata_Record show ?thesis
    by (simp add: cre_from_metadata_def record_names_def)
next
  case (Metadata_Enum m)
  let ?e = "cen_from_metadata m"
  let ?ci1 = "\<lambda>ci1. if shape_is_error (cen_shape ?e) then ci1\<lparr>ci_errors := insert (cen_name ?e) (ci_errors ci1)\<rparr> else ci1"
  from Metadata_Enum assms obtain ci1 where l: "learn_types [Type_Enum (enum_module_path m) (enum_name m)] ci = Inr ci1"
    "add_enum_definition ?e ci1 = Inr ci'" by (auto simp: ebind_Inr_iff)
  then obtain ci2 where l2: "learn_types (cen_iter_types ?e) (?ci1 ci1) = Inr ci2" "ci' = ci2\<lparr>ci_enums := ci_enums ci2 @ [?e]\<rparr>"
    by (cases "shape_is_error (cen_shape ?e)") (auto simp: add_enum_definition_def ebind_Inr_iff split: if_splits)
  have "same_items ci1 (?ci1 ci1)" by (simp add: same_items_def)
  with same_items_trans same_items_learn l(1) l2(1) have "same_items ci ci2" by blast
  from item_added_new [OF this, where ci' = ci' and obs = "[]" and rs = "[]" and es = "[?e]"
      and cs = "[]" and fs = "[]"] l2(2) Metadata_Enum show ?thesis
    by (simp add: cen_from_metadata_def enum_names_def)
next
  case (Metadata_Object m)
  let ?o = "cob_from_metadata m"
  from Metadata_Object assms obtain ci1 ci2 ci3 where l: "learn_types [Type_Object (obj_module_path m) (obj_name m) (obj_imp m)] ci = Inr ci1"
    "learn_types [cob_as_type ?o] ci1 = Inr ci2" "learn_types (cob_iter_types ?o) ci2 = Inr ci3"
    "ci' = ci3\<lparr>ci_objects := ci_objects ci3 @ [?o]\<rparr>" by (auto simp: add_object_meta_def Let_def ebind_Inr_iff)
  have "same_items ci ci3" using same_items_trans same_items_learn(1) l(1-3) by blast
  from item_added_new [OF this, where ci' = ci' and obs = "[?o]" and rs = "[]" and es = "[]"
      and cs = "[]" and fs = "[]"] l(4) Metadata_Object show ?thesis
    by (simp add: cob_from_metadata_def object_names_def)
next
  case (Metadata_CallbackInterface m)
  let ?c = "ccb_from_metadata m"
  from Metadata_CallbackInterface assms obtain ci1 ci2 where l: "learn_types [ccb_as_type ?c] ci = Inr ci1"
    "learn_types (ccb_iter_types ?c) ci1 = Inr ci2" "ci' = ci2\<lparr>ci_callback_interfaces := ci_callback_interfaces ci2 @ [?c]\<rparr>"
    by (auto simp: add_callback_interface_definition_def ebind_Inr_iff)
  have "same_items ci ci2" using same_items_trans same_items_learn(1) l(1,2) by blast
  from item_added_new [OF this, where ci' = ci' and obs = "[]" and rs = "[]" and es = "[]"
      and cs = "[?c]" and fs = "[]"] l(3) Metadata_CallbackInterface show ?thesis
    by (simp add: ccb_from_metadata_def callback_name_def)
qed (use assms in simp_all)

lemma item_adds_symbols:
  assumes "add_item_to_ci i ci = Inr ci'" "callbacks_in ci \<subseteq> callbacks" "owners_in ci \<inter> callbacks = {}"
  shows "item_added callbacks i ci ci'"
proof (cases i)
  case (Metadata_TraitMethod m)
  with assms trait_method_added show ?thesis by simp
next
  case (Metadata_CustomType m)
  with assms(1) obtain ci1 where l: "learn_types [Type_Custom (custom_module_path m) (custom_name m) (custom_builtin m)] ci = Inr ci1"
    "add_custom_type_definition (ccu_from_metadata m) ci1 = Inr ci'" by (auto simp: ebind_Inr_iff)
  have "same_items ci1 ci'" using l(2)
    by (cases "find (\<lambda>c. ccu_name c = ccu_name (ccu_from_metadata m)) (ci_custom_types ci1)")
      (auto simp: add_custom_type_definition_def same_items_def split: if_splits)
  with same_items_learn(1) [OF l(1)] same_items_trans same_adds_nothing Metadata_CustomType show ?thesis
    by (intro item_added_members) auto
next
  case (Metadata_ObjectTraitImpl m)
  with assms(1) obtain nm where ob: "\<exists>ob \<in> set (ci_objects ci). cob_name ob = nm" and
    "ci' = ci\<lparr>ci_objects := update_first (\<lambda>x. cob_name x = nm) (\<lambda>x. x\<lparr>cob_trait_impls := cob_trait_impls x @ [m]\<rparr>) (ci_objects ci)\<rparr>"
    by (auto simp: add_object_trait_impl_def split: option.splits if_splits)
  with objects_updated [OF ob, of "\<lambda>x. x\<lparr>cob_trait_impls := cob_trait_impls x @ [m]\<rparr>" "{}"] Metadata_ObjectTraitImpl show ?thesis
    by (intro item_added_members) (simp_all add: object_names_def)
qed (use assms new_item_added [OF assms(1)] constructor_adds_names method_adds_names(1) uniffitrait_adds_names same_adds_nothing [of ci ci]
    in \<open>auto intro!: item_added_members simp: same_items_def\<close>)

lemma items_added:
  assumes "efold add_item_to_ci items ci = Inr ci'" "callbacks_in ci \<union> (\<Union>i \<in> set items. callback_of i) \<subseteq> callbacks"
    "(owners_in ci \<union> (\<Union>i \<in> set items. owner_of i)) \<inter> callbacks = {}"
  shows "ci_names ci' = (\<Union>i \<in> set items. exported_by callbacks i) \<union> ci_names ci \<and> (unregistered ci \<longrightarrow> unregistered ci')"
  using assms
proof (induction items arbitrary: ci)
  case (Cons i items)
  then obtain ci1 where ci1: "add_item_to_ci i ci = Inr ci1" "efold add_item_to_ci items ci1 = Inr ci'"
    by (auto simp: ebind_Inr_iff)
  have "item_added callbacks i ci ci1"
    by (rule item_adds_symbols [OF ci1(1)]) (use Cons.prems(2,3) in auto)
  then have added: "ci_names ci1 = exported_by callbacks i \<union> ci_names ci" "callbacks_in ci1 = callback_of i \<union> callbacks_in ci"
    "owners_in ci1 = owner_of i \<union> owners_in ci" "unregistered ci \<longrightarrow> unregistered ci1" by (simp_all add: item_added_def)
  have "ci_names ci' = (\<Union>i \<in> set items. exported_by callbacks i) \<union> ci_names ci1 \<and> (unregistered ci1 \<longrightarrow> unregistered ci')"
    by (rule Cons.IH [OF ci1(2)]) (use Cons.prems(2,3) in \<open>auto simp: added(2,3)\<close>)
  then show ?case using added(4) by (auto simp: added(1))
qed simp

text \<open>An owner and a callback interface of the same name would be two types of one name.\<close>

lemma owners_no_callbacks:
  assumes "ci_from_metadata namespace docstring items = Inr ci"
  shows "(\<Union>i \<in> set items. owner_of i) \<inter> (\<Union>i \<in> set items. callback_of i) = {}"
proof (rule ccontr)
  assume "\<not> ?thesis"
  then obtain nm i j where ij: "i \<in> set items" "j \<in> set items" "nm \<in> owner_of i" "nm \<in> callback_of j" by auto
  have all: "all_learned (item_types i) ci" "all_learned (item_types j) ci" using interface_learned(2) [OF assms] ij by blast+
  obtain mp where cb: "learned (Type_CallbackInterface mp nm) (ci_types ci)"
    using ij(4) all(2) by (cases j) (auto simp: all_learned_def)
  obtain t where t: "learned t (ci_types ci)" "type_name t = Some nm" "normalize_type_module_path t \<noteq> Type_CallbackInterface (crate_name mp) nm"
    using ij(3) all(1) by (cases i) (auto simp: all_learned_def)
  from one_name_one_type [OF cb t(1) _ t(2)] t(3) show False by simp
qed

section \<open>Deriving the functions\<close>

lemma emap_ok: "(\<And>x. x \<in> set xs \<Longrightarrow> \<exists>y. f x = Inr y \<and> P x y) \<Longrightarrow> \<exists>ys. emap f xs = Inr ys \<and> list_all2 P xs ys"
  by (induction xs) fastforce+

lemma Union_list_all2: "list_all2 (\<lambda>x y. g y = h x) xs ys \<Longrightarrow> (\<Union>y \<in> set ys. g y) = (\<Union>x \<in> set xs. h x)"
  by (induction rule: list_all2_induct) auto

lemma image_list_all2: "list_all2 (\<lambda>x y. g y = h x) xs ys \<Longrightarrow> g ` set ys = h ` set xs"
  by (induction rule: list_all2_induct) auto

lemma cff_init_name [simp]: "cff_name (cff_init r args f) = cff_name f"
  by (simp add: cff_init_def Let_def)

lemma member_derive_ok:
  "cff_name (cco_ffi_func c) \<noteq> '''' \<Longrightarrow> \<exists>c'. cco_derive c = Inr c' \<and> cff_name (cco_ffi_func c') = cff_name (cco_ffi_func c)"
  "cff_name (cme_ffi_func m) \<noteq> '''' \<Longrightarrow> \<exists>m'. cme_derive m = Inr m' \<and> cff_name (cme_ffi_func m') = cff_name (cme_ffi_func m)"
  "cff_name (cfu_ffi_func f) \<noteq> '''' \<Longrightarrow> \<exists>f'. cfu_derive f = Inr f' \<and> cff_name (cfu_ffi_func f') = cff_name (cfu_ffi_func f)"
  by (simp_all add: cco_derive_def cme_derive_def cfu_derive_def)

lemma trait_derive_ok:
  assumes "'''' \<notin> (\<lambda>m. cff_name (cme_ffi_func m)) ` set (ctr_methods t)"
  shows "\<exists>t'. ctr_derive t = Inr t' \<and>
    (\<lambda>m. cff_name (cme_ffi_func m)) ` set (ctr_methods t') = (\<lambda>m. cff_name (cme_ffi_func m)) ` set (ctr_methods t)"
  using assms by (cases t) (auto simp: cme_derive_def)

lemma members_derive_ok:
  assumes "'''' \<notin> member_names cs ms ts"
  shows "\<exists>cs' ms' ts'. emap cco_derive cs = Inr cs' \<and> emap cme_derive ms = Inr ms' \<and> emap ctr_derive ts = Inr ts' \<and>
    member_names cs' ms' ts' = member_names cs ms ts"
proof -
  let ?n = "\<lambda>m. cff_name (cme_ffi_func m)"
  have ok: "\<And>c. c \<in> set cs \<Longrightarrow> cff_name (cco_ffi_func c) \<noteq> ''''" "\<And>m. m \<in> set ms \<Longrightarrow> ?n m \<noteq> ''''"
    "\<And>t. t \<in> set ts \<Longrightarrow> '''' \<notin> ?n ` set (ctr_methods t)" using assms by (force simp: member_names_def)+
  obtain cs' where cs: "emap cco_derive cs = Inr cs'" "list_all2 (\<lambda>c c'. cff_name (cco_ffi_func c') = cff_name (cco_ffi_func c)) cs cs'"
    using emap_ok [of cs cco_derive "\<lambda>c c'. cff_name (cco_ffi_func c') = cff_name (cco_ffi_func c)"] ok(1) member_derive_ok(1) by blast
  obtain ms' where ms: "emap cme_derive ms = Inr ms'" "list_all2 (\<lambda>m m'. ?n m' = ?n m) ms ms'"
    using emap_ok [of ms cme_derive "\<lambda>m m'. ?n m' = ?n m"] ok(2) member_derive_ok(2) by blast
  obtain ts' where ts: "emap ctr_derive ts = Inr ts'" "list_all2 (\<lambda>t t'. ?n ` set (ctr_methods t') = ?n ` set (ctr_methods t)) ts ts'"
    using emap_ok [of ts ctr_derive "\<lambda>t t'. ?n ` set (ctr_methods t') = ?n ` set (ctr_methods t)"] ok(3) trait_derive_ok by blast
  have "member_names cs' ms' ts' = member_names cs ms ts"
    unfolding member_names_def using image_list_all2 [OF cs(2)] image_list_all2 [OF ms(2)] Union_list_all2 [OF ts(2)] by simp
  with cs(1) ms(1) ts(1) show ?thesis by blast
qed

lemma functions_of_members: "cff_name ` set (member_ffi_functions cs ms ts) = member_names cs ms ts"
  by (simp add: member_ffi_functions_def member_names_def image_Un image_image image_UN Un_assoc)

lemma object_derive_ok:
  assumes "'''' \<notin> object_names ob"
  shows "\<exists>ob'. cob_derive ob = Inr ob' \<and> cff_name ` set (cob_ffi_functions ob') = object_names ob"
proof -
  from assms have "'''' \<notin> member_names (cob_constructors ob) (cob_methods ob) (cob_uniffi_traits ob)" by (simp add: object_names_def)
  with members_derive_ok obtain cs ms ts where d: "emap cco_derive (cob_constructors ob) = Inr cs"
    "emap cme_derive (cob_methods ob) = Inr ms" "emap ctr_derive (cob_uniffi_traits ob) = Inr ts"
    "member_names cs ms ts = member_names (cob_constructors ob) (cob_methods ob) (cob_uniffi_traits ob)" by blast
  from d(4) functions_of_members have m: "cff_name ` set (member_ffi_functions cs ms ts) =
    member_names (cob_constructors ob) (cob_methods ob) (cob_uniffi_traits ob)" by simp
  have "cff_name (cob_ffi_func_clone ob) \<noteq> ''''" "cff_name (cob_ffi_func_free ob) \<noteq> ''''"
    using assms by (auto simp: object_names_def)
  with d(1-3) m show ?thesis
    by (cases "cob_ffi_init_callback ob") (auto simp: cob_derive_def object_names_def cob_ffi_functions_def callback_init_def image_Un)
qed

lemma enum_derive_ok:
  assumes "'''' \<notin> enum_names e"
  shows "\<exists>e'. cen_derive e = Inr e' \<and> cff_name ` set (cen_ffi_functions e') = enum_names e"
proof -
  from members_derive_ok [OF assms [unfolded enum_names_def]] obtain cs ms ts where "emap cco_derive (cen_constructors e) = Inr cs"
    "emap cme_derive (cen_methods e) = Inr ms" "emap ctr_derive (cen_uniffi_traits e) = Inr ts" "member_names cs ms ts = enum_names e"
    by (auto simp: enum_names_def)
  then show ?thesis by (simp add: cen_derive_def cen_ffi_functions_def functions_of_members)
qed

lemma record_derive_ok:
  assumes "'''' \<notin> record_names r"
  shows "\<exists>r'. cre_derive r = Inr r' \<and> cff_name ` set (cre_ffi_functions r') = record_names r"
proof -
  from members_derive_ok [OF assms [unfolded record_names_def]] obtain cs ms ts where "emap cco_derive (cre_constructors r) = Inr cs"
    "emap cme_derive (cre_methods r) = Inr ms" "emap ctr_derive (cre_uniffi_traits r) = Inr ts" "member_names cs ms ts = record_names r"
    by (auto simp: record_names_def)
  then show ?thesis by (simp add: cre_derive_def cre_ffi_functions_def functions_of_members)
qed

text \<open>Deriving succeeds unless a name is empty, and declares exactly the names.\<close>

lemma derive_declares_names:
  assumes "'''' \<notin> ci_names ci"
  shows "\<exists>ci'. derive_ffi_funcs ci = Inr ci' \<and> cff_name ` set (iter_user_ffi_function_definitions ci') = ci_names ci"
proof -
  let ?P = "\<lambda>ob ob'. cff_name ` set (cob_ffi_functions ob') = object_names ob"
  let ?Q = "\<lambda>e e'. cff_name ` set (cen_ffi_functions e') = enum_names e"
  let ?R = "\<lambda>r r'. cff_name ` set (cre_ffi_functions r') = record_names r"
  let ?S = "\<lambda>f f'. cff_name (cfu_ffi_func f') = cff_name (cfu_ffi_func f)"
  have ok: "\<And>ob. ob \<in> set (ci_objects ci) \<Longrightarrow> '''' \<notin> object_names ob" "\<And>e. e \<in> set (ci_enums ci) \<Longrightarrow> '''' \<notin> enum_names e"
    "\<And>r. r \<in> set (ci_records ci) \<Longrightarrow> '''' \<notin> record_names r" "\<And>f. f \<in> set (ci_functions ci) \<Longrightarrow> cff_name (cfu_ffi_func f) \<noteq> ''''"
    using assms by (force simp: ci_names_def)+
  obtain obs where o: "emap cob_derive (ci_objects ci) = Inr obs" "list_all2 ?P (ci_objects ci) obs"
    using emap_ok [of "ci_objects ci" cob_derive ?P] ok(1) object_derive_ok by blast
  obtain es where e: "emap cen_derive (ci_enums ci) = Inr es" "list_all2 ?Q (ci_enums ci) es"
    using emap_ok [of "ci_enums ci" cen_derive ?Q] ok(2) enum_derive_ok by blast
  obtain rs where r: "emap cre_derive (ci_records ci) = Inr rs" "list_all2 ?R (ci_records ci) rs"
    using emap_ok [of "ci_records ci" cre_derive ?R] ok(3) record_derive_ok by blast
  obtain fs where f: "emap cfu_derive (ci_functions ci) = Inr fs" "list_all2 ?S (ci_functions ci) fs"
    using emap_ok [of "ci_functions ci" cfu_derive ?S] ok(4) member_derive_ok(3) by blast
  let ?ci' = "ci\<lparr>ci_functions := fs, ci_objects := obs, ci_enums := es, ci_records := rs,
    ci_callback_interfaces := map ccb_derive (ci_callback_interfaces ci)\<rparr>"
  have "derive_ffi_funcs ci = Inr ?ci'" by (simp add: derive_ffi_funcs_def o e r f)
  moreover have "cff_name ` set (iter_user_ffi_function_definitions ?ci') = ci_names ci"
    using Union_list_all2 [OF o(2)] Union_list_all2 [OF e(2)] Union_list_all2 [OF r(2)] image_list_all2 [OF f(2)]
    by (simp add: iter_user_ffi_function_definitions_def ci_names_def image_Un image_UN image_image ccb_derive_def
        callback_init_def callback_name_def Un_assoc)
  ultimately show ?thesis by blast
qed

lemma exported_names_ok: "'''' \<notin> exported_by callbacks i"
  by (cases i) (auto simp: symbol_name_defs fn_ffi_symbol_name_def ctor_ffi_symbol_name_def meth_ffi_symbol_name_def
      tmeth_ffi_symbol_name_def obj_clone_ffi_symbol_name_def obj_free_ffi_symbol_name_def)

text \<open>The names in an interface that was built from a group.\<close>

lemma interface_names:
  assumes "ci_from_metadata namespace docstring items = Inr ci"
  shows "ci_names ci = (\<Union>i \<in> set items. exported_by {cb_name m |m. Metadata_CallbackInterface m \<in> set items} i)" "unregistered ci"
proof -
  obtain ci0 ci1 u where r: "ci0 = (ci_new namespace)\<lparr>ci_types := u\<rparr>" "efold add_item_to_ci items ci0 = Inr ci1"
    "ci = ci_infer_recursive_types ci1" using ci_from_metadata_run [OF assms] by metis
  let ?callbacks = "{cb_name m |m. Metadata_CallbackInterface m \<in> set items}"
  have cbs: "(\<Union>i \<in> set items. callback_of i) = ?callbacks"
  proof -
    have "callback_of i = {cb_name m |m. i = Metadata_CallbackInterface m}" for i by (cases i) simp_all
    then show ?thesis by auto
  qed
  have none: "callbacks_in ci0 = {}" "owners_in ci0 = {}" "ci_names ci0 = {}" "unregistered ci0"
    by (simp_all add: r(1) ci_new_def callbacks_in_def owners_in_def ci_names_def unregistered_def)
  have "ci_names ci1 = (\<Union>i \<in> set items. exported_by ?callbacks i) \<union> ci_names ci0 \<and> (unregistered ci0 \<longrightarrow> unregistered ci1)"
    by (rule items_added [OF r(2)]) (use owners_no_callbacks [OF assms] in \<open>simp_all add: none cbs\<close>)
  moreover have "ci_names ci = ci_names ci1" "unregistered ci = unregistered ci1"
    by (simp_all add: r(3) ci_infer_recursive_types_def ci_names_def unregistered_def)
  ultimately show "ci_names ci = (\<Union>i \<in> set items. exported_by ?callbacks i)" "unregistered ci" by (simp_all add: none)
qed

lemma interface_derived:
  assumes "ci_from_metadata namespace docstring items = Inr ci"
  shows "\<exists>ci'. derive_ffi_funcs ci = Inr ci' \<and> cff_name ` set (iter_user_ffi_function_definitions ci') = ci_names ci"
proof (rule derive_declares_names)
  show "[] \<notin> ci_names ci" using exported_names_ok by (auto simp: interface_names(1) [OF assms])
qed

definition small_interface :: "CiError + ComponentInterface" where
  "small_interface = ci_from_metadata \<lparr>ns_crate_name = ''c'', ns_name = ''n''\<rparr> None
     [Metadata_CallbackInterface \<lparr>cb_module_path = ''c'', cb_name = ''A'', cb_docstring = None\<rparr>]"

lemma small_interface_built: "\<exists>ci. small_interface = Inr ci"
proof -
  have "(case small_interface of Inr ci \<Rightarrow> True | Inl e \<Rightarrow> False)" by code_simp
  then show ?thesis by (auto split: sum.splits)
qed

text \<open>C7: for a component interface that is built from a metadata group, deriving the FFI functions never
  panics, and the functions that the interface then declares for its items are exactly those that the macros
  export for the items of the group: functions, constructors, methods, trait methods, the clone and free
  functions of objects, and the functions that register vtables.\<close>

theorem interface_declares_exports:
  assumes "ci_from_metadata namespace docstring items = Inr ci"
  shows "\<exists>ci'. derive_ffi_funcs ci = Inr ci' \<and>
    cff_name ` set (iter_user_ffi_function_definitions ci') =
      (\<Union>i \<in> set items. exported_by {cb_name m |m. Metadata_CallbackInterface m \<in> set items} i)"
  using interface_derived [OF assms] by (simp add: interface_names(1) [OF assms])

theorem interface_declares_exports_witness:
  "\<exists>ci ci'. small_interface = Inr ci \<and> derive_ffi_funcs ci = Inr ci' \<and>
     cff_name ` set (iter_user_ffi_function_definitions ci') = {''uniffi_c_fn_init_callback_vtable_a''}"
proof -
  obtain ci where ci: "small_interface = Inr ci" using small_interface_built ..
  have "init_callback_vtable_fn_symbol_name ''c'' ''A'' = ''uniffi_c_fn_init_callback_vtable_a''" by code_simp
  with interface_declares_exports [OF ci [unfolded small_interface_def]] have "\<exists>ci'. derive_ffi_funcs ci = Inr ci' \<and>
    cff_name ` set (iter_user_ffi_function_definitions ci') = {''uniffi_c_fn_init_callback_vtable_a''}" by simp
  then obtain ci' where d: "derive_ffi_funcs ci = Inr ci'"
    "cff_name ` set (iter_user_ffi_function_definitions ci') = {''uniffi_c_fn_init_callback_vtable_a''}"
    by (elim exE conjE) (rule that)
  show ?thesis by (intro exI conjI) (rule ci d)+
qed

end
