(* ===== verification/CiOrder.thy ===== *)
theory CiOrder
  imports CiSymbols
begin

text \<open>
  The order of the FFI definitions of a component interface: languages in which an item must be declared
  before it is referred to can emit them as they come.
\<close>

section \<open>What a definition declares and refers to\<close>

datatype CRefKind = CRef_Callback | CRef_Struct

fun cffi_type_refs :: "CFfiType \<Rightarrow> (CRefKind \<times> string) set" where
  "cffi_type_refs (CFfi_Callback nm) = {(CRef_Callback, nm)}"
| "cffi_type_refs (CFfi_Struct nm) = {(CRef_Struct, nm)}"
| "cffi_type_refs (CFfi_Reference t) = cffi_type_refs t"
| "cffi_type_refs (CFfi_MutReference t) = cffi_type_refs t"
| "cffi_type_refs _ = {}"

definition signature_refs :: "CFfiArgument list \<Rightarrow> CFfiType option \<Rightarrow> (CRefKind \<times> string) set" where
  "signature_refs args return_type =
     (\<Union>a \<in> set args. cffi_type_refs (cfa_type a)) \<union> (\<Union>t \<in> set_option return_type. cffi_type_refs t)"

fun definition_refs :: "CFfiDefinition \<Rightarrow> (CRefKind \<times> string) set" where
  "definition_refs (CFfiDef_Function f) = signature_refs (cff_arguments f) (cff_return_type f)"
| "definition_refs (CFfiDef_CallbackFunction f) = signature_refs (cfc_arguments f) (cfc_return_type f)"
| "definition_refs (CFfiDef_Struct s) = (\<Union>fd \<in> set (cfs_fields s). cffi_type_refs (cfi_type fd))"

fun definition_declares :: "CFfiDefinition \<Rightarrow> (CRefKind \<times> string) set" where
  "definition_declares (CFfiDef_Function f) = {}"
| "definition_declares (CFfiDef_CallbackFunction f) = {(CRef_Callback, cfc_name f)}"
| "definition_declares (CFfiDef_Struct s) = {(CRef_Struct, cfs_name s)}"

text \<open>Every definition refers only to what was known before or declared ahead of it.\<close>

fun defined_in_order :: "(CRefKind \<times> string) set \<Rightarrow> CFfiDefinition list \<Rightarrow> bool" where
  "defined_in_order known [] = True"
| "defined_in_order known (d # ds) =
     (definition_refs d \<subseteq> known \<and> defined_in_order (definition_declares d \<union> known) ds)"

lemma defined_in_order_append:
  "defined_in_order known (ds @ es) \<longleftrightarrow>
     defined_in_order known ds \<and> defined_in_order ((\<Union>d \<in> set ds. definition_declares d) \<union> known) es"
  by (induction ds arbitrary: known) (auto simp: Un_ac)

lemma defined_in_order_mono: "defined_in_order known ds \<Longrightarrow> known \<subseteq> known' \<Longrightarrow> defined_in_order known' ds"
proof (induction ds arbitrary: known known')
  case (Cons d ds)
  have "definition_declares d \<union> known \<subseteq> definition_declares d \<union> known'" using Cons.prems(2) by blast
  with Cons show ?case by auto
qed simp

lemma defined_in_order_all: "(\<And>d. d \<in> set ds \<Longrightarrow> definition_refs d \<subseteq> known) \<Longrightarrow> defined_in_order known ds"
  by (induction ds arbitrary: known) (auto intro: defined_in_order_mono)

text \<open>Where a function refers to what is known anyway, its place does not matter.\<close>

lemma defined_in_order_concat:
  "(\<And>ds. ds \<in> set dss \<Longrightarrow> defined_in_order known ds) \<Longrightarrow> defined_in_order known (concat dss)"
  by (induction dss arbitrary: known) (auto simp: defined_in_order_append intro: defined_in_order_mono)

section \<open>Signatures\<close>

lemma ffi_type_of_refs [simp]: "cffi_type_refs (ffi_type_of t) = {}"
  by (induction t rule: ffi_type_of.induct) (auto split: CFfiType.split option.split)

lemma carg_refs [simp]: "cffi_type_refs (cfa_type (carg_ffi_argument a)) = {}"
  by (simp add: carg_ffi_argument_def)

lemma cargs_refs [simp]: "signature_refs (map carg_ffi_argument args) (map_option ffi_type_of r) = {}"
  "signature_refs (map carg_ffi_argument args) (Some CFfi_Handle) = {}"
  by (auto simp: signature_refs_def)

definition function_refs :: "CFfiFunction \<Rightarrow> (CRefKind \<times> string) set" where
  "function_refs f = signature_refs (cff_arguments f) (cff_return_type f)"

lemma init_refs: "function_refs (cff_init (map_option ffi_type_of r) (map carg_ffi_argument args) f) = {}"
  "function_refs (cff_init (Some CFfi_Handle) (map carg_ffi_argument args) f) = {}"
  by (simp_all add: function_refs_def cff_init_def Let_def)

lemma callback_init_refs: "function_refs (callback_init mp nm vt) = {(CRef_Struct, vt)}"
  by (simp add: function_refs_def callback_init_def cff_default_def signature_refs_def)

lemma derive_refs:
  "cco_derive c = Inr c' \<Longrightarrow> function_refs (cco_ffi_func c') = {}"
  "cme_derive m = Inr m' \<Longrightarrow> function_refs (cme_ffi_func m') = {}"
  "cfu_derive f = Inr f' \<Longrightarrow> function_refs (cfu_ffi_func f') = {}"
  by (auto simp: cco_derive_def cme_derive_def cfu_derive_def init_refs split: if_splits)

lemma trait_derive_refs: "ctr_derive t = Inr t' \<Longrightarrow> m \<in> set (ctr_methods t') \<Longrightarrow> function_refs (cme_ffi_func m) = {}"
  by (cases t) (auto simp: ebind_Inr_iff derive_refs)

lemma members_derive_refs:
  assumes "emap cco_derive cs = Inr cs'" "emap cme_derive ms = Inr ms'" "emap ctr_derive ts = Inr ts'"
    "f \<in> set (member_ffi_functions cs' ms' ts')"
  shows "function_refs f = {}"
  using assms(4) emap_mem [OF assms(1)] emap_mem [OF assms(2)] emap_mem [OF assms(3)] derive_refs(1,2) trait_derive_refs
  unfolding member_ffi_functions_def by (auto, blast+)

lemma object_derive_refs:
  assumes "cob_derive ob = Inr ob'" "cob_ffi_init_callback ob = None" "f \<in> set (cob_ffi_functions ob')"
  shows "function_refs f \<subseteq> (if has_callback_interface (cob_imp ob') then {(CRef_Struct, vtable_name_of (cob_name ob'))} else {})"
proof -
  obtain cs ms ts where d: "emap cco_derive (cob_constructors ob) = Inr cs" "emap cme_derive (cob_methods ob) = Inr ms"
    "emap ctr_derive (cob_uniffi_traits ob) = Inr ts" and
    ob': "ob' = ob\<lparr>cob_ffi_func_clone := (cob_ffi_func_clone ob)
              \<lparr>cff_arguments := [cffi_arg ''handle'' CFfi_Handle], cff_return_type := Some CFfi_Handle\<rparr>,
            cob_ffi_func_free := (cob_ffi_func_free ob)
              \<lparr>cff_arguments := [cffi_arg ''handle'' CFfi_Handle], cff_return_type := None,
               cff_is_object_free_function := True\<rparr>,
            cob_ffi_init_callback :=
              (if has_callback_interface (cob_imp ob)
               then Some (callback_init (cob_module_path ob) (cob_name ob) (vtable_name_of (cob_name ob)))
               else cob_ffi_init_callback ob),
            cob_constructors := cs, cob_methods := ms, cob_uniffi_traits := ts\<rparr>"
    using assms(1) by (auto simp: cob_derive_def ebind_Inr_iff split: if_splits)
  consider "f = cob_ffi_func_clone ob'" | "f = cob_ffi_func_free ob'" | "cob_ffi_init_callback ob' = Some f"
    | "f \<in> set (member_ffi_functions cs ms ts)"
    using assms(3) by (auto simp: cob_ffi_functions_def ob' split: option.splits if_splits)
  then show ?thesis
  proof cases
    case 4
    with members_derive_refs [OF d] show ?thesis by simp
  qed (auto simp: ob' assms(2) callback_init_refs function_refs_def [of "_\<lparr>cff_return_type := _\<rparr>"] signature_refs_def
      function_refs_def [of "_\<lparr>cff_is_object_free_function := _\<rparr>"] split: if_splits)
qed

lemma enum_derive_refs: "cen_derive e = Inr e' \<Longrightarrow> f \<in> set (cen_ffi_functions e') \<Longrightarrow> function_refs f = {}"
  by (auto simp: cen_derive_def cen_ffi_functions_def ebind_Inr_iff dest: members_derive_refs)

lemma record_derive_refs: "cre_derive r = Inr r' \<Longrightarrow> f \<in> set (cre_ffi_functions r') \<Longrightarrow> function_refs f = {}"
  by (auto simp: cre_derive_def cre_ffi_functions_def ebind_Inr_iff dest: members_derive_refs)

definition vtable_keys :: "ComponentInterface \<Rightarrow> (CRefKind \<times> string) set" where
  "vtable_keys ci = (\<lambda>s. (CRef_Struct, cfs_name s)) ` set (callback_interface_vtable_definitions ci)"

lemma vtable_keysI:
  "c \<in> set (ci_callback_interfaces ci) \<Longrightarrow> (CRef_Struct, vtable_name_of (ccb_name c)) \<in> vtable_keys ci"
  "ob \<in> set (ci_objects ci) \<Longrightarrow> is_trait_interface (cob_imp ob) \<Longrightarrow> (CRef_Struct, vtable_name_of (cob_name ob)) \<in> vtable_keys ci"
  by (force simp: vtable_keys_def callback_interface_vtable_definitions_def ccb_vtable_definition_def cob_vtable_definition_def
      ci_vtable_struct_def List.map_filter_def)+

lemma has_callback_is_trait: "has_callback_interface imp \<Longrightarrow> is_trait_interface imp"
  by (cases imp rule: has_callback_interface.cases) simp_all

text \<open>The functions of the items refer to vtables only.\<close>

lemma user_function_refs:
  assumes "derive_ffi_funcs ci = Inr ci'" "unregistered ci" "f \<in> set (iter_user_ffi_function_definitions ci')"
  shows "function_refs f \<subseteq> vtable_keys ci'"
proof -
  obtain fs obs es rs where d: "emap cfu_derive (ci_functions ci) = Inr fs" "emap cob_derive (ci_objects ci) = Inr obs"
    "emap cen_derive (ci_enums ci) = Inr es" "emap cre_derive (ci_records ci) = Inr rs" and
    ci': "ci' = ci\<lparr>ci_functions := fs, ci_objects := obs, ci_enums := es, ci_records := rs,
      ci_callback_interfaces := map ccb_derive (ci_callback_interfaces ci)\<rparr>"
    using assms(1) by (auto simp: derive_ffi_funcs_def ebind_Inr_iff)
  consider ob where "ob \<in> set obs" "f \<in> set (cob_ffi_functions ob)" | c where "c \<in> set (ci_callback_interfaces ci)" "f = ccb_ffi_init_callback (ccb_derive c)"
    | e where "e \<in> set es" "f \<in> set (cen_ffi_functions e)" | r where "r \<in> set rs" "f \<in> set (cre_ffi_functions r)"
    | g where "g \<in> set fs" "f = cfu_ffi_func g"
    using assms(3) by (auto simp: iter_user_ffi_function_definitions_def ci')
  then show ?thesis
  proof cases
    case 1
    from emap_mem [OF d(2) 1(1)] obtain ob0 where "ob0 \<in> set (ci_objects ci)" "cob_derive ob0 = Inr ob" by blast
    with object_derive_refs [of ob0 ob f] 1(2) assms(2)
    have "function_refs f \<subseteq> (if has_callback_interface (cob_imp ob) then {(CRef_Struct, vtable_name_of (cob_name ob))} else {})"
      by (simp add: unregistered_def)
    moreover have "(CRef_Struct, vtable_name_of (cob_name ob)) \<in> vtable_keys ci'" if "has_callback_interface (cob_imp ob)"
      by (rule vtable_keysI(2)) (use 1(1) has_callback_is_trait [OF that] ci' in simp_all)
    ultimately show ?thesis by (auto split: if_splits)
  next
    case 2
    have "(CRef_Struct, vtable_name_of (ccb_name (ccb_derive c))) \<in> vtable_keys ci'"
      by (rule vtable_keysI(1)) (use 2(1) ci' in simp)
    with 2(2) show ?thesis by (simp add: ccb_derive_def callback_init_refs)
  next
    case 3
    with emap_mem [OF d(3)] enum_derive_refs show ?thesis by blast
  next
    case 4
    with emap_mem [OF d(4)] record_derive_refs show ?thesis by blast
  next
    case 5
    with emap_mem [OF d(1)] derive_refs(3) show ?thesis by blast
  qed
qed

section \<open>Builtin definitions\<close>

definition return_names :: "string set" where
  "return_names = {''u8'', ''i8'', ''u16'', ''i16'', ''u32'', ''i32'', ''u64'', ''i64'', ''f32'', ''f64'', ''rust_buffer'', ''void''}"

definition builtin_keys :: "(string \<Rightarrow> string) \<Rightarrow> (CRefKind \<times> string) set" where
  "builtin_keys upper_camel =
     {(CRef_Callback, ''RustFutureContinuationCallback''), (CRef_Callback, ''CallbackInterfaceFree''),
      (CRef_Callback, ''CallbackInterfaceClone''), (CRef_Struct, ''ForeignFutureDroppedCallbackStruct'')} \<union>
     (\<lambda>nm. (CRef_Callback, ''ForeignFutureComplete'' @ upper_camel nm)) ` return_names"

lemma list_all2_to: "list_all2 P xs ys \<Longrightarrow> y \<in> set ys \<Longrightarrow> \<exists>x \<in> set xs. P x y"
  by (induction rule: list_all2_induct) auto

lemma list_all2_from: "list_all2 P xs ys \<Longrightarrow> x \<in> set xs \<Longrightarrow> \<exists>y \<in> set ys. P x y"
  by (induction rule: list_all2_induct) auto

text \<open>The result struct of a return type and the callback that takes it.\<close>

definition future_definitions :: "(string \<Rightarrow> string) \<Rightarrow> CFfiType option \<Rightarrow> CFfiDefinition list \<Rightarrow> bool" where
  "future_definitions upper_camel t ds \<longleftrightarrow> (\<exists>nm fds args. return_type_name t = Inr nm \<and>
     ds = [CFfiDef_Struct \<lparr>cfs_name = ''ForeignFutureResult'' @ upper_camel nm, cfs_fields = fds\<rparr>,
       CFfiDef_CallbackFunction \<lparr>cfc_name = ''ForeignFutureComplete'' @ upper_camel nm, cfc_arguments = args,
         cfc_return_type = None, cfc_has_rust_call_status_arg = False\<rparr>] \<and> defined_in_order {} ds)"

lemma future_definitions_ok:
  assumes "t \<in> set all_possible_return_ffi_types"
  shows "\<exists>ds. ebind (foreign_future_ffi_result_struct upper_camel t) (\<lambda>s.
       ebind (ffi_foreign_future_complete upper_camel t) (\<lambda>c. Inr [CFfiDef_Struct s, CFfiDef_CallbackFunction c])) = Inr ds \<and>
     future_definitions upper_camel t ds"
proof -
  obtain nm where "return_type_name t = Inr nm" using assms by (auto simp: all_possible_return_ffi_types_def)
  moreover have "\<forall>r. t = Some r \<longrightarrow> cffi_type_refs r = {}" using assms by (auto simp: all_possible_return_ffi_types_def)
  ultimately show ?thesis
    by (auto simp: foreign_future_ffi_result_struct_def ffi_foreign_future_complete_def future_definitions_def signature_refs_def
        split: option.split)
qed

lemma return_names_possible: "nm \<in> return_names \<Longrightarrow> \<exists>t \<in> set all_possible_return_ffi_types. return_type_name t = Inr nm"
  by (auto simp: return_names_def all_possible_return_ffi_types_def)

lemma builtins_in_order:
  "\<exists>ds. builtin_ffi_definitions upper_camel = Inr ds \<and> defined_in_order {} ds \<and>
     builtin_keys upper_camel \<subseteq> (\<Union>d \<in> set ds. definition_declares d)"
proof -
  obtain dss where dss: "emap (\<lambda>t. ebind (foreign_future_ffi_result_struct upper_camel t) (\<lambda>s.
       ebind (ffi_foreign_future_complete upper_camel t) (\<lambda>c. Inr [CFfiDef_Struct s, CFfiDef_CallbackFunction c])))
       all_possible_return_ffi_types = Inr dss" "list_all2 (future_definitions upper_camel) all_possible_return_ffi_types dss"
    using emap_ok [of all_possible_return_ffi_types "\<lambda>t. ebind (foreign_future_ffi_result_struct upper_camel t) (\<lambda>s.
       ebind (ffi_foreign_future_complete upper_camel t) (\<lambda>c. Inr [CFfiDef_Struct s, CFfiDef_CallbackFunction c]))"
       "future_definitions upper_camel"] future_definitions_ok by blast
  let ?first = "[ci_callback ''RustFutureContinuationCallback'' [cffi_arg ''data'' CFfi_UInt64, cffi_arg ''poll_result'' CFfi_Int8] None,
      ci_callback ''ForeignFutureDroppedCallback'' [cffi_arg ''handle'' CFfi_UInt64] None,
      ci_callback ''CallbackInterfaceFree'' [cffi_arg ''handle'' CFfi_UInt64] None,
      ci_callback ''CallbackInterfaceClone'' [cffi_arg ''handle'' CFfi_UInt64] (Some CFfi_UInt64),
      CFfiDef_Struct \<lparr>cfs_name = ''ForeignFutureDroppedCallbackStruct'', cfs_fields =
        [cffi_field ''handle'' CFfi_UInt64, cffi_field ''free'' (CFfi_Callback ''ForeignFutureDroppedCallback'')]\<rparr>]"
  have first: "defined_in_order {} ?first" by (simp add: ci_callback_def signature_refs_def)
  have each: "defined_in_order {} ds" if "ds \<in> set dss" for ds
    using dss(2) that by (auto simp: list_all2_conv_all_nth in_set_conv_nth future_definitions_def)
  have "defined_in_order {} (?first @ concat dss)"
    using first defined_in_order_mono [OF defined_in_order_concat [OF each]] by (simp only: defined_in_order_append) blast
  note in_order = this
  have "(CRef_Callback, ''ForeignFutureComplete'' @ upper_camel nm) \<in> (\<Union>d \<in> set (concat dss). definition_declares d)"
    if nm: "nm \<in> return_names" for nm
  proof -
    obtain t where t: "t \<in> set all_possible_return_ffi_types" "return_type_name t = Inr nm" using return_names_possible [OF nm] ..
    then obtain ds where "ds \<in> set dss" "future_definitions upper_camel t ds"
      using list_all2_from [OF dss(2)] by blast
    with t(2) show ?thesis by (auto simp: future_definitions_def intro!: bexI [of _ ds])
  qed
  moreover have "{(CRef_Callback, ''RustFutureContinuationCallback''), (CRef_Callback, ''CallbackInterfaceFree''),
      (CRef_Callback, ''CallbackInterfaceClone''), (CRef_Struct, ''ForeignFutureDroppedCallbackStruct'')} \<subseteq>
      (\<Union>d \<in> set ?first. definition_declares d)" by (simp add: ci_callback_def)
  ultimately have "builtin_keys upper_camel \<subseteq> (\<Union>d \<in> set (?first @ concat dss). definition_declares d)"
    unfolding builtin_keys_def set_append UN_Un by blast
  moreover have "builtin_ffi_definitions upper_camel = Inr (?first @ concat dss)"
    by (simp add: builtin_ffi_definitions_def dss(1))
  ultimately show ?thesis using in_order by blast
qed

lemma futures_ok:
  "\<exists>fs. iter_futures_ffi_function_definitions ci = Inr fs \<and>
     (\<forall>f \<in> set fs. function_refs f \<subseteq> {(CRef_Callback, ''RustFutureContinuationCallback'')})"
  by (simp add: iter_futures_ffi_function_definitions_def all_possible_return_ffi_types_def ci_rust_future_poll_def
      ci_rust_future_cancel_def ci_rust_future_free_def ci_rust_future_complete_def rust_future_ffi_fn_name_def
      function_refs_def signature_refs_def)

lemma other_function_refs:
  "f \<in> set (iter_rust_buffer_ffi_function_definitions ci) \<Longrightarrow> function_refs f = {}"
  "f \<in> set (iter_ffi_function_integrity_checks ci) \<Longrightarrow> function_refs f = {}"
  by (auto simp: iter_rust_buffer_ffi_function_definitions_def ci_rustbuffer_alloc_def ci_rustbuffer_from_bytes_def
      ci_rustbuffer_free_def ci_rustbuffer_reserve_def iter_ffi_function_integrity_checks_def iter_checksum_ffi_functions_def
      ci_uniffi_contract_version_def function_refs_def signature_refs_def)

section \<open>Callbacks and vtables\<close>

lemma ffi_type_of_return: "ffi_type_of t \<in> {CFfi_UInt8, CFfi_Int8, CFfi_UInt16, CFfi_Int16, CFfi_UInt32, CFfi_Int32,
    CFfi_UInt64, CFfi_Int64, CFfi_Float32, CFfi_Float64, CFfi_Handle} \<union> range CFfi_RustBuffer"
  by (induction t rule: ffi_type_of.induct) (auto split: CFfiType.split option.split)

lemma return_name_ok: "\<exists>nm. return_type_name (map_option ffi_type_of r) = Inr nm \<and> nm \<in> return_names"
proof (cases r)
  case (Some t)
  with ffi_type_of_return [of t] show ?thesis by (auto simp: return_names_def)
qed (simp add: return_names_def)

lemma callback_ok:
  "\<exists>cb. method_ffi_callback upper_camel nm m i = Inr cb \<and> cfc_name cb = method_ffi_callback_name nm i \<and>
     definition_refs (CFfiDef_CallbackFunction cb) \<subseteq> builtin_keys upper_camel"
proof -
  obtain r where r: "return_type_name (map_option ffi_type_of (cme_return_type m)) = Inr r" "r \<in> return_names"
    using return_name_ok by blast
  show ?thesis
    by (cases "cme_is_async m") (auto simp: method_ffi_callback_def ffi_foreign_future_complete_def r(1) signature_refs_def
        builtin_keys_def r(2) split: option.split)
qed

lemma callbacks_ok:
  "\<exists>cbs. ffi_callbacks upper_camel nm ms = Inr cbs \<and>
     (\<forall>cb \<in> set cbs. definition_refs (CFfiDef_CallbackFunction cb) \<subseteq> builtin_keys upper_camel) \<and>
     (\<forall>i < length ms. method_ffi_callback_name nm i \<in> cfc_name ` set cbs)"
proof -
  let ?P = "\<lambda>im cb. cfc_name cb = method_ffi_callback_name nm (fst im) \<and>
    definition_refs (CFfiDef_CallbackFunction cb) \<subseteq> builtin_keys upper_camel"
  obtain cbs where cbs: "ffi_callbacks upper_camel nm ms = Inr cbs" "list_all2 ?P (List.enumerate 0 ms) cbs"
    using emap_ok [of "List.enumerate 0 ms" "\<lambda>(i, m). method_ffi_callback upper_camel nm m i" ?P] callback_ok
    by (fastforce simp: ffi_callbacks_def)
  have "method_ffi_callback_name nm i \<in> cfc_name ` set cbs" if "i < length ms" for i
    using list_all2_nthD [OF cbs(2), of i] list_all2_lengthD [OF cbs(2)] that
    by (auto simp: nth_enumerate_eq intro!: rev_image_eqI [of "cbs ! i"])
  moreover have "definition_refs (CFfiDef_CallbackFunction cb) \<subseteq> builtin_keys upper_camel" if "cb \<in> set cbs" for cb
    using cbs(2) that by (auto simp: list_all2_conv_all_nth in_set_conv_nth)
  ultimately show ?thesis using cbs(1) by blast
qed

lemma enumerate_image: "(\<lambda>(i, m). g i) ` set (List.enumerate 0 ms) = g ` {..<length ms}"
proof -
  have "(\<lambda>(i, m). g i) ` set (List.enumerate 0 ms) = g ` set (map fst (List.enumerate 0 ms))"
    by (simp add: image_image case_prod_beta' del: map_fst_enumerate)
  then show ?thesis by (simp add: atLeast_upt)
qed

lemma vtable_refs:
  "definition_refs (CFfiDef_Struct (ci_vtable_struct nm ms)) =
     {(CRef_Callback, ''CallbackInterfaceFree''), (CRef_Callback, ''CallbackInterfaceClone'')} \<union>
     (\<lambda>i. (CRef_Callback, method_ffi_callback_name nm i)) ` {..<length ms}"
proof -
  have "(\<Union>im \<in> set (List.enumerate 0 ms). cffi_type_refs (cfi_type ((\<lambda>(i, m). cffi_field (cme_name m)
      (CFfi_Callback (''CallbackInterface'' @ nm @ ''Method'' @ decimal i))) im))) =
    (\<lambda>(i, m). (CRef_Callback, method_ffi_callback_name nm i)) ` set (List.enumerate 0 ms)"
    by (auto simp: method_ffi_callback_name_def split: prod.splits)
  then show ?thesis unfolding enumerate_image by (simp add: ci_vtable_struct_def insert_commute)
qed

definition callback_keys :: "CFfiCallbackFunction list \<Rightarrow> (CRefKind \<times> string) set" where
  "callback_keys cbs = (\<lambda>cb. (CRef_Callback, cfc_name cb)) ` set cbs"

text \<open>All the callbacks, and the vtables that refer to them.\<close>

lemma all_callbacks_ok:
  "\<exists>cbs. callback_interface_callback_definitions upper_camel ci = Inr cbs \<and>
     (\<forall>cb \<in> set cbs. definition_refs (CFfiDef_CallbackFunction cb) \<subseteq> builtin_keys upper_camel) \<and>
     (\<forall>s \<in> set (callback_interface_vtable_definitions ci).
        definition_refs (CFfiDef_Struct s) \<subseteq> builtin_keys upper_camel \<union> callback_keys cbs)"
proof -
  let ?ok = "\<lambda>nm ms cbs. (\<forall>cb \<in> set cbs. definition_refs (CFfiDef_CallbackFunction cb) \<subseteq> builtin_keys upper_camel) \<and>
     (\<forall>i < length ms. method_ffi_callback_name nm i \<in> cfc_name ` set cbs)"
  let ?P = "\<lambda>c cbs. ?ok (ccb_name c) (ccb_methods c) cbs"
  let ?Q = "\<lambda>ob cbs. (\<forall>cb \<in> set cbs. definition_refs (CFfiDef_CallbackFunction cb) \<subseteq> builtin_keys upper_camel) \<and>
     (is_trait_interface (cob_imp ob) \<longrightarrow> (\<forall>i < length (cob_methods ob). method_ffi_callback_name (cob_name ob) i \<in> cfc_name ` set cbs))"
  obtain css where c: "emap (ccb_ffi_callbacks upper_camel) (ci_callback_interfaces ci) = Inr css" "list_all2 ?P (ci_callback_interfaces ci) css"
    using emap_ok [of "ci_callback_interfaces ci" "ccb_ffi_callbacks upper_camel" ?P] callbacks_ok by (auto simp: ccb_ffi_callbacks_def)
  have "\<exists>cbs. cob_ffi_callbacks upper_camel ob = Inr cbs \<and> ?Q ob cbs" for ob
    using callbacks_ok [of upper_camel "cob_name ob" "cob_methods ob"] by (auto simp: cob_ffi_callbacks_def)
  then obtain oss where o: "emap (cob_ffi_callbacks upper_camel) (ci_objects ci) = Inr oss" "list_all2 ?Q (ci_objects ci) oss"
    using emap_ok [of "ci_objects ci" "cob_ffi_callbacks upper_camel" ?Q] by blast
  let ?cbs = "concat css @ concat oss"
  have refs: "\<forall>cb \<in> set ?cbs. definition_refs (CFfiDef_CallbackFunction cb) \<subseteq> builtin_keys upper_camel"
  proof
    fix cb assume "cb \<in> set ?cbs"
    then consider cbs where "cbs \<in> set css" "cb \<in> set cbs" | cbs where "cbs \<in> set oss" "cb \<in> set cbs" by auto
    then show "definition_refs (CFfiDef_CallbackFunction cb) \<subseteq> builtin_keys upper_camel"
      using list_all2_to [OF c(2)] list_all2_to [OF o(2)] by cases blast+
  qed
  have "definition_refs (CFfiDef_Struct s) \<subseteq> builtin_keys upper_camel \<union> callback_keys ?cbs"
    if s: "s \<in> set (callback_interface_vtable_definitions ci)" for s
  proof -
    consider c where "c \<in> set (ci_callback_interfaces ci)" "s = ci_vtable_struct (ccb_name c) (ccb_methods c)"
      | ob where "ob \<in> set (ci_objects ci)" "is_trait_interface (cob_imp ob)" "s = ci_vtable_struct (cob_name ob) (cob_methods ob)"
      using s by (auto simp: callback_interface_vtable_definitions_def ccb_vtable_definition_def cob_vtable_definition_def
          List.map_filter_def split: if_splits)
    then show ?thesis
    proof cases
      case 1
      with list_all2_from [OF c(2)] obtain cbs where cbs: "cbs \<in> set css" "?P c cbs" by blast
      from cbs(2) have "(\<lambda>i. (CRef_Callback, method_ffi_callback_name (ccb_name c) i)) ` {..<length (ccb_methods c)} \<subseteq> callback_keys cbs"
        by (auto simp: callback_keys_def)
      moreover have "callback_keys cbs \<subseteq> callback_keys ?cbs" using cbs(1) by (auto simp: callback_keys_def)
      ultimately show ?thesis unfolding 1(2) vtable_refs by (auto simp: builtin_keys_def)
    next
      case 2
      with list_all2_from [OF o(2)] obtain cbs where cbs: "cbs \<in> set oss" "?Q ob cbs" by blast
      from cbs(2) 2(2) have "(\<lambda>i. (CRef_Callback, method_ffi_callback_name (cob_name ob) i)) ` {..<length (cob_methods ob)} \<subseteq> callback_keys cbs"
        by (auto simp: callback_keys_def)
      moreover have "callback_keys cbs \<subseteq> callback_keys ?cbs" using cbs(1) by (auto simp: callback_keys_def)
      ultimately show ?thesis unfolding 2(3) vtable_refs by (auto simp: builtin_keys_def)
    qed
  qed
  with refs c(1) o(1) show ?thesis by (auto simp: callback_interface_callback_definitions_def)
qed

text \<open>All the functions.\<close>

lemma function_definitions_ok:
  assumes "derive_ffi_funcs ci = Inr ci'" "unregistered ci"
  shows "\<exists>fs. iter_ffi_function_definitions ci' = Inr fs \<and>
    (\<forall>f \<in> set fs. function_refs f \<subseteq> builtin_keys upper_camel \<union> vtable_keys ci')"
proof -
  obtain futures where futures: "iter_futures_ffi_function_definitions ci' = Inr futures"
    "\<forall>f \<in> set futures. function_refs f \<subseteq> {(CRef_Callback, ''RustFutureContinuationCallback'')}" using futures_ok by blast
  let ?fs = "(iter_user_ffi_function_definitions ci' @ iter_rust_buffer_ffi_function_definitions ci' @ futures) @
    iter_ffi_function_integrity_checks ci'"
  have "function_refs f \<subseteq> builtin_keys upper_camel \<union> vtable_keys ci'" if f: "f \<in> set ?fs" for f
  proof -
    consider "f \<in> set (iter_user_ffi_function_definitions ci')" | "f \<in> set futures" | "f \<in> set (iter_rust_buffer_ffi_function_definitions ci')"
      | "f \<in> set (iter_ffi_function_integrity_checks ci')" using f by auto
    then show ?thesis
    proof cases
      case 1
      with user_function_refs [OF assms] show ?thesis by blast
    next
      case 2
      with futures(2) have "function_refs f \<subseteq> {(CRef_Callback, ''RustFutureContinuationCallback'')}" by blast
      then show ?thesis by (auto simp: builtin_keys_def)
    qed (use other_function_refs in simp_all)
  qed
  moreover have "iter_ffi_function_definitions ci' = Inr ?fs"
    by (simp add: iter_ffi_function_definitions_def ffi_functions_with_def futures(1) Let_def)
  ultimately show ?thesis by blast
qed

text \<open>C14: for a component interface that is built from a metadata group, the list of FFI definitions is
  always produced, and every definition in it comes after the callback types and structs that its arguments,
  return type and fields refer to, through references too: builtin types, then the callbacks of the
  callback interfaces and foreign traits, their vtables, and the functions.\<close>

theorem ffi_definitions_ordered:
  assumes "ci_from_metadata namespace docstring items = Inr ci" "derive_ffi_funcs ci = Inr ci'"
  shows "\<exists>ds. ci_ffi_definitions upper_camel ci' = Inr ds \<and> defined_in_order {} ds"
proof -
  let ?B = "builtin_keys upper_camel" and ?vtables = "callback_interface_vtable_definitions ci'"
  obtain bs where bs: "builtin_ffi_definitions upper_camel = Inr bs" "defined_in_order {} bs" "?B \<subseteq> (\<Union>d \<in> set bs. definition_declares d)"
    using builtins_in_order by blast
  obtain cbs where cbs: "callback_interface_callback_definitions upper_camel ci' = Inr cbs"
    "\<forall>cb \<in> set cbs. definition_refs (CFfiDef_CallbackFunction cb) \<subseteq> ?B"
    "\<forall>s \<in> set ?vtables. definition_refs (CFfiDef_Struct s) \<subseteq> ?B \<union> callback_keys cbs"
    using all_callbacks_ok by blast
  obtain fs where fs: "iter_ffi_function_definitions ci' = Inr fs" "\<forall>f \<in> set fs. function_refs f \<subseteq> ?B \<union> vtable_keys ci'"
    using function_definitions_ok [OF assms(2) interface_names(2) [OF assms(1)]] by blast
  have a: "defined_in_order K (map CFfiDef_CallbackFunction cbs)" if "?B \<subseteq> K" for K
    by (rule defined_in_order_all) (use cbs(2) that in \<open>auto simp del: definition_refs.simps\<close>)
  have b: "defined_in_order K (map CFfiDef_Struct ?vtables)" if "?B \<union> callback_keys cbs \<subseteq> K" for K
    by (rule defined_in_order_all) (use cbs(3) that in \<open>auto simp del: definition_refs.simps\<close>)
  have c: "defined_in_order K (map CFfiDef_Function fs)" if "?B \<union> vtable_keys ci' \<subseteq> K" for K
    by (rule defined_in_order_all) (use fs(2) that in \<open>fastforce simp: function_refs_def\<close>)
  have C: "(\<Union>d \<in> set (map CFfiDef_CallbackFunction cbs). definition_declares d) = callback_keys cbs"
    by (auto simp: callback_keys_def)
  have V: "(\<Union>d \<in> set (map CFfiDef_Struct ?vtables). definition_declares d) = vtable_keys ci'" by (auto simp: vtable_keys_def)
  have "defined_in_order {} (bs @ map CFfiDef_CallbackFunction cbs @ map CFfiDef_Struct ?vtables @ map CFfiDef_Function fs)"
    unfolding defined_in_order_append C V using bs(3) by (intro conjI bs(2) a b c) blast+
  then show ?thesis by (simp add: ci_ffi_definitions_def bs(1) cbs(1) fs(1))
qed

theorem ffi_definitions_ordered_witness:
  "\<exists>ci ci' ds. small_interface = Inr ci \<and> derive_ffi_funcs ci = Inr ci' \<and> ci_ffi_definitions (\<lambda>s. s) ci' = Inr ds \<and>
     defined_in_order {} ds"
proof -
  obtain ci where ci: "small_interface = Inr ci" using small_interface_built ..
  moreover obtain ci' where ci': "derive_ffi_funcs ci = Inr ci'"
    using interface_derived [OF ci [unfolded small_interface_def]] by blast
  moreover note ffi_definitions_ordered [OF ci [unfolded small_interface_def] ci', of "\<lambda>s. s"]
  ultimately show ?thesis by metis
qed

end
