(* ===== verification/CiDiscr.thy ===== *)
theory CiDiscr
  imports CiItems Discriminants
begin

text \<open>
  The discriminants that the component interface computes for the variants of an enum.
\<close>

definition variant_literal_value :: "LiteralMetadata \<Rightarrow> int" where
  "variant_literal_value lit = (case lit of Literal_UInt w r t \<Rightarrow> uint w | Literal_Int w r t \<Rightarrow> sint w | _ \<Rightarrow> 0)"

definition integer_literal :: "LiteralMetadata \<Rightarrow> bool" where
  "integer_literal lit = (case lit of Literal_UInt w r t \<Rightarrow> True | Literal_Int w r t \<Rightarrow> True | _ \<Rightarrow> False)"

definition given_discrs :: "CVariant list \<Rightarrow> int option list" where
  "given_discrs vs = map (\<lambda>v. map_option variant_literal_value (cva_discr v)) vs"

lemma sint_of_range: "n \<in> int_range 64 \<Longrightarrow> sint (word_of_int n :: u64) = n"
  by (simp add: sint_sbintrunc' int_range_def signed_take_bit_int_eq_self)

lemma uint_of_range: "n \<in> int_range 64 \<Longrightarrow> 0 \<le> n \<Longrightarrow> uint (word_of_int n :: u64) = n"
  by (simp add: int_range_def uint_word_of_int)

lemma this_discr_ok:
  assumes "cva_discr v = None \<Longrightarrow> n \<in> int_range 64" "\<And>lit. cva_discr v = Some lit \<Longrightarrow> integer_literal lit"
  defines "d \<equiv> (case cva_discr v of None \<Rightarrow> n | Some lit \<Rightarrow> variant_literal_value lit)"
  shows "\<exists>lit. this_discr (word_of_int n) v = Inr (word_of_int d, lit) \<and> variant_literal_value lit = d"
proof (cases "cva_discr v")
  case None
  with assms(1) show ?thesis
    by (auto simp: this_discr_def d_def sint_of_range uint_of_range variant_literal_value_def new_int_def new_uint_def)
next
  case (Some lit)
  with assms(2) [OF Some] show ?thesis
    by (cases lit) (auto simp: this_discr_def d_def integer_literal_def variant_literal_value_def new_int_def new_uint_def)
qed

lemma discr_loop_at_ok:
  assumes "\<forall>v \<in> set vs. \<forall>lit. cva_discr v = Some lit \<longrightarrow> integer_literal lit"
    "set (rust_discriminants n (given_discrs vs)) \<subseteq> int_range 64" "i < length vs"
  shows "\<exists>lit. discr_loop_at i (word_of_int n) vs = Inr lit \<and> variant_literal_value lit = rust_discriminants n (given_discrs vs) ! i"
  using assms
proof (induction vs arbitrary: n i)
  case (Cons v vs)
  let ?d = "case cva_discr v of None \<Rightarrow> n | Some lit \<Rightarrow> variant_literal_value lit"
  have rest: "rust_discriminants n (given_discrs (v # vs)) = ?d # rust_discriminants (?d + 1) (given_discrs vs)"
    by (cases "cva_discr v") (simp_all add: given_discrs_def)
  obtain lit where lit: "this_discr (word_of_int n) v = Inr (word_of_int ?d, lit)" "variant_literal_value lit = ?d"
    using this_discr_ok [of v n] Cons.prems(1,2) rest by (cases "cva_discr v") auto
  show ?case
  proof (cases i)
    case 0
    with lit rest show ?thesis by simp
  next
    case (Suc j)
    have "\<exists>lit. discr_loop_at j (word_of_int (?d + 1)) vs = Inr lit \<and>
        variant_literal_value lit = rust_discriminants (?d + 1) (given_discrs vs) ! j"
      by (rule Cons.IH) (use Cons.prems rest Suc in auto)
    with lit rest Suc show ?thesis by (simp add: wi_hom_add)
  qed
qed simp

lemma discr_loop_end:
  "\<forall>v \<in> set vs. \<forall>lit. cva_discr v = Some lit \<longrightarrow> integer_literal lit \<Longrightarrow> length vs \<le> i \<Longrightarrow>
     discr_loop_at i n vs = Inl CiErr_variant_index"
proof (induction vs arbitrary: n i)
  case (Cons v vs)
  then obtain j where i: "i = Suc j" "length vs \<le> j" by (cases i) auto
  have "\<exists>w lit. this_discr n v = Inr (w, lit)"
    using Cons.prems(1) by (cases "cva_discr v"; cases "the (cva_discr v)") (auto simp: this_discr_def integer_literal_def)
  with Cons i show ?case by auto
qed simp

text \<open>C20: when the discriminants of an enum are those of an \<open>i64\<close>, the component interface gives each variant the
  discriminant that Rust gives it, whether it is written out or follows the one before; an index beyond the
  last variant is an error.\<close>

theorem interface_discriminants_follow_rust:
  assumes "\<forall>v \<in> set (cen_variants e). \<forall>lit. cva_discr v = Some lit \<longrightarrow> integer_literal lit"
    "set (rust_discriminants 0 (given_discrs (cen_variants e))) \<subseteq> int_range 64"
  shows "if i < length (cen_variants e)
    then \<exists>lit. cen_variant_discr e i = Inr lit \<and>
      variant_literal_value lit = rust_discriminants 0 (given_discrs (cen_variants e)) ! i
    else cen_variant_discr e i = Inl CiErr_variant_index"
  using discr_loop_at_ok [OF assms, of i] discr_loop_end [OF assms(1), of i 0] by (simp add: cen_variant_discr_def)

definition example_enum :: CEnum where
  "example_enum = \<lparr>cen_name = ''E'', cen_module_path = ''c'', cen_remote = False, cen_discr_type = None,
     cen_variants = map (\<lambda>d. \<lparr>cva_name = ''V'', cva_discr = d, cva_fields = [], cva_docstring = None\<rparr>)
       [None, Some (new_int (- 3)), None, Some (new_uint 7), None],
     cen_shape = EnumShape_Enum, cen_non_exhaustive = False, cen_constructors = [], cen_methods = [],
     cen_uniffi_traits = [], cen_docstring = None\<rparr>"

theorem interface_discriminants_follow_rust_witness:
  "\<exists>lit. cen_variant_discr example_enum 4 = Inr lit \<and> variant_literal_value lit = 8"
proof -
  have "given_discrs (cen_variants example_enum) = [None, Some (- 3), None, Some 7, None]"
    by (simp add: example_enum_def given_discrs_def variant_literal_value_def new_int_def new_uint_def)
  moreover have "\<forall>v \<in> set (cen_variants example_enum). \<forall>lit. cva_discr v = Some lit \<longrightarrow> integer_literal lit"
    by (simp add: example_enum_def integer_literal_def new_int_def new_uint_def)
  ultimately show ?thesis
    using interface_discriminants_follow_rust [of example_enum 4] by (simp add: int_range_def example_enum_def)
qed

text \<open>Beyond \<open>i64\<close> a discriminant that follows another one is taken for a negative number.\<close>

lemma large_discriminant_negative:
  assumes "cen_variants e = [\<lparr>cva_name = nm, cva_discr = Some (new_uint (2 ^ 63)), cva_fields = [], cva_docstring = None\<rparr>,
    \<lparr>cva_name = nm', cva_discr = None, cva_fields = [], cva_docstring = None\<rparr>]"
  shows "map_sum (\<lambda>e. e) variant_literal_value (cen_variant_discr e 1) = Inr (1 - 2 ^ 63)"
  by (simp add: cen_variant_discr_def assms this_discr_def new_uint_def new_int_def variant_literal_value_def)

end
