(* ===== verification/UdlAst.thy ===== *)
theory UdlAst
  imports MetaGroup Results
begin

text \<open>
  The syntax tree of a UDL file: the structures of \<open>weedle2\<close> that \<open>uniffi_udl\<close> matches on.  The tokens
  of a node (keywords, punctuation) carry nothing and are left out; \<open>term!\<close> options are booleans; an
  \<open>Identifier\<close> or a \<open>StringLit\<close> is its text.  The parser that builds the tree is not modelled: it runs on
  the combinators of \<open>nom\<close>.
\<close>

section \<open>Types, attributes and arguments\<close>

text \<open>The flag is \<open>unsigned\<close>, and \<open>unrestricted\<close> below.\<close>

datatype WIntegerType = WInteger_LongLong bool | WInteger_Long bool | WInteger_Short bool

datatype WFloatingPointType = WFloat_Float bool | WFloat_Double bool

datatype WIntegerLit = WInt_Dec string | WInt_Hex string | WInt_Oct string

datatype WFloatLit = WFloatLit_Value string | WFloatLit_NegInfinity | WFloatLit_Infinity | WFloatLit_NaN

datatype WDefaultValue =
    WDefault_Boolean bool
  | WDefault_EmptyArray
  | WDefault_EmptyDictionary
  | WDefault_Float WFloatLit
  | WDefault_Integer WIntegerLit
  | WDefault_Null
  | WDefault_String string

datatype WIdentifierOrString = WIdent string | WString string

text \<open>The flag of \<open>MayBeNull\<close> is the last field of a type.\<close>

datatype WType =
    WType_Any
  | WType_NonAny WNonAnyType
  | WType_Union "WUnionMemberType list" bool
and WNonAnyType =
    W_Promise WReturnType
  | W_Integer WIntegerType bool
  | W_FloatingPoint WFloatingPointType bool
  | W_Boolean bool
  | W_Byte bool
  | W_Octet bool
  | W_ByteString bool
  | W_DOMString bool
  | W_USVString bool
  | W_Sequence WType bool
  | W_Object bool
  | W_Symbol bool
  | W_Error bool
  | W_ArrayBuffer bool
  | W_DataView bool
  | W_Int8Array bool
  | W_Int16Array bool
  | W_Int32Array bool
  | W_Uint8Array bool
  | W_Uint16Array bool
  | W_Uint32Array bool
  | W_Uint8ClampedArray bool
  | W_Float32Array bool
  | W_Float64Array bool
  | W_ArrayBufferView bool
  | W_BufferSource bool
  | W_FrozenArrayType WType bool
  | W_RecordType WRecordKeyType WType bool
  | W_Identifier string bool
and WReturnType =
    WReturn_Undefined
  | WReturn_Type WType
and WRecordKeyType =
    WKey_Byte
  | WKey_DOM
  | WKey_USV
  | WKey_NonAny WNonAnyType
and WUnionMemberType =
    WUnionMember_Single "WAttribute list option" WNonAnyType
  | WUnionMember_Union "WUnionMemberType list" bool
and WAttribute =
    WAttr_ArgList string "WArgument list"
  | WAttr_NamedArgList string string "WArgument list"
  | WAttr_IdentList string "string list"
  | WAttr_Ident string WIdentifierOrString
  | WAttr_NoArgs string
and WArgument =
    WArg_Single "WAttribute list option" bool "WAttribute list option" WType string "WDefaultValue option"
  | WArg_Variadic "WAttribute list option" WType string

section \<open>Members\<close>

datatype WSpecial = WSpecial_Getter | WSpecial_Setter | WSpecial_Deleter | WSpecial_LegacyCaller

datatype WStringifierOrStatic = WModifier_Stringifier | WModifier_Static

record WOperation =
  wop_docstring :: "string option"
  wop_attributes :: "WAttribute list option"
  wop_modifier :: "WStringifierOrStatic option"
  wop_special :: "WSpecial option"
  wop_return_type :: WReturnType
  wop_identifier :: "string option"
  wop_args :: "WArgument list"

record WConstructor =
  wctor_docstring :: "string option"
  wctor_attributes :: "WAttribute list option"
  wctor_args :: "WArgument list"

text \<open>The converters reject the other members whatever they hold, so only their kind is kept.\<close>

datatype WInterfaceMember =
    WMember_Const
  | WMember_Attribute
  | WMember_Constructor WConstructor
  | WMember_Operation WOperation
  | WMember_Iterable
  | WMember_AsyncIterable
  | WMember_Maplike
  | WMember_Setlike
  | WMember_Stringifier

record WNamespaceOperation =
  wnop_docstring :: "string option"
  wnop_attributes :: "WAttribute list option"
  wnop_return_type :: WReturnType
  wnop_identifier :: "string option"
  wnop_args :: "WArgument list"

datatype WNamespaceMember = WNamespace_Operation WNamespaceOperation | WNamespace_Attribute

record WDictionaryMember =
  wdm_docstring :: "string option"
  wdm_attributes :: "WAttribute list option"
  wdm_required :: bool
  wdm_type :: WType
  wdm_identifier :: string
  wdm_default :: "WDefaultValue option"

record WEnumVariant =
  wev_docstring :: "string option"
  wev_value :: string

section \<open>Definitions\<close>

text \<open>An interface and a callback interface have the same fields, and so one record.\<close>

record WInterface =
  wi_docstring :: "string option"
  wi_attributes :: "WAttribute list option"
  wi_identifier :: string
  wi_inheritance :: "string option"
  wi_members :: "WInterfaceMember list"

record WNamespace =
  wn_docstring :: "string option"
  wn_attributes :: "WAttribute list option"
  wn_identifier :: string
  wn_members :: "WNamespaceMember list"

record WDictionary =
  wd_docstring :: "string option"
  wd_attributes :: "WAttribute list option"
  wd_identifier :: string
  wd_inheritance :: "string option"
  wd_members :: "WDictionaryMember list"

record WEnum =
  we_docstring :: "string option"
  we_attributes :: "WAttribute list option"
  we_identifier :: string
  we_values :: "WEnumVariant list"

text \<open>The type of a typedef comes with attributes of its own.\<close>

record WTypedef =
  wt_attributes :: "WAttribute list option"
  wt_type_attributes :: "WAttribute list option"
  wt_type :: WType
  wt_identifier :: string

text \<open>The definitions without a field are rejected by \<open>process\<close>.\<close>

datatype WDefinition =
    WDef_Callback
  | WDef_CallbackInterface WInterface
  | WDef_Interface WInterface
  | WDef_InterfaceMixin
  | WDef_Namespace WNamespace
  | WDef_Dictionary WDictionary
  | WDef_PartialInterface
  | WDef_PartialInterfaceMixin
  | WDef_PartialDictionary
  | WDef_PartialNamespace
  | WDef_Enum WEnum
  | WDef_Typedef WTypedef
  | WDef_IncludesStatement
  | WDef_Implements

end
