(* ===== verification/UdlAttributes.thy ===== *)
theory UdlAttributes
  imports UdlAst
begin

text \<open>
  \<open>uniffi_udl/src/attributes.rs\<close>: the attributes that a UDL file may use and which of them each kind of
  definition accepts.  Every attribute set of the code wraps a \<open>Vec<Attribute>\<close>; here it is that list.
\<close>

section \<open>Errors of \<open>uniffi_udl\<close>\<close>

text \<open>One constructor per \<open>bail!\<close>, with what its message quotes; \<open>UdlErr_panic\<close> stands for an \<open>expect\<close> that fails.\<close>

datatype UdlAttribute =
    Attr_ByRef
  | Attr_Enum
  | Attr_Error
  | Attr_Name string
  | Attr_SelfByArc
  | Attr_Throws string
  | Attr_Traits "string list"
  | Attr_External string
  | Attr_Remote
  | Attr_Custom "string option"
  | Attr_Trait
  | Attr_WithForeign
  | Attr_Async
  | Attr_NonExhaustive

datatype UdlError =
    UdlErr_panic
  | UdlErr_attribute WAttribute
  | UdlErr_duplicate_attribute WAttribute
  | UdlErr_self_type WIdentifierOrString
  | UdlErr_attribute_not_for UdlAttribute string
  | UdlErr_conflicting_attributes
  | UdlErr_foreign_without_trait
  | UdlErr_typedef_attributes
  | UdlErr_unsupported string
  | UdlErr_type WNonAnyType
  | UdlErr_unknown_type string
  | UdlErr_typedef_extern
  | UdlErr_conflicting_definition string Type Type
  | UdlErr_parse_int
  | UdlErr_literal_type string Type
  | UdlErr_literal WDefaultValue
  | UdlErr_unknown_throws string
  | UdlErr_trait string
  | UdlErr_duplicate_member string
  | UdlErr_trait_constructor string
  | UdlErr_anonymous
  | UdlErr_member
  | UdlErr_namespace
  | UdlErr_definition WDefinition

section \<open>Single attributes\<close>

fun is_error_attr :: "UdlAttribute \<Rightarrow> bool" where
  "is_error_attr Attr_Error = True"
| "is_error_attr _ = False"

fun is_enum_attr :: "UdlAttribute \<Rightarrow> bool" where
  "is_enum_attr Attr_Enum = True"
| "is_enum_attr _ = False"

fun name_from_id_or_string :: "WIdentifierOrString \<Rightarrow> string" where
  "name_from_id_or_string (WIdent s) = s"
| "name_from_id_or_string (WString s) = s"

text \<open>\<open>SelfType\<close> has one value; a string literal is not taken for it.\<close>

definition self_type_try_from :: "WIdentifierOrString \<Rightarrow> UdlError + UdlAttribute" where
  "self_type_try_from nm = (if nm = WIdent ''ByArc'' then Inr Attr_SelfByArc else Inl (UdlErr_self_type nm))"

definition no_args_attribute :: "string \<Rightarrow> UdlAttribute option" where
  "no_args_attribute s =
     (if s = ''ByRef'' then Some Attr_ByRef
      else if s = ''Enum'' then Some Attr_Enum
      else if s = ''Error'' then Some Attr_Error
      else if s = ''Custom'' then Some (Attr_Custom None)
      else if s = ''Trait'' then Some Attr_Trait
      else if s = ''WithForeign'' then Some Attr_WithForeign
      else if s = ''Async'' then Some Attr_Async
      else if s = ''NonExhaustive'' then Some Attr_NonExhaustive
      else if s = ''Remote'' then Some Attr_Remote
      else None)"

fun attribute_try_from :: "WAttribute \<Rightarrow> UdlError + UdlAttribute" where
  "attribute_try_from (WAttr_NoArgs s) = ok_or (UdlErr_attribute (WAttr_NoArgs s)) (no_args_attribute s)"
| "attribute_try_from (WAttr_Ident lhs rhs) =
     (let nm = name_from_id_or_string rhs in
      if lhs = ''Name'' then Inr (Attr_Name nm)
      else if lhs = ''Throws'' then Inr (Attr_Throws nm)
      else if lhs = ''Self'' then self_type_try_from rhs
      else if lhs = ''External'' then Inr (Attr_External nm)
      else if lhs = ''Custom'' then Inr (Attr_Custom (Some nm))
      else Inl (UdlErr_attribute (WAttr_Ident lhs rhs)))"
| "attribute_try_from (WAttr_IdentList nm ids) =
     (if nm = ''Traits'' then Inr (Attr_Traits ids) else Inl (UdlErr_attribute (WAttr_IdentList nm ids)))"
| "attribute_try_from a = Inl (UdlErr_attribute a)"

section \<open>Lists of attributes\<close>

text \<open>The set of nodes seen so far; then every node is converted, then every attribute validated.\<close>

fun check_duplicates :: "WAttribute set \<Rightarrow> WAttribute list \<Rightarrow> UdlError + unit" where
  "check_duplicates seen [] = Inr ()"
| "check_duplicates seen (a # as) =
     (if a \<in> seen then Inl (UdlErr_duplicate_attribute a) else check_duplicates (insert a seen) as)"

definition check_all :: "('a \<Rightarrow> 'e + unit) \<Rightarrow> 'a list \<Rightarrow> 'e + unit" where
  "check_all validator xs = efold (\<lambda>x _. validator x) xs ()"

definition parse_attributes :: "(UdlAttribute \<Rightarrow> UdlError + unit) \<Rightarrow> WAttribute list \<Rightarrow> UdlError + UdlAttribute list" where
  "parse_attributes validator as =
     ebind (check_duplicates {} as) (\<lambda>_.
     ebind (emap attribute_try_from as) (\<lambda>attrs.
     ebind (check_all validator attrs) (\<lambda>_. Inr attrs)))"

text \<open>A validator accepts some attributes and rejects the rest by naming the kind of definition.\<close>

definition only :: "(UdlAttribute \<Rightarrow> bool) \<Rightarrow> string \<Rightarrow> UdlAttribute \<Rightarrow> UdlError + unit" where
  "only ok kind a = (if ok a then Inr () else Inl (UdlErr_attribute_not_for a kind))"

text \<open>\<open>impl TryFrom<Option<T>>\<close>: no attribute list is the empty one.\<close>

definition from_option :: "(WAttribute list \<Rightarrow> UdlError + UdlAttribute list) \<Rightarrow>
    WAttribute list option \<Rightarrow> UdlError + UdlAttribute list" where
  "from_option f as = (case as of None \<Rightarrow> Inr [] | Some l \<Rightarrow> f l)"

section \<open>What an attribute set contains\<close>

text \<open>\<open>find_map\<close> is the first of the values that the list has; the sets share the queries below.\<close>

fun find_map :: "('a \<Rightarrow> 'b option) \<Rightarrow> 'a list \<Rightarrow> 'b option" where
  "find_map f [] = None"
| "find_map f (x # xs) = (case f x of Some y \<Rightarrow> Some y | None \<Rightarrow> find_map f xs)"

fun attr_traits :: "UdlAttribute \<Rightarrow> string list option" where
  "attr_traits (Attr_Traits inner) = Some inner"
| "attr_traits _ = None"

fun attr_throws :: "UdlAttribute \<Rightarrow> string option" where
  "attr_throws (Attr_Throws inner) = Some inner"
| "attr_throws _ = None"

fun attr_name :: "UdlAttribute \<Rightarrow> string option" where
  "attr_name (Attr_Name inner) = Some inner"
| "attr_name _ = None"

fun attr_crate :: "UdlAttribute \<Rightarrow> string option" where
  "attr_crate (Attr_External nm) = Some nm"
| "attr_crate (Attr_Custom nm) = nm"
| "attr_crate _ = None"

definition contains_enum_attr :: "UdlAttribute list \<Rightarrow> bool" where
  "contains_enum_attr attrs = list_ex is_enum_attr attrs"

definition contains_error_attr :: "UdlAttribute list \<Rightarrow> bool" where
  "contains_error_attr attrs = list_ex is_error_attr attrs"

definition contains_attr :: "UdlAttribute \<Rightarrow> UdlAttribute list \<Rightarrow> bool" where
  "contains_attr a attrs = list_ex (\<lambda>x. x = a) attrs"

definition contains_remote :: "UdlAttribute list \<Rightarrow> bool" where
  "contains_remote attrs = contains_attr Attr_Remote attrs"

definition contains_non_exhaustive_attr :: "UdlAttribute list \<Rightarrow> bool" where
  "contains_non_exhaustive_attr attrs = contains_attr Attr_NonExhaustive attrs"

definition attrs_is_async :: "UdlAttribute list \<Rightarrow> bool" where
  "attrs_is_async attrs = contains_attr Attr_Async attrs"

definition attrs_by_ref :: "UdlAttribute list \<Rightarrow> bool" where
  "attrs_by_ref attrs = contains_attr Attr_ByRef attrs"

definition get_self_by_arc :: "UdlAttribute list \<Rightarrow> bool" where
  "get_self_by_arc attrs = contains_attr Attr_SelfByArc attrs"

definition contains_trait :: "UdlAttribute list \<Rightarrow> bool" where
  "contains_trait attrs = contains_attr Attr_Trait attrs"

definition contains_with_foreign :: "UdlAttribute list \<Rightarrow> bool" where
  "contains_with_foreign attrs = contains_attr Attr_WithForeign attrs"

definition get_traits :: "UdlAttribute list \<Rightarrow> string list" where
  "get_traits attrs = (case find_map attr_traits attrs of Some l \<Rightarrow> l | None \<Rightarrow> [])"

definition get_throws_err :: "UdlAttribute list \<Rightarrow> string option" where
  "get_throws_err attrs = find_map attr_throws attrs"

definition get_name :: "UdlAttribute list \<Rightarrow> string option" where
  "get_name attrs = find_map attr_name attrs"

definition get_crate_name :: "UdlAttribute list \<Rightarrow> string option" where
  "get_crate_name attrs = find_map attr_crate attrs"

fun is_custom_attr :: "UdlAttribute \<Rightarrow> bool" where
  "is_custom_attr (Attr_Custom nm) = True"
| "is_custom_attr _ = False"

definition is_custom :: "UdlAttribute list \<Rightarrow> bool" where
  "is_custom attrs = list_ex is_custom_attr attrs"

definition object_impl :: "UdlAttribute list \<Rightarrow> UdlError + ObjectImpl" where
  "object_impl attrs =
     (case (contains_trait attrs, contains_with_foreign attrs) of
        (True, True) \<Rightarrow> Inr (ObjectImpl_Trait TraitKind_Both)
      | (True, False) \<Rightarrow> Inr (ObjectImpl_Trait TraitKind_RustOnly)
      | (False, False) \<Rightarrow> Inr ObjectImpl_Struct
      | (False, True) \<Rightarrow> Inl UdlErr_foreign_without_trait)"

section \<open>The attribute sets\<close>

fun dictionary_ok :: "UdlAttribute \<Rightarrow> bool" where
  "dictionary_ok Attr_Remote = True"
| "dictionary_ok (Attr_Traits l) = True"
| "dictionary_ok _ = False"

definition dictionary_attributes :: "WAttribute list \<Rightarrow> UdlError + UdlAttribute list" where
  "dictionary_attributes as = parse_attributes (only dictionary_ok ''dictionaries'') as"

fun enum_ok :: "UdlAttribute \<Rightarrow> bool" where
  "enum_ok Attr_Error = True"
| "enum_ok Attr_NonExhaustive = True"
| "enum_ok Attr_Remote = True"
| "enum_ok Attr_Enum = True"
| "enum_ok (Attr_Traits l) = True"
| "enum_ok _ = False"

definition enum_attributes :: "WAttribute list \<Rightarrow> UdlError + UdlAttribute list" where
  "enum_attributes as = parse_attributes (only enum_ok ''enums'') as"

fun function_ok :: "UdlAttribute \<Rightarrow> bool" where
  "function_ok (Attr_Throws nm) = True"
| "function_ok Attr_Async = True"
| "function_ok _ = False"

definition function_attributes :: "WAttribute list \<Rightarrow> UdlError + UdlAttribute list" where
  "function_attributes as = parse_attributes (only function_ok ''functions'') as"

fun argument_ok :: "UdlAttribute \<Rightarrow> bool" where
  "argument_ok Attr_ByRef = True"
| "argument_ok _ = False"

definition argument_attributes :: "WAttribute list \<Rightarrow> UdlError + UdlAttribute list" where
  "argument_attributes as = parse_attributes (only argument_ok ''arguments'') as"

fun interface_ok :: "UdlAttribute \<Rightarrow> bool" where
  "interface_ok Attr_Enum = True"
| "interface_ok Attr_Error = True"
| "interface_ok Attr_Trait = True"
| "interface_ok Attr_WithForeign = True"
| "interface_ok (Attr_Traits l) = True"
| "interface_ok Attr_Remote = True"
| "interface_ok _ = False"

text \<open>\<open>[Enum]\<close> is alone, or with anything else as long as \<open>Traits\<close> is there.\<close>

definition interface_attributes :: "WAttribute list \<Rightarrow> UdlError + UdlAttribute list" where
  "interface_attributes as =
     ebind (parse_attributes (only interface_ok ''interface definition'') as) (\<lambda>attrs.
       let ok_for_enum = (length attrs = 1 \<or> list_ex (\<lambda>a. attr_traits a \<noteq> None) attrs) in
       if list_ex is_enum_attr attrs \<and> \<not> ok_for_enum then Inl UdlErr_conflicting_attributes else Inr attrs)"

fun constructor_ok :: "UdlAttribute \<Rightarrow> bool" where
  "constructor_ok (Attr_Throws nm) = True"
| "constructor_ok (Attr_Name nm) = True"
| "constructor_ok Attr_Async = True"
| "constructor_ok _ = False"

definition constructor_attributes :: "WAttribute list \<Rightarrow> UdlError + UdlAttribute list" where
  "constructor_attributes as = parse_attributes (only constructor_ok ''constructors'') as"

fun method_ok :: "UdlAttribute \<Rightarrow> bool" where
  "method_ok Attr_SelfByArc = True"
| "method_ok (Attr_Throws nm) = True"
| "method_ok Attr_Async = True"
| "method_ok _ = False"

definition method_attributes :: "WAttribute list \<Rightarrow> UdlError + UdlAttribute list" where
  "method_attributes as = parse_attributes (only method_ok ''methods'') as"

fun typedef_ok :: "UdlAttribute \<Rightarrow> bool" where
  "typedef_ok (Attr_External nm) = True"
| "typedef_ok (Attr_Custom nm) = True"
| "typedef_ok _ = False"

definition typedef_attributes :: "WAttribute list \<Rightarrow> UdlError + UdlAttribute list" where
  "typedef_attributes as =
     ebind (parse_attributes (only typedef_ok ''typedefs'') as) (\<lambda>attrs.
       if length attrs > 1 then Inl UdlErr_typedef_attributes else Inr attrs)"

end
