(* ===== verification/UdlTypes.thy ===== *)
theory UdlTypes
  imports UdlAttributes
begin

text \<open>
  The named types of a UDL file: \<open>TypeCollector\<close> of \<open>collectors.rs\<close>, \<open>resolver.rs\<close>, which turns a type
  expression into a type, and \<open>finder.rs\<close>, the first pass, which collects the names.
\<close>

section \<open>The type collector\<close>

text \<open>The hash map is an association list without duplicate keys, in the order of insertion.\<close>

record TypeCollector =
  tc_namespace :: string
  tc_namespace_docstring :: "string option"
  tc_crate_name :: string
  tc_type_definitions :: "(string \<times> Type) list"

definition tc_new :: TypeCollector where
  "tc_new = \<lparr>tc_namespace = '''', tc_namespace_docstring = None, tc_crate_name = '''', tc_type_definitions = []\<rparr>"

definition tc_module_path :: "TypeCollector \<Rightarrow> string" where
  "tc_module_path types = tc_crate_name types"

fun is_record_or_enum :: "Type \<Rightarrow> bool" where
  "is_record_or_enum (Type_Record mp nm) = True"
| "is_record_or_enum (Type_Enum mp nm) = True"
| "is_record_or_enum _ = False"

definition tc_add_type_definition :: "string \<Rightarrow> Type \<Rightarrow> TypeCollector \<Rightarrow> UdlError + TypeCollector" where
  "tc_add_type_definition nm t types =
     (case map_of (tc_type_definitions types) nm of
        Some existing \<Rightarrow>
          if t = existing \<and> is_record_or_enum t then Inr types
          else Inl (UdlErr_conflicting_definition nm existing t)
      | None \<Rightarrow> Inr (types\<lparr>tc_type_definitions := tc_type_definitions types @ [(nm, t)]\<rparr>))"

definition get_type_definition :: "TypeCollector \<Rightarrow> string \<Rightarrow> Type option" where
  "get_type_definition types nm = map_of (tc_type_definitions types) nm"

section \<open>Type expressions (\<open>resolver.rs\<close>)\<close>

definition resolve_builtin_type :: "string \<Rightarrow> Type option" where
  "resolve_builtin_type nm =
     (if nm = ''string'' then Some Type_String
      else if nm = ''bytes'' then Some Type_Bytes
      else if nm = ''u8'' then Some Type_UInt8
      else if nm = ''i8'' then Some Type_Int8
      else if nm = ''u16'' then Some Type_UInt16
      else if nm = ''i16'' then Some Type_Int16
      else if nm = ''u32'' then Some Type_UInt32
      else if nm = ''i32'' then Some Type_Int32
      else if nm = ''u64'' then Some Type_UInt64
      else if nm = ''i64'' then Some Type_Int64
      else if nm = ''f32'' then Some Type_Float32
      else if nm = ''f64'' then Some Type_Float64
      else if nm = ''timestamp'' then Some Type_Timestamp
      else if nm = ''duration'' then Some Type_Duration
      else None)"

definition resolve_identifier :: "TypeCollector \<Rightarrow> string \<Rightarrow> UdlError + Type" where
  "resolve_identifier types nm =
     (case resolve_builtin_type nm of
        Some t \<Rightarrow> Inr t
      | None \<Rightarrow> ok_or (UdlErr_unknown_type nm) (get_type_definition types nm))"

fun resolve_floating_point :: "WFloatingPointType \<Rightarrow> UdlError + Type" where
  "resolve_floating_point (WFloat_Float unrestricted) =
     (if unrestricted then Inl (UdlErr_unsupported ''unrestricted float'') else Inr Type_Float32)"
| "resolve_floating_point (WFloat_Double unrestricted) =
     (if unrestricted then Inl (UdlErr_unsupported ''unrestricted double'') else Inr Type_Float64)"

text \<open>\<open>impl TypeResolver for MayBeNull\<close>: the inner expression, then the question mark.\<close>

definition may_be_null :: "UdlError + Type \<Rightarrow> bool \<Rightarrow> UdlError + Type" where
  "may_be_null r q_mark = ebind r (\<lambda>t. Inr (if q_mark then Type_Optional t else t))"

fun resolve_type_expression :: "TypeCollector \<Rightarrow> WType \<Rightarrow> UdlError + Type"
  and resolve_non_any :: "TypeCollector \<Rightarrow> WNonAnyType \<Rightarrow> UdlError + Type"
  and resolve_record_key :: "TypeCollector \<Rightarrow> WRecordKeyType \<Rightarrow> UdlError + Type" where
  "resolve_type_expression types WType_Any = Inl (UdlErr_unsupported ''any'')"
| "resolve_type_expression types (WType_NonAny t) = resolve_non_any types t"
| "resolve_type_expression types (WType_Union members q) = Inl (UdlErr_unsupported ''union types'')"
| "resolve_non_any types (W_Boolean q) = may_be_null (Inr Type_Boolean) q"
| "resolve_non_any types (W_Identifier nm q) = may_be_null (resolve_identifier types nm) q"
| "resolve_non_any types (W_Integer i q) = may_be_null (Inl (UdlErr_unsupported ''WebIDL integer types'')) q"
| "resolve_non_any types (W_FloatingPoint f q) = may_be_null (resolve_floating_point f) q"
| "resolve_non_any types (W_Sequence t q) =
     may_be_null (ebind (resolve_type_expression types t) (\<lambda>t. Inr (Type_Sequence t))) q"
| "resolve_non_any types (W_RecordType k v q) =
     may_be_null (ebind (resolve_record_key types k) (\<lambda>k.
       ebind (resolve_type_expression types v) (\<lambda>v. Inr (Type_Map k v)))) q"
| "resolve_non_any types t = Inl (UdlErr_type t)"
| "resolve_record_key types WKey_Byte = Inl (UdlErr_unsupported ''WebIDL Byte or USV string type'')"
| "resolve_record_key types WKey_USV = Inl (UdlErr_unsupported ''WebIDL Byte or USV string type'')"
| "resolve_record_key types WKey_DOM = Inr Type_String"
| "resolve_record_key types (WKey_NonAny t) = resolve_non_any types t"

definition resolve_attributed_type :: "TypeCollector \<Rightarrow> WAttribute list option \<Rightarrow> WType \<Rightarrow> UdlError + Type" where
  "resolve_attributed_type types attributes t =
     (if attributes \<noteq> None then Inl (UdlErr_unsupported ''type attributes'') else resolve_type_expression types t)"

text \<open>\<open>void\<close> is how older WebIDL writes \<open>undefined\<close>; the question mark of \<open>void?\<close> is not looked at.\<close>

fun is_void :: "WType \<Rightarrow> bool" where
  "is_void (WType_NonAny (W_Identifier nm q)) = (nm = ''void'')"
| "is_void _ = False"

fun resolve_return_type_expression :: "TypeCollector \<Rightarrow> WReturnType \<Rightarrow> UdlError + Type option" where
  "resolve_return_type_expression types WReturn_Undefined = Inr None"
| "resolve_return_type_expression types (WReturn_Type t) =
     (if is_void t then Inr None
      else ebind (resolve_type_expression types t) (\<lambda>t. Inr (Some t)))"

section \<open>Finding the named types (\<open>finder.rs\<close>)\<close>

definition find_interface :: "WInterface \<Rightarrow> TypeCollector \<Rightarrow> UdlError + TypeCollector" where
  "find_interface d types =
     (let nm = wi_identifier d in
      ebind (from_option interface_attributes (wi_attributes d)) (\<lambda>attrs.
        if contains_enum_attr attrs \<or> contains_error_attr attrs then
          tc_add_type_definition nm (Type_Enum (tc_module_path types) nm) types
        else ebind (object_impl attrs) (\<lambda>imp.
          tc_add_type_definition nm (Type_Object (tc_module_path types) nm imp) types)))"

definition find_dictionary :: "WDictionary \<Rightarrow> TypeCollector \<Rightarrow> UdlError + TypeCollector" where
  "find_dictionary d types =
     tc_add_type_definition (wd_identifier d) (Type_Record (tc_module_path types) (wd_identifier d)) types"

definition find_enum :: "WEnum \<Rightarrow> TypeCollector \<Rightarrow> UdlError + TypeCollector" where
  "find_enum d types =
     tc_add_type_definition (we_identifier d) (Type_Enum (tc_module_path types) (we_identifier d)) types"

fun typedef_identifier :: "WType \<Rightarrow> string option" where
  "typedef_identifier (WType_NonAny (W_Identifier i q)) = Some i"
| "typedef_identifier _ = None"

definition typedef_type :: "string \<Rightarrow> string \<Rightarrow> string \<Rightarrow> UdlError + Type" where
  "typedef_type kind mp nm =
     (if kind \<in> {''dictionary'', ''record'', ''struct''} then Inr (Type_Record mp nm)
      else if kind = ''enum'' then Inr (Type_Enum mp nm)
      else if kind \<in> {''interface'', ''impl''} then Inr (Type_Object mp nm ObjectImpl_Struct)
      else if kind = ''trait'' then Inr (Type_Object mp nm (ObjectImpl_Trait TraitKind_RustOnly))
      else if kind \<in> {''callback'', ''trait_with_foreign''} then Inr (Type_Object mp nm (ObjectImpl_Trait TraitKind_Both))
      else if kind = ''extern'' then Inl UdlErr_typedef_extern
      else Inl (UdlErr_unsupported kind))"

definition find_typedef :: "WTypedef \<Rightarrow> TypeCollector \<Rightarrow> UdlError + TypeCollector" where
  "find_typedef d types =
     (let nm = wt_identifier d in
      ebind (from_option typedef_attributes (wt_attributes d)) (\<lambda>attrs.
      let mp = (case get_crate_name attrs of Some c \<Rightarrow> c | None \<Rightarrow> tc_module_path types) in
      ebind (if is_custom attrs then
               ebind (resolve_attributed_type types (wt_type_attributes d) (wt_type d)) (\<lambda>builtin.
                 Inr (Type_Custom mp nm builtin))
             else case typedef_identifier (wt_type d) of
               None \<Rightarrow> Inl (UdlErr_unsupported nm)
             | Some kind \<Rightarrow> typedef_type kind mp nm) (\<lambda>ty.
      tc_add_type_definition nm ty types)))"

definition find_callback_interface :: "WInterface \<Rightarrow> TypeCollector \<Rightarrow> UdlError + TypeCollector" where
  "find_callback_interface d types =
     (if wi_attributes d \<noteq> None then Inl (UdlErr_unsupported ''callback interface attributes'')
      else tc_add_type_definition (wi_identifier d) (Type_CallbackInterface (tc_module_path types) (wi_identifier d)) types)"

fun add_type_definitions_to :: "WDefinition \<Rightarrow> TypeCollector \<Rightarrow> UdlError + TypeCollector" where
  "add_type_definitions_to (WDef_Interface d) types = find_interface d types"
| "add_type_definitions_to (WDef_Dictionary d) types = find_dictionary d types"
| "add_type_definitions_to (WDef_Enum d) types = find_enum d types"
| "add_type_definitions_to (WDef_Typedef d) types = find_typedef d types"
| "add_type_definitions_to (WDef_CallbackInterface d) types = find_callback_interface d types"
| "add_type_definitions_to _ types = Inr types"

definition add_type_definitions_from :: "WDefinition list \<Rightarrow> TypeCollector \<Rightarrow> UdlError + TypeCollector" where
  "add_type_definitions_from defns types = efold add_type_definitions_to defns types"

end
