(* ===== verification/UdlLiteral.thy ===== *)
theory UdlLiteral
  imports UdlTypes
begin

text \<open>
  \<open>uniffi_udl/src/literal.rs\<close>: the default value of a field or an argument, read at the type it has.  The
  parser only yields ASCII numerals, so \<open>to_lowercase\<close> is that of ASCII.  \<open>from_str_radix\<close> is modelled
  by the number that the digits denote: the library multiplies and adds digit by digit and fails as
  soon as the number no longer fits, which it then never does again.
\<close>

section \<open>Numerals\<close>

primrec radix_u32 :: "Radix \<Rightarrow> nat" where
  "radix_u32 Radix_Decimal = 10"
| "radix_u32 Radix_Octal = 8"
| "radix_u32 Radix_Hexadecimal = 16"

definition to_digit :: "nat \<Rightarrow> char \<Rightarrow> nat option" where
  "to_digit radix c =
     (let n = of_char c;
          v = (if 48 \<le> n \<and> n \<le> 57 then n - 48
               else if 97 \<le> n \<and> n \<le> 122 then n - 87
               else if 65 \<le> n \<and> n \<le> 90 then n - 55 else radix)
      in if v < radix then Some v else None)"

fun digits_value :: "nat \<Rightarrow> nat \<Rightarrow> string \<Rightarrow> nat option" where
  "digits_value radix acc [] = Some acc"
| "digits_value radix acc (c # s) =
     (case to_digit radix c of None \<Rightarrow> None | Some d \<Rightarrow> digits_value radix (acc * radix + d) s)"

definition nonempty_digits :: "nat \<Rightarrow> string \<Rightarrow> nat option" where
  "nonempty_digits radix s = (if s = [] then None else digits_value radix 0 s)"

definition u64_from_str_radix :: "string \<Rightarrow> nat \<Rightarrow> UdlError + u64" where
  "u64_from_str_radix s radix =
     (case nonempty_digits radix (if s \<noteq> [] \<and> hd s = CHR ''+'' then tl s else s) of
        Some n \<Rightarrow> if n < 2 ^ 64 then Inr (of_nat n) else Inl UdlErr_parse_int
      | None \<Rightarrow> Inl UdlErr_parse_int)"

definition i64_from_str_radix :: "string \<Rightarrow> nat \<Rightarrow> UdlError + u64" where
  "i64_from_str_radix s radix =
     (if s \<noteq> [] \<and> hd s = CHR ''-'' then
        (case nonempty_digits radix (tl s) of
           Some n \<Rightarrow> if n \<le> 2 ^ 63 then Inr (- of_nat n) else Inl UdlErr_parse_int
         | None \<Rightarrow> Inl UdlErr_parse_int)
      else
        (case nonempty_digits radix (if s \<noteq> [] \<and> hd s = CHR ''+'' then tl s else s) of
           Some n \<Rightarrow> if n < 2 ^ 63 then Inr (of_nat n) else Inl UdlErr_parse_int
         | None \<Rightarrow> Inl UdlErr_parse_int))"

section \<open>Literals\<close>

text \<open>\<open>trim_start_matches\<close> removes the prefix as often as it is there.\<close>

fun trim_start_0x :: "string \<Rightarrow> string" where
  "trim_start_0x (c # d # s) = (if c = CHR ''0'' \<and> d = CHR ''x'' then trim_start_0x s else c # d # s)"
| "trim_start_0x s = s"

definition lower_char :: "char \<Rightarrow> char" where
  "lower_char c = (let n = of_char c :: nat in if 65 \<le> n \<and> n \<le> 90 then char_of (n + 32) else c)"

definition to_lowercase :: "string \<Rightarrow> string" where
  "to_lowercase s = map lower_char s"

fun integer_text :: "WIntegerLit \<Rightarrow> string \<times> Radix" where
  "integer_text (WInt_Dec s) = (s, Radix_Decimal)"
| "integer_text (WInt_Hex s) = (s, Radix_Hexadecimal)"
| "integer_text (WInt_Oct s) = (s, Radix_Octal)"

definition starts_with_minus :: "string \<Rightarrow> bool" where
  "starts_with_minus s \<longleftrightarrow> s \<noteq> [] \<and> hd s = CHR ''-''"

definition dest_radix :: "string \<Rightarrow> Radix \<Rightarrow> Radix" where
  "dest_radix s radix = (if s = ''0'' \<or> starts_with_minus s then Radix_Decimal else radix)"

definition numeral_text :: "string \<Rightarrow> string" where
  "numeral_text s =
     (if starts_with_minus s then to_lowercase (CHR ''-'' # trim_start_0x (tl s))
      else to_lowercase (trim_start_0x s))"

definition is_signed_int :: "Type \<Rightarrow> bool" where
  "is_signed_int t \<longleftrightarrow> t \<in> {Type_Int8, Type_Int16, Type_Int32, Type_Int64}"

definition is_unsigned_int :: "Type \<Rightarrow> bool" where
  "is_unsigned_int t \<longleftrightarrow> t \<in> {Type_UInt8, Type_UInt16, Type_UInt32, Type_UInt64}"

definition convert_integer :: "WIntegerLit \<Rightarrow> Type \<Rightarrow> UdlError + LiteralMetadata" where
  "convert_integer lit t =
     (case integer_text lit of (s, radix) \<Rightarrow>
        let dest = dest_radix s radix; txt = numeral_text s in
        if is_signed_int t then
          ebind (i64_from_str_radix txt (radix_u32 radix)) (\<lambda>v. Inr (Literal_Int v dest t))
        else if is_unsigned_int t then
          ebind (u64_from_str_radix txt (radix_u32 radix)) (\<lambda>v. Inr (Literal_UInt v dest t))
        else Inl (UdlErr_literal_type txt t))"

fun convert_float :: "WFloatLit \<Rightarrow> Type \<Rightarrow> UdlError + LiteralMetadata" where
  "convert_float (WFloatLit_Value s) t =
     (if t \<in> {Type_Float32, Type_Float64} then Inr (Literal_Float s t) else Inl (UdlErr_literal_type s t))"
| "convert_float _ t = Inl (UdlErr_unsupported ''Infinity and NaN'')"

text \<open>What is tried for a type that is not \<open>Optional\<close>; the arms that come after \<open>Optional\<close> only concern
  such types as well.\<close>

definition convert_plain_value :: "WDefaultValue \<Rightarrow> Type \<Rightarrow> UdlError + LiteralMetadata" where
  "convert_plain_value d t =
     (case d of
        WDefault_Boolean b \<Rightarrow> if t = Type_Boolean then Inr (Literal_Boolean b) else Inl (UdlErr_literal d)
      | WDefault_String s \<Rightarrow>
          (case t of
             Type_String \<Rightarrow> Inr (Literal_String s)
           | Type_Enum mp nm \<Rightarrow> Inr (Literal_Enum s t)
           | _ \<Rightarrow> Inl (UdlErr_literal d))
      | WDefault_EmptyArray \<Rightarrow> (case t of Type_Sequence u \<Rightarrow> Inr Literal_EmptySequence | _ \<Rightarrow> Inl (UdlErr_literal d))
      | WDefault_EmptyDictionary \<Rightarrow> (case t of Type_Map k v \<Rightarrow> Inr Literal_EmptyMap | _ \<Rightarrow> Inl (UdlErr_literal d))
      | WDefault_Integer i \<Rightarrow> convert_integer i t
      | WDefault_Float f \<Rightarrow> convert_float f t
      | WDefault_Null \<Rightarrow> Inl (UdlErr_literal d))"

fun convert_default_value :: "WDefaultValue \<Rightarrow> Type \<Rightarrow> UdlError + LiteralMetadata" where
  "convert_default_value d (Type_Optional inner) =
     (if d = WDefault_Null then Inr Literal_None
      else ebind (convert_default_value d inner) (\<lambda>l. Inr (Literal_Some (DefaultValue_Literal l))))"
| "convert_default_value d t = convert_plain_value d t"

end
