(* ===== verification/UdlConvert.thy ===== *)
theory UdlConvert
  imports UdlLiteral
begin

text \<open>
  \<open>uniffi_udl/src/converters\<close> and the rest of \<open>collectors.rs\<close>: the nodes of a UDL file become metadata items.
  The converters only read the types that the first pass has collected; those that also insert items
  return the set of items.  \<open>textwrap::dedent\<close>, which every docstring goes through, is the argument \<open>dedent\<close>.
\<close>

type_synonym Items = "Metadata set"

section \<open>Arguments (\<open>callables.rs\<close>)\<close>

fun field_from_argument :: "TypeCollector \<Rightarrow> WArgument \<Rightarrow> UdlError + FieldMetadata" where
  "field_from_argument types (WArg_Single attributes optional type_attributes t nm dflt) =
     ebind (resolve_attributed_type types type_attributes t) (\<lambda>ty.
       if dflt \<noteq> None then Inl (UdlErr_unsupported ''default of a variant field'')
       else if attributes \<noteq> None then Inl (UdlErr_unsupported ''attributes of a variant field'')
       else Inr \<lparr>field_name = nm, field_orig_name = None, field_ty = ty, field_default = None, field_docstring = None\<rparr>)"
| "field_from_argument types (WArg_Variadic attributes t nm) = Inl (UdlErr_unsupported ''variadic arguments'')"

definition convert_default :: "Type \<Rightarrow> WDefaultValue option \<Rightarrow> UdlError + DefaultValueMetadata option" where
  "convert_default ty dflt = eoption (\<lambda>v. ebind (convert_default_value v ty) (\<lambda>l. Inr (DefaultValue_Literal l))) dflt"

fun param_from_argument :: "TypeCollector \<Rightarrow> WArgument \<Rightarrow> UdlError + FnParamMetadata" where
  "param_from_argument types (WArg_Single attributes optional type_attributes t nm dflt) =
     ebind (resolve_attributed_type types type_attributes t) (\<lambda>ty.
     ebind (convert_default ty dflt) (\<lambda>dflt.
     ebind (from_option argument_attributes attributes) (\<lambda>attrs. Inr
       \<lparr>param_name = nm, param_ty = ty, param_by_ref = attrs_by_ref attrs, param_optional = optional,
        param_default = dflt\<rparr>)))"
| "param_from_argument types (WArg_Variadic attributes t nm) = Inl (UdlErr_unsupported ''variadic arguments'')"

section \<open>Functions, constructors and methods\<close>

definition convert_throws :: "TypeCollector \<Rightarrow> string option \<Rightarrow> UdlError + Type option" where
  "convert_throws types throws = eoption (\<lambda>nm. ok_or (UdlErr_unknown_throws nm) (get_type_definition types nm)) throws"

definition fn_from_operation :: "(string \<Rightarrow> string) \<Rightarrow> TypeCollector \<Rightarrow> WNamespaceOperation \<Rightarrow> UdlError + FnMetadata" where
  "fn_from_operation dedent types f =
     ebind (resolve_return_type_expression types (wnop_return_type f)) (\<lambda>return_type.
     ebind (ok_or UdlErr_anonymous (wnop_identifier f)) (\<lambda>nm.
     ebind (from_option function_attributes (wnop_attributes f)) (\<lambda>attrs.
     ebind (convert_throws types (get_throws_err attrs)) (\<lambda>throws.
     ebind (emap (param_from_argument types) (wnop_args f)) (\<lambda>inputs. Inr
       \<lparr>fn_module_path = tc_module_path types, fn_name = nm, fn_orig_name = None, fn_is_async = attrs_is_async attrs,
        fn_inputs = inputs, fn_return_type = return_type, fn_throws = throws, fn_checksum = None,
        fn_docstring = map_option dedent (wnop_docstring f)\<rparr>)))))"

fun fn_from_member :: "(string \<Rightarrow> string) \<Rightarrow> TypeCollector \<Rightarrow> WNamespaceMember \<Rightarrow> UdlError + FnMetadata" where
  "fn_from_member dedent types (WNamespace_Operation f) = fn_from_operation dedent types f"
| "fn_from_member dedent types WNamespace_Attribute = Inl UdlErr_member"

text \<open>A constructor's error type is looked up with \<open>expect\<close>.\<close>

definition constructor_from_member ::
  "(string \<Rightarrow> string) \<Rightarrow> TypeCollector \<Rightarrow> WConstructor \<Rightarrow> UdlError + ConstructorMetadata" where
  "constructor_from_member dedent types c =
     ebind (from_option constructor_attributes (wctor_attributes c)) (\<lambda>attrs.
     ebind (eoption (\<lambda>nm. ok_or UdlErr_panic (get_type_definition types nm)) (get_throws_err attrs)) (\<lambda>throws.
     ebind (emap (param_from_argument types) (wctor_args c)) (\<lambda>inputs. Inr
       \<lparr>ctor_module_path = tc_module_path types, ctor_self_name = '''',
        ctor_name = (case get_name attrs of Some nm \<Rightarrow> nm | None \<Rightarrow> ''new''), ctor_orig_name = None,
        ctor_is_async = attrs_is_async attrs, ctor_inputs = inputs, ctor_throws = throws, ctor_checksum = None,
        ctor_docstring = map_option dedent (wctor_docstring c)\<rparr>)))"

definition member_name :: "string option \<Rightarrow> UdlError + string" where
  "member_name identifier =
     (case identifier of
        None \<Rightarrow> Inl UdlErr_anonymous
      | Some nm \<Rightarrow> if nm = ''new'' then Inl (UdlErr_unsupported ''new'') else Inr nm)"

definition method_from_member :: "(string \<Rightarrow> string) \<Rightarrow> TypeCollector \<Rightarrow> WOperation \<Rightarrow> UdlError + MethodMetadata" where
  "method_from_member dedent types m =
     (if wop_special m \<noteq> None then Inl (UdlErr_unsupported ''special operations'')
      else if wop_modifier m \<noteq> None then Inl (UdlErr_unsupported ''modifiers'')
      else
        ebind (resolve_return_type_expression types (wop_return_type m)) (\<lambda>return_type.
        ebind (from_option method_attributes (wop_attributes m)) (\<lambda>attrs.
        ebind (convert_throws types (get_throws_err attrs)) (\<lambda>throws.
        ebind (member_name (wop_identifier m)) (\<lambda>nm.
        ebind (emap (param_from_argument types) (wop_args m)) (\<lambda>inputs. Inr
          \<lparr>meth_module_path = tc_module_path types, meth_self_name = '''', meth_name = nm, meth_orig_name = None,
           meth_is_async = attrs_is_async attrs, meth_inputs = inputs, meth_return_type = return_type,
           meth_throws = throws, meth_takes_self_by_arc = get_self_by_arc attrs, meth_checksum = None,
           meth_docstring = map_option dedent (wop_docstring m)\<rparr>))))))"

definition trait_method_from_member ::
  "(string \<Rightarrow> string) \<Rightarrow> TypeCollector \<Rightarrow> WOperation \<Rightarrow> UdlError + TraitMethodMetadata" where
  "trait_method_from_member dedent types m =
     (if wop_special m \<noteq> None then Inl (UdlErr_unsupported ''special operations'')
      else if wop_modifier m \<noteq> None then Inl (UdlErr_unsupported ''modifiers'')
      else
        ebind (resolve_return_type_expression types (wop_return_type m)) (\<lambda>return_type.
        ebind (from_option method_attributes (wop_attributes m)) (\<lambda>attrs.
        ebind (convert_throws types (get_throws_err attrs)) (\<lambda>throws.
        ebind (member_name (wop_identifier m)) (\<lambda>nm.
        ebind (emap (param_from_argument types) (wop_args m)) (\<lambda>inputs. Inr
          \<lparr>tmeth_module_path = tc_module_path types, tmeth_trait_name = '''', tmeth_index = 0, tmeth_name = nm,
           tmeth_orig_name = None, tmeth_is_async = attrs_is_async attrs, tmeth_inputs = inputs,
           tmeth_return_type = return_type, tmeth_throws = throws, tmeth_takes_self_by_arc = get_self_by_arc attrs,
           tmeth_checksum = None, tmeth_docstring = map_option dedent (wop_docstring m)\<rparr>))))))"

section \<open>Records and enums (\<open>converters/mod.rs\<close>, \<open>enum_.rs\<close>)\<close>

text \<open>The name of a variant is parsed as the return type of an operation without a name.\<close>

fun variant_name :: "WReturnType \<Rightarrow> string option" where
  "variant_name (WReturn_Type (WType_NonAny (W_Identifier nm q))) = Some nm"
| "variant_name (WReturn_Type (WType_NonAny (W_Error q))) = Some ''Error''"
| "variant_name _ = None"

definition variant_from_operation ::
  "(string \<Rightarrow> string) \<Rightarrow> TypeCollector \<Rightarrow> WOperation \<Rightarrow> UdlError + VariantMetadata" where
  "variant_from_operation dedent types m =
     (if wop_special m \<noteq> None then Inl (UdlErr_unsupported ''special operations'')
      else if wop_modifier m = Some WModifier_Stringifier then Inl (UdlErr_unsupported ''stringifiers'')
      else if wop_identifier m \<noteq> None then Inl (UdlErr_unsupported ''method name of a variant'')
      else
        ebind (ok_or (UdlErr_unsupported ''variant name'') (variant_name (wop_return_type m))) (\<lambda>nm.
        ebind (emap (field_from_argument types) (wop_args m)) (\<lambda>fields. Inr
          \<lparr>var_name = nm, var_orig_name = None, var_discr = None, var_fields = fields,
           var_docstring = map_option dedent (wop_docstring m)\<rparr>)))"

fun variant_from_member ::
  "(string \<Rightarrow> string) \<Rightarrow> TypeCollector \<Rightarrow> WInterfaceMember \<Rightarrow> UdlError + VariantMetadata" where
  "variant_from_member dedent types (WMember_Operation m) = variant_from_operation dedent types m"
| "variant_from_member dedent types _ = Inl UdlErr_member"

definition make_trait_method :: "string \<Rightarrow> string \<Rightarrow> string \<Rightarrow> FnParamMetadata list \<Rightarrow> Type option \<Rightarrow> MethodMetadata" where
  "make_trait_method mp self_nm nm inputs return_type =
     \<lparr>meth_module_path = mp, meth_self_name = self_nm, meth_name = nm, meth_orig_name = None, meth_is_async = False,
      meth_inputs = inputs, meth_return_type = return_type, meth_throws = None, meth_takes_self_by_arc = False,
      meth_checksum = None, meth_docstring = None\<rparr>"

definition trait_other_param :: "Type \<Rightarrow> FnParamMetadata" where
  "trait_other_param other =
     \<lparr>param_name = ''other'', param_ty = other, param_by_ref = True, param_optional = False, param_default = None\<rparr>"

definition make_uniffi_trait :: "string \<Rightarrow> string \<Rightarrow> Type \<Rightarrow> string \<Rightarrow> UdlError + UniffiTraitMetadata" where
  "make_uniffi_trait mp self_nm other trait_nm =
     (let make = make_trait_method mp self_nm in
      if trait_nm = ''Debug'' then Inr (UniffiTrait_Debug (make ''uniffi_trait_debug'' [] (Some Type_String)))
      else if trait_nm = ''Display'' then Inr (UniffiTrait_Display (make ''uniffi_trait_display'' [] (Some Type_String)))
      else if trait_nm = ''Eq'' then
        Inr (UniffiTrait_Eq (make ''uniffi_trait_eq_eq'' [trait_other_param other] (Some Type_Boolean))
          (make ''uniffi_trait_eq_ne'' [trait_other_param other] (Some Type_Boolean)))
      else if trait_nm = ''Hash'' then Inr (UniffiTrait_Hash (make ''uniffi_trait_hash'' [] (Some Type_UInt64)))
      else if trait_nm = ''Ord'' then
        Inr (UniffiTrait_Ord (make ''uniffi_trait_ord_cmp'' [trait_other_param other] (Some Type_Int8)))
      else Inl (UdlErr_trait trait_nm))"

definition make_uniffi_traits :: "string \<Rightarrow> string \<Rightarrow> string list \<Rightarrow> Type \<Rightarrow> UdlError + UniffiTraitMetadata list" where
  "make_uniffi_traits mp self_nm names other = emap (make_uniffi_trait mp self_nm other) names"

definition insert_traits :: "UniffiTraitMetadata list \<Rightarrow> Items \<Rightarrow> Items" where
  "insert_traits uts items = items \<union> Metadata_UniffiTrait ` set uts"

definition field_from_member :: "(string \<Rightarrow> string) \<Rightarrow> TypeCollector \<Rightarrow> WDictionaryMember \<Rightarrow> UdlError + FieldMetadata" where
  "field_from_member dedent types m =
     (if wdm_attributes m \<noteq> None then Inl (UdlErr_unsupported ''dictionary member attributes'')
      else
        ebind (resolve_type_expression types (wdm_type m)) (\<lambda>ty.
        ebind (convert_default ty (wdm_default m)) (\<lambda>dflt. Inr
          \<lparr>field_name = wdm_identifier m, field_orig_name = None, field_ty = ty, field_default = dflt,
           field_docstring = map_option dedent (wdm_docstring m)\<rparr>)))"

definition record_from_dictionary ::
  "(string \<Rightarrow> string) \<Rightarrow> TypeCollector \<Rightarrow> WDictionary \<Rightarrow> Items \<Rightarrow> UdlError + RecordMetadata \<times> Items" where
  "record_from_dictionary dedent types d items =
     ebind (from_option dictionary_attributes (wd_attributes d)) (\<lambda>attrs.
     if wd_inheritance d \<noteq> None then Inl (UdlErr_unsupported ''dictionary inheritance'')
     else
       let mp = tc_module_path types; nm = wd_identifier d in
       ebind (make_uniffi_traits mp nm (get_traits attrs) (Type_Record mp nm)) (\<lambda>uts.
       ebind (emap (field_from_member dedent types) (wd_members d)) (\<lambda>fields. Inr
         (\<lparr>rec_module_path = mp, rec_name = nm, rec_orig_name = None, rec_remote = contains_remote attrs,
           rec_fields = fields, rec_docstring = map_option dedent (wd_docstring d)\<rparr>,
          insert_traits uts items))))"

definition variant_from_value :: "(string \<Rightarrow> string) \<Rightarrow> WEnumVariant \<Rightarrow> VariantMetadata" where
  "variant_from_value dedent v =
     \<lparr>var_name = wev_value v, var_orig_name = None, var_discr = None, var_fields = [],
      var_docstring = map_option dedent (wev_docstring v)\<rparr>"

text \<open>An \<open>enum\<close> definition accepts \<open>[Traits]\<close> and does nothing with it.\<close>

definition enum_from_enum :: "(string \<Rightarrow> string) \<Rightarrow> TypeCollector \<Rightarrow> WEnum \<Rightarrow> UdlError + EnumMetadata" where
  "enum_from_enum dedent types d =
     ebind (from_option enum_attributes (we_attributes d)) (\<lambda>attrs. Inr
       \<lparr>enum_module_path = tc_module_path types, enum_name = we_identifier d, enum_orig_name = None,
        enum_shape = (if contains_error_attr attrs then EnumShape_Error True else EnumShape_Enum),
        enum_remote = contains_remote attrs, enum_variants = map (variant_from_value dedent) (we_values d),
        enum_discr_type = None, enum_non_exhaustive = contains_non_exhaustive_attr attrs,
        enum_docstring = map_option dedent (we_docstring d)\<rparr>)"

definition enum_from_interface ::
  "(string \<Rightarrow> string) \<Rightarrow> TypeCollector \<Rightarrow> WInterface \<Rightarrow> Items \<Rightarrow> UdlError + EnumMetadata \<times> Items" where
  "enum_from_interface dedent types d items =
     (if wi_inheritance d \<noteq> None then Inl (UdlErr_unsupported ''interface inheritance'')
      else
        ebind (from_option enum_attributes (wi_attributes d)) (\<lambda>attrs.
        let mp = tc_module_path types; nm = wi_identifier d in
        ebind (make_uniffi_traits mp nm (get_traits attrs) (Type_Enum mp nm)) (\<lambda>uts.
        ebind (emap (variant_from_member dedent types) (wi_members d)) (\<lambda>variants. Inr
          (\<lparr>enum_module_path = mp, enum_name = nm, enum_orig_name = None,
            enum_shape = (if contains_error_attr attrs then EnumShape_Error False else EnumShape_Enum),
            enum_remote = contains_remote attrs, enum_variants = variants, enum_discr_type = None,
            enum_non_exhaustive = contains_non_exhaustive_attr attrs,
            enum_docstring = map_option dedent (wi_docstring d)\<rparr>,
           insert_traits uts items)))))"

section \<open>Callback interfaces and objects (\<open>interface.rs\<close>)\<close>

text \<open>The loop over \<open>enumerate()\<close>; the index is cast to \<open>u32\<close>.\<close>

fun callback_methods ::
  "(string \<Rightarrow> string) \<Rightarrow> TypeCollector \<Rightarrow> string \<Rightarrow> nat \<Rightarrow> WInterfaceMember list \<Rightarrow> Items \<Rightarrow> UdlError + Items" where
  "callback_methods dedent types object_name index [] items = Inr items"
| "callback_methods dedent types object_name index (member # ms) items =
     (case member of
        WMember_Operation t \<Rightarrow>
          ebind (trait_method_from_member dedent types t) (\<lambda>m.
          callback_methods dedent types object_name (Suc index) ms
            (insert (Metadata_TraitMethod (m\<lparr>tmeth_trait_name := object_name, tmeth_index := of_nat index\<rparr>)) items))
      | _ \<Rightarrow> Inl UdlErr_member)"

definition callback_from_interface ::
  "(string \<Rightarrow> string) \<Rightarrow> TypeCollector \<Rightarrow> WInterface \<Rightarrow> Items \<Rightarrow> UdlError + CallbackInterfaceMetadata \<times> Items" where
  "callback_from_interface dedent types d items =
     (if wi_attributes d \<noteq> None then Inl (UdlErr_unsupported ''callback interface attributes'')
      else if wi_inheritance d \<noteq> None then Inl (UdlErr_unsupported ''callback interface inheritance'')
      else
        ebind (callback_methods dedent types (wi_identifier d) 0 (wi_members d) items) (\<lambda>items. Inr
          (\<lparr>cb_module_path = tc_module_path types, cb_name = wi_identifier d,
            cb_docstring = map_option dedent (wi_docstring d)\<rparr>, items)))"

text \<open>The names seen so far guard against duplicates.\<close>

definition object_member ::
  "(string \<Rightarrow> string) \<Rightarrow> TypeCollector \<Rightarrow> string \<Rightarrow> ObjectImpl \<Rightarrow> WInterfaceMember \<Rightarrow>
    string set \<times> Items \<Rightarrow> UdlError + string set \<times> Items" where
  "object_member dedent types object_name imp member st =
     (case st of (names, items) \<Rightarrow>
        case member of
          WMember_Constructor t \<Rightarrow>
            ebind (constructor_from_member dedent types t) (\<lambda>c.
              if is_trait_interface imp then Inl (UdlErr_trait_constructor (ctor_name c))
              else if ctor_name c \<in> names then Inl (UdlErr_duplicate_member (ctor_name c))
              else Inr (insert (ctor_name c) names, insert (Metadata_Constructor (c\<lparr>ctor_self_name := object_name\<rparr>)) items))
        | WMember_Operation t \<Rightarrow>
            ebind (method_from_member dedent types t) (\<lambda>m.
              if meth_name m \<in> names then Inl (UdlErr_duplicate_member (meth_name m))
              else Inr (insert (meth_name m) names, insert (Metadata_Method (m\<lparr>meth_self_name := object_name\<rparr>)) items))
        | _ \<Rightarrow> Inl UdlErr_member)"

definition object_from_interface ::
  "(string \<Rightarrow> string) \<Rightarrow> TypeCollector \<Rightarrow> WInterface \<Rightarrow> Items \<Rightarrow> UdlError + ObjectMetadata \<times> Items" where
  "object_from_interface dedent types d items =
     (if wi_inheritance d \<noteq> None then Inl (UdlErr_unsupported ''interface inheritance'')
      else
        ebind (from_option interface_attributes (wi_attributes d)) (\<lambda>attrs.
        let mp = tc_module_path types; object_name = wi_identifier d in
        ebind (object_impl attrs) (\<lambda>imp.
        ebind (efold (object_member dedent types object_name imp) (wi_members d) ({}, items)) (\<lambda>(names, items).
        ebind (make_uniffi_traits mp object_name (get_traits attrs) (Type_Object mp object_name imp)) (\<lambda>uts. Inr
          (\<lparr>obj_module_path = mp, obj_name = object_name, obj_orig_name = None, obj_remote = contains_remote attrs,
            obj_imp = imp, obj_docstring = map_option dedent (wi_docstring d)\<rparr>,
           insert_traits uts items))))))"

section \<open>The interface collector (\<open>collectors.rs\<close>)\<close>

record InterfaceCollector =
  ic_types :: TypeCollector
  ic_items :: Items

definition ic_add_definition :: "Metadata \<Rightarrow> InterfaceCollector \<Rightarrow> InterfaceCollector" where
  "ic_add_definition defn ci = ci\<lparr>ic_items := insert defn (ic_items ci)\<rparr>"

definition process_namespace :: "(string \<Rightarrow> string) \<Rightarrow> WNamespace \<Rightarrow> InterfaceCollector \<Rightarrow> UdlError + InterfaceCollector" where
  "process_namespace dedent d ci =
     (if wn_attributes d \<noteq> None then Inl (UdlErr_unsupported ''namespace attributes'')
      else if wn_identifier d \<noteq> tc_namespace (ic_types ci) then Inl UdlErr_namespace
      else
        let types = (ic_types ci)\<lparr>tc_namespace_docstring := map_option dedent (wn_docstring d)\<rparr> in
        ebind (emap (fn_from_member dedent types) (wn_members d)) (\<lambda>fs. Inr
          (fold (\<lambda>f. ic_add_definition (Metadata_Func f)) fs (ci\<lparr>ic_types := types\<rparr>))))"

text \<open>A converter's item goes in after the items it has inserted itself.\<close>

definition with_item :: "('a \<Rightarrow> Metadata) \<Rightarrow> InterfaceCollector \<Rightarrow> 'a \<times> Items \<Rightarrow> InterfaceCollector" where
  "with_item into ci r = (case r of (a, items) \<Rightarrow> ic_add_definition (into a) (ci\<lparr>ic_items := items\<rparr>))"

fun process_definition :: "(string \<Rightarrow> string) \<Rightarrow> WDefinition \<Rightarrow> InterfaceCollector \<Rightarrow> UdlError + InterfaceCollector" where
  "process_definition dedent (WDef_Namespace d) ci = process_namespace dedent d ci"
| "process_definition dedent (WDef_Enum d) ci =
     ebind (enum_from_enum dedent (ic_types ci) d) (\<lambda>e. Inr (ic_add_definition (Metadata_Enum e) ci))"
| "process_definition dedent (WDef_Dictionary d) ci =
     ebind (record_from_dictionary dedent (ic_types ci) d (ic_items ci)) (\<lambda>r. Inr (with_item Metadata_Record ci r))"
| "process_definition dedent (WDef_Interface d) ci =
     ebind (from_option interface_attributes (wi_attributes d)) (\<lambda>attrs.
       if contains_enum_attr attrs \<or> contains_error_attr attrs then
         ebind (enum_from_interface dedent (ic_types ci) d (ic_items ci)) (\<lambda>r. Inr (with_item Metadata_Enum ci r))
       else
         ebind (object_from_interface dedent (ic_types ci) d (ic_items ci)) (\<lambda>r. Inr (with_item Metadata_Object ci r)))"
| "process_definition dedent (WDef_CallbackInterface d) ci =
     ebind (callback_from_interface dedent (ic_types ci) d (ic_items ci)) (\<lambda>r. Inr (with_item Metadata_CallbackInterface ci r))"
| "process_definition dedent (WDef_Typedef d) ci = Inr ci"
| "process_definition dedent d ci = Inl (UdlErr_definition d)"

definition process_definitions ::
  "(string \<Rightarrow> string) \<Rightarrow> WDefinition list \<Rightarrow> InterfaceCollector \<Rightarrow> UdlError + InterfaceCollector" where
  "process_definitions dedent defns ci = efold (process_definition dedent) defns ci"

fun find_namespace :: "WDefinition list \<Rightarrow> UdlError + string" where
  "find_namespace [] = Inl UdlErr_namespace"
| "find_namespace (WDef_Namespace n # ds) = Inr (wn_identifier n)"
| "find_namespace (d # ds) = find_namespace ds"

text \<open>Every custom type of the table becomes an item.\<close>

fun custom_type_item :: "Type \<Rightarrow> Metadata option" where
  "custom_type_item (Type_Custom mp nm builtin) = Some (Metadata_CustomType
     \<lparr>custom_module_path = mp, custom_name = nm, custom_orig_name = None, custom_builtin = builtin,
      custom_docstring = None\<rparr>)"
| "custom_type_item _ = None"

definition custom_type_items :: "TypeCollector \<Rightarrow> Items" where
  "custom_type_items types = set (List.map_filter (\<lambda>(nm, t). custom_type_item t) (tc_type_definitions types))"

text \<open>\<open>from_webidl\<close> after the parser: \<open>defns\<close> is what the whole text parses to.\<close>

definition from_webidl :: "(string \<Rightarrow> string) \<Rightarrow> WDefinition list \<Rightarrow> string \<Rightarrow> UdlError + InterfaceCollector" where
  "from_webidl dedent defns crate =
     ebind (find_namespace defns) (\<lambda>namespace.
     ebind (add_type_definitions_from defns (tc_new\<lparr>tc_namespace := namespace, tc_crate_name := crate\<rparr>)) (\<lambda>types.
     ebind (process_definitions dedent defns \<lparr>ic_types = types, ic_items = {}\<rparr>) (\<lambda>ci. Inr
       (ci\<lparr>ic_items := ic_items ci \<union> custom_type_items (ic_types ci)\<rparr>))))"

definition into_group :: "InterfaceCollector \<Rightarrow> MetadataGroup" where
  "into_group ci =
     \<lparr>grp_namespace = \<lparr>ns_crate_name = tc_module_path (ic_types ci), ns_name = tc_namespace (ic_types ci)\<rparr>,
      grp_namespace_docstring = tc_namespace_docstring (ic_types ci), grp_items = ic_items ci\<rparr>"

definition parse_udl :: "(string \<Rightarrow> string) \<Rightarrow> WDefinition list \<Rightarrow> string \<Rightarrow> UdlError + MetadataGroup" where
  "parse_udl dedent defns crate = ebind (from_webidl dedent defns crate) (\<lambda>ci. Inr (into_group ci))"

end
