(* ===== verification/UdlProps.thy ===== *)
theory UdlProps
  imports UdlConvert CiTypes
begin

text \<open>
  What a UDL file that \<open>uniffi_udl\<close> accepts guarantees: every name that an item mentions means the type that
  the file defines under it, so a component interface built from the items never finds two types of one
  name.
\<close>

section \<open>Names and the types they mean\<close>

definition named :: "(string \<Rightarrow> Type option) \<Rightarrow> Type \<Rightarrow> bool" where
  "named M t \<longleftrightarrow> (\<forall>s \<in> set (iter_types t). \<forall>nm. type_name s = Some nm \<longrightarrow> M nm = Some s)"

lemma named_simps [simp]:
  "named M (Type_Optional t) = named M t" "named M (Type_Sequence t) = named M t"
  "named M (Type_Map k v) \<longleftrightarrow> named M k \<and> named M v"
  "named M (Type_Custom mp nm t) \<longleftrightarrow> M nm = Some (Type_Custom mp nm t) \<and> named M t"
  "named M (Type_Record mp nm) \<longleftrightarrow> M nm = Some (Type_Record mp nm)"
  "named M (Type_Enum mp nm) \<longleftrightarrow> M nm = Some (Type_Enum mp nm)"
  "named M (Type_Object mp nm imp) \<longleftrightarrow> M nm = Some (Type_Object mp nm imp)"
  "named M (Type_CallbackInterface mp nm) \<longleftrightarrow> M nm = Some (Type_CallbackInterface mp nm)"
  "named M Type_Boolean" "named M Type_String" "named M Type_Float32" "named M Type_Float64" "named M Type_Int8" "named M Type_UInt64"
  by (auto simp: named_def)

lemma named_mono: "named M t \<Longrightarrow> M \<subseteq>\<^sub>m M' \<Longrightarrow> named M' t"
  by (auto simp: named_def map_le_def dom_def)

lemma named_self: "named M t \<Longrightarrow> type_name t = Some nm \<Longrightarrow> M nm = Some t"
  by (simp add: named_def)

lemma named_builtin: "resolve_builtin_type nm = Some t \<Longrightarrow> named M t"
  by (auto simp: resolve_builtin_type_def named_def split: if_splits)

section \<open>The collected types\<close>

definition tc_ok :: "TypeCollector \<Rightarrow> bool" where
  "tc_ok types \<longleftrightarrow> (\<forall>(nm, t) \<in> set (tc_type_definitions types).
     type_name t = Some nm \<and> named (get_type_definition types) t)"

definition tc_grows :: "TypeCollector \<Rightarrow> TypeCollector \<Rightarrow> bool" where
  "tc_grows a b \<longleftrightarrow> tc_crate_name b = tc_crate_name a \<and> get_type_definition a \<subseteq>\<^sub>m get_type_definition b"

lemma tc_ok_named: "tc_ok types \<Longrightarrow> get_type_definition types nm = Some t \<Longrightarrow> named (get_type_definition types) t"
  by (auto simp: tc_ok_def get_type_definition_def dest!: map_of_SomeD)

lemma may_be_null_Inr: "may_be_null r q = Inr t \<longleftrightarrow> (\<exists>s. r = Inr s \<and> t = (if q then Type_Optional s else s))"
  by (auto simp: may_be_null_def ebind_Inr_iff)

lemma resolve_named:
  assumes ok: "tc_ok types"
  shows "resolve_type_expression types t = Inr ty \<Longrightarrow> named (get_type_definition types) ty"
    "resolve_non_any types n = Inr ty \<Longrightarrow> named (get_type_definition types) ty"
    "resolve_record_key types k = Inr ty \<Longrightarrow> named (get_type_definition types) ty"
  using ok
proof (induction types t and types n and types k arbitrary: ty and ty and ty
    rule: resolve_type_expression_resolve_non_any_resolve_record_key.induct)
  case (5 types nm q)
  then show ?case
    by (auto simp: may_be_null_Inr resolve_identifier_def split: option.splits dest: named_builtin tc_ok_named)
next
  case (7 types f q)
  then show ?case by (cases f) (auto simp: may_be_null_Inr split: if_splits)
qed (auto simp: may_be_null_Inr ebind_Inr_iff)

lemma resolve_attributed_named:
  "tc_ok types \<Longrightarrow> resolve_attributed_type types attributes t = Inr ty \<Longrightarrow> named (get_type_definition types) ty"
  by (auto simp: resolve_attributed_type_def resolve_named split: if_splits)

lemma tc_add_ok:
  assumes "tc_add_type_definition nm t types = Inr types'" "tc_ok types" "type_name t = Some nm"
    and "\<And>M. get_type_definition types \<subseteq>\<^sub>m M \<Longrightarrow> M nm = Some t \<Longrightarrow> named M t"
  shows "tc_ok types'" "tc_grows types types'" "get_type_definition types' nm = Some t"
proof -
  have "tc_ok types' \<and> tc_grows types types' \<and> get_type_definition types' nm = Some t"
  proof (cases "get_type_definition types nm")
    case None
    with assms(1) have new: "types' = types\<lparr>tc_type_definitions := tc_type_definitions types @ [(nm, t)]\<rparr>"
      by (simp add: tc_add_type_definition_def get_type_definition_def)
    have le: "get_type_definition types \<subseteq>\<^sub>m get_type_definition types'" and at: "get_type_definition types' nm = Some t"
      using None by (auto simp: new get_type_definition_def map_le_def map_add_def split: option.split)
    have "type_name s = Some n \<and> named (get_type_definition types') s" if "(n, s) \<in> set (tc_type_definitions types')" for n s
    proof (cases "(n, s) = (nm, t)")
      case True
      with assms(3) assms(4) [OF le at] show ?thesis by simp
    next
      case False
      with that assms(2) have "type_name s = Some n" "named (get_type_definition types) s" by (auto simp: new tc_ok_def)
      with named_mono [OF _ le] show ?thesis by simp
    qed
    with le at show ?thesis by (auto simp: tc_ok_def tc_grows_def new)
  next
    case (Some s)
    with assms(1,2) show ?thesis
      by (auto simp: tc_add_type_definition_def get_type_definition_def tc_grows_def split: if_splits)
  qed
  then show "tc_ok types'" "tc_grows types types'" "get_type_definition types' nm = Some t" by auto
qed

text \<open>What the first pass finds in a definition.\<close>

fun declares :: "WDefinition \<Rightarrow> TypeCollector \<Rightarrow> bool" where
  "declares (WDef_Dictionary d) types \<longleftrightarrow>
     get_type_definition types (wd_identifier d) = Some (Type_Record (tc_module_path types) (wd_identifier d))"
| "declares (WDef_Enum d) types \<longleftrightarrow>
     get_type_definition types (we_identifier d) = Some (Type_Enum (tc_module_path types) (we_identifier d))"
| "declares (WDef_CallbackInterface d) types \<longleftrightarrow>
     get_type_definition types (wi_identifier d) = Some (Type_CallbackInterface (tc_module_path types) (wi_identifier d))"
| "declares (WDef_Interface d) types \<longleftrightarrow>
     (\<exists>attrs. from_option interface_attributes (wi_attributes d) = Inr attrs \<and>
        (if contains_enum_attr attrs \<or> contains_error_attr attrs then
           get_type_definition types (wi_identifier d) = Some (Type_Enum (tc_module_path types) (wi_identifier d))
         else \<exists>imp. object_impl attrs = Inr imp \<and>
           get_type_definition types (wi_identifier d) = Some (Type_Object (tc_module_path types) (wi_identifier d) imp)))"
| "declares _ types \<longleftrightarrow> True"

lemma declares_grows: "declares d a \<Longrightarrow> tc_grows a b \<Longrightarrow> declares d b"
  by (cases d) (auto simp: tc_grows_def tc_module_path_def map_le_def dom_def split: if_splits)

lemma tc_grows_module_path: "tc_grows a b \<Longrightarrow> tc_module_path b = tc_module_path a"
  by (simp add: tc_grows_def tc_module_path_def)

lemma find_interface_ok:
  assumes "find_interface d types = Inr types'" "tc_ok types"
  shows "tc_ok types' \<and> tc_grows types types' \<and> declares (WDef_Interface d) types'"
proof -
  let ?nm = "wi_identifier d" and ?mp = "tc_module_path types"
  from assms(1) obtain attrs where attrs: "from_option interface_attributes (wi_attributes d) = Inr attrs"
    by (auto simp: find_interface_def ebind_Inr_iff Let_def)
  show ?thesis
  proof (cases "contains_enum_attr attrs \<or> contains_error_attr attrs")
    case True
    with assms(1) attrs have "tc_add_type_definition ?nm (Type_Enum ?mp ?nm) types = Inr types'"
      by (auto simp: find_interface_def Let_def)
    from tc_add_ok [OF this assms(2)] True attrs show ?thesis by (auto simp: tc_grows_module_path)
  next
    case False
    with assms(1) attrs obtain imp where imp: "object_impl attrs = Inr imp"
      "tc_add_type_definition ?nm (Type_Object ?mp ?nm imp) types = Inr types'"
      by (auto simp: find_interface_def Let_def ebind_Inr_iff)
    from tc_add_ok [OF imp(2) assms(2)] False attrs imp(1) show ?thesis by (auto simp: tc_grows_module_path)
  qed
qed

lemma typedef_type_named:
  "typedef_type kind mp nm = Inr ty \<Longrightarrow> type_name ty = Some nm \<and> (M nm = Some ty \<longrightarrow> named M ty)"
  unfolding typedef_type_def by (simp split: if_splits) clarsimp+

lemma find_typedef_ok:
  assumes "find_typedef d types = Inr types'" "tc_ok types"
  shows "tc_ok types' \<and> tc_grows types types'"
proof -
  let ?nm = "wt_identifier d"
  from assms(1) obtain attrs where attrs: "from_option typedef_attributes (wt_attributes d) = Inr attrs"
    by (auto simp: find_typedef_def ebind_Inr_iff Let_def)
  define mp where "mp = (case get_crate_name attrs of Some c \<Rightarrow> c | None \<Rightarrow> tc_module_path types)"
  show ?thesis
  proof (cases "is_custom attrs")
    case True
    with assms(1) attrs have run: "ebind (resolve_attributed_type types (wt_type_attributes d) (wt_type d))
        (\<lambda>builtin. tc_add_type_definition ?nm (Type_Custom mp ?nm builtin) types) = Inr types'"
      unfolding find_typedef_def Let_def mp_def by simp
    then obtain builtin where b: "resolve_attributed_type types (wt_type_attributes d) (wt_type d) = Inr builtin" and
      add: "tc_add_type_definition ?nm (Type_Custom mp ?nm builtin) types = Inr types'"
      by (cases "resolve_attributed_type types (wt_type_attributes d) (wt_type d)") simp_all
    have name: "type_name (Type_Custom mp ?nm builtin) = Some ?nm" by simp
    have "named M (Type_Custom mp ?nm builtin)"
      if "get_type_definition types \<subseteq>\<^sub>m M" "M ?nm = Some (Type_Custom mp ?nm builtin)" for M
      using named_mono [OF resolve_attributed_named [OF assms(2) b] that(1)] that(2) by simp
    from tc_add_ok(1,2) [OF add assms(2) name this] show ?thesis by blast
  next
    case False
    with assms(1) attrs have run: "ebind (case typedef_identifier (wt_type d) of None \<Rightarrow> Inl (UdlErr_unsupported ?nm)
        | Some kind \<Rightarrow> typedef_type kind mp ?nm) (\<lambda>ty. tc_add_type_definition ?nm ty types) = Inr types'"
      unfolding find_typedef_def Let_def mp_def by simp
    then obtain kind where "typedef_identifier (wt_type d) = Some kind" by (cases "typedef_identifier (wt_type d)") simp_all
    with run obtain ty where ty: "typedef_type kind mp ?nm = Inr ty" and
      add: "tc_add_type_definition ?nm ty types = Inr types'" by (cases "typedef_type kind mp ?nm") simp_all
    have name: "type_name ty = Some ?nm" using typedef_type_named [OF ty] by blast
    have "named M ty" if "get_type_definition types \<subseteq>\<^sub>m M" "M ?nm = Some ty" for M using typedef_type_named [OF ty] that(2) by blast
    from tc_add_ok(1,2) [OF add assms(2) name this] show ?thesis by blast
  qed
qed

lemma find_definition_ok:
  assumes "add_type_definitions_to d types = Inr types'" "tc_ok types"
  shows "tc_ok types' \<and> tc_grows types types' \<and> declares d types'"
proof (cases d)
  case (WDef_CallbackInterface c)
  with assms(1) have "tc_add_type_definition (wi_identifier c) (Type_CallbackInterface (tc_module_path types) (wi_identifier c)) types = Inr types'"
    by (simp add: find_callback_interface_def split: if_splits)
  from tc_add_ok [OF this assms(2)] WDef_CallbackInterface show ?thesis by (auto simp: tc_grows_module_path)
next
  case (WDef_Dictionary c)
  with assms(1) have "tc_add_type_definition (wd_identifier c) (Type_Record (tc_module_path types) (wd_identifier c)) types = Inr types'"
    by (simp add: find_dictionary_def)
  from tc_add_ok [OF this assms(2)] WDef_Dictionary show ?thesis by (auto simp: tc_grows_module_path)
next
  case (WDef_Enum c)
  with assms(1) have "tc_add_type_definition (we_identifier c) (Type_Enum (tc_module_path types) (we_identifier c)) types = Inr types'"
    by (simp add: find_enum_def)
  from tc_add_ok [OF this assms(2)] WDef_Enum show ?thesis by (auto simp: tc_grows_module_path)
qed (use assms find_interface_ok find_typedef_ok in \<open>auto simp: tc_grows_def\<close>)

lemma tc_grows_trans: "tc_grows a b \<Longrightarrow> tc_grows b c \<Longrightarrow> tc_grows a c"
  unfolding tc_grows_def using map_le_trans by metis

lemma collected_types:
  assumes "add_type_definitions_from defns types0 = Inr types" "tc_ok types0"
  shows "tc_ok types" "tc_module_path types = tc_module_path types0" "\<forall>d \<in> set defns. declares d types"
proof -
  have "tc_ok types \<and> tc_grows types0 types \<and> (\<forall>d \<in> set defns. declares d types)"
    by (rule efold_gains [OF assms(1) [unfolded add_type_definitions_from_def], where P = tc_ok and R = tc_grows])
      (use assms(2) find_definition_ok tc_grows_trans declares_grows in \<open>auto simp: tc_grows_def\<close>)
  then show "tc_ok types" "tc_module_path types = tc_module_path types0" "\<forall>d \<in> set defns. declares d types"
    by (auto simp: tc_grows_module_path)
qed

section \<open>The items\<close>

definition item_named :: "TypeCollector \<Rightarrow> Metadata \<Rightarrow> bool" where
  "item_named types i \<longleftrightarrow> (\<forall>t \<in> item_types i. named (get_type_definition types) t)"

definition items_named :: "TypeCollector \<Rightarrow> Items \<Rightarrow> bool" where
  "items_named types items \<longleftrightarrow> (\<forall>i \<in> items. item_named types i)"

lemma items_named_insert [simp]: "items_named types (insert i items) \<longleftrightarrow> item_named types i \<and> items_named types items"
  by (auto simp: items_named_def)

lemma param_named: "param_from_argument types a = Inr p \<Longrightarrow> tc_ok types \<Longrightarrow> named (get_type_definition types) (param_ty p)"
  by (cases a) (auto simp: ebind_Inr_iff dest: resolve_attributed_named)

lemma field_arg_named: "field_from_argument types a = Inr f \<Longrightarrow> tc_ok types \<Longrightarrow> named (get_type_definition types) (field_ty f)"
  by (cases a) (auto simp: ebind_Inr_iff dest: resolve_attributed_named split: if_splits)

lemma field_member_named:
  "field_from_member dedent types m = Inr f \<Longrightarrow> tc_ok types \<Longrightarrow> named (get_type_definition types) (field_ty f)"
  by (auto simp: field_from_member_def ebind_Inr_iff dest: resolve_named split: if_splits)

lemma return_named:
  "resolve_return_type_expression types r = Inr ro \<Longrightarrow> tc_ok types \<Longrightarrow> t \<in> set_option ro \<Longrightarrow> named (get_type_definition types) t"
  by (cases r) (auto simp: ebind_Inr_iff dest: resolve_named split: if_splits)

lemma throws_named:
  "eoption (\<lambda>nm. ok_or (e nm) (get_type_definition types nm)) x = Inr thr \<Longrightarrow> tc_ok types \<Longrightarrow> t \<in> set_option thr \<Longrightarrow>
     named (get_type_definition types) t"
  by (auto simp: eoption_Inr_iff dest: tc_ok_named)

lemma params_named:
  assumes "emap (param_from_argument types) args = Inr inputs" "tc_ok types" "p \<in> set inputs"
  shows "named (get_type_definition types) (param_ty p)"
  using emap_mem [OF assms(1,3)] param_named assms(2) by auto

lemma fn_named:
  "fn_from_member dedent types m = Inr f \<Longrightarrow> tc_ok types \<Longrightarrow> item_named types (Metadata_Func f)"
  by (cases m) (auto simp: fn_from_operation_def convert_throws_def ebind_Inr_iff item_named_def callable_meta_types_def
    dest: params_named return_named throws_named)

lemma method_named:
  "method_from_member dedent types m = Inr f \<Longrightarrow> tc_ok types \<Longrightarrow> item_named types (Metadata_Method (f\<lparr>meth_self_name := nm\<rparr>))"
  by (auto simp: method_from_member_def convert_throws_def ebind_Inr_iff item_named_def callable_meta_types_def
    dest: params_named return_named throws_named split: if_splits)

lemma trait_method_named:
  "trait_method_from_member dedent types m = Inr f \<Longrightarrow> tc_ok types \<Longrightarrow>
     item_named types (Metadata_TraitMethod (f\<lparr>tmeth_trait_name := nm, tmeth_index := i\<rparr>))"
  by (auto simp: trait_method_from_member_def convert_throws_def ebind_Inr_iff item_named_def callable_meta_types_def
    dest: params_named return_named throws_named split: if_splits)

lemma constructor_named:
  assumes "constructor_from_member dedent types m = Inr c" "tc_ok types"
    and "get_type_definition types nm = Some (Type_Object (tc_module_path types) nm ObjectImpl_Struct)"
  shows "item_named types (Metadata_Constructor (c\<lparr>ctor_self_name := nm\<rparr>))"
  using assms by (auto simp: constructor_from_member_def ebind_Inr_iff item_named_def callable_meta_types_def
    dest: params_named throws_named)

lemma trait_item_named:
  assumes "make_uniffi_trait mp nm other trait_nm = Inr ut" "named (get_type_definition types) other"
  shows "item_named types (Metadata_UniffiTrait ut)"
  using assms by (auto simp: make_uniffi_trait_def Let_def make_trait_method_def trait_other_param_def item_named_def
    callable_meta_types_def split: if_splits)

lemma traits_named:
  assumes "make_uniffi_traits mp nm names other = Inr uts" "named (get_type_definition types) other" "items_named types items"
  shows "items_named types (insert_traits uts items)"
  using emap_mem [OF assms(1) [unfolded make_uniffi_traits_def]] trait_item_named [OF _ assms(2)] assms(3)
  unfolding items_named_def insert_traits_def by blast

lemma record_named:
  assumes "record_from_dictionary dedent types d items = Inr (r, items')" "tc_ok types" "declares (WDef_Dictionary d) types"
    "items_named types items"
  shows "item_named types (Metadata_Record r)" "items_named types items'"
proof -
  from assms(1) obtain attrs uts fields where a:
    "make_uniffi_traits (tc_module_path types) (wd_identifier d) (get_traits attrs)
       (Type_Record (tc_module_path types) (wd_identifier d)) = Inr uts"
    "emap (field_from_member dedent types) (wd_members d) = Inr fields"
    "rec_fields r = fields" "rec_module_path r = tc_module_path types" "rec_name r = wd_identifier d"
    "items' = insert_traits uts items"
    by (auto simp: record_from_dictionary_def ebind_Inr_iff Let_def split: if_splits)
  have "named (get_type_definition types) (field_ty f)" if "f \<in> set fields" for f
    using emap_mem [OF a(2) that] field_member_named assms(2) by auto
  with a(3-5) assms(3) show "item_named types (Metadata_Record r)" by (auto simp: item_named_def)
  from traits_named [OF a(1) _ assms(4)] assms(3) a(6) show "items_named types items'" by simp
qed

lemma enum_enum_named:
  "enum_from_enum dedent types d = Inr e \<Longrightarrow> declares (WDef_Enum d) types \<Longrightarrow> item_named types (Metadata_Enum e)"
  by (auto simp: enum_from_enum_def ebind_Inr_iff item_named_def variant_from_value_def)

lemma variant_fields_named:
  assumes "variant_from_member dedent types m = Inr v" "tc_ok types" "f \<in> set (var_fields v)"
  shows "named (get_type_definition types) (field_ty f)"
proof -
  from assms(1) obtain ar where "emap (field_from_argument types) ar = Inr (var_fields v)"
    by (cases m) (auto simp: variant_from_operation_def ebind_Inr_iff split: if_splits)
  from emap_mem [OF this assms(3)] field_arg_named assms(2) show ?thesis by auto
qed

lemma enum_interface_named:
  assumes "enum_from_interface dedent types d items = Inr (e, items')" "tc_ok types" "items_named types items"
    and M: "get_type_definition types (wi_identifier d) = Some (Type_Enum (tc_module_path types) (wi_identifier d))"
  shows "item_named types (Metadata_Enum e)" "items_named types items'"
proof -
  from assms(1) obtain attrs uts variants where a:
    "make_uniffi_traits (tc_module_path types) (wi_identifier d) (get_traits attrs)
       (Type_Enum (tc_module_path types) (wi_identifier d)) = Inr uts"
    "emap (variant_from_member dedent types) (wi_members d) = Inr variants"
    "enum_variants e = variants" "enum_module_path e = tc_module_path types" "enum_name e = wi_identifier d"
    "items' = insert_traits uts items"
    by (auto simp: enum_from_interface_def ebind_Inr_iff Let_def split: if_splits)
  have "named (get_type_definition types) (field_ty f)" if "v \<in> set variants" "f \<in> set (var_fields v)" for v f
    using emap_mem [OF a(2) that(1)] variant_fields_named assms(2) that(2) by auto
  with a(3-5) M show "item_named types (Metadata_Enum e)" by (auto simp: item_named_def)
  from traits_named [OF a(1) _ assms(3)] M a(6) show "items_named types items'" by simp
qed

lemma callback_methods_named:
  assumes "callback_methods dedent types nm i ms items = Inr items'" "tc_ok types" "items_named types items"
  shows "items_named types items'"
  using assms by (induction ms arbitrary: i items)
    (auto simp: ebind_Inr_iff trait_method_named split: WInterfaceMember.splits)

lemma object_member_named:
  assumes "object_member dedent types nm imp member (names, items) = Inr (names', items')" "tc_ok types" "items_named types items"
    and "get_type_definition types nm = Some (Type_Object (tc_module_path types) nm imp)"
  shows "items_named types items'"
proof (cases member)
  case (WMember_Constructor t)
  with assms(1) obtain c where c: "constructor_from_member dedent types t = Inr c" "\<not> is_trait_interface imp"
    "items' = insert (Metadata_Constructor (c\<lparr>ctor_self_name := nm\<rparr>)) items"
    by (auto simp: object_member_def ebind_Inr_iff split: if_splits)
  from c(2) have "imp = ObjectImpl_Struct" by (cases imp) simp_all
  with constructor_named [OF c(1) assms(2)] assms(3,4) c(3) show ?thesis by simp
qed (use assms method_named in \<open>auto simp: object_member_def ebind_Inr_iff split: if_splits\<close>)

lemma object_members_named:
  assumes "efold (object_member dedent types nm imp) ms st = Inr st'" "tc_ok types" "items_named types (snd st)"
    and "get_type_definition types nm = Some (Type_Object (tc_module_path types) nm imp)"
  shows "items_named types (snd st')"
  by (rule efold_invariant [OF assms(1), where P = "\<lambda>st. items_named types (snd st)"])
    (use assms(2-4) object_member_named in \<open>auto split: prod.splits\<close>)

lemma object_named:
  assumes "object_from_interface dedent types d items = Inr (ob, items')" "tc_ok types" "items_named types items"
    and attrs: "from_option interface_attributes (wi_attributes d) = Inr attrs" "object_impl attrs = Inr imp"
    and M: "get_type_definition types (wi_identifier d) = Some (Type_Object (tc_module_path types) (wi_identifier d) imp)"
  shows "item_named types (Metadata_Object ob)" "items_named types items'"
proof -
  from assms(1) attrs obtain names items1 uts where a:
    "efold (object_member dedent types (wi_identifier d) imp) (wi_members d) ({}, items) = Inr (names, items1)"
    "make_uniffi_traits (tc_module_path types) (wi_identifier d) (get_traits attrs)
       (Type_Object (tc_module_path types) (wi_identifier d) imp) = Inr uts"
    "obj_module_path ob = tc_module_path types" "obj_name ob = wi_identifier d" "obj_imp ob = imp"
    "items' = insert_traits uts items1"
    by (auto simp: object_from_interface_def ebind_Inr_iff Let_def split: if_splits)
  from a(3-5) M show "item_named types (Metadata_Object ob)" by (simp add: item_named_def)
  from object_members_named [OF a(1) assms(2) _ M] assms(3) have "items_named types items1" by simp
  from traits_named [OF a(2) _ this] M a(6) show "items_named types items'" by simp
qed

text \<open>The second pass changes nothing of the types but the docstring of the namespace.\<close>

definition same_types :: "TypeCollector \<Rightarrow> TypeCollector \<Rightarrow> bool" where
  "same_types a b \<longleftrightarrow> tc_type_definitions b = tc_type_definitions a \<and> tc_crate_name b = tc_crate_name a"

lemma same_types_simps:
  assumes "same_types a b"
  shows "get_type_definition b = get_type_definition a" "tc_module_path b = tc_module_path a" "tc_ok b = tc_ok a"
    "item_named b = item_named a" "items_named b = items_named a" "declares d b = declares d a"
proof -
  show [simp]: "get_type_definition b = get_type_definition a" "tc_module_path b = tc_module_path a"
    using assms by (auto simp: same_types_def get_type_definition_def tc_module_path_def)
  show "tc_ok b = tc_ok a" "item_named b = item_named a" using assms by (auto simp: same_types_def tc_ok_def item_named_def)
  then show "items_named b = items_named a" by (auto simp: items_named_def)
  show "declares d b = declares d a" by (cases d) simp_all
qed

definition ic_ok :: "InterfaceCollector \<Rightarrow> bool" where
  "ic_ok ci \<longleftrightarrow> tc_ok (ic_types ci) \<and> items_named (ic_types ci) (ic_items ci)"

lemma fold_add_functions:
  "ic_items (fold (\<lambda>f. ic_add_definition (Metadata_Func f)) fs ci) = ic_items ci \<union> Metadata_Func ` set fs"
  "ic_types (fold (\<lambda>f. ic_add_definition (Metadata_Func f)) fs ci) = ic_types ci"
  by (induction fs arbitrary: ci) (auto simp: ic_add_definition_def)

lemma process_namespace_ok:
  assumes "process_namespace dedent d ci = Inr ci'" "ic_ok ci"
  shows "ic_ok ci' \<and> same_types (ic_types ci) (ic_types ci')"
proof -
  let ?types = "(ic_types ci)\<lparr>tc_namespace_docstring := map_option dedent (wn_docstring d)\<rparr>"
  from assms(1) obtain fs where fs: "emap (fn_from_member dedent ?types) (wn_members d) = Inr fs"
    "ci' = fold (\<lambda>f. ic_add_definition (Metadata_Func f)) fs (ci\<lparr>ic_types := ?types\<rparr>)"
    by (auto simp: process_namespace_def ebind_Inr_iff Let_def split: if_splits)
  have same: "same_types (ic_types ci) ?types" by (simp add: same_types_def)
  note eqs = same_types_simps [OF same]
  have "item_named ?types (Metadata_Func f)" if "f \<in> set fs" for f
    using emap_mem [OF fs(1) that] fn_named assms(2) eqs(3) by (auto simp: ic_ok_def)
  with fs(2) assms(2) eqs same show ?thesis by (auto simp: ic_ok_def fold_add_functions items_named_def)
qed

lemma with_item_ok:
  assumes "ic_ok ci" "item_named (ic_types ci) (into a)" "items_named (ic_types ci) items"
  shows "ic_ok (with_item into ci (a, items)) \<and> same_types (ic_types ci) (ic_types (with_item into ci (a, items)))"
  using assms by (simp add: with_item_def ic_add_definition_def ic_ok_def same_types_def)

lemma process_interface_ok:
  assumes "process_definition dedent (WDef_Interface d) ci = Inr ci'" "ic_ok ci" "declares (WDef_Interface d) (ic_types ci)"
  shows "ic_ok ci' \<and> same_types (ic_types ci) (ic_types ci')"
proof -
  from assms(3) obtain attrs where attrs: "from_option interface_attributes (wi_attributes d) = Inr attrs" and
    M: "if contains_enum_attr attrs \<or> contains_error_attr attrs then
          get_type_definition (ic_types ci) (wi_identifier d) = Some (Type_Enum (tc_module_path (ic_types ci)) (wi_identifier d))
        else \<exists>imp. object_impl attrs = Inr imp \<and> get_type_definition (ic_types ci) (wi_identifier d) =
          Some (Type_Object (tc_module_path (ic_types ci)) (wi_identifier d) imp)" by auto
  from assms(2) have ok: "tc_ok (ic_types ci)" "items_named (ic_types ci) (ic_items ci)" by (simp_all add: ic_ok_def)
  show ?thesis
  proof (cases "contains_enum_attr attrs \<or> contains_error_attr attrs")
    case True
    with assms(1) attrs obtain e items where e: "enum_from_interface dedent (ic_types ci) d (ic_items ci) = Inr (e, items)"
      "ci' = with_item Metadata_Enum ci (e, items)" by (auto simp: ebind_Inr_iff)
    with with_item_ok [OF assms(2)] enum_interface_named [OF e(1) ok] True M show ?thesis by simp
  next
    case False
    with assms(1) attrs obtain ob items where ob: "object_from_interface dedent (ic_types ci) d (ic_items ci) = Inr (ob, items)"
      "ci' = with_item Metadata_Object ci (ob, items)" by (auto simp: ebind_Inr_iff)
    from False M obtain imp where "object_impl attrs = Inr imp" "get_type_definition (ic_types ci) (wi_identifier d) =
      Some (Type_Object (tc_module_path (ic_types ci)) (wi_identifier d) imp)" by auto
    with with_item_ok [OF assms(2)] object_named [OF ob(1) ok attrs] ob(2) show ?thesis by simp
  qed
qed

lemma process_definition_ok:
  assumes "process_definition dedent d ci = Inr ci'" "ic_ok ci" "declares d (ic_types ci)"
  shows "ic_ok ci' \<and> same_types (ic_types ci) (ic_types ci')"
proof (cases d)
  case (WDef_Dictionary c)
  with assms(1) obtain r items where r: "record_from_dictionary dedent (ic_types ci) c (ic_items ci) = Inr (r, items)"
    "ci' = with_item Metadata_Record ci (r, items)" by (auto simp: ebind_Inr_iff)
  with with_item_ok [OF assms(2)] record_named [OF r(1)] assms(2,3) WDef_Dictionary show ?thesis by (simp add: ic_ok_def)
next
  case (WDef_CallbackInterface c)
  with assms(1) obtain m items where r: "callback_from_interface dedent (ic_types ci) c (ic_items ci) = Inr (m, items)"
    "ci' = with_item Metadata_CallbackInterface ci (m, items)" by (auto simp: ebind_Inr_iff)
  from r(1) have cb: "callback_methods dedent (ic_types ci) (wi_identifier c) 0 (wi_members c) (ic_items ci) = Inr items"
    "cb_name m = wi_identifier c" "cb_module_path m = tc_module_path (ic_types ci)"
    by (auto simp: callback_from_interface_def ebind_Inr_iff split: if_splits)
  have "item_named (ic_types ci) (Metadata_CallbackInterface m)"
    using cb(2,3) assms(3) WDef_CallbackInterface by (simp add: item_named_def)
  with with_item_ok [OF assms(2)] callback_methods_named [OF cb(1)] assms(2) r(2) show ?thesis by (simp add: ic_ok_def)
next
  case (WDef_Enum c)
  with assms show ?thesis
    by (auto simp: ebind_Inr_iff ic_ok_def same_types_def ic_add_definition_def dest: enum_enum_named)
qed (use assms process_namespace_ok process_interface_ok in \<open>auto simp: same_types_def\<close>)

lemma custom_items_named: "tc_ok types \<Longrightarrow> i \<in> custom_type_items types \<Longrightarrow> item_named types i"
  by (auto simp: custom_type_items_def tc_ok_def item_named_def List.map_filter_def elim!: custom_type_item.elims)

lemma from_webidl_named:
  assumes "from_webidl dedent defns crate = Inr ci"
  shows "items_named (ic_types ci) (ic_items ci)"
proof -
  from assms obtain ns types ci1 where
    f: "add_type_definitions_from defns (tc_new\<lparr>tc_namespace := ns, tc_crate_name := crate\<rparr>) = Inr types" and
    p: "process_definitions dedent defns \<lparr>ic_types = types, ic_items = {}\<rparr> = Inr ci1" and
    ci: "ci = ci1\<lparr>ic_items := ic_items ci1 \<union> custom_type_items (ic_types ci1)\<rparr>"
    by (auto simp: from_webidl_def ebind_Inr_iff)
  have "tc_ok (tc_new\<lparr>tc_namespace := ns, tc_crate_name := crate\<rparr>)" by (simp add: tc_ok_def tc_new_def)
  note c = collected_types [OF f this]
  have "ic_ok ci1 \<and> same_types types (ic_types ci1)"
  proof (rule efold_invariant [OF p [unfolded process_definitions_def], where P = "\<lambda>ci. ic_ok ci \<and> same_types types (ic_types ci)"])
    fix d s s' assume d: "d \<in> set defns" "ic_ok s \<and> same_types types (ic_types s)" "process_definition dedent d s = Inr s'"
    from d(1,2) c(3) have "declares d (ic_types s)" using same_types_simps(6) [of types "ic_types s" d] by simp
    with process_definition_ok [OF d(3)] d(2) show "ic_ok s' \<and> same_types types (ic_types s')" by (simp add: same_types_def)
  next
    show "ic_ok \<lparr>ic_types = types, ic_items = {}\<rparr> \<and> same_types types (ic_types \<lparr>ic_types = types, ic_items = {}\<rparr>)"
      using c by (simp add: ic_ok_def items_named_def same_types_def)
  qed
  with ci custom_items_named show ?thesis by (auto simp: ic_ok_def items_named_def)
qed

end
