(* ===== verification/UdlInterface.thy ===== *)
theory UdlInterface
  imports UdlProps
begin

text \<open>
  The component interface that is built from a UDL file: the operations of \<open>interface\<close> never find a type
  that contradicts one they know, when all the types they are given agree on what the names mean.
\<close>

section \<open>Learning types that agree\<close>

definition within :: "(string \<Rightarrow> Type option) \<Rightarrow> ComponentInterface \<Rightarrow> bool" where
  "within M ci \<longleftrightarrow> tu_type_definitions (ci_types ci) \<subseteq>\<^sub>m M"

lemma efold_total:
  assumes "\<And>x s. x \<in> set xs \<Longrightarrow> P s \<Longrightarrow> \<exists>s'. f x s = Inr s' \<and> P s'" "P s"
  shows "\<exists>s'. efold f xs s = Inr s' \<and> P s'"
  using assms
proof (induction xs arbitrary: s)
  case (Cons x xs)
  from Cons.prems(1) [of x s] Cons.prems(2) obtain s1 where s1: "f x s = Inr s1" "P s1" by auto
  have "\<exists>s'. efold f xs s1 = Inr s' \<and> P s'" by (rule Cons.IH) (use Cons.prems(1) s1(2) in auto)
  with s1(1) show ?case by simp
qed simp

lemma iter_types_closed:
  "s \<in> set (iter_types t) \<Longrightarrow> set (iter_types s) \<subseteq> set (iter_types t)"
  "s \<in> set (iter_nested_types t) \<Longrightarrow> set (iter_types s) \<subseteq> set (iter_nested_types t)"
  by (induction t and t arbitrary: s and s rule: iter_types_iter_nested_types.induct) fastforce+

lemma named_inner: "named M t \<Longrightarrow> s \<in> set (iter_types t) \<Longrightarrow> named M s"
  unfolding named_def using iter_types_closed(1) by blast

lemma add_known_type_total:
  assumes "named M t" "tu_type_definitions u \<subseteq>\<^sub>m M"
  shows "\<exists>u'. add_known_type t u = Inr u' \<and> tu_type_definitions u' \<subseteq>\<^sub>m M"
  using assms
proof (induction t u rule: add_known_type.induct)
  case (1 t u)
  let ?u = "if t \<in> tu_all_known_types u then u
            else u\<lparr>tu_all_known_types := insert (normalize_type_module_path t) (tu_all_known_types u)\<rparr>"
  have start: "tu_type_definitions ?u \<subseteq>\<^sub>m M" using "1.prems"(2) by simp
  have "\<exists>u1. efold add_known_type (iter_nested_types t) ?u = Inr u1 \<and> tu_type_definitions u1 \<subseteq>\<^sub>m M"
  proof (rule efold_total [where P = "\<lambda>u :: TypeUniverse. tu_type_definitions u \<subseteq>\<^sub>m M"])
    show "tu_type_definitions ?u \<subseteq>\<^sub>m M" by (fact start)
  next
    fix s and u0 :: TypeUniverse assume s: "s \<in> set (iter_nested_types t)" and u0: "tu_type_definitions u0 \<subseteq>\<^sub>m M"
    have "named M s" by (rule named_inner [OF "1.prems"(1)]) (use s in simp)
    from "1.IH" [OF refl s this u0] show "\<exists>u'. add_known_type s u0 = Inr u' \<and> tu_type_definitions u' \<subseteq>\<^sub>m M" .
  qed
  then obtain u1 where u1: "efold add_known_type (iter_nested_types t) ?u = Inr u1" "tu_type_definitions u1 \<subseteq>\<^sub>m M" by blast
  have "add_known_type t u = (case type_name t of None \<Rightarrow> Inr u1 | Some nm \<Rightarrow> add_type_definition nm t u1)"
    by (subst add_known_type.simps) (simp add: Let_def u1(1))
  moreover have "\<exists>u'. (case type_name t of None \<Rightarrow> Inr u1 | Some nm \<Rightarrow> add_type_definition nm t u1) = Inr u' \<and>
      tu_type_definitions u' \<subseteq>\<^sub>m M"
  proof (cases "type_name t")
    case (Some nm)
    with "1.prems"(1) have M: "M nm = Some t" by (rule named_self)
    with u1(2) have "cur = t" if "tu_type_definitions u1 nm = Some cur" for cur
      using that by (auto simp: map_le_def dom_def)
    with u1(2) M Some show ?thesis
      by (cases "tu_type_definitions u1 nm") (auto simp: add_type_definition_def map_le_def)
  qed (use u1(2) in simp)
  ultimately show ?case by metis
qed

lemma learn_types_total:
  assumes "\<And>t. t \<in> set ts \<Longrightarrow> named M t" "within M ci"
  shows "\<exists>ci'. learn_types ts ci = Inr ci' \<and> within M ci'"
proof -
  have "\<exists>u. efold add_known_type ts (ci_types ci) = Inr u \<and> tu_type_definitions u \<subseteq>\<^sub>m M"
    by (rule efold_total [where P = "\<lambda>u :: TypeUniverse. tu_type_definitions u \<subseteq>\<^sub>m M"]) (use assms add_known_type_total in \<open>auto simp: within_def\<close>)
  then show ?thesis by (auto simp: learn_types_def add_known_types_def within_def)
qed

section \<open>No operation finds a contradiction\<close>

text \<open>An operation that may fail, but not with two types for one name.\<close>

fun is_clash :: "CiError \<Rightarrow> bool" where
  "is_clash (CiErr_conflicting_types a b) = True"
| "is_clash _ = False"

definition agrees :: "(string \<Rightarrow> Type option) \<Rightarrow> CiError + ComponentInterface \<Rightarrow> bool" where
  "agrees M r \<longleftrightarrow> (case r of Inl e \<Rightarrow> \<not> is_clash e | Inr ci \<Rightarrow> within M ci)"

lemma agrees_simps [simp]: "agrees M (Inl e) \<longleftrightarrow> \<not> is_clash e" "agrees M (Inr ci) \<longleftrightarrow> within M ci"
  by (simp_all add: agrees_def)

lemma agrees_bind: "agrees M r \<Longrightarrow> (\<And>ci. within M ci \<Longrightarrow> agrees M (f ci)) \<Longrightarrow> agrees M (ebind r f)"
  by (cases r) simp_all

lemma agrees_learn: "(\<And>t. t \<in> set ts \<Longrightarrow> named M t) \<Longrightarrow> within M ci \<Longrightarrow> agrees M (learn_types ts ci)"
  using learn_types_total [of ts M ci] by auto

lemma within_types: "ci_types ci' = ci_types ci \<Longrightarrow> within M ci' = within M ci"
  by (simp add: within_def)

lemma throws_name_no_clash: "throws_name thr = Inl e \<Longrightarrow> \<not> is_clash e"
  by (auto simp: throws_name_def split: option.splits Type.splits)

lemma agrees_learn_error: "within M ci \<Longrightarrow> agrees M (learn_error thr ci)"
  by (cases "throws_name thr") (auto simp: learn_error_def within_def throws_name_no_clash split: option.split)

definition all_named :: "(string \<Rightarrow> Type option) \<Rightarrow> Type set \<Rightarrow> bool" where
  "all_named M ts \<longleftrightarrow> (\<forall>t \<in> ts. named M t)"

lemma callable_named:
  assumes "all_named M (callable_meta_types inputs r thr)" "t \<in> set (cal_iter_types (map carg_from_metadata inputs) r thr)"
  shows "named M t"
  using assms named_inner by (auto simp: callable_learned all_named_def simp del: iter_types.simps)

lemma agrees_callable:
  assumes "all_named M (callable_meta_types inputs r thr)" "within M ci" "\<And>ci. within M ci \<Longrightarrow> within M (f ci)"
  shows "agrees M (ebind (learn_types (cal_iter_types (map carg_from_metadata inputs) r thr) ci) (\<lambda>ci.
           ebind (learn_error e ci) (\<lambda>ci. Inr (f ci))))"
  by (intro agrees_bind agrees_learn agrees_learn_error callable_named [OF assms(1)] assms(2)) (use assms(3) in auto)

lemma within_push [simp]:
  "within M (push_method own m ci) = within M ci" "within M (push_constructor own c ci) = within M ci"
  by (simp_all add: within_def)

lemma add_function_agrees:
  assumes "all_named M (item_types (Metadata_Func m))" "within M ci"
  shows "agrees M (add_item_to_ci (Metadata_Func m) ci)"
  using agrees_callable [of M "fn_inputs m" "fn_return_type m" "fn_throws m" ci] assms
  by (simp add: add_function_definition_def cfu_iter_types_def cfu_from_metadata_def within_def)

lemma add_constructor_agrees:
  assumes "all_named M (item_types (Metadata_Constructor m))" "within M ci"
  shows "agrees M (add_constructor_meta m ci)"
  using agrees_callable [of M "ctor_inputs m" _ "ctor_throws m" ci] assms
  by (simp add: add_constructor_meta_def Let_def cco_iter_types_def cco_from_metadata_def split: option.split)

lemma add_method_agrees:
  assumes "all_named M (item_types (Metadata_Method m))" "within M ci"
  shows "agrees M (add_method_meta m ci)"
  using agrees_callable [of M "meth_inputs m" "meth_return_type m" "meth_throws m" ci] assms
  by (simp add: add_method_meta_def Let_def cme_iter_types_def cme_from_metadata_def split: option.split)

lemma add_trait_method_agrees:
  assumes "all_named M (item_types (Metadata_TraitMethod m))" "within M ci"
  shows "agrees M (add_trait_method_meta m ci)"
proof (cases "find (\<lambda>c. ccb_name c = tmeth_trait_name m) (ci_callback_interfaces ci)")
  case None
  with assms add_method_agrees [of M "method_from_trait_method m" ci] show ?thesis
    by (simp add: add_trait_method_meta_def method_from_trait_method_def)
next
  case (Some cbi)
  let ?d = "cme_from_metadata (method_from_trait_method m) (ccb_as_type cbi)"
  let ?ci = "case cme_throws ?d of None \<Rightarrow> ci
    | Some error \<Rightarrow> ci\<lparr>ci_callback_interface_throws_types := insert error (ci_callback_interface_throws_types ci)\<rparr>"
  have "within M ?ci" using assms(2) by (simp add: within_def split: option.split)
  from agrees_callable [OF assms(1) [unfolded item_types.simps] this, of "\<lambda>ci. ci\<lparr>ci_callback_interfaces :=
      update_first (\<lambda>c. ccb_name c = tmeth_trait_name m) (\<lambda>c. c\<lparr>ccb_methods := ccb_methods c @ [?d]\<rparr>) (ci_callback_interfaces ci)\<rparr>"
      "cme_throws ?d"] Some
  show ?thesis
    by (simp add: add_trait_method_meta_def Let_def cme_iter_types_def cme_from_metadata_def method_from_trait_method_def within_def)
qed

lemma add_uniffitrait_agrees:
  assumes "all_named M (item_types (Metadata_UniffiTrait m))" "within M ci"
  shows "agrees M (add_uniffitrait_meta m ci)"
proof (cases "tu_type_definitions (ci_types ci) (trait_self_name m)")
  case (Some receiver)
  have "named M t" if "t \<in> set (ctr_iter_types (ctr_from_metadata m receiver))" for t
    using that assms(1) by (cases m)
      (auto simp: ctr_iter_types_def cme_iter_types_def cme_from_metadata_def all_named_def ball_Un simp del: iter_types.simps
        intro: callable_named [unfolded all_named_def])
  from agrees_learn [OF this assms(2)] Some show ?thesis
    unfolding add_uniffitrait_meta_def Let_def by (auto intro!: agrees_bind simp: within_def)
qed (simp add: add_uniffitrait_meta_def Let_def)

lemma fields_named:
  assumes "all_named M (field_ty ` set fs)" "t \<in> set (fields_iter_types (map cfd_from_metadata fs))"
  shows "named M t"
  using assms named_inner by (auto simp: fields_learned all_named_def simp del: iter_types.simps)

lemma add_record_agrees:
  assumes "all_named M (item_types (Metadata_Record m))" "within M ci"
  shows "agrees M (add_item_to_ci (Metadata_Record m) ci)"
proof -
  have own: "named M (Type_Record (rec_module_path m) (rec_name m))" and fields: "all_named M (field_ty ` set (rec_fields m))"
    using assms(1) by (simp_all add: all_named_def)
  have "agrees M (add_record_definition (cre_from_metadata m) ci)" if "within M ci" for ci
    unfolding add_record_definition_def using that fields_named [OF fields]
    by (auto intro!: agrees_bind agrees_learn simp: cre_iter_types_def cre_from_metadata_def within_def)
  then show ?thesis unfolding add_item_to_ci.simps by (intro agrees_bind agrees_learn assms(2)) (use own in auto)
qed

lemma add_enum_agrees:
  assumes "all_named M (item_types (Metadata_Enum m))" "within M ci"
  shows "agrees M (add_item_to_ci (Metadata_Enum m) ci)"
proof -
  have own: "named M (Type_Enum (enum_module_path m) (enum_name m))" and
    fields: "\<And>v. v \<in> set (enum_variants m) \<Longrightarrow> all_named M (field_ty ` set (var_fields v))"
    using assms(1) by (auto simp: all_named_def)
  have types: "named M t" if "t \<in> set (cen_iter_types (cen_from_metadata m))" for t
    using that fields_named [OF fields] by (auto simp: cen_iter_types_def cen_from_metadata_def cva_iter_types_def cva_from_metadata_def)
  have "agrees M (add_enum_definition (cen_from_metadata m) ci)" if "within M ci" for ci
    unfolding add_enum_definition_def Let_def using that types by (auto intro!: agrees_bind agrees_learn simp: within_def)
  then show ?thesis unfolding add_item_to_ci.simps by (intro agrees_bind agrees_learn assms(2)) (use own in auto)
qed

lemma add_item_agrees:
  assumes "all_named M (item_types i)" "within M ci"
  shows "agrees M (add_item_to_ci i ci)"
proof (cases i)
  case (Metadata_Object m)
  then have own: "named M (Type_Object (obj_module_path m) (obj_name m) (obj_imp m))" using assms(1) by (simp add: all_named_def)
  have "agrees M (add_object_meta m ci)" if "within M ci" for ci
    unfolding add_object_meta_def Let_def using that own
    by (auto intro!: agrees_bind agrees_learn simp: cob_as_type_def cob_iter_types_def cob_from_metadata_def within_def)
  then show ?thesis unfolding Metadata_Object add_item_to_ci.simps
    by (intro agrees_bind agrees_learn assms(2)) (use own in auto)
next
  case (Metadata_CallbackInterface m)
  then have own: "named M (Type_CallbackInterface (cb_module_path m) (cb_name m))" using assms(1) by (simp add: all_named_def)
  show ?thesis unfolding Metadata_CallbackInterface add_item_to_ci.simps add_callback_interface_definition_def using own assms(2)
    by (auto intro!: agrees_bind agrees_learn simp: ccb_as_type_def ccb_iter_types_def ccb_from_metadata_def within_def)
next
  case (Metadata_CustomType m)
  then have own: "named M (Type_Custom (custom_module_path m) (custom_name m) (custom_builtin m))"
    using assms(1) by (simp add: all_named_def)
  have "agrees M (add_custom_type_definition (ccu_from_metadata m) ci)" if "within M ci" for ci
    unfolding add_custom_type_definition_def using that by (auto simp: within_def split: option.split)
  then show ?thesis unfolding Metadata_CustomType add_item_to_ci.simps
    by (intro agrees_bind agrees_learn assms(2)) (use own in auto)
next
  case (Metadata_ObjectTraitImpl m)
  with assms(2) show ?thesis by (simp add: add_object_trait_impl_def within_def split: option.split)
qed (use assms add_function_agrees add_constructor_agrees add_method_agrees add_trait_method_agrees add_uniffitrait_agrees
    add_record_agrees add_enum_agrees in \<open>simp_all del: item_types.simps\<close>)

lemma items_agree:
  assumes "\<And>i. i \<in> set items \<Longrightarrow> all_named M (item_types i)" "within M ci"
  shows "agrees M (efold add_item_to_ci items ci)"
  using assms
proof (induction items arbitrary: ci)
  case (Cons i items)
  have "agrees M (add_item_to_ci i ci)" by (rule add_item_agrees) (use Cons.prems in auto)
  then show ?case unfolding efold.simps by (rule agrees_bind) (rule Cons.IH, use Cons.prems in auto)
qed simp

lemma check_consistency_no_clash: "check_consistency ci = Inl e \<Longrightarrow> \<not> is_clash e"
  by (auto simp: check_consistency_def split: if_splits option.splits)

lemma from_metadata_agrees:
  assumes "\<And>i. i \<in> set items \<Longrightarrow> all_named M (item_types i)"
  shows "agrees M (ci_from_metadata namespace docstring items)"
proof -
  have group: "agrees M (add_group_to_ci namespace items ci)" if "within M ci" for ci
  proof -
    have "agrees M (ebind (check_consistency ci) (\<lambda>_. Inr ci))" if "within M ci" for ci
      using that check_consistency_no_clash by (cases "check_consistency ci") simp_all
    then show ?thesis unfolding add_group_to_ci_def by (auto intro!: agrees_bind items_agree assms that)
  qed
  have "agrees M (ebind (learn_types [Type_String] ci) (\<lambda>ci. ebind (add_group_to_ci namespace items ci)
      (\<lambda>ci. Inr (ci_infer_recursive_types ci))))" if "within M ci" for ci
    by (intro agrees_bind agrees_learn group that) (simp_all add: within_def ci_infer_recursive_types_def)
  moreover have "within M (ci_new namespace)" by (simp add: within_def ci_new_def universe_new_def)
  ultimately show ?thesis
    by (auto simp: ci_from_metadata_def add_metadata_def Let_def within_def intro!: agrees_bind)
qed

end
