(* ===== verification/UdlTheorems.thy ===== *)
theory UdlTheorems
  imports UdlInterface
begin

text \<open>
  The properties of a UDL file that the parser accepts, with an example file, and what the converters do in
  the cases that the comments and the documentation do not mention.
\<close>

section \<open>An example file\<close>

text \<open>\<open>namespace demo { [Throws=Failure] u32 age(Person p); }; dictionary Person { u32 years = 7; };
  [Error] enum Failure { "Unknown" }; [Custom] typedef string Url;\<close>\<close>

definition example_age :: WNamespaceOperation where
  "example_age = \<lparr>wnop_docstring = None, wnop_attributes = Some [WAttr_Ident ''Throws'' (WIdent ''Failure'')],
     wnop_return_type = WReturn_Type (WType_NonAny (W_Identifier ''u32'' False)), wnop_identifier = Some ''age'',
     wnop_args = [WArg_Single None False None (WType_NonAny (W_Identifier ''Person'' False)) ''p'' None]\<rparr>"

definition example_years :: WDictionaryMember where
  "example_years = \<lparr>wdm_docstring = None, wdm_attributes = None, wdm_required = False,
     wdm_type = WType_NonAny (W_Identifier ''u32'' False), wdm_identifier = ''years'',
     wdm_default = Some (WDefault_Integer (WInt_Dec ''7''))\<rparr>"

definition example_defns :: "WDefinition list" where
  "example_defns =
     [WDef_Namespace \<lparr>wn_docstring = None, wn_attributes = None, wn_identifier = ''demo'',
        wn_members = [WNamespace_Operation example_age]\<rparr>,
      WDef_Dictionary \<lparr>wd_docstring = None, wd_attributes = None, wd_identifier = ''Person'', wd_inheritance = None,
        wd_members = [example_years]\<rparr>,
      WDef_Enum \<lparr>we_docstring = None, we_attributes = Some [WAttr_NoArgs ''Error''], we_identifier = ''Failure'',
        we_values = [\<lparr>wev_docstring = None, wev_value = ''Unknown''\<rparr>]\<rparr>,
      WDef_Typedef \<lparr>wt_attributes = Some [WAttr_NoArgs ''Custom''], wt_type_attributes = None,
        wt_type = WType_NonAny (W_Identifier ''string'' False), wt_identifier = ''Url''\<rparr>]"

definition example_fn :: FnMetadata where
  "example_fn = \<lparr>fn_module_path = ''demo_crate'', fn_name = ''age'', fn_orig_name = None, fn_is_async = False,
     fn_inputs = [\<lparr>param_name = ''p'', param_ty = Type_Record ''demo_crate'' ''Person'', param_by_ref = False,
       param_optional = False, param_default = None\<rparr>],
     fn_return_type = Some Type_UInt32, fn_throws = Some (Type_Enum ''demo_crate'' ''Failure''), fn_checksum = None,
     fn_docstring = None\<rparr>"

definition example_types :: TypeCollector where
  "example_types = \<lparr>tc_namespace = ''demo'', tc_namespace_docstring = None, tc_crate_name = ''demo_crate'',
     tc_type_definitions =
       [(''Person'', Type_Record ''demo_crate'' ''Person''), (''Failure'', Type_Enum ''demo_crate'' ''Failure''),
        (''Url'', Type_Custom ''demo_crate'' ''Url'' Type_String)]\<rparr>"

lemma example_collected:
  "add_type_definitions_from example_defns (tc_new\<lparr>tc_namespace := ''demo'', tc_crate_name := ''demo_crate''\<rparr>) = Inr example_types"
  by (simp add: example_defns_def add_type_definitions_from_def tc_new_def find_dictionary_def find_enum_def
      find_typedef_def Let_def tc_add_type_definition_def tc_module_path_def from_option_def typedef_attributes_def
      parse_attributes_def check_all_def only_def no_args_attribute_def ok_or_def get_crate_name_def is_custom_def
      resolve_attributed_type_def may_be_null_def resolve_identifier_def resolve_builtin_type_def example_types_def)

lemma example_fn_converted: "fn_from_operation dedent example_types example_age = Inr example_fn"
  by (simp add: fn_from_operation_def example_age_def example_fn_def example_types_def from_option_def
      function_attributes_def parse_attributes_def check_all_def only_def Let_def may_be_null_def resolve_identifier_def
      resolve_builtin_type_def ok_or_def convert_throws_def get_throws_err_def eoption_def get_type_definition_def
      resolve_attributed_type_def convert_default_def argument_attributes_def attrs_by_ref_def contains_attr_def
      attrs_is_async_def tc_module_path_def)

lemma example_parsed: "\<exists>ci. from_webidl dedent example_defns ''demo_crate'' = Inr ci \<and> Metadata_Func example_fn \<in> ic_items ci \<and>
    ic_types ci = example_types"
proof -
  have "find_namespace example_defns = Inr ''demo''" by (simp add: example_defns_def)
  moreover have "\<exists>ci. process_definitions dedent example_defns \<lparr>ic_types = example_types, ic_items = {}\<rparr> = Inr ci \<and>
      Metadata_Func example_fn \<in> ic_items ci \<and> ic_types ci = example_types"
  proof -
    have same: "example_types\<lparr>tc_namespace_docstring := None\<rparr> = example_types" by (simp add: example_types_def)
    have "tc_namespace example_types = ''demo''" by (simp add: example_types_def)
    with same example_fn_converted show ?thesis
      by (simp add: example_defns_def process_definitions_def process_namespace_def Let_def ic_add_definition_def
          record_from_dictionary_def from_option_def make_uniffi_traits_def get_traits_def field_from_member_def
          example_years_def may_be_null_def resolve_identifier_def resolve_builtin_type_def convert_default_def eoption_def
          convert_plain_value_def convert_integer_def is_signed_int_def is_unsigned_int_def u64_from_str_radix_def
          nonempty_digits_def numeral_text_def starts_with_minus_def to_lowercase_def lower_char_def to_digit_def
          enum_from_enum_def enum_attributes_def parse_attributes_def check_all_def only_def no_args_attribute_def ok_or_def
          with_item_def insert_traits_def)
  qed
  ultimately show ?thesis using example_collected by (auto simp: from_webidl_def)
qed

section \<open>Names\<close>

text \<open>C18: In an accepted UDL file a name means one type: wherever an item of the result mentions a named type, at
  whatever depth of optionals, sequences, maps and custom types, it is exactly the type (kind, crate, and
  for custom types the type behind it) that the file's definition of this name stands for.  No item can
  mention a name that the file does not define.\<close>

theorem udl_names_mean_definitions:
  assumes "from_webidl dedent defns crate = Inr ci" "i \<in> ic_items ci" "t \<in> item_types i"
    and "s \<in> set (iter_types t)" "type_name s = Some nm"
  shows "get_type_definition (ic_types ci) nm = Some s"
proof -
  have "named (get_type_definition (ic_types ci)) t"
    using from_webidl_named [OF assms(1)] assms(2,3) by (auto simp: items_named_def item_named_def)
  with assms(4,5) show ?thesis unfolding named_def by blast
qed

theorem udl_names_mean_definitions_witness:
  "\<exists>ci. from_webidl (\<lambda>s. s) example_defns ''demo_crate'' = Inr ci \<and>
     get_type_definition (ic_types ci) ''Person'' = Some (Type_Record ''demo_crate'' ''Person'') \<and>
     get_type_definition (ic_types ci) ''Failure'' = Some (Type_Enum ''demo_crate'' ''Failure'')"
proof -
  obtain ci where ci: "from_webidl (\<lambda>s. s) example_defns ''demo_crate'' = Inr ci" "Metadata_Func example_fn \<in> ic_items ci"
    using example_parsed by blast
  from udl_names_mean_definitions [OF ci, of "Type_Record ''demo_crate'' ''Person''" "Type_Record ''demo_crate'' ''Person''" "''Person''"]
    udl_names_mean_definitions [OF ci, of "Type_Enum ''demo_crate'' ''Failure''" "Type_Enum ''demo_crate'' ''Failure''" "''Failure''"]
  have "get_type_definition (ic_types ci) ''Person'' = Some (Type_Record ''demo_crate'' ''Person'') \<and>
      get_type_definition (ic_types ci) ''Failure'' = Some (Type_Enum ''demo_crate'' ''Failure'')"
    by (simp add: example_fn_def callable_meta_types_def)
  with ci(1) show ?thesis by blast
qed

text \<open>C15: The component interface built from an accepted UDL file, its items taken in any order, never fails
  with two types for one name: that error is left to what the metadata of a library adds.\<close>

theorem udl_interface_no_type_conflict:
  assumes "parse_udl dedent defns crate = Inr g" "set items \<subseteq> grp_items g"
  shows "ci_from_metadata (grp_namespace g) docstring items \<noteq> Inl (CiErr_conflicting_types a b)"
proof -
  from assms(1) obtain ci where ci: "from_webidl dedent defns crate = Inr ci" "g = into_group ci"
    by (auto simp: parse_udl_def ebind_Inr_iff)
  have "all_named (get_type_definition (ic_types ci)) (item_types i)" if "i \<in> set items" for i
    using from_webidl_named [OF ci(1)] assms(2) that ci(2)
    by (auto simp: items_named_def item_named_def all_named_def into_group_def)
  from from_metadata_agrees [OF this] have "agrees (get_type_definition (ic_types ci)) (ci_from_metadata (grp_namespace g) docstring items)" .
  then show ?thesis by (cases "ci_from_metadata (grp_namespace g) docstring items") auto
qed

theorem udl_interface_no_type_conflict_witness:
  "\<exists>g. parse_udl (\<lambda>s. s) example_defns ''demo_crate'' = Inr g \<and> Metadata_Func example_fn \<in> grp_items g \<and>
     ci_from_metadata (grp_namespace g) None [Metadata_Func example_fn] \<noteq>
       Inl (CiErr_conflicting_types (Type_Record ''demo_crate'' ''Person'') (Type_Enum ''demo_crate'' ''Person''))"
proof -
  obtain ci where ci: "from_webidl (\<lambda>s. s) example_defns ''demo_crate'' = Inr ci" "Metadata_Func example_fn \<in> ic_items ci"
    using example_parsed by blast
  then have g: "parse_udl (\<lambda>s. s) example_defns ''demo_crate'' = Inr (into_group ci)" "Metadata_Func example_fn \<in> grp_items (into_group ci)"
    by (simp_all add: parse_udl_def into_group_def)
  moreover have "set [Metadata_Func example_fn] \<subseteq> grp_items (into_group ci)" using g(2) by simp
  from udl_interface_no_type_conflict [OF g(1) this] have "ci_from_metadata (grp_namespace (into_group ci)) None [Metadata_Func example_fn] \<noteq>
      Inl (CiErr_conflicting_types (Type_Record ''demo_crate'' ''Person'') (Type_Enum ''demo_crate'' ''Person''))" .
  ultimately show ?thesis by blast
qed

section \<open>Cases that are easy to miss\<close>

text \<open>\<open>[Traits=(...)]\<close> on an \<open>enum\<close> changes nothing, whatever it lists, existing traits or not.\<close>

lemma enum_traits_ignored:
  "we_attributes d = Some [WAttr_IdentList ''Traits'' names] \<Longrightarrow>
     enum_from_enum dedent types d = enum_from_enum dedent types (d\<lparr>we_attributes := None\<rparr>)"
  by (simp add: enum_from_enum_def from_option_def enum_attributes_def parse_attributes_def check_all_def only_def
      contains_error_attr_def contains_remote_def contains_attr_def contains_non_exhaustive_attr_def)

text \<open>An error type that is not defined is an error for a function and a panic for a constructor.\<close>

lemma constructor_throws_panics:
  assumes "wctor_attributes c = Some [WAttr_Ident ''Throws'' (WIdent nm)]" "get_type_definition types nm = None"
  shows "constructor_from_member dedent types c = Inl UdlErr_panic"
  using assms by (simp add: constructor_from_member_def from_option_def constructor_attributes_def parse_attributes_def
      check_all_def only_def get_throws_err_def eoption_def ok_or_def Let_def)

text \<open>A second namespace block with the same name is accepted and replaces the docstring of the first.\<close>

lemma namespace_twice:
  assumes "wn_attributes d = None" "wn_identifier d = tc_namespace (ic_types ci)" "wn_members d = []"
  shows "process_namespace dedent d ci =
    Inr (ci\<lparr>ic_types := (ic_types ci)\<lparr>tc_namespace_docstring := map_option dedent (wn_docstring d)\<rparr>\<rparr>)"
  using assms by (simp add: process_namespace_def Let_def)

text \<open>\<open>[Enum]\<close> with \<open>[Traits]\<close> lets any other attribute through.\<close>

lemma enum_with_traits_accepts:
  "interface_attributes [WAttr_NoArgs ''Enum'', WAttr_NoArgs ''Trait'', WAttr_IdentList ''Traits'' []] =
     Inr [Attr_Enum, Attr_Trait, Attr_Traits []]"
  "interface_attributes [WAttr_NoArgs ''Enum'', WAttr_NoArgs ''Remote''] = Inl UdlErr_conflicting_attributes"
  by (simp_all add: interface_attributes_def parse_attributes_def check_all_def only_def no_args_attribute_def ok_or_def Let_def)

text \<open>The manual declares a non-exhaustive enum with fields as an interface with \<open>[Enum]\<close> and \<open>[NonExhaustive]\<close>; an
  interface accepts no \<open>NonExhaustive\<close>.\<close>

lemma non_exhaustive_interface_rejected:
  "interface_attributes [WAttr_NoArgs ''Enum'', WAttr_NoArgs ''NonExhaustive''] =
     Inl (UdlErr_attribute_not_for Attr_NonExhaustive ''interface definition'')"
  by (simp add: interface_attributes_def parse_attributes_def check_all_def only_def no_args_attribute_def ok_or_def)

end
