(* ===== verification/UdlNumbers.thy ===== *)
theory UdlNumbers
  imports UdlLiteral
begin

text \<open>
  Default values that are integers: the number in the metadata is the number that the UDL file writes, in
  each of the notations that the parser (\<open>weedle\<close>) accepts, with the exceptions that the code has.
\<close>

section \<open>How a number is written\<close>

text \<open>A number as the parser delivers it: a sign, the prefix of the notation and digits of its radix.  A
  decimal number begins with a digit that is not zero, an octal one with a zero, so that \<open>0\<close> is an octal number without
  further digits, and a hexadecimal one with \<open>0x\<close> or \<open>0X\<close>, after which the parser lets all digits be missing.\<close>

datatype NumberToken =
  NumberToken (token_radix: Radix) (token_negative: bool) (token_upper_prefix: bool) (token_digits: string)

primrec radix_digits :: "Radix \<Rightarrow> string" where
  "radix_digits Radix_Decimal = ''0123456789''"
| "radix_digits Radix_Octal = ''01234567''"
| "radix_digits Radix_Hexadecimal = ''0123456789abcdefABCDEF''"

definition token_ok :: "NumberToken \<Rightarrow> bool" where
  "token_ok w \<longleftrightarrow> set (token_digits w) \<subseteq> set (radix_digits (token_radix w)) \<and>
     (token_radix w = Radix_Decimal \<longrightarrow> token_digits w \<noteq> [] \<and> hd (token_digits w) \<noteq> CHR ''0'')"

definition token_sign :: "NumberToken \<Rightarrow> string" where
  "token_sign w = (if token_negative w then ''-'' else '''')"

definition token_prefix :: "NumberToken \<Rightarrow> string" where
  "token_prefix w = (case token_radix w of
     Radix_Decimal \<Rightarrow> '''' | Radix_Octal \<Rightarrow> ''0'' | Radix_Hexadecimal \<Rightarrow> if token_upper_prefix w then ''0X'' else ''0x'')"

primrec integer_node :: "Radix \<Rightarrow> string \<Rightarrow> WIntegerLit" where
  "integer_node Radix_Decimal s = WInt_Dec s"
| "integer_node Radix_Octal s = WInt_Oct s"
| "integer_node Radix_Hexadecimal s = WInt_Hex s"

definition written :: "NumberToken \<Rightarrow> WIntegerLit" where
  "written w = integer_node (token_radix w) (token_sign w @ token_prefix w @ token_digits w)"

text \<open>The number that is written, without its sign: the positional value of the digits, in either case.\<close>

definition digit_number :: "char \<Rightarrow> nat" where
  "digit_number c = (let n = of_char c in if n \<le> 57 then n - 48 else if n \<le> 70 then n - 55 else n - 87)"

definition token_number :: "NumberToken \<Rightarrow> nat" where
  "token_number w = foldl (\<lambda>a c. a * radix_u32 (token_radix w) + digit_number c) 0 (token_digits w)"

text \<open>The two hexadecimal forms that cannot be read: the prefix \<open>0X\<close>, and a prefix without digits.\<close>

definition token_readable :: "NumberToken \<Rightarrow> bool" where
  "token_readable w \<longleftrightarrow> (token_radix w = Radix_Hexadecimal \<longrightarrow> \<not> token_upper_prefix w \<and> token_digits w \<noteq> [])"

text \<open>The radix for the output: decimal for a plain zero and for negative numbers.\<close>

definition token_output_radix :: "NumberToken \<Rightarrow> Radix" where
  "token_output_radix w =
     (if token_negative w \<or> token_radix w = Radix_Octal \<and> token_digits w = [] then Radix_Decimal else token_radix w)"

text \<open>What an error shows of the number.\<close>

definition token_shown :: "NumberToken \<Rightarrow> string" where
  "token_shown w = token_sign w @ to_lowercase
     ((if token_radix w = Radix_Hexadecimal \<and> \<not> token_upper_prefix w then '''' else token_prefix w) @ token_digits w)"

section \<open>Reading the digits\<close>

lemma hex_digit_chars:
  "list_all (\<lambda>c. lower_char c \<noteq> CHR ''-'' \<and> lower_char c \<noteq> CHR ''+'' \<and> c \<noteq> CHR ''-'' \<and> c \<noteq> CHR ''x'') (radix_digits Radix_Hexadecimal)"
  by code_simp

lemma digit_values:
  "list_all (\<lambda>c. to_digit 10 (lower_char c) = Some (digit_number c)) (radix_digits Radix_Decimal)"
  "list_all (\<lambda>c. to_digit 8 (lower_char c) = Some (digit_number c)) (radix_digits Radix_Octal)"
  "list_all (\<lambda>c. to_digit 16 (lower_char c) = Some (digit_number c)) (radix_digits Radix_Hexadecimal)"
  by (simp_all add: to_digit_def lower_char_def digit_number_def Let_def)

lemma radix_digit:
  assumes "c \<in> set (radix_digits radix)"
  shows "lower_char c \<noteq> CHR ''-''" "lower_char c \<noteq> CHR ''+''" "c \<noteq> CHR ''-''" "c \<noteq> CHR ''x''"
    "to_digit (radix_u32 radix) (lower_char c) = Some (digit_number c)"
proof -
  have "c \<in> set (radix_digits Radix_Hexadecimal)" using assms by (cases radix) auto
  then show "lower_char c \<noteq> CHR ''-''" "lower_char c \<noteq> CHR ''+''" "c \<noteq> CHR ''-''" "c \<noteq> CHR ''x''"
    using hex_digit_chars unfolding list_all_iff by blast+
  show "to_digit (radix_u32 radix) (lower_char c) = Some (digit_number c)"
    using assms digit_values unfolding list_all_iff by (cases radix) (simp_all del: radix_digits.simps)
qed

lemma digits_value_token:
  assumes "set ds \<subseteq> set (radix_digits radix)"
  shows "digits_value (radix_u32 radix) acc (to_lowercase ds) =
    Some (foldl (\<lambda>a c. a * radix_u32 radix + digit_number c) acc ds)"
  using assms by (induction ds arbitrary: acc) (simp_all add: to_lowercase_def radix_digit)

lemma trim_start_0x_none: "CHR ''x'' \<notin> set s \<Longrightarrow> trim_start_0x s = s"
  by (cases s rule: trim_start_0x.cases) auto

lemma lower_prefix:
  "lower_char CHR ''-'' = CHR ''-''" "lower_char CHR ''0'' = CHR ''0''" "lower_char CHR ''X'' = CHR ''x''"
  by code_simp+

lemma written_text:
  assumes "token_ok w" "integer_text (written w) = (s, r)"
  shows "r = token_radix w" "starts_with_minus s = token_negative w" "numeral_text s = token_shown w"
    "dest_radix s r = token_output_radix w"
proof -
  let ?body = "token_prefix w @ token_digits w"
  have s: "s = token_sign w @ ?body" and r: "r = token_radix w"
    using assms(2) by (cases "token_radix w"; simp add: written_def)+
  then show "r = token_radix w" by simp
  have ds: "c \<noteq> CHR ''-''" "c \<noteq> CHR ''x''" if "c \<in> set (token_digits w)" for c
    using assms(1) that radix_digit(3,4) unfolding token_ok_def by blast+
  have x: "CHR ''x'' \<notin> set (token_digits w)" using ds(2) by blast
  have trim: "trim_start_0x ?body =
      (if token_radix w = Radix_Hexadecimal \<and> \<not> token_upper_prefix w then '''' else token_prefix w) @ token_digits w"
  proof (cases "token_radix w = Radix_Hexadecimal \<and> \<not> token_upper_prefix w")
    case True
    then show ?thesis using trim_start_0x_none [OF x] by (simp add: token_prefix_def)
  next
    case False
    then have "CHR ''x'' \<notin> set ?body" using x by (auto simp: token_prefix_def split: Radix.split)
    from trim_start_0x_none [OF this] False show ?thesis by auto
  qed
  have hd: "starts_with_minus ?body = False"
    using ds(1) by (cases "token_digits w") (auto simp: starts_with_minus_def token_prefix_def split: Radix.split)
  show minus: "starts_with_minus s = token_negative w"
    using hd s by (cases "token_negative w") (simp_all add: starts_with_minus_def token_sign_def)
  show "numeral_text s = token_shown w"
  proof (cases "token_negative w")
    case True
    then have "starts_with_minus s" "tl s = ?body" using s by (simp_all add: starts_with_minus_def token_sign_def)
    then show ?thesis
      unfolding numeral_text_def token_shown_def using True trim by (simp add: to_lowercase_def lower_prefix token_sign_def)
  next
    case False
    then show ?thesis unfolding numeral_text_def token_shown_def using minus s trim by (simp add: token_sign_def)
  qed
  have "s = ''0'' \<longleftrightarrow> \<not> token_negative w \<and> token_radix w = Radix_Octal \<and> token_digits w = []"
    using assms(1)
    by (cases "token_radix w"; cases "token_digits w") (auto simp: s token_sign_def token_prefix_def token_ok_def)
  then show "dest_radix s r = token_output_radix w" using minus by (auto simp: dest_radix_def token_output_radix_def r)
qed

text \<open>What the two parsers of the library make of the digits.\<close>

definition token_body :: "NumberToken \<Rightarrow> string" where
  "token_body w = to_lowercase
     ((if token_radix w = Radix_Hexadecimal \<and> \<not> token_upper_prefix w then '''' else token_prefix w) @ token_digits w)"

lemma token_body_value:
  assumes "token_ok w"
  shows "nonempty_digits (radix_u32 (token_radix w)) (token_body w) = (if token_readable w then Some (token_number w) else None)"
proof -
  have ds: "set (token_digits w) \<subseteq> set (radix_digits (token_radix w))" using assms by (simp add: token_ok_def)
  note val = digits_value_token [OF ds, of 0]
  have zero: "to_digit 8 CHR ''0'' = Some 0" "to_digit 16 CHR ''0'' = Some 0" "to_digit 16 CHR ''x'' = None"
    by (simp_all add: to_digit_def)
  show ?thesis
  proof (cases "token_radix w")
    case Radix_Decimal
    with assms val show ?thesis
      by (simp add: nonempty_digits_def token_body_def token_prefix_def token_readable_def token_number_def token_ok_def to_lowercase_def)
  next
    case Radix_Octal
    with val zero(1) show ?thesis
      by (simp add: nonempty_digits_def token_body_def token_prefix_def token_readable_def token_number_def to_lowercase_def lower_prefix)
  next
    case Radix_Hexadecimal
    with val zero(2,3) show ?thesis
      by (auto simp: nonempty_digits_def token_body_def token_prefix_def token_readable_def token_number_def to_lowercase_def lower_prefix)
  qed
qed

lemma token_body_start:
  assumes "token_ok w"
  shows "token_body w = [] \<or> hd (token_body w) \<noteq> CHR ''-'' \<and> hd (token_body w) \<noteq> CHR ''+''"
proof -
  have "lower_char c \<noteq> CHR ''-'' \<and> lower_char c \<noteq> CHR ''+''" if "c \<in> set (token_digits w)" for c
    using assms that radix_digit(1,2) unfolding token_ok_def by blast
  then show ?thesis
    by (cases "token_digits w")
      (auto simp: token_body_def token_prefix_def to_lowercase_def lower_prefix split: Radix.split)
qed

section \<open>Default values\<close>

text \<open>C21: an integer default value of a UDL file is read exactly.  For every number that the parser accepts -- decimal,
  octal or hexadecimal, with or without a minus sign, with digits in either case, and \<open>0\<close>, which it takes for an octal number --
  the metadata holds this number, in 64 bits, if it fits \<open>i64\<close> for a signed type and \<open>u64\<close> for an unsigned one,
  and parsing fails otherwise, also when the prefix is \<open>0X\<close> instead of \<open>0x\<close> or no digit follows it.  The range
  that counts is that of \<open>i64\<close> and \<open>u64\<close>, also for a field of a narrower type; a
  negative number and a plain zero are passed on as decimal ones, the others in the notation of the file.\<close>

theorem udl_integer_defaults_exact:
  assumes "token_ok w"
  shows "convert_integer (written w) t =
     (if is_signed_int t then
        if token_readable w \<and> (token_number w < 2 ^ 63 \<or> token_negative w \<and> token_number w = 2 ^ 63) then
          Inr (Literal_Int ((if token_negative w then uminus else id) (of_nat (token_number w))) (token_output_radix w) t)
        else Inl UdlErr_parse_int
      else if is_unsigned_int t then
        if token_readable w \<and> \<not> token_negative w \<and> token_number w < 2 ^ 64 then
          Inr (Literal_UInt (of_nat (token_number w)) (token_output_radix w) t)
        else Inl UdlErr_parse_int
      else Inl (UdlErr_literal_type (token_shown w) t))"
proof -
  obtain s r where sr: "integer_text (written w) = (s, r)" by fastforce
  note lit = written_text [OF assms sr]
  have shown: "token_shown w = token_sign w @ token_body w" by (simp add: token_shown_def token_body_def)
  note val = token_body_value [OF assms] and front = token_body_start [OF assms]
  have dash: "to_digit radix CHR ''-'' = None" if "radix \<le> 16" for radix using that by (simp add: to_digit_def)
  have radix: "radix_u32 (token_radix w) \<le> 16" by (cases "token_radix w") simp_all
  have i64: "i64_from_str_radix (token_shown w) (radix_u32 (token_radix w)) =
      (if token_readable w \<and> (token_number w < 2 ^ 63 \<or> token_negative w \<and> token_number w = 2 ^ 63)
       then Inr ((if token_negative w then uminus else id) (of_nat (token_number w))) else Inl UdlErr_parse_int)"
    using val front by (auto simp: shown token_sign_def i64_from_str_radix_def)
  have u64: "u64_from_str_radix (token_shown w) (radix_u32 (token_radix w)) =
      (if token_readable w \<and> \<not> token_negative w \<and> token_number w < 2 ^ 64
       then Inr (of_nat (token_number w)) else Inl UdlErr_parse_int)"
  proof (cases "token_negative w")
    case True
    then show ?thesis using dash [OF radix] by (simp add: shown token_sign_def u64_from_str_radix_def nonempty_digits_def)
  next
    case False
    then show ?thesis using val front by (auto simp: shown token_sign_def u64_from_str_radix_def)
  qed
  show ?thesis unfolding convert_integer_def sr prod.case lit Let_def lit(3) lit(4) [unfolded lit(1)] lit(1) i64 u64 by auto
qed

theorem udl_integer_defaults_exact_witness:
  "convert_integer (WInt_Hex ''-0x1F'') Type_Int8 = Inr (Literal_Int (- 31) Radix_Decimal Type_Int8) \<and>
   convert_integer (WInt_Oct ''0'') Type_UInt8 = Inr (Literal_UInt 0 Radix_Decimal Type_UInt8) \<and>
   convert_integer (WInt_Hex ''0X1'') Type_UInt8 = Inl UdlErr_parse_int"
proof -
  let ?a = "NumberToken Radix_Hexadecimal True False ''1F''" and ?b = "NumberToken Radix_Octal False False ''''"
    and ?c = "NumberToken Radix_Hexadecimal False True ''1''"
  have number: "token_number ?a = 31" by code_simp
  have "token_ok ?a" "token_ok ?b" "token_ok ?c" by (simp_all add: token_ok_def)
  from udl_integer_defaults_exact [OF this(1), of Type_Int8] udl_integer_defaults_exact [OF this(2), of Type_UInt8]
    udl_integer_defaults_exact [OF this(3), of Type_UInt8] number show ?thesis
    by (simp add: written_def token_sign_def token_prefix_def is_signed_int_def is_unsigned_int_def token_readable_def
        token_output_radix_def token_number_def)
qed

text \<open>The prefix \<open>0X\<close>, which the grammar allows as well, is not removed.\<close>

lemma upper_case_hex_rejected:
  assumes "is_signed_int t \<or> is_unsigned_int t"
  shows "convert_integer (WInt_Hex (CHR ''0'' # CHR ''X'' # s)) t = Inl UdlErr_parse_int"
proof -
  have x: "char_of (120 :: nat) = CHR ''x''" by (rule of_char_eq_iff [where 'a = nat, THEN iffD1]) simp
  have "numeral_text (CHR ''0'' # CHR ''X'' # s) = CHR ''0'' # CHR ''x'' # to_lowercase s"
    by (simp add: x numeral_text_def starts_with_minus_def to_lowercase_def lower_char_def)
  moreover have "to_digit 16 CHR ''x'' = None" "to_digit 16 CHR ''0'' = Some 0" by (simp_all add: to_digit_def)
  ultimately show ?thesis using assms
    by (auto simp: convert_integer_def Let_def i64_from_str_radix_def u64_from_str_radix_def nonempty_digits_def)
qed

end
