(* ===== verification/Spec2Isabelle.thy ===== *)
theory Spec2Isabelle
  imports MetaProps MetaGroup FfiProps RustFuture FfiSerialize ForeignFuture Objects FromMetaProps TypeIds
    CiProps CiOrder CiDiscr UdlTheorems UdlNumbers
begin

text \<open>
  UniFFI generates foreign-language bindings for Rust crates.  This development models its core: the
  metadata that the macros embed in the library and the bindings generator reads back, the pipeline that
  turns metadata into the representation that binding generators work on, and the run-time that moves
  values, errors, objects and futures across the FFI.

  \<^bold>\<open>Metadata\<close> (\<open>uniffi_meta\<close>, \<open>uniffi_core/src/metadata.rs\<close>, \<open>uniffi_macros\<close>).
  \<open>MetaTypes\<close> has the types and item records.  \<open>MetaBuffer\<close> has the constant buffer in which a macro
  writes an item, and the checksum; its contract \<open>builds\<close> says what a chain of writes appends.
  \<open>MetaReader\<close> is the whole reader of \<open>reader.rs\<close>, as a state-and-error reader whose errors keep panics
  apart.  \<open>MetaWire\<close> has the reader's contract \<open>parses\<close>.  \<open>MetaEncode\<close>, \<open>MacroItems\<close>, \<open>MacroData\<close> and
  \<open>MacroMeta\<close> are the metadata expressions of the macros, each with its encoding and the proof that
  the reader takes the encoding back; \<open>MetaProps\<close> states what follows.  \<open>FfiNames\<close> are the exported
  symbols, \<open>MetaGroup\<close> the grouping of items by crate.

  \<^bold>\<open>Bindings pipeline\<close> (\<open>uniffi_bindgen/src/pipeline\<close>).  \<open>Results\<close> has the combinators of fallible code.
  \<open>InitialNodes\<close> and \<open>GeneralNodes\<close> are the two representations.  \<open>FromMeta\<close> builds the first from the
  list of metadata items; \<open>FromMetaProps\<close> shows that no exported symbol is lost from there to the bindings.
  \<open>GeneralContext\<close> is the state that the
  pass between them carries, with renaming, exclusion, type ids and the mapping of types;
  \<open>Discriminants\<close>, \<open>FfiDefs\<close> and \<open>GeneralMap\<close> are the pass itself, up to \<open>pipeline\<close>; \<open>DepSort\<close> and
  \<open>RecursiveTypes\<close> order the result and find recursive types; \<open>TypeIds\<close> is about the ids of types.  \<open>FfiClosure\<close> and \<open>FfiUses\<close> show that
  what bindings are bound to and what FFI definitions refer to is declared, and which other names the representation carries.

  \<^bold>\<open>Component interface\<close> (\<open>uniffi_bindgen/src/interface\<close>, \<open>macro_metadata/ci.rs\<close>), what the generators of
  Kotlin, Swift and Ruby work on.  \<open>CiNodes\<close> and \<open>CiItems\<close> are its items and their FFI functions,
  \<open>CiBuild\<close> the universe of types and the operations that build an interface from a metadata group,
  \<open>CiFfi\<close> the FFI definitions and the queries.  \<open>CiTypes\<close> shows what every operation keeps of the types
  (\<open>adds\<close>), \<open>CiSymbols\<close> what every item adds to the FFI functions (\<open>item_added\<close>), \<open>CiOrder\<close> that definitions
  come before their uses, \<open>CiDiscr\<close> and \<open>CiProps\<close> the discriminants, the known types and the types in an item.
  Items are a list in the order of the \<open>BTreeSet\<close>.

  \<^bold>\<open>UDL\<close> (\<open>uniffi_udl\<close>), the second source of metadata groups.  \<open>UdlAst\<close> is the syntax tree of \<open>weedle2\<close>,
  \<open>UdlAttributes\<close>, \<open>UdlTypes\<close> and \<open>UdlLiteral\<close> the attributes, the table of types with the pass that fills it
  and the resolver that reads it, and default values; \<open>UdlConvert\<close> turns definitions into items
  (\<open>from_webidl\<close>).  \<open>UdlProps\<close> shows that items mention only what the table holds, \<open>UdlInterface\<close> that building
  a component interface from such items meets no conflicting types, \<open>UdlNumbers\<close> which of the parser's numbers are read, and
  as what; \<open>UdlTheorems\<close> has an example file and the properties.

  \<^bold>\<open>Run-time\<close> (\<open>uniffi_core/src/ffi\<close>, \<open>ffi_converter_impls.rs\<close>, \<open>ffi_converter_traits.rs\<close>).
  \<open>RustBuffer\<close> is a buffer given to the foreign side as raw parts, on an explicit heap of allocated
  blocks.  \<open>RustCall\<close> is the call protocol with its status, errors and panics.  \<open>FfiConverter\<close> has the
  serialisation of every built-in type and of the derived ones, with the locales \<open>codec\<close>, \<open>map_codec\<close>,
  \<open>derived_record\<close> and \<open>derived_enum\<close> as the contracts; \<open>FfiProps\<close> states what follows, with the locale
  \<open>safe_reader\<close> for readers that never panic; reserving memory for a length that the foreign side
  gives is a parameter (\<open>fits\<close>) that can fail.  \<open>Scaffolding\<close> composes lifting, the call and lowering into
  the generated functions, \<open>FfiSerialize\<close> is their form on element buffers.  \<open>RustFuture\<close> is the future
  that the foreign side polls, \<open>ForeignFuture\<close> an asynchronous call in the other direction, both as
  interleaved steps at the granularity of the locks; waking a waker is a step of its own, after the lock is released.  \<open>ForeignFuture\<close> assumes
  that the foreign side completes a call at most once, and leaves out the generated closure that lowers the arguments and calls
  through the vtable.  \<open>Objects\<close> counts the references that handles own.

  Fuel: the only fuel is that of \<open>read_type_fuel\<close>, one more than the bytes that are left; each level of
  a type takes at least one byte, so it never runs out (\<open>MetaProps.read_metadata_total\<close>).

  Parameters: the capacity that a growing vector has (\<open>cap_of\<close>, \<open>grow\<close>), fresh addresses, the order in
  which hashed collections are traversed, the Rust functions behind the scaffolding, the user's
  conversions, the parser and printer of the \<open>toml\<close> crate, the case conversion of the \<open>heck\<close> crate and
  \<open>textwrap::dedent\<close>.

  Not modelled: parsing of Rust sources, the WebIDL parser of \<open>weedle2\<close>, the generators of the binding languages, process
  and file handling, tracing, the Kotlin JNI variant, and code under \<open>cfg(test)\<close> or for single-threaded
  WebAssembly.
\<close>

end
